(* ===== verification/Prelude.thy ===== *)
theory Prelude
  imports Complex_Main "HOL-Library.Multiset"
begin

text \<open>
  Shared vocabulary of the development: the result type of code that may throw, the
  loop combinators the translations use, the JavaScript string operations the sources
  call (on ASCII text), and the list lemmas the component theories rely on.

  \<^item> a TypeScript function that can throw is modelled by a function into
    \<open>'a res = js_error + 'a\<close>; \<open>Inl\<close> is the thrown error;
  \<^item> \<open>bindE\<close> sequences two such computations, \<open>mapE\<close> is \<open>Array.map\<close> with a throwing
    callback, \<open>foldE\<close> a \<open>for\<close> loop with a throwing body, \<open>checkE\<close> an
    \<open>if (bad) throw\<close> statement.
\<close>

section \<open>Errors as values\<close>

text \<open>A plain \<open>Error\<close> carries a message; an error class with a code carries both.\<close>

datatype js_error = Err string | Coded string string

type_synonym 'a res = "js_error + 'a"

named_theorems res_simps \<open>computation rules of the result combinators\<close>
named_theorems res_dests \<open>inversion rules for successful computations\<close>

definition bindE :: "'a res \<Rightarrow> ('a \<Rightarrow> 'b res) \<Rightarrow> 'b res" where
  "bindE m f = (case m of Inl e \<Rightarrow> Inl e | Inr x \<Rightarrow> f x)"

definition checkE :: "bool \<Rightarrow> js_error \<Rightarrow> unit res" where
  "checkE bad e = (if bad then Inl e else Inr ())"

primrec mapE :: "('a \<Rightarrow> 'b res) \<Rightarrow> 'a list \<Rightarrow> 'b list res" where
  "mapE f [] = Inr []"
| "mapE f (x # xs) = bindE (f x) (\<lambda>y. bindE (mapE f xs) (\<lambda>ys. Inr (y # ys)))"

primrec foldE :: "('a \<Rightarrow> 's \<Rightarrow> 's res) \<Rightarrow> 'a list \<Rightarrow> 's \<Rightarrow> 's res" where
  "foldE f [] s = Inr s"
| "foldE f (x # xs) s = bindE (f x s) (foldE f xs)"

lemma bindE_simps [simp, res_simps]:
  "bindE (Inl e) f = Inl e" "bindE (Inr x) f = f x"
  by (simp_all add: bindE_def)

lemma bindE_Inr_iff [simp, res_simps]:
  "bindE m f = Inr y \<longleftrightarrow> (\<exists>x. m = Inr x \<and> f x = Inr y)"
  by (cases m) auto

lemma bindE_Inl_iff [res_simps]:
  "bindE m f = Inl e \<longleftrightarrow> m = Inl e \<or> (\<exists>x. m = Inr x \<and> f x = Inl e)"
  by (cases m) auto

lemma bindE_assoc: "bindE (bindE m f) g = bindE m (\<lambda>x. bindE (f x) g)"
  by (cases m) auto

lemma bindE_cong [fundef_cong]:
  "\<lbrakk>m = m'; \<And>x. m' = Inr x \<Longrightarrow> f x = f' x\<rbrakk> \<Longrightarrow> bindE m f = bindE m' f'"
  by (cases m') auto

lemma checkE_Inr_iff [simp, res_simps]: "checkE bad e = Inr u \<longleftrightarrow> \<not> bad"
  by (simp add: checkE_def)

lemma checkE_simps [simp, res_simps]:
  "checkE True e = Inl e" "checkE False e = Inr ()"
  by (simp_all add: checkE_def)

lemma mapE_Inr_length [res_dests]: "mapE f xs = Inr ys \<Longrightarrow> length ys = length xs"
  by (induction xs arbitrary: ys) auto

lemma mapE_Inr_nth [res_dests]:
  "\<lbrakk>mapE f xs = Inr ys; i < length xs\<rbrakk> \<Longrightarrow> f (xs ! i) = Inr (ys ! i)"
proof (induction xs arbitrary: ys i)
  case (Cons x xs)
  then show ?case by (cases i) auto
qed simp

lemma mapE_Inr_iff: "mapE f xs = Inr ys \<longleftrightarrow> list_all2 (\<lambda>x y. f x = Inr y) xs ys"
proof (induction xs arbitrary: ys)
  case (Cons x xs)
  then show ?case by (cases ys) auto
qed auto

lemma mapE_total:
  "(\<And>x. x \<in> set xs \<Longrightarrow> f x = Inr (g x)) \<Longrightarrow> mapE f xs = Inr (map g xs)"
  by (induction xs) auto

lemma foldE_append: "foldE f (xs @ ys) s = bindE (foldE f xs s) (foldE f ys)"
  by (induction xs arbitrary: s) (auto simp: bindE_assoc intro: bindE_cong)

text \<open>A loop keeps what its body keeps.\<close>

lemma foldE_invariant:
  assumes "foldE f xs s = Inr t" and "P s"
    and "\<And>x s s'. \<lbrakk>x \<in> set xs; P s; f x s = Inr s'\<rbrakk> \<Longrightarrow> P s'"
  shows "P t"
  using assms
proof (induction xs arbitrary: s)
  case (Cons x xs)
  from Cons.prems(1) obtain s' where s': "f x s = Inr s'" and t: "foldE f xs s' = Inr t"
    by auto
  show ?case
    by (rule Cons.IH [OF t Cons.prems(3)[OF _ Cons.prems(2) s']]) (auto intro: Cons.prems(3))
qed simp

text \<open>\<open>x ?? d\<close> on a value that may be missing.\<close>

definition orElse :: "'a option \<Rightarrow> 'a \<Rightarrow> 'a" where
  "orElse m d = (case m of Some v \<Rightarrow> v | None \<Rightarrow> d)"

section \<open>Machines\<close>

text \<open>
  A component with state is a machine: operations (labels with their arguments) executed
  one after another. What every operation keeps, every run keeps.
\<close>

locale guarded_machine =
  fixes exec :: "'l \<Rightarrow> 's \<Rightarrow> 's" and inv :: "'s \<Rightarrow> bool" and guard :: "'l \<Rightarrow> bool"
  assumes exec_guarded: "\<lbrakk>guard l; inv s\<rbrakk> \<Longrightarrow> inv (exec l s)"
begin

lemma run_guarded: "\<lbrakk>list_all guard ls; inv s\<rbrakk> \<Longrightarrow> inv (fold exec ls s)"
  by (induction ls arbitrary: s) (auto intro: exec_guarded)

end

text \<open>Where every operation keeps the invariant, no guard is needed.\<close>

locale machine =
  fixes exec :: "'l \<Rightarrow> 's \<Rightarrow> 's" and inv :: "'s \<Rightarrow> bool"
  assumes exec_inv: "inv s \<Longrightarrow> inv (exec l s)"

sublocale machine \<subseteq> unguarded: guarded_machine exec inv "\<lambda>_. True"
  by unfold_locales (rule exec_inv)

context machine
begin

lemma run_inv: "inv s \<Longrightarrow> inv (fold exec ls s)"
  by (rule unguarded.run_guarded) (simp_all add: list_all_iff)

end

section \<open>JavaScript strings (ASCII)\<close>

text \<open>
  Strings are lists of characters; the case mappings and \<open>trim\<close> act on the ASCII range,
  which is the range the model covers.
\<close>

definition js_lower_char :: "char \<Rightarrow> char" where
  "js_lower_char c = (let n = of_char c :: int in if 65 \<le> n \<and> n \<le> 90 then char_of (n + 32) else c)"

definition js_upper_char :: "char \<Rightarrow> char" where
  "js_upper_char c = (let n = of_char c :: int in if 97 \<le> n \<and> n \<le> 122 then char_of (n - 32) else c)"

definition toLowerCase :: "string \<Rightarrow> string" where
  "toLowerCase = map js_lower_char"

definition toUpperCase :: "string \<Rightarrow> string" where
  "toUpperCase = map js_upper_char"

definition js_space :: "char \<Rightarrow> bool" where
  "js_space c = (let n = of_char c :: nat in n = 32 \<or> (9 \<le> n \<and> n \<le> 13))"

definition js_trim :: "string \<Rightarrow> string" where
  "js_trim s = rev (dropWhile js_space (rev (dropWhile js_space s)))"

lemma js_lower_char_idem [simp]: "js_lower_char (js_lower_char c) = js_lower_char c"
proof (cases "65 \<le> (of_char c :: nat) \<and> (of_char c :: nat) \<le> 90")
  case True
  then have "(of_char (char_of (of_char c + 32 :: nat)) :: nat) = of_char c + 32" by simp
  with True show ?thesis by (simp add: js_lower_char_def Let_def)
next
  case False
  then show ?thesis by (auto simp add: js_lower_char_def Let_def)
qed

lemma toLowerCase_idem [simp]: "toLowerCase (toLowerCase s) = toLowerCase s"
  by (simp add: toLowerCase_def)

lemma toLowerCase_length [simp]: "length (toLowerCase s) = length s"
  by (simp add: toLowerCase_def)

section \<open>Lists\<close>

lemma sum_list_map_minus: "sum_list (map (\<lambda>x. f x - g x) xs) = sum_list (map f xs) - (sum_list (map g xs) :: int)"
  by (induction xs) auto

lemma sum_list_update_int:
  "i < length xs \<Longrightarrow> sum_list (xs[i := v]) = sum_list xs - xs ! i + (v :: int)"
proof (induction xs arbitrary: i)
  case (Cons x xs)
  then show ?case by (cases i) auto
qed simp

lemma sum_list_sort_key: "sum_list (map f (sort_key k xs)) = sum_list (map (f :: _ \<Rightarrow> int) xs)"
proof -
  have "mset (map f (sort_key k xs)) = mset (map f xs)" by simp
  then show ?thesis by (metis sum_mset_sum_list)
qed

lemma sum_list_nonneg_int: "(\<And>x. x \<in> set xs \<Longrightarrow> 0 \<le> x) \<Longrightarrow> 0 \<le> (sum_list xs :: int)"
  by (induction xs) auto

lemma sum_list_mono_nth:
  assumes "length xs = length ys" and "\<And>i. i < length xs \<Longrightarrow> xs ! i \<le> (ys ! i :: 'a :: ordered_comm_monoid_add)"
  shows "sum_list xs \<le> sum_list ys"
  using assms
proof (induction xs ys rule: list_induct2)
  case (Cons x xs y ys)
  have "x \<le> y" using Cons.prems[of 0] by simp
  moreover have "sum_list xs \<le> sum_list ys"
    using Cons.prems[of "Suc _"] by (intro Cons.IH) auto
  ultimately show ?case by (auto intro: add_mono)
qed simp

lemma find_Some_in_set: "find P xs = Some x \<Longrightarrow> x \<in> set xs \<and> P x"
  by (induction xs) (auto split: if_splits)

text \<open>
  Where every element of a class has a smaller key than every other element, a stable
  sort puts the class first.
\<close>

lemma sort_key_class_first:
  assumes lt: "\<And>x y. \<lbrakk>x \<in> set xs; y \<in> set xs; P x; \<not> P y\<rbrakk> \<Longrightarrow> k x < (k y :: 'b :: linorder)"
  shows "sort_key k xs = sort_key k (filter P xs) @ sort_key k (filter (\<lambda>x. \<not> P x) xs)"
proof (rule properties_for_sort_key)
  let ?ys = "sort_key k (filter P xs) @ sort_key k (filter (\<lambda>x. \<not> P x) xs)"
  show "mset ?ys = mset xs" by simp
  show "sorted (map k ?ys)" using lt by (fastforce simp: sorted_append)
  fix z assume z: "z \<in> set ?ys"
  have st: "filter (\<lambda>x. k z = k x) (sort_key k zs) = filter (\<lambda>x. k z = k x) zs" for zs
    using sort_key_stable[of k "k z" zs] by (simp add: eq_commute)
  have same: "k z = k x \<Longrightarrow> x \<in> set xs \<Longrightarrow> P x = P z" for x
    using z lt[of x z] lt[of z x] by auto
  show "filter (\<lambda>x. k z = k x) ?ys = filter (\<lambda>x. k z = k x) xs"
  proof (cases "P z")
    case True
    then have "filter (\<lambda>x. k z = k x) (filter (\<lambda>x. \<not> P x) xs) = []"
      "filter (\<lambda>x. k z = k x) (filter P xs) = filter (\<lambda>x. k z = k x) xs"
      using same by (auto simp: filter_empty_conv intro: filter_cong)
    then show ?thesis by (simp only: filter_append st) simp
  next
    case False
    then have "filter (\<lambda>x. k z = k x) (filter P xs) = []"
      "filter (\<lambda>x. k z = k x) (filter (\<lambda>x. \<not> P x) xs) = filter (\<lambda>x. k z = k x) xs"
      using same by (auto simp: filter_empty_conv intro: filter_cong)
    then show ?thesis by (simp only: filter_append st) simp
  qed
qed

lemma sort_key_eq_Nil: "sort_key k xs = [] \<longleftrightarrow> xs = []"
  by (metis length_0_conv length_sort)

lemma take_sort_key_class:
  assumes "\<And>x y. \<lbrakk>x \<in> set xs; y \<in> set xs; P x; \<not> P y\<rbrakk> \<Longrightarrow> k x < (k y :: 'b :: linorder)"
    and "n \<le> length (filter P xs)" and "x \<in> set (take n (sort_key k xs))"
  shows "P x"
proof -
  have "take n (sort_key k xs) = take n (sort_key k (filter P xs))"
    using assms(1,2) by (simp add: sort_key_class_first[where P = P])
  then have "x \<in> set (sort_key k (filter P xs))"
    using assms(3) in_set_takeD by metis
  then show ?thesis by simp
qed

lemma find_map_same: "(\<And>x. P (f x) = P x) \<Longrightarrow> find P (map f xs) = map_option f (find P xs)"
  by (induction xs) auto

lemma find_append: "find P (xs @ ys) = (case find P xs of None \<Rightarrow> find P ys | Some x \<Rightarrow> Some x)"
  by (induction xs) auto

section \<open>Handing out left-over units\<close>

text \<open>
  The loop both proration routines share: walk the indices of \<open>order\<close> and add one unit
  to each indexed entry while some remainder is left.
\<close>

fun addOnes :: "nat list \<Rightarrow> int \<Rightarrow> int list \<Rightarrow> int list \<times> int" where
  "addOnes [] missing xs = (xs, missing)"
| "addOnes (i # is) missing xs =
     (if 0 < missing then addOnes is (missing - 1) (xs[i := xs ! i + 1]) else (xs, missing))"

lemma addOnes_length [simp]: "length (fst (addOnes is m xs)) = length xs"
  by (induction "is" m xs rule: addOnes.induct) auto

lemma addOnes_nth:
  "\<lbrakk>distinct is; set is \<subseteq> {..<length xs}; j < length xs\<rbrakk> \<Longrightarrow>
   fst (addOnes is m xs) ! j = xs ! j + (if j \<in> set (take (nat m) is) then 1 else 0)"
proof (induction "is" m xs rule: addOnes.induct)
  case (2 i "is" m xs)
  show ?case
  proof (cases "0 < m")
    case True
    then have "nat m = Suc (nat (m - 1))" by simp
    then show ?thesis
      using 2 True by (auto simp: nth_list_update dest: in_set_takeD)
  next
    case False
    then show ?thesis by simp
  qed
qed simp

lemma addOnes_rest: "snd (addOnes is m xs) = (if 0 < m then max 0 (m - int (length is)) else m)"
  by (induction "is" m xs rule: addOnes.induct) auto

lemma addOnes_sum:
  "\<lbrakk>distinct is; set is \<subseteq> {..<length xs}\<rbrakk> \<Longrightarrow>
   sum_list (fst (addOnes is m xs)) + snd (addOnes is m xs) = sum_list xs + m"
proof (induction "is" m xs rule: addOnes.induct)
  case (2 i "is" m xs)
  then show ?case by (cases "0 < m") (auto simp: sum_list_update_int)
qed simp

end
