(* ===== verification/JsNumber.thy ===== *)
theory JsNumber
  imports Prelude "HOL-Library.Log_Nat"
begin

text \<open>
  JavaScript numbers. Amounts the sources keep as whole cents are \<open>int\<close>; where the code
  divides or multiplies by a fraction its arithmetic is IEEE-754 binary64, and the model
  computes with exactly those numbers: a finite double is a \<open>rat\<close>, and every inexact
  operation is the exact operation followed by \<open>fl\<close>, round-to-nearest-even at 53 bits.
  Overflow to infinity and subnormals (magnitudes beyond \<open>2 ^ 1023\<close> or below
  \<open>2 powi (- 1022)\<close>) do not occur for cents, rates and quantities and are outside the
  model; negative zero is identified with zero.

  The interface \<open>fp_rounding\<close> states what the money code relies on from the rounding;
  its lemmas (rounding a quotient, the largest-remainder split) are proved from these
  laws alone and reach the components through its interpretation on \<open>fl\<close>.
\<close>

section \<open>Round to nearest, ties to even, 53 bits\<close>

text \<open>The binary exponent of a nonzero rational.\<close>

definition expo :: "rat \<Rightarrow> int" where
  "expo x = (let (a, b) = quotient_of \<bar>x\<bar>; k = bitlen a - bitlen b
             in if 2 powi k \<le> \<bar>x\<bar> then k else k - 1)"

text \<open>Round to the nearest integer, ties to even.\<close>

definition rne :: "rat \<Rightarrow> int" where
  "rne x = (let f = \<lfloor>x\<rfloor>; d = x - of_int f
            in if d < 1/2 then f else if 1/2 < d then f + 1 else if even f then f else f + 1)"

text \<open>The nearest double.\<close>

definition fl :: "rat \<Rightarrow> rat" where
  "fl x = (if x = 0 then 0 else let u = 2 powi (expo x - 52) in of_int (rne (x / u)) * u)"

text \<open>\<open>Math.round\<close> (ties towards plus infinity), \<open>Math.trunc\<close> and \<open>Number.isSafeInteger\<close>.\<close>

definition js_round :: "rat \<Rightarrow> int" where
  "js_round x = \<lfloor>x + 1 / 2\<rfloor>"

definition js_trunc :: "rat \<Rightarrow> int" where
  "js_trunc x = (if 0 \<le> x then \<lfloor>x\<rfloor> else \<lceil>x\<rceil>)"

definition isSafeInteger :: "int \<Rightarrow> bool" where
  "isSafeInteger n \<longleftrightarrow> \<bar>n\<bar> \<le> 9007199254740991"

text \<open>
  The largest-remainder split of the sources: floor every share, order the indices by
  decreasing fractional part (index as tie-break: the sort is stable) and hand out what is
  missing one unit at a time. \<open>rnd\<close> is the rounding of the subtraction that computes the
  fractional part.
\<close>

definition remainderOrder :: "(rat \<Rightarrow> rat) \<Rightarrow> rat list \<Rightarrow> nat list" where
  "remainderOrder rnd ys = sort_key (\<lambda>i. - rnd (ys ! i - of_int \<lfloor>ys ! i\<rfloor>)) [0..<length ys]"

definition largestRemainder :: "(rat \<Rightarrow> rat) \<Rightarrow> int \<Rightarrow> rat list \<Rightarrow> int list \<times> int" where
  "largestRemainder rnd target ys =
     (let floored = map floor ys
      in addOnes (remainderOrder rnd ys) (target - sum_list floored) floored)"

section \<open>Laws of the rounding\<close>

lemma rne_of_int [simp]: "rne (of_int n) = n"
  by (simp add: rne_def)

lemma rne_error: "\<bar>of_int (rne x) - x\<bar> \<le> 1 / 2"
proof -
  have "0 \<le> x - of_int \<lfloor>x\<rfloor>" "x - of_int \<lfloor>x\<rfloor> < 1" by linarith+
  then show ?thesis by (auto simp: rne_def Let_def abs_le_iff)
qed

lemma rne_mono: assumes "x \<le> y" shows "rne x \<le> rne y"
proof (cases "\<lfloor>x\<rfloor> = \<lfloor>y\<rfloor>")
  case True
  with assms show ?thesis by (auto simp: rne_def Let_def)
next
  case False
  with assms have "\<lfloor>x\<rfloor> + 1 \<le> \<lfloor>y\<rfloor>" using floor_mono by fastforce
  moreover have "rne x \<le> \<lfloor>x\<rfloor> + 1" by (simp add: rne_def Let_def)
  moreover have "\<lfloor>y\<rfloor> \<le> rne y" by (simp add: rne_def Let_def)
  ultimately show ?thesis by linarith
qed

lemma rne_minus: "rne (- x) = - rne x"
proof (cases "x = of_int \<lfloor>x\<rfloor>")
  case True
  then have "rne x = \<lfloor>x\<rfloor>" "rne (-x) = - \<lfloor>x\<rfloor>"
    by (metis rne_of_int) (metis True of_int_minus rne_of_int)
  then show ?thesis by simp
next
  case False
  then have "\<lfloor>- x\<rfloor> = - \<lfloor>x\<rfloor> - 1" by linarith
  then show ?thesis by (auto simp: rne_def Let_def)
qed

lemma expo_bounds:
  assumes "x \<noteq> 0"
  shows "2 powi expo x \<le> \<bar>x\<bar>" and "\<bar>x\<bar> < 2 powi (expo x + 1)"
proof -
  obtain a b where ab: "quotient_of \<bar>x\<bar> = (a, b)" by fastforce
  have b: "0 < b" using ab by (rule quotient_of_denom_pos)
  have x: "\<bar>x\<bar> = of_int a / of_int b" using ab by (rule quotient_of_div)
  have "0 < \<bar>x\<bar>" using assms by simp
  then have a: "0 < a" using x b by (simp add: zero_less_divide_iff)
  define k where "k = bitlen a - bitlen b"
  have la: "0 < bitlen a" and lb: "0 < bitlen b"
    using a b by (metis bitlen_eq_zero_iff bitlen_nonneg linorder_not_less order_le_less)+
  have p: "(2::rat) powi (bitlen n - 1) \<le> of_int n \<and> (of_int n :: rat) < 2 powi bitlen n" if "0 < n" "0 < bitlen n" for n
  proof -
    have "(2::int) ^ nat (bitlen n - 1) \<le> n" "n < 2 ^ nat (bitlen n)"
      using bitlen_bounds[OF that(1)] by auto
    then have "(of_int (2 ^ nat (bitlen n - 1)) :: rat) \<le> of_int n" "(of_int n :: rat) < of_int (2 ^ nat (bitlen n))"
      by (simp_all only: of_int_le_iff of_int_less_iff)
    then show ?thesis using that(2) by (simp add: power_int_def)
  qed
  have pa: "(2::rat) powi (bitlen a - 1) \<le> of_int a" "(of_int a :: rat) < 2 powi bitlen a"
    and pb: "(2::rat) powi (bitlen b - 1) \<le> of_int b" "(of_int b :: rat) < 2 powi bitlen b"
    using p[OF a la] p[OF b lb] by auto
  have lo: "2 powi (k - 1) \<le> \<bar>x\<bar>"
  proof -
    have "2 powi (k - 1) * of_int b \<le> 2 powi (k - 1) * (2::rat) powi bitlen b"
      using pb by (intro mult_left_mono) auto
    also have "\<dots> = 2 powi (bitlen a - 1)" by (simp add: k_def flip: power_int_add)
    also have "\<dots> \<le> of_int a" by (rule pa)
    finally show ?thesis using b by (simp add: x field_simps)
  qed
  have hi: "\<bar>x\<bar> < 2 powi (k + 1)"
  proof -
    have "(of_int a :: rat) < 2 powi bitlen a" by (rule pa)
    also have "\<dots> = 2 powi (k + 1) * 2 powi (bitlen b - 1)" by (simp add: k_def flip: power_int_add)
    also have "\<dots> \<le> 2 powi (k + 1) * of_int b" using pb by (intro mult_left_mono) auto
    finally show ?thesis using b by (simp add: x field_simps)
  qed
  have e: "expo x = (if 2 powi k \<le> \<bar>x\<bar> then k else k - 1)"
    by (simp add: expo_def ab k_def Let_def)
  show "2 powi expo x \<le> \<bar>x\<bar>" "\<bar>x\<bar> < 2 powi (expo x + 1)"
    using lo hi by (auto simp: e)
qed

lemma powi_two_less_iff: "(2::rat) powi a < 2 powi b \<longleftrightarrow> a < b"
  by (metis linorder_neqE_linordered_idom one_less_numeral_iff order_less_asym power_int_strict_increasing semiring_norm(76) order_less_irrefl)

lemma powi_two_le_iff: "(2::rat) powi a \<le> 2 powi b \<longleftrightarrow> a \<le> b"
  by (meson powi_two_less_iff linorder_not_less)

lemma expo_eqI: assumes "2 powi e \<le> \<bar>x\<bar>" "\<bar>x\<bar> < 2 powi (e + 1)" shows "expo x = e"
proof -
  have x: "x \<noteq> 0" using assms(1) by (metis abs_zero linorder_not_less zero_less_numeral zero_less_power_int)
  have "(2::rat) powi e < 2 powi (expo x + 1)" "(2::rat) powi expo x < 2 powi (e + 1)"
    using assms expo_bounds[OF x] by linarith+
  then show ?thesis by (simp add: powi_two_less_iff)
qed

lemma fl_0 [simp]: "fl 0 = 0" by (simp add: fl_def)

lemma fl_minus: "fl (- x) = - fl x"
  by (simp add: fl_def expo_def rne_minus Let_def)

lemma fl_error: "\<bar>fl x - x\<bar> \<le> \<bar>x\<bar> / 2 ^ 53"
proof (cases "x = 0")
  case False
  define u :: rat where "u = 2 powi (expo x - 52)"
  have u: "0 < u" by (simp add: u_def)
  have "fl x - x = (of_int (rne (x / u)) - x / u) * u"
    using False u by (simp add: fl_def u_def[symmetric] left_diff_distrib)
  then have "\<bar>fl x - x\<bar> = \<bar>of_int (rne (x / u)) - x / u\<bar> * u" using u by (simp add: abs_mult)
  also have "\<dots> \<le> 1/2 * u" using rne_error u by (intro mult_right_mono) auto
  also have "\<dots> = 2 powi expo x / 2 ^ 53"
    by (simp add: u_def power_int_diff)
  also have "\<dots> \<le> \<bar>x\<bar> / 2 ^ 53"
    using expo_bounds[OF False] by (simp add: divide_right_mono)
  finally show ?thesis .
qed simp

lemma fl_exact_powi:
  assumes "\<bar>m\<bar> \<le> 2 ^ 53" shows "fl (of_int m * 2 powi j) = of_int m * 2 powi j"
proof (cases "m = 0")
  case False
  let ?x = "(of_int m :: rat) * 2 powi j"
  let ?e = "expo ?x"
  have x: "?x \<noteq> 0" using False by simp
  have am: "\<bar>?x\<bar> = of_int \<bar>m\<bar> * 2 powi j" by (simp add: abs_mult)
  have m53: "(of_int \<bar>m\<bar> :: rat) \<le> 2 powi 53"
    using assms by (metis of_int_le_iff of_int_numeral of_int_power power_int_numeral)
  have "(2::rat) powi ?e \<le> 2 powi 53 * 2 powi j"
    by (rule order_trans[OF expo_bounds(1)[OF x]]) (unfold am, rule mult_right_mono[OF m53], simp)
  then have e: "?e \<le> 53 + j" by (metis power_int_add powi_two_le_iff zero_neq_numeral)
  have "\<exists>k::int. ?x / 2 powi (?e - 52) = of_int k"
  proof (cases "?e = 53 + j")
    case True
    then have "2 powi (53 + j) \<le> \<bar>?x\<bar>" using expo_bounds(1)[OF x] by simp
    then have "(2::rat) powi 53 \<le> of_int \<bar>m\<bar>" unfolding am by (simp add: power_int_add)
    then have "2 ^ 53 \<le> \<bar>m\<bar>"
      by (metis of_int_le_iff of_int_numeral of_int_power power_int_numeral)
    then have "m = 2 ^ 53 \<or> m = - (2 ^ 53)" using assms by linarith
    then show ?thesis
    proof
      assume m: "m = 2 ^ 53"
      show ?thesis unfolding True unfolding m by (rule exI[of _ "2^52"]) (simp add: power_int_add power_int_diff)
    next
      assume m: "m = - (2 ^ 53)"
      show ?thesis unfolding True unfolding m by (rule exI[of _ "-(2^52)"]) (simp add: power_int_add power_int_diff)
    qed
  next
    case False
    then have d: "0 \<le> j - (?e - 52)" using e by linarith
    have "?x / 2 powi (?e - 52) = of_int m * 2 powi (j - (?e - 52))"
      by (simp add: power_int_diff)
    also have "\<dots> = of_int (m * 2 ^ nat (j - (?e - 52)))" using d by (simp add: power_int_def)
    finally show ?thesis by blast
  qed
  then obtain k where k: "?x / 2 powi (?e - 52) = of_int k" by blast
  then have "fl ?x = of_int k * 2 powi (?e - 52)" using x by (simp add: fl_def)
  also have "\<dots> = ?x" by (simp flip: k)
  finally show ?thesis .
qed simp

lemma fl_of_int: "\<bar>n\<bar> \<le> 2 ^ 53 \<Longrightarrow> fl (of_int n) = of_int n"
  using fl_exact_powi[of n 0] by simp

lemma fl_half_int: "\<bar>n\<bar> \<le> 2 ^ 53 \<Longrightarrow> fl (of_int n / 2) = of_int n / 2"
  using fl_exact_powi[of n "-1"] by (simp add: power_int_minus field_simps)

lemma fl_nonneg: "0 \<le> x \<Longrightarrow> 0 \<le> fl x"
proof -
  assume x: "0 \<le> x"
  have "\<bar>x\<bar> / 2 ^ 53 \<le> x" using x by (simp add: field_simps)
  then show ?thesis using fl_error[of x] by linarith
qed

lemma fl_pos_bounds:
  assumes "0 < x" shows "2 powi expo x \<le> fl x" "fl x \<le> 2 powi (expo x + 1)"
proof -
  let ?u = "2 powi (expo x - 52) :: rat"
  have b: "2 powi expo x \<le> x" "x \<le> 2 powi (expo x + 1)" using expo_bounds[of x] assms by auto
  have "of_int (2 ^ 52) \<le> x / ?u" using b by (simp add: power_int_diff field_simps)
  then have 1: "2 ^ 52 \<le> rne (x / ?u)" using rne_mono rne_of_int by metis
  have "x / ?u \<le> of_int (2 ^ 53)" using b by (simp add: power_int_diff power_int_add field_simps)
  then have 2: "rne (x / ?u) \<le> 2 ^ 53" using rne_mono rne_of_int by metis
  have f: "fl x = of_int (rne (x / ?u)) * ?u" using assms by (simp add: fl_def Let_def)
  have "of_int (2 ^ 52) * ?u \<le> fl x" unfolding f using 1 by (intro mult_right_mono) (simp_all only: of_int_le_iff, simp)
  then show "2 powi expo x \<le> fl x" by (simp add: power_int_diff)
  have "fl x \<le> of_int (2 ^ 53) * ?u" unfolding f using 2 by (intro mult_right_mono) (simp_all only: of_int_le_iff, simp)
  then show "fl x \<le> 2 powi (expo x + 1)" by (simp add: power_int_diff power_int_add)
qed

lemma fl_mono_pos: assumes "0 < x" "x \<le> y" shows "fl x \<le> fl y"
proof -
  have "(2::rat) powi expo x < 2 powi (expo y + 1)"
    using expo_bounds(1)[of x] expo_bounds(2)[of y] assms by simp
  then have le: "expo x \<le> expo y" by (simp add: powi_two_less_iff)
  show ?thesis
  proof (cases "expo x = expo y")
    case True
    have "rne (x / 2 powi (expo x - 52)) \<le> rne (y / 2 powi (expo x - 52))"
      using assms by (intro rne_mono divide_right_mono) auto
    then show ?thesis using assms by (auto simp: fl_def Let_def True intro!: mult_right_mono)
  next
    case False
    then have "(2::rat) powi (expo x + 1) \<le> 2 powi expo y" using le by (simp add: powi_two_le_iff)
    then show ?thesis using fl_pos_bounds[of x] fl_pos_bounds[of y] assms by linarith
  qed
qed

lemma fl_mono: assumes "x \<le> y" shows "fl x \<le> fl y"
proof -
  consider "0 < x" | "x = 0" | "x < 0" "0 \<le> y" | "x < 0" "y < 0" by linarith
  then show ?thesis
  proof cases
    case 1 then show ?thesis using assms by (rule fl_mono_pos)
  next
    case 2 then show ?thesis using assms fl_nonneg by simp
  next
    case 3
    then have "0 \<le> fl (- x)" "0 \<le> fl y" by (simp_all add: fl_nonneg)
    then show ?thesis by (simp add: fl_minus)
  next
    case 4
    then have "fl (- y) \<le> fl (- x)" using assms by (intro fl_mono_pos) auto
    then show ?thesis by (simp add: fl_minus)
  qed
qed

section \<open>The interface the money code uses\<close>

locale fp_rounding =
  fixes rnd :: "rat \<Rightarrow> rat"
  assumes rnd_int: "\<bar>n\<bar> \<le> 2 ^ 53 \<Longrightarrow> rnd (of_int n) = of_int n"
    and rnd_half: "\<bar>n\<bar> \<le> 2 ^ 53 \<Longrightarrow> rnd (of_int n / 2) = of_int n / 2"
    and rnd_error: "\<bar>rnd x - x\<bar> \<le> \<bar>x\<bar> / 2 ^ 53"
    and rnd_mono: "x \<le> y \<Longrightarrow> rnd x \<le> rnd y"
begin

lemma rnd_nonneg: "0 \<le> x \<Longrightarrow> 0 \<le> rnd x"
  using rnd_mono[of 0 x] rnd_int[of 0] by simp

text \<open>
  \<open>Math.round\<close> of a rounded quotient of integers is exact half-up rounding: a quotient
  that is not a half-integer is at least \<open>1 / (2 * b)\<close> away from one.
\<close>

lemma round_quotient:
  assumes b: "0 < b" and n: "\<bar>n\<bar> < 2 ^ 52"
  shows "js_round (rnd (of_int n / of_int b)) = (2 * n + b) div (2 * b)"
proof -
  define x :: rat where "x = of_int n / of_int b"
  define q where "q = (2 * n + b) div (2 * b)"
  define r where "r = (2 * n + b) mod (2 * b)"
  have qr: "2 * n + b = q * (2 * b) + r" "0 \<le> r" "r < 2 * b"
    using b by (auto simp: q_def r_def div_mult_mod_eq)
  have xq: "x + 1 / 2 = of_int q + of_int r / (2 * of_int b)"
  proof -
    have "(of_int (2 * n + b) :: rat) = of_int (q * (2 * b) + r)" using qr(1) by simp
    then show ?thesis using b by (simp add: x_def field_simps)
  qed
  have err: "\<bar>rnd x - x\<bar> < 1 / (2 * of_int b)"
  proof -
    have "\<bar>x\<bar> < 2 ^ 52 / of_int b"
    proof -
      have "(of_int \<bar>n\<bar> :: rat) < of_int (2 ^ 52)" using n by (simp only: of_int_less_iff)
      then show ?thesis using b by (simp add: x_def divide_strict_right_mono)
    qed
    then have "\<bar>x\<bar> / 2 ^ 53 < 1 / (2 * of_int b)" using b by (simp add: field_simps)
    then show ?thesis using rnd_error[of x] by linarith
  qed
  have "\<lfloor>rnd x + 1 / 2\<rfloor> = q"
  proof (cases "r = 0")
    case True
    then have h: "x = of_int (2 * q - 1) / 2" using xq by (simp add: field_simps)
    have "b * (2 * q - 1) = 2 * n" using qr(1) True by (simp add: algebra_simps)
    moreover have "\<bar>2 * q - 1\<bar> \<le> b * \<bar>2 * q - 1\<bar>" using b by (simp add: mult_le_cancel_right1)
    ultimately have "\<bar>2 * q - 1\<bar> \<le> 2 ^ 53" using b n by (simp flip: abs_mult_pos)
    then have "rnd x = x" unfolding h by (rule rnd_half)
    then show ?thesis using xq True by simp
  next
    case False
    then have "1 / (2 * of_int b) \<le> (of_int r :: rat) / (2 * of_int b)"
      using qr(2) b by (simp add: divide_right_mono)
    moreover have "(of_int r :: rat) / (2 * of_int b) \<le> 1 - 1 / (2 * of_int b)"
    proof -
      have "(of_int r :: rat) \<le> of_int (2 * b - 1)" using qr(3) by (simp only: of_int_le_iff)
      then show ?thesis using b by (simp add: field_simps)
    qed
    ultimately show ?thesis using err xq by (intro floor_unique) linarith+
  qed
  then show ?thesis by (simp add: js_round_def x_def q_def)
qed

text \<open>
  A share computed with two rounded operations is within an eighth of the grid spacing of
  the exact share, as long as the product stays below \<open>2 ^ 48\<close>.
\<close>

lemma share_error:
  assumes T: "0 < T" and wt: "\<bar>w * t\<bar> \<le> 2 ^ 48"
  shows "\<bar>rnd (of_int t * rnd (of_int w / of_int T)) - of_int (w * t) / of_int T\<bar> \<le> 1 / (8 * of_int T)"
proof -
  define z :: rat where "z = of_int w / of_int T"
  define x :: rat where "x = of_int t * z"
  have xdef: "x = of_int (w * t) / of_int T" by (simp add: x_def z_def)
  have e1: "\<bar>of_int t * rnd z - x\<bar> \<le> \<bar>x\<bar> / 2 ^ 53"
  proof -
    have "\<bar>of_int t * rnd z - x\<bar> = \<bar>of_int t\<bar> * \<bar>rnd z - z\<bar>"
      by (simp add: x_def flip: abs_mult right_diff_distrib)
    also have "\<dots> \<le> \<bar>of_int t\<bar> * (\<bar>z\<bar> / 2 ^ 53)"
      by (rule mult_left_mono[OF rnd_error]) simp
    finally show ?thesis by (simp add: x_def abs_mult)
  qed
  have e2: "\<bar>rnd (of_int t * rnd z) - of_int t * rnd z\<bar> \<le> \<bar>of_int t * rnd z\<bar> / 2 ^ 53"
    by (rule rnd_error)
  have "\<bar>x\<bar> / 2 ^ 53 \<le> \<bar>x\<bar>" by (simp add: field_simps)
  then have "\<bar>of_int t * rnd z\<bar> \<le> 2 * \<bar>x\<bar>" using e1 by linarith
  then have "\<bar>of_int t * rnd z\<bar> / 2 ^ 53 \<le> 2 * \<bar>x\<bar> / 2 ^ 53" by (simp add: divide_right_mono)
  then have "\<bar>rnd (of_int t * rnd z) - x\<bar> \<le> 3 * \<bar>x\<bar> / 2 ^ 53"
    using e1 e2 by linarith
  also have "\<dots> \<le> 1 / (8 * of_int T)"
  proof -
    have "(of_int \<bar>w * t\<bar> :: rat) \<le> of_int (2 ^ 48)" using wt by (simp only: of_int_le_iff)
    then have "\<bar>x\<bar> \<le> 2 ^ 48 / of_int T" using T by (simp add: xdef divide_right_mono)
    then show ?thesis using T by (simp add: field_simps)
  qed
  finally show ?thesis by (simp add: xdef z_def)
qed

end

text \<open>
  The largest-remainder split. \<open>xs\<close> are the exact shares, multiples of \<open>1 / T\<close>, and
  \<open>ys\<close> their computed approximations. An approximation can fall just below an integral
  share (a dip); its fractional part is then close to one and the split gives the unit
  back first. Shares that came out integral get nothing.
\<close>

text \<open>
  The situation of one split: exact shares \<open>x\<close> on a grid of spacing \<open>g\<close>, approximations
  \<open>y\<close> close to them, and the total \<open>t\<close> to hand out.
\<close>

definition lr_split :: "rat \<Rightarrow> (nat \<Rightarrow> rat) \<Rightarrow> (nat \<Rightarrow> rat) \<Rightarrow> nat \<Rightarrow> int \<Rightarrow> bool" where
  "lr_split g x y n t \<longleftrightarrow> 1 / 2 ^ 49 \<le> g \<and> g \<le> 1 \<and>
     (\<forall>i<n. of_int \<lfloor>x i\<rfloor> \<noteq> x i \<longrightarrow> g \<le> x i - of_int \<lfloor>x i\<rfloor> \<and> x i - of_int \<lfloor>x i\<rfloor> \<le> 1 - g) \<and>
     (\<forall>i<n. \<bar>y i - x i\<bar> \<le> g / 8) \<and> (\<Sum>i<n. x i) = of_int t"

definition lr_missing :: "(nat \<Rightarrow> rat) \<Rightarrow> nat \<Rightarrow> int \<Rightarrow> int" where
  "lr_missing y n t = t - (\<Sum>i<n. \<lfloor>y i\<rfloor>)"

definition lr_order :: "(rat \<Rightarrow> rat) \<Rightarrow> (nat \<Rightarrow> rat) \<Rightarrow> nat \<Rightarrow> nat list" where
  "lr_order rnd y n = sort_key (\<lambda>i. - rnd (y i - of_int \<lfloor>y i\<rfloor>)) [0..<n]"

lemma lr_splitD:
  assumes "lr_split g x y n t"
  shows "1 / 2 ^ 49 \<le> g" "g \<le> 1" "0 < g" "(\<Sum>i<n. x i) = of_int t"
    "i < n \<Longrightarrow> \<bar>y i - x i\<bar> \<le> g / 8"
    "\<lbrakk>i < n; of_int \<lfloor>x i\<rfloor> \<noteq> x i\<rbrakk> \<Longrightarrow> g \<le> x i - of_int \<lfloor>x i\<rfloor> \<and> x i - of_int \<lfloor>x i\<rfloor> \<le> 1 - g"
proof -
  show g: "1 / 2 ^ 49 \<le> g" using assms by (auto simp: lr_split_def)
  show "0 < g" by (rule order_less_le_trans[OF _ g]) simp
qed (use assms in \<open>auto simp: lr_split_def\<close>)

context fp_rounding
begin

lemma frac_less:
  assumes g: "1 / 2 ^ 49 \<le> g" and a: "0 \<le> a" "a + 3/4 * g \<le> b" "b \<le> 1"
  shows "rnd a < rnd b"
proof -
  have "\<bar>a\<bar> / 2 ^ 53 \<le> 1 / 2 ^ 53" "\<bar>b\<bar> / 2 ^ 53 \<le> 1 / 2 ^ 53"
    using a g by (auto intro!: divide_right_mono)
  then have "rnd a \<le> a + 1 / 2 ^ 53" "b - 1 / 2 ^ 53 \<le> rnd b"
    using rnd_error[of a] rnd_error[of b] by linarith+
  moreover have "1 / 2 ^ 53 + 1 / 2 ^ 53 < 3/4 * (1 / 2 ^ 49 :: rat)" by simp
  ultimately show ?thesis using g a by linarith
qed

text \<open>What the floor of an approximation can be, and how far a fractional share is from integers.\<close>

lemma fractional_gap:
  assumes T: "0 < T" and x: "(x :: rat) * of_int T = of_int m" and non: "of_int \<lfloor>x\<rfloor> \<noteq> x"
  shows "1 / of_int T \<le> x - of_int \<lfloor>x\<rfloor>" and "x - of_int \<lfloor>x\<rfloor> \<le> 1 - 1 / of_int T"
proof -
  define k where "k = m - \<lfloor>x\<rfloor> * T"
  have d: "x - of_int \<lfloor>x\<rfloor> = of_int k / of_int T"
    using T x by (simp add: k_def field_simps)
  have "0 \<le> x - of_int \<lfloor>x\<rfloor>" "x - of_int \<lfloor>x\<rfloor> < 1" by linarith+
  then have "0 \<le> (of_int k :: rat) / of_int T" "(of_int k :: rat) / of_int T < 1" by (simp_all only: d)
  then have "0 \<le> k" "k < T" using T by (simp_all add: zero_le_divide_iff divide_less_eq)
  moreover have "k \<noteq> 0" using d non by auto
  ultimately have "1 \<le> k" "k \<le> T - 1" by linarith+
  then have k: "(1::rat) \<le> of_int k" "(of_int k :: rat) \<le> of_int (T - 1)" by (simp, simp only: of_int_le_iff)
  show "1 / of_int T \<le> x - of_int \<lfloor>x\<rfloor>" "x - of_int \<lfloor>x\<rfloor> \<le> 1 - 1 / of_int T"
    unfolding d using k T by (simp_all add: field_simps)
qed

lemma approx_floor_cases:
  assumes g: "0 < (g :: rat)" "g \<le> 1"
    and non: "of_int \<lfloor>x\<rfloor> \<noteq> x \<Longrightarrow> g \<le> x - of_int \<lfloor>x\<rfloor> \<and> x - of_int \<lfloor>x\<rfloor> \<le> 1 - g"
    and e: "\<bar>y - x\<bar> \<le> g / 8"
  obtains (exact) "of_int \<lfloor>y\<rfloor> = x" "\<lfloor>x\<rfloor> = \<lfloor>y\<rfloor>" "y - of_int \<lfloor>y\<rfloor> \<le> g / 8"
  | (dip) "of_int \<lfloor>y\<rfloor> = x - 1" "\<lfloor>x\<rfloor> = \<lfloor>y\<rfloor> + 1" "1 - g / 8 \<le> y - of_int \<lfloor>y\<rfloor>"
  | (frac) "\<lfloor>x\<rfloor> = \<lfloor>y\<rfloor>" "\<lceil>x\<rceil> = \<lfloor>y\<rfloor> + 1" "of_int \<lfloor>y\<rfloor> < x" "x < of_int \<lfloor>y\<rfloor> + 1"
      "7/8 * g \<le> y - of_int \<lfloor>y\<rfloor>" "y - of_int \<lfloor>y\<rfloor> \<le> 1 - 7/8 * g"
proof (cases "of_int \<lfloor>x\<rfloor> = x")
  case True
  then obtain c where x: "x = of_int c" by metis
  have e': "x - g / 8 \<le> y" "y \<le> x + g / 8" using e by linarith+
  show ?thesis
  proof (cases "x \<le> y")
    case True
    have "\<lfloor>y\<rfloor> = c" using True e' g x by (intro floor_unique) linarith+
    then show ?thesis using exact x e' by simp
  next
    case False
    have "of_int (c - 1) = x - 1" using x by simp
    then have "\<lfloor>y\<rfloor> = c - 1" using False e' g by (intro floor_unique) linarith+
    then show ?thesis using dip x e' by simp
  qed
next
  case False
  have e': "x - g / 8 \<le> y" "y \<le> x + g / 8" using e by linarith+
  have n: "g \<le> x - of_int \<lfloor>x\<rfloor>" "x - of_int \<lfloor>x\<rfloor> \<le> 1 - g" using non[OF False] by auto
  have "\<lfloor>y\<rfloor> = \<lfloor>x\<rfloor>" using n e' g by (intro floor_unique) linarith+
  moreover have "of_int (\<lfloor>x\<rfloor> + 1) = of_int \<lfloor>x\<rfloor> + (1 :: rat)" by simp
  then have "\<lceil>x\<rceil> = \<lfloor>x\<rfloor> + 1" using n g by (intro ceiling_unique) linarith+
  ultimately show ?thesis using frac n e' g by simp
qed

lemma lr_cases:
  assumes sp: "lr_split g x y n t" and i: "i < n"
  shows "(of_int \<lfloor>y i\<rfloor> = x i \<and> \<lfloor>x i\<rfloor> = \<lfloor>y i\<rfloor> \<and> y i - of_int \<lfloor>y i\<rfloor> \<le> g / 8)
       \<or> (of_int \<lfloor>y i\<rfloor> = x i - 1 \<and> \<lfloor>x i\<rfloor> = \<lfloor>y i\<rfloor> + 1 \<and> 1 - g / 8 \<le> y i - of_int \<lfloor>y i\<rfloor>)
       \<or> (\<lfloor>x i\<rfloor> = \<lfloor>y i\<rfloor> \<and> \<lceil>x i\<rceil> = \<lfloor>y i\<rfloor> + 1 \<and> of_int \<lfloor>y i\<rfloor> < x i \<and> x i < of_int \<lfloor>y i\<rfloor> + 1
          \<and> 7/8 * g \<le> y i - of_int \<lfloor>y i\<rfloor> \<and> y i - of_int \<lfloor>y i\<rfloor> \<le> 1 - 7/8 * g)"
  by (rule approx_floor_cases[OF lr_splitD(3,2)[OF sp] lr_splitD(6)[OF sp i] lr_splitD(5)[OF sp i]]) simp_all

lemma lr_key_active:
  assumes sp: "lr_split g x y n t" and ij: "i < n" "j < n" "of_int \<lfloor>y i\<rfloor> \<noteq> x i" "of_int \<lfloor>y j\<rfloor> = x j"
  shows "rnd (y j - of_int \<lfloor>y j\<rfloor>) < rnd (y i - of_int \<lfloor>y i\<rfloor>)"
proof (rule frac_less[OF lr_splitD(1)[OF sp]])
  have j: "y j - of_int \<lfloor>y j\<rfloor> \<le> g / 8" using lr_cases[OF sp ij(2)] ij(4) by auto
  have i: "7/8 * g \<le> y i - of_int \<lfloor>y i\<rfloor>"
    using lr_cases[OF sp ij(1)] ij(3) lr_splitD(2,3)[OF sp] by auto
  show "y j - of_int \<lfloor>y j\<rfloor> + 3/4 * g \<le> y i - of_int \<lfloor>y i\<rfloor>" using i j by linarith
qed linarith+

lemma lr_key_dip:
  assumes sp: "lr_split g x y n t" and ij: "i < n" "j < n" "\<lfloor>y i\<rfloor> < \<lfloor>x i\<rfloor>" "\<not> \<lfloor>y j\<rfloor> < \<lfloor>x j\<rfloor>"
  shows "rnd (y j - of_int \<lfloor>y j\<rfloor>) < rnd (y i - of_int \<lfloor>y i\<rfloor>)"
proof (rule frac_less[OF lr_splitD(1)[OF sp]])
  have i: "1 - g / 8 \<le> y i - of_int \<lfloor>y i\<rfloor>" using lr_cases[OF sp ij(1)] ij(3) by auto
  have j: "y j - of_int \<lfloor>y j\<rfloor> \<le> 1 - 7/8 * g"
    using lr_cases[OF sp ij(2)] ij(4) lr_splitD(2,3)[OF sp] by auto
  show "y j - of_int \<lfloor>y j\<rfloor> + 3/4 * g \<le> y i - of_int \<lfloor>y i\<rfloor>" using i j by linarith
qed linarith+

lemma lr_missing_eq:
  "lr_split g x y n t \<Longrightarrow> of_int (lr_missing y n t) = (\<Sum>i<n. x i - of_int \<lfloor>y i\<rfloor>)"
  by (simp add: lr_missing_def sum_subtractf lr_splitD(4))

lemma lr_missing_le:
  assumes sp: "lr_split g x y n t"
  shows "lr_missing y n t \<le> int (card {i. i < n \<and> of_int \<lfloor>y i\<rfloor> \<noteq> x i})"
proof -
  have "(\<Sum>i<n. x i - of_int \<lfloor>y i\<rfloor>) \<le> (\<Sum>i<n. if of_int \<lfloor>y i\<rfloor> \<noteq> x i then 1 else 0)"
    using lr_cases[OF sp] by (intro sum_mono) fastforce
  also have "\<dots> = of_nat (card ({..<n} \<inter> {i. of_int \<lfloor>y i\<rfloor> \<noteq> x i}))"
    by (simp add: sum.If_cases)
  also have "{..<n} \<inter> {i. of_int \<lfloor>y i\<rfloor> \<noteq> x i} = {i. i < n \<and> of_int \<lfloor>y i\<rfloor> \<noteq> x i}" by auto
  finally show ?thesis unfolding lr_missing_eq[OF sp, symmetric] by (metis of_int_le_iff of_int_of_nat_eq)
qed

lemma lr_missing_ge:
  assumes sp: "lr_split g x y n t"
  shows "int (card {i. i < n \<and> \<lfloor>y i\<rfloor> < \<lfloor>x i\<rfloor>}) \<le> lr_missing y n t"
proof -
  have "(\<Sum>i<n. if \<lfloor>y i\<rfloor> < \<lfloor>x i\<rfloor> then 1 else 0) \<le> (\<Sum>i<n. x i - of_int \<lfloor>y i\<rfloor>)"
    using lr_cases[OF sp] by (intro sum_mono) fastforce
  moreover have "(\<Sum>i<n. if \<lfloor>y i\<rfloor> < \<lfloor>x i\<rfloor> then (1::rat) else 0) = of_nat (card ({..<n} \<inter> {i. \<lfloor>y i\<rfloor> < \<lfloor>x i\<rfloor>}))"
    by (simp add: sum.If_cases)
  moreover have "{..<n} \<inter> {i. \<lfloor>y i\<rfloor> < \<lfloor>x i\<rfloor>} = {i. i < n \<and> \<lfloor>y i\<rfloor> < \<lfloor>x i\<rfloor>}" by auto
  ultimately show ?thesis unfolding lr_missing_eq[OF sp, symmetric] by (metis of_int_le_iff of_int_of_nat_eq)
qed

lemma lr_given_active:
  assumes sp: "lr_split g x y n t" and i: "i \<in> set (take (nat (lr_missing y n t)) (lr_order rnd y n))"
  shows "of_int \<lfloor>y i\<rfloor> \<noteq> x i"
  using lr_missing_le[OF sp] lr_key_active[OF sp] i unfolding lr_order_def
  by (intro take_sort_key_class[where P = "\<lambda>i. of_int \<lfloor>y i\<rfloor> \<noteq> x i" and x = i and xs = "[0..<n]"])
     (auto simp: distinct_length_filter Int_def conj_commute)

lemma lr_given_dip:
  assumes sp: "lr_split g x y n t" and i: "i < n" "\<lfloor>y i\<rfloor> < \<lfloor>x i\<rfloor>"
  shows "i \<in> set (take (nat (lr_missing y n t)) (lr_order rnd y n))"
proof -
  let ?P = "\<lambda>i. \<lfloor>y i\<rfloor> < \<lfloor>x i\<rfloor>" and ?k = "\<lambda>i. - rnd (y i - of_int \<lfloor>y i\<rfloor>)"
  have s: "lr_order rnd y n = sort_key ?k (filter ?P [0..<n]) @ sort_key ?k (filter (\<lambda>i. \<not> ?P i) [0..<n])"
    unfolding lr_order_def by (rule sort_key_class_first) (use lr_key_dip[OF sp] in auto)
  have "length (filter ?P [0..<n]) = card {i. i < n \<and> ?P i}"
    by (simp add: distinct_length_filter Int_def conj_commute)
  then have "length (filter ?P [0..<n]) \<le> nat (lr_missing y n t)" using lr_missing_ge[OF sp] by linarith
  then show ?thesis using i by (simp add: s)
qed

lemma lr_quota:
  assumes sp: "lr_split g x y n t"
  defines "rs \<equiv> addOnes (lr_order rnd y n) (lr_missing y n t) (map (\<lambda>i. \<lfloor>y i\<rfloor>) [0..<n])"
  shows "snd rs = 0" "sum_list (fst rs) = t"
    "i < n \<Longrightarrow> \<lfloor>x i\<rfloor> \<le> fst rs ! i" "i < n \<Longrightarrow> fst rs ! i \<le> \<lceil>x i\<rceil>"
proof -
  let ?fs = "map (\<lambda>i. \<lfloor>y i\<rfloor>) [0..<n]" and ?m = "lr_missing y n t" and ?o = "lr_order rnd y n"
  have o: "distinct ?o" "set ?o \<subseteq> {..<length ?fs}" by (auto simp: lr_order_def)
  have "card {i. i < n \<and> of_int \<lfloor>y i\<rfloor> \<noteq> x i} \<le> n"
    using card_mono[of "{..<n}" "{i. i < n \<and> of_int \<lfloor>y i\<rfloor> \<noteq> x i}"] by auto
  then have m: "0 \<le> ?m" "?m \<le> int (length ?o)"
    using lr_missing_le[OF sp] lr_missing_ge[OF sp] by (simp_all add: lr_order_def)
  show z: "snd rs = 0" using m by (simp add: rs_def addOnes_rest)
  show "sum_list (fst rs) = t"
    using addOnes_sum[OF o, of ?m] z
    by (simp add: rs_def lr_missing_def interv_sum_list_conv_sum_set_nat atLeast0LessThan)
  assume i: "i < n"
  have r: "fst rs ! i = \<lfloor>y i\<rfloor> + (if i \<in> set (take (nat ?m) ?o) then 1 else 0)"
    using addOnes_nth[OF o, of i ?m] i by (simp add: rs_def)
  show "\<lfloor>x i\<rfloor> \<le> fst rs ! i" using r lr_given_dip[OF sp i] lr_cases[OF sp i] by (auto split: if_splits)
  show "fst rs ! i \<le> \<lceil>x i\<rceil>" using r lr_given_active[OF sp, of i] lr_cases[OF sp i]
    by (auto split: if_splits) linarith+
qed

lemma largest_remainder_quota:
  assumes T: "0 < T" "T \<le> 2 ^ 49" and len: "length ys = length xs"
    and grid: "\<And>i. i < length xs \<Longrightarrow> \<exists>m. xs ! i * of_int T = of_int m"
    and near: "\<And>i. i < length xs \<Longrightarrow> \<bar>ys ! i - xs ! i\<bar> \<le> 1 / (8 * of_int T)"
    and sum: "sum_list xs = of_int t"
  shows "sum_list (fst (largestRemainder rnd t ys)) = t"
    and "snd (largestRemainder rnd t ys) = 0"
    and "i < length xs \<Longrightarrow> \<lfloor>xs ! i\<rfloor> \<le> fst (largestRemainder rnd t ys) ! i"
    and "i < length xs \<Longrightarrow> fst (largestRemainder rnd t ys) ! i \<le> \<lceil>xs ! i\<rceil>"
proof -
  have s: "lr_split (1 / of_int T) ((!) xs) ((!) ys) (length xs) t"
    unfolding lr_split_def
  proof (intro conjI allI impI)
    have "(of_int T :: rat) \<le> of_int (2 ^ 49)" using T(2) by (simp only: of_int_le_iff)
    then show "1 / 2 ^ 49 \<le> 1 / (of_int T :: rat)" using T(1) by (intro divide_left_mono) auto
    show "1 / (of_int T :: rat) \<le> 1" using T by simp
    show "\<bar>ys ! i - xs ! i\<bar> \<le> 1 / of_int T / 8" if "i < length xs" for i
      using near[OF that] by (simp add: field_simps)
    show "(\<Sum>i<length xs. xs ! i) = of_int t" using sum by (simp add: sum_list_sum_nth atLeast0LessThan)
    show "1 / of_int T \<le> xs ! i - of_int \<lfloor>xs ! i\<rfloor>" "xs ! i - of_int \<lfloor>xs ! i\<rfloor> \<le> 1 - 1 / of_int T"
      if "i < length xs" "of_int \<lfloor>xs ! i\<rfloor> \<noteq> xs ! i" for i
      using fractional_gap[OF T(1) _ that(2)] grid[OF that(1)] by blast+
  qed
  have fs: "map floor ys = map (\<lambda>i. \<lfloor>ys ! i\<rfloor>) [0..<length xs]"
    using len by (auto intro!: nth_equalityI)
  have lr: "largestRemainder rnd t ys = addOnes (lr_order rnd ((!) ys) (length xs))
      (lr_missing ((!) ys) (length xs) t) (map (\<lambda>i. \<lfloor>ys ! i\<rfloor>) [0..<length xs])"
    unfolding largestRemainder_def remainderOrder_def lr_order_def lr_missing_def Let_def len fs
    by (simp only: interv_sum_list_conv_sum_set_nat atLeast0LessThan set_upt)
  show "sum_list (fst (largestRemainder rnd t ys)) = t"
    "snd (largestRemainder rnd t ys) = 0"
    "i < length xs \<Longrightarrow> \<lfloor>xs ! i\<rfloor> \<le> fst (largestRemainder rnd t ys) ! i"
    "i < length xs \<Longrightarrow> fst (largestRemainder rnd t ys) ! i \<le> \<lceil>xs ! i\<rceil>"
    unfolding lr using lr_quota[OF s] by blast+
qed

end

interpretation fp: fp_rounding fl
  by unfold_locales (rule fl_of_int fl_half_int fl_error fl_mono; assumption)+

end
