(* ===== verification/JsText.thy ===== *)
theory JsText
  imports JsNumber
begin

text \<open>
  JavaScript values and text the sources read at run time: JSON values (\<open>unknown\<close> data from
  \<open>jsonb\<close> columns), \<open>Number(text)\<close>, \<open>JSON.parse\<close> of an array of strings, and decimal
  printing. Text is ASCII; escapes beyond one byte are outside the model.
\<close>

section \<open>JSON values\<close>

datatype json =
    JNull
  | JBool bool
  | JNum rat
  | JStr string
  | JArr "json list"
  | JObj "(string \<times> json) list"

text \<open>Property access with optional chaining: \<open>undefined\<close> is \<open>None\<close>.\<close>

fun jget :: "string \<Rightarrow> json option \<Rightarrow> json option" where
  "jget k (Some (JObj kvs)) = map_of kvs k"
| "jget k _ = None"

text \<open>\<open>x != null\<close> excludes both \<open>null\<close> and \<open>undefined\<close>.\<close>

fun jnullish :: "json option \<Rightarrow> bool" where
  "jnullish None = True"
| "jnullish (Some JNull) = True"
| "jnullish _ = False"

fun jstr :: "json option \<Rightarrow> string option" where
  "jstr (Some (JStr s)) = Some s"
| "jstr _ = None"

section \<open>Decimal text\<close>

definition digitChar :: "nat \<Rightarrow> char" where
  "digitChar n = char_of (48 + n)"

definition digitVal :: "char \<Rightarrow> nat option" where
  "digitVal c = (let n = of_char c :: nat in if 48 \<le> n \<and> n \<le> 57 then Some (n - 48) else None)"

fun showNat :: "nat \<Rightarrow> string" where
  "showNat n = (if n < 10 then [digitChar n] else showNat (n div 10) @ [digitChar (n mod 10)])"

declare showNat.simps [simp del]

definition showInt :: "int \<Rightarrow> string" where
  "showInt i = (if i < 0 then CHR ''-'' # showNat (nat (- i)) else showNat (nat i))"

text \<open>\<open>(cents / 100).toFixed(2)\<close> for nonnegative whole cents.\<close>

definition centsToFixed2 :: "int \<Rightarrow> string" where
  "centsToFixed2 c = showInt (c div 100) @ ''.'' @ [digitChar (nat (c div 10 mod 10)), digitChar (nat (c mod 10))]"

fun readDigits :: "string \<Rightarrow> nat list \<times> string" where
  "readDigits [] = ([], [])"
| "readDigits (c # cs) = (case digitVal c of
     Some d \<Rightarrow> (let (ds, rest) = readDigits cs in (d # ds, rest))
   | None \<Rightarrow> ([], c # cs))"

definition digitsVal :: "int \<Rightarrow> nat list \<Rightarrow> int" where
  "digitsVal base ds = foldl (\<lambda>a d. a * base + int d) 0 ds"

definition hexVal :: "char \<Rightarrow> nat option" where
  "hexVal c = (let n = of_char c :: nat in
     if 48 \<le> n \<and> n \<le> 57 then Some (n - 48)
     else if 97 \<le> n \<and> n \<le> 102 then Some (n - 87)
     else if 65 \<le> n \<and> n \<le> 70 then Some (n - 55) else None)"

text \<open>Digits of a radix literal (\<open>0x\<close>, \<open>0o\<close>, \<open>0b\<close>): at least one, all in range.\<close>

definition radixVal :: "int \<Rightarrow> string \<Rightarrow> rat option" where
  "radixVal base cs =
     (let ds = map hexVal cs
      in if cs = [] \<or> (\<exists>d\<in>set ds. d = None \<or> base \<le> int (the d)) then None
         else Some (of_int (digitsVal base (map the ds))))"

definition exponentPart :: "string \<Rightarrow> int option" where
  "exponentPart cs = (case cs of
       [] \<Rightarrow> Some 0
     | c # rest \<Rightarrow>
         if c = CHR ''e'' \<or> c = CHR ''E''
         then let (neg, body) = (case rest of
                    CHR ''-'' # r \<Rightarrow> (True, r) | CHR ''+'' # r \<Rightarrow> (False, r) | _ \<Rightarrow> (False, rest));
                  (ds, after) = readDigits body
              in if ds = [] \<or> after \<noteq> [] then None
                 else Some (if neg then - digitsVal 10 ds else digitsVal 10 ds)
         else None)"

text \<open>An unsigned decimal literal: digits, optional fraction, optional exponent.\<close>

definition decimalVal :: "string \<Rightarrow> rat option" where
  "decimalVal cs =
     (let (ip, r1) = readDigits cs;
          (fp, r2) = (case r1 of CHR ''.'' # r \<Rightarrow> readDigits r | _ \<Rightarrow> ([], r1))
      in if ip = [] \<and> fp = [] then None
         else case exponentPart r2 of
                None \<Rightarrow> None
              | Some e \<Rightarrow> Some (of_int (digitsVal 10 (ip @ fp)) * 10 powi (e - int (length fp))))"

text \<open>
  \<open>Number(text)\<close>: the double nearest to the literal, \<open>None\<close> for \<open>NaN\<close> and the infinities.
\<close>

definition js_Number :: "string \<Rightarrow> rat option" where
  "js_Number text =
     (let t = js_trim text
      in case t of
           [] \<Rightarrow> Some 0
         | CHR ''0'' # c # r \<Rightarrow>
             if c = CHR ''x'' \<or> c = CHR ''X'' then map_option fl (radixVal 16 r)
             else if c = CHR ''o'' \<or> c = CHR ''O'' then map_option fl (radixVal 8 r)
             else if c = CHR ''b'' \<or> c = CHR ''B'' then map_option fl (radixVal 2 r)
             else map_option fl (decimalVal t)
         | CHR ''-'' # r \<Rightarrow> map_option (\<lambda>v. - fl v) (decimalVal r)
         | CHR ''+'' # r \<Rightarrow> map_option fl (decimalVal r)
         | _ \<Rightarrow> map_option fl (decimalVal t))"

text \<open>\<open>Number.isSafeInteger(n)\<close> on a possibly non-integral number, with the integer it is.\<close>

definition safeInt :: "rat option \<Rightarrow> int option" where
  "safeInt n = (case n of
       Some v \<Rightarrow> if of_int \<lfloor>v\<rfloor> = v \<and> isSafeInteger \<lfloor>v\<rfloor> then Some \<lfloor>v\<rfloor> else None
     | None \<Rightarrow> None)"

text \<open>A JSON value that is a safe integer, and \<open>Number(v)\<close> of a JSON value (numbers, numeric text, booleans, \<open>null\<close>).\<close>

definition jint :: "json option \<Rightarrow> int option" where
  "jint v = (case v of Some (JNum r) \<Rightarrow> safeInt (Some r) | _ \<Rightarrow> None)"

definition jNumber :: "json option \<Rightarrow> rat option" where
  "jNumber v = (case v of
       Some (JNum r) \<Rightarrow> Some r | Some (JStr t) \<Rightarrow> js_Number t | Some (JBool b) \<Rightarrow> Some (if b then 1 else 0)
     | Some JNull \<Rightarrow> Some 0 | _ \<Rightarrow> None)"

section \<open>JSON.parse of an array of strings\<close>

text \<open>
  The callers accept only arrays whose elements are all strings, so exactly those texts
  are recognised: any other text, valid JSON or not, is rejected.
\<close>

definition jsonSpace :: "char \<Rightarrow> bool" where
  "jsonSpace c \<longleftrightarrow> (of_char c :: nat) \<in> {32, 9, 10, 13}"

definition skipWs :: "string \<Rightarrow> string" where
  "skipWs = dropWhile jsonSpace"

definition simpleEscape :: "char \<Rightarrow> char option" where
  "simpleEscape c =
     (if (of_char c :: nat) \<in> {34, 92, 47} then Some c
      else if c = CHR ''b'' then Some (char_of (8::nat))
      else if c = CHR ''f'' then Some (char_of (12::nat))
      else if c = CHR ''n'' then Some (char_of (10::nat))
      else if c = CHR ''r'' then Some (char_of (13::nat))
      else if c = CHR ''t'' then Some (char_of (9::nat))
      else None)"

text \<open>The rest of a string literal after its opening quote (34), up to the closing one.\<close>

fun stringBody :: "string \<Rightarrow> (string \<times> string) option" where
  "stringBody [] = None"
| "stringBody (c # cs) =
     (if (of_char c :: nat) = 34 then Some ([], cs)
      else if (of_char c :: nat) < 32 then None
      else if (of_char c :: nat) = 92 then
        (case cs of
           [] \<Rightarrow> None
         | e # r \<Rightarrow>
             if e = CHR ''u'' then
               (case r of
                  h1 # h2 # h3 # h4 # r' \<Rightarrow>
                    (case (hexVal h1, hexVal h2, hexVal h3, hexVal h4) of
                       (Some a, Some b, Some d, Some f) \<Rightarrow>
                         (if a = 0 \<and> b = 0
                          then map_option (\<lambda>(s, r''). (char_of (d * 16 + f) # s, r'')) (stringBody r')
                          else None)
                     | _ \<Rightarrow> None)
                | _ \<Rightarrow> None)
             else (case simpleEscape e of
                     None \<Rightarrow> None
                   | Some x \<Rightarrow> map_option (\<lambda>(s, r''). (x # s, r'')) (stringBody r)))
      else map_option (\<lambda>(s, r). (c # s, r)) (stringBody cs))"

definition stringLit :: "string \<Rightarrow> (string \<times> string) option" where
  "stringLit cs = (case skipWs cs of
       c # r \<Rightarrow> if (of_char c :: nat) = 34 then stringBody r else None
     | [] \<Rightarrow> None)"

lemma stringBody_shorter: "stringBody cs = Some (s, r) \<Longrightarrow> length r < length cs"
  by (induction cs arbitrary: s r rule: stringBody.induct)
     (force split: if_splits list.splits option.splits)+

lemma stringLit_shorter: "stringLit cs = Some (s, r) \<Longrightarrow> length r < length cs"
proof -
  assume "stringLit cs = Some (s, r)"
  then obtain c r' where c: "skipWs cs = c # r'" and b: "stringBody r' = Some (s, r)"
    by (auto simp: stringLit_def split: list.splits if_splits)
  have "length (skipWs cs) \<le> length cs" by (simp add: skipWs_def length_dropWhile_le)
  then show ?thesis using c stringBody_shorter[OF b] by simp
qed

text \<open>Elements after the first, and the closing bracket.\<close>

function arrayTail :: "string \<Rightarrow> (string list \<times> string) option" where
  "arrayTail cs = (case skipWs cs of
       [] \<Rightarrow> None
     | c # r \<Rightarrow>
         if c = CHR '']'' then Some ([], r)
         else if c = CHR '','' then
           (case stringLit r of
              None \<Rightarrow> None
            | Some (s, r') \<Rightarrow> map_option (\<lambda>(ss, r''). (s # ss, r'')) (arrayTail r'))
         else None)"
  by pat_completeness auto
termination
proof (relation "measure length")
  fix cs :: string and c r p s r'
  assume a: "skipWs cs = c # r" "stringLit r = Some p" "(s, r') = p"
  have "length (skipWs cs) \<le> length cs" by (simp add: skipWs_def length_dropWhile_le)
  then show "(r', cs) \<in> measure length" using a stringLit_shorter[of r s r'] by simp
qed simp

declare arrayTail.simps [simp del]

definition parseStringArrayText :: "string \<Rightarrow> string list option" where
  "parseStringArrayText text = (case skipWs text of
       c # r \<Rightarrow>
         if c = CHR ''['' then
           (let items = (case skipWs r of
                d # r' \<Rightarrow> if d = CHR '']'' then Some ([], r')
                          else (case stringLit r of
                                  None \<Rightarrow> None
                                | Some (s, r'') \<Rightarrow> map_option (\<lambda>(ss, t). (s # ss, t)) (arrayTail r''))
              | [] \<Rightarrow> None)
            in case items of
                 Some (ss, rest) \<Rightarrow> if skipWs rest = [] then Some ss else None
               | None \<Rightarrow> None)
         else None
     | [] \<Rightarrow> None)"

section \<open>Splitting and joining\<close>

fun js_split :: "char \<Rightarrow> string \<Rightarrow> string list" where
  "js_split c [] = [[]]"
| "js_split c (x # xs) = (if x = c then [] # js_split c xs else (case js_split c xs of s # ss \<Rightarrow> (x # s) # ss | [] \<Rightarrow> [[x]]))"

fun js_join :: "string \<Rightarrow> string list \<Rightarrow> string" where
  "js_join sep [] = []"
| "js_join sep [x] = x"
| "js_join sep (x # y # xs) = x @ sep @ js_join sep (y # xs)"

end
