(* ===== verification/Money.thy ===== *)
theory Money
  imports JsText
begin

text \<open>
  The small pure modules of the money core: integer-cents primitives
  (\<open>packages/shared/src/money.ts\<close>), tax-rate resolution (\<open>money/tax.ts\<close>), presentment
  currency (\<open>money/currency.ts\<close>), variant price selection (\<open>money/pricing.ts\<close>), gift-card
  redemption (\<open>money/gift-card.ts\<close>) and the order payment state machine (\<open>money/fsm.ts\<close>).
\<close>

section \<open>Integer cents: shared/src/money.ts\<close>

definition cents :: "rat \<Rightarrow> int res" where
  "cents n = (if of_int \<lfloor>n\<rfloor> = n then Inr \<lfloor>n\<rfloor> else Inl (Err ''Money must be integer cents''))"

definition ZERO :: int where
  "ZERO = 0"

definition addCents :: "int list \<Rightarrow> int" where
  "addCents values = foldl (+) 0 values"

definition subCents :: "int \<Rightarrow> int \<Rightarrow> int" where
  "subCents a b = a - b"

definition mulCents :: "int \<Rightarrow> rat \<Rightarrow> int res" where
  "mulCents v qty =
     (if of_int \<lfloor>qty\<rfloor> = qty then Inr (v * \<lfloor>qty\<rfloor>) else Inl (Err ''Quantity must be an integer''))"

text \<open>A quotient of two whole numbers as the code computes it.\<close>

definition js_div :: "int \<Rightarrow> int \<Rightarrow> rat" where
  "js_div a b = fl (of_int a / of_int b)"

definition percentOf :: "int \<Rightarrow> int \<Rightarrow> int" where
  "percentOf v percent = js_round (js_div (v * percent) 100)"

text \<open>Exact half-up rounding of a quotient, the reference for every rounded amount.\<close>

definition halfUp :: "int \<Rightarrow> int \<Rightarrow> int" where
  "halfUp n b = (2 * n + b) div (2 * b)"

named_theorems money_exact \<open>rounded amounts equal their exact half-up reference\<close>

lemma js_round_div [money_exact]:
  "\<lbrakk>0 < b; \<bar>n\<bar> < 2 ^ 52\<rbrakk> \<Longrightarrow> js_round (js_div n b) = halfUp n b"
  unfolding js_div_def halfUp_def by (rule fp.round_quotient)

lemma halfUp_mono: "\<lbrakk>0 < b; m \<le> n\<rbrakk> \<Longrightarrow> halfUp m b \<le> halfUp n b"
  by (simp add: halfUp_def zdiv_mono1)

lemma halfUp_mult [simp]: "0 < b \<Longrightarrow> halfUp (k * b) b = k"
proof -
  assume b: "0 < b"
  have eq: "2 * (k * b) + b = b + k * (2 * b)" by (simp add: algebra_simps)
  show ?thesis unfolding halfUp_def eq using b by (subst div_mult_self1) simp_all
qed

lemma halfUp_nonneg: "\<lbrakk>0 < b; 0 \<le> n\<rbrakk> \<Longrightarrow> 0 \<le> halfUp n b"
  using halfUp_mono[of b 0 n] halfUp_mult[of b 0] by simp

lemma halfUp_le:
  assumes "0 < b" "n \<le> k * b" shows "halfUp n b \<le> k"
  using halfUp_mono[OF assms] halfUp_mult[OF assms(1), of k] by simp

lemma halfUp_ge:
  assumes "0 < b" "k * b \<le> n" shows "k \<le> halfUp n b"
  using halfUp_mono[OF assms] halfUp_mult[OF assms(1), of k] by simp

text \<open>Half-up rounding is off by at most half a unit.\<close>

lemma halfUp_error:
  assumes "0 < b" shows "\<bar>2 * (halfUp n b * b - n)\<bar> \<le> b"
proof -
  have "(2 * n + b) div (2 * b) * (2 * b) + (2 * n + b) mod (2 * b) = 2 * n + b"
    by (rule div_mult_mod_eq)
  moreover have "0 \<le> (2 * n + b) mod (2 * b)" "(2 * n + b) mod (2 * b) < 2 * b"
    using assms by simp_all
  ultimately show ?thesis by (simp add: halfUp_def algebra_simps abs_le_iff)
qed

lemma foldl_add_int: "foldl (+) (a::int) xs = a + sum_list xs"
  by (induction xs arbitrary: a) auto

lemma addCents_eq: "addCents xs = sum_list xs"
  by (simp add: addCents_def foldl_add_int)

section \<open>Tax rate by destination: money/tax.ts\<close>

record TaxZoneRule =
  tz_countries :: "string list"
  tz_rate :: int
  tz_priority :: int

definition normCountry :: "string \<Rightarrow> string" where
  "normCountry c = toUpperCase (js_trim c)"

definition resolveTaxRate :: "TaxZoneRule list \<Rightarrow> string option \<Rightarrow> int \<Rightarrow> int" where
  "resolveTaxRate zones country fallbackRate =
     (let c = (case country of None \<Rightarrow> '''' | Some s \<Rightarrow> normCountry s)
      in if c = '''' then fallbackRate
         else case sort_key (\<lambda>z. - tz_priority z)
                     (filter (\<lambda>z. \<exists>x\<in>set (tz_countries z). normCountry x = c) zones) of
                [] \<Rightarrow> fallbackRate
              | z # _ \<Rightarrow> tz_rate z)"

lemma sort_key_hd_least:
  assumes "sort_key k xs = z # zs" shows "z \<in> set xs" "\<forall>y\<in>set xs. k z \<le> (k y :: 'b :: linorder)"
proof -
  have s: "set xs = insert z (set zs)" using assms set_sort[of k xs] by (metis list.simps(15))
  have "sorted (map k (z # zs))" using assms sorted_sort_key[of k xs] by simp
  then show "z \<in> set xs" "\<forall>y\<in>set xs. k z \<le> k y" using s by auto
qed

section \<open>Presentment currency: money/currency.ts\<close>

definition RATE_SCALE :: int where
  "RATE_SCALE = 10000"

definition convertMoney :: "int \<Rightarrow> int \<Rightarrow> int" where
  "convertMoney baseCents rateScaled = js_round (js_div (baseCents * rateScaled) RATE_SCALE)"

record CurrencyRate =
  cr_currency :: string
  cr_rate :: int
  cr_enabled :: bool

definition rateFor :: "CurrencyRate list \<Rightarrow> string \<Rightarrow> string \<Rightarrow> int" where
  "rateFor rates baseCurrency currency =
     (if toUpperCase currency = toUpperCase baseCurrency then RATE_SCALE
      else case find (\<lambda>x. cr_enabled x \<and> toUpperCase (cr_currency x) = toUpperCase currency) rates of
             Some r \<Rightarrow> cr_rate r | None \<Rightarrow> RATE_SCALE)"

section \<open>Variant unit price: money/pricing.ts\<close>

datatype VariantPriceRule = PreorderRule | SaleRule

definition DEFAULT_VARIANT_PRICE_RULE :: VariantPriceRule where
  "DEFAULT_VARIANT_PRICE_RULE = PreorderRule"

record VariantPriceFields =
  vp_price :: int
  vp_salePrice :: "int option"
  vp_isPreOrder :: bool
  vp_preOrderPrice :: "int option"

text \<open>\<open>config.pricing.variantRule\<close>; unknown or absent values mean the default rule.\<close>

definition variantPriceRuleFromConfig :: "json option \<Rightarrow> VariantPriceRule" where
  "variantPriceRuleFromConfig config =
     (let rule = jstr (jget ''variantRule'' (jget ''pricing'' config))
      in if rule = Some ''sale'' then SaleRule
         else if rule = Some ''preorder'' then PreorderRule else DEFAULT_VARIANT_PRICE_RULE)"

definition positive :: "int option \<Rightarrow> int option" where
  "positive n = (case n of Some v \<Rightarrow> if 0 < v then Some v else None | None \<Rightarrow> None)"

definition selectUnitPrice :: "VariantPriceFields \<Rightarrow> VariantPriceRule \<Rightarrow> int" where
  "selectUnitPrice v rule =
     (if rule = SaleRule then orElse (positive (vp_salePrice v)) (vp_price v)
      else if vp_isPreOrder v then orElse (positive (vp_preOrderPrice v)) (vp_price v)
      else orElse (positive (vp_salePrice v)) (vp_price v))"

section \<open>Gift cards: money/gift-card.ts\<close>

record GiftCardState =
  gc_balance :: int
  gc_enabled :: bool
  gc_expiresAt :: "int option"

datatype GiftCardReason = GcDisabled | GcExpired | GcEmpty | GcInsufficientBalance

record GiftCardApplication =
  ga_applicable :: bool
  ga_reason :: "GiftCardReason option"
  ga_applied :: int
  ga_remainingDue :: int
  ga_newBalance :: int

definition applyGiftCard :: "GiftCardState \<Rightarrow> int \<Rightarrow> int \<Rightarrow> GiftCardApplication" where
  "applyGiftCard gc amountDue now =
     (let due = max 0 amountDue;
          none = (\<lambda>r. \<lparr>ga_applicable = False, ga_reason = Some r, ga_applied = 0,
                        ga_remainingDue = due, ga_newBalance = gc_balance gc\<rparr>)
      in if \<not> gc_enabled gc then none GcDisabled
         else if (case gc_expiresAt gc of Some e \<Rightarrow> e \<le> now | None \<Rightarrow> False) then none GcExpired
         else if gc_balance gc \<le> 0 then none GcEmpty
         else if gc_balance gc < due then none GcInsufficientBalance
         else \<lparr>ga_applicable = (0 < due), ga_reason = None, ga_applied = due,
               ga_remainingDue = 0, ga_newBalance = gc_balance gc - due\<rparr>)"

section \<open>Order payment lifecycle: money/fsm.ts\<close>

datatype OrderState = PendingPayment | Paid | PartiallyRefunded | Refunded | Cancelled

fun ORDER_TRANSITIONS :: "OrderState \<Rightarrow> OrderState list" where
  "ORDER_TRANSITIONS PendingPayment = [Paid, Cancelled]"
| "ORDER_TRANSITIONS Paid = [PartiallyRefunded, Refunded, Cancelled]"
| "ORDER_TRANSITIONS PartiallyRefunded = [Refunded]"
| "ORDER_TRANSITIONS Refunded = []"
| "ORDER_TRANSITIONS Cancelled = []"

definition canTransition :: "OrderState \<Rightarrow> OrderState \<Rightarrow> bool" where
  "canTransition from to \<longleftrightarrow> to \<in> set (ORDER_TRANSITIONS from)"

section \<open>Properties\<close>

text \<open>Number of transitions left in a lifecycle: it drops with every allowed transition.\<close>

fun stepsLeft :: "OrderState \<Rightarrow> nat" where
  "stepsLeft PendingPayment = 3"
| "stepsLeft Paid = 2"
| "stepsLeft PartiallyRefunded = 1"
| "stepsLeft Refunded = 0"
| "stepsLeft Cancelled = 0"

lemma canTransition_stepsLeft: "canTransition a b \<Longrightarrow> stepsLeft b < stepsLeft a"
  by (cases a; cases b) (simp_all add: canTransition_def)

lemma canTransition_path_stepsLeft: "canTransition\<^sup>+\<^sup>+ a b \<Longrightarrow> stepsLeft b < stepsLeft a"
  by (induction rule: tranclp_induct) (auto dest: canTransition_stepsLeft)

lemma canTransition_relpowp_le: "(canTransition ^^ n) a b \<Longrightarrow> n + stepsLeft b \<le> stepsLeft a"
proof (induction n arbitrary: b)
  case (Suc n)
  then obtain c where c: "(canTransition ^^ n) a c" "canTransition c b" by auto
  then show ?case using Suc.IH[OF c(1)] canTransition_stepsLeft[OF c(2)] by simp
qed simp

text \<open>C39: the order payment lifecycle is acyclic: no chain of allowed transitions returns to a
  state it left, a chain has at most three transitions, a state has no successor exactly
  when it is Refunded or Cancelled, and a refund state is only entered from a paid one.\<close>

theorem order_lifecycle:
  "(\<not> canTransition\<^sup>+\<^sup>+ s s) \<and> ((canTransition ^^ n) a b \<longrightarrow> n \<le> 3) \<and>
   ((\<nexists>t. canTransition s t) \<longleftrightarrow> s = Refunded \<or> s = Cancelled) \<and>
   (canTransition s PartiallyRefunded \<longrightarrow> s = Paid) \<and>
   (canTransition s Refunded \<longrightarrow> s = Paid \<or> s = PartiallyRefunded)"
proof -
  have "\<not> canTransition\<^sup>+\<^sup>+ s s" using canTransition_path_stepsLeft[of s s] by auto
  moreover have "stepsLeft a \<le> 3" by (cases a) simp_all
  then have "(canTransition ^^ n) a b \<longrightarrow> n \<le> 3" using canTransition_relpowp_le[of n a b] by auto
  moreover have "(\<nexists>t. canTransition s t) \<longleftrightarrow> s = Refunded \<or> s = Cancelled"
    by (cases s) (auto simp: canTransition_def)
  moreover have "canTransition s PartiallyRefunded \<longrightarrow> s = Paid"
    "canTransition s Refunded \<longrightarrow> s = Paid \<or> s = PartiallyRefunded"
    by (cases s; simp add: canTransition_def)+
  ultimately show ?thesis by blast
qed

theorem order_lifecycle_witness:
  "(canTransition ^^ 3) PendingPayment Refunded \<and> (3::nat) \<le> 3 \<and> canTransition Paid PartiallyRefunded"
proof -
  have p: "(canTransition ^^ 3) PendingPayment Refunded"
    by (simp add: numeral_3_eq_3 relcompp_apply canTransition_def)
       (intro exI[of _ PartiallyRefunded] conjI exI[of _ Paid]; simp)
  have "(3::nat) \<le> 3" using order_lifecycle[of Paid 3 PendingPayment Refunded] p by blast
  then show ?thesis using p by (simp add: canTransition_def)
qed

text \<open>Redeeming a gift card conserves money: what is drawn plus what stays on the card is the
  old balance, what is drawn plus what stays due is the amount due, and a draw happens
  exactly from an enabled, unexpired card that covers the whole positive amount (one tender).\<close>

theorem gift_card_conserves:
  "ga_applied (applyGiftCard gc due now) + ga_newBalance (applyGiftCard gc due now) = gc_balance gc \<and>
   ga_applied (applyGiftCard gc due now) + ga_remainingDue (applyGiftCard gc due now) = max 0 due \<and>
   (ga_applicable (applyGiftCard gc due now) \<longleftrightarrow> ga_applied (applyGiftCard gc due now) \<noteq> 0) \<and>
   (ga_applicable (applyGiftCard gc due now) \<longleftrightarrow>
      gc_enabled gc \<and> (\<forall>e. gc_expiresAt gc = Some e \<longrightarrow> now < e) \<and> 0 < due \<and> due \<le> gc_balance gc)"
  by (auto simp: applyGiftCard_def Let_def split: option.splits)

theorem gift_card_conserves_witness:
  "ga_applied (applyGiftCard \<lparr>gc_balance = 5000, gc_enabled = True, gc_expiresAt = Some 10\<rparr> 3200 4) = 3200 \<and>
   ga_applicable (applyGiftCard \<lparr>gc_balance = 5000, gc_enabled = True, gc_expiresAt = Some 10\<rparr> 3200 4)"
  using gift_card_conserves[of "\<lparr>gc_balance = 5000, gc_enabled = True, gc_expiresAt = Some 10\<rparr>" 3200 4]
  by (simp add: applyGiftCard_def)

definition zoneMatches :: "string \<Rightarrow> TaxZoneRule \<Rightarrow> bool" where
  "zoneMatches c z \<longleftrightarrow> (\<exists>x\<in>set (tz_countries z). normCountry x = normCountry c)"

text \<open>Tax-rate resolution returns the rate of a zone that lists the destination country
  (trimmed, case-insensitive) and that no other such zone outranks; without a country or
  a matching zone it is the store's flat rate.\<close>

theorem tax_rate_resolution:
  "resolveTaxRate zones None fb = fb \<and>
   (if normCountry c = [] \<or> (\<forall>z\<in>set zones. \<not> zoneMatches c z)
    then resolveTaxRate zones (Some c) fb = fb
    else \<exists>z\<in>set zones. zoneMatches c z \<and> resolveTaxRate zones (Some c) fb = tz_rate z \<and>
           (\<forall>y\<in>set zones. zoneMatches c y \<longrightarrow> tz_priority y \<le> tz_priority z))"
proof -
  let ?ms = "filter (zoneMatches c) zones"
  have r: "resolveTaxRate zones (Some c) fb = (if normCountry c = [] then fb
      else case sort_key (\<lambda>z. - tz_priority z) ?ms of [] \<Rightarrow> fb | z # _ \<Rightarrow> tz_rate z)"
    by (simp add: resolveTaxRate_def zoneMatches_def[abs_def])
  show ?thesis
  proof (cases "sort_key (\<lambda>z. - tz_priority z) ?ms")
    case Nil
    then have "?ms = []" by (simp only: sort_key_eq_Nil)
    then show ?thesis using r by (auto simp: filter_empty_conv resolveTaxRate_def)
  next
    case (Cons z zs)
    have "z \<in> set ?ms" "\<forall>y\<in>set ?ms. - tz_priority z \<le> - tz_priority y"
      using sort_key_hd_least[OF Cons] by auto
    then show ?thesis using r Cons by (auto simp: resolveTaxRate_def)
  qed
qed

theorem tax_rate_resolution_witness:
  "resolveTaxRate [\<lparr>tz_countries = [''US''], tz_rate = 500, tz_priority = 1\<rparr>,
                   \<lparr>tz_countries = [''DE'', '' us ''], tz_rate = 875, tz_priority = 2\<rparr>] (Some ''us'') 0 = 875"
proof -
  let ?z = "[\<lparr>tz_countries = [''US''], tz_rate = 500, tz_priority = 1\<rparr>,
             \<lparr>tz_countries = [''DE'', '' us ''], tz_rate = 875, tz_priority = 2\<rparr>]"
  have m: "zoneMatches ''us'' (?z ! 0)" "zoneMatches ''us'' (?z ! 1)" "normCountry ''us'' \<noteq> []"
    by code_simp+
  have "\<exists>z\<in>set ?z. zoneMatches ''us'' z \<and> resolveTaxRate ?z (Some ''us'') 0 = tz_rate z \<and>
           (\<forall>y\<in>set ?z. zoneMatches ''us'' y \<longrightarrow> tz_priority y \<le> tz_priority z)"
    using tax_rate_resolution[of ?z 0 "''us''"] m by auto
  then show ?thesis using m by auto
qed

end
