(* ===== verification/Totals.thy ===== *)
theory Totals
  imports Money
begin

text \<open>
  The canonical order totals (\<open>money/totals.ts\<close>): line subtotals, one promotion
  (percentage, fixed or free shipping), the loyalty-points discount, signed order-edit
  adjustments, inclusive or exclusive tax, shipping with its own rate, and the final
  floor. The theorems: the largest-remainder split of a fixed amount conserves it and
  respects every line, no line is discounted below zero, rounded amounts are exact
  half-up amounts although computed in floating point, and the totals add up.
\<close>

section \<open>Data\<close>

record CartLineInput =
  cl_unitPrice :: int
  cl_quantity :: int

datatype PromotionType = PercentagePromo | FixedPromo | FreeShippingPromo

record Promotion =
  pr_type :: PromotionType
  pr_value :: int
  pr_freeShipping :: bool

record TotalsAdjustment =
  ta_amount :: rat
  ta_taxable :: bool

record TotalsInput =
  ti_lines :: "CartLineInput list"
  ti_shipping :: int
  ti_taxRate :: int
  ti_shippingTaxable :: bool
  ti_shippingTaxRate :: "int option"
  ti_shippingTaxInclusive :: "bool option"
  ti_taxInclusive :: bool
  ti_promotion :: "Promotion option"
  ti_pointsDiscount :: "rat option"
  ti_adjustments :: "TotalsAdjustment list option"

record LineTotals =
  lt_unitPrice :: int
  lt_quantity :: int
  lt_lineSubtotal :: int
  lt_lineDiscount :: int
  lt_lineTotal :: int

record OrderTotals =
  ot_lines :: "LineTotals list"
  ot_subtotal :: int
  ot_discountTotal :: int
  ot_shippingTotal :: int
  ot_taxTotal :: int
  ot_grandTotal :: int
  ot_pointsDiscount :: int
  ot_adjustmentTotal :: "int option"

section \<open>Operations\<close>

definition roundHalfUp :: "rat \<Rightarrow> int" where
  "roundHalfUp n = js_round n"

definition distributeLargestRemainder :: "int \<Rightarrow> int list \<Rightarrow> int list" where
  "distributeLargestRemainder target weights =
     (if target \<le> 0 \<or> weights = [] then map (\<lambda>_. 0) weights
      else let total = sum_list weights
           in if total \<le> 0 then map (\<lambda>_. 0) weights
              else let raw = map (\<lambda>w. fl (js_div w total * of_int target)) weights
                   in fst (largestRemainder fl target raw))"

text \<open>Tax contained in, or added to, a base amount at a rate in basis points.\<close>

definition taxOn :: "bool \<Rightarrow> int \<Rightarrow> int \<Rightarrow> int" where
  "taxOn inclusive base rate =
     (if inclusive then base - roundHalfUp (js_div (base * 10000) (10000 + rate))
      else roundHalfUp (js_div (base * rate) 10000))"

definition promoPct :: "Promotion option \<Rightarrow> int" where
  "promoPct promo = (case promo of
       Some p \<Rightarrow> if pr_type p = PercentagePromo then min 100 (max 0 (pr_value p)) else 0
     | None \<Rightarrow> 0)"

text \<open>The promotion's discount per line, before loyalty points.\<close>

definition promoLineDiscounts :: "Promotion option \<Rightarrow> int list \<Rightarrow> int list" where
  "promoLineDiscounts promo lineSubtotals =
     (case promo of
        None \<Rightarrow> map (\<lambda>_. 0) lineSubtotals
      | Some p \<Rightarrow>
          if pr_type p = PercentagePromo \<and> 0 < promoPct promo
            then map (\<lambda>s. roundHalfUp (js_div (s * promoPct promo) 100)) lineSubtotals
          else if pr_type p = FixedPromo
            then distributeLargestRemainder (min (pr_value p) (sum_list lineSubtotals)) lineSubtotals
          else map (\<lambda>_. 0) lineSubtotals)"

definition pointsApplied :: "rat option \<Rightarrow> int \<Rightarrow> int" where
  "pointsApplied requested remaining = min (max 0 \<lfloor>orElse requested 0\<rfloor>) (max 0 remaining)"

definition freeShips :: "Promotion option \<Rightarrow> bool" where
  "freeShips promo = (case promo of Some p \<Rightarrow> pr_type p = FreeShippingPromo \<or> pr_freeShipping p | None \<Rightarrow> False)"

text \<open>The parts of the computation, in the order of the code.\<close>

definition lineSubtotalsOf :: "TotalsInput \<Rightarrow> int list" where
  "lineSubtotalsOf input = map (\<lambda>l. cl_unitPrice l * cl_quantity l) (ti_lines input)"

definition afterPromoOf :: "TotalsInput \<Rightarrow> int list" where
  "afterPromoOf input = map2 (\<lambda>s d. s - d) (lineSubtotalsOf input) (promoLineDiscounts (ti_promotion input) (lineSubtotalsOf input))"

definition pointsDiscountOf :: "TotalsInput \<Rightarrow> int" where
  "pointsDiscountOf input = pointsApplied (ti_pointsDiscount input) (sum_list (afterPromoOf input))"

definition perLineOf :: "TotalsInput \<Rightarrow> int list" where
  "perLineOf input =
     (let d = promoLineDiscounts (ti_promotion input) (lineSubtotalsOf input)
      in if 0 < pointsDiscountOf input
         then map2 (+) d (distributeLargestRemainder (pointsDiscountOf input) (afterPromoOf input)) else d)"

definition linesOf :: "TotalsInput \<Rightarrow> LineTotals list" where
  "linesOf input =
     map (\<lambda>(l, s, d). \<lparr>lt_unitPrice = cl_unitPrice l, lt_quantity = cl_quantity l,
        lt_lineSubtotal = s, lt_lineDiscount = d, lt_lineTotal = s - d\<rparr>)
       (zip (ti_lines input) (zip (lineSubtotalsOf input) (perLineOf input)))"

definition adjustmentTotalOf :: "TotalsInput \<Rightarrow> int" where
  "adjustmentTotalOf input = sum_list (map (\<lambda>x. js_trunc (ta_amount x)) (orElse (ti_adjustments input) []))"

definition taxableAdjustmentsOf :: "TotalsInput \<Rightarrow> int" where
  "taxableAdjustmentsOf input =
     sum_list (map (\<lambda>x. if ta_taxable x then js_trunc (ta_amount x) else 0) (orElse (ti_adjustments input) []))"

text \<open>Tax total and unfloored grand total of the discounted merchandise and the shipping charged.\<close>

definition taxAndGrandRaw :: "TotalsInput \<Rightarrow> int \<Rightarrow> int \<Rightarrow> int \<times> int" where
  "taxAndGrandRaw input discountedSubtotal shippingTotal =
     (let taxableShipping = (if ti_shippingTaxable input then shippingTotal else 0);
          adjustmentTotal = adjustmentTotalOf input;
          itemBase = discountedSubtotal + taxableAdjustmentsOf input;
          taxableBase = itemBase + taxableShipping;
          taxInc = ti_taxInclusive input;
          taxTotal = (if 0 < ti_taxRate input then taxOn taxInc taxableBase (ti_taxRate input) else 0);
          grandTotalRaw = (if taxInc then discountedSubtotal + shippingTotal
                           else discountedSubtotal + shippingTotal + taxTotal) + adjustmentTotal
      in case ti_shippingTaxRate input of
           None \<Rightarrow> (taxTotal, grandTotalRaw)
         | Some sr \<Rightarrow>
             let itemTax = (if ti_taxRate input \<le> 0 then 0 else taxOn taxInc itemBase (ti_taxRate input));
                 shippingInclusive = orElse (ti_shippingTaxInclusive input) taxInc;
                 shippingTax = (if sr \<le> 0 then 0 else taxOn shippingInclusive shippingTotal sr)
             in (itemTax + shippingTax,
                 discountedSubtotal + shippingTotal + adjustmentTotal
                   + (if taxInc then 0 else itemTax) + (if shippingInclusive then 0 else shippingTax)))"

definition calculateOrderTotals :: "TotalsInput \<Rightarrow> OrderTotals" where
  "calculateOrderTotals input =
     (let lines = linesOf input;
          subtotal = sum_list (lineSubtotalsOf input);
          discountTotal = sum_list (map lt_lineDiscount lines);
          shippingTotal = (if freeShips (ti_promotion input) then 0 else ti_shipping input);
          tg = taxAndGrandRaw input (subtotal - discountTotal) shippingTotal
      in \<lparr>ot_lines = lines, ot_subtotal = subtotal, ot_discountTotal = discountTotal,
          ot_shippingTotal = shippingTotal, ot_taxTotal = fst tg, ot_grandTotal = max 0 (snd tg),
          ot_pointsDiscount = pointsDiscountOf input,
          ot_adjustmentTotal = (case ti_adjustments input of None \<Rightarrow> None | Some _ \<Rightarrow> Some (adjustmentTotalOf input))\<rparr>)"

section \<open>Helper lemmas\<close>

text \<open>Amounts the theorems range over: what an order can hold, with room for the rounding analysis.\<close>

definition MAX_ORDER_CENTS :: int where
  "MAX_ORDER_CENTS = 2 ^ 24"

definition wf_subtotals :: "int list \<Rightarrow> bool" where
  "wf_subtotals ws \<longleftrightarrow> (\<forall>w\<in>set ws. 0 \<le> w) \<and> sum_list ws \<le> MAX_ORDER_CENTS"

lemma sum_list_elem_le: "\<lbrakk>\<forall>w\<in>set ws. 0 \<le> w; x \<in> set ws\<rbrakk> \<Longrightarrow> x \<le> (sum_list ws :: int)"
  by (induction ws) (auto simp: sum_list_nonneg add_increasing add_increasing2)

lemma distribute_length [simp]: "length (distributeLargestRemainder t ws) = length ws"
  by (simp add: distributeLargestRemainder_def largestRemainder_def Let_def)

lemma distribute_zero: "t \<le> 0 \<Longrightarrow> distributeLargestRemainder t ws = map (\<lambda>_. 0) ws"
  by (simp add: distributeLargestRemainder_def)

lemma distribute_quota:
  assumes ws: "wf_subtotals ws" and t: "0 < t" "t \<le> sum_list ws"
  shows "sum_list (distributeLargestRemainder t ws) = t"
    and "i < length ws \<Longrightarrow> \<lfloor>(of_int (ws ! i * t) :: rat) / of_int (sum_list ws)\<rfloor> \<le> distributeLargestRemainder t ws ! i"
    and "i < length ws \<Longrightarrow> distributeLargestRemainder t ws ! i \<le> \<lceil>(of_int (ws ! i * t) :: rat) / of_int (sum_list ws)\<rceil>"
proof -
  define T where "T = sum_list ws"
  have T: "0 < T" "T \<le> 2 ^ 24" "t \<le> T" using t ws by (auto simp: T_def wf_subtotals_def MAX_ORDER_CENTS_def)
  let ?xs = "map (\<lambda>w. (of_int (w * t) :: rat) / of_int T) ws"
  let ?ys = "map (\<lambda>w. fl (js_div w T * of_int t)) ws"
  have dist: "distributeLargestRemainder t ws = fst (largestRemainder fl t ?ys)"
  proof -
    have "ws \<noteq> []" using T(1) by (auto simp: T_def)
    then show ?thesis using t T by (auto simp: distributeLargestRemainder_def T_def[symmetric] Let_def)
  qed
  have near: "\<bar>?ys ! i - ?xs ! i\<bar> \<le> 1 / (8 * of_int T)" if "i < length ?xs" for i
  proof -
    have w: "0 \<le> ws ! i" "ws ! i \<le> T" using that ws sum_list_elem_le[of ws "ws ! i"]
      by (auto simp: wf_subtotals_def T_def)
    have "ws ! i * t \<le> 2 ^ 24 * 2 ^ 24" using w t T by (intro mult_mono) auto
    moreover have "0 \<le> ws ! i * t" using w t by simp
    ultimately have "\<bar>ws ! i * t\<bar> \<le> 2 ^ 48" by simp
    from fp.share_error[OF T(1) this] show ?thesis
      using that by (simp add: js_div_def mult.commute)
  qed
  have sum: "sum_list ?xs = of_int t"
  proof -
    have "sum_list ?xs = (\<Sum>w\<leftarrow>ws. of_int w * (of_int t / of_int T))" by (simp add: comp_def)
    also have "\<dots> = of_int (sum_list ws) * (of_int t / of_int T)"
      by (induction ws) (simp_all add: algebra_simps)
    finally show ?thesis using T by (simp add: T_def)
  qed
  have grid: "\<exists>m. ?xs ! i * of_int T = of_int m" if "i < length ?xs" for i
    using that T by (intro exI[of _ "ws ! i * t"]) simp
  have T49: "T \<le> 2 ^ 49" using T by simp
  note q = fp.largest_remainder_quota[OF T(1) T49 _ grid near sum]
  show "sum_list (distributeLargestRemainder t ws) = t" unfolding dist by (rule q(1)) simp_all
  show "i < length ws \<Longrightarrow> \<lfloor>(of_int (ws ! i * t) :: rat) / of_int (sum_list ws)\<rfloor> \<le> distributeLargestRemainder t ws ! i"
    unfolding dist using q(3)[of i] by (simp add: T_def)
  show "i < length ws \<Longrightarrow> distributeLargestRemainder t ws ! i \<le> \<lceil>(of_int (ws ! i * t) :: rat) / of_int (sum_list ws)\<rceil>"
    unfolding dist using q(4)[of i] by (simp add: T_def)
qed

lemma distribute_bounds:
  assumes ws: "wf_subtotals ws" and t: "t \<le> sum_list ws" and i: "i < length ws"
  shows "0 \<le> distributeLargestRemainder t ws ! i" "distributeLargestRemainder t ws ! i \<le> ws ! i"
proof -
  have w: "0 \<le> ws ! i" using ws i by (simp add: wf_subtotals_def)
  have "0 \<le> distributeLargestRemainder t ws ! i \<and> distributeLargestRemainder t ws ! i \<le> ws ! i"
  proof (cases "0 < t")
    case True
    have pos: "(0 :: rat) < of_int (sum_list ws)" using True t by simp
    have "ws ! i * t \<le> ws ! i * sum_list ws" using w t by (rule mult_left_mono[rotated])
    then have "(of_int (ws ! i * t) :: rat) \<le> of_int (ws ! i) * of_int (sum_list ws)"
      by (metis of_int_le_iff of_int_mult)
    then have "(of_int (ws ! i * t) :: rat) / of_int (sum_list ws) \<le> of_int (ws ! i)"
      using pos by (simp add: divide_le_eq)
    then have "\<lceil>(of_int (ws ! i * t) :: rat) / of_int (sum_list ws)\<rceil> \<le> ws ! i"
      by (simp only: ceiling_le_iff)
    moreover have "0 \<le> (of_int (ws ! i * t) :: rat) / of_int (sum_list ws)"
      using w True pos by simp
    then have "0 \<le> \<lfloor>(of_int (ws ! i * t) :: rat) / of_int (sum_list ws)\<rfloor>" by simp
    ultimately show ?thesis using distribute_quota(2,3)[OF ws True t i] by linarith
  next
    case False
    then show ?thesis using w i by (simp add: distribute_zero)
  qed
  then show "0 \<le> distributeLargestRemainder t ws ! i" "distributeLargestRemainder t ws ! i \<le> ws ! i" by auto
qed

lemma distribute_sum:
  assumes "wf_subtotals ws" "t \<le> sum_list ws"
  shows "sum_list (distributeLargestRemainder t ws) = max 0 t"
  using assms distribute_quota(1)[of ws t] by (cases "0 < t") (auto simp: distribute_zero)

lemma percent_discount:
  assumes "0 \<le> s" "s \<le> MAX_ORDER_CENTS" "0 \<le> pct" "pct \<le> 100"
  shows "roundHalfUp (js_div (s * pct) 100) = halfUp (s * pct) 100"
    and "0 \<le> halfUp (s * pct) 100" "halfUp (s * pct) 100 \<le> s"
proof -
  have "s * pct \<le> 2 ^ 24 * 100" using assms by (intro mult_mono) (auto simp: MAX_ORDER_CENTS_def)
  then have "\<bar>s * pct\<bar> < 2 ^ 52" using assms by (simp add: abs_mult)
  then show "roundHalfUp (js_div (s * pct) 100) = halfUp (s * pct) 100"
    unfolding roundHalfUp_def by (rule js_round_div[rotated]) simp
  show "0 \<le> halfUp (s * pct) 100" using assms by (simp add: halfUp_nonneg)
  show "halfUp (s * pct) 100 \<le> s" using assms by (intro halfUp_le) (simp_all add: mult_left_mono)
qed

lemma promoLineDiscounts_length [simp]: "length (promoLineDiscounts promo ws) = length ws"
  by (auto simp: promoLineDiscounts_def split: option.splits)

lemma wf_subtotals_nth:
  "\<lbrakk>wf_subtotals ws; i < length ws\<rbrakk> \<Longrightarrow> 0 \<le> ws ! i \<and> ws ! i \<le> MAX_ORDER_CENTS"
  using sum_list_elem_le[of ws "ws ! i"] by (auto simp: wf_subtotals_def)

lemma promoPct_range: "0 \<le> promoPct p" "promoPct p \<le> 100"
  by (auto simp: promoPct_def split: option.splits)

lemma promoLineDiscounts_bounds:
  assumes ws: "wf_subtotals ws" and i: "i < length ws"
  shows "0 \<le> promoLineDiscounts promo ws ! i \<and> promoLineDiscounts promo ws ! i \<le> ws ! i"
proof (cases promo)
  case (Some p)
  note w = wf_subtotals_nth[OF ws i]
  show ?thesis
  proof (cases "pr_type p")
    case PercentagePromo
    then show ?thesis using Some w i promoPct_range[of promo] percent_discount[of "ws ! i" "promoPct promo"]
      by (auto simp: promoLineDiscounts_def)
  next
    case FixedPromo
    then show ?thesis using Some distribute_bounds[OF ws _ i] by (auto simp: promoLineDiscounts_def)
  next
    case FreeShippingPromo
    then show ?thesis using Some w i by (auto simp: promoLineDiscounts_def)
  qed
qed (use wf_subtotals_nth[OF ws i] i in \<open>auto simp: promoLineDiscounts_def\<close>)

text \<open>The promotion's exact worth on the merchandise, without any floating-point arithmetic.\<close>

definition promoWorth :: "Promotion option \<Rightarrow> int list \<Rightarrow> int" where
  "promoWorth promo ws = (case promo of
       None \<Rightarrow> 0
     | Some p \<Rightarrow> (case pr_type p of
           PercentagePromo \<Rightarrow> sum_list (map (\<lambda>s. halfUp (s * min 100 (max 0 (pr_value p))) 100) ws)
         | FixedPromo \<Rightarrow> max 0 (min (pr_value p) (sum_list ws))
         | FreeShippingPromo \<Rightarrow> 0))"

lemma sum_promoLineDiscounts:
  assumes ws: "wf_subtotals ws" shows "sum_list (promoLineDiscounts promo ws) = promoWorth promo ws"
proof (cases promo)
  case (Some p)
  show ?thesis
  proof (cases "pr_type p")
    case PercentagePromo
    have w: "promoWorth promo ws = sum_list (map (\<lambda>s. halfUp (s * promoPct promo) 100) ws)"
      using Some PercentagePromo by (simp add: promoWorth_def promoPct_def)
    have d: "promoLineDiscounts promo ws =
        (if 0 < promoPct promo then map (\<lambda>s. roundHalfUp (js_div (s * promoPct promo) 100)) ws else map (\<lambda>_. 0) ws)"
      using Some PercentagePromo by (simp add: promoLineDiscounts_def)
    have eq: "map (\<lambda>s. roundHalfUp (js_div (s * promoPct promo) 100)) ws = map (\<lambda>s. halfUp (s * promoPct promo) 100) ws"
      using ws promoPct_range[of promo]
      by (intro map_cong refl percent_discount) (auto simp: wf_subtotals_def dest: sum_list_elem_le[of ws])
    show ?thesis
    proof (cases "0 < promoPct promo")
      case True
      then show ?thesis unfolding w d eq by simp
    next
      case False
      then have "promoPct promo = 0" using promoPct_range[of promo] by linarith
      then show ?thesis unfolding w d by (simp add: halfUp_def)
    qed
  next
    case FixedPromo
    then show ?thesis using Some distribute_sum[OF ws, of "min (pr_value p) (sum_list ws)"]
      by (simp add: promoLineDiscounts_def promoWorth_def)
  next
    case FreeShippingPromo
    then show ?thesis using Some by (simp add: promoLineDiscounts_def promoWorth_def)
  qed
qed (simp add: promoLineDiscounts_def promoWorth_def)

text \<open>The parts of the result, read off the definition once.\<close>

lemma perLineOf_length [simp]: "length (perLineOf input) = length (ti_lines input)"
  by (simp add: perLineOf_def afterPromoOf_def lineSubtotalsOf_def Let_def)

lemma lineSubtotalsOf_length [simp]: "length (lineSubtotalsOf input) = length (ti_lines input)"
  by (simp add: lineSubtotalsOf_def)

lemma linesOf_parts [simp]:
  "map lt_lineDiscount (linesOf input) = perLineOf input"
  "map lt_lineSubtotal (linesOf input) = lineSubtotalsOf input"
  "length (linesOf input) = length (ti_lines input)"
  by (auto simp: linesOf_def intro!: nth_equalityI)

lemma totals_parts:
  "ot_lines (calculateOrderTotals input) = linesOf input"
  "ot_subtotal (calculateOrderTotals input) = sum_list (lineSubtotalsOf input)"
  "ot_discountTotal (calculateOrderTotals input) = sum_list (perLineOf input)"
  "ot_pointsDiscount (calculateOrderTotals input) = pointsDiscountOf input"
  by (simp_all add: calculateOrderTotals_def Let_def)

lemma map2_minus_nth: "i < length xs \<Longrightarrow> length ys = length xs \<Longrightarrow> map2 (\<lambda>s d. s - d) xs ys ! i = xs ! i - (ys ! i :: int)"
  by simp

lemma sum_list_map2_minus: "length ys = length xs \<Longrightarrow> sum_list (map2 (\<lambda>s d. s - d) xs ys) = sum_list xs - (sum_list ys :: int)"
  by (induction ys xs rule: list_induct2) auto

lemma sum_list_map2_plus: "length ys = length xs \<Longrightarrow> sum_list (map2 (+) xs ys) = sum_list xs + (sum_list ys :: int)"
  by (induction ys xs rule: list_induct2) auto

lemma afterPromo_wf:
  assumes ws: "wf_subtotals (lineSubtotalsOf input)" shows "wf_subtotals (afterPromoOf input)"
proof -
  let ?s = "lineSubtotalsOf input" and ?d = "promoLineDiscounts (ti_promotion input) (lineSubtotalsOf input)"
  have b: "0 \<le> ?d ! i \<and> ?d ! i \<le> ?s ! i" if "i < length ?s" for i
    using promoLineDiscounts_bounds[OF ws that] .
  have "\<forall>w\<in>set (afterPromoOf input). 0 \<le> w"
    using b by (auto simp: afterPromoOf_def in_set_conv_nth)
  moreover have "0 \<le> sum_list ?d" using b by (intro sum_list_nonneg_int) (auto simp: in_set_conv_nth)
  then have "sum_list (afterPromoOf input) \<le> sum_list ?s"
    by (simp add: afterPromoOf_def sum_list_map2_minus)
  ultimately show ?thesis using ws by (simp add: wf_subtotals_def)
qed

lemma pointsApplied_range: "0 \<le> remaining \<Longrightarrow> 0 \<le> pointsApplied r remaining \<and> pointsApplied r remaining \<le> remaining"
  by (simp add: pointsApplied_def)

lemma afterPromo_nonneg: "wf_subtotals (lineSubtotalsOf input) \<Longrightarrow> 0 \<le> sum_list (afterPromoOf input)"
  using afterPromo_wf[of input] by (auto simp: wf_subtotals_def intro: sum_list_nonneg_int)

lemma perLine_bounds:
  assumes ws: "wf_subtotals (lineSubtotalsOf input)" and i: "i < length (ti_lines input)"
  shows "0 \<le> perLineOf input ! i \<and> perLineOf input ! i \<le> lineSubtotalsOf input ! i"
proof -
  let ?s = "lineSubtotalsOf input" and ?d = "promoLineDiscounts (ti_promotion input) (lineSubtotalsOf input)"
  let ?p = "pointsDiscountOf input"
  have d: "0 \<le> ?d ! i \<and> ?d ! i \<le> ?s ! i" using promoLineDiscounts_bounds[OF ws] i by simp
  have p: "?p \<le> sum_list (afterPromoOf input)" using pointsApplied_range[OF afterPromo_nonneg[OF ws]] by (auto simp: pointsDiscountOf_def)
  have a: "i < length (afterPromoOf input)" "afterPromoOf input ! i = ?s ! i - ?d ! i"
    using i by (simp_all add: afterPromoOf_def)
  show ?thesis using d distribute_bounds[OF afterPromo_wf[OF ws] p a(1)] a i
    by (auto simp: perLineOf_def Let_def afterPromoOf_def)
qed

lemma perLine_sum:
  assumes ws: "wf_subtotals (lineSubtotalsOf input)"
  shows "sum_list (perLineOf input) = promoWorth (ti_promotion input) (lineSubtotalsOf input)
           + pointsDiscountOf input"
proof -
  let ?p = "pointsDiscountOf input"
  have p: "0 \<le> ?p" "?p \<le> sum_list (afterPromoOf input)"
    using pointsApplied_range[OF afterPromo_nonneg[OF ws]] by (auto simp: pointsDiscountOf_def)
  have len: "length (afterPromoOf input) = length (ti_lines input)" by (simp add: afterPromoOf_def)
  show ?thesis
    using p distribute_sum[OF afterPromo_wf[OF ws] p(2)] len
    by (auto simp: perLineOf_def Let_def sum_list_map2_plus sum_promoLineDiscounts[OF ws])
qed

text \<open>Tax amounts in exact arithmetic.\<close>

lemma taxOn_exclusive:
  assumes "\<bar>base\<bar> \<le> 2 ^ 31" "0 \<le> rate" "rate \<le> 2 ^ 20"
  shows "taxOn False base rate = halfUp (base * rate) 10000"
proof -
  have "\<bar>base * rate\<bar> \<le> 2 ^ 31 * 2 ^ 20" unfolding abs_mult using assms by (intro mult_mono) auto
  then have "\<bar>base * rate\<bar> < 2 ^ 52" by simp
  then show ?thesis by (simp add: taxOn_def roundHalfUp_def js_round_div)
qed

lemma taxOn_inclusive:
  assumes "\<bar>base\<bar> \<le> 2 ^ 32" "0 \<le> rate"
  shows "taxOn True base rate = base - halfUp (base * 10000) (10000 + rate)"
proof -
  have "\<bar>base * 10000\<bar> \<le> 2 ^ 32 * 10000" unfolding abs_mult using assms by (intro mult_mono) auto
  then have "\<bar>base * 10000\<bar> < 2 ^ 52" by simp
  then show ?thesis using assms by (simp add: taxOn_def roundHalfUp_def js_round_div)
qed

lemma halfUp_unique:
  assumes "0 < b" "2 * k * b - b \<le> 2 * n" "2 * n < 2 * k * b + b"
  shows "halfUp n b = k"
proof -
  have "2 * n + b = (2 * n + b - k * (2 * b)) + k * (2 * b)" by simp
  moreover have "0 \<le> 2 * n + b - k * (2 * b)" "2 * n + b - k * (2 * b) < 2 * b"
    using assms by (simp_all add: algebra_simps)
  ultimately show ?thesis unfolding halfUp_def
    by (metis add.right_neutral assms(1) div_mult_self1 div_pos_pos_trivial add_0 mult_pos_pos zero_less_numeral order_less_imp_not_eq2)
qed

section \<open>Properties\<close>

text \<open>C9: the largest-remainder split of a fixed amount over lines (\<open>distributeLargestRemainder\<close>)
  conserves the amount to the cent and gives every line its proportional share rounded
  down or up, never more than the line's own subtotal, although the shares are computed
  in floating point. Orders up to \<open>2 ^ 24\<close> cents.\<close>

theorem distribute_conserves:
  assumes "wf_subtotals weights" and "0 < target" and "target \<le> sum_list weights"
  shows "sum_list (distributeLargestRemainder target weights) = target \<and>
    (\<forall>i<length weights.
       \<lfloor>(of_int (weights ! i * target) :: rat) / of_int (sum_list weights)\<rfloor> \<le> distributeLargestRemainder target weights ! i \<and>
       distributeLargestRemainder target weights ! i \<le> \<lceil>(of_int (weights ! i * target) :: rat) / of_int (sum_list weights)\<rceil> \<and>
       distributeLargestRemainder target weights ! i \<le> weights ! i)"
  using distribute_quota[OF assms] distribute_bounds(2)[OF assms(1,3)] by blast

theorem distribute_conserves_witness:
  "sum_list (distributeLargestRemainder 100 [333, 333, 334]) = 100 \<and>
   distributeLargestRemainder 49 [1, 48] ! 0 \<le> 1"
proof -
  have "wf_subtotals [333, 333, 334]" "wf_subtotals [1, 48]"
    by (simp_all add: wf_subtotals_def MAX_ORDER_CENTS_def)
  then show ?thesis
    using distribute_conserves[of "[333, 333, 334]" 100] distribute_conserves[of "[1, 48]" 49] by auto
qed

text \<open>No promotion, points redemption or combination of both ever discounts a line below
  zero: every line's discount is between 0 and the line's subtotal.\<close>

theorem totals_lines_bounded:
  assumes "wf_subtotals (lineSubtotalsOf input)" and "l \<in> set (ot_lines (calculateOrderTotals input))"
  shows "0 \<le> lt_lineDiscount l \<and> lt_lineDiscount l \<le> lt_lineSubtotal l \<and>
         lt_lineTotal l = lt_lineSubtotal l - lt_lineDiscount l \<and> 0 \<le> lt_lineTotal l"
proof -
  obtain i where i: "i < length (ti_lines input)" and l: "l = linesOf input ! i"
    using assms(2) by (auto simp: totals_parts in_set_conv_nth)
  then show ?thesis using perLine_bounds[OF assms(1) i] by (simp add: linesOf_def)
qed

text \<open>The discount total is exactly the promotion's worth (half-up percentage per line, or
  the fixed amount capped at the subtotal) plus the points discount, and the points
  discount is the requested whole cents capped at what the promotion left.\<close>

theorem totals_discount_exact:
  assumes "wf_subtotals (lineSubtotalsOf input)"
  shows "ot_discountTotal (calculateOrderTotals input)
           = promoWorth (ti_promotion input) (lineSubtotalsOf input) + ot_pointsDiscount (calculateOrderTotals input)
       \<and> ot_pointsDiscount (calculateOrderTotals input)
           = min (max 0 \<lfloor>orElse (ti_pointsDiscount input) 0\<rfloor>)
                 (ot_subtotal (calculateOrderTotals input) - promoWorth (ti_promotion input) (lineSubtotalsOf input))"
proof -
  have "sum_list (afterPromoOf input) = sum_list (lineSubtotalsOf input) - promoWorth (ti_promotion input) (lineSubtotalsOf input)"
    by (simp add: afterPromoOf_def sum_list_map2_minus sum_promoLineDiscounts[OF assms])
  then show ?thesis using perLine_sum[OF assms] afterPromo_nonneg[OF assms]
    by (simp add: totals_parts pointsDiscountOf_def pointsApplied_def)
qed

definition demoInput :: TotalsInput where
  "demoInput = \<lparr>ti_lines = [\<lparr>cl_unitPrice = 1999, cl_quantity = 2\<rparr>, \<lparr>cl_unitPrice = 501, cl_quantity = 1\<rparr>],
     ti_shipping = 799, ti_taxRate = 875, ti_shippingTaxable = True, ti_shippingTaxRate = None,
     ti_shippingTaxInclusive = None, ti_taxInclusive = False,
     ti_promotion = Some \<lparr>pr_type = PercentagePromo, pr_value = 15, pr_freeShipping = False\<rparr>,
     ti_pointsDiscount = Some 250, ti_adjustments = None\<rparr>"

lemma demoInput_wf: "wf_subtotals (lineSubtotalsOf demoInput)"
  by (simp add: wf_subtotals_def lineSubtotalsOf_def demoInput_def MAX_ORDER_CENTS_def)

theorem totals_lines_bounded_witness:
  "\<exists>l. l \<in> set (ot_lines (calculateOrderTotals demoInput)) \<and> 0 \<le> lt_lineTotal l"
proof -
  have "length (ot_lines (calculateOrderTotals demoInput)) = 2" by (simp add: totals_parts demoInput_def)
  then obtain l where l: "l \<in> set (ot_lines (calculateOrderTotals demoInput))"
    by (metis length_0_conv list.set_intros(1) neq_Nil_conv zero_neq_numeral)
  then show ?thesis using totals_lines_bounded[OF demoInput_wf l] by blast
qed

theorem totals_discount_exact_witness:
  "ot_discountTotal (calculateOrderTotals demoInput) = 925"
proof -
  have "promoWorth (ti_promotion demoInput) (lineSubtotalsOf demoInput) = 675"
    by (simp add: promoWorth_def demoInput_def lineSubtotalsOf_def halfUp_def)
  moreover have "ot_subtotal (calculateOrderTotals demoInput) = 4499"
    by (simp add: totals_parts lineSubtotalsOf_def demoInput_def)
  moreover have "orElse (ti_pointsDiscount demoInput) 0 = 250" by (simp add: demoInput_def orElse_def)
  ultimately show ?thesis using totals_discount_exact[OF demoInput_wf] by simp
qed

text \<open>C35: the tax the code computes in floating point is exact half-up tax: exclusive tax is
  base times rate over 10000 rounded half up, inclusive tax leaves the half-up net, and
  extracting the tax from a price it was added to gives back the same net and tax.\<close>

theorem tax_roundtrip:
  assumes "0 \<le> net" "net \<le> 2 ^ 24" "0 \<le> rate" "rate \<le> 10000"
  shows "taxOn False net rate = halfUp (net * rate) 10000 \<and>
         taxOn True (net + taxOn False net rate) rate = taxOn False net rate"
proof -
  define tax where "tax = halfUp (net * rate) 10000"
  have ex: "taxOn False net rate = tax" using assms unfolding tax_def by (intro taxOn_exclusive) auto
  have err: "\<bar>2 * (tax * 10000 - net * rate)\<bar> \<le> 10000" unfolding tax_def by (rule halfUp_error) simp
  have tn: "0 \<le> tax" "tax \<le> net"
    unfolding tax_def using assms by (auto intro!: halfUp_nonneg halfUp_le mult_left_mono)
  have "halfUp ((net + tax) * 10000) (10000 + rate) = net"
  proof (cases "rate = 0")
    case True
    then have "tax = 0" by (simp add: tax_def halfUp_def)
    then show ?thesis using True halfUp_mult[of 10000 net] by simp
  next
    case False
    then have "0 < rate" using assms by simp
    then show ?thesis using err assms by (intro halfUp_unique) (simp_all add: algebra_simps abs_le_iff)
  qed
  then have "taxOn True (net + tax) rate = tax"
    using assms tn by (subst taxOn_inclusive) auto
  then show ?thesis using ex by (simp add: tax_def)
qed

theorem tax_roundtrip_witness:
  "taxOn False 4999 875 = 437 \<and> taxOn True (4999 + taxOn False 4999 875) 875 = taxOn False 4999 875"
proof -
  have "taxOn False 4999 875 = 437" using tax_roundtrip[of 4999 875] by (simp add: halfUp_def)
  moreover have "taxOn True (4999 + taxOn False 4999 875) 875 = taxOn False 4999 875"
    by (rule conjunct2[OF tax_roundtrip]) simp_all
  ultimately show ?thesis by blast
qed

text \<open>The grand total is never negative, and for an order with valid lines, nonnegative
  shipping and no order-edit adjustment it is exactly subtotal minus discounts plus
  shipping plus the tax that prices do not already include (the final floor never bites).\<close>

theorem totals_add_up:
  assumes "wf_subtotals (lineSubtotalsOf input)" "0 \<le> ti_shipping input" "ti_shipping input \<le> 2 ^ 24"
    "0 \<le> ti_taxRate input" "ti_taxRate input \<le> 10000"
    "ti_shippingTaxRate input = None" "orElse (ti_adjustments input) [] = []"
  shows "0 \<le> ot_grandTotal (calculateOrderTotals input) \<and>
    ot_grandTotal (calculateOrderTotals input) =
      ot_subtotal (calculateOrderTotals input) - ot_discountTotal (calculateOrderTotals input)
      + ot_shippingTotal (calculateOrderTotals input)
      + (if ti_taxInclusive input then 0 else ot_taxTotal (calculateOrderTotals input))"
proof -
  let ?r = "calculateOrderTotals input"
  let ?d = "sum_list (lineSubtotalsOf input) - sum_list (perLineOf input)"
  let ?sh = "if freeShips (ti_promotion input) then 0 else ti_shipping input"
  have dd: "0 \<le> ?d"
    using perLine_bounds[OF assms(1)] by (auto intro!: sum_list_mono_nth)
  have "0 \<le> sum_list (perLineOf input)"
    using perLine_bounds[OF assms(1)] by (intro sum_list_nonneg_int) (auto simp: in_set_conv_nth)
  then have dm: "?d \<le> 2 ^ 24" using assms(1) by (simp add: wf_subtotals_def MAX_ORDER_CENTS_def)
  have sh: "0 \<le> ?sh" "?sh \<le> 2 ^ 24" using assms by auto
  have adj: "adjustmentTotalOf input = 0" "taxableAdjustmentsOf input = 0"
    using assms(7) by (simp_all add: adjustmentTotalOf_def taxableAdjustmentsOf_def)
  have ex: "0 \<le> taxOn False b (ti_taxRate input)" if "0 \<le> b" "b \<le> 2 ^ 25" for b
    using that assms by (subst taxOn_exclusive) (auto intro: halfUp_nonneg)
  show ?thesis using assms(4,6) dd dm sh ex[of "?d"] ex[of "?d + ?sh"]
    by (auto simp: totals_parts calculateOrderTotals_def taxAndGrandRaw_def Let_def adj max_def)
qed

theorem totals_add_up_witness:
  "ot_grandTotal (calculateOrderTotals demoInput) =
     ot_subtotal (calculateOrderTotals demoInput) - ot_discountTotal (calculateOrderTotals demoInput)
     + ot_shippingTotal (calculateOrderTotals demoInput) + ot_taxTotal (calculateOrderTotals demoInput)"
proof -
  have "0 \<le> ti_shipping demoInput" "ti_shipping demoInput \<le> 2 ^ 24" "0 \<le> ti_taxRate demoInput"
    "ti_taxRate demoInput \<le> 10000" "ti_shippingTaxRate demoInput = None"
    "orElse (ti_adjustments demoInput) [] = []" "\<not> ti_taxInclusive demoInput"
    by (simp_all add: demoInput_def orElse_def)
  then show ?thesis using totals_add_up[OF demoInput_wf] by simp
qed

end
