(* ===== verification/Coupon.thy ===== *)
theory Coupon
  imports Totals JsText "HOL-Library.Product_Lexorder"
begin

text \<open>
  Coupon conditions (\<open>money/coupon.ts\<close>), the item facts they are evaluated on
  (\<open>money/coupon-context.ts\<close>) and the choice of an automatic promotion
  (\<open>money/auto-discount.ts\<close>). Conditions are raw JSON from the database and are validated
  as they are read; every malformed shape makes the coupon invalid. The theorems: a coupon
  is valid exactly when every condition holds, a cart that only grows keeps its coupon,
  and the automatic promotion is an eligible one that no eligible one outranks.
\<close>

section \<open>Data: money/coupon.ts\<close>

record CouponItem =
  ci_quantity :: int
  ci_productId :: string
  ci_tags :: "string list"
  ci_collectionIds :: "string list"

record CouponContext =
  cc_subtotal :: int
  cc_netSubtotal :: "int option"
  cc_grossSubtotal :: "int option"
  cc_activeVerifications :: "string list"
  cc_items :: "CouponItem list option"

record CouponEval =
  ce_valid :: bool
  ce_reason :: "string option"
  ce_promotion :: "Promotion option"

record Condition =
  cd_code :: string
  cd_args :: "(string \<times> string) list"

definition evalValid :: CouponEval where
  "evalValid = \<lparr>ce_valid = True, ce_reason = None, ce_promotion = None\<rparr>"

definition evalInvalid :: "string \<Rightarrow> CouponEval" where
  "evalInvalid r = \<lparr>ce_valid = False, ce_reason = Some r, ce_promotion = None\<rparr>"

section \<open>Operations: money/coupon.ts\<close>

definition condArg :: "Condition \<Rightarrow> string \<Rightarrow> string option" where
  "condArg c name = map_of (cd_args c) name"

definition parseStringArray :: "string option \<Rightarrow> string list option" where
  "parseStringArray raw = parseStringArrayText (orElse raw ''[]'')"

text \<open>The context check: all amounts and quantities are nonnegative safe integers.\<close>

definition safeNonneg :: "int \<Rightarrow> bool" where
  "safeNonneg n \<longleftrightarrow> isSafeInteger n \<and> 0 \<le> n"

definition contextOk :: "CouponContext \<Rightarrow> bool" where
  "contextOk ctx \<longleftrightarrow>
     safeNonneg (cc_subtotal ctx) \<and>
     safeNonneg (orElse (cc_netSubtotal ctx) (cc_subtotal ctx)) \<and>
     safeNonneg (orElse (cc_grossSubtotal ctx) (cc_subtotal ctx)) \<and>
     (case cc_items ctx of None \<Rightarrow> True | Some its \<Rightarrow> \<forall>it\<in>set its. safeNonneg (ci_quantity it))"

text \<open>One raw condition: an object with a string code and a list of string name/value pairs.\<close>

definition readArg :: "json \<Rightarrow> (string \<times> string) option" where
  "readArg a = (case (jstr (jget ''name'' (Some a)), jstr (jget ''value'' (Some a))) of
       (Some n, Some v) \<Rightarrow> Some (n, v) | _ \<Rightarrow> None)"

definition readArgs :: "json option \<Rightarrow> (string \<times> string) list option" where
  "readArgs args =
     (if jnullish args then Some []
      else case args of
             Some (JArr xs) \<Rightarrow> those (map readArg xs)
           | _ \<Rightarrow> None)"

definition readCondition :: "json \<Rightarrow> Condition option" where
  "readCondition cond =
     (case (jstr (jget ''code'' (Some cond)), readArgs (jget ''args'' (Some cond))) of
        (Some code, Some args) \<Rightarrow> Some \<lparr>cd_code = code, cd_args = args\<rparr>
      | _ \<Rightarrow> None)"

text \<open>Quantity of the items a predicate selects.\<close>

definition matchedQuantity :: "(CouponItem \<Rightarrow> bool) \<Rightarrow> CouponItem list \<Rightarrow> int" where
  "matchedQuantity p its = foldl (\<lambda>sum it. sum + ci_quantity it) 0 (filter p its)"

definition atLeastN :: "string list option \<Rightarrow> string option \<Rightarrow> (string list \<Rightarrow> CouponItem \<Rightarrow> bool) \<Rightarrow> CouponContext \<Rightarrow> string option" where
  "atLeastN ids minArg p ctx =
     (case (ids, safeInt (case minArg of Some t \<Rightarrow> js_Number t | None \<Rightarrow> Some 1), cc_items ctx) of
        (Some required, Some minimum, Some its) \<Rightarrow>
          if minimum < 1 then Some ''requires eligible products''
          else if matchedQuantity (p required) its < minimum then Some ''requires eligible products''
          else None
      | _ \<Rightarrow> Some ''requires eligible products'')"

definition minimumOrder :: "Condition \<Rightarrow> CouponContext \<Rightarrow> string option" where
  "minimumOrder c ctx =
     (let inclusive = condArg c ''taxInclusive''
      in case safeInt (case condArg c ''amount'' of Some t \<Rightarrow> js_Number t | None \<Rightarrow> Some 0) of
           None \<Rightarrow> Some ''invalid minimum order amount''
         | Some amount \<Rightarrow>
             if amount < 0 \<or> (inclusive \<noteq> None \<and> inclusive \<noteq> Some ''true'' \<and> inclusive \<noteq> Some ''false'')
             then Some ''invalid minimum order amount''
             else let subtotal = (if inclusive = Some ''true'' then orElse (cc_grossSubtotal ctx) (cc_subtotal ctx)
                                  else orElse (cc_netSubtotal ctx) (cc_subtotal ctx))
                  in if subtotal < amount then Some (''minimum order of '' @ centsToFixed2 amount @ '' not met'')
                     else None)"

definition verifiedCustomer :: "Condition \<Rightarrow> CouponContext \<Rightarrow> string option" where
  "verifiedCustomer c ctx =
     (case parseStringArray (condArg c ''categories'') of
        None \<Rightarrow> Some ''requires verified status''
      | Some categories \<Rightarrow>
          if \<exists>v\<in>set (cc_activeVerifications ctx). v \<in> set categories then None
          else Some ''requires verified status'')"

text \<open>The \<open>switch\<close> on the condition code: the refusal reason, \<open>None\<close> when the condition holds.\<close>

definition conditionRefusal :: "Condition \<Rightarrow> CouponContext \<Rightarrow> string option" where
  "conditionRefusal c ctx =
     (if cd_code c = ''minimum_order_amount'' then minimumOrder c ctx
      else if cd_code c = ''verified_customer'' then verifiedCustomer c ctx
      else if cd_code c = ''at_least_n_in_collections'' then
        atLeastN (parseStringArray (condArg c ''collectionIds'')) (condArg c ''minimum'')
          (\<lambda>required it. \<exists>i\<in>set (ci_collectionIds it). i \<in> set required) ctx
      else if cd_code c = ''at_least_n_products'' then
        atLeastN (parseStringArray (condArg c ''productIds'')) (condArg c ''minimum'')
          (\<lambda>required it. ci_productId it \<in> set required) ctx
      else if cd_code c = ''at_least_n_with_tags'' then
        atLeastN (parseStringArray (condArg c ''tags'')) (condArg c ''minimum'')
          (\<lambda>required it. \<exists>t\<in>set (ci_tags it). t \<in> set required) ctx
      else Some (''unsupported condition: '' @ cd_code c))"

fun evalConditions :: "json list \<Rightarrow> CouponContext \<Rightarrow> CouponEval" where
  "evalConditions [] ctx = evalValid"
| "evalConditions (raw # rest) ctx =
     (case readCondition raw of
        None \<Rightarrow> evalInvalid ''invalid promotion conditions''
      | Some c \<Rightarrow> (case conditionRefusal c ctx of
                      Some r \<Rightarrow> evalInvalid r
                    | None \<Rightarrow> evalConditions rest ctx))"

definition evaluatePromotionConditions :: "json option \<Rightarrow> CouponContext \<Rightarrow> CouponEval" where
  "evaluatePromotionConditions raw ctx =
     (if \<not> contextOk ctx then evalInvalid ''invalid promotion context''
      else if jnullish raw then evalConditions [] ctx
      else case raw of
             Some (JArr conds) \<Rightarrow> evalConditions conds ctx
           | _ \<Rightarrow> evalInvalid ''invalid promotion conditions'')"

definition evaluateCoupon :: "Promotion \<Rightarrow> json option \<Rightarrow> CouponContext \<Rightarrow> CouponEval" where
  "evaluateCoupon promo conds ctx =
     (let conditions = evaluatePromotionConditions conds ctx
      in if ce_valid conditions then \<lparr>ce_valid = True, ce_reason = None, ce_promotion = Some promo\<rparr>
         else conditions)"

section \<open>Item facts: money/coupon-context.ts\<close>

record CouponMatchFacts =
  mf_productId :: string
  mf_tags :: "string list"
  mf_collectionIds :: "string list"

text \<open>
  \<open>loadCouponMatchContext\<close> over the rows of \<open>product\<close> (id, tags) and \<open>collection_product\<close>
  (product, collection): the facts of every requested product that exists.
\<close>

definition loadCouponMatchContext ::
  "(string \<times> string list option) list \<Rightarrow> (string \<times> string) list \<Rightarrow> string list \<Rightarrow> (string \<rightharpoonup> CouponMatchFacts)" where
  "loadCouponMatchContext products memberships productIds =
     foldl (\<lambda>out (pid, tags). out(pid \<mapsto>
         \<lparr>mf_productId = pid, mf_tags = orElse tags [],
          mf_collectionIds = map snd (filter (\<lambda>(p, _). p = pid) (filter (\<lambda>(p, _). p \<in> set productIds) memberships))\<rparr>))
       Map.empty (filter (\<lambda>(pid, _). pid \<in> set productIds) products)"

definition couponItemsFromFacts :: "(int \<times> string option) list \<Rightarrow> (string \<rightharpoonup> CouponMatchFacts) \<Rightarrow> CouponItem list" where
  "couponItemsFromFacts lines facts =
     List.map_filter (\<lambda>(q, pid). case pid of
         None \<Rightarrow> None
       | Some p \<Rightarrow> Some (case facts p of
             Some f \<Rightarrow> \<lparr>ci_quantity = q, ci_productId = p, ci_tags = mf_tags f, ci_collectionIds = mf_collectionIds f\<rparr>
           | None \<Rightarrow> \<lparr>ci_quantity = q, ci_productId = p, ci_tags = [], ci_collectionIds = []\<rparr>)) lines"

section \<open>Automatic promotions: money/auto-discount.ts\<close>

record AutoPromoRow =
  ap_id :: string
  ap_type :: PromotionType
  ap_value :: int
  ap_conditions :: "json option"
  ap_priority :: int
  ap_freeShipping :: bool

fun rankDiscount :: "PromotionType \<Rightarrow> int \<Rightarrow> int \<Rightarrow> int" where
  "rankDiscount PercentagePromo v subtotal = js_round (js_div (subtotal * v) 100)"
| "rankDiscount FixedPromo v subtotal = min v subtotal"
| "rankDiscount FreeShippingPromo v subtotal = 0"

definition autoEligible :: "CouponContext \<Rightarrow> AutoPromoRow \<Rightarrow> bool" where
  "autoEligible ctx r =
     ce_valid (evaluateCoupon \<lparr>pr_type = ap_type r, pr_value = ap_value r, pr_freeShipping = False\<rparr> (ap_conditions r) ctx)"

definition selectAutomaticPromotion :: "AutoPromoRow list \<Rightarrow> CouponContext \<Rightarrow> AutoPromoRow option" where
  "selectAutomaticPromotion rows ctx =
     (case sort_key (\<lambda>(r, disc). (- ap_priority r, - disc))
             (map (\<lambda>r. (r, rankDiscount (ap_type r) (ap_value r) (cc_subtotal ctx))) (filter (autoEligible ctx) rows)) of
        [] \<Rightarrow> None
      | (r, _) # _ \<Rightarrow> Some r)"

section \<open>Lemmas\<close>

lemma evalConditions_valid:
  "ce_valid (evalConditions raws ctx) \<longleftrightarrow>
     (\<forall>raw\<in>set raws. \<exists>c. readCondition raw = Some c \<and> conditionRefusal c ctx = None)"
  by (induction raws) (auto simp: evalValid_def evalInvalid_def split: option.splits)

lemma matchedQuantity_eq: "matchedQuantity p its = sum_list (map ci_quantity (filter p its))"
proof -
  have "foldl (\<lambda>sum it. sum + ci_quantity it) a xs = a + sum_list (map ci_quantity xs)" for a and xs :: "CouponItem list"
    by (induction xs arbitrary: a) auto
  then show ?thesis by (simp add: matchedQuantity_def)
qed

text \<open>A context that only grew: larger subtotals, more verifications, items with larger quantities.\<close>

definition itemGrows :: "CouponItem \<Rightarrow> CouponItem \<Rightarrow> bool" where
  "itemGrows a b \<longleftrightarrow> ci_productId b = ci_productId a \<and> ci_quantity a \<le> ci_quantity b \<and>
     set (ci_tags a) \<subseteq> set (ci_tags b) \<and> set (ci_collectionIds a) \<subseteq> set (ci_collectionIds b)"

definition contextGrows :: "CouponContext \<Rightarrow> CouponContext \<Rightarrow> bool" where
  "contextGrows a b \<longleftrightarrow> contextOk b \<and>
     orElse (cc_netSubtotal a) (cc_subtotal a) \<le> orElse (cc_netSubtotal b) (cc_subtotal b) \<and>
     orElse (cc_grossSubtotal a) (cc_subtotal a) \<le> orElse (cc_grossSubtotal b) (cc_subtotal b) \<and>
     set (cc_activeVerifications a) \<subseteq> set (cc_activeVerifications b) \<and>
     (case (cc_items a, cc_items b) of
        (Some xs, Some ys) \<Rightarrow> list_all2 itemGrows xs (take (length xs) ys)
      | (None, _) \<Rightarrow> True | _ \<Rightarrow> False)"

lemma matchedQuantity_grows:
  assumes g: "list_all2 itemGrows xs ys" and pos: "\<forall>it\<in>set ys. 0 \<le> ci_quantity it"
    and p: "\<And>a b. itemGrows a b \<Longrightarrow> p a \<Longrightarrow> p b"
  shows "matchedQuantity p xs \<le> matchedQuantity p ys"
  using g pos unfolding matchedQuantity_eq
proof (induction rule: list_all2_induct)
  case (Cons x xs y ys)
  then show ?case using p[of x y] by (auto simp: itemGrows_def)
qed simp

lemma atLeastN_grows:
  assumes g: "contextGrows a b"
    and p: "\<And>r x y. itemGrows x y \<Longrightarrow> p r x \<Longrightarrow> p r y"
    and n: "atLeastN ids m p a = None"
  shows "atLeastN ids m p b = None"
proof -
  obtain req mn xs where a: "ids = Some req" "safeInt (case m of Some t \<Rightarrow> js_Number t | None \<Rightarrow> Some 1) = Some mn"
    "cc_items a = Some xs" "\<not> mn < 1" "\<not> matchedQuantity (p req) xs < mn"
    using n by (auto simp: atLeastN_def split: option.splits if_splits)
  obtain ys where b: "cc_items b = Some ys" "list_all2 itemGrows xs (take (length xs) ys)"
    using g a(3) by (auto simp: contextGrows_def split: option.splits)
  have pos: "\<forall>it\<in>set ys. 0 \<le> ci_quantity it"
    using g b(1) by (auto simp: contextGrows_def contextOk_def safeNonneg_def)
  have "matchedQuantity (p req) xs \<le> matchedQuantity (p req) (take (length xs) ys)"
    by (rule matchedQuantity_grows[OF b(2)]) (use pos in_set_takeD p in \<open>fast+\<close>)
  also have "\<dots> \<le> matchedQuantity (p req) (take (length xs) ys @ drop (length xs) ys)"
  proof -
    have "0 \<le> sum_list (map ci_quantity (filter (p req) (drop (length xs) ys)))"
      using pos by (intro sum_list_nonneg_int) (auto dest: in_set_dropD)
    then show ?thesis by (simp only: matchedQuantity_eq filter_append map_append sum_list_append)
  qed
  also have "take (length xs) ys @ drop (length xs) ys = ys" by simp
  finally show ?thesis using a(1,2,4,5) b(1) by (simp add: atLeastN_def)
qed

lemma conditionRefusal_grows:
  assumes g: "contextGrows a b" and n: "conditionRefusal c a = None"
  shows "conditionRefusal c b = None"
proof -
  have mo: "minimumOrder c a = None \<Longrightarrow> minimumOrder c b = None"
    using g by (auto simp: minimumOrder_def contextGrows_def Let_def split: option.splits if_splits)
  have vc: "verifiedCustomer c a = None \<Longrightarrow> verifiedCustomer c b = None"
    using g by (auto simp: verifiedCustomer_def contextGrows_def split: option.splits if_splits)
  have c1: "atLeastN ids m (\<lambda>req it. \<exists>i\<in>set (ci_collectionIds it). i \<in> set req) a = None \<Longrightarrow>
      atLeastN ids m (\<lambda>req it. \<exists>i\<in>set (ci_collectionIds it). i \<in> set req) b = None" for ids m
    by (rule atLeastN_grows[OF g]) (auto simp: itemGrows_def)
  have c2: "atLeastN ids m (\<lambda>req it. ci_productId it \<in> set req) a = None \<Longrightarrow>
      atLeastN ids m (\<lambda>req it. ci_productId it \<in> set req) b = None" for ids m
    by (rule atLeastN_grows[OF g]) (auto simp: itemGrows_def)
  have c3: "atLeastN ids m (\<lambda>req it. \<exists>t\<in>set (ci_tags it). t \<in> set req) a = None \<Longrightarrow>
      atLeastN ids m (\<lambda>req it. \<exists>t\<in>set (ci_tags it). t \<in> set req) b = None" for ids m
    by (rule atLeastN_grows[OF g]) (auto simp: itemGrows_def)
  show ?thesis using n mo vc c1 c2 c3 by (auto simp: conditionRefusal_def split: if_splits)
qed

section \<open>Properties\<close>

text \<open>A coupon is valid exactly when its context is well-formed and its conditions are absent
  or a list in which every entry is well-formed and holds; the order of the conditions
  and what the invalid ones say do not matter.\<close>

theorem coupon_valid_iff:
  "ce_valid (evaluateCoupon promo conds ctx) \<longleftrightarrow>
     contextOk ctx \<and> (jnullish conds \<or>
       (\<exists>raws. conds = Some (JArr raws) \<and>
          (\<forall>raw\<in>set raws. \<exists>c. readCondition raw = Some c \<and> conditionRefusal c ctx = None)))"
  by (cases conds rule: jnullish.cases)
     (auto simp: evaluateCoupon_def evaluatePromotionConditions_def evalConditions_valid evalInvalid_def evalValid_def Let_def)

definition demoConds :: "json option" where
  "demoConds = Some (JArr [JObj [(''code'', JStr ''minimum_order_amount''),
     (''args'', JArr [JObj [(''name'', JStr ''amount''), (''value'', JStr ''5000'')]])]])"

definition demoCtx :: "int \<Rightarrow> CouponContext" where
  "demoCtx n = \<lparr>cc_subtotal = n, cc_netSubtotal = None, cc_grossSubtotal = None,
     cc_activeVerifications = [], cc_items = None\<rparr>"

definition demoPromo :: Promotion where
  "demoPromo = \<lparr>pr_type = PercentagePromo, pr_value = 10, pr_freeShipping = False\<rparr>"

theorem coupon_valid_iff_witness:
  "ce_valid (evaluateCoupon demoPromo demoConds (demoCtx 6000)) \<and>
   \<not> ce_valid (evaluateCoupon demoPromo (Some (JStr ''x'')) (demoCtx 6000))"
proof -
  have ok: "contextOk (demoCtx 6000)" by code_simp
  have "\<forall>raw\<in>set (case demoConds of Some (JArr rs) \<Rightarrow> rs | _ \<Rightarrow> []).
     case readCondition raw of None \<Rightarrow> False | Some c \<Rightarrow> conditionRefusal c (demoCtx 6000) = None"
    by code_simp
  then have "\<exists>raws. demoConds = Some (JArr raws) \<and>
      (\<forall>raw\<in>set raws. \<exists>c. readCondition raw = Some c \<and> conditionRefusal c (demoCtx 6000) = None)"
    by (auto simp: demoConds_def split: option.splits)
  then show ?thesis using ok coupon_valid_iff[of demoPromo demoConds "demoCtx 6000"]
      coupon_valid_iff[of demoPromo "Some (JStr ''x'')" "demoCtx 6000"] by simp
qed

text \<open>A cart that only grows keeps its coupon: if every subtotal, item quantity, tag,
  collection and verification is kept or increased, a valid coupon stays valid.\<close>

theorem coupon_monotone:
  assumes "contextGrows a b" and "ce_valid (evaluateCoupon promo conds a)"
  shows "ce_valid (evaluateCoupon promo conds b)"
proof -
  have "contextOk b" using assms(1) by (simp add: contextGrows_def)
  then show ?thesis
    using assms(2) conditionRefusal_grows[OF assms(1)] unfolding coupon_valid_iff by blast
qed

theorem coupon_monotone_witness:
  "contextGrows (demoCtx 6000) (demoCtx 7000) \<and> ce_valid (evaluateCoupon demoPromo demoConds (demoCtx 7000))"
proof -
  have g: "contextGrows (demoCtx 6000) (demoCtx 7000)" by code_simp
  have v: "ce_valid (evaluateCoupon demoPromo demoConds (demoCtx 6000))" by code_simp
  show ?thesis using g coupon_monotone[OF g v] by blast
qed

text \<open>The automatic promotion chosen is eligible and no eligible promotion has a higher
  priority, or the same priority and a larger discount; nothing is chosen exactly when
  nothing is eligible.\<close>

theorem auto_promotion_best:
  "(case selectAutomaticPromotion rows ctx of
      None \<Rightarrow> (\<forall>r\<in>set rows. \<not> autoEligible ctx r)
    | Some w \<Rightarrow> w \<in> set rows \<and> autoEligible ctx w \<and>
        (\<forall>r\<in>set rows. autoEligible ctx r \<longrightarrow>
           ap_priority r < ap_priority w \<or>
           (ap_priority r = ap_priority w \<and>
            rankDiscount (ap_type r) (ap_value r) (cc_subtotal ctx) \<le> rankDiscount (ap_type w) (ap_value w) (cc_subtotal ctx))))"
proof -
  let ?rank = "\<lambda>r. rankDiscount (ap_type r) (ap_value r) (cc_subtotal ctx)"
  let ?k = "\<lambda>(r, disc). (- ap_priority r, - disc)"
  let ?xs = "map (\<lambda>r. (r, ?rank r)) (filter (autoEligible ctx) rows)"
  show ?thesis
  proof (cases "sort_key ?k ?xs")
    case Nil
    then have "?xs = []" by (simp only: sort_key_eq_Nil)
    then have "\<forall>r\<in>set rows. \<not> autoEligible ctx r" by (simp add: filter_empty_conv)
    moreover have "selectAutomaticPromotion rows ctx = None"
      unfolding selectAutomaticPromotion_def Nil by simp
    ultimately show ?thesis by simp
  next
    case (Cons z zs)
    obtain w d where z: "z = (w, d)" by (cases z)
    have in_xs: "z \<in> set ?xs" and least: "\<forall>y\<in>set ?xs. ?k z \<le> ?k y"
      by (rule sort_key_hd_least[OF Cons])+
    have w: "w \<in> set rows" "autoEligible ctx w" "d = ?rank w" using in_xs by (auto simp: z)
    have "ap_priority r < ap_priority w \<or> ap_priority r = ap_priority w \<and> ?rank r \<le> ?rank w"
      if "r \<in> set rows" "autoEligible ctx r" for r
    proof -
      have "(r, ?rank r) \<in> set ?xs" using that by simp
      then have "?k z \<le> ?k (r, ?rank r)" using least by blast
      then show ?thesis by (simp add: z w(3) less_eq_prod_def) linarith
    qed
    moreover have "selectAutomaticPromotion rows ctx = Some w"
      unfolding selectAutomaticPromotion_def Cons z by simp
    ultimately show ?thesis using w by simp
  qed
qed

definition demoRow :: "string \<Rightarrow> int \<Rightarrow> int \<Rightarrow> AutoPromoRow" where
  "demoRow i v prio = \<lparr>ap_id = i, ap_type = FixedPromo, ap_value = v, ap_conditions = None,
     ap_priority = prio, ap_freeShipping = False\<rparr>"

theorem auto_promotion_best_witness:
  "selectAutomaticPromotion [demoRow ''a'' 500 1, demoRow ''b'' 900 1, demoRow ''c'' 9000 0] (demoCtx 6000)
     = Some (demoRow ''b'' 900 1) \<and> ap_priority (demoRow ''c'' 9000 0) < ap_priority (demoRow ''b'' 900 1)"
proof -
  let ?rows = "[demoRow ''a'' 500 1, demoRow ''b'' 900 1, demoRow ''c'' 9000 0]"
  have s: "selectAutomaticPromotion ?rows (demoCtx 6000) = Some (demoRow ''b'' 900 1)" by code_simp
  have e: "autoEligible (demoCtx 6000) (demoRow ''c'' 9000 0)" by code_simp
  show ?thesis using auto_promotion_best[of ?rows "demoCtx 6000"] s e by (simp add: demoRow_def)
qed

end
