(* ===== verification/PromotionStack.thy ===== *)
theory PromotionStack
  imports Coupon
begin

text \<open>
  Stacked promotion pricing (\<open>money/promotion-stack.ts\<close>): item promotions, order promotions
  and account credits applied in priority order to working lines, the loyalty-points
  discount, free shipping, adjustments and surcharges, coupon statuses and the selected
  credit with its per-unit allocation. Amounts are checked integer cents, everything
  between two checks is IEEE-754 arithmetic; a failed check throws.
\<close>

section \<open>Data\<close>

datatype PricingPhase = AddingItems | ArrangingPayment | PaymentSettled

datatype AdjustmentKind = ItemAdjustment | OrderAdjustment

record SignedAdjustment =
  sa_amount :: int
  sa_units :: "int list option"
  sa_promotionId :: "string option"
  sa_kind :: AdjustmentKind

record StackLine =
  sl_key :: string
  sl_quantity :: int
  sl_placedQuantity :: int
  sl_unitListPrice :: int
  sl_priceIncludesTax :: bool
  sl_taxRateBps :: int
  sl_priorAdjustments :: "SignedAdjustment list"

datatype PromotionKind = KPercentage | KFixed | KFreeShipping | KAccountCredit

datatype PromotionScope = OrderScope | LineScope

record CreditBudget =
  cb_accountId :: string
  cb_availableCents :: int

record ResolvedPromotion =
  rp_id :: string
  rp_code :: "string option"
  rp_kind :: PromotionKind
  rp_scope :: PromotionScope
  rp_value :: int
  rp_priority :: int
  rp_sequence :: int
  rp_freeShipping :: bool
  rp_conditions :: "json option"
  rp_credit :: "CreditBudget option"

record SourceCharge =
  sc_sourceId :: string
  sc_sourceDigest :: string
  sc_net :: int
  sc_gross :: int

record ShippingPricingBasis =
  sb_sourceId :: string
  sb_amount :: int
  sb_includesTax :: bool
  sb_taxRateBps :: int

record ShippingCarrier =
  sr_sourceId :: string
  sr_methodCode :: "string option"
  sr_lineKeys :: "string list"

datatype ShippingMode = KeepShipping | RevalidatePromotions | RecalculateKeepPromotions

record ShippingSourceLine =
  ss_sourceId :: string
  ss_net :: int
  ss_gross :: int

record RetainedShipping =
  rs_sourceDigest :: string
  rs_mode :: ShippingMode
  rs_lines :: "ShippingSourceLine list"
  rs_repricedBasis :: "ShippingPricingBasis list option"
  rs_carriers :: "ShippingCarrier list option"

record StackAdjustment =
  sj_amount :: int
  sj_taxable :: bool
  sj_sourceSurcharge :: "SourceCharge option"

record StackInput =
  si_lines :: "StackLine list"
  si_promotions :: "ResolvedPromotion list"
  si_couponCodes :: "string list"
  si_phase :: PricingPhase
  si_currency :: string
  si_pricesIncludeTax :: bool
  si_shipping :: int
  si_shippingTaxRateBps :: int
  si_shippingIncludesTax :: bool
  si_activeVerifications :: "string list"
  si_items :: "CouponItem list option"
  si_pointsDiscount :: "int option"
  si_adjustments :: "StackAdjustment list option"
  si_retainedShipping :: "RetainedShipping option"

record StackCouponStatus =
  cs_code :: string
  cs_promotionId :: "string option"
  cs_kind :: "PromotionKind option"
  cs_applied :: bool
  cs_reason :: "string option"
  cs_appliedAmount :: "int option"
  cs_availableAmount :: "int option"
  cs_remainingAmount :: "int option"

datatype Basis = NetBasis | GrossBasis

record LineAllocation =
  la_lineKey :: string
  la_amount :: int
  la_units :: "int list"
  la_sourceAdjustmentAmount :: int
  la_sourceUnits :: "int list"
  la_sourceDiscountAmount :: int
  la_sourceDiscountAmountWithTax :: int

record AppliedPromotion =
  ae_promotionId :: string
  ae_kind :: PromotionKind
  ae_basis :: Basis
  ae_amount :: int
  ae_amountWithTax :: int
  ae_requestedAmount :: int
  ae_shippingAdjustment :: "(int \<times> int) option"
  ae_lineAllocations :: "LineAllocation list"

record LineSnapshot =
  ls_lineKey :: string
  ls_quantity :: int
  ls_proratedUnitPriceWithTax :: int
  ls_lineNet :: int
  ls_lineGross :: int
  ls_sourceAdjustmentTotal :: int
  ls_sourceAdjustmentDivisor :: int

record SelectedCredit =
  sd_accountId :: string
  sd_promotionId :: string
  sd_appliedAmount :: int
  sd_allocation :: "(string \<times> int list) list"

record PromotionStackTotals = OrderTotals +
  ps_coupons :: "StackCouponStatus list"
  ps_applied :: "AppliedPromotion list"
  ps_lineSnapshots :: "LineSnapshot list"
  ps_selectedCredit :: "SelectedCredit option"
  ps_retainedShippingFinal :: "ShippingSourceLine list option"
  ps_quoteHash :: string
  ps_resolvedPromotions :: "ResolvedPromotion list"

section \<open>Checked cents\<close>

definition MAX_CENTS :: int where
  "MAX_CENTS = 2147483647"

definition integerE :: "string \<Rightarrow> int \<Rightarrow> int \<Rightarrow> int res" where
  "integerE label mn v =
     (if \<not> isSafeInteger v \<or> v < mn \<or> MAX_CENTS < v then Inl (Err (label @ '' must fit integer cents'')) else Inr v)"

definition sumE :: "int list \<Rightarrow> int res" where
  "sumE vs = integerE ''Money sum'' (- MAX_CENTS) (foldl (+) 0 vs)"

definition rounded :: "rat \<Rightarrow> int res" where
  "rounded v = integerE ''Rounded money'' (- MAX_CENTS) (js_round v)"

text \<open>Coupon identity is case-insensitive; the first spelling wins.\<close>

fun canonicalFrom :: "string list \<Rightarrow> string list \<Rightarrow> string list res" where
  "canonicalFrom seen [] = Inr []"
| "canonicalFrom seen (code # codes) =
     (if code = [] \<or> 255 < length code then Inl (Err ''Invalid coupon code'')
      else if toLowerCase code \<in> set seen then canonicalFrom seen codes
      else bindE (canonicalFrom (toLowerCase code # seen) codes) (\<lambda>rest. Inr (code # rest)))"

definition canonicalCouponCodes :: "string list \<Rightarrow> string list res" where
  "canonicalCouponCodes codes = canonicalFrom [] codes"

text \<open>Signed proration: floor the signed shares, then one cent each to the greatest fractional errors.\<close>

definition prorateSigned :: "int list \<Rightarrow> int \<Rightarrow> int list res" where
  "prorateSigned weights amount =
     bindE (integerE ''Proration amount'' (- MAX_CENTS) amount) (\<lambda>_.
     if weights = [] then (if amount \<noteq> 0 then Inl (Err ''Cannot distribute money without units'') else Inr [])
     else
     bindE (mapE (integerE ''Proration weight'' 0) weights) (\<lambda>_.
     bindE (sumE weights) (\<lambda>total.
     let actual = map (\<lambda>w. if total = 0 then js_div amount (int (length weights))
                           else fl (of_int amount * js_div w total)) weights
     in
     bindE (sumE (map floor actual)) (\<lambda>_.
     let (shares, missing) = largestRemainder fl amount actual
     in if missing \<noteq> 0 then Inl (Err ''Signed proration did not conserve money'')
        else bindE (sumE shares) (\<lambda>s.
             if s \<noteq> amount then Inl (Err ''Signed proration did not conserve money'') else Inr shares)))))"

section \<open>Working lines\<close>

record WorkingLine =
  wl_input :: StackLine
  wl_adjustments :: "int list"

record Facts =
  fa_lineNet :: int
  fa_lineGross :: int
  fa_unitNet :: int
  fa_unitGross :: int

definition divisorOf :: "StackLine \<Rightarrow> int" where
  "divisorOf l = max (sl_placedQuantity l) (sl_quantity l)"

definition taxFactor :: "int \<Rightarrow> rat" where
  "taxFactor bps = fl (1 + js_div bps 10000)"

definition factsOf :: "WorkingLine \<Rightarrow> Facts res" where
  "factsOf line =
     (let l = wl_input line
      in bindE (if sl_quantity l = 0 then Inr 0
                else bindE (sumE (wl_adjustments line)) (\<lambda>s. Inr (js_div s (divisorOf l)))) (\<lambda>adjustment.
         let lst = fl (of_int (sl_unitListPrice l) + adjustment)
         in if lst < 0 then Inl (Err ''Discount distribution exceeds line basis'')
            else let factor = taxFactor (sl_taxRateBps l);
                     net = (if sl_priceIncludesTax l then fl (lst / factor) else lst);
                     gross = (if sl_priceIncludesTax l then lst else fl (lst * factor));
                     q = of_int (sl_quantity l)
                 in bindE (rounded (fl (net * q))) (\<lambda>lineNet.
                    bindE (rounded (fl (gross * q))) (\<lambda>lineGross.
                    bindE (rounded net) (\<lambda>unitNet.
                    bindE (rounded gross) (\<lambda>unitGross.
                    Inr \<lparr>fa_lineNet = lineNet, fa_lineGross = lineGross, fa_unitNet = unitNet, fa_unitGross = unitGross\<rparr>))))))"

text \<open>Net and gross totals of the lines.\<close>

definition totalsOf :: "WorkingLine list \<Rightarrow> (int \<times> int) res" where
  "totalsOf lines =
     bindE (mapE factsOf lines) (\<lambda>fs.
     bindE (sumE (map fa_lineNet fs)) (\<lambda>net.
     bindE (sumE (map fa_lineGross fs)) (\<lambda>gross. Inr (net, gross))))"

section \<open>Validation\<close>

definition currencyOk :: "string \<Rightarrow> bool" where
  "currencyOk c \<longleftrightarrow> length c = 3 \<and> (\<forall>x\<in>set c. 65 \<le> (of_char x :: int) \<and> (of_char x :: int) \<le> 90)"

definition digestOk :: "string \<Rightarrow> bool" where
  "digestOk d \<longleftrightarrow> length d = 64 \<and>
     (\<forall>x\<in>set d. (97 \<le> (of_char x :: int) \<and> (of_char x :: int) \<le> 102) \<or> (48 \<le> (of_char x :: int) \<and> (of_char x :: int) \<le> 57))"

definition checkShippingLine :: "ShippingSourceLine \<Rightarrow> unit res" where
  "checkShippingLine l =
     bindE (checkE (ss_sourceId l = []) (Err ''Invalid source shipping identity'')) (\<lambda>_.
     bindE (integerE ''Source shipping net'' (- MAX_CENTS) (ss_net l)) (\<lambda>_.
     bindE (integerE ''Source shipping gross'' (- MAX_CENTS) (ss_gross l)) (\<lambda>_. Inr ())))"

definition checkRepricedBasis :: "ShippingPricingBasis \<times> ShippingSourceLine \<Rightarrow> unit res" where
  "checkRepricedBasis bl = (case bl of (b, l) \<Rightarrow>
     bindE (checkE (sb_sourceId b \<noteq> ss_sourceId l) (Err ''Source shipping repricing identity'')) (\<lambda>_.
     bindE (integerE ''Repriced shipping'' (- MAX_CENTS) (sb_amount b)) (\<lambda>_.
     bindE (integerE ''Repriced shipping tax'' 0 (sb_taxRateBps b)) (\<lambda>_. Inr ()))))"

text \<open>Carrier memberships: every key is a line of the order and belongs to one carrier.\<close>

definition checkCarrier :: "string list \<Rightarrow> ShippingCarrier \<times> ShippingSourceLine \<Rightarrow> string list \<Rightarrow> string list res" where
  "checkCarrier keys cl members = (case cl of (c, l) \<Rightarrow>
     bindE (checkE (sr_sourceId c \<noteq> ss_sourceId l \<or> sr_methodCode c = Some []) (Err ''Source shipping carrier identity'')) (\<lambda>_.
     foldE (\<lambda>key ms. bindE (checkE (key \<notin> set keys \<or> key \<in> set ms) (Err ''Source shipping carrier membership'')) (\<lambda>_. Inr (key # ms)))
       (sr_lineKeys c) members))"

definition checkRetainedShipping :: "StackInput \<Rightarrow> RetainedShipping \<Rightarrow> unit res" where
  "checkRetainedShipping input s =
     bindE (checkE (\<not> digestOk (rs_sourceDigest s) \<or> \<not> distinct (map ss_sourceId (rs_lines s))) (Err ''Invalid retained shipping'')) (\<lambda>_.
     bindE (mapE checkShippingLine (rs_lines s)) (\<lambda>_.
     bindE (sumE (map ss_net (rs_lines s))) (\<lambda>net.
     bindE (checkE (net \<noteq> si_shipping input) (Err ''Source shipping total differs'')) (\<lambda>_.
     bindE (if rs_repricedBasis s \<noteq> None \<or> rs_mode s = RecalculateKeepPromotions
            then bindE (checkE (rs_mode s = KeepShipping) (Err ''Unexpected source shipping repricing basis'')) (\<lambda>_.
                 case rs_repricedBasis s of
                   None \<Rightarrow> Inl (Err ''Source shipping repricing basis absent'')
                 | Some bs \<Rightarrow>
                     bindE (checkE (length bs \<noteq> length (rs_lines s)) (Err ''Source shipping repricing basis absent'')) (\<lambda>_.
                     bindE (mapE checkRepricedBasis (zip bs (rs_lines s))) (\<lambda>_. Inr ())))
            else Inr ()) (\<lambda>_.
     case rs_carriers s of
       None \<Rightarrow> Inr ()
     | Some cs \<Rightarrow>
         bindE (checkE (length cs \<noteq> length (rs_lines s)) (Err ''Source shipping carrier closure'')) (\<lambda>_.
         bindE (foldE (checkCarrier (map sl_key (si_lines input))) (zip cs (rs_lines s)) []) (\<lambda>_. Inr ())))))))"

definition checkContext :: "StackInput \<Rightarrow> unit res" where
  "checkContext input =
     bindE (checkE (\<not> currencyOk (si_currency input)) (Err ''Invalid pricing context'')) (\<lambda>_.
     bindE (integerE ''Shipping'' (case si_retainedShipping input of Some _ \<Rightarrow> - MAX_CENTS | None \<Rightarrow> 0) (si_shipping input)) (\<lambda>_.
     bindE (integerE ''Shipping tax rate'' 0 (si_shippingTaxRateBps input)) (\<lambda>_.
     case si_retainedShipping input of None \<Rightarrow> Inr () | Some s \<Rightarrow> checkRetainedShipping input s)))"

text \<open>Lines with unique keys; a line starts with its prior adjustments, all of them discounts.\<close>

definition adjustmentAmount :: "SignedAdjustment \<Rightarrow> int res" where
  "adjustmentAmount a =
     (if \<not> isSafeInteger (sa_amount a) \<or> sa_amount a < - MAX_CENTS \<or> 0 < sa_amount a
      then Inl (Err ''Prior adjustment must fit integer cents'') else Inr (sa_amount a))"

definition openLine :: "StackLine \<Rightarrow> WorkingLine res" where
  "openLine line =
     bindE (integerE ''Quantity'' 0 (sl_quantity line)) (\<lambda>_.
     bindE (integerE ''Placed quantity'' 0 (sl_placedQuantity line)) (\<lambda>_.
     bindE (integerE ''Unit price'' 0 (sl_unitListPrice line)) (\<lambda>_.
     bindE (integerE ''Tax rate'' 0 (sl_taxRateBps line)) (\<lambda>_.
     bindE (integerE ''Line price'' 0 (sl_unitListPrice line * sl_quantity line)) (\<lambda>_.
     bindE (mapE adjustmentAmount (sl_priorAdjustments line)) (\<lambda>as.
     Inr \<lparr>wl_input = line, wl_adjustments = as\<rparr>))))))"

fun openLines :: "string list \<Rightarrow> StackLine list \<Rightarrow> WorkingLine list res" where
  "openLines keys [] = Inr []"
| "openLines keys (line # lines) =
     bindE (checkE (sl_key line = [] \<or> sl_key line \<in> set keys) (Err ''Line keys must be unique'')) (\<lambda>_.
     bindE (openLine line) (\<lambda>w.
     bindE (openLines (sl_key line # keys) lines) (\<lambda>ws. Inr (w # ws))))"

definition checkPromotion :: "ResolvedPromotion \<Rightarrow> unit res" where
  "checkPromotion p =
     bindE (integerE ''Promotion priority'' (- MAX_CENTS) (rp_priority p)) (\<lambda>_.
     bindE (integerE ''Promotion sequence'' 0 (rp_sequence p)) (\<lambda>_.
     bindE (if rp_kind p = KPercentage
            then checkE (rp_value p < 0 \<or> 100 < rp_value p) (Err ''Invalid percentage'')
            else bindE (integerE ''Promotion value'' 0 (rp_value p)) (\<lambda>_. Inr ())) (\<lambda>_.
     if rp_kind p = KAccountCredit
     then (case rp_credit p of
             None \<Rightarrow> Inl (Err ''Credit must be an order action'')
           | Some c \<Rightarrow> bindE (checkE (rp_scope p \<noteq> OrderScope) (Err ''Credit must be an order action'')) (\<lambda>_.
                        bindE (integerE ''Credit budget'' 0 (cb_availableCents c)) (\<lambda>_. Inr ())))
     else Inr ())))"

fun checkPromotions :: "string list \<Rightarrow> ResolvedPromotion list \<Rightarrow> unit res" where
  "checkPromotions ids [] = Inr ()"
| "checkPromotions ids (p # ps) =
     bindE (checkE (rp_id p = [] \<or> rp_id p \<in> set ids) (Err ''Promotion identities must be unique'')) (\<lambda>_.
     bindE (checkPromotion p) (\<lambda>_. checkPromotions (rp_id p # ids) ps))"

definition checkPriorAdjustments :: "StackInput \<Rightarrow> unit res" where
  "checkPriorAdjustments input =
     checkE (\<exists>line\<in>set (si_lines input). \<exists>a\<in>set (sl_priorAdjustments line).
               sa_kind a = OrderAdjustment \<and>
               (case sa_promotionId a of None \<Rightarrow> False | Some i \<Rightarrow> i \<noteq> [] \<and> i \<in> set (map rp_id (si_promotions input))))
            (Err ''Current order promotion already present in prior adjustments'')"

definition sortPromotions :: "ResolvedPromotion list \<Rightarrow> ResolvedPromotion list" where
  "sortPromotions ps = sort_key (\<lambda>p. (rp_priority p, rp_sequence p)) ps"

section \<open>Stages\<close>

text \<open>The variables the stages share: the working lines and what the promotions did so far.\<close>

record StackState =
  st_lines :: "WorkingLine list"
  st_applied :: "AppliedPromotion list"
  st_accepted :: "string list"
  st_reasons :: "string \<rightharpoonup> string"

definition codeMatches :: "string \<Rightarrow> ResolvedPromotion \<Rightarrow> bool" where
  "codeMatches code p \<longleftrightarrow> (case rp_code p of None \<Rightarrow> False | Some c \<Rightarrow> toLowerCase c = toLowerCase code)"

definition stackContext :: "StackInput \<Rightarrow> int \<times> int \<Rightarrow> CouponContext" where
  "stackContext input cur =
     \<lparr>cc_subtotal = (if si_pricesIncludeTax input then snd cur else fst cur), cc_netSubtotal = Some (fst cur),
      cc_grossSubtotal = Some (snd cur), cc_activeVerifications = si_activeVerifications input, cc_items = si_items input\<rparr>"

text \<open>Whether a promotion applies now, and the state with the reason of a refusal.\<close>

definition eligible :: "StackInput \<Rightarrow> string list \<Rightarrow> ResolvedPromotion list \<Rightarrow> ResolvedPromotion \<Rightarrow> StackState \<Rightarrow> (bool \<times> StackState) res" where
  "eligible input codes promotions p st =
     (let refuse = (\<lambda>r. Inr (False, st\<lparr>st_reasons := (st_reasons st)(rp_id p \<mapsto> r)\<rparr>))
      in if (case rp_code p of None \<Rightarrow> False | Some c \<Rightarrow> \<not> list_ex (\<lambda>code. toLowerCase code = toLowerCase c) codes)
         then Inr (False, st)
         else if (case rp_code p of None \<Rightarrow> False | Some c \<Rightarrow> length (filter (codeMatches c) promotions) \<noteq> 1)
         then refuse ''Ambiguous coupon code''
         else if rp_kind p = KAccountCredit \<and> (case rp_credit p of None \<Rightarrow> False | Some c \<Rightarrow> cb_availableCents c \<le> 0)
         then refuse ''Credit unavailable''
         else bindE (totalsOf (st_lines st)) (\<lambda>cur.
              let check = evaluatePromotionConditions (rp_conditions p) (stackContext input cur)
              in if ce_valid check then Inr (True, st)
                 else refuse (orElse (ce_reason check) ''Promotion conditions not met'')))"

text \<open>Adding a stage's effect to the entry of its promotion.\<close>

definition addUnits :: "int list \<Rightarrow> int list \<Rightarrow> int list res" where
  "addUnits us vs = mapE (\<lambda>(i, u). sumE [u, if i < length vs then vs ! i else 0]) (enumerate 0 us)"

definition mergeAllocation :: "LineAllocation \<Rightarrow> LineAllocation \<Rightarrow> LineAllocation res" where
  "mergeAllocation e a =
     bindE (sumE [la_amount e, la_amount a]) (\<lambda>amount.
     bindE (addUnits (la_units e) (la_units a)) (\<lambda>units.
     bindE (sumE [la_sourceAdjustmentAmount e, la_sourceAdjustmentAmount a]) (\<lambda>source.
     bindE (addUnits (la_sourceUnits e) (la_sourceUnits a)) (\<lambda>sourceUnits.
     bindE (sumE [la_sourceDiscountAmount e, la_sourceDiscountAmount a]) (\<lambda>disc.
     bindE (sumE [la_sourceDiscountAmountWithTax e, la_sourceDiscountAmountWithTax a]) (\<lambda>discTax.
     Inr \<lparr>la_lineKey = la_lineKey e, la_amount = amount, la_units = units, la_sourceAdjustmentAmount = source,
          la_sourceUnits = sourceUnits, la_sourceDiscountAmount = disc, la_sourceDiscountAmountWithTax = discTax\<rparr>))))))"

fun putAllocation :: "LineAllocation \<Rightarrow> LineAllocation list \<Rightarrow> LineAllocation list res" where
  "putAllocation a [] = Inr [a]"
| "putAllocation a (e # es) =
     (if la_lineKey e = la_lineKey a then bindE (mergeAllocation e a) (\<lambda>m. Inr (m # es))
      else bindE (putAllocation a es) (\<lambda>rest. Inr (e # rest)))"

definition growEntry :: "int \<Rightarrow> int \<Rightarrow> int \<Rightarrow> LineAllocation list \<Rightarrow> AppliedPromotion \<Rightarrow> AppliedPromotion res" where
  "growEntry amount withTax requested allocations e =
     bindE (sumE [ae_amount e, amount]) (\<lambda>a.
     bindE (sumE [ae_requestedAmount e, requested]) (\<lambda>r.
     bindE (sumE [ae_amountWithTax e, withTax]) (\<lambda>t.
     bindE (foldE putAllocation allocations (ae_lineAllocations e)) (\<lambda>las.
     Inr (e\<lparr>ae_amount := a, ae_requestedAmount := r, ae_amountWithTax := t, ae_lineAllocations := las\<rparr>)))))"

fun updateEntry :: "string \<Rightarrow> (AppliedPromotion \<Rightarrow> AppliedPromotion res) \<Rightarrow> AppliedPromotion \<Rightarrow> AppliedPromotion list \<Rightarrow> AppliedPromotion list res" where
  "updateEntry i f new [] = bindE (f new) (\<lambda>e. Inr [e])"
| "updateEntry i f new (e # es) =
     (if ae_promotionId e = i then bindE (f e) (\<lambda>e'. Inr (e' # es))
      else bindE (updateEntry i f new es) (\<lambda>rest. Inr (e # rest)))"

definition newEntry :: "StackInput \<Rightarrow> ResolvedPromotion \<Rightarrow> AppliedPromotion" where
  "newEntry input p =
     \<lparr>ae_promotionId = rp_id p, ae_kind = rp_kind p, ae_basis = (if si_pricesIncludeTax input then GrossBasis else NetBasis),
      ae_amount = 0, ae_amountWithTax = 0, ae_requestedAmount = 0, ae_shippingAdjustment = None, ae_lineAllocations = []\<rparr>"

definition recordPromotion :: "StackInput \<Rightarrow> ResolvedPromotion \<Rightarrow> int \<Rightarrow> int \<Rightarrow> LineAllocation list \<Rightarrow> int \<Rightarrow> StackState \<Rightarrow> StackState res" where
  "recordPromotion input p amount grossBefore allocations requested st =
     bindE (totalsOf (st_lines st)) (\<lambda>cur.
     bindE (updateEntry (rp_id p) (growEntry amount (snd cur - grossBefore) requested allocations) (newEntry input p) (st_applied st)) (\<lambda>applied.
     Inr (st\<lparr>st_applied := applied, st_accepted := rp_id p # st_accepted st\<rparr>)))"

text \<open>A line takes an adjustment, capped at the line's remaining basis.\<close>

definition lineBasis :: "WorkingLine \<Rightarrow> Facts \<Rightarrow> int" where
  "lineBasis line f = (if sl_priceIncludesTax (wl_input line) then fa_lineGross f else fa_lineNet f)"

definition sourceDiscounts :: "StackLine \<Rightarrow> int \<Rightarrow> (int \<times> int) res" where
  "sourceDiscounts l source =
     (let exposed = fl (fl (of_int (source * sl_quantity l)) / of_int (divisorOf l));
          factor = taxFactor (sl_taxRateBps l)
      in bindE (rounded (if sl_priceIncludesTax l then fl (exposed / factor) else exposed)) (\<lambda>disc.
         bindE (rounded (if sl_priceIncludesTax l then exposed else fl (exposed * factor))) (\<lambda>discTax. Inr (disc, discTax))))"

definition pushAdjustment :: "WorkingLine \<Rightarrow> int \<Rightarrow> WorkingLine" where
  "pushAdjustment line source = (if source \<noteq> 0 then line\<lparr>wl_adjustments := wl_adjustments line @ [source]\<rparr> else line)"

definition addAdjustment :: "StackInput \<Rightarrow> WorkingLine \<Rightarrow> int \<Rightarrow> (WorkingLine \<times> LineAllocation) res" where
  "addAdjustment input line requested =
     (let l = wl_input line; ones = replicate (nat (sl_quantity l)) 1
      in bindE (factsOf line) (\<lambda>before.
         let source = max (- lineBasis line before) requested
         in bindE (prorateSigned ones requested) (\<lambda>sourceUnits.
            bindE (factsOf (pushAdjustment line source)) (\<lambda>after.
            let amount = (if si_pricesIncludeTax input then fa_lineGross after - fa_lineGross before
                          else fa_lineNet after - fa_lineNet before)
            in bindE (prorateSigned ones amount) (\<lambda>units.
               bindE (sourceDiscounts l source) (\<lambda>(disc, discTax).
               Inr (pushAdjustment line source,
                    \<lparr>la_lineKey = sl_key l, la_amount = amount, la_units = units, la_sourceAdjustmentAmount = source,
                     la_sourceUnits = sourceUnits, la_sourceDiscountAmount = disc, la_sourceDiscountAmountWithTax = discTax\<rparr>)))))))"

text \<open>Item stage: line after line, the line promotions in order, conditions re-tested each time.\<close>

definition itemRequested :: "ResolvedPromotion \<Rightarrow> int \<Rightarrow> int res" where
  "itemRequested p basis =
     (if rp_kind p = KPercentage then rounded (js_div (- basis * rp_value p) 100) else Inr (- min (rp_value p) basis))"

definition itemStep :: "StackInput \<Rightarrow> string list \<Rightarrow> ResolvedPromotion list \<Rightarrow> nat \<Rightarrow> ResolvedPromotion \<Rightarrow> StackState \<Rightarrow> StackState res" where
  "itemStep input codes promotions i p st =
     (let line = st_lines st ! i
      in if rp_scope p \<noteq> LineScope \<or> rp_kind p = KFreeShipping \<or> sl_quantity (wl_input line) = 0 then Inr st
         else bindE (eligible input codes promotions p st) (\<lambda>(ok, st).
              if \<not> ok then Inr st
              else bindE (factsOf line) (\<lambda>current.
                   bindE (totalsOf (st_lines st)) (\<lambda>before.
                   bindE (itemRequested p (lineBasis line current)) (\<lambda>requested.
                   bindE (addAdjustment input line requested) (\<lambda>(line', allocation).
                   recordPromotion input p (la_amount allocation) (snd before) [allocation] requested
                     (st\<lparr>st_lines := (st_lines st)[i := line']\<rparr>)))))))"

definition itemStage :: "StackInput \<Rightarrow> string list \<Rightarrow> ResolvedPromotion list \<Rightarrow> StackState \<Rightarrow> StackState res" where
  "itemStage input codes promotions st =
     foldE (\<lambda>i. foldE (itemStep input codes promotions i) promotions) [0..<length (st_lines st)] st"

text \<open>Spreading an order-level amount over the lines with a quantity.\<close>

fun adjustActive :: "StackInput \<Rightarrow> WorkingLine list \<Rightarrow> int list \<Rightarrow> (WorkingLine list \<times> LineAllocation list) res" where
  "adjustActive input [] shares = Inr ([], [])"
| "adjustActive input (line # lines) shares =
     (if 0 < sl_quantity (wl_input line)
      then (case shares of
              [] \<Rightarrow> Inl (Err ''Proration amount must fit integer cents'')
            | s # ss \<Rightarrow> bindE (addAdjustment input line s) (\<lambda>(line', a).
                          bindE (adjustActive input lines ss) (\<lambda>(lines', as). Inr (line' # lines', a # as))))
      else bindE (adjustActive input lines shares) (\<lambda>(lines', as). Inr (line # lines', as)))"

definition activeLines :: "WorkingLine list \<Rightarrow> WorkingLine list" where
  "activeLines lines = filter (\<lambda>line. 0 < sl_quantity (wl_input line)) lines"

definition spread :: "StackInput \<Rightarrow> WorkingLine list \<Rightarrow> int \<Rightarrow> (WorkingLine list \<times> LineAllocation list) res" where
  "spread input lines amount =
     bindE (mapE factsOf (activeLines lines)) (\<lambda>fs.
     bindE (prorateSigned (map fa_lineGross fs) amount) (adjustActive input lines))"

definition basisOf :: "StackInput \<Rightarrow> int \<times> int \<Rightarrow> int" where
  "basisOf input cur = (if si_pricesIncludeTax input then snd cur else fst cur)"

definition orderRequested :: "ResolvedPromotion \<Rightarrow> int \<Rightarrow> int res" where
  "orderRequested p basis =
     (let budget = (if rp_kind p = KAccountCredit then (case rp_credit p of Some c \<Rightarrow> cb_availableCents c | None \<Rightarrow> 0) else rp_value p)
      in if rp_kind p = KPercentage then rounded (js_div (- basis * budget) 100) else Inr (- min budget (max 0 basis)))"

definition orderStep :: "StackInput \<Rightarrow> string list \<Rightarrow> ResolvedPromotion list \<Rightarrow> ResolvedPromotion \<Rightarrow> StackState \<Rightarrow> StackState res" where
  "orderStep input codes promotions p st =
     (if rp_scope p \<noteq> OrderScope \<or> rp_kind p = KFreeShipping then Inr st
      else bindE (eligible input codes promotions p st) (\<lambda>(ok, st).
           if \<not> ok then Inr st
           else bindE (totalsOf (st_lines st)) (\<lambda>current.
                bindE (orderRequested p (basisOf input current)) (\<lambda>amount.
                bindE (if activeLines (st_lines st) = [] then Inr (st_lines st, []) else spread input (st_lines st) amount) (\<lambda>(lines', allocations).
                bindE (sumE (map la_amount allocations)) (\<lambda>total.
                recordPromotion input p total (snd current) allocations amount (st\<lparr>st_lines := lines'\<rparr>)))))))"

definition orderStage :: "StackInput \<Rightarrow> string list \<Rightarrow> ResolvedPromotion list \<Rightarrow> StackState \<Rightarrow> StackState res" where
  "orderStage input codes promotions st = foldE (orderStep input codes promotions) promotions st"

text \<open>Loyalty points, capped at the merchandise; the discount is what the lines really lost.\<close>

definition pointsStage :: "StackInput \<Rightarrow> WorkingLine list \<Rightarrow> (WorkingLine list \<times> int) res" where
  "pointsStage input lines =
     bindE (totalsOf lines) (\<lambda>cur.
     bindE (integerE ''Points discount'' 0 (orElse (si_pointsDiscount input) 0)) (\<lambda>requested.
     let points = min requested (basisOf input cur)
     in if points = 0 then Inr (lines, 0)
        else bindE (spread input lines (- points)) (\<lambda>(lines', allocations).
             bindE (sumE (map la_amount allocations)) (\<lambda>s. Inr (lines', - s)))))"

section \<open>Shipping, adjustments, coupons and credit\<close>

record ShippingState =
  sh_total :: int
  sh_final :: "ShippingSourceLine list option"

definition shippingGrossOf :: "StackInput \<Rightarrow> ShippingState \<Rightarrow> int res" where
  "shippingGrossOf input sh = (case sh_final sh of
       Some ls \<Rightarrow> sumE (map ss_gross ls)
     | None \<Rightarrow> if si_shippingIncludesTax input then Inr (sh_total sh)
               else rounded (fl (of_int (sh_total sh) * taxFactor (si_shippingTaxRateBps input))))"

definition shippingNetOf :: "StackInput \<Rightarrow> ShippingState \<Rightarrow> int res" where
  "shippingNetOf input sh = (case sh_final sh of
       Some ls \<Rightarrow> sumE (map ss_net ls)
     | None \<Rightarrow> if si_shippingIncludesTax input then rounded (fl (of_int (sh_total sh) / taxFactor (si_shippingTaxRateBps input)))
               else Inr (sh_total sh))"

definition waiveEntry :: "bool \<Rightarrow> int \<Rightarrow> int \<Rightarrow> AppliedPromotion \<Rightarrow> AppliedPromotion res" where
  "waiveEntry retained old oldGross e =
     bindE (sumE [ae_amountWithTax e, - oldGross]) (\<lambda>t.
     if retained
     then let prev = orElse (ae_shippingAdjustment e) (0, 0)
          in bindE (sumE [fst prev, - old]) (\<lambda>n.
             bindE (sumE [snd prev, - oldGross]) (\<lambda>g.
             Inr (e\<lparr>ae_amountWithTax := t, ae_shippingAdjustment := Some (n, g)\<rparr>)))
     else Inr (e\<lparr>ae_amountWithTax := t\<rparr>))"

definition shippingStep :: "StackInput \<Rightarrow> string list \<Rightarrow> ResolvedPromotion list \<Rightarrow> int \<Rightarrow> ResolvedPromotion \<Rightarrow> StackState \<times> ShippingState \<Rightarrow> (StackState \<times> ShippingState) res" where
  "shippingStep input codes promotions finalGross p s = (case s of (st, sh) \<Rightarrow>
     if (case si_retainedShipping input of None \<Rightarrow> False | Some r \<Rightarrow> rs_mode r \<noteq> RevalidatePromotions)
        \<or> (rp_kind p \<noteq> KFreeShipping \<and> \<not> rp_freeShipping p) then Inr (st, sh)
     else bindE (eligible input codes promotions p st) (\<lambda>(ok, st).
          if \<not> ok then Inr (st, sh)
          else bindE (shippingGrossOf input sh) (\<lambda>oldGross.
               let old = sh_total sh;
                   sh' = \<lparr>sh_total = 0, sh_final = map_option (map (\<lambda>l. l\<lparr>ss_net := 0, ss_gross := 0\<rparr>)) (sh_final sh)\<rparr>
               in bindE (recordPromotion input p (- old) finalGross [] (- old) st) (\<lambda>st.
                  bindE (updateEntry (rp_id p) (waiveEntry (sh_final sh \<noteq> None) old oldGross) (newEntry input p) (st_applied st)) (\<lambda>applied.
                  Inr (st\<lparr>st_applied := applied\<rparr>, sh'))))))"

definition shippingStage :: "StackInput \<Rightarrow> string list \<Rightarrow> ResolvedPromotion list \<Rightarrow> int \<Rightarrow> StackState \<Rightarrow> (StackState \<times> ShippingState) res" where
  "shippingStage input codes promotions finalGross st =
     foldE (shippingStep input codes promotions finalGross) promotions
       (st, \<lparr>sh_total = si_shipping input, sh_final = map_option rs_lines (si_retainedShipping input)\<rparr>)"

text \<open>Order adjustments: their total, the tax on them and the tax of captured surcharges.\<close>

record AdjustmentSums =
  as_total :: int
  as_scalarTax :: int
  as_sourceTax :: int
  as_charges :: nat

definition readCharge :: "StackAdjustment \<Rightarrow> SourceCharge option res" where
  "readCharge a = (case sj_sourceSurcharge a of
       None \<Rightarrow> Inr None
     | Some s \<Rightarrow>
         bindE (checkE (sc_sourceId s = [] \<or> \<not> digestOk (sc_sourceDigest s)) (Err ''Invalid source surcharge'')) (\<lambda>_.
         bindE (integerE ''Source surcharge net'' (- MAX_CENTS) (sc_net s)) (\<lambda>net.
         bindE (checkE (net \<noteq> sj_amount a) (Err ''Invalid source surcharge'')) (\<lambda>_.
         bindE (integerE ''Source surcharge gross'' (- MAX_CENTS) (sc_gross s)) (\<lambda>_. Inr (Some s))))))"

definition adjustmentSums :: "StackInput \<Rightarrow> AdjustmentSums res" where
  "adjustmentSums input =
     (let adjs = orElse (si_adjustments input) [];
          rate = (case si_lines input of [] \<Rightarrow> 0 | l # _ \<Rightarrow> sl_taxRateBps l)
      in bindE (mapE (\<lambda>a. integerE ''Order adjustment'' (- MAX_CENTS) (sj_amount a)) adjs) (\<lambda>amounts.
         bindE (sumE amounts) (\<lambda>total.
         bindE (sumE (map sj_amount (filter (\<lambda>a. sj_taxable a \<and> sj_sourceSurcharge a = None) adjs))) (\<lambda>taxable.
         bindE (if si_pricesIncludeTax input
                then bindE (rounded (fl (of_int taxable / taxFactor rate))) (\<lambda>n. Inr (taxable - n))
                else rounded (fl (fl (of_int (taxable * rate)) / 10000))) (\<lambda>scalarTax.
         bindE (mapE readCharge adjs) (\<lambda>cs.
         let charges = List.map_filter id cs
         in bindE (checkE (\<not> distinct (map sc_sourceId charges)) (Err ''Duplicate source surcharge'')) (\<lambda>_.
            bindE (sumE (map (\<lambda>s. sc_gross s - sc_net s) charges)) (\<lambda>sourceTax.
            Inr \<lparr>as_total = total, as_scalarTax = scalarTax, as_sourceTax = sourceTax, as_charges = length charges\<rparr>))))))))"

definition entryOf :: "StackState \<Rightarrow> ResolvedPromotion \<Rightarrow> AppliedPromotion option" where
  "entryOf st p = find (\<lambda>e. ae_promotionId e = rp_id p) (st_applied st)"

text \<open>The status reported for each entered code.\<close>

definition couponStatus :: "ResolvedPromotion list \<Rightarrow> StackState \<Rightarrow> string \<Rightarrow> StackCouponStatus" where
  "couponStatus promotions st code =
     (case filter (codeMatches code) promotions of
        [p] \<Rightarrow>
          let discount = (case entryOf st p of Some e \<Rightarrow> - ae_amount e | None \<Rightarrow> 0);
              ok = rp_id p \<in> set (st_accepted st)
          in \<lparr>cs_code = code, cs_promotionId = Some (rp_id p), cs_kind = Some (rp_kind p), cs_applied = ok,
              cs_reason = (if ok then None else Some (orElse (st_reasons st (rp_id p)) ''Promotion not applicable'')),
              cs_appliedAmount = Some discount,
              cs_availableAmount = map_option cb_availableCents (rp_credit p),
              cs_remainingAmount = map_option (\<lambda>c. max 0 (cb_availableCents c - discount)) (rp_credit p)\<rparr>
      | ms \<Rightarrow> \<lparr>cs_code = code, cs_promotionId = None, cs_kind = None, cs_applied = False,
              cs_reason = Some (if 1 < length ms then ''Ambiguous coupon code'' else ''Coupon unavailable''),
              cs_appliedAmount = None, cs_availableAmount = None, cs_remainingAmount = None\<rparr>)"

text \<open>The account credit the codes select, with the debit per purchased unit.\<close>

definition selectedPromotion :: "string list \<Rightarrow> ResolvedPromotion list \<Rightarrow> ResolvedPromotion option" where
  "selectedPromotion codes promotions =
     (case List.map_filter (\<lambda>code. find (\<lambda>p. rp_kind p = KAccountCredit \<and> codeMatches code p) promotions) codes of
        [] \<Rightarrow> None | p # _ \<Rightarrow> Some p)"

definition creditUnits :: "AppliedPromotion \<Rightarrow> WorkingLine \<Rightarrow> (string \<times> int list) res" where
  "creditUnits entry line =
     (let l = wl_input line;
          purchased = nat (divisorOf l);
          units = (case find (\<lambda>a. la_lineKey a = sl_key l) (ae_lineAllocations entry) of
                     Some a \<Rightarrow> if la_sourceAdjustmentAmount a \<noteq> 0 then la_sourceUnits a else replicate purchased 0
                   | None \<Rightarrow> replicate purchased 0)
      in if length units \<noteq> purchased \<or> list_ex (\<lambda>u. \<not> isSafeInteger u \<or> 0 < u) units
         then Inl (Coded ''CREDIT_ALLOCATION_INVALID'' ''Credit unit allocation unavailable'')
         else Inr (sl_key l, map uminus units))"

definition selectCredit :: "StackInput \<Rightarrow> string list \<Rightarrow> ResolvedPromotion list \<Rightarrow> StackState \<Rightarrow> SelectedCredit option res" where
  "selectCredit input codes promotions st =
     (case selectedPromotion codes promotions of
        None \<Rightarrow> Inr None
      | Some p \<Rightarrow> (case (entryOf st p, rp_credit p) of
          (Some entry, Some credit) \<Rightarrow>
            bindE (sumE (map (if si_pricesIncludeTax input then la_sourceDiscountAmountWithTax else la_sourceDiscountAmount) (ae_lineAllocations entry))) (\<lambda>s.
            let sourceDebit = - s
            in bindE (checkE (sourceDebit < 1 \<or> cb_availableCents credit < sourceDebit)
                        (Coded ''CREDIT_AMOUNT_CHANGED'' ''Credit amount changed; remove & reapply coupon'')) (\<lambda>_.
               bindE (mapE (creditUnits entry) (st_lines st)) (\<lambda>allocation.
               bindE (sumE (concat (map snd allocation))) (\<lambda>allocated.
               bindE (checkE (allocated \<noteq> sourceDebit)
                        (Coded ''CREDIT_ALLOCATION_INVALID'' ''Credit allocation does not match source debit'')) (\<lambda>_.
               Inr (Some \<lparr>sd_accountId = cb_accountId credit, sd_promotionId = rp_id p, sd_appliedAmount = sourceDebit, sd_allocation = allocation\<rparr>))))))
        | _ \<Rightarrow> Inr None))"

section \<open>The whole calculation\<close>

definition lineResult :: "WorkingLine \<Rightarrow> (LineTotals \<times> LineSnapshot) res" where
  "lineResult line =
     (let l = wl_input line; original = sl_unitListPrice l * sl_quantity l
      in bindE (factsOf line) (\<lambda>current.
         bindE (sumE (wl_adjustments line)) (\<lambda>adj.
         Inr (\<lparr>lt_unitPrice = sl_unitListPrice l, lt_quantity = sl_quantity l, lt_lineSubtotal = original,
               lt_lineDiscount = original - lineBasis line current, lt_lineTotal = lineBasis line current\<rparr>,
              \<lparr>ls_lineKey = sl_key l, ls_quantity = sl_quantity l, ls_proratedUnitPriceWithTax = fa_unitGross current,
               ls_lineNet = fa_lineNet current, ls_lineGross = fa_lineGross current,
               ls_sourceAdjustmentTotal = adj, ls_sourceAdjustmentDivisor = divisorOf l\<rparr>))))"

text \<open>What the stages leave behind, in the order the code computes it.\<close>

record StackRun =
  sn_codes :: "string list"
  sn_promotions :: "ResolvedPromotion list"
  sn_before :: "int \<times> int"
  sn_afterPromotions :: "int \<times> int"
  sn_final :: "int \<times> int"
  sn_pointsDiscount :: int
  sn_state :: StackState
  sn_shipping :: ShippingState

definition runStages :: "StackInput \<Rightarrow> StackRun res" where
  "runStages input =
     bindE (checkContext input) (\<lambda>_.
     bindE (canonicalCouponCodes (si_couponCodes input)) (\<lambda>codes.
     bindE (openLines [] (si_lines input)) (\<lambda>lines.
     bindE (totalsOf (map (\<lambda>line. line\<lparr>wl_adjustments := []\<rparr>) lines)) (\<lambda>before.
     let promotions = sortPromotions (si_promotions input)
     in bindE (checkPromotions [] promotions) (\<lambda>_.
        bindE (checkPriorAdjustments input) (\<lambda>_.
        bindE (itemStage input codes promotions \<lparr>st_lines = lines, st_applied = [], st_accepted = [], st_reasons = Map.empty\<rparr>) (\<lambda>st.
        bindE (orderStage input codes promotions st) (\<lambda>st.
        bindE (totalsOf (st_lines st)) (\<lambda>afterPromotions.
        bindE (pointsStage input (st_lines st)) (\<lambda>(lines', points).
        bindE (totalsOf lines') (\<lambda>final.
        bindE (shippingStage input codes promotions (snd final) (st\<lparr>st_lines := lines'\<rparr>)) (\<lambda>(st, sh).
        Inr \<lparr>sn_codes = codes, sn_promotions = promotions, sn_before = before, sn_afterPromotions = afterPromotions,
             sn_final = final, sn_pointsDiscount = points, sn_state = st, sn_shipping = sh\<rparr>))))))))))))"

definition stackResult :: "StackInput \<Rightarrow> StackRun \<Rightarrow> PromotionStackTotals res" where
  "stackResult input run =
     (let st = sn_state run; sh = sn_shipping run; final = sn_final run
      in bindE (shippingNetOf input sh) (\<lambda>shippingNet.
         bindE (shippingGrossOf input sh) (\<lambda>shippingGross.
         bindE (adjustmentSums input) (\<lambda>adj.
         bindE (sumE [as_scalarTax adj, as_sourceTax adj]) (\<lambda>adjustmentTax.
         bindE (selectCredit input (sn_codes run) (sn_promotions run) st) (\<lambda>credit.
         bindE (mapE lineResult (st_lines st)) (\<lambda>results.
         bindE (sumE [snd final - fst final, shippingGross - shippingNet, adjustmentTax]) (\<lambda>taxTotal.
         bindE (if si_retainedShipping input \<noteq> None \<or> as_charges adj \<noteq> 0
                then sumE [snd final, shippingGross, as_total adj, if si_pricesIncludeTax input then as_sourceTax adj else adjustmentTax]
                else bindE (sumE [snd final, shippingGross, as_total adj, if si_pricesIncludeTax input then 0 else adjustmentTax])
                       (\<lambda>g. Inr (max 0 g))) (\<lambda>grandTotal.
         let subtotal = basisOf input (sn_before run)
         in Inr \<lparr>ot_lines = map fst results, ot_subtotal = subtotal, ot_discountTotal = subtotal - basisOf input final,
              ot_shippingTotal = sh_total sh, ot_taxTotal = taxTotal, ot_grandTotal = grandTotal,
              ot_pointsDiscount = sn_pointsDiscount run,
              ot_adjustmentTotal = (case si_adjustments input of None \<Rightarrow> None | Some _ \<Rightarrow> Some (as_total adj)),
              ps_coupons = map (couponStatus (sn_promotions run) st) (sn_codes run), ps_applied = st_applied st,
              ps_lineSnapshots = map snd results, ps_selectedCredit = credit,
              ps_retainedShippingFinal = sh_final sh, ps_quoteHash = '''', ps_resolvedPromotions = sn_promotions run\<rparr>)))))))))"

text \<open>
  The quote hash is a digest of the economic facts of a quote
  (\<open>money/pricing-snapshot.ts\<close>): lines appear by position instead of by key. \<open>digest\<close>
  stands for SHA-256 of the canonical JSON text of these facts.
\<close>

record QuoteFacts =
  qf_currency :: string
  qf_pricesIncludeTax :: bool
  qf_couponCodes :: "string list"
  qf_lines :: "(StackLine \<times> LineSnapshot option) list"
  qf_shippingBasis :: "int \<times> int \<times> bool \<times> bool"
  qf_pointsDiscount :: int
  qf_adjustments :: "StackAdjustment list"
  qf_totals :: "int list"
  qf_retained :: "(RetainedShipping \<times> ShippingSourceLine list option) option"
  qf_applied :: "(AppliedPromotion \<times> (PromotionScope \<times> int \<times> int) option \<times> nat list) list"
  qf_selectedCredit :: "(SelectedCredit \<times> int list list) option"

definition economicTotals :: "PromotionStackTotals \<Rightarrow> int list" where
  "economicTotals r = [ot_subtotal r, ot_discountTotal r, ot_shippingTotal r, ot_taxTotal r, ot_grandTotal r, ot_pointsDiscount r]"

fun keyIndex :: "string \<Rightarrow> string list \<Rightarrow> nat option" where
  "keyIndex k [] = None"
| "keyIndex k (x # xs) = (if x = k then Some 0 else map_option Suc (keyIndex k xs))"

definition lineIndex :: "StackInput \<Rightarrow> LineAllocation \<Rightarrow> nat res" where
  "lineIndex input a = (case keyIndex (la_lineKey a) (map sl_key (si_lines input)) of
       None \<Rightarrow> Inl (Err ''Invalid pricing snapshot: unknown quote line'') | Some n \<Rightarrow> Inr n)"

definition quoteEntry :: "StackInput \<Rightarrow> AppliedPromotion \<Rightarrow> (AppliedPromotion \<times> (PromotionScope \<times> int \<times> int) option \<times> nat list) res" where
  "quoteEntry input e =
     bindE (mapE (lineIndex input) (ae_lineAllocations e)) (\<lambda>ixs.
     Inr (e\<lparr>ae_lineAllocations := map (\<lambda>a. a\<lparr>la_lineKey := ''''\<rparr>) (ae_lineAllocations e)\<rparr>,
          map_option (\<lambda>p. (rp_scope p, rp_priority p, rp_sequence p)) (find (\<lambda>p. rp_id p = ae_promotionId e) (si_promotions input)), ixs))"

definition promotionQuoteHash :: "(QuoteFacts \<Rightarrow> string) \<Rightarrow> StackInput \<Rightarrow> PromotionStackTotals \<Rightarrow> string res" where
  "promotionQuoteHash digest input r =
     bindE (mapE (quoteEntry input) (ps_applied r)) (\<lambda>entries.
     Inr (digest \<lparr>qf_currency = si_currency input, qf_pricesIncludeTax = si_pricesIncludeTax input, qf_couponCodes = si_couponCodes input,
       qf_lines = map (\<lambda>l. (l\<lparr>sl_key := ''''\<rparr>, map_option (\<lambda>s. s\<lparr>ls_lineKey := '''', ls_sourceAdjustmentTotal := 0, ls_sourceAdjustmentDivisor := 0\<rparr>)
                     (find (\<lambda>s. ls_lineKey s = sl_key l) (ps_lineSnapshots r)))) (si_lines input),
       qf_shippingBasis = (si_shipping input, si_shippingTaxRateBps input, si_shippingIncludesTax input, si_shippingTaxRateBps input \<noteq> 0),
       qf_pointsDiscount = orElse (si_pointsDiscount input) 0, qf_adjustments = orElse (si_adjustments input) [],
       qf_totals = economicTotals r,
       qf_retained = map_option (\<lambda>s. (s, ps_retainedShippingFinal r)) (si_retainedShipping input),
       qf_applied = entries,
       qf_selectedCredit = map_option (\<lambda>c. (c\<lparr>sd_allocation := []\<rparr>,
           map (\<lambda>l. orElse (map_of (sd_allocation c) (sl_key l)) []) (si_lines input))) (ps_selectedCredit r)\<rparr>))"

definition calculatePromotionStack :: "(QuoteFacts \<Rightarrow> string) \<Rightarrow> StackInput \<Rightarrow> PromotionStackTotals res" where
  "calculatePromotionStack digest input =
     bindE (runStages input) (\<lambda>run.
     bindE (stackResult input run) (\<lambda>result.
     bindE (promotionQuoteHash digest (input\<lparr>si_couponCodes := sn_codes run\<rparr>) result) (\<lambda>h.
     Inr (result\<lparr>ps_quoteHash := h\<rparr>))))"

end
