(* ===== verification/StackLaws.thy ===== *)
theory StackLaws
  imports PromotionStack
begin

text \<open>
  What the promotion stack guarantees: signed proration conserves the amount for every
  amount of checked cents, no stage raises a price or discounts below zero, every
  discounted cent is attributed to a promotion or to points, and the selected credit is
  within its budget and fully allocated to purchased units.
\<close>

section \<open>Signed proration\<close>

text \<open>
  When the computed shares sum up to less than one unit beside the total, what is missing
  is between zero and the number of fractional shares, so only fractional shares get a unit.
\<close>

context fp_rounding
begin

lemma rnd_pos: "0 < x \<Longrightarrow> 0 < rnd x"
proof -
  assume x: "0 < x"
  then have "x / 2 ^ 53 < x" by (simp add: field_simps)
  moreover have "\<bar>rnd x - x\<bar> \<le> x / 2 ^ 53" using rnd_error[of x] x by (simp only: abs_of_pos)
  ultimately show "0 < rnd x" by linarith
qed

lemma missing_bounds:
  fixes ys :: "rat list"
  assumes near: "\<bar>sum_list ys - of_int t\<bar> < 1"
  shows "0 \<le> t - sum_list (map floor ys)"
    and "t - sum_list (map floor ys) \<le> int (length (filter (\<lambda>y. of_int \<lfloor>y\<rfloor> \<noteq> y) ys))"
proof -
  have lo: "of_int (sum_list (map floor ys)) \<le> sum_list (ys :: rat list)" for ys
    by (induction ys) (auto simp: add_mono)
  have hi: "sum_list (ys :: rat list) \<le> of_int (sum_list (map floor ys)) + of_nat (length (filter (\<lambda>y. of_int \<lfloor>y\<rfloor> \<noteq> y) ys))" for ys
  proof (induction ys)
    case (Cons y ys)
    have "y \<le> of_int \<lfloor>y\<rfloor> + 1" by linarith
    then show ?case using Cons by (auto simp: algebra_simps)
  qed simp
  have "of_int (sum_list (map floor ys)) < (of_int (t + 1) :: rat)" using lo[of ys] near by simp
  then show "0 \<le> t - sum_list (map floor ys)" unfolding of_int_less_iff by simp
  have "of_int t < (of_int (sum_list (map floor ys) + int (length (filter (\<lambda>y. of_int \<lfloor>y\<rfloor> \<noteq> y) ys)) + 1) :: rat)"
    using hi[of ys] near by simp
  then show "t - sum_list (map floor ys) \<le> int (length (filter (\<lambda>y. of_int \<lfloor>y\<rfloor> \<noteq> y) ys))"
    unfolding of_int_less_iff by simp
qed

lemma length_filter_nth: "length (filter (\<lambda>i. P (xs ! i)) [0..<length xs]) = length (filter P xs)"
  by (metis (no_types, lifting) filter_map length_map map_nth comp_def filter_cong)

lemma largest_remainder_conserves:
  assumes near: "\<bar>sum_list ys - of_int t\<bar> < 1"
  shows "sum_list (fst (largestRemainder rnd t ys)) = t"
    and "snd (largestRemainder rnd t ys) = 0"
    and "i < length ys \<Longrightarrow> \<lfloor>ys ! i\<rfloor> \<le> fst (largestRemainder rnd t ys) ! i"
    and "i < length ys \<Longrightarrow> fst (largestRemainder rnd t ys) ! i \<le> \<lceil>ys ! i\<rceil>"
proof -
  let ?fs = "map floor ys" and ?o = "remainderOrder rnd ys"
  let ?m = "t - sum_list ?fs"
  let ?P = "\<lambda>i. of_int \<lfloor>ys ! i\<rfloor> \<noteq> ys ! i"
  have lr: "largestRemainder rnd t ys = addOnes ?o ?m ?fs" by (simp add: largestRemainder_def Let_def)
  have o: "distinct ?o" "set ?o \<subseteq> {..<length ?fs}" "length ?o = length ys"
    by (auto simp: remainderOrder_def)
  have m: "0 \<le> ?m" "?m \<le> int (length (filter ?P [0..<length ys]))"
    using missing_bounds[OF near] unfolding length_filter_nth[of "\<lambda>y. of_int \<lfloor>y\<rfloor> \<noteq> y" ys] by auto
  have "length (filter ?P [0..<length ys]) \<le> length ys"
    using length_filter_le[of ?P "[0..<length ys]"] by simp
  then have ml: "?m \<le> int (length ys)" using m(2) by linarith
  show z: "snd (largestRemainder rnd t ys) = 0" using m(1) ml o(3) by (simp add: lr addOnes_rest)
  show "sum_list (fst (largestRemainder rnd t ys)) = t" using addOnes_sum[OF o(1,2), of ?m] z by (simp add: lr)
  have fracp: "?P i" if "i \<in> set (take (nat ?m) ?o)" for i
  proof (rule take_sort_key_class[where P = ?P and x = i and n = "nat ?m" and xs = "[0..<length ys]"])
    show "i \<in> set (take (nat ?m) (sort_key (\<lambda>i. - rnd (ys ! i - of_int \<lfloor>ys ! i\<rfloor>)) [0..<length ys]))"
      using that by (simp add: remainderOrder_def)
    show "- rnd (ys ! x - of_int \<lfloor>ys ! x\<rfloor>) < - rnd (ys ! y - of_int \<lfloor>ys ! y\<rfloor>)" if "?P x" "\<not> ?P y" for x y
    proof -
      have "of_int \<lfloor>ys ! x\<rfloor> < ys ! x" using that(1) of_int_floor_le[of "ys ! x"] by linarith
      then have "0 < rnd (ys ! x - of_int \<lfloor>ys ! x\<rfloor>)" by (simp add: rnd_pos)
      moreover have "ys ! y - of_int \<lfloor>ys ! y\<rfloor> = 0" using that(2) by linarith
      ultimately show ?thesis using rnd_int[of 0] by simp
    qed
    show "nat ?m \<le> length (filter ?P [0..<length ys])" using m(2) by linarith
  qed
  assume i: "i < length ys"
  have r: "fst (largestRemainder rnd t ys) ! i = \<lfloor>ys ! i\<rfloor> + (if i \<in> set (take (nat ?m) ?o) then 1 else 0)"
    using addOnes_nth[OF o(1,2), of i ?m] i by (simp add: lr)
  show "\<lfloor>ys ! i\<rfloor> \<le> fst (largestRemainder rnd t ys) ! i" by (simp add: r)
  show "fst (largestRemainder rnd t ys) ! i \<le> \<lceil>ys ! i\<rceil>"
  proof (cases "i \<in> set (take (nat ?m) ?o)")
    case True
    then have "of_int \<lfloor>ys ! i\<rfloor> < ys ! i" using fracp[of i] of_int_floor_le[of "ys ! i"] by linarith
    then have "\<lfloor>ys ! i\<rfloor> < \<lceil>ys ! i\<rceil>" by (simp add: less_ceiling_iff)
    then show ?thesis using r True by simp
  qed (use r floor_le_ceiling[of "ys ! i"] in simp)
qed

lemma share_relative_error:
  "\<bar>rnd (of_int t * rnd z) - of_int t * z\<bar> \<le> \<bar>of_int t * z\<bar> / 2 ^ 51"
proof -
  let ?x = "of_int t * z"
  have "\<bar>of_int t * rnd z - ?x\<bar> = \<bar>of_int t\<bar> * \<bar>rnd z - z\<bar>"
    by (simp flip: abs_mult right_diff_distrib)
  also have "\<dots> \<le> \<bar>of_int t\<bar> * (\<bar>z\<bar> / 2 ^ 53)" by (rule mult_left_mono[OF rnd_error]) simp
  finally have e1: "\<bar>of_int t * rnd z - ?x\<bar> \<le> \<bar>?x\<bar> / 2 ^ 53" by (simp add: abs_mult)
  have "\<bar>?x\<bar> / 2 ^ 53 \<le> \<bar>?x\<bar>" by (simp add: field_simps)
  then have "\<bar>of_int t * rnd z\<bar> \<le> 2 * \<bar>?x\<bar>" using e1 by linarith
  then have "\<bar>of_int t * rnd z\<bar> / 2 ^ 53 \<le> 2 * \<bar>?x\<bar> / 2 ^ 53" by (simp add: divide_right_mono)
  then have "\<bar>rnd (of_int t * rnd z) - ?x\<bar> \<le> 3 * \<bar>?x\<bar> / 2 ^ 53"
    using e1 rnd_error[of "of_int t * rnd z"] by linarith
  then show ?thesis by simp
qed

end

lemma foldl_plus_int: "foldl (+) (a :: int) xs = a + sum_list xs"
  by (induction xs arbitrary: a) auto

lemma sumE_eq [simp]: "sumE vs = Inr s \<longleftrightarrow> s = sum_list vs \<and> \<bar>sum_list vs\<bar> \<le> MAX_CENTS"
  by (auto simp: sumE_def integerE_def foldl_plus_int isSafeInteger_def MAX_CENTS_def)

lemma integerE_eq [simp]: "integerE l mn v = Inr r \<longleftrightarrow> r = v \<and> isSafeInteger v \<and> mn \<le> v \<and> v \<le> MAX_CENTS"
  by (auto simp: integerE_def)

lemma rounded_eq [simp]: "rounded x = Inr r \<longleftrightarrow> r = js_round x \<and> \<bar>js_round x\<bar> \<le> MAX_CENTS"
  by (auto simp: rounded_def isSafeInteger_def MAX_CENTS_def)

text \<open>The exact shares of a proration, and that they sum up to the amount.\<close>

definition exactShare :: "int list \<Rightarrow> int \<Rightarrow> nat \<Rightarrow> rat" where
  "exactShare weights amount i =
     of_int amount * (if sum_list weights = 0 then 1 / of_nat (length weights) else of_int (weights ! i) / of_int (sum_list weights))"

definition computedShares :: "int list \<Rightarrow> int \<Rightarrow> rat list" where
  "computedShares weights amount =
     map (\<lambda>w. if sum_list weights = 0 then js_div amount (int (length weights))
              else fl (of_int amount * js_div w (sum_list weights))) weights"

lemma exactShare_sum:
  assumes "weights \<noteq> []"
  shows "(\<Sum>i<length weights. exactShare weights amount i) = of_int amount"
proof (cases "sum_list weights = 0")
  case True
  then show ?thesis using assms by (simp add: exactShare_def)
next
  case False
  have "(\<Sum>i<length weights. of_int (weights ! i)) = (of_int (sum_list weights) :: rat)"
    by (simp add: sum_list_sum_nth atLeast0LessThan)
  then have "(\<Sum>i<length weights. of_int (weights ! i) / of_int (sum_list weights)) = (1 :: rat)"
    using False by (simp flip: sum_divide_distrib)
  then show ?thesis using False unfolding exactShare_def by (simp flip: sum_distrib_left del: times_divide_eq_right)
qed

lemma computedShares_error:
  assumes "i < length weights"
  shows "\<bar>computedShares weights amount ! i - exactShare weights amount i\<bar> \<le> \<bar>exactShare weights amount i\<bar> / 2 ^ 51"
proof (cases "sum_list weights = 0")
  case True
  let ?x = "of_int amount / of_nat (length weights) :: rat"
  have "\<bar>fl ?x - ?x\<bar> \<le> \<bar>?x\<bar> / 2 ^ 53" by (rule fl_error)
  also have "\<dots> \<le> \<bar>?x\<bar> / 2 ^ 51" by (rule divide_left_mono) auto
  finally show ?thesis using True assms by (simp add: computedShares_def exactShare_def js_div_def)
next
  case False
  then show ?thesis using assms fp.share_relative_error[of amount "of_int (weights ! i) / of_int (sum_list weights)"]
    by (simp only: computedShares_def exactShare_def js_div_def nth_map if_False)
qed


lemma exactShare_sign:
  assumes "\<And>w. w \<in> set weights \<Longrightarrow> 0 \<le> w" and "i < length weights"
  shows "\<bar>exactShare weights amount i\<bar> = exactShare weights \<bar>amount\<bar> i"
    and "amount \<le> 0 \<Longrightarrow> exactShare weights amount i \<le> 0"
    and "0 \<le> amount \<Longrightarrow> 0 \<le> exactShare weights amount i"
  using assms sum_list_nonneg_int[of weights]
  by (auto simp: exactShare_def abs_mult mult_le_0_iff divide_le_0_iff)

lemma computedShares_near:
  assumes ne: "weights \<noteq> []" and nn: "\<And>w. w \<in> set weights \<Longrightarrow> 0 \<le> w" and a: "\<bar>amount\<bar> \<le> MAX_CENTS"
  shows "\<bar>sum_list (computedShares weights amount) - of_int amount\<bar> < 1"
proof -
  let ?n = "length weights" and ?y = "\<lambda>i. computedShares weights amount ! i" and ?x = "exactShare weights amount"
  have "sum_list (computedShares weights amount) - of_int amount = (\<Sum>i<?n. ?y i - ?x i)"
    using exactShare_sum[OF ne, of amount] by (simp add: sum_list_sum_nth computedShares_def atLeast0LessThan sum_subtractf)
  also have "\<bar>\<dots>\<bar> \<le> (\<Sum>i<?n. \<bar>?y i - ?x i\<bar>)" by (rule sum_abs)
  also have "\<dots> \<le> (\<Sum>i<?n. exactShare weights \<bar>amount\<bar> i / 2 ^ 51)"
    using computedShares_error[of _ weights amount] exactShare_sign(1)[of weights] nn by (intro sum_mono) force
  also have "\<dots> = of_int \<bar>amount\<bar> / 2 ^ 51"
    using exactShare_sum[OF ne, of "\<bar>amount\<bar>"] by (simp flip: sum_divide_distrib)
  also have "\<dots> < 1"
  proof -
    have "(of_int \<bar>amount\<bar> :: rat) \<le> of_int MAX_CENTS" using a by (simp only: of_int_le_iff)
    then show ?thesis by (simp add: MAX_CENTS_def)
  qed
  finally show ?thesis .
qed

lemma computedShares_sign:
  assumes "\<And>w. w \<in> set weights \<Longrightarrow> 0 \<le> w" and "i < length weights"
  shows "amount \<le> 0 \<Longrightarrow> computedShares weights amount ! i \<le> 0"
    and "0 \<le> amount \<Longrightarrow> 0 \<le> computedShares weights amount ! i"
proof -
  let ?y = "computedShares weights amount ! i" and ?x = "exactShare weights amount i"
  have e: "\<bar>?y - ?x\<bar> \<le> \<bar>?x\<bar> / 2 ^ 51" by (rule computedShares_error[OF assms(2)])
  have "\<bar>?x\<bar> / 2 ^ 51 \<le> \<bar>?x\<bar>" by (simp add: field_simps)
  then have e: "\<bar>?y - ?x\<bar> \<le> \<bar>?x\<bar>" using e by linarith
  show "amount \<le> 0 \<Longrightarrow> ?y \<le> 0" "0 \<le> amount \<Longrightarrow> 0 \<le> ?y"
    using e exactShare_sign(2,3)[OF assms(1,2), of amount] by (auto simp: abs_le_iff)
qed

definition proratedShares :: "int list \<Rightarrow> int \<Rightarrow> int list" where
  "proratedShares weights amount = fst (largestRemainder fl amount (computedShares weights amount))"

lemma proratedShares_facts:
  assumes ne: "weights \<noteq> []" and nn: "\<And>w. w \<in> set weights \<Longrightarrow> 0 \<le> w" and a: "\<bar>amount\<bar> \<le> MAX_CENTS"
  shows "length (proratedShares weights amount) = length weights"
    and "sum_list (proratedShares weights amount) = amount"
    and "snd (largestRemainder fl amount (computedShares weights amount)) = 0"
    and "\<lbrakk>amount \<le> 0; s \<in> set (proratedShares weights amount)\<rbrakk> \<Longrightarrow> s \<le> 0"
    and "\<lbrakk>0 \<le> amount; s \<in> set (proratedShares weights amount)\<rbrakk> \<Longrightarrow> 0 \<le> s"
    and "i < length weights \<Longrightarrow> \<bar>of_int (proratedShares weights amount ! i) - computedShares weights amount ! i\<bar> < 1"
proof -
  let ?ys = "computedShares weights amount"
  note near = computedShares_near[OF ne nn a]
  note lr = fp.largest_remainder_conserves[OF near, folded proratedShares_def]
  have ly: "length ?ys = length weights" by (simp add: computedShares_def)
  show l: "length (proratedShares weights amount) = length weights"
    by (simp add: proratedShares_def largestRemainder_def Let_def ly)
  show "sum_list (proratedShares weights amount) = amount" "snd (largestRemainder fl amount ?ys) = 0"
    using lr(1,2) by simp_all
  show "s \<le> 0" if "amount \<le> 0" and s: "s \<in> set (proratedShares weights amount)"
  proof -
    obtain i where i: "i < length weights" "s = proratedShares weights amount ! i" using s l by (auto simp: in_set_conv_nth)
    then show ?thesis using lr(4)[of i] computedShares_sign(1)[OF nn i(1) that(1)] ly
      by (metis ceiling_le_zero order_trans)
  qed
  show "0 \<le> s" if "0 \<le> amount" and s: "s \<in> set (proratedShares weights amount)"
  proof -
    obtain i where i: "i < length weights" "s = proratedShares weights amount ! i" using s l by (auto simp: in_set_conv_nth)
    then show ?thesis using lr(3)[of i] computedShares_sign(2)[OF nn i(1) that(1)] ly
      by (metis zero_le_floor order_trans)
  qed
  assume "i < length weights"
  then show "\<bar>of_int (proratedShares weights amount ! i) - ?ys ! i\<bar> < 1" using lr(3,4)[of i] ly by linarith
qed

lemma computedShares_floor_sum:
  assumes "weights \<noteq> []" and "\<And>w. w \<in> set weights \<Longrightarrow> 0 \<le> w" and "\<bar>amount\<bar> \<le> MAX_CENTS"
  shows "sum_list (map floor (computedShares weights amount)) \<le> amount"
    and "amount - int (length weights) \<le> sum_list (map floor (computedShares weights amount))"
proof -
  note b = fp.missing_bounds[OF computedShares_near[OF assms]]
  show "sum_list (map floor (computedShares weights amount)) \<le> amount" using b(1) by simp
  have "length (filter (\<lambda>y. of_int \<lfloor>y\<rfloor> \<noteq> y) (computedShares weights amount)) \<le> length weights"
    by (rule order_trans[OF length_filter_le]) (simp add: computedShares_def)
  then show "amount - int (length weights) \<le> sum_list (map floor (computedShares weights amount))"
    using b(2) by linarith
qed

lemma prorateSigned_eq:
  assumes ne: "weights \<noteq> []" and w: "\<And>w. w \<in> set weights \<Longrightarrow> 0 \<le> w \<and> w \<le> MAX_CENTS"
    and t: "sum_list weights \<le> MAX_CENTS" and a: "\<bar>amount\<bar> + int (length weights) \<le> MAX_CENTS"
  shows "prorateSigned weights amount = Inr (proratedShares weights amount)"
proof -
  have nn: "\<And>w. w \<in> set weights \<Longrightarrow> 0 \<le> w" using w by blast
  have a': "\<bar>amount\<bar> \<le> MAX_CENTS" using a by linarith
  note f = proratedShares_facts[OF ne nn a'] and g = computedShares_floor_sum[OF ne nn a']
  have safe: "isSafeInteger v" if "\<bar>v\<bar> \<le> MAX_CENTS" for v using that by (simp add: isSafeInteger_def MAX_CENTS_def)
  have i: "integerE l (- MAX_CENTS) amount = Inr amount" for l using a' safe by (simp add: abs_le_iff)
  have m: "mapE (integerE l 0) weights = Inr (map id weights)" for l
    by (rule mapE_total) (use w safe in \<open>force simp: abs_le_iff\<close>)
  have s: "sumE weights = Inr (sum_list weights)" using sum_list_nonneg_int[OF nn] t by simp
  have fs: "sumE (map floor (computedShares weights amount)) = Inr (sum_list (map floor (computedShares weights amount)))"
    using g a unfolding sumE_eq by linarith
  have ps: "sumE (proratedShares weights amount) = Inr amount" using f(2) a' by simp
  show ?thesis
    unfolding prorateSigned_def using ne
    by (simp add: i m s fs[unfolded computedShares_def] f(3)[unfolded computedShares_def] ps[unfolded proratedShares_def computedShares_def]
        proratedShares_def computedShares_def split_beta del: map_map)
qed



section \<open>No stage raises a price\<close>

lemma prorateSigned_Inr:
  assumes "prorateSigned weights amount = Inr shares"
  shows "length shares = length weights" "sum_list shares = amount"
    "\<lbrakk>amount \<le> 0; s \<in> set shares\<rbrakk> \<Longrightarrow> s \<le> 0"
proof -
  have main: "length shares = length weights \<and> sum_list shares = amount \<and> (amount \<le> 0 \<longrightarrow> (\<forall>s\<in>set shares. s \<le> 0))"
  proof (cases "weights = []")
    case True
    then show ?thesis using assms by (auto simp: prorateSigned_def split: if_splits)
  next
    case False
    have a: "\<bar>amount\<bar> \<le> MAX_CENTS" using assms by (auto simp: prorateSigned_def abs_le_iff)
    obtain ws where ws: "mapE (integerE ''Proration weight'' 0) weights = Inr ws" using assms False by (auto simp: prorateSigned_def)
    have nn: "0 \<le> w" if "w \<in> set weights" for w
      using that mapE_Inr_nth[OF ws] by (auto simp: in_set_conv_nth)
    have "shares = proratedShares weights amount"
      using assms False unfolding prorateSigned_def proratedShares_def computedShares_def
      by (auto simp: Let_def split_beta split: if_splits)
    then show ?thesis using proratedShares_facts(1,2,4)[OF False nn a] by blast
  qed
  then show "length shares = length weights" "sum_list shares = amount" "\<lbrakk>amount \<le> 0; s \<in> set shares\<rbrakk> \<Longrightarrow> s \<le> 0" by blast+
qed

lemma js_round_nonpos: "x \<le> 0 \<Longrightarrow> js_round x \<le> 0"
  by (simp add: js_round_def)

lemma js_round_nonneg: "0 \<le> x \<Longrightarrow> 0 \<le> js_round x"
  by (simp add: js_round_def)

lemma js_round_mono: "x \<le> y \<Longrightarrow> js_round x \<le> js_round y"
  by (simp add: js_round_def floor_mono)

lemma fl_nonpos: "x \<le> 0 \<Longrightarrow> fl x \<le> 0"
  using fl_mono[of x 0] by simp

lemma taxFactor_ge_1: "0 \<le> bps \<Longrightarrow> 1 \<le> taxFactor bps"
  using fl_mono[of 1 "1 + js_div bps 10000"] fl_of_int[of 1] by (simp add: taxFactor_def js_div_def fl_nonneg)

definition lineWf :: "StackLine \<Rightarrow> bool" where
  "lineWf l \<longleftrightarrow> 0 \<le> sl_quantity l \<and> 0 \<le> sl_placedQuantity l \<and> 0 \<le> sl_unitListPrice l \<and> 0 \<le> sl_taxRateBps l
     \<and> sl_unitListPrice l * sl_quantity l \<le> MAX_CENTS \<and> sl_unitListPrice l \<le> MAX_CENTS"

text \<open>The list price per unit after adjustments.\<close>

definition listOf :: "WorkingLine \<Rightarrow> rat" where
  "listOf line = (let l = wl_input line in
     fl (of_int (sl_unitListPrice l) + (if sl_quantity l = 0 then 0 else js_div (sum_list (wl_adjustments line)) (divisorOf l))))"

lemma factsOf_Inr:
  assumes "factsOf line = Inr f"
  defines "l \<equiv> wl_input line"
  shows "0 \<le> listOf line"
    "fa_lineNet f = js_round (fl ((if sl_priceIncludesTax l then fl (listOf line / taxFactor (sl_taxRateBps l)) else listOf line) * of_int (sl_quantity l)))"
    "fa_lineGross f = js_round (fl ((if sl_priceIncludesTax l then listOf line else fl (listOf line * taxFactor (sl_taxRateBps l))) * of_int (sl_quantity l)))"
  using assms by (auto simp: factsOf_def listOf_def Let_def not_less split: if_splits)

lemma factsOf_nonneg:
  assumes "factsOf line = Inr f" "lineWf (wl_input line)"
  shows "0 \<le> fa_lineNet f" "0 \<le> fa_lineGross f"
  using factsOf_Inr[OF assms(1)] assms(2) taxFactor_ge_1[of "sl_taxRateBps (wl_input line)"]
  by (auto simp: lineWf_def intro!: js_round_nonneg fl_nonneg mult_nonneg_nonneg divide_nonneg_nonneg)

lemma listOf_mono:
  assumes "wl_input w = wl_input w'" "sum_list (wl_adjustments w) \<le> sum_list (wl_adjustments w')" "lineWf (wl_input w)"
  shows "listOf w \<le> listOf w'"
  using assms unfolding listOf_def Let_def
  by (auto simp: js_div_def divisorOf_def lineWf_def intro!: fl_mono divide_right_mono)

lemma factsOf_mono:
  assumes f: "factsOf w = Inr f" and f': "factsOf w' = Inr f'"
    and w: "wl_input w = wl_input w'" "sum_list (wl_adjustments w) \<le> sum_list (wl_adjustments w')" "lineWf (wl_input w)"
  shows "fa_lineNet f \<le> fa_lineNet f'" "fa_lineGross f \<le> fa_lineGross f'"
  unfolding factsOf_Inr(2,3)[OF f] factsOf_Inr(2,3)[OF f'] w(1)
  using listOf_mono[OF w] w taxFactor_ge_1[of "sl_taxRateBps (wl_input w)"]
  by (auto simp: lineWf_def intro!: js_round_mono fl_mono mult_right_mono divide_right_mono)

text \<open>Lines as the stages see them: the input line with nonpositive adjustments.\<close>

definition lineOk :: "StackLine \<Rightarrow> WorkingLine \<Rightarrow> bool" where
  "lineOk l w \<longleftrightarrow> wl_input w = l \<and> lineWf l \<and> (\<forall>a\<in>set (wl_adjustments w). a \<le> 0)"

definition linesOk :: "StackLine list \<Rightarrow> WorkingLine list \<Rightarrow> bool" where
  "linesOk ls ws \<longleftrightarrow> list_all2 lineOk ls ws"

definition lineValue :: "StackInput \<Rightarrow> WorkingLine \<Rightarrow> int" where
  "lineValue input w = (case factsOf w of
     Inr f \<Rightarrow> if si_pricesIncludeTax input then fa_lineGross f else fa_lineNet f | Inl _ \<Rightarrow> 0)"

lemma totalsOf_Inr:
  assumes "totalsOf ws = Inr t"
  shows "basisOf input t = sum_list (map (lineValue input) ws)" "\<forall>w\<in>set ws. \<exists>f. factsOf w = Inr f"
proof -
  obtain fs where fs: "mapE factsOf ws = Inr fs" and t: "t = (sum_list (map fa_lineNet fs), sum_list (map fa_lineGross fs))"
    using assms by (auto simp: totalsOf_def)
  have l2: "list_all2 (\<lambda>w f. factsOf w = Inr f) ws fs" using fs by (simp add: mapE_Inr_iff)
  then have "map (lineValue input) ws = map (\<lambda>f. if si_pricesIncludeTax input then fa_lineGross f else fa_lineNet f) fs"
    by (induction rule: list_all2_induct) (auto simp: lineValue_def)
  then show "basisOf input t = sum_list (map (lineValue input) ws)" by (simp add: basisOf_def t)
  show "\<forall>w\<in>set ws. \<exists>f. factsOf w = Inr f" using l2 by (induction rule: list_all2_induct) auto
qed

lemma lineValue_nonneg: "lineOk l w \<Longrightarrow> 0 \<le> lineValue input w"
  using factsOf_nonneg[of w] by (auto simp: lineValue_def lineOk_def split: sum.splits)

lemma linesOk_value_nonneg: "linesOk ls ws \<Longrightarrow> 0 \<le> sum_list (map (lineValue input) ws)"
  unfolding linesOk_def by (induction rule: list_all2_induct) (auto dest: lineValue_nonneg[of _ _ input])

lemma sum_list_nonpos_int: "(\<forall>x\<in>set xs. x \<le> 0) \<Longrightarrow> sum_list xs \<le> (0 :: int)"
  by (induction xs) auto

lemma lineValue_le_bare:
  assumes "lineOk l w" "factsOf w = Inr f" "factsOf (w\<lparr>wl_adjustments := []\<rparr>) = Inr g"
  shows "lineValue input w \<le> lineValue input (w\<lparr>wl_adjustments := []\<rparr>)"
  using factsOf_mono[OF assms(2,3)] assms sum_list_nonpos_int[of "wl_adjustments w"]
  by (auto simp: lineValue_def lineOk_def)

lemma addAdjustment_Inr:
  assumes "addAdjustment input w requested = Inr (w', a)" "lineOk l w" "requested \<le> 0"
  shows "lineOk l w'" "la_amount a = lineValue input w' - lineValue input w"
proof -
  obtain f g where f: "factsOf w = Inr f" and g: "factsOf w' = Inr g"
    and w': "w' = pushAdjustment w (max (- lineBasis w f) requested)"
    and a: "la_amount a = (if si_pricesIncludeTax input then fa_lineGross g - fa_lineGross f else fa_lineNet g - fa_lineNet f)"
    using assms(1) by (auto simp: addAdjustment_def Let_def split del: if_split)
  have "0 \<le> lineBasis w f" using factsOf_nonneg[OF f] assms(2) by (simp add: lineBasis_def lineOk_def)
  then have "max (- lineBasis w f) requested \<le> 0" using assms(3) by simp
  then show "lineOk l w'" using assms(2) by (auto simp: w' lineOk_def pushAdjustment_def)
  show "la_amount a = lineValue input w' - lineValue input w" using f g by (simp add: a lineValue_def)
qed

lemma adjustActive_Inr:
  assumes "adjustActive input ws shares = Inr (ws', as)" "linesOk ls ws" "\<forall>s\<in>set shares. s \<le> 0"
  shows "linesOk ls ws' \<and> sum_list (map la_amount as) = sum_list (map (lineValue input) ws') - sum_list (map (lineValue input) ws)"
  using assms
proof (induction input ws shares arbitrary: ws' as ls rule: adjustActive.induct)
  case (2 input w ws shares)
  obtain l ls' where ls: "ls = l # ls'" "lineOk l w" "linesOk ls' ws" using 2(4) by (cases ls) (auto simp: linesOk_def)
  show ?case
  proof (cases "0 < sl_quantity (wl_input w)")
    case True
    then obtain s ss w' a ws1 as1 where s: "shares = s # ss" and a: "addAdjustment input w s = Inr (w', a)"
      and r: "adjustActive input ws ss = Inr (ws1, as1)" and e: "ws' = w' # ws1" "as = a # as1"
      using 2(3) by (auto split: list.splits)
    have "linesOk ls' ws1 \<and> sum_list (map la_amount as1) = sum_list (map (lineValue input) ws1) - sum_list (map (lineValue input) ws)"
      using 2(1)[OF True s a refl r ls(3)] 2(5) s by simp
    moreover have "s \<le> 0" using 2(5) s by simp
    ultimately show ?thesis using addAdjustment_Inr[OF a ls(2)] by (simp add: ls(1) e linesOk_def)
  next
    case False
    then obtain ws1 where r: "adjustActive input ws shares = Inr (ws1, as)" and e: "ws' = w # ws1" using 2(3) by auto
    show ?thesis using 2(2)[OF False r ls(3) 2(5)] ls by (simp add: e linesOk_def)
  qed
qed (auto simp: linesOk_def)

lemma spread_Inr:
  assumes "spread input ws amount = Inr (ws', as)" "linesOk ls ws" "amount \<le> 0"
  shows "linesOk ls ws' \<and> sum_list (map la_amount as) = sum_list (map (lineValue input) ws') - sum_list (map (lineValue input) ws)"
proof -
  obtain fs :: "Facts list" and shares where p: "prorateSigned (map fa_lineGross fs) amount = Inr shares" and a: "adjustActive input ws shares = Inr (ws', as)"
    using assms(1) unfolding spread_def bindE_Inr_iff by (elim exE conjE)
  show ?thesis using adjustActive_Inr[OF a assms(2)] prorateSigned_Inr(3)[OF p assms(3)] by blast
qed

section \<open>Attribution through the stages\<close>

text \<open>What every stage keeps: well-formed lines, and entries that account for the value lost so far.\<close>

definition appliedSum :: "AppliedPromotion list \<Rightarrow> int" where
  "appliedSum es = sum_list (map ae_amount es)"

definition stackInv :: "StackInput \<Rightarrow> int \<Rightarrow> StackState \<Rightarrow> bool" where
  "stackInv input v st \<longleftrightarrow> linesOk (si_lines input) (st_lines st) \<and>
     appliedSum (st_applied st) = sum_list (map (lineValue input) (st_lines st)) - v"

definition promoOk :: "ResolvedPromotion \<Rightarrow> bool" where
  "promoOk p \<longleftrightarrow> 0 \<le> rp_value p \<and>
     (rp_kind p = KAccountCredit \<longrightarrow> (\<exists>c. rp_credit p = Some c \<and> 0 \<le> cb_availableCents c) \<and> rp_scope p = OrderScope)"

lemma checkPromotions_ok: "checkPromotions ids ps = Inr u \<Longrightarrow> p \<in> set ps \<Longrightarrow> promoOk p"
  by (induction ids ps rule: checkPromotions.induct)
     (auto simp: checkPromotion_def promoOk_def split: if_splits option.splits)

lemma eligible_Inr:
  assumes "eligible input codes promotions p st = Inr (ok, st')"
  shows "st_lines st' = st_lines st" "st_applied st' = st_applied st" "st_accepted st' = st_accepted st"
  using assms by (auto simp: eligible_def Let_def split: if_splits option.splits)

lemma updateEntry_sum:
  assumes "updateEntry i f new es = Inr es'" and "\<And>e e'. f e = Inr e' \<Longrightarrow> ae_amount e' = ae_amount e + d" and "ae_amount new = 0"
  shows "appliedSum es' = appliedSum es + d"
  using assms(1)
proof (induction es arbitrary: es')
  case Nil
  then show ?case using assms(2,3) by (auto simp: appliedSum_def)
next
  case (Cons e es)
  then show ?case using assms(2) by (auto simp: appliedSum_def split: if_splits)
qed

lemma growEntry_amount: "growEntry amount t r as e = Inr e' \<Longrightarrow> ae_amount e' = ae_amount e + amount"
  by (auto simp: growEntry_def)

lemma recordPromotion_Inr:
  assumes "recordPromotion input p amount g as r st = Inr st'"
  shows "st_lines st' = st_lines st" "appliedSum (st_applied st') = appliedSum (st_applied st) + amount"
    "st_accepted st' = rp_id p # st_accepted st"
proof -
  obtain cur es where u: "updateEntry (rp_id p) (growEntry amount (snd cur - g) r as) (newEntry input p) (st_applied st) = Inr es"
    and st': "st' = st\<lparr>st_applied := es, st_accepted := rp_id p # st_accepted st\<rparr>"
    using assms by (auto simp: recordPromotion_def)
  show "appliedSum (st_applied st') = appliedSum (st_applied st) + amount"
    unfolding st' using updateEntry_sum[OF u growEntry_amount] by (simp add: newEntry_def)
qed (use assms in \<open>auto simp: recordPromotion_def\<close>)

lemma percent_nonpos: "\<lbrakk>0 \<le> basis; 0 \<le> v\<rbrakk> \<Longrightarrow> js_round (js_div (- basis * v) 100) \<le> 0"
  by (auto intro!: js_round_nonpos fl_nonpos simp: js_div_def)

lemma basis_nonneg: "\<lbrakk>totalsOf ws = Inr t; linesOk ls ws\<rbrakk> \<Longrightarrow> 0 \<le> basisOf input t"
  using totalsOf_Inr(1)[of ws t input] linesOk_value_nonneg by simp

lemma itemRequested_nonpos: "\<lbrakk>itemRequested p basis = Inr r; promoOk p; 0 \<le> basis\<rbrakk> \<Longrightarrow> r \<le> 0"
  using percent_nonpos[of basis "rp_value p"] by (auto simp: itemRequested_def promoOk_def split: if_splits)

lemma orderRequested_nonpos: "\<lbrakk>orderRequested p basis = Inr r; promoOk p; 0 \<le> basis\<rbrakk> \<Longrightarrow> r \<le> 0"
  using percent_nonpos[of basis "rp_value p"] by (auto simp: orderRequested_def promoOk_def Let_def split: if_splits)

lemma itemStep_inv:
  assumes "itemStep input codes promotions i p st = Inr st'" and inv: "stackInv input v st" and i: "i < length (st_lines st)" and p: "promoOk p"
  shows "stackInv input v st'"
proof (cases "st' = st")
  case False
  let ?w = "st_lines st ! i"
  obtain ok s1 where el: "eligible input codes promotions p st = Inr (ok, s1)" and rest: "if \<not> ok then s1 = st' else
      (\<exists>f t r w' a. factsOf ?w = Inr f \<and> itemRequested p (lineBasis ?w f) = Inr r \<and> addAdjustment input ?w r = Inr (w', a) \<and>
            recordPromotion input p (la_amount a) t [a] r (s1\<lparr>st_lines := (st_lines s1)[i := w']\<rparr>) = Inr st')"
    using assms(1) False unfolding itemStep_def Let_def by (fastforce split: if_splits)
  note e = eligible_Inr[OF el]
  show ?thesis
  proof (cases ok)
    case True
    obtain f t r w' a where f: "factsOf ?w = Inr f" and r: "itemRequested p (lineBasis ?w f) = Inr r"
      and a: "addAdjustment input ?w r = Inr (w', a)"
      and rec: "recordPromotion input p (la_amount a) t [a] r (s1\<lparr>st_lines := (st_lines s1)[i := w']\<rparr>) = Inr st'"
      using rest True by auto
    have l2: "list_all2 lineOk (si_lines input) (st_lines st)" using inv by (simp add: stackInv_def linesOk_def)
    have w: "lineOk (si_lines input ! i) ?w" using l2 i by (simp add: list_all2_conv_all_nth)
    then have b: "0 \<le> lineBasis ?w f" using factsOf_nonneg[OF f] by (simp add: lineBasis_def lineOk_def)
    note A = addAdjustment_Inr[OF a w itemRequested_nonpos[OF r p b]]
    note R = recordPromotion_Inr[OF rec]
    have L: "linesOk (si_lines input) ((st_lines st)[i := w'])"
      using l2 A(1) i unfolding linesOk_def by (auto simp: list_all2_conv_all_nth nth_list_update)
    have V: "sum_list (map (lineValue input) ((st_lines st)[i := w'])) = sum_list (map (lineValue input) (st_lines st)) + la_amount a"
      using i A(2) by (simp add: map_update sum_list_update_int)
    show ?thesis using inv L V R by (simp add: stackInv_def e)
  qed (use rest inv e in \<open>auto simp: stackInv_def\<close>)
qed (use inv in simp)

lemma orderStep_inv:
  assumes "orderStep input codes promotions p st = Inr st'" and inv: "stackInv input v st" and p: "promoOk p"
  shows "stackInv input v st'"
proof (cases "st' = st")
  case False
  obtain ok s1 where el: "eligible input codes promotions p st = Inr (ok, s1)" and rest: "if \<not> ok then s1 = st' else
      (\<exists>t r ws as. totalsOf (st_lines s1) = Inr t \<and> orderRequested p (basisOf input t) = Inr r \<and>
         (if activeLines (st_lines s1) = [] then Inr (st_lines s1, []) else spread input (st_lines s1) r) = Inr (ws, as) \<and>
         recordPromotion input p (sum_list (map la_amount as)) (snd t) as r (s1\<lparr>st_lines := ws\<rparr>) = Inr st')"
    using assms(1) False unfolding orderStep_def by (fastforce split: if_splits)
  note e = eligible_Inr[OF el]
  show ?thesis
  proof (cases ok)
    case True
    obtain t r ws as where t: "totalsOf (st_lines st) = Inr t" and r: "orderRequested p (basisOf input t) = Inr r"
      and s: "(if activeLines (st_lines st) = [] then Inr (st_lines st, []) else spread input (st_lines st) r) = Inr (ws, as)"
      and rec: "recordPromotion input p (sum_list (map la_amount as)) (snd t) as r (s1\<lparr>st_lines := ws\<rparr>) = Inr st'"
      using rest unfolding e by (simp only: True not_True_eq_False if_False) (elim exE conjE)
    have L: "linesOk (si_lines input) (st_lines st)" using inv by (simp add: stackInv_def)
    have "r \<le> 0" by (rule orderRequested_nonpos[OF r p basis_nonneg[OF t L]])
    then have "linesOk (si_lines input) ws \<and> sum_list (map la_amount as) = sum_list (map (lineValue input) ws) - sum_list (map (lineValue input) (st_lines st))"
      using s spread_Inr[OF _ L, of input r ws as] L by (auto split: if_splits)
    then show ?thesis using inv recordPromotion_Inr[OF rec] by (simp add: stackInv_def e)
  qed (use rest inv e in \<open>auto simp: stackInv_def\<close>)
qed (use inv in simp)

lemma stackInv_length: "stackInv input v st \<Longrightarrow> length (st_lines st) = length (si_lines input)"
  by (auto simp: stackInv_def linesOk_def dest: list_all2_lengthD)

lemma itemStage_inv:
  assumes "itemStage input codes promotions st = Inr st'" and "stackInv input v st" and "\<And>p. p \<in> set promotions \<Longrightarrow> promoOk p"
  shows "stackInv input v st'"
proof (rule foldE_invariant[where P = "stackInv input v", OF assms(1)[unfolded itemStage_def] assms(2)])
  fix i s s'
  assume i: "i \<in> set [0..<length (st_lines st)]" and s: "stackInv input v s"
    and step: "foldE (itemStep input codes promotions i) promotions s = Inr s'"
  show "stackInv input v s'"
  proof (rule foldE_invariant[where P = "stackInv input v", OF step s])
    fix p a b
    assume "p \<in> set promotions" "stackInv input v a" "itemStep input codes promotions i p a = Inr b"
    then show "stackInv input v b"
      using itemStep_inv[of input codes promotions i p a b v] i assms(2,3) by (simp add: stackInv_length)
  qed
qed

lemma orderStage_inv:
  assumes "orderStage input codes promotions st = Inr st'" and "stackInv input v st" and "\<And>p. p \<in> set promotions \<Longrightarrow> promoOk p"
  shows "stackInv input v st'"
  by (rule foldE_invariant[where P = "stackInv input v", OF assms(1)[unfolded orderStage_def] assms(2)]) (use orderStep_inv assms(3) in blast)

lemma pointsStage_Inr:
  assumes "pointsStage input ws = Inr (ws', d)" and L: "linesOk ls ws"
  shows "linesOk ls ws'" "d = sum_list (map (lineValue input) ws) - sum_list (map (lineValue input) ws')"
proof -
  obtain t where t: "totalsOf ws = Inr t" and req: "0 \<le> orElse (si_pointsDiscount input) 0"
    and rest: "if min (orElse (si_pointsDiscount input) 0) (basisOf input t) = 0 then ws' = ws \<and> d = 0
      else \<exists>as. spread input ws (- min (orElse (si_pointsDiscount input) 0) (basisOf input t)) = Inr (ws', as) \<and> d = - sum_list (map la_amount as)"
    using assms(1) by (auto simp: pointsStage_def Let_def split: if_splits)
  have "linesOk ls ws' \<and> d = sum_list (map (lineValue input) ws) - sum_list (map (lineValue input) ws')"
  proof (cases "min (orElse (si_pointsDiscount input) 0) (basisOf input t) = 0")
    case False
    then obtain as where s: "spread input ws (- min (orElse (si_pointsDiscount input) 0) (basisOf input t)) = Inr (ws', as)"
      and d: "d = - sum_list (map la_amount as)" using rest by auto
    show ?thesis using spread_Inr[OF s L] req basis_nonneg[OF t L, of input] by (simp add: d)
  qed (use rest L in simp)
  then show "linesOk ls ws'" "d = sum_list (map (lineValue input) ws) - sum_list (map (lineValue input) ws')" by auto
qed

text \<open>Waived shipping is the only thing the shipping stage adds.\<close>

definition shipInv :: "WorkingLine list \<Rightarrow> int \<Rightarrow> StackState \<times> ShippingState \<Rightarrow> bool" where
  "shipInv ws k s \<longleftrightarrow> st_lines (fst s) = ws \<and> appliedSum (st_applied (fst s)) = k + sh_total (snd s)"

lemma waiveEntry_amount: "waiveEntry r old g e = Inr e' \<Longrightarrow> ae_amount e' = ae_amount e + 0"
  by (auto simp: waiveEntry_def Let_def split: if_splits)

lemma shippingStep_inv:
  assumes "shippingStep input codes promotions fg p s = Inr s'" and "shipInv ws k s"
  shows "shipInv ws k s'"
proof (cases "s' = s")
  case False
  obtain st sh where s: "s = (st, sh)" by fastforce
  obtain ok s1 where el: "eligible input codes promotions p st = Inr (ok, s1)" and rest: "if \<not> ok then s' = (s1, sh) else
     (\<exists>g s2 es. recordPromotion input p (- sh_total sh) fg [] (- sh_total sh) s1 = Inr s2 \<and>
        updateEntry (rp_id p) (waiveEntry (sh_final sh \<noteq> None) (sh_total sh) g) (newEntry input p) (st_applied s2) = Inr es \<and>
        s' = (s2\<lparr>st_applied := es\<rparr>, \<lparr>sh_total = 0, sh_final = map_option (map (\<lambda>l. l\<lparr>ss_net := 0, ss_gross := 0\<rparr>)) (sh_final sh)\<rparr>))"
    using assms(1) False unfolding shippingStep_def s Let_def by (fastforce split: if_splits simp: s)
  note e = eligible_Inr[OF el]
  show ?thesis
  proof (cases ok)
    case True
    then obtain g s2 es where r: "recordPromotion input p (- sh_total sh) fg [] (- sh_total sh) s1 = Inr s2"
      and u: "updateEntry (rp_id p) (waiveEntry (sh_final sh \<noteq> None) (sh_total sh) g) (newEntry input p) (st_applied s2) = Inr es"
      and s': "s' = (s2\<lparr>st_applied := es\<rparr>, \<lparr>sh_total = 0, sh_final = map_option (map (\<lambda>l. l\<lparr>ss_net := 0, ss_gross := 0\<rparr>)) (sh_final sh)\<rparr>)"
      using rest by auto
    show ?thesis using assms(2) recordPromotion_Inr(1,2)[OF r] updateEntry_sum[OF u waiveEntry_amount]
      by (simp add: shipInv_def s s' e newEntry_def)
  qed (use rest assms(2) e s in \<open>auto simp: shipInv_def\<close>)
qed (use assms in simp)

lemma openLines_ok:
  "openLines keys ls = Inr ws \<Longrightarrow> linesOk ls ws \<and> map wl_input ws = ls \<and> (\<forall>w\<in>set ws. wl_adjustments w = map sa_amount (sl_priorAdjustments (wl_input w)))"
proof (induction keys ls arbitrary: ws rule: openLines.induct)
  case (2 keys l ls)
  then obtain w ws' where w: "openLine l = Inr w" and ws: "openLines (sl_key l # keys) ls = Inr ws'" "ws = w # ws'"
    and fresh: "\<not> (sl_key l = [] \<or> sl_key l \<in> set keys)" by auto
  obtain as where as: "mapE adjustmentAmount (sl_priorAdjustments l) = Inr as" and w': "w = \<lparr>wl_input = l, wl_adjustments = as\<rparr>"
    and wf: "lineWf l" using w by (auto simp: openLine_def lineWf_def)
  have "list_all2 (\<lambda>x y. adjustmentAmount x = Inr y) (sl_priorAdjustments l) as" using as by (simp add: mapE_Inr_iff)
  then have "as = map sa_amount (sl_priorAdjustments l) \<and> (\<forall>a\<in>set as. a \<le> 0)"
    by (induction rule: list_all2_induct) (auto simp: adjustmentAmount_def split: if_splits)
  then show ?case using 2(1)[of "()" w ws'] fresh w ws wf by (auto simp: linesOk_def lineOk_def w')
qed (simp add: linesOk_def)

section \<open>Properties of the whole calculation\<close>

lemma runStages_Inr:
  assumes "runStages input = Inr run"
  obtains ws v st1 where "openLines [] (si_lines input) = Inr ws" "v = sum_list (map (lineValue input) ws)"
    "totalsOf (map (\<lambda>w. w\<lparr>wl_adjustments := []\<rparr>) ws) = Inr (sn_before run)"
    "stackInv input v st1" "totalsOf (st_lines st1) = Inr (sn_afterPromotions run)"
    "linesOk (si_lines input) (st_lines (sn_state run))"
    "totalsOf (st_lines (sn_state run)) = Inr (sn_final run)"
    "sn_pointsDiscount run = basisOf input (sn_afterPromotions run) - basisOf input (sn_final run)"
    "appliedSum (st_applied (sn_state run)) = basisOf input (sn_afterPromotions run) - v + sh_total (sn_shipping run) - si_shipping input"
proof -
  obtain codes ws t u s1 s2 t2 ws' d t3 st sh where o: "openLines [] (si_lines input) = Inr ws"
    and t: "totalsOf (map (\<lambda>w. w\<lparr>wl_adjustments := []\<rparr>) ws) = Inr t"
    and ch: "checkPromotions [] (sortPromotions (si_promotions input)) = Inr u"
    and i: "itemStage input codes (sortPromotions (si_promotions input)) \<lparr>st_lines = ws, st_applied = [], st_accepted = [], st_reasons = Map.empty\<rparr> = Inr s1"
    and or: "orderStage input codes (sortPromotions (si_promotions input)) s1 = Inr s2"
    and t2: "totalsOf (st_lines s2) = Inr t2" and pt: "pointsStage input (st_lines s2) = Inr (ws', d)" and t3: "totalsOf ws' = Inr t3"
    and sh: "shippingStage input codes (sortPromotions (si_promotions input)) (snd t3) (s2\<lparr>st_lines := ws'\<rparr>) = Inr (st, sh)"
    and run: "run = \<lparr>sn_codes = codes, sn_promotions = sortPromotions (si_promotions input), sn_before = t, sn_afterPromotions = t2,
             sn_final = t3, sn_pointsDiscount = d, sn_state = st, sn_shipping = sh\<rparr>"
    using assms unfolding runStages_def Let_def by (auto simp del: sumE_eq)
  define v where "v = sum_list (map (lineValue input) ws)"
  have "stackInv input v \<lparr>st_lines = ws, st_applied = [], st_accepted = [], st_reasons = Map.empty\<rparr>"
    using openLines_ok[OF o] by (simp add: stackInv_def appliedSum_def v_def)
  then have inv: "stackInv input v s2"
    using orderStage_inv[OF or itemStage_inv[OF i]] checkPromotions_ok[OF ch] by blast
  note P = pointsStage_Inr[OF pt, of "si_lines input"]
  have L: "linesOk (si_lines input) (st_lines s2)" using inv by (simp add: stackInv_def)
  have S: "shipInv ws' (appliedSum (st_applied s2) - si_shipping input) (st, sh)"
    by (rule foldE_invariant[where P = "shipInv ws' (appliedSum (st_applied s2) - si_shipping input)", OF sh[unfolded shippingStage_def]])
       (simp add: shipInv_def, rule shippingStep_inv)
  show thesis
  proof (rule that[OF o v_def _ inv])
    show "appliedSum (st_applied (sn_state run)) = basisOf input (sn_afterPromotions run) - v + sh_total (sn_shipping run) - si_shipping input"
      using S inv totalsOf_Inr(1)[OF t2, of input] by (simp add: run shipInv_def stackInv_def)
  qed (use t t2 t3 S P L totalsOf_Inr(1)[OF t2, of input] totalsOf_Inr(1)[OF t3, of input] in \<open>auto simp: run shipInv_def\<close>)
qed

lemma calculate_Inr:
  assumes "calculatePromotionStack digest input = Inr r"
  obtains run results where "runStages input = Inr run" "ot_subtotal r = basisOf input (sn_before run)"
    "ot_discountTotal r = basisOf input (sn_before run) - basisOf input (sn_final run)"
    "ot_shippingTotal r = sh_total (sn_shipping run)" "ot_pointsDiscount r = sn_pointsDiscount run"
    "ps_applied r = st_applied (sn_state run)" "mapE lineResult (st_lines (sn_state run)) = Inr results" "ot_lines r = map fst results"
    "selectCredit input (sn_codes run) (sn_promotions run) (sn_state run) = Inr (ps_selectedCredit r)"
    "ps_resolvedPromotions r = sn_promotions run"
proof -
  obtain run res h where run: "runStages input = Inr run" and res: "stackResult input run = Inr res" and r: "r = res\<lparr>ps_quoteHash := h\<rparr>"
    using assms by (auto simp: calculatePromotionStack_def)
  obtain results credit where m: "mapE lineResult (st_lines (sn_state run)) = Inr results"
    and c: "selectCredit input (sn_codes run) (sn_promotions run) (sn_state run) = Inr credit"
    and f: "ot_lines res = map fst results" "ps_selectedCredit res = credit" "ot_subtotal res = basisOf input (sn_before run)"
      "ot_discountTotal res = basisOf input (sn_before run) - basisOf input (sn_final run)"
      "ot_shippingTotal res = sh_total (sn_shipping run)" "ot_pointsDiscount res = sn_pointsDiscount run" "ps_applied res = st_applied (sn_state run)"
      "ps_resolvedPromotions res = sn_promotions run"
    using res unfolding stackResult_def Let_def by (auto split del: if_split)
  show thesis by (rule that[OF run _ _ _ _ _ m]) (simp_all add: r f c)
qed

lemma bare_value_ge:
  assumes "linesOk ls ws" "totalsOf ws = Inr t" "totalsOf (map (\<lambda>w. w\<lparr>wl_adjustments := []\<rparr>) ws') = Inr b" "map wl_input ws' = ls"
  shows "basisOf input t \<le> basisOf input b"
proof -
  have bare: "map (\<lambda>w. w\<lparr>wl_adjustments := []\<rparr>) ws' = map (\<lambda>l. \<lparr>wl_input = l, wl_adjustments = []\<rparr>) ls"
    unfolding assms(4)[symmetric] by simp
  have l: "length ws = length ls" using assms(1) by (auto simp: linesOk_def dest: list_all2_lengthD)
  have "sum_list (map (lineValue input) ws) \<le> sum_list (map (lineValue input) (map (\<lambda>l. \<lparr>wl_input = l, wl_adjustments = []\<rparr>) ls))"
  proof (rule sum_list_mono_nth)
    fix i assume "i < length (map (lineValue input) ws)"
    then have i: "i < length ws" "i < length ls" using l by simp_all
    have ok: "lineOk (ls ! i) (ws ! i)" using assms(1) i by (simp add: linesOk_def list_all2_conv_all_nth)
    have w: "(ws ! i)\<lparr>wl_adjustments := []\<rparr> = \<lparr>wl_input = ls ! i, wl_adjustments = []\<rparr>" using ok by (simp add: lineOk_def)
    obtain f where f: "factsOf (ws ! i) = Inr f" using totalsOf_Inr(2)[OF assms(2)] i by force
    obtain g where "factsOf \<lparr>wl_input = ls ! i, wl_adjustments = []\<rparr> = Inr g"
      using totalsOf_Inr(2)[OF assms(3)] i unfolding bare by (metis length_map nth_map nth_mem)
    then have g: "factsOf ((ws ! i)\<lparr>wl_adjustments := []\<rparr>) = Inr g" unfolding w .
    show "map (lineValue input) ws ! i \<le> map (lineValue input) (map (\<lambda>l. \<lparr>wl_input = l, wl_adjustments = []\<rparr>) ls) ! i"
      using lineValue_le_bare[OF ok f g, of input] i w by simp
  qed (simp add: l)
  then show ?thesis using totalsOf_Inr(1)[OF assms(2), of input] totalsOf_Inr(1)[OF assms(3), of input] by (simp add: bare)
qed

lemma js_round_int: "js_round (of_int n) = n"
  unfolding js_round_def by (rule floor_unique) simp_all

lemma lineBasis_le_list:
  assumes ok: "lineOk l w" and f: "factsOf w = Inr f"
  shows "0 \<le> lineBasis w f" "lineBasis w f \<le> sl_unitListPrice l * sl_quantity l"
proof -
  have l: "wl_input w = l" "lineWf l" using ok by (simp_all add: lineOk_def)
  show "0 \<le> lineBasis w f" using factsOf_nonneg[OF f] l by (simp add: lineBasis_def)
  have le: "listOf w \<le> of_int (sl_unitListPrice l)"
  proof -
    have "listOf w \<le> listOf (w\<lparr>wl_adjustments := []\<rparr>)"
      using ok sum_list_nonpos_int[of "wl_adjustments w"] by (intro listOf_mono) (auto simp: lineOk_def)
    also have "\<dots> = of_int (sl_unitListPrice l)" using l(2) by (simp add: listOf_def l(1) js_div_def fl_of_int lineWf_def MAX_CENTS_def)
    finally show ?thesis .
  qed
  have "lineBasis w f = js_round (fl (listOf w * of_int (sl_quantity l)))"
    using factsOf_Inr(2,3)[OF f] l(1) by (simp add: lineBasis_def)
  also have "\<dots> \<le> js_round (fl (of_int (sl_unitListPrice l * sl_quantity l)))"
    using le l(2) by (auto simp: lineWf_def intro!: js_round_mono fl_mono mult_right_mono)
  also have "\<dots> = sl_unitListPrice l * sl_quantity l"
    using l(2) js_round_int[of "sl_unitListPrice l * sl_quantity l"] by (subst fl_of_int) (auto simp: lineWf_def MAX_CENTS_def)
  finally show "lineBasis w f \<le> sl_unitListPrice l * sl_quantity l" .
qed

text \<open>A concrete order: one line of two units at 10.00 with 50\% tax on top, 15\% and
  free shipping on the order, a code for an account credit of 5.00 and 1.00 in points.\<close>

definition demoLine :: StackLine where
  "demoLine = \<lparr>sl_key = ''l1'', sl_quantity = 2, sl_placedQuantity = 2, sl_unitListPrice = 1000,
     sl_priceIncludesTax = False, sl_taxRateBps = 5000, sl_priorAdjustments = []\<rparr>"

definition demoCredit :: ResolvedPromotion where
  "demoCredit = \<lparr>rp_id = ''c'', rp_code = Some ''GIFT'', rp_kind = KAccountCredit, rp_scope = OrderScope, rp_value = 0,
     rp_priority = 1, rp_sequence = 2, rp_freeShipping = False, rp_conditions = None,
     rp_credit = Some \<lparr>cb_accountId = ''acct'', cb_availableCents = 500\<rparr>\<rparr>"

definition demoPercent :: ResolvedPromotion where
  "demoPercent = \<lparr>rp_id = ''p'', rp_code = None, rp_kind = KPercentage, rp_scope = OrderScope, rp_value = 15,
     rp_priority = 0, rp_sequence = 1, rp_freeShipping = True, rp_conditions = None, rp_credit = None\<rparr>"

definition demoStack :: StackInput where
  "demoStack = \<lparr>si_lines = [demoLine], si_promotions = [demoCredit, demoPercent], si_couponCodes = [''gift'', ''GIFT''],
     si_phase = AddingItems, si_currency = ''EUR'', si_pricesIncludeTax = False, si_shipping = 400,
     si_shippingTaxRateBps = 5000, si_shippingIncludesTax = False, si_activeVerifications = [], si_items = None,
     si_pointsDiscount = Some 100, si_adjustments = None, si_retainedShipping = None\<rparr>"

lemma fl_numeral:
  "fl 1 = 1" "numeral k \<le> (2 ^ 53 :: int) \<Longrightarrow> fl (numeral k) = numeral k" "numeral k \<le> (2 ^ 53 :: int) \<Longrightarrow> fl (- numeral k) = - numeral k"
  "fl (1 / 2) = 1 / 2" "numeral k \<le> (2 ^ 53 :: int) \<Longrightarrow> fl (numeral k / 2) = numeral k / 2"
  using fl_of_int[of 1] fl_of_int[of "numeral k"] fl_of_int[of "- numeral k"] fl_half_int[of 1] fl_half_int[of "numeral k"] by simp_all

lemma js_round_numeral: "js_round 0 = 0" "js_round (numeral k) = numeral k" "js_round (- numeral k) = - numeral k"
  using js_round_int[of 0] js_round_int[of "numeral k"] js_round_int[of "- numeral k"] by simp_all

definition demoAt :: "int list \<Rightarrow> WorkingLine" where
  "demoAt as = \<lparr>wl_input = demoLine, wl_adjustments = as\<rparr>"

lemmas demo_eval = fl_numeral js_round_numeral js_div_def MAX_CENTS_def isSafeInteger_def sumE_def integerE_def rounded_def taxFactor_def

lemma demo_facts:
  "factsOf (demoAt []) = Inr \<lparr>fa_lineNet = 2000, fa_lineGross = 3000, fa_unitNet = 1000, fa_unitGross = 1500\<rparr>"
  "factsOf (demoAt [- 300]) = Inr \<lparr>fa_lineNet = 1700, fa_lineGross = 2550, fa_unitNet = 850, fa_unitGross = 1275\<rparr>"
  "factsOf (demoAt [- 300, - 500]) = Inr \<lparr>fa_lineNet = 1200, fa_lineGross = 1800, fa_unitNet = 600, fa_unitGross = 900\<rparr>"
  "factsOf (demoAt [- 300, - 500, - 100]) = Inr \<lparr>fa_lineNet = 1100, fa_lineGross = 1650, fa_unitNet = 550, fa_unitGross = 825\<rparr>"
  by (simp_all add: factsOf_def demoAt_def demoLine_def divisorOf_def demo_eval)

lemma demo_prorate:
  "prorateSigned [1, 1] (- 300) = Inr [- 150, - 150]" "prorateSigned [1, 1] (- 500) = Inr [- 250, - 250]"
  "prorateSigned [1, 1] (- 100) = Inr [- 50, - 50]"
  "prorateSigned [3000] (- 300) = Inr [- 300]" "prorateSigned [2550] (- 500) = Inr [- 500]" "prorateSigned [1800] (- 100) = Inr [- 100]"
  by (simp_all add: prorateSigned_def largestRemainder_def remainderOrder_def demo_eval)

lemma demo_source:
  "sourceDiscounts demoLine (- 300) = Inr (- 300, - 450)" "sourceDiscounts demoLine (- 500) = Inr (- 500, - 750)"
  "sourceDiscounts demoLine (- 100) = Inr (- 100, - 150)"
  by (simp_all add: sourceDiscounts_def demoLine_def divisorOf_def demo_eval)

lemma demo_requested: "orderRequested demoPercent 2000 = Inr (- 300)" "orderRequested demoCredit 1700 = Inr (- 500)"
  by (simp_all add: orderRequested_def demoPercent_def demoCredit_def demo_eval)

lemma demo_checks: "checkContext demoStack = Inr ()" "checkPromotions [] [demoPercent, demoCredit] = Inr ()"
  "checkPriorAdjustments demoStack = Inr ()" "sortPromotions [demoCredit, demoPercent] = [demoPercent, demoCredit]"
  "canonicalCouponCodes [''gift'', ''GIFT''] = Inr [''gift'']" "openLines [] [demoLine] = Inr [demoAt []]"
  by code_simp+

lemma demo_bare: "(demoAt as)\<lparr>wl_adjustments := bs\<rparr> = demoAt bs" by (simp add: demoAt_def)

lemma demo_push: "pushAdjustment (demoAt as) s = demoAt (if s = 0 then as else as @ [s])" by (simp add: pushAdjustment_def demoAt_def)

lemma demo_input [simp]: "wl_input (demoAt as) = demoLine" "wl_adjustments (demoAt as) = as" "divisorOf demoLine = 2" "sl_unitListPrice demoLine = 1000" "sl_quantity demoLine = 2" "sl_key demoLine = ''l1''" "sl_priceIncludesTax demoLine = False"
  "si_pricesIncludeTax demoStack = False" by (simp_all add: divisorOf_def demoAt_def demoLine_def demoStack_def)

lemma demo_totals:
  "totalsOf [demoAt []] = Inr (2000, 3000)" "totalsOf [demoAt [- 300]] = Inr (1700, 2550)" "totalsOf [demoAt [- 300, - 500]] = Inr (1200, 1800)"
  "totalsOf [demoAt [- 300, - 500, - 100]] = Inr (1100, 1650)"
  by (simp_all add: totalsOf_def demo_facts demo_eval)

lemma demo_spread:
  "spread demoStack [demoAt []] (- 300) = Inr ([demoAt [- 300]], [\<lparr>la_lineKey = ''l1'', la_amount = - 300, la_units = [- 150, - 150],
     la_sourceAdjustmentAmount = - 300, la_sourceUnits = [- 150, - 150], la_sourceDiscountAmount = - 300, la_sourceDiscountAmountWithTax = - 450\<rparr>])"
  "spread demoStack [demoAt [- 300]] (- 500) = Inr ([demoAt [- 300, - 500]], [\<lparr>la_lineKey = ''l1'', la_amount = - 500, la_units = [- 250, - 250],
     la_sourceAdjustmentAmount = - 500, la_sourceUnits = [- 250, - 250], la_sourceDiscountAmount = - 500, la_sourceDiscountAmountWithTax = - 750\<rparr>])"
  "spread demoStack [demoAt [- 300, - 500]] (- 100) = Inr ([demoAt [- 300, - 500, - 100]], [\<lparr>la_lineKey = ''l1'', la_amount = - 100, la_units = [- 50, - 50],
     la_sourceAdjustmentAmount = - 100, la_sourceUnits = [- 50, - 50], la_sourceDiscountAmount = - 100, la_sourceDiscountAmountWithTax = - 150\<rparr>])"
  by (simp_all add: spread_def activeLines_def addAdjustment_def demo_facts demo_prorate demo_source demo_push lineBasis_def numeral_2_eq_2)


lemma demo_lower: "toLowerCase ''GIFT'' = ''gift''" "toLowerCase ''gift'' = ''gift''"
  by code_simp+

lemma demo_eligible:
  assumes "st_lines st = [demoAt as]" "totalsOf [demoAt as] = Inr t" "0 \<le> fst t" "0 \<le> snd t" "fst t \<le> 9000" "snd t \<le> 9000"
  shows "eligible demoStack [''gift''] [demoPercent, demoCredit] demoPercent st = Inr (True, st)"
    "eligible demoStack [''gift''] [demoPercent, demoCredit] demoCredit st = Inr (True, st)"
  using assms by (simp_all add: eligible_def demoPercent_def demoCredit_def codeMatches_def demo_lower
      evaluatePromotionConditions_def contextOk_def stackContext_def orElse_def demoStack_def safeNonneg_def isSafeInteger_def evalValid_def)

definition demoRun :: StackRun where
  "demoRun = projr (runStages demoStack)"

lemma demo_simps [simp]: "si_lines demoStack = [demoLine]" "si_promotions demoStack = [demoCredit, demoPercent]"
  "si_couponCodes demoStack = [''gift'', ''GIFT'']" "si_shipping demoStack = 400" "si_shippingIncludesTax demoStack = False"
  "si_shippingTaxRateBps demoStack = 5000" "si_pointsDiscount demoStack = Some 100" "si_adjustments demoStack = None"
  "si_retainedShipping demoStack = None" "rp_scope demoPercent = OrderScope" "rp_kind demoPercent = KPercentage"
  "rp_scope demoCredit = OrderScope" "rp_kind demoCredit = KAccountCredit" "rp_freeShipping demoCredit = False" "rp_freeShipping demoPercent"
  "rp_id demoPercent = ''p''" "rp_id demoCredit = ''c''"
  by (simp_all add: demoStack_def demoPercent_def demoCredit_def)

lemmas demo_stage = itemStage_def itemStep_def orderStage_def orderStep_def pointsStage_def shippingStage_def shippingStep_def
  recordPromotion_def growEntry_def newEntry_def waiveEntry_def shippingGrossOf_def basisOf_def activeLines_def orElse_def
  demo_totals demo_requested demo_spread demo_eligible demo_eval

lemma demo_run: "runStages demoStack = Inr demoRun"
  "sn_before demoRun = (2000, 3000)" "sn_final demoRun = (1100, 1650)" "sn_pointsDiscount demoRun = 100" "sh_total (sn_shipping demoRun) = 0"
  "map ae_amount (st_applied (sn_state demoRun)) = [- 700, - 500]"
  unfolding demoRun_def runStages_def demo_simps demo_checks Let_def
  by (simp_all add: demo_checks demo_bare demo_stage)

lemma demo_result:
  "\<exists>r. calculatePromotionStack (\<lambda>_. ''h'') demoStack = Inr r \<and> ot_subtotal r = 2000 \<and> ot_discountTotal r = 900
     \<and> ot_pointsDiscount r = 100 \<and> ot_shippingTotal r = 0 \<and> ot_grandTotal r = 1650
     \<and> map_option sd_appliedAmount (ps_selectedCredit r) = Some 500"
  unfolding calculatePromotionStack_def runStages_def demo_simps demo_checks Let_def
  by (simp add: demo_checks demo_bare demo_stage stackResult_def shippingNetOf_def adjustmentSums_def selectCredit_def selectedPromotion_def
      List.map_filter_def codeMatches_def demo_lower entryOf_def creditUnits_def lineResult_def demo_facts promotionQuoteHash_def quoteEntry_def lineIndex_def Let_def lineBasis_def numeral_2_eq_2
      demoCredit_def[THEN arg_cong[where f = rp_code]] demoPercent_def[THEN arg_cong[where f = rp_code]] demoCredit_def[THEN arg_cong[where f = rp_credit]] )

lemma lineResult_Inr:
  "\<lbrakk>lineResult w = Inr x; factsOf w = Inr g\<rbrakk> \<Longrightarrow> lt_lineSubtotal (fst x) = sl_unitListPrice (wl_input w) * sl_quantity (wl_input w)
     \<and> lt_lineTotal (fst x) = lineBasis w g \<and> lt_lineDiscount (fst x) = lt_lineSubtotal (fst x) - lineBasis w g"
  by (auto simp: lineResult_def Let_def)

text \<open>C15: The promotion stack never raises a price and never discounts below zero: whenever
  the calculation succeeds, the discount total lies between zero and the subtotal, and on
  every line the discount lies between zero and the line's list value, whatever the
  promotions, credits and points, and although every step is computed in floating point.\<close>

theorem stack_discount_bounds:
  assumes "calculatePromotionStack digest input = Inr r"
  shows "0 \<le> ot_discountTotal r \<and> ot_discountTotal r \<le> ot_subtotal r
     \<and> (\<forall>l\<in>set (ot_lines r). 0 \<le> lt_lineDiscount l \<and> lt_lineDiscount l \<le> lt_lineSubtotal l \<and> lt_lineTotal l = lt_lineSubtotal l - lt_lineDiscount l)"
proof -
  obtain run results where run: "runStages input = Inr run" and sub: "ot_subtotal r = basisOf input (sn_before run)"
    and disc: "ot_discountTotal r = basisOf input (sn_before run) - basisOf input (sn_final run)"
    and m: "mapE lineResult (st_lines (sn_state run)) = Inr results" and lines: "ot_lines r = map fst results"
    by (rule calculate_Inr[OF assms])
  obtain ws v st1 where o: "openLines [] (si_lines input) = Inr ws"
    and b: "totalsOf (map (\<lambda>w. w\<lparr>wl_adjustments := []\<rparr>) ws) = Inr (sn_before run)"
    and L: "linesOk (si_lines input) (st_lines (sn_state run))" and f: "totalsOf (st_lines (sn_state run)) = Inr (sn_final run)"
    by (rule runStages_Inr[OF run])
  have "map wl_input ws = si_lines input" using openLines_ok[OF o] by blast
  then have "basisOf input (sn_final run) \<le> basisOf input (sn_before run)" by (rule bare_value_ge[OF L f b])
  moreover have "0 \<le> lt_lineDiscount l \<and> lt_lineDiscount l \<le> lt_lineSubtotal l \<and> lt_lineTotal l = lt_lineSubtotal l - lt_lineDiscount l"
    if l: "l \<in> set (ot_lines r)" for l
  proof -
    obtain i where i: "i < length results" "l = fst (results ! i)" using l lines by (auto simp: in_set_conv_nth)
    let ?w = "st_lines (sn_state run) ! i"
    have n: "i < length (st_lines (sn_state run))" using i mapE_Inr_length[OF m] by simp
    have ok: "lineOk (wl_input ?w) ?w" using L n by (auto simp: linesOk_def list_all2_conv_all_nth lineOk_def)
    obtain g where g: "factsOf ?w = Inr g" and r: "lineResult ?w = Inr (results ! i)"
      using mapE_Inr_nth[OF m n] by (auto simp: lineResult_def Let_def)
    show ?thesis using lineBasis_le_list[OF ok g] lineResult_Inr[OF r g] i by simp
  qed
  ultimately show ?thesis using basis_nonneg[OF f L, of input] by (simp add: sub disc)
qed

theorem stack_discount_bounds_witness:
  "\<exists>r. calculatePromotionStack (\<lambda>_. ''h'') demoStack = Inr r \<and> ot_discountTotal r = 900 \<and> 0 \<le> ot_discountTotal r \<and> ot_discountTotal r \<le> ot_subtotal r"
  using demo_result stack_discount_bounds[of "\<lambda>_. ''h''" demoStack] by blast



lemma creditUnits_Inr:
  "creditUnits e w = Inr (k, us) \<Longrightarrow> k = sl_key (wl_input w) \<and> length us = nat (divisorOf (wl_input w)) \<and> (\<forall>u\<in>set us. 0 \<le> u)"
  by (auto simp: creditUnits_def Let_def list_ex_iff split: if_splits option.splits) (meson not_less)

lemma canonicalFrom_subset: "canonicalFrom seen codes = Inr cs \<Longrightarrow> set cs \<subseteq> set codes"
  by (induction seen codes arbitrary: cs rule: canonicalFrom.induct) (auto split: if_splits)

lemma runStages_codes:
  "runStages input = Inr run \<Longrightarrow> canonicalCouponCodes (si_couponCodes input) = Inr (sn_codes run) \<and> set (sn_promotions run) = set (si_promotions input)"
  by (auto simp: runStages_def Let_def sortPromotions_def)

text \<open>C34: A selected account credit is the credit of a promotion whose code the customer
  entered; the amount is at least one cent and within the account's budget; it is allocated
  to every line in order, one nonnegative share per purchased unit, and the shares sum up
  to the amount.\<close>

theorem stack_selected_credit:
  assumes "calculatePromotionStack digest input = Inr r" and "ps_selectedCredit r = Some c"
  shows "(\<exists>p\<in>set (si_promotions input). \<exists>b. rp_kind p = KAccountCredit \<and> rp_id p = sd_promotionId c \<and> rp_credit p = Some b
       \<and> cb_accountId b = sd_accountId c \<and> 1 \<le> sd_appliedAmount c \<and> sd_appliedAmount c \<le> cb_availableCents b
       \<and> (\<exists>code\<in>set (si_couponCodes input). codeMatches code p))
     \<and> list_all2 (\<lambda>l (k, us). k = sl_key l \<and> length us = nat (max (sl_placedQuantity l) (sl_quantity l)) \<and> (\<forall>u\<in>set us. 0 \<le> u))
         (si_lines input) (sd_allocation c)
     \<and> sum_list (concat (map snd (sd_allocation c))) = sd_appliedAmount c"
proof -
  obtain run where run: "runStages input = Inr run"
    and sel: "selectCredit input (sn_codes run) (sn_promotions run) (sn_state run) = Inr (Some c)"
    using calculate_Inr[OF assms(1)] assms(2) by metis
  obtain L: "linesOk (si_lines input) (st_lines (sn_state run))" by (rule runStages_Inr[OF run])
  obtain p where p: "selectedPromotion (sn_codes run) (sn_promotions run) = Some p"
    using sel by (auto simp: selectCredit_def split: option.splits)
  obtain e b where eb: "entryOf (sn_state run) p = Some e" "rp_credit p = Some b"
    using sel p by (auto simp: selectCredit_def split: option.splits)
  obtain al where al: "mapE (creditUnits e) (st_lines (sn_state run)) = Inr al"
    and c: "1 \<le> sd_appliedAmount c" "sd_appliedAmount c \<le> cb_availableCents b" "sum_list (concat (map snd al)) = sd_appliedAmount c"
      "sd_accountId c = cb_accountId b" "sd_promotionId c = rp_id p" "sd_allocation c = al"
    using sel by (auto simp: selectCredit_def p eb Let_def)
  obtain ps where ps: "List.map_filter (\<lambda>code. find (\<lambda>p. rp_kind p = KAccountCredit \<and> codeMatches code p) (sn_promotions run)) (sn_codes run) = p # ps"
    using p by (auto simp: selectedPromotion_def split: list.splits)
  have "p \<in> set (List.map_filter (\<lambda>code. find (\<lambda>p. rp_kind p = KAccountCredit \<and> codeMatches code p) (sn_promotions run)) (sn_codes run))"
    unfolding ps by simp
  then obtain code where "code \<in> set (sn_codes run)" "find (\<lambda>p. rp_kind p = KAccountCredit \<and> codeMatches code p) (sn_promotions run) = Some p"
    by (auto simp: List.map_filter_def)
  then have pin: "code \<in> set (si_couponCodes input)" "p \<in> set (si_promotions input)" "rp_kind p = KAccountCredit" "codeMatches code p"
    using runStages_codes[OF run] canonicalFrom_subset unfolding canonicalCouponCodes_def by (auto dest!: find_Some_in_set)
  have "list_all2 (\<lambda>l (k, us). k = sl_key l \<and> length us = nat (max (sl_placedQuantity l) (sl_quantity l)) \<and> (\<forall>u\<in>set us. 0 \<le> u)) (si_lines input) al"
    unfolding list_all2_conv_all_nth
  proof (intro conjI allI impI)
    have l: "length (si_lines input) = length (st_lines (sn_state run))" using L by (auto simp: linesOk_def dest: list_all2_lengthD)
    then show "length (si_lines input) = length al" using mapE_Inr_length[OF al] by simp
    fix i assume "i < length (si_lines input)"
    then have i: "i < length (st_lines (sn_state run))" using l by simp
    have "wl_input (st_lines (sn_state run) ! i) = si_lines input ! i"
      using L i l by (auto simp: linesOk_def list_all2_conv_all_nth lineOk_def)
    then show "case al ! i of (k, us) \<Rightarrow> k = sl_key (si_lines input ! i) \<and> length us = nat (max (sl_placedQuantity (si_lines input ! i)) (sl_quantity (si_lines input ! i))) \<and> (\<forall>u\<in>set us. 0 \<le> u)"
      using mapE_Inr_nth[OF al i] creditUnits_Inr[of e "st_lines (sn_state run) ! i"] by (auto simp: divisorOf_def split: prod.splits)
  qed
  then show ?thesis using c eb pin by auto
qed

theorem stack_selected_credit_witness:
  "\<exists>r c. calculatePromotionStack (\<lambda>_. ''h'') demoStack = Inr r \<and> ps_selectedCredit r = Some c \<and> sd_appliedAmount c = 500
     \<and> sum_list (concat (map snd (sd_allocation c))) = sd_appliedAmount c"
proof -
  obtain r c where r: "calculatePromotionStack (\<lambda>_. ''h'') demoStack = Inr r" "ps_selectedCredit r = Some c" "sd_appliedAmount c = 500"
    using demo_result by auto
  then show ?thesis using stack_selected_credit[OF r(1,2)] by blast
qed

end
