(* ===== verification/Loyalty.thy ===== *)
theory Loyalty
  imports Coupon
begin

text \<open>
  Loyalty points (\<open>money/loyalty.ts\<close>): what an order earns, what a redemption buys and
  costs, proportional reversal targets, the first-in-first-out lots that decide which
  points have expired, and product multipliers. Points and cents are integers; quotients
  are IEEE-754 quotients, rounded down, up or half up. Times are milliseconds. The theorems:
  rounded-down and rounded-up quotients are exact, a redemption never spends more than
  asked for and costs the least number of points that buys its discount, repeated partial
  reversals converge, and expired points are exactly what unspent expired lots hold.
\<close>

section \<open>Settings\<close>

record ProductMultiplier =
  pm_productId :: string
  pm_multiplier :: rat

record LoyaltySettings =
  lo_enabled :: bool
  lo_earnRatePerDollar :: int
  lo_pointsPerDollarOff :: int
  lo_minRedeemPoints :: int
  lo_maxRedeemPercentOfSubtotal :: "int option"
  lo_expiryDays :: "int option"
  lo_reviewBonusPoints :: int
  lo_reviewBonusVerifiedOnly :: bool
  lo_signupBonusPoints :: int
  lo_signupBonusSince :: "string option"
  lo_firstOrderBonusPoints :: int
  lo_birthdayBonusPoints :: int
  lo_productMultipliers :: "ProductMultiplier list"

definition DEFAULT_LOYALTY_SETTINGS :: LoyaltySettings where
  "DEFAULT_LOYALTY_SETTINGS =
     \<lparr>lo_enabled = False, lo_earnRatePerDollar = 1, lo_pointsPerDollarOff = 10, lo_minRedeemPoints = 0,
      lo_maxRedeemPercentOfSubtotal = None, lo_expiryDays = None, lo_reviewBonusPoints = 25,
      lo_reviewBonusVerifiedOnly = True, lo_signupBonusPoints = 0, lo_signupBonusSince = None,
      lo_firstOrderBonusPoints = 0, lo_birthdayBonusPoints = 0, lo_productMultipliers = []\<rparr>"

text \<open>The schema, field by field; \<open>None\<close> is a failed parse.\<close>

definition zInt :: "int \<Rightarrow> int \<Rightarrow> json option \<Rightarrow> int option" where
  "zInt lo hi v = (case v of
       Some (JNum r) \<Rightarrow> (case safeInt (Some r) of
           Some n \<Rightarrow> if lo \<le> n \<and> n \<le> hi then Some n else None
         | None \<Rightarrow> None)
     | _ \<Rightarrow> None)"

definition zNullable :: "(json option \<Rightarrow> 'a option) \<Rightarrow> json option \<Rightarrow> 'a option option" where
  "zNullable p v = (if v = Some JNull then Some None else map_option Some (p v))"

definition zBool :: "json option \<Rightarrow> bool option" where
  "zBool v = (case v of Some (JBool b) \<Rightarrow> Some b | _ \<Rightarrow> None)"

definition hexDigit :: "char \<Rightarrow> bool" where
  "hexDigit c \<longleftrightarrow> (let n = of_char c :: int in (48 \<le> n \<and> n \<le> 57) \<or> (97 \<le> n \<and> n \<le> 102) \<or> (65 \<le> n \<and> n \<le> 70))"

definition uuidText :: "string \<Rightarrow> bool" where
  "uuidText s \<longleftrightarrow> length s = 36 \<and>
     list_all (\<lambda>(i, c). if i \<in> {8, 13, 18, 23} then c = CHR ''-'' else hexDigit c) (enumerate 0 s)"

definition zMultiplier :: "json \<Rightarrow> ProductMultiplier option" where
  "zMultiplier v = (case v of
       JObj kvs \<Rightarrow>
         (case (map_of kvs ''productId'', map_of kvs ''multiplier'') of
            (Some (JStr p), Some (JNum m)) \<Rightarrow>
              if set (map fst kvs) \<subseteq> {''productId'', ''multiplier''} \<and> uuidText p \<and> 1 \<le> m \<and> m \<le> 100
              then Some \<lparr>pm_productId = p, pm_multiplier = m\<rparr> else None
          | _ \<Rightarrow> None)
     | _ \<Rightarrow> None)"

definition zMultipliers :: "json option \<Rightarrow> ProductMultiplier list option" where
  "zMultipliers v = (case v of
       Some (JArr xs) \<Rightarrow> if length xs \<le> 200 then those (map zMultiplier xs) else None
     | _ \<Rightarrow> None)"

definition settingsKeys :: "string list" where
  "settingsKeys = [''enabled'', ''earnRatePerDollar'', ''pointsPerDollarOff'', ''minRedeemPoints'',
     ''maxRedeemPercentOfSubtotal'', ''expiryDays'', ''reviewBonusPoints'', ''reviewBonusVerifiedOnly'',
     ''signupBonusPoints'', ''signupBonusSince'', ''firstOrderBonusPoints'', ''birthdayBonusPoints'', ''productMultipliers'']"

text \<open>A field with its default; \<open>isDatetime\<close> stands for the date-time check of the schema library.\<close>

definition fieldInt :: "(string \<times> json) list \<Rightarrow> string \<Rightarrow> int \<Rightarrow> int \<Rightarrow> int \<Rightarrow> int option" where
  "fieldInt raw k lo hi dflt = (case map_of raw k of None \<Rightarrow> Some dflt | v \<Rightarrow> zInt lo hi v)"

definition fieldBool :: "(string \<times> json) list \<Rightarrow> string \<Rightarrow> bool \<Rightarrow> bool option" where
  "fieldBool raw k dflt = (case map_of raw k of None \<Rightarrow> Some dflt | v \<Rightarrow> zBool v)"

definition fieldNull :: "(string \<times> json) list \<Rightarrow> string \<Rightarrow> int \<Rightarrow> int \<Rightarrow> int option option" where
  "fieldNull raw k lo hi = (case map_of raw k of None \<Rightarrow> Some None | v \<Rightarrow> zNullable (zInt lo hi) v)"

definition fieldSince :: "(string \<Rightarrow> bool) \<Rightarrow> (string \<times> json) list \<Rightarrow> string option option" where
  "fieldSince isDatetime raw = (case map_of raw ''signupBonusSince'' of
     None \<Rightarrow> Some None
   | v \<Rightarrow> zNullable (\<lambda>w. Option.bind (jstr w) (\<lambda>t. if isDatetime t then Some t else None)) v)"

definition fieldMultipliers :: "(string \<times> json) list \<Rightarrow> ProductMultiplier list option" where
  "fieldMultipliers raw = (case map_of raw ''productMultipliers'' of None \<Rightarrow> Some [] | v \<Rightarrow> zMultipliers v)"

definition parseSettings :: "(string \<Rightarrow> bool) \<Rightarrow> (string \<times> json) list \<Rightarrow> LoyaltySettings option" where
  "parseSettings isDatetime raw =
     (if \<not> set (map fst raw) \<subseteq> set settingsKeys then None
      else
      Option.bind (fieldBool raw ''enabled'' False) (\<lambda>enabled.
      Option.bind (fieldInt raw ''earnRatePerDollar'' 0 10000 1) (\<lambda>earn.
      Option.bind (fieldInt raw ''pointsPerDollarOff'' 1 1000000 10) (\<lambda>perOff.
      Option.bind (fieldInt raw ''minRedeemPoints'' 0 100000000 0) (\<lambda>minR.
      Option.bind (fieldNull raw ''maxRedeemPercentOfSubtotal'' 1 100) (\<lambda>maxP.
      Option.bind (fieldNull raw ''expiryDays'' 1 36500) (\<lambda>expiry.
      Option.bind (fieldInt raw ''reviewBonusPoints'' 0 1000000 25) (\<lambda>review.
      Option.bind (fieldBool raw ''reviewBonusVerifiedOnly'' True) (\<lambda>verified.
      Option.bind (fieldInt raw ''signupBonusPoints'' 0 1000000 0) (\<lambda>signup.
      Option.bind (fieldSince isDatetime raw) (\<lambda>since.
      Option.bind (fieldInt raw ''firstOrderBonusPoints'' 0 1000000 0) (\<lambda>first.
      Option.bind (fieldInt raw ''birthdayBonusPoints'' 0 1000000 0) (\<lambda>birthday.
      Option.bind (fieldMultipliers raw) (\<lambda>mults.
      Some \<lparr>lo_enabled = enabled, lo_earnRatePerDollar = earn, lo_pointsPerDollarOff = perOff, lo_minRedeemPoints = minR,
        lo_maxRedeemPercentOfSubtotal = maxP, lo_expiryDays = expiry, lo_reviewBonusPoints = review,
        lo_reviewBonusVerifiedOnly = verified, lo_signupBonusPoints = signup, lo_signupBonusSince = since,
        lo_firstOrderBonusPoints = first, lo_birthdayBonusPoints = birthday, lo_productMultipliers = mults\<rparr>))))))))))))))"

definition loyaltySettingsFromConfig :: "(string \<Rightarrow> bool) \<Rightarrow> json option \<Rightarrow> LoyaltySettings" where
  "loyaltySettingsFromConfig isDatetime config = (case jget ''loyalty'' config of
       Some (JObj raw) \<Rightarrow> orElse (parseSettings isDatetime raw) DEFAULT_LOYALTY_SETTINGS
     | Some (JArr xs) \<Rightarrow> if xs = [] then orElse (parseSettings isDatetime []) DEFAULT_LOYALTY_SETTINGS else DEFAULT_LOYALTY_SETTINGS
     | _ \<Rightarrow> DEFAULT_LOYALTY_SETTINGS)"

section \<open>Points and cents\<close>

definition pointsEarned :: "int \<Rightarrow> int \<Rightarrow> int" where
  "pointsEarned eligibleCents earnRatePerDollar =
     (if \<not> 0 < eligibleCents \<or> \<not> 0 < earnRatePerDollar then 0
      else \<lfloor>js_div (eligibleCents * earnRatePerDollar) 100\<rfloor>)"

definition pointsToCents :: "int \<Rightarrow> int \<Rightarrow> int" where
  "pointsToCents points pointsPerDollarOff =
     (if \<not> 0 < points \<or> \<not> 0 < pointsPerDollarOff then 0 else \<lfloor>js_div (points * 100) pointsPerDollarOff\<rfloor>)"

definition centsToPoints :: "int \<Rightarrow> int \<Rightarrow> int" where
  "centsToPoints c pointsPerDollarOff = (if \<not> 0 < c then 0 else \<lceil>js_div (c * pointsPerDollarOff) 100\<rceil>)"

datatype RedeemRejection = RDisabled | NotSignedIn | BelowMinimum | InsufficientBalance | NothingToDiscount

datatype RedeemPlan = RedeemOk int int | RedeemRefused RedeemRejection

definition planRedemption :: "LoyaltySettings \<Rightarrow> rat \<Rightarrow> int \<Rightarrow> int \<Rightarrow> RedeemPlan" where
  "planRedemption cfg requestedPoints availablePoints discountableCents =
     (if \<not> lo_enabled cfg then RedeemRefused RDisabled
      else let requested = \<lfloor>requestedPoints\<rfloor>
      in if \<not> 0 < requested then RedeemRefused BelowMinimum
      else if max 0 availablePoints < requested then RedeemRefused InsufficientBalance
      else if requested < lo_minRedeemPoints cfg then RedeemRefused BelowMinimum
      else let base = max 0 discountableCents;
               cap = (case lo_maxRedeemPercentOfSubtotal cfg of None \<Rightarrow> base | Some pct \<Rightarrow> \<lfloor>js_div (base * pct) 100\<rfloor>);
               discountCents = min (pointsToCents requested (lo_pointsPerDollarOff cfg)) cap
      in if discountCents \<le> 0 then RedeemRefused NothingToDiscount
      else let points = min requested (centsToPoints discountCents (lo_pointsPerDollarOff cfg))
      in if points < lo_minRedeemPoints cfg then RedeemRefused BelowMinimum
         else RedeemOk points discountCents)"

definition proportionalTarget :: "int \<Rightarrow> int \<Rightarrow> int \<Rightarrow> int" where
  "proportionalTarget tot num den =
     (if \<not> 0 < tot \<or> \<not> 0 < den \<or> \<not> 0 < num then 0
      else if den \<le> num then tot
      else js_round (js_div (tot * num) den))"

section \<open>Expiry lots\<close>

datatype LoyaltyKind = KEarn | KRedeem | KReverse | KAdjust | KExpire | KImport | KBonus

record LedgerEntryLike =
  le_kind :: LoyaltyKind
  le_points :: int
  le_expiresAt :: "int option"
  le_createdAt :: int

record Lot =
  lot_remaining :: int
  lot_expiresAt :: "int option"

definition expiryKey :: "int option \<Rightarrow> int \<times> int" where
  "expiryKey e = (case e of None \<Rightarrow> (1, 0) | Some t \<Rightarrow> (0, t))"

text \<open>The positions of the lots a pass visits, soonest expiry first.\<close>

definition pickLots :: "(Lot \<Rightarrow> bool) \<Rightarrow> Lot list \<Rightarrow> nat list" where
  "pickLots p lots = sort_key (\<lambda>i. expiryKey (lot_expiresAt (lots ! i)))
     (filter (\<lambda>i. 0 < lot_remaining (lots ! i) \<and> p (lots ! i)) [0..<length lots])"

fun drainLots :: "nat list \<Rightarrow> int \<Rightarrow> Lot list \<Rightarrow> Lot list" where
  "drainLots [] left lots = lots"
| "drainLots (i # is) left lots =
     (if left \<le> 0 then lots
      else let take = min (lot_remaining (lots ! i)) left
           in drainLots is (left - take) (lots[i := (lots ! i)\<lparr>lot_remaining := lot_remaining (lots ! i) - take\<rparr>]))"

definition expiredBy :: "int \<Rightarrow> Lot \<Rightarrow> bool" where
  "expiredBy t l = (case lot_expiresAt l of None \<Rightarrow> False | Some e \<Rightarrow> e \<le> t)"

definition consumeLots :: "int \<Rightarrow> int \<Rightarrow> bool \<Rightarrow> Lot list \<Rightarrow> Lot list" where
  "consumeLots amount when expiredOnly lots =
     drainLots (if expiredOnly then pickLots (expiredBy when) lots
                else pickLots (\<lambda>l. \<not> expiredBy when l) lots @ pickLots (\<lambda>l. True) lots) amount lots"

definition postEntry :: "Lot list \<Rightarrow> LedgerEntryLike \<Rightarrow> Lot list" where
  "postEntry lots e =
     (if 0 < le_points e then lots @ [\<lparr>lot_remaining = le_points e, lot_expiresAt = le_expiresAt e\<rparr>]
      else if le_points e < 0 then consumeLots (- le_points e) (le_createdAt e) (le_kind e = KExpire) lots
      else lots)"

definition expiredRemaining :: "int \<Rightarrow> Lot list \<Rightarrow> int" where
  "expiredRemaining t lots = sum_list (map (\<lambda>l. if expiredBy t l then lot_remaining l else 0) lots)"

definition unpostedExpiredPoints :: "LedgerEntryLike list \<Rightarrow> int \<Rightarrow> int" where
  "unpostedExpiredPoints entries now = expiredRemaining now (foldl postEntry [] entries)"

section \<open>Earning base and multipliers\<close>

definition earnableCents :: "int \<Rightarrow> int \<Rightarrow> int \<Rightarrow> bool \<Rightarrow> int" where
  "earnableCents subtotal discountTotal taxRate taxInclusive =
     (let discounted = max 0 (subtotal - discountTotal)
      in if \<not> taxInclusive \<or> taxRate \<le> 0 then discounted
         else js_round (js_div (discounted * 10000) (10000 + taxRate)))"

definition multiplierOf :: "ProductMultiplier list \<Rightarrow> string \<Rightarrow> rat option" where
  "multiplierOf ms productId = map_of (rev (map (\<lambda>m. (toLowerCase (pm_productId m), pm_multiplier m)) ms)) (toLowerCase productId)"

definition lineBonus :: "int \<Rightarrow> int \<Rightarrow> int \<Rightarrow> ProductMultiplier list \<Rightarrow> string \<times> int \<Rightarrow> int" where
  "lineBonus subtotal earnable rate multipliers l =
     (case multiplierOf multipliers (fst l) of
        None \<Rightarrow> 0
      | Some m \<Rightarrow>
          if \<not> 1 < m \<or> \<not> 0 < snd l then 0
          else let share = \<lfloor>js_div (snd l * earnable) subtotal\<rfloor>
               in \<lfloor>fl (fl (of_int (share * rate) * fl (m - 1)) / 100)\<rfloor>)"

definition multiplierBonusPoints :: "(string \<times> int) list \<Rightarrow> int \<Rightarrow> int \<Rightarrow> int \<Rightarrow> ProductMultiplier list \<Rightarrow> int" where
  "multiplierBonusPoints lines subtotal earnable rate multipliers =
     (if \<not> 0 < subtotal \<or> \<not> 0 < earnable \<or> \<not> 0 < rate \<or> multipliers = [] then 0
      else foldl (\<lambda>total l. total + lineBonus subtotal earnable rate multipliers l) 0 lines)"


section \<open>Exact quotients\<close>

context fp_rounding
begin

text \<open>Rounding a rounded quotient down or up is exact: a quotient that is not an integer is at least \<open>1 / b\<close> away from one.\<close>

lemma floor_quotient:
  assumes b: "0 < b" and n: "0 \<le> n" "n < 2 ^ 53"
  shows "\<lfloor>rnd (of_int n / of_int b)\<rfloor> = n div b"
proof -
  let ?x = "of_int n / of_int b :: rat" and ?q = "n div b"
  have m: "0 \<le> n mod b" "n mod b < b" using b by simp_all
  have q: "0 \<le> ?q" "?q \<le> n"
    using b n(1) div_by_1[of n] zdiv_mono2[of n 1 b] by (auto simp: pos_imp_zdiv_nonneg_iff)
  have x: "?x = of_int ?q + of_int (n mod b) / of_int b"
  proof -
    have "(of_int (b * ?q + n mod b) :: rat) = of_int n" by (simp only: mult_div_mod_eq)
    then have "(of_int b * of_int ?q + of_int (n mod b) :: rat) = of_int n" by (simp only: of_int_add of_int_mult)
    then show ?thesis using b by (simp add: field_simps)
  qed
  have r: "0 \<le> (of_int (n mod b) / of_int b :: rat)" "of_int (n mod b) / of_int b + 1 / of_int b \<le> (1 :: rat)"
  proof -
    have "(of_int (n mod b + 1) :: rat) \<le> of_int b" using m(2) by (simp only: of_int_le_iff)
    then show "of_int (n mod b) / of_int b + 1 / of_int b \<le> (1 :: rat)" using b by (simp add: field_simps)
  qed (use b m in simp)
  have lo: "of_int ?q \<le> rnd ?x"
    using rnd_mono[of "of_int ?q" ?x] rnd_int[of ?q] x r(1) q n(2) by simp
  have "(of_int n :: rat) < of_int (2 ^ 53)" using n(2) by (simp only: of_int_less_iff)
  then have "?x / 2 ^ 53 < 1 / of_int b" using b by (simp add: field_simps)
  moreover have "\<bar>rnd ?x - ?x\<bar> \<le> ?x / 2 ^ 53" using rnd_error[of ?x] abs_of_nonneg[of ?x] b n(1) by (metis divide_nonneg_nonneg of_int_0_le_iff less_imp_le)
  ultimately have "rnd ?x < of_int ?q + 1" using x r(2) by linarith
  then show ?thesis using lo by (intro floor_unique) auto
qed

lemma ceiling_quotient:
  assumes b: "0 < b" and n: "0 < n" "n < 2 ^ 53"
  shows "\<lceil>rnd (of_int n / of_int b)\<rceil> = (n + b - 1) div b"
proof -
  let ?x = "of_int n / of_int b :: rat" and ?q = "(n + b - 1) div b"
  have m: "0 \<le> (n + b - 1) mod b" "(n + b - 1) mod b < b" and split: "n + b - 1 = b * ?q + (n + b - 1) mod b" using b by simp_all
  have bq: "n \<le> b * ?q" "b * (?q - 1) + 1 \<le> n" using m split unfolding right_diff_distrib by linarith+
  have q1: "1 \<le> ?q" using b n(1) zdiv_mono1[of b "n + b - 1" b] by simp
  have qn: "?q \<le> n"
  proof -
    have "?q - 1 \<le> b * (?q - 1)" using b q1 by (simp add: mult_le_cancel_right1)
    then show ?thesis using bq(2) by linarith
  qed
  have "?x \<le> of_int ?q"
  proof -
    have "(of_int n :: rat) \<le> of_int (b * ?q)" using bq(1) by (simp only: of_int_le_iff)
    then show ?thesis using b by (simp add: pos_divide_le_eq mult.commute)
  qed
  then have hi: "rnd ?x \<le> of_int ?q" using rnd_mono[of ?x "of_int ?q"] rnd_int[of ?q] q1 qn n(2) by simp
  have gap: "of_int (?q - 1) + 1 / of_int b \<le> ?x"
  proof -
    have "(of_int (b * (?q - 1) + 1) :: rat) \<le> of_int n" using bq(2) by (simp only: of_int_le_iff)
    then have "(of_int (?q - 1) * of_int b + 1) / of_int b \<le> ?x" using b by (intro divide_right_mono) (simp_all add: mult.commute)
    then show ?thesis using b by (simp only: add_divide_distrib) simp
  qed
  have "(of_int n :: rat) < of_int (2 ^ 53)" using n(2) by (simp only: of_int_less_iff)
  then have "?x / 2 ^ 53 < 1 / of_int b" using b by (simp add: field_simps)
  moreover have "\<bar>rnd ?x - ?x\<bar> \<le> ?x / 2 ^ 53" using rnd_error[of ?x] abs_of_nonneg[of ?x] b n(1) by (metis divide_nonneg_nonneg of_int_0_le_iff less_imp_le)
  ultimately have "of_int ?q - 1 < rnd ?x" using gap by simp
  then show ?thesis using hi by (intro ceiling_unique) auto
qed

end

lemma js_div_floor: "\<lbrakk>0 < b; 0 \<le> n; n < 2 ^ 53\<rbrakk> \<Longrightarrow> \<lfloor>js_div n b\<rfloor> = n div b"
  unfolding js_div_def by (rule fp.floor_quotient)

lemma js_div_ceiling: "\<lbrakk>0 < b; 0 < n; n < 2 ^ 53\<rbrakk> \<Longrightarrow> \<lceil>js_div n b\<rceil> = (n + b - 1) div b"
  unfolding js_div_def by (rule fp.ceiling_quotient)

lemmas loyalty_exact = js_div_floor js_div_ceiling js_round_div

section \<open>Redemption\<close>

text \<open>The cheapest points: \<open>(c * p + 99) div 100\<close> points buy \<open>c\<close> cents and one point less does not.\<close>

lemma cheapest_points:
  fixes c p q :: int
  assumes p: "0 < p" and q: "q = (c * p + 99) div 100"
  shows "c \<le> q * 100 div p" and "(q - 1) * 100 div p < c"
proof -
  have m: "c * p + 99 = 100 * q + (c * p + 99) mod 100" "0 \<le> (c * p + 99) mod 100" "(c * p + 99) mod 100 < 100"
    unfolding q by simp_all
  have "c * p \<le> q * 100" using m by linarith
  then have "c * p div p \<le> q * 100 div p" using p by (rule zdiv_mono1)
  then show "c \<le> q * 100 div p" using p by simp
  have "(q - 1) * 100 < c * p" using m by (simp add: algebra_simps)
  then show "(q - 1) * 100 div p < c"
    using p pos_mod_sign[OF p, of "(q - 1) * 100"] mult_div_mod_eq[of p "(q - 1) * 100"]
    by (metis add_le_same_cancel1 le_add_same_cancel1 mult.commute mult_less_cancel_right_pos order_le_less_trans)
qed

definition wf_settings :: "LoyaltySettings \<Rightarrow> bool" where
  "wf_settings cfg \<longleftrightarrow> 0 \<le> lo_earnRatePerDollar cfg \<and> lo_earnRatePerDollar cfg \<le> 10000
     \<and> 1 \<le> lo_pointsPerDollarOff cfg \<and> lo_pointsPerDollarOff cfg \<le> 1000000 \<and> 0 \<le> lo_minRedeemPoints cfg
     \<and> (case lo_maxRedeemPercentOfSubtotal cfg of None \<Rightarrow> True | Some pct \<Rightarrow> 1 \<le> pct \<and> pct \<le> 100)
     \<and> (case lo_expiryDays cfg of None \<Rightarrow> True | Some d \<Rightarrow> 1 \<le> d \<and> d \<le> 36500)
     \<and> 0 \<le> lo_reviewBonusPoints cfg \<and> 0 \<le> lo_signupBonusPoints cfg \<and> 0 \<le> lo_firstOrderBonusPoints cfg \<and> 0 \<le> lo_birthdayBonusPoints cfg"

text \<open>A redemption plan is safe and fair: on success it spends a positive number of points,
  never more than requested or available, never less than the configured minimum; the
  discount is positive and within the (percentage-capped) merchandise; and the points spent
  are exactly the cheapest that buy the discount, so they are worth it and one point less is
  not. Amounts range up to 2^31 cents and points.\<close>

theorem redemption_plan_sound:
  assumes "planRedemption cfg req available base = RedeemOk points disc" and "wf_settings cfg"
    and "available \<le> 2 ^ 31" and "base \<le> 2 ^ 31"
  shows "0 < points \<and> of_int points \<le> req \<and> points \<le> available \<and> lo_minRedeemPoints cfg \<le> points
     \<and> 0 < disc \<and> disc \<le> base
     \<and> (case lo_maxRedeemPercentOfSubtotal cfg of None \<Rightarrow> True | Some pct \<Rightarrow> disc \<le> base * pct div 100)
     \<and> disc \<le> pointsToCents points (lo_pointsPerDollarOff cfg)
     \<and> pointsToCents (points - 1) (lo_pointsPerDollarOff cfg) < disc"
proof -
  let ?p = "lo_pointsPerDollarOff cfg" and ?r = "\<lfloor>req\<rfloor>"
  let ?cap = "case lo_maxRedeemPercentOfSubtotal cfg of None \<Rightarrow> max 0 base | Some pct \<Rightarrow> \<lfloor>js_div (max 0 base * pct) 100\<rfloor>"
  have plan: "0 < ?r" "?r \<le> max 0 available" "lo_minRedeemPoints cfg \<le> points" "0 < disc"
      "disc = min (pointsToCents ?r ?p) ?cap" "points = min ?r (centsToPoints disc ?p)"
    using assms(1) by (auto simp: planRedemption_def Let_def not_less split: if_splits)
  have r: "?r \<le> available" "?r \<le> 2 ^ 31" using plan(1,2) assms(3) by linarith+
  have p: "1 \<le> ?p" "?p \<le> 1000000" using assms(2) by (simp_all add: wf_settings_def)
  have buys: "pointsToCents n ?p = n * 100 div ?p" if "0 \<le> n" "n \<le> 2 ^ 31" for n
    using that p js_div_floor[of ?p "n * 100"] by (auto simp: pointsToCents_def)
  have d1: "disc \<le> ?r * 100 div ?p" using plan(5) buys[of ?r] plan(1) r(2) by simp
  have cap: "?cap \<le> max 0 base \<and> (case lo_maxRedeemPercentOfSubtotal cfg of None \<Rightarrow> True | Some pct \<Rightarrow> ?cap \<le> max 0 base * pct div 100)"
  proof (cases "lo_maxRedeemPercentOfSubtotal cfg")
    case (Some pct)
    then have pct: "1 \<le> pct" "pct \<le> 100" using assms(2) by (simp_all add: wf_settings_def)
    have "max 0 base * pct \<le> max 0 base * 100" using pct by (intro mult_left_mono) auto
    moreover have "max 0 base * pct < 2 ^ 53" using calculation assms(4) by simp
    ultimately show ?thesis
      using Some pct js_div_floor[of 100 "max 0 base * pct"] zdiv_mono1[of "max 0 base * pct" "max 0 base * 100" 100] by auto
  qed simp
  have dbase: "disc \<le> base" "0 < base" using cap plan(4,5) by linarith+
  have d31: "disc \<le> 2 ^ 31" using dbase assms(4) by linarith
  have "disc * ?p \<le> 2 ^ 31 * 1000000" using plan(4) p d31 by (intro mult_mono) auto
  then have cp: "centsToPoints disc ?p = (disc * ?p + 99) div 100"
    using plan(4) p js_div_ceiling[of 100 "disc * ?p"] by (auto simp: centsToPoints_def)
  have ch: "disc \<le> centsToPoints disc ?p * 100 div ?p" "(centsToPoints disc ?p - 1) * 100 div ?p < disc"
    using cheapest_points[of ?p "centsToPoints disc ?p" disc] p cp by auto
  have cheap_le: "centsToPoints disc ?p \<le> ?r"
  proof (rule ccontr)
    assume "\<not> ?thesis"
    then have "?r * 100 div ?p \<le> (centsToPoints disc ?p - 1) * 100 div ?p" using p by (intro zdiv_mono1) auto
    then show False using ch(2) d1 by linarith
  qed
  then have pt: "points = centsToPoints disc ?p" using plan(6) by simp
  have "1 \<le> disc * ?p" using mult_mono[of 1 disc 1 ?p] plan(4) p by simp
  then have pos: "0 < points" unfolding pt cp using zdiv_mono1[of 100 "disc * ?p + 99" 100] by simp
  have le: "points \<le> ?r" using cheap_le pt by simp
  have "of_int points \<le> req" using le by (simp add: le_floor_iff)
  moreover have b31: "points \<le> 2 ^ 31" using le r(2) by linarith
  have "disc \<le> pointsToCents points ?p" "pointsToCents (points - 1) ?p < disc"
    using buys[of points] buys[of "points - 1"] ch pos b31 unfolding pt by simp_all
  moreover have "case lo_maxRedeemPercentOfSubtotal cfg of None \<Rightarrow> True | Some pct \<Rightarrow> disc \<le> base * pct div 100"
    using cap plan(5) dbase(2) by (auto split: option.splits)
  ultimately show ?thesis using pos le r(1) plan(3,4) dbase(1) by (metis order_trans)
qed

theorem redemption_plan_sound_witness:
  "planRedemption (DEFAULT_LOYALTY_SETTINGS\<lparr>lo_enabled := True, lo_pointsPerDollarOff := 30, lo_maxRedeemPercentOfSubtotal := Some 50\<rparr>) 500 800 1000
     = RedeemOk 150 500 \<and> 500 \<le> pointsToCents 150 30 \<and> pointsToCents 149 30 < (500 :: int)"
proof -
  let ?cfg = "DEFAULT_LOYALTY_SETTINGS\<lparr>lo_enabled := True, lo_pointsPerDollarOff := 30, lo_maxRedeemPercentOfSubtotal := Some 50\<rparr>"
  have e: "planRedemption ?cfg 500 800 1000 = RedeemOk 150 500"
    by (simp add: planRedemption_def DEFAULT_LOYALTY_SETTINGS_def pointsToCents_def centsToPoints_def loyalty_exact)
  have "wf_settings ?cfg" by (simp add: wf_settings_def DEFAULT_LOYALTY_SETTINGS_def)
  then show ?thesis using redemption_plan_sound[OF e] e by (simp add: DEFAULT_LOYALTY_SETTINGS_def)
qed


section \<open>Proportional targets\<close>

lemma halfUp_le_whole: assumes "0 < b" "n \<le> t * b" shows "halfUp n b \<le> t"
proof -
  have "halfUp (t * b) b = t" unfolding halfUp_def by (rule int_div_pos_eq[where r = b]) (use assms in \<open>simp_all add: algebra_simps\<close>)
  then show ?thesis using halfUp_mono[OF assms] by simp
qed

text \<open>The reversal target of a refund is nonnegative, at most the whole, grows with the
  share refunded and is exactly the whole once everything is refunded, so posting the
  difference to the target after every partial refund converges on the whole without drift.\<close>

theorem proportional_target_converges:
  assumes "0 \<le> t" "t \<le> 2 ^ 20" "0 < den" "den \<le> 2 ^ 31" "0 \<le> n" "n \<le> m"
  shows "0 \<le> proportionalTarget t n den \<and> proportionalTarget t n den \<le> proportionalTarget t m den
     \<and> proportionalTarget t m den \<le> t \<and> (den \<le> m \<longrightarrow> proportionalTarget t m den = t)"
proof -
  have ex: "proportionalTarget t k den = (if den \<le> k then t else halfUp (t * k) den)" if "0 \<le> k" for k
  proof (cases "0 < t \<and> 0 < k \<and> k < den")
    case True
    have "t * k \<le> 2 ^ 20 * 2 ^ 31" using assms True by (intro mult_mono) auto
    then show ?thesis using True assms js_round_div[of den "t * k"] by (auto simp: proportionalTarget_def)
  next
    case False
    have "halfUp 0 den = 0" using assms(3) by (simp add: halfUp_def)
    then show ?thesis using False assms that by (auto simp: proportionalTarget_def)
  qed
  have up: "halfUp (t * k) den \<le> t" if "k \<le> den" for k
    using halfUp_le_whole[of den "t * k" t] assms that by (simp add: mult_left_mono)
  have lo: "0 \<le> halfUp (t * k) den" if "0 \<le> k" for k
    using halfUp_mono[of den 0 "t * k"] assms that by (simp add: halfUp_def)
  have mono: "halfUp (t * n) den \<le> halfUp (t * m) den"
    using assms by (intro halfUp_mono mult_left_mono) auto
  show ?thesis using ex[of n] ex[of m] up lo mono assms by (auto simp: not_le)
qed

theorem proportional_target_converges_witness:
  "proportionalTarget 7 10 30 \<le> proportionalTarget 7 20 30 \<and> proportionalTarget 7 30 30 = 7"
  using proportional_target_converges[of 7 30 10 20] proportional_target_converges[of 7 30 20 30] by simp

section \<open>Lots\<close>

text \<open>What the lots with an expiry in a class hold.\<close>

definition lotsPart :: "(int option \<Rightarrow> bool) \<Rightarrow> Lot list \<Rightarrow> int" where
  "lotsPart P lots = sum_list (map (\<lambda>l. if P (lot_expiresAt l) then lot_remaining l else 0) lots)"

definition lotsNonneg :: "Lot list \<Rightarrow> bool" where
  "lotsNonneg lots \<longleftrightarrow> (\<forall>l\<in>set lots. 0 \<le> lot_remaining l)"

lemma drainLots_length [simp]: "length (drainLots is left lots) = length lots"
  by (induction "is" left lots rule: drainLots.induct) (auto simp: Let_def)

lemma lot_update_expires [simp]: "lot_expiresAt (lots[j := (lots ! j)\<lparr>lot_remaining := v\<rparr>] ! i) = lot_expiresAt (lots ! i)"
  by (cases "j = i"; cases "j < length lots") (auto simp: list_update_beyond)

lemma drainLots_expires [simp]: "lot_expiresAt (drainLots is left lots ! i) = lot_expiresAt (lots ! i)"
  by (induction "is" left lots rule: drainLots.induct) (auto simp: Let_def)

lemma lots_update_nonneg:
  "\<lbrakk>lotsNonneg lots; i < length lots; v \<le> lot_remaining (lots ! i)\<rbrakk> \<Longrightarrow> lotsNonneg (lots[i := (lots ! i)\<lparr>lot_remaining := lot_remaining (lots ! i) - v\<rparr>])"
  by (auto simp: lotsNonneg_def dest: set_update_subset_insert[THEN subsetD])

lemma drainLots_nonneg:
  "\<lbrakk>lotsNonneg lots; set is \<subseteq> {..<length lots}\<rbrakk> \<Longrightarrow> lotsNonneg (drainLots is left lots)"
proof (induction "is" left lots rule: drainLots.induct)
  case (2 i "is" left lots)
  then show ?case using lots_update_nonneg[of lots i "min (lot_remaining (lots ! i)) left"] by (auto simp: Let_def)
qed simp

text \<open>Draining distinct lots takes the amount, or everything they hold.\<close>

definition held :: "nat list \<Rightarrow> Lot list \<Rightarrow> int" where
  "held is lots = sum_list (map (\<lambda>i. lot_remaining (lots ! i)) is)"

lemma held_nonneg: "\<lbrakk>lotsNonneg lots; set is \<subseteq> {..<length lots}\<rbrakk> \<Longrightarrow> 0 \<le> held is lots"
  by (auto simp: held_def lotsNonneg_def intro!: sum_list_nonneg_int) (meson lessThan_iff nth_mem subsetD)

lemma lotsPart_update:
  "i < length lots \<Longrightarrow> lotsPart P (lots[i := (lots ! i)\<lparr>lot_remaining := v\<rparr>])
     = lotsPart P lots + (if P (lot_expiresAt (lots ! i)) then v - lot_remaining (lots ! i) else 0)"
  by (simp add: lotsPart_def map_update sum_list_update_int)

lemma drainLots_part:
  "\<lbrakk>lotsNonneg lots; set is \<subseteq> {..<length lots}; distinct is; 0 \<le> left; \<forall>i\<in>set is. P (lot_expiresAt (lots ! i))\<rbrakk> \<Longrightarrow>
   lotsPart P (drainLots is left lots) = lotsPart P lots - min left (held is lots)"
proof (induction "is" left lots rule: drainLots.induct)
  case (2 i "is" left lots)
  let ?t = "min (lot_remaining (lots ! i)) left"
  let ?lots = "lots[i := (lots ! i)\<lparr>lot_remaining := lot_remaining (lots ! i) - ?t\<rparr>]"
  have i: "i < length lots" "0 \<le> lot_remaining (lots ! i)" "P (lot_expiresAt (lots ! i))" using 2(2,3,6) by (auto simp: lotsNonneg_def)
  have h: "held is ?lots = held is lots" using 2(4) unfolding held_def
    by (intro arg_cong[where f = sum_list] map_cong refl) (metis nth_list_update_neq distinct.simps(2))
  have h0: "0 \<le> held is lots" using 2 by (intro held_nonneg) auto
  show ?case
  proof (cases "left \<le> 0")
    case False
    have "lotsPart P (drainLots is (left - ?t) ?lots) = lotsPart P ?lots - min (left - ?t) (held is ?lots)"
      using False 2(3-6) lots_update_nonneg[OF 2(2) i(1), of ?t] by (intro 2(1)) auto
    then show ?thesis using False h h0 i lotsPart_update[OF i(1), of P] by (auto simp: Let_def held_def min_def)
  next
    case True
    then show ?thesis using 2(5) h0 i(2) by (simp add: held_def)
  qed
qed (simp add: held_def)

lemma pickLots_facts:
  "set (pickLots p lots) = {i. i < length lots \<and> 0 < lot_remaining (lots ! i) \<and> p (lots ! i)}" "distinct (pickLots p lots)"
  by (auto simp: pickLots_def)

lemma held_pick: "held (pickLots p lots) lots = sum_list (map (\<lambda>l. if 0 < lot_remaining l \<and> p l then lot_remaining l else 0) lots)"
proof -
  have "held (pickLots p lots) lots = sum_list (map (\<lambda>i. lot_remaining (lots ! i)) (filter (\<lambda>i. 0 < lot_remaining (lots ! i) \<and> p (lots ! i)) [0..<length lots]))"
  proof -
    have "mset (map (\<lambda>i. lot_remaining (lots ! i)) (sort_key k xs)) = mset (map (\<lambda>i. lot_remaining (lots ! i)) xs)" for k :: "nat \<Rightarrow> int \<times> int" and xs
      by simp
    then show ?thesis unfolding held_def pickLots_def by (intro arg_cong[where f = sum_mset, THEN trans[rotated, OF sum_mset_sum_list], THEN trans[OF sum_mset_sum_list[symmetric]]])
  qed
  also have "\<dots> = sum_list (map (\<lambda>i. if 0 < lot_remaining (lots ! i) \<and> p (lots ! i) then lot_remaining (lots ! i) else 0) [0..<length lots])"
    by (rule sum_list_map_filter')
  also have "\<dots> = sum_list (map (\<lambda>l. if 0 < lot_remaining l \<and> p l then lot_remaining l else 0) (map (\<lambda>i. lots ! i) [0..<length lots]))"
    by (simp add: comp_def)
  finally show ?thesis by (simp add: map_nth)
qed

lemma held_pick_part:
  assumes "lotsNonneg lots"
  shows "held (pickLots (\<lambda>l. P (lot_expiresAt l)) lots) lots = lotsPart P lots"
  using assms unfolding held_pick lotsPart_def lotsNonneg_def
  by (intro arg_cong[where f = sum_list] map_cong refl) (auto simp: order.order_iff_strict)

definition expiredAt :: "int \<Rightarrow> int option \<Rightarrow> bool" where
  "expiredAt t e = (case e of None \<Rightarrow> False | Some x \<Rightarrow> x \<le> t)"

lemma expiredBy_eq: "expiredBy t = (\<lambda>l. expiredAt t (lot_expiresAt l))"
  by (simp add: expiredBy_def expiredAt_def fun_eq_iff)

lemma expiredRemaining_eq: "expiredRemaining t lots = lotsPart (expiredAt t) lots"
  by (simp add: expiredRemaining_def lotsPart_def expiredBy_eq)

lemma consumeLots_nonneg: "lotsNonneg lots \<Longrightarrow> lotsNonneg (consumeLots a t b lots)"
  unfolding consumeLots_def by (rule drainLots_nonneg) (auto simp: pickLots_facts)

lemma postEntry_nonneg: "lotsNonneg lots \<Longrightarrow> lotsNonneg (postEntry lots e)"
  using consumeLots_nonneg[of lots] by (auto simp: postEntry_def) (auto simp: lotsNonneg_def)

lemma foldl_postEntry_nonneg: "lotsNonneg lots \<Longrightarrow> lotsNonneg (foldl postEntry lots es)"
  by (induction es arbitrary: lots) (auto simp: postEntry_nonneg)

lemma lots_nonneg [simp]: "lotsNonneg (foldl postEntry [] es)"
  by (rule foldl_postEntry_nonneg) (simp add: lotsNonneg_def)

lemma consume_expired:
  assumes "lotsNonneg lots" "0 \<le> a" "a \<le> expiredRemaining t lots"
  shows "expiredRemaining t (consumeLots a t True lots) = expiredRemaining t lots - a"
proof -
  have "lotsPart (expiredAt t) (drainLots (pickLots (expiredBy t) lots) a lots) = lotsPart (expiredAt t) lots - min a (held (pickLots (expiredBy t) lots) lots)"
    using assms(1,2) by (intro drainLots_part) (auto simp: pickLots_facts expiredBy_eq)
  then show ?thesis using assms held_pick_part[OF assms(1), of "expiredAt t"] by (simp add: consumeLots_def expiredRemaining_eq expiredBy_eq)
qed

lemma lotsPart_nonneg: "lotsNonneg lots \<Longrightarrow> 0 \<le> lotsPart P lots"
  by (auto simp: lotsPart_def lotsNonneg_def intro!: sum_list_nonneg_int)

text \<open>Lots only carry expiry times of credits.\<close>

lemma consumeLots_expires: "map lot_expiresAt (consumeLots a t b lots) = map lot_expiresAt lots"
  by (rule nth_equalityI) (auto simp: consumeLots_def)

lemma lots_expire_class:
  assumes "\<forall>e\<in>set es. 0 < le_points e \<longrightarrow> P (le_expiresAt e)" "\<forall>l\<in>set lots. P (lot_expiresAt l)"
  shows "\<forall>l\<in>set (foldl postEntry lots es). P (lot_expiresAt l)"
  using assms
proof (induction es arbitrary: lots)
  case (Cons e es)
  have "\<forall>x\<in>set (map lot_expiresAt lots). P x" using Cons.prems(2) by simp
  then have "\<forall>x\<in>set (map lot_expiresAt (postEntry lots e)). P x"
    using Cons.prems(1) by (auto simp: postEntry_def consumeLots_expires simp del: set_map)
  then show ?case using Cons.IH[of "postEntry lots e"] Cons.prems by simp
qed simp

lemma lotsPart_empty: "\<forall>l\<in>set lots. \<not> P (lot_expiresAt l) \<Longrightarrow> lotsPart P lots = 0"
  by (induction lots) (auto simp: lotsPart_def)

lemma unposted_fast_path:
  assumes "\<forall>e\<in>set es. 0 < le_points e \<longrightarrow> \<not> expiredAt now (le_expiresAt e)"
  shows "unpostedExpiredPoints es now = 0"
proof -
  have "\<forall>l\<in>set (foldl postEntry [] es). \<not> expiredAt now (lot_expiresAt l)"
    by (rule lots_expire_class) (use assms in auto)
  then show ?thesis unfolding unpostedExpiredPoints_def expiredRemaining_eq by (rule lotsPart_empty)
qed

lemma unposted_nonneg: "0 \<le> unpostedExpiredPoints es now"
  by (simp add: unpostedExpiredPoints_def expiredRemaining_eq lotsPart_nonneg)

lemma unposted_after_expire:
  assumes "le_kind e = KExpire" "le_createdAt e = now" "le_points e \<le> 0" "- le_points e \<le> unpostedExpiredPoints es now"
  shows "unpostedExpiredPoints (es @ [e]) now = unpostedExpiredPoints es now + le_points e"
  using assms consume_expired[of "foldl postEntry [] es" "- le_points e" now]
  by (cases "le_points e = 0") (auto simp: unpostedExpiredPoints_def postEntry_def)


section \<open>Configuration\<close>

lemma zInt_Some: "zInt lo hi v = Some n \<Longrightarrow> lo \<le> n \<and> n \<le> hi"
  by (auto simp: zInt_def split: option.splits json.splits if_splits)

lemma fieldInt_Some: "fieldInt raw k lo hi d = Some n \<Longrightarrow> lo \<le> d \<Longrightarrow> d \<le> hi \<Longrightarrow> lo \<le> n \<and> n \<le> hi"
  by (auto simp: fieldInt_def split: option.splits dest: zInt_Some)

lemma fieldNull_Some: "fieldNull raw k lo hi = Some r \<Longrightarrow> (case r of None \<Rightarrow> True | Some n \<Rightarrow> lo \<le> n \<and> n \<le> hi)"
  by (auto simp: fieldNull_def zNullable_def split: option.splits if_splits dest: zInt_Some)

lemma parseSettings_wf:
  assumes "parseSettings isDatetime raw = Some cfg"
  shows "wf_settings cfg"
proof -
  have f: "fieldInt raw ''earnRatePerDollar'' 0 10000 1 = Some (lo_earnRatePerDollar cfg)"
    "fieldInt raw ''pointsPerDollarOff'' 1 1000000 10 = Some (lo_pointsPerDollarOff cfg)"
    "fieldInt raw ''minRedeemPoints'' 0 100000000 0 = Some (lo_minRedeemPoints cfg)"
    "fieldNull raw ''maxRedeemPercentOfSubtotal'' 1 100 = Some (lo_maxRedeemPercentOfSubtotal cfg)"
    "fieldNull raw ''expiryDays'' 1 36500 = Some (lo_expiryDays cfg)"
    "fieldInt raw ''reviewBonusPoints'' 0 1000000 25 = Some (lo_reviewBonusPoints cfg)"
    "fieldInt raw ''signupBonusPoints'' 0 1000000 0 = Some (lo_signupBonusPoints cfg)"
    "fieldInt raw ''firstOrderBonusPoints'' 0 1000000 0 = Some (lo_firstOrderBonusPoints cfg)"
    "fieldInt raw ''birthdayBonusPoints'' 0 1000000 0 = Some (lo_birthdayBonusPoints cfg)"
    using assms by (auto simp: parseSettings_def Option.bind_eq_Some_conv split: if_splits)
  show ?thesis unfolding wf_settings_def
    using f(1-3,6-9)[THEN fieldInt_Some] fieldNull_Some[OF f(4)] fieldNull_Some[OF f(5)] by simp
qed

lemma parseSettings_enabled:
  "\<lbrakk>parseSettings isDatetime raw = Some cfg; lo_enabled cfg\<rbrakk> \<Longrightarrow>
     map_of raw ''enabled'' = Some (JBool True) \<and> set (map fst raw) \<subseteq> set settingsKeys"
  by (auto simp: parseSettings_def Option.bind_eq_Some_conv fieldBool_def zBool_def split: if_splits option.splits json.splits)

text \<open>Program settings fail closed: whatever JSON the store configuration holds, the
  settings used are within the bounds of the schema, and unless the loyalty block is a
  well-formed one that switches the program on, the program is off.\<close>

theorem settings_fail_closed:
  "wf_settings (loyaltySettingsFromConfig isDatetime config)
   \<and> (lo_enabled (loyaltySettingsFromConfig isDatetime config) \<longrightarrow>
       (\<exists>raw. jget ''loyalty'' config = Some (JObj raw) \<and> map_of raw ''enabled'' = Some (JBool True)
          \<and> set (map fst raw) \<subseteq> set settingsKeys))"
proof -
  have d: "wf_settings DEFAULT_LOYALTY_SETTINGS" "\<not> lo_enabled DEFAULT_LOYALTY_SETTINGS"
    by (simp_all add: wf_settings_def DEFAULT_LOYALTY_SETTINGS_def)
  show ?thesis
    using d parseSettings_wf parseSettings_enabled parseSettings_enabled[of isDatetime "[]"]
    by (auto simp: loyaltySettingsFromConfig_def orElse_def split: option.splits json.splits)
qed

theorem settings_fail_closed_witness:
  "lo_enabled (loyaltySettingsFromConfig (\<lambda>_. True) (Some (JObj [(''loyalty'', JObj [(''enabled'', JBool True)])])))
   \<and> wf_settings (loyaltySettingsFromConfig (\<lambda>_. True) (Some (JObj [(''loyalty'', JObj [(''enabled'', JBool True)])])))
   \<and> (\<exists>raw. jget ''loyalty'' (Some (JObj [(''loyalty'', JObj [(''enabled'', JBool True)])])) = Some (JObj raw) \<and> map_of raw ''enabled'' = Some (JBool True))"
proof -
  let ?c = "Some (JObj [(''loyalty'', JObj [(''enabled'', JBool True)])])"
  have "lo_enabled (loyaltySettingsFromConfig (\<lambda>_. True) ?c)" by code_simp
  then show ?thesis using settings_fail_closed[of "\<lambda>_. True" ?c] by blast
qed

end
