(* ===== verification/Ledger.thy ===== *)
theory Ledger
  imports Loyalty "HOL-Library.List_Lexorder" "HOL-Library.Char_ord"
begin

text \<open>
  The loyalty ledger of one store (\<open>loyalty/ledger.ts\<close>, \<open>loyalty/bonus.ts\<close>) and the proof of
  order ownership it filters by (\<open>auth/order-access.ts\<close>). The state is the append-only table
  of ledger rows with the orders and customers the code reads; an operation is one call under
  the customer's advisory lock. A row is inserted with \<open>onConflictDoNothing\<close>: a row with the
  same source reference (or id) is already there or it is appended. \<open>gen\<close> stands for
  \<open>gen_random_uuid\<close>, \<open>due\<close> for \<open>amountDueForOrder\<close> and \<open>now\<close> for \<open>new Date()\<close>. The columns
  \<open>actor\<close> and \<open>metadata\<close> of a row are informational and left out.
\<close>

section \<open>Rows\<close>

record LedgerRow =
  lr_id :: string
  lr_customerId :: string
  lr_kind :: LoyaltyKind
  lr_points :: int
  lr_orderId :: "string option"
  lr_refundId :: "string option"
  lr_sourceRef :: "string option"
  lr_expiresAt :: "int option"
  lr_shortfall :: int
  lr_reason :: "string option"
  lr_createdAt :: int

record OrderRec =
  od_id :: string
  od_customerId :: "string option"
  od_metadata :: "json option"
  od_state :: OrderState
  od_grandTotal :: int

record CustomerRec =
  cu_id :: string
  cu_email :: string
  cu_emailVerified :: bool
  cu_createdAt :: int
  cu_deleted :: bool
  cu_birth :: "(int \<times> int) option"

record LoyaltyDb =
  ld_rows :: "LedgerRow list"
  ld_orders :: "OrderRec list"
  ld_customers :: "CustomerRec list"
  ld_program :: LoyaltySettings

section \<open>Order ownership: auth/order-access.ts\<close>

definition normalizeEmail :: "string \<Rightarrow> string" where
  "normalizeEmail email = toLowerCase (js_trim email)"

definition linkedByEmail :: "json option \<Rightarrow> bool" where
  "linkedByEmail metadata \<longleftrightarrow> jstr (jget ''linked_via'' metadata) = Some ''email_match''"

definition contactEmail :: "json option \<Rightarrow> string option" where
  "contactEmail metadata = jstr (jget ''email'' (jget ''contact'' metadata))"

definition customerOwnsOrder :: "CustomerRec option \<Rightarrow> OrderRec \<Rightarrow> bool" where
  "customerOwnsOrder customer order = (case customer of
       None \<Rightarrow> False
     | Some c \<Rightarrow>
         if Some (cu_id c) \<noteq> od_customerId order then False
         else if \<not> linkedByEmail (od_metadata order) then True
         else (case contactEmail (od_metadata order) of
                 None \<Rightarrow> False
               | Some e \<Rightarrow> cu_emailVerified c \<and> js_trim e \<noteq> [] \<and> normalizeEmail e = normalizeEmail (cu_email c)))"

text \<open>The same test as a filter of the database: \<open>lower\<close> and \<open>btrim\<close> are the database's, which trims
  spaces only. A contact address that is not a JSON string matches no mailbox.\<close>

definition btrim :: "string \<Rightarrow> string" where
  "btrim s = (let sp = (\<lambda>c. c = CHR '' '') in rev (dropWhile sp (rev (dropWhile sp s))))"

definition orderProvenanceFilter :: "CustomerRec \<Rightarrow> OrderRec \<Rightarrow> bool" where
  "orderProvenanceFilter c order \<longleftrightarrow>
     \<not> linkedByEmail (od_metadata order) \<or>
     (cu_emailVerified c \<and> (case contactEmail (od_metadata order) of
        None \<Rightarrow> False | Some e \<Rightarrow> toLowerCase (btrim e) = normalizeEmail (cu_email c)))"

section \<open>Snapshots: loyalty/ledger.ts\<close>

record OrderLoyaltySnapshot =
  os_redeemPoints :: int
  os_pointsDiscount :: int
  os_earnPoints :: int
  os_expiryDays :: "int option"
  os_earnRatePerDollar :: "int option"
  os_productMultipliers :: "ProductMultiplier list option"

definition snapInt :: "json option \<Rightarrow> int" where
  "snapInt v = (case jint v of Some n \<Rightarrow> if 0 \<le> n then n else 0 | None \<Rightarrow> 0)"

definition snapPositive :: "json option \<Rightarrow> int option" where
  "snapPositive v = (case jint v of Some n \<Rightarrow> if 0 < n then Some n else None | None \<Rightarrow> None)"

definition snapMultiplier :: "json \<Rightarrow> ProductMultiplier option" where
  "snapMultiplier m = (case (jstr (jget ''productId'' (Some m)), jNumber (jget ''multiplier'' (Some m))) of
       (Some p, Some k) \<Rightarrow> if 1 < k then Some \<lparr>pm_productId = p, pm_multiplier = k\<rparr> else None
     | _ \<Rightarrow> None)"

definition orderLoyaltySnapshot :: "json option \<Rightarrow> OrderLoyaltySnapshot option" where
  "orderLoyaltySnapshot metadata = (case jget ''loyalty'' metadata of
       Some (JObj kvs) \<Rightarrow> (let raw = Some (JObj kvs) in Some
         \<lparr>os_redeemPoints = snapInt (jget ''redeemPoints'' raw), os_pointsDiscount = snapInt (jget ''pointsDiscount'' raw),
          os_earnPoints = snapInt (jget ''earnPoints'' raw), os_expiryDays = snapPositive (jget ''expiryDays'' raw),
          os_earnRatePerDollar = snapPositive (jget ''earnRatePerDollar'' raw),
          os_productMultipliers = (case jget ''productMultipliers'' raw of
              Some (JArr ms) \<Rightarrow> Some (List.map_filter snapMultiplier ms) | _ \<Rightarrow> None)\<rparr>)
     | Some (JArr _) \<Rightarrow> Some \<lparr>os_redeemPoints = 0, os_pointsDiscount = 0, os_earnPoints = 0, os_expiryDays = None,
          os_earnRatePerDollar = None, os_productMultipliers = None\<rparr>
     | _ \<Rightarrow> None)"

definition DAY_MS :: int where
  "DAY_MS = 86400000"

definition expiryFrom :: "int \<Rightarrow> int option \<Rightarrow> int option" where
  "expiryFrom t days = map_option (\<lambda>d. t + d * DAY_MS) days"

section \<open>Reading\<close>

definition orderById :: "LoyaltyDb \<Rightarrow> string \<Rightarrow> OrderRec option" where
  "orderById db i = find (\<lambda>o'. od_id o' = i) (ld_orders db)"

definition customerById :: "LoyaltyDb \<Rightarrow> string \<Rightarrow> CustomerRec option" where
  "customerById db i = find (\<lambda>c. cu_id c = i) (ld_customers db)"

text \<open>The rows that count for a customer.\<close>

definition counts :: "LoyaltyDb \<Rightarrow> CustomerRec \<Rightarrow> LedgerRow \<Rightarrow> bool" where
  "counts db c r \<longleftrightarrow> lr_customerId r = cu_id c \<and>
     (case lr_orderId r of
        None \<Rightarrow> True
      | Some i \<Rightarrow> (case orderById db i of
           None \<Rightarrow> False
         | Some o' \<Rightarrow> od_customerId o' = Some (cu_id c) \<and> orderProvenanceFilter c o'))"

definition entryOfRow :: "LedgerRow \<Rightarrow> LedgerEntryLike" where
  "entryOfRow r = \<lparr>le_kind = lr_kind r, le_points = lr_points r, le_expiresAt = lr_expiresAt r, le_createdAt = lr_createdAt r\<rparr>"

definition rowKey :: "LedgerRow \<Rightarrow> int \<times> bool \<times> string" where
  "rowKey r = (lr_createdAt r, lr_points r < 0, lr_id r)"

definition customerEntries :: "LoyaltyDb \<Rightarrow> string \<Rightarrow> LedgerEntryLike list" where
  "customerEntries db customerId = (case customerById db customerId of
       None \<Rightarrow> []
     | Some c \<Rightarrow> map entryOfRow (sort_key rowKey (filter (counts db c) (ld_rows db))))"

record LoyaltyBalance =
  lb_balance :: int
  lb_pendingExpiry :: int
  lb_available :: int

definition loyaltyBalance :: "LoyaltyDb \<Rightarrow> string \<Rightarrow> int \<Rightarrow> LoyaltyBalance" where
  "loyaltyBalance db customerId now = (case customerById db customerId of
       None \<Rightarrow> \<lparr>lb_balance = 0, lb_pendingExpiry = 0, lb_available = 0\<rparr>
     | Some c \<Rightarrow>
         let rows = filter (counts db c) (ld_rows db);
             expired = length (filter (\<lambda>r. 0 < lr_points r \<and> (case lr_expiresAt r of None \<Rightarrow> False | Some e \<Rightarrow> e \<le> now)) rows)
         in if expired = 0
            then let balance = sum_list (map lr_points rows)
                 in \<lparr>lb_balance = balance, lb_pendingExpiry = 0, lb_available = max 0 balance\<rparr>
            else let entries = customerEntries db customerId;
                     balance = foldl (\<lambda>n e. n + le_points e) 0 entries;
                     pending = min (max 0 balance) (unpostedExpiredPoints entries now)
                 in \<lparr>lb_balance = balance, lb_pendingExpiry = pending, lb_available = max 0 (balance - pending)\<rparr>)"

section \<open>Writing\<close>

definition insertLedger :: "(LoyaltyDb \<Rightarrow> string) \<Rightarrow> LedgerRow \<Rightarrow> LoyaltyDb \<Rightarrow> bool \<times> LoyaltyDb" where
  "insertLedger gen row db =
     (let row = row\<lparr>lr_id := gen db\<rparr>
      in if list_ex (\<lambda>r. lr_id r = lr_id row \<or> (lr_sourceRef row \<noteq> None \<and> lr_sourceRef r = lr_sourceRef row)) (ld_rows db)
         then (False, db) else (True, db\<lparr>ld_rows := ld_rows db @ [row]\<rparr>))"

definition emptyRow :: LedgerRow where
  "emptyRow = \<lparr>lr_id = [], lr_customerId = [], lr_kind = KAdjust, lr_points = 0, lr_orderId = None, lr_refundId = None,
     lr_sourceRef = None, lr_expiresAt = None, lr_shortfall = 0, lr_reason = None, lr_createdAt = 0\<rparr>"

definition postExpiry :: "(LoyaltyDb \<Rightarrow> string) \<Rightarrow> string \<Rightarrow> int \<Rightarrow> LoyaltyDb \<Rightarrow> int \<times> LoyaltyDb" where
  "postExpiry gen customerId now db =
     (let pending = lb_pendingExpiry (loyaltyBalance db customerId now)
      in if pending \<le> 0 then (0, db)
         else (pending, snd (insertLedger gen (emptyRow\<lparr>lr_customerId := customerId, lr_kind := KExpire, lr_points := - pending, lr_createdAt := now,
                lr_sourceRef := Some (''expire:'' @ customerId @ '':'' @ showInt now), lr_reason := Some ''points_expired''\<rparr>) db)))"

definition reserveRedemption :: "(LoyaltyDb \<Rightarrow> string) \<Rightarrow> string \<Rightarrow> string \<Rightarrow> int \<Rightarrow> int \<Rightarrow> LoyaltyDb \<Rightarrow> LoyaltyDb" where
  "reserveRedemption gen customerId orderId points now db =
     (if points \<le> 0 then db
      else snd (insertLedger gen (emptyRow\<lparr>lr_customerId := customerId, lr_orderId := Some orderId, lr_kind := KRedeem, lr_points := - points,
             lr_sourceRef := Some (''redeem:'' @ orderId), lr_reason := Some ''checkout_redemption'', lr_createdAt := now\<rparr>) db))"

definition postEarnForPaidOrder :: "(LoyaltyDb \<Rightarrow> string) \<Rightarrow> string \<Rightarrow> int \<Rightarrow> LoyaltyDb \<Rightarrow> int \<times> LoyaltyDb" where
  "postEarnForPaidOrder gen orderId paidAt db =
     (case orderById db orderId of
        None \<Rightarrow> (0, db)
      | Some o' \<Rightarrow>
          (case (orderLoyaltySnapshot (od_metadata o'), od_customerId o') of
             (Some snap, Some cid) \<Rightarrow>
               if os_earnPoints snap \<le> 0 \<or> \<not> customerOwnsOrder (customerById db cid) o' then (0, db)
               else (case insertLedger gen (emptyRow\<lparr>lr_customerId := cid, lr_orderId := Some orderId, lr_kind := KEarn, lr_points := os_earnPoints snap,
                        lr_expiresAt := expiryFrom paidAt (os_expiryDays snap), lr_sourceRef := Some (''earn:'' @ orderId),
                        lr_reason := Some ''order_paid'', lr_createdAt := paidAt\<rparr>) db of
                       (ins, db') \<Rightarrow> (if ins then os_earnPoints snap else 0, db'))
           | _ \<Rightarrow> (0, db)))"

text \<open>Sums over the rows of one order.\<close>

definition orderRows :: "LoyaltyDb \<Rightarrow> string \<Rightarrow> LedgerRow list" where
  "orderRows db orderId = filter (\<lambda>r. lr_orderId r = Some orderId) (ld_rows db)"

definition redeemedOf :: "LedgerRow list \<Rightarrow> int" where
  "redeemedOf rows = sum_list (map (\<lambda>r. if lr_kind r = KRedeem then - lr_points r else 0) rows)"

definition restoredOf :: "LedgerRow list \<Rightarrow> int" where
  "restoredOf rows = sum_list (map (\<lambda>r. if lr_kind r = KReverse \<and> lr_reason r = Some ''redeem_restore'' then lr_points r else 0) rows)"

definition trackedEarn :: "LedgerRow list \<Rightarrow> int" where
  "trackedEarn rows = sum_list (map (\<lambda>r. if lr_kind r = KEarn then lr_points r
     else if lr_kind r = KAdjust \<and> lr_reason r = Some ''order_edit_earn'' then lr_points r - lr_shortfall r else 0) rows)"

definition earnReversedOf :: "LedgerRow list \<Rightarrow> int" where
  "earnReversedOf rows = sum_list (map (\<lambda>r. if lr_kind r = KReverse \<and> lr_reason r = Some ''earn_reversal'' then - lr_points r + lr_shortfall r else 0) rows)"

record ReconcileResult =
  rr_restored :: int
  rr_reversed :: int
  rr_shortfall :: int

definition restoreLeg :: "(LoyaltyDb \<Rightarrow> string) \<Rightarrow> string \<Rightarrow> string \<Rightarrow> string option \<Rightarrow> int option \<Rightarrow> string \<Rightarrow> int \<Rightarrow> int \<Rightarrow> LoyaltyDb \<Rightarrow> int \<times> LoyaltyDb" where
  "restoreLeg gen customerId orderId refundId expiryDays sourceRef delta now db =
     (if delta \<le> 0 then (0, db)
      else case insertLedger gen (emptyRow\<lparr>lr_customerId := customerId, lr_orderId := Some orderId, lr_refundId := refundId, lr_kind := KReverse,
               lr_points := delta, lr_expiresAt := expiryFrom now expiryDays, lr_sourceRef := Some (sourceRef @ '':restore''),
               lr_reason := Some ''redeem_restore'', lr_createdAt := now\<rparr>) db of
             (ins, db') \<Rightarrow> (if ins then delta else 0, db'))"

definition reverseLeg :: "(LoyaltyDb \<Rightarrow> string) \<Rightarrow> string \<Rightarrow> string \<Rightarrow> string option \<Rightarrow> string \<Rightarrow> int \<Rightarrow> int \<Rightarrow> LoyaltyDb \<Rightarrow> (int \<times> int) \<times> LoyaltyDb" where
  "reverseLeg gen customerId orderId refundId sourceRef delta now db =
     (if delta \<le> 0 then ((0, 0), db)
      else let db1 = snd (postExpiry gen customerId now db);
               posted = min delta (max 0 (lb_available (loyaltyBalance db1 customerId now)));
               shortfall = delta - posted
           in case insertLedger gen (emptyRow\<lparr>lr_customerId := customerId, lr_orderId := Some orderId, lr_refundId := refundId, lr_kind := KReverse,
                    lr_points := - posted, lr_shortfall := shortfall, lr_sourceRef := Some (sourceRef @ '':earn''),
                    lr_reason := Some ''earn_reversal'', lr_createdAt := now + 1\<rparr>) db1 of
                (ins, db') \<Rightarrow> (if ins then (posted, shortfall) else (0, 0), db'))"

definition reconcileOrderLoyalty :: "(LoyaltyDb \<Rightarrow> string) \<Rightarrow> string \<Rightarrow> int \<Rightarrow> int \<Rightarrow> string \<Rightarrow> string option \<Rightarrow> LoyaltySettings option \<Rightarrow> int \<Rightarrow> LoyaltyDb \<Rightarrow> ReconcileResult \<times> LoyaltyDb" where
  "reconcileOrderLoyalty gen orderId num den sourceRef refundId settings now db =
     (case orderRows db orderId of
        [] \<Rightarrow> (\<lparr>rr_restored = 0, rr_reversed = 0, rr_shortfall = 0\<rparr>, db)
      | r # _ \<Rightarrow>
          let locked = orderRows db orderId;
              earned = max 0 (trackedEarn locked);
              expiryDays = (case settings of Some s \<Rightarrow> lo_expiryDays s | None \<Rightarrow> lo_expiryDays (ld_program db));
              restoreDelta = proportionalTarget (redeemedOf locked) num den - restoredOf locked;
              earnDelta = proportionalTarget earned num den - earnReversedOf locked;
              (restored, db1) = restoreLeg gen (lr_customerId r) orderId refundId expiryDays sourceRef restoreDelta now db;
              ((reversed, shortfall), db2) = reverseLeg gen (lr_customerId r) orderId refundId sourceRef earnDelta now db1
          in (\<lparr>rr_restored = restored, rr_reversed = reversed, rr_shortfall = shortfall\<rparr>, db2))"

definition releaseOrderLoyalty :: "(LoyaltyDb \<Rightarrow> string) \<Rightarrow> string \<Rightarrow> LoyaltySettings option \<Rightarrow> int \<Rightarrow> LoyaltyDb \<Rightarrow> ReconcileResult \<times> LoyaltyDb" where
  "releaseOrderLoyalty gen orderId settings now db = reconcileOrderLoyalty gen orderId 1 1 (''cancel:'' @ orderId) None settings now db"

definition reconcileRefundLoyalty :: "(LoyaltyDb \<Rightarrow> string) \<Rightarrow> string \<Rightarrow> string \<Rightarrow> int \<Rightarrow> int \<Rightarrow> int \<Rightarrow> LoyaltyDb \<Rightarrow> ReconcileResult \<times> LoyaltyDb" where
  "reconcileRefundLoyalty gen orderId refundId refunded captured now db =
     (if captured \<le> 0 then (\<lparr>rr_restored = 0, rr_reversed = 0, rr_shortfall = 0\<rparr>, db)
      else reconcileOrderLoyalty gen orderId refunded captured (''refund:'' @ refundId) (Some refundId) None now db)"

section \<open>Order edits\<close>

definition editedEarnTarget :: "OrderLoyaltySnapshot \<Rightarrow> int \<Rightarrow> int \<Rightarrow> int \<Rightarrow> bool \<Rightarrow> (string \<times> int) list \<Rightarrow> int option" where
  "editedEarnTarget snap subtotal discountTotal taxRate taxInclusive lines =
     (case os_earnRatePerDollar snap of
        None \<Rightarrow> None
      | Some rate \<Rightarrow>
          let base = earnableCents subtotal discountTotal taxRate taxInclusive
          in Some (pointsEarned base rate + multiplierBonusPoints lines subtotal base rate (orElse (os_productMultipliers snap) [])))"

record EditEarnResult =
  ee_delta :: int
  ee_posted :: int
  ee_shortfall :: int
  ee_deferred :: bool
  ee_snapshotUpdated :: bool

definition noEdit :: EditEarnResult where
  "noEdit = \<lparr>ee_delta = 0, ee_posted = 0, ee_shortfall = 0, ee_deferred = False, ee_snapshotUpdated = False\<rparr>"

definition postEditEarnAdjustment :: "(LoyaltyDb \<Rightarrow> string) \<Rightarrow> string \<Rightarrow> string \<Rightarrow> int \<Rightarrow> int \<Rightarrow> LoyaltyDb \<Rightarrow> EditEarnResult \<times> LoyaltyDb" where
  "postEditEarnAdjustment gen orderId editId targetEarn now db =
     (case Option.bind (orderById db orderId) od_customerId of
        None \<Rightarrow> (noEdit, db)
      | Some cid \<Rightarrow>
          let snap = Option.bind (orderById db orderId) (\<lambda>o'. orderLoyaltySnapshot (od_metadata o'));
              rows = orderRows db orderId;
              delta = max 0 targetEarn - trackedEarn rows;
              row = emptyRow\<lparr>lr_customerId := cid, lr_orderId := Some orderId, lr_kind := KAdjust,
                      lr_sourceRef := Some (''order_edit:'' @ editId @ '':earn''), lr_reason := Some ''order_edit_earn'', lr_createdAt := now\<rparr>
          in if \<not> list_ex (\<lambda>r. lr_kind r = KEarn) rows \<or> delta = 0 then (noEdit, db)
             else if 0 < delta
             then (case insertLedger gen (row\<lparr>lr_points := delta, lr_expiresAt := expiryFrom now (Option.bind snap os_expiryDays)\<rparr>) db of
                     (ins, db') \<Rightarrow> (if ins then noEdit\<lparr>ee_delta := delta, ee_posted := delta\<rparr> else noEdit, db'))
             else let db1 = snd (postExpiry gen cid now db);
                      posted = min (- delta) (max 0 (lb_available (loyaltyBalance db1 cid now)));
                      shortfall = - delta - posted
                  in case insertLedger gen (row\<lparr>lr_points := - posted, lr_shortfall := shortfall\<rparr>) db1 of
                       (ins, db') \<Rightarrow> (if ins then noEdit\<lparr>ee_delta := delta, ee_posted := - posted, ee_shortfall := shortfall\<rparr> else noEdit, db'))"

text \<open>The JSON operators of the metadata patch: setting a key, \<open>||\<close> with one pair and \<open>-\<close> of a key.\<close>

fun jput :: "string \<Rightarrow> json \<Rightarrow> (string \<times> json) list \<Rightarrow> (string \<times> json) list" where
  "jput k v [] = [(k, v)]"
| "jput k v ((k', w) # kvs) = (if k' = k then (k, v) # kvs else (k', w) # jput k v kvs)"

fun jsonbConcat :: "json \<Rightarrow> string \<Rightarrow> json \<Rightarrow> json" where
  "jsonbConcat (JObj kvs) k v = JObj (jput k v kvs)"
| "jsonbConcat (JArr xs) k v = JArr (xs @ [JObj [(k, v)]])"
| "jsonbConcat s k v = JArr [s, JObj [(k, v)]]"

fun jsonbMinus :: "json \<Rightarrow> string \<Rightarrow> json" where
  "jsonbMinus (JObj kvs) k = JObj (filter (\<lambda>(k', _). k' \<noteq> k) kvs)"
| "jsonbMinus (JArr xs) k = JArr (filter (\<lambda>x. x \<noteq> JStr k) xs)"
| "jsonbMinus s k = s"

definition patchMetadata :: "string \<Rightarrow> json option \<Rightarrow> json option \<Rightarrow> json option" where
  "patchMetadata k v metadata = (case metadata of
       Some (JObj kvs) \<Rightarrow> (case map_of kvs ''loyalty'' of
           Some l \<Rightarrow> Some (JObj (jput ''loyalty'' (case v of Some w \<Rightarrow> jsonbConcat l k w | None \<Rightarrow> jsonbMinus l k) kvs))
         | None \<Rightarrow> metadata)
     | _ \<Rightarrow> metadata)"

definition patchOrderLoyaltyMeta :: "string \<Rightarrow> string \<Rightarrow> json option \<Rightarrow> LoyaltyDb \<Rightarrow> LoyaltyDb" where
  "patchOrderLoyaltyMeta orderId k v db = db\<lparr>ld_orders :=
     map (\<lambda>o'. if od_id o' = orderId then o'\<lparr>od_metadata := patchMetadata k v (od_metadata o')\<rparr> else o') (ld_orders db)\<rparr>"

definition deferredEarn :: "json option \<Rightarrow> json option" where
  "deferredEarn metadata = jget ''deferredEarn'' (jget ''loyalty'' metadata)"

definition jtruthy :: "json option \<Rightarrow> bool" where
  "jtruthy v = (case v of None \<Rightarrow> False | Some JNull \<Rightarrow> False | Some (JBool b) \<Rightarrow> b | Some (JNum r) \<Rightarrow> r \<noteq> 0 | Some (JStr s) \<Rightarrow> s \<noteq> [] | Some _ \<Rightarrow> True)"

definition syncEditEarn :: "(LoyaltyDb \<Rightarrow> string) \<Rightarrow> string \<Rightarrow> string \<Rightarrow> int \<Rightarrow> bool \<Rightarrow> int \<Rightarrow> LoyaltyDb \<Rightarrow> EditEarnResult \<times> LoyaltyDb" where
  "syncEditEarn gen orderId editId targetEarn settled now db =
     (case orderById db orderId of
        None \<Rightarrow> (noEdit, db)
      | Some o' \<Rightarrow> (case (od_customerId o', orderLoyaltySnapshot (od_metadata o')) of
          (Some cid, Some snap) \<Rightarrow>
            let rows = orderRows db orderId;
                target = max 0 targetEarn;
                delta = target - trackedEarn rows
            in if \<not> list_ex (\<lambda>r. lr_kind r = KEarn) rows
               then (if od_state o' \<noteq> PendingPayment \<or> os_earnPoints snap = target then (noEdit, db)
                     else (noEdit\<lparr>ee_delta := target - os_earnPoints snap, ee_snapshotUpdated := True\<rparr>,
                           patchOrderLoyaltyMeta orderId ''earnPoints'' (Some (JNum (of_int target))) db))
               else if 0 < delta \<and> \<not> settled
               then (noEdit\<lparr>ee_delta := delta, ee_deferred := True\<rparr>,
                     patchOrderLoyaltyMeta orderId ''deferredEarn'' (Some (JObj [(''editId'', JStr editId), (''targetEarn'', JNum (of_int target))])) db)
               else postEditEarnAdjustment gen orderId editId target now
                      (if jtruthy (deferredEarn (od_metadata o')) then patchOrderLoyaltyMeta orderId ''deferredEarn'' None db else db)
        | _ \<Rightarrow> (noEdit, db)))"

definition settleDeferredEditEarnForOrder :: "(LoyaltyDb \<Rightarrow> string) \<Rightarrow> (OrderRec \<Rightarrow> int) \<Rightarrow> string \<Rightarrow> int \<Rightarrow> LoyaltyDb \<Rightarrow> int \<times> LoyaltyDb" where
  "settleDeferredEditEarnForOrder gen due orderId now db =
     (case orderById db orderId of
        None \<Rightarrow> (0, db)
      | Some o' \<Rightarrow>
          (case (od_customerId o', jstr (jget ''editId'' (deferredEarn (od_metadata o'))), jint (jget ''targetEarn'' (deferredEarn (od_metadata o')))) of
             (Some cid, Some editId, Some target) \<Rightarrow>
               if editId = [] \<or> (od_state o' \<noteq> Paid \<and> od_state o' \<noteq> PartiallyRefunded) \<or> 0 < due o' then (0, db)
               else (case postEditEarnAdjustment gen orderId editId target now db of
                       (r, db1) \<Rightarrow> (ee_posted r, patchOrderLoyaltyMeta orderId ''deferredEarn'' None db1))
           | _ \<Rightarrow> (0, db)))"

definition settleDeferredEditEarns :: "(LoyaltyDb \<Rightarrow> string) \<Rightarrow> (OrderRec \<Rightarrow> int) \<Rightarrow> string \<Rightarrow> int \<Rightarrow> LoyaltyDb \<Rightarrow> LoyaltyDb" where
  "settleDeferredEditEarns gen due customerId now db =
     foldl (\<lambda>d i. snd (settleDeferredEditEarnForOrder gen due i now d)) db
       (map od_id (filter (\<lambda>o'. od_customerId o' = Some customerId \<and> deferredEarn (od_metadata o') \<noteq> None) (ld_orders db)))"

section \<open>Spending\<close>

definition lockedAvailable :: "(LoyaltyDb \<Rightarrow> string) \<Rightarrow> (OrderRec \<Rightarrow> int) \<Rightarrow> string \<Rightarrow> int \<Rightarrow> LoyaltyDb \<Rightarrow> int \<times> LoyaltyDb" where
  "lockedAvailable gen due customerId now db =
     (let db1 = snd (postExpiry gen customerId now (settleDeferredEditEarns gen due customerId now db))
      in (lb_available (loyaltyBalance db1 customerId now), db1))"

text \<open>Checkout: read what may be spent, plan the redemption, reserve it for the order (\<open>routes/checkout.ts\<close>).\<close>

definition redeemAtCheckout :: "(LoyaltyDb \<Rightarrow> string) \<Rightarrow> (OrderRec \<Rightarrow> int) \<Rightarrow> string \<Rightarrow> string \<Rightarrow> rat \<Rightarrow> int \<Rightarrow> int \<Rightarrow> LoyaltyDb \<Rightarrow> RedeemPlan \<times> LoyaltyDb" where
  "redeemAtCheckout gen due customerId orderId requestedPoints discountableCents now db =
     (case lockedAvailable gen due customerId now db of
        (available, db1) \<Rightarrow>
          (case planRedemption (ld_program db1) requestedPoints available discountableCents of
             RedeemOk points discountCents \<Rightarrow> (RedeemOk points discountCents, reserveRedemption gen customerId orderId points now db1)
           | RedeemRefused r \<Rightarrow> (RedeemRefused r, db)))"

definition adjustPoints :: "(LoyaltyDb \<Rightarrow> string) \<Rightarrow> (OrderRec \<Rightarrow> int) \<Rightarrow> string \<Rightarrow> int \<Rightarrow> string \<Rightarrow> string option \<Rightarrow> int option \<Rightarrow> int \<Rightarrow> LoyaltyDb \<Rightarrow> (bool \<times> LoyaltyBalance) res \<times> LoyaltyDb" where
  "adjustPoints gen due customerId points reason idempotencyKey expiryDays now db =
     (if \<not> isSafeInteger points \<or> points = 0 then (Inl (Err ''points must be a non-zero integer''), db)
      else case lockedAvailable gen due customerId now db of
        (available, db1) \<Rightarrow>
          if points < 0 \<and> available < - points
          then (Inl (Err (''cannot remove '' @ showInt (- points) @ '' points; '' @ showInt available @ '' available'')), db)
          else (case insertLedger gen (emptyRow\<lparr>lr_customerId := customerId, lr_kind := KAdjust, lr_points := points,
                    lr_expiresAt := (if 0 < points then expiryFrom now expiryDays else None),
                    lr_sourceRef := (case idempotencyKey of Some k \<Rightarrow> if k = [] then None else Some (''adjust:'' @ k) | None \<Rightarrow> None),
                    lr_reason := Some reason, lr_createdAt := now\<rparr>) db1 of
                  (ins, db2) \<Rightarrow> (Inr (ins, loyaltyBalance db2 customerId now), db2)))"

section \<open>Bonuses: loyalty/bonus.ts\<close>

datatype BonusRule = BReview | BSignup | BFirstOrder | BBirthday

definition bonusName :: "BonusRule \<Rightarrow> string" where
  "bonusName r = (case r of BReview \<Rightarrow> ''review'' | BSignup \<Rightarrow> ''signup'' | BFirstOrder \<Rightarrow> ''first_order'' | BBirthday \<Rightarrow> ''birthday'')"

definition postBonus :: "(LoyaltyDb \<Rightarrow> string) \<Rightarrow> string \<Rightarrow> int \<Rightarrow> BonusRule \<Rightarrow> string \<Rightarrow> int option \<Rightarrow> string option \<Rightarrow> int \<Rightarrow> LoyaltyDb \<Rightarrow> bool \<times> LoyaltyDb" where
  "postBonus gen customerId points rule sourceRef expiryDays orderId now db =
     (if \<not> isSafeInteger points \<or> points \<le> 0 then (False, db)
      else insertLedger gen (emptyRow\<lparr>lr_customerId := customerId, lr_orderId := orderId, lr_kind := KBonus, lr_points := points,
             lr_expiresAt := expiryFrom now expiryDays, lr_sourceRef := Some sourceRef, lr_reason := Some (''bonus_'' @ bonusName rule), lr_createdAt := now\<rparr>) db)"

record ReviewRec =
  rv_id :: string
  rv_approved :: bool
  rv_customerId :: "string option"
  rv_verifiedBuyer :: bool
  rv_orderId :: "string option"

definition reviewEligible :: "LoyaltyDb \<Rightarrow> ReviewRec \<Rightarrow> bool" where
  "reviewEligible db r \<longleftrightarrow> rv_approved r \<and> lo_enabled (ld_program db) \<and> 0 < lo_reviewBonusPoints (ld_program db) \<and>
     (\<not> lo_reviewBonusVerifiedOnly (ld_program db) \<or> rv_verifiedBuyer r) \<and>
     (case Option.bind (rv_customerId r) (customerById db) of
        None \<Rightarrow> False
      | Some c \<Rightarrow> \<not> cu_deleted c \<and>
          (lo_reviewBonusVerifiedOnly (ld_program db) \<longrightarrow>
             (case Option.bind (rv_orderId r) (orderById db) of None \<Rightarrow> False | Some o' \<Rightarrow> customerOwnsOrder (Some c) o')))"

definition grantReviewBonus :: "(LoyaltyDb \<Rightarrow> string) \<Rightarrow> ReviewRec \<Rightarrow> int \<Rightarrow> LoyaltyDb \<Rightarrow> int \<times> LoyaltyDb" where
  "grantReviewBonus gen r now db =
     (case rv_customerId r of
        None \<Rightarrow> (0, db)
      | Some cid \<Rightarrow>
          if \<not> reviewEligible db r then (0, db)
          else (case postBonus gen cid (lo_reviewBonusPoints (ld_program db)) BReview (''bonus:review:'' @ rv_id r) (lo_expiryDays (ld_program db)) None now db of
                  (ins, db') \<Rightarrow> (if ins then lo_reviewBonusPoints (ld_program db) else 0, db')))"

text \<open>\<open>parseDate\<close> stands for the ISO date parser of \<open>new Date(text)\<close>.\<close>

definition grantSignupBonus :: "(string \<Rightarrow> int) \<Rightarrow> (LoyaltyDb \<Rightarrow> string) \<Rightarrow> string \<Rightarrow> int \<Rightarrow> LoyaltyDb \<Rightarrow> int \<times> LoyaltyDb" where
  "grantSignupBonus parseDate gen customerId now db =
     (let p = ld_program db
      in case (lo_signupBonusSince p, customerById db customerId) of
           (Some since, Some c) \<Rightarrow>
             if \<not> lo_enabled p \<or> lo_signupBonusPoints p \<le> 0 \<or> since = [] \<or> \<not> cu_emailVerified c \<or> cu_deleted c \<or> cu_createdAt c < parseDate since
             then (0, db)
             else (case postBonus gen customerId (lo_signupBonusPoints p) BSignup (''bonus:signup:'' @ customerId) (lo_expiryDays p) None now db of
                     (ins, db') \<Rightarrow> (if ins then lo_signupBonusPoints p else 0, db'))
         | _ \<Rightarrow> (0, db))"

definition PAID_STATES :: "OrderState list" where
  "PAID_STATES = [Paid, PartiallyRefunded, Refunded]"

definition grantFirstOrderBonus :: "(LoyaltyDb \<Rightarrow> string) \<Rightarrow> string \<Rightarrow> int \<Rightarrow> LoyaltyDb \<Rightarrow> int \<times> LoyaltyDb" where
  "grantFirstOrderBonus gen orderId now db =
     (let p = ld_program db
      in case orderById db orderId of
           None \<Rightarrow> (0, db)
         | Some o' \<Rightarrow> (case od_customerId o' of
             None \<Rightarrow> (0, db)
           | Some cid \<Rightarrow>
               if \<not> lo_enabled p \<or> lo_firstOrderBonusPoints p \<le> 0 \<or> \<not> customerOwnsOrder (customerById db cid) o'
                  \<or> list_ex (\<lambda>x. od_customerId x = Some cid \<and> od_id x \<noteq> orderId \<and> od_state x \<in> set PAID_STATES) (ld_orders db)
               then (0, db)
               else (case postBonus gen cid (lo_firstOrderBonusPoints p) BFirstOrder (''bonus:first_order:'' @ cid) (lo_expiryDays p) (Some orderId) now db of
                       (ins, db') \<Rightarrow> (if ins then lo_firstOrderBonusPoints p else 0, db'))))"

definition postPaidOrderRewards :: "(LoyaltyDb \<Rightarrow> string) \<Rightarrow> string \<Rightarrow> int \<Rightarrow> int \<Rightarrow> LoyaltyDb \<Rightarrow> (int \<times> int) \<times> LoyaltyDb" where
  "postPaidOrderRewards gen orderId paidAt now db =
     (case postEarnForPaidOrder gen orderId paidAt db of
        (earned, db1) \<Rightarrow> (case grantFirstOrderBonus gen orderId now db1 of (bonus, db2) \<Rightarrow> ((earned, bonus), db2)))"

definition reverseBonus :: "(LoyaltyDb \<Rightarrow> string) \<Rightarrow> string \<Rightarrow> int \<Rightarrow> LoyaltyDb \<Rightarrow> (int \<times> int) option res \<times> LoyaltyDb" where
  "reverseBonus gen ledgerId now db =
     (case find (\<lambda>r. lr_id r = ledgerId) (ld_rows db) of
        None \<Rightarrow> (Inr None, db)
      | Some row \<Rightarrow>
          if lr_kind row \<noteq> KBonus then (Inl (Err ''only bonus entries can be reversed here''), db)
          else let db1 = snd (postExpiry gen (lr_customerId row) now db);
                   posted = min (lr_points row) (max 0 (lb_available (loyaltyBalance db1 (lr_customerId row) now)));
                   shortfall = lr_points row - posted
               in case insertLedger gen (emptyRow\<lparr>lr_customerId := lr_customerId row, lr_orderId := lr_orderId row, lr_kind := KReverse,
                        lr_points := - posted, lr_shortfall := shortfall, lr_sourceRef := Some (''bonus_reverse:'' @ lr_id row),
                        lr_reason := Some ''bonus_reversal'', lr_createdAt := now\<rparr>) db1 of
                    (ins, db2) \<Rightarrow> if ins then (Inr (Some (posted, shortfall)), db2) else (Inl (Err ''this bonus was already reversed''), db))"

section \<open>Birthdays\<close>

text \<open>The civil date of a UTC time (proleptic Gregorian calendar, eras of 400 years).\<close>

definition utcDate :: "int \<Rightarrow> int \<times> int \<times> int" where
  "utcDate ms =
     (let z = ms div DAY_MS + 719468;
          era = z div 146097;
          doe = z - era * 146097;
          yoe = (doe - doe div 1460 + doe div 36524 - doe div 146096) div 365;
          doy = doe - (365 * yoe + yoe div 4 - yoe div 100);
          mp = (5 * doy + 2) div 153;
          d = doy - (153 * mp + 2) div 5 + 1;
          m = (if mp < 10 then mp + 3 else mp - 9)
      in (yoe + era * 400 + (if m \<le> 2 then 1 else 0), m, d))"

definition isLeap :: "int \<Rightarrow> bool" where
  "isLeap y \<longleftrightarrow> (y mod 4 = 0 \<and> y mod 100 \<noteq> 0) \<or> y mod 400 = 0"

definition birthdayRef :: "string \<Rightarrow> int \<Rightarrow> string" where
  "birthdayRef cid year = ''bonus:birthday:'' @ cid @ '':'' @ showInt year"

definition birthdayDue :: "int \<Rightarrow> LoyaltyDb \<Rightarrow> string option \<Rightarrow> CustomerRec \<Rightarrow> bool" where
  "birthdayDue now db after c = (case utcDate now of (year, month, day) \<Rightarrow>
     (let days = (if month = 2 \<and> day = 28 \<and> \<not> isLeap year then [28, 29] else [day])
      in (case cu_birth c of None \<Rightarrow> False | Some (m, d) \<Rightarrow> m = month \<and> d \<in> set days) \<and> cu_emailVerified c \<and> \<not> cu_deleted c
         \<and> (case after of None \<Rightarrow> True | Some a \<Rightarrow> a < cu_id c)
         \<and> \<not> list_ex (\<lambda>r. lr_customerId r = cu_id c \<and> lr_sourceRef r = Some (birthdayRef (cu_id c) year)) (ld_rows db)))"

definition BIRTHDAY_BATCH :: nat where
  "BIRTHDAY_BATCH = 100"

definition dueCustomers :: "int \<Rightarrow> string option \<Rightarrow> nat \<Rightarrow> LoyaltyDb \<Rightarrow> CustomerRec list" where
  "dueCustomers now after limit db = take limit (sort_key cu_id (filter (birthdayDue now db after) (ld_customers db)))"

definition grantBirthday :: "(LoyaltyDb \<Rightarrow> string) \<Rightarrow> int \<Rightarrow> CustomerRec \<Rightarrow> int \<times> LoyaltyDb \<Rightarrow> int \<times> LoyaltyDb" where
  "grantBirthday gen now c s = (case s of (granted, db) \<Rightarrow>
     (case postBonus gen (cu_id c) (lo_birthdayBonusPoints (ld_program db)) BBirthday (birthdayRef (cu_id c) (fst (utcDate now))) (lo_expiryDays (ld_program db)) None now db of
        (ins, db') \<Rightarrow> (if ins then granted + 1 else granted, db')))"

definition grantBirthdayBonusBatch :: "(LoyaltyDb \<Rightarrow> string) \<Rightarrow> int \<Rightarrow> string option \<Rightarrow> nat \<Rightarrow> LoyaltyDb \<Rightarrow> (int \<times> string option) \<times> LoyaltyDb" where
  "grantBirthdayBonusBatch gen now after limit db =
     (if \<not> lo_enabled (ld_program db) \<or> lo_birthdayBonusPoints (ld_program db) \<le> 0 then ((0, None), db)
      else let due = dueCustomers now after limit db;
               (granted, db') = fold (grantBirthday gen now) due (0, db)
           in ((granted, if length due < limit then None else Some (cu_id (last due))), db'))"

end
