(* ===== verification/LedgerLaws.thy ===== *)
theory LedgerLaws
  imports Ledger
begin

text \<open>
  What the loyalty ledger guarantees over every sequence of operations: no balance is ever
  negative, every row obeys the sign rule of its kind, a source reference is posted once,
  the fast path of the balance agrees with the lot accounting, expired points are written
  off exactly once, and a released order gives back what it took.
\<close>

section \<open>The balance\<close>

definition countedSum :: "LoyaltyDb \<Rightarrow> CustomerRec \<Rightarrow> LedgerRow list \<Rightarrow> int" where
  "countedSum db c rows = sum_list (map lr_points (filter (counts db c) rows))"

definition totalOf :: "LoyaltyDb \<Rightarrow> string \<Rightarrow> int" where
  "totalOf db cid = (case customerById db cid of None \<Rightarrow> 0 | Some c \<Rightarrow> countedSum db c (ld_rows db))"

lemma foldl_le_points: "foldl (\<lambda>n e. n + le_points e) a es = a + sum_list (map le_points es)"
  by (induction es arbitrary: a) auto

lemma entries_balance: "foldl (\<lambda>n e. n + le_points e) 0 (customerEntries db cid) = totalOf db cid"
  by (simp add: foldl_le_points customerEntries_def totalOf_def countedSum_def entryOfRow_def comp_def sum_list_sort_key split: option.splits)

lemma entries_set: "customerById db cid = Some c \<Longrightarrow> set (customerEntries db cid) = entryOfRow ` set (filter (counts db c) (ld_rows db))"
  by (simp add: customerEntries_def)

text \<open>The reference: lot accounting on every read.\<close>

definition slowBalance :: "LoyaltyDb \<Rightarrow> string \<Rightarrow> int \<Rightarrow> LoyaltyBalance" where
  "slowBalance db cid now =
     (let balance = totalOf db cid; pending = min (max 0 balance) (unpostedExpiredPoints (customerEntries db cid) now)
      in \<lparr>lb_balance = balance, lb_pendingExpiry = pending, lb_available = max 0 (balance - pending)\<rparr>)"

lemma unposted_Nil: "unpostedExpiredPoints [] now = 0"
  by (simp add: unpostedExpiredPoints_def expiredRemaining_def)

lemma loyaltyBalance_slow: "loyaltyBalance db cid now = slowBalance db cid now"
proof (cases "customerById db cid")
  case None
  then show ?thesis by (simp add: loyaltyBalance_def slowBalance_def totalOf_def customerEntries_def unposted_Nil)
next
  case (Some c)
  let ?rows = "filter (counts db c) (ld_rows db)"
  let ?exp = "filter (\<lambda>r. 0 < lr_points r \<and> (case lr_expiresAt r of None \<Rightarrow> False | Some e \<Rightarrow> e \<le> now)) ?rows"
  show ?thesis
  proof (cases "?exp = []")
    case True
    have "unpostedExpiredPoints (customerEntries db cid) now = 0"
      using True by (intro unposted_fast_path) (auto simp: entries_set[OF Some] entryOfRow_def filter_empty_conv expiredAt_def)
    then show ?thesis using Some True by (simp add: loyaltyBalance_def slowBalance_def totalOf_def countedSum_def Let_def)
  next
    case False
    have b: "foldl (\<lambda>n e. n + le_points e) 0 (customerEntries db cid) = totalOf db cid" by (rule entries_balance)
    show ?thesis using Some False by (simp add: loyaltyBalance_def slowBalance_def Let_def b del: filter_filter)
  qed
qed

lemma balance_bounds:
  assumes "0 \<le> totalOf db cid"
  shows "lb_available (loyaltyBalance db cid now) \<le> totalOf db cid" "lb_pendingExpiry (loyaltyBalance db cid now) \<le> totalOf db cid"
    "0 \<le> lb_available (loyaltyBalance db cid now)"
  using assms unposted_nonneg[of "customerEntries db cid" now] by (auto simp: loyaltyBalance_slow slowBalance_def Let_def)

section \<open>The invariant\<close>

definition rowOk :: "LedgerRow \<Rightarrow> bool" where
  "rowOk r \<longleftrightarrow> 0 \<le> lr_shortfall r \<and> (lr_kind r \<in> {KEarn, KImport, KBonus} \<longrightarrow> 0 \<le> lr_points r)
     \<and> (lr_kind r \<in> {KRedeem, KExpire} \<longrightarrow> lr_points r \<le> 0)"

definition ledgerInv :: "LoyaltyDb \<Rightarrow> bool" where
  "ledgerInv db \<longleftrightarrow> (\<forall>cid. 0 \<le> totalOf db cid) \<and> (\<forall>r\<in>set (ld_rows db). rowOk r)
     \<and> distinct (List.map_filter lr_sourceRef (ld_rows db)) \<and> distinct (map lr_id (ld_rows db))"

lemma ledgerInv_total: "ledgerInv db \<Longrightarrow> 0 \<le> totalOf db cid"
  by (simp add: ledgerInv_def)

lemma customerById_id: "customerById db cid = Some c \<Longrightarrow> cu_id c = cid"
  by (auto simp: customerById_def dest: find_Some_in_set)

lemma orderById_rows [simp]: "orderById (db\<lparr>ld_rows := rs\<rparr>) = orderById db"
  by (simp add: orderById_def fun_eq_iff)

lemma counts_rows [simp]: "counts (db\<lparr>ld_rows := rs\<rparr>) = counts db"
  by (auto simp: counts_def fun_eq_iff split: option.splits)

lemma customerById_rows [simp]: "customerById (db\<lparr>ld_rows := rs\<rparr>) = customerById db"
  by (simp add: customerById_def fun_eq_iff)

lemma totalOf_append:
  "totalOf (db\<lparr>ld_rows := ld_rows db @ [r]\<rparr>) cid =
     totalOf db cid + (case customerById db cid of Some c \<Rightarrow> if counts db c r then lr_points r else 0 | None \<Rightarrow> 0)"
  by (simp add: totalOf_def countedSum_def split: option.splits)

lemma map_filter_append: "List.map_filter f (xs @ ys) = List.map_filter f xs @ List.map_filter f ys"
  by (simp add: List.map_filter_def)

lemma insert_inv:
  assumes inv: "ledgerInv db" and ok: "rowOk row" and pts: "- lr_points row \<le> totalOf db (lr_customerId row)"
  shows "ledgerInv (snd (insertLedger gen row db))"
proof (cases "list_ex (\<lambda>r. lr_id r = gen db \<or> (lr_sourceRef row \<noteq> None \<and> lr_sourceRef r = lr_sourceRef row)) (ld_rows db)")
  case True
  then show ?thesis using inv by (simp add: insertLedger_def Let_def)
next
  case False
  let ?row = "row\<lparr>lr_id := gen db\<rparr>"
  have db': "snd (insertLedger gen row db) = db\<lparr>ld_rows := ld_rows db @ [?row]\<rparr>"
    using False by (simp add: insertLedger_def Let_def)
  have "0 \<le> totalOf (db\<lparr>ld_rows := ld_rows db @ [?row]\<rparr>) cid" for cid
  proof -
    have "cid = lr_customerId row" if "customerById db cid = Some c" "counts db c ?row" for c
      using that customerById_id[OF that(1)] by (simp add: counts_def)
    then show ?thesis using ledgerInv_total[OF inv, of cid] pts by (auto simp: totalOf_append split: option.splits)
  qed
  moreover have "lr_sourceRef row = Some s \<Longrightarrow> s \<notin> set (List.map_filter lr_sourceRef (ld_rows db))" for s
    using False by (auto simp: list_ex_iff List.map_filter_def)
  ultimately show ?thesis using inv ok False
    by (auto simp: db' ledgerInv_def rowOk_def map_filter_append list_ex_iff List.map_filter_def split: option.splits)
qed

lemma insert_debit:
  assumes "ledgerInv db" "rowOk row" "- lr_points row \<le> lb_available (loyaltyBalance db (lr_customerId row) now)"
  shows "ledgerInv (snd (insertLedger gen row db))"
  using assms insert_inv[of db row gen] balance_bounds(1)[of db "lr_customerId row" now] ledgerInv_total[of db "lr_customerId row"]
  by linarith

lemma insert_credit:
  assumes "ledgerInv db" "rowOk row" "0 \<le> lr_points row"
  shows "ledgerInv (snd (insertLedger gen row db))"
  using assms insert_inv[of db row gen] ledgerInv_total[of db "lr_customerId row"] by linarith


lemma emptyRow_sel [simp]:
  "lr_shortfall emptyRow = 0" "lr_orderId emptyRow = None" "lr_sourceRef emptyRow = None" "lr_points emptyRow = 0" "lr_kind emptyRow = KAdjust"
  by (simp_all add: emptyRow_def)

section \<open>Every operation keeps the invariant\<close>

lemma postExpiry_inv: "ledgerInv db \<Longrightarrow> ledgerInv (snd (postExpiry gen cid now db))"
  using balance_bounds(2)[of db cid now] ledgerInv_total[of db cid]
  by (auto simp: postExpiry_def Let_def rowOk_def intro!: insert_inv)

lemma reserveRedemption_inv:
  "\<lbrakk>ledgerInv db; points \<le> lb_available (loyaltyBalance db cid t)\<rbrakk> \<Longrightarrow> ledgerInv (reserveRedemption gen cid oid points now db)"
  by (auto simp: reserveRedemption_def rowOk_def intro!: insert_debit[where now = t])

lemma fst_snd_case: "(case p of (a, b) \<Rightarrow> (f a, b)) = (f (fst p), snd p)"
  by (simp add: split_beta)

lemma postEarn_inv: "ledgerInv db \<Longrightarrow> ledgerInv (snd (postEarnForPaidOrder gen oid now db))"
  by (auto simp: postEarnForPaidOrder_def fst_snd_case rowOk_def intro!: insert_credit split: option.splits)

lemma restoreLeg_inv: "ledgerInv db \<Longrightarrow> ledgerInv (snd (restoreLeg gen cid oid rid ex ref delta now db))"
  by (auto simp: restoreLeg_def fst_snd_case rowOk_def intro!: insert_credit)

text \<open>A capped debit: what is posted never exceeds what is available after expiry.\<close>

lemma capped_debit_inv:
  assumes "ledgerInv db" "lr_customerId row = cid" "lr_kind row = KReverse \<or> lr_kind row = KAdjust" "0 \<le> lr_shortfall row"
    "- lr_points row \<le> max 0 (lb_available (loyaltyBalance db cid now))"
  shows "ledgerInv (snd (insertLedger gen row db))"
  using assms balance_bounds(3)[OF ledgerInv_total[OF assms(1)], of cid now]
  by (intro insert_debit[where now = now]) (auto simp: rowOk_def)

lemma reverseLeg_inv: "ledgerInv db \<Longrightarrow> ledgerInv (snd (reverseLeg gen cid oid rid ref delta now db))"
  using postExpiry_inv[of db gen cid now]
  by (auto simp: reverseLeg_def Let_def fst_snd_case intro!: capped_debit_inv[where now = now])

lemma reconcile_inv: "ledgerInv db \<Longrightarrow> ledgerInv (snd (reconcileOrderLoyalty gen oid n d ref rid st now db))"
proof -
  assume inv: "ledgerInv db"
  have two: "ledgerInv (snd (reverseLeg gen c oid rid ref e now (snd (restoreLeg gen c oid rid ex ref delta now db))))" for c e ex delta
    by (intro reverseLeg_inv restoreLeg_inv inv)
  show ?thesis using inv two
    by (auto simp: reconcileOrderLoyalty_def Let_def split_beta split: list.splits)
qed

lemma postEdit_inv:
  assumes inv: "ledgerInv db"
  shows "ledgerInv (snd (postEditEarnAdjustment gen oid eid target now db))"
proof (cases "trackedEarn (orderRows db oid) < max 0 target")
  case True
  then show ?thesis using inv
    by (auto simp: postEditEarnAdjustment_def Let_def fst_snd_case rowOk_def split: option.splits intro!: insert_credit)
next
  case False
  then show ?thesis using inv postExpiry_inv[OF inv, of gen _ now]
    by (auto simp: postEditEarnAdjustment_def Let_def fst_snd_case split: option.splits intro!: capped_debit_inv[where now = now])
qed

text \<open>Patching the loyalty block of an order's metadata changes no ownership.\<close>

lemma map_of_jput: "map_of (jput k v kvs) k' = (if k' = k then Some v else map_of kvs k')"
  by (induction kvs) auto

lemma patchMetadata_owner [simp]:
  "linkedByEmail (patchMetadata k v m) = linkedByEmail m" "contactEmail (patchMetadata k v m) = contactEmail m"
  by (auto simp: linkedByEmail_def contactEmail_def patchMetadata_def map_of_jput split: option.splits json.splits)

lemma orderById_patch:
  "orderById (patchOrderLoyaltyMeta oid k v db) i =
     map_option (\<lambda>o'. if od_id o' = oid then o'\<lparr>od_metadata := patchMetadata k v (od_metadata o')\<rparr> else o') (orderById db i)"
  unfolding orderById_def patchOrderLoyaltyMeta_def by (simp add: find_map_same)

lemma counts_patch [simp]: "counts (patchOrderLoyaltyMeta oid k v db) = counts db"
  by (auto simp: counts_def orderById_patch fun_eq_iff orderProvenanceFilter_def split: option.splits)

lemma patch_sel [simp]:
  "ld_rows (patchOrderLoyaltyMeta oid k v db) = ld_rows db" "ld_customers (patchOrderLoyaltyMeta oid k v db) = ld_customers db"
  "ld_program (patchOrderLoyaltyMeta oid k v db) = ld_program db" "customerById (patchOrderLoyaltyMeta oid k v db) = customerById db"
  by (simp_all add: patchOrderLoyaltyMeta_def customerById_def fun_eq_iff)

lemma patch_inv [simp]: "ledgerInv (patchOrderLoyaltyMeta oid k v db) = ledgerInv db"
proof -
  have "totalOf (patchOrderLoyaltyMeta oid k v db) cid = totalOf db cid" for cid
    by (auto simp: totalOf_def countedSum_def split: option.splits)
  then show ?thesis by (simp add: ledgerInv_def)
qed

lemma syncEdit_inv: "ledgerInv db \<Longrightarrow> ledgerInv (snd (syncEditEarn gen oid eid target settled now db))"
  by (auto simp: syncEditEarn_def Let_def intro!: postEdit_inv split: option.splits)

lemma settleOne_inv: "ledgerInv db \<Longrightarrow> ledgerInv (snd (settleDeferredEditEarnForOrder gen due oid now db))"
  by (auto simp: settleDeferredEditEarnForOrder_def split_beta intro!: postEdit_inv split: option.splits)

lemma settleAll_inv: "ledgerInv db \<Longrightarrow> ledgerInv (settleDeferredEditEarns gen due cid now db)"
proof -
  have "ledgerInv d \<Longrightarrow> ledgerInv (foldl (\<lambda>d i. snd (settleDeferredEditEarnForOrder gen due i now d)) d is)" for d "is"
    by (induction "is" arbitrary: d) (auto intro: settleOne_inv)
  then show "ledgerInv db \<Longrightarrow> ?thesis" by (simp add: settleDeferredEditEarns_def)
qed

lemma lockedAvailable_inv:
  "ledgerInv db \<Longrightarrow> ledgerInv (snd (lockedAvailable gen due cid now db))"
  "fst (lockedAvailable gen due cid now db) = lb_available (loyaltyBalance (snd (lockedAvailable gen due cid now db)) cid now)"
  by (auto simp: lockedAvailable_def Let_def intro!: postExpiry_inv settleAll_inv)

lemma plan_within_available:
  assumes "planRedemption cfg req available base = RedeemOk points disc"
  shows "points \<le> max 0 available"
proof -
  have "points \<le> \<lfloor>req\<rfloor>" "\<lfloor>req\<rfloor> \<le> available"
    using assms by (auto simp: planRedemption_def Let_def not_less intro: min.cobounded1 split: if_splits)
  then show ?thesis by linarith
qed

lemma redeem_inv: "ledgerInv db \<Longrightarrow> ledgerInv (snd (redeemAtCheckout gen due cid oid req base now db))"
proof -
  assume inv: "ledgerInv db"
  let ?db1 = "snd (lockedAvailable gen due cid now db)"
  have i1: "ledgerInv ?db1" by (rule lockedAvailable_inv(1)[OF inv])
  have av: "0 \<le> lb_available (loyaltyBalance ?db1 cid now)" by (rule balance_bounds(3)[OF ledgerInv_total[OF i1]])
  show ?thesis
    using inv i1 av plan_within_available lockedAvailable_inv(2)[of gen due cid now db]
    by (auto simp: redeemAtCheckout_def split_beta intro!: reserveRedemption_inv[where t = now] split: RedeemPlan.splits) fastforce
qed

lemma adjust_inv: "ledgerInv db \<Longrightarrow> ledgerInv (snd (adjustPoints gen due cid points reason key ex now db))"
proof -
  assume inv: "ledgerInv db"
  let ?db1 = "snd (lockedAvailable gen due cid now db)"
  have i1: "ledgerInv ?db1" by (rule lockedAvailable_inv(1)[OF inv])
  have av: "0 \<le> lb_available (loyaltyBalance ?db1 cid now)" by (rule balance_bounds(3)[OF ledgerInv_total[OF i1]])
  show ?thesis
    using inv i1 av lockedAvailable_inv(2)[of gen due cid now db]
    by (auto simp: adjustPoints_def split_beta rowOk_def intro!: insert_debit[where now = now])
qed

lemma postBonus_inv: "ledgerInv db \<Longrightarrow> ledgerInv (snd (postBonus gen cid points rule ref ex oid now db))"
  by (auto simp: postBonus_def rowOk_def intro!: insert_credit)

lemma grants_inv:
  assumes "ledgerInv db"
  shows "ledgerInv (snd (grantReviewBonus gen r now db))" "ledgerInv (snd (grantSignupBonus pd gen cid now db))"
    "ledgerInv (snd (grantFirstOrderBonus gen oid now db))" "ledgerInv (snd (grantBirthday gen now c (n, db)))"
  using assms postBonus_inv[OF assms]
  by (auto simp: grantReviewBonus_def grantSignupBonus_def grantFirstOrderBonus_def grantBirthday_def Let_def fst_snd_case split: option.splits)

lemma paidRewards_inv: "ledgerInv db \<Longrightarrow> ledgerInv (snd (postPaidOrderRewards gen oid paidAt now db))"
  by (auto simp: postPaidOrderRewards_def split_beta intro!: grants_inv postEarn_inv)

lemma birthdays_fold_inv: "ledgerInv (snd s) \<Longrightarrow> ledgerInv (snd (fold (grantBirthday gen now) cs s))"
proof (induction cs arbitrary: s)
  case (Cons c cs)
  have "ledgerInv (snd (grantBirthday gen now c s))"
    using grants_inv(4)[OF Cons.prems, of gen now c "fst s"] by simp
  then show ?case by (simp add: Cons.IH)
qed simp

lemma birthday_inv: "ledgerInv db \<Longrightarrow> ledgerInv (snd (grantBirthdayBonusBatch gen now after limit db))"
  using birthdays_fold_inv[of "(0, db)" gen now] by (auto simp: grantBirthdayBonusBatch_def Let_def split_beta)

lemma reverseBonus_inv: "ledgerInv db \<Longrightarrow> ledgerInv (snd (reverseBonus gen lid now db))"
  using postExpiry_inv[of db gen _ now]
  by (auto simp: reverseBonus_def Let_def split_beta intro!: capped_debit_inv[where now = now] split: option.splits)

section \<open>Runs\<close>

text \<open>The calls the routes and the jobs make, with their arguments.\<close>

datatype LedgerOp =
    OpRedeem string string rat int int
  | OpAdjust string int string "string option" "int option" int
  | OpPaid string int int
  | OpRelease string "LoyaltySettings option" int
  | OpRefund string string int int int
  | OpSyncEdit string string int bool int
  | OpSettle string int
  | OpExpire string int
  | OpReview ReviewRec int
  | OpSignup string int
  | OpBirthdays int "string option" nat
  | OpReverseBonus string int
  | EnvProgram LoyaltySettings
  | EnvOrder OrderRec

text \<open>The rest of the store moves too: the settings change, an order is created under a new id, or an
  existing order changes its state and total.\<close>

definition envOrder :: "OrderRec \<Rightarrow> LoyaltyDb \<Rightarrow> LoyaltyDb" where
  "envOrder o' db =
     (if orderById db (od_id o') \<noteq> None
      then db\<lparr>ld_orders := map (\<lambda>x. if od_id x = od_id o' then x\<lparr>od_state := od_state o', od_grandTotal := od_grandTotal o'\<rparr> else x) (ld_orders db)\<rparr>
      else if list_ex (\<lambda>r. lr_orderId r = Some (od_id o')) (ld_rows db) then db
      else db\<lparr>ld_orders := ld_orders db @ [o']\<rparr>)"

fun applyOp :: "(string \<Rightarrow> int) \<Rightarrow> (LoyaltyDb \<Rightarrow> string) \<Rightarrow> (OrderRec \<Rightarrow> int) \<Rightarrow> LedgerOp \<Rightarrow> LoyaltyDb \<Rightarrow> LoyaltyDb" where
  "applyOp pd gen due (OpRedeem cid oid req base now) db = snd (redeemAtCheckout gen due cid oid req base now db)"
| "applyOp pd gen due (OpAdjust cid pts reason key ex now) db = snd (adjustPoints gen due cid pts reason key ex now db)"
| "applyOp pd gen due (OpPaid oid paidAt now) db = snd (postPaidOrderRewards gen oid paidAt now db)"
| "applyOp pd gen due (OpRelease oid st now) db = snd (releaseOrderLoyalty gen oid st now db)"
| "applyOp pd gen due (OpRefund oid rid refunded captured now) db = snd (reconcileRefundLoyalty gen oid rid refunded captured now db)"
| "applyOp pd gen due (OpSyncEdit oid eid target settled now) db = snd (syncEditEarn gen oid eid target settled now db)"
| "applyOp pd gen due (OpSettle oid now) db = snd (settleDeferredEditEarnForOrder gen due oid now db)"
| "applyOp pd gen due (OpExpire cid now) db = snd (postExpiry gen cid now db)"
| "applyOp pd gen due (OpReview r now) db = snd (grantReviewBonus gen r now db)"
| "applyOp pd gen due (OpSignup cid now) db = snd (grantSignupBonus pd gen cid now db)"
| "applyOp pd gen due (OpBirthdays now after limit) db = snd (grantBirthdayBonusBatch gen now after limit db)"
| "applyOp pd gen due (OpReverseBonus lid now) db = snd (reverseBonus gen lid now db)"
| "applyOp pd gen due (EnvProgram p) db = db\<lparr>ld_program := p\<rparr>"
| "applyOp pd gen due (EnvOrder o') db = envOrder o' db"

lemma ledgerInv_cong:
  assumes "ld_rows d = ld_rows db" "ld_customers d = ld_customers db"
    and "\<And>c r. r \<in> set (ld_rows db) \<Longrightarrow> counts d c r = counts db c r"
  shows "ledgerInv d = ledgerInv db"
proof -
  have "totalOf d cid = totalOf db cid" for cid
  proof -
    have "filter (counts d c) (ld_rows db) = filter (counts db c) (ld_rows db)" for c
      using assms(3) by (auto intro: filter_cong)
    then show ?thesis using assms(1,2) by (auto simp: totalOf_def countedSum_def customerById_def split: option.splits)
  qed
  then show ?thesis using assms(1) by (simp add: ledgerInv_def)
qed

lemma program_inv: "ledgerInv (db\<lparr>ld_program := p\<rparr>) = ledgerInv db"
  by (rule ledgerInv_cong) (simp_all add: counts_def orderById_def cong: option.case_cong)

lemma orderById_envOrder:
  "orderById db (od_id o') \<noteq> None \<Longrightarrow> orderById (envOrder o' db) i =
     map_option (\<lambda>x. if od_id x = od_id o' then x\<lparr>od_state := od_state o', od_grandTotal := od_grandTotal o'\<rparr> else x) (orderById db i)"
  by (simp add: envOrder_def orderById_def find_map_same)

lemma envOrder_inv: "ledgerInv db \<Longrightarrow> ledgerInv (envOrder o' db)"
proof (cases "orderById db (od_id o') = None")
  case False
  have "ledgerInv (envOrder o' db) = ledgerInv db"
    using False by (intro ledgerInv_cong)
      (auto simp: counts_def orderById_envOrder orderProvenanceFilter_def split: option.splits, auto simp: envOrder_def)
  then show "ledgerInv db \<Longrightarrow> ?thesis" by simp
next
  case True
  have "ledgerInv (envOrder o' db) = ledgerInv db"
    using True by (intro ledgerInv_cong) (auto simp: envOrder_def counts_def orderById_def find_append list_ex_iff split: option.splits)
  then show "ledgerInv db \<Longrightarrow> ?thesis" by simp
qed

lemma applyOp_inv: "ledgerInv db \<Longrightarrow> ledgerInv (applyOp pd gen due l db)"
  by (cases l) (auto simp: releaseOrderLoyalty_def reconcileRefundLoyalty_def intro: redeem_inv adjust_inv paidRewards_inv
      reconcile_inv syncEdit_inv settleOne_inv postExpiry_inv grants_inv birthday_inv reverseBonus_inv envOrder_inv program_inv[THEN iffD2])

interpretation lm: machine "applyOp pd gen due" ledgerInv for pd gen due
  by unfold_locales (rule applyOp_inv)

text \<open>An empty ledger, with any orders, customers and settings.\<close>

lemma ledgerInv_empty: "ledgerInv \<lparr>ld_rows = [], ld_orders = os, ld_customers = cs, ld_program = p\<rparr>"
  by (auto simp: ledgerInv_def totalOf_def countedSum_def List.map_filter_def split: option.splits)

text \<open>C1: over every sequence of ledger operations from an empty ledger, whatever ids the database
  draws, whatever amounts are due and however settings and orders change meanwhile, no customer's
  balance is negative, what may be spent is between 0 and the balance, every row obeys the sign of
  its kind (earnings positive, redemptions and expiries negative, shortfalls never negative) and no
  source reference is posted twice.\<close>

theorem ledger_never_negative:
  "let db = fold (applyOp pd gen due) ops \<lparr>ld_rows = [], ld_orders = os, ld_customers = cs, ld_program = p\<rparr>
   in 0 \<le> lb_balance (loyaltyBalance db cid now) \<and> 0 \<le> lb_available (loyaltyBalance db cid now)
    \<and> lb_available (loyaltyBalance db cid now) \<le> lb_balance (loyaltyBalance db cid now)
    \<and> list_all rowOk (ld_rows db) \<and> distinct (List.map_filter lr_sourceRef (ld_rows db))"
proof -
  define db where "db = fold (applyOp pd gen due) ops \<lparr>ld_rows = [], ld_orders = os, ld_customers = cs, ld_program = p\<rparr>"
  have inv: "ledgerInv db" unfolding db_def by (rule lm.run_inv[OF ledgerInv_empty])
  have "lb_balance (loyaltyBalance db cid now) = totalOf db cid"
    by (simp add: loyaltyBalance_slow slowBalance_def Let_def)
  then show ?thesis
    using inv ledgerInv_total[OF inv, of cid] balance_bounds[OF ledgerInv_total[OF inv], of cid now]
    by (simp add: ledgerInv_def list_all_iff flip: db_def)
qed

text \<open>C27: the balance read takes a fast path when no lot has expired and otherwise replays the ledger
  (one ordered scan, lots consumed first in first out); for every state both give the reference
  result of the replay.\<close>

theorem balance_fast_path: "loyaltyBalance db cid now = slowBalance db cid now"
  by (rule loyaltyBalance_slow)

section \<open>Releasing an order\<close>

definition refFresh :: "string \<Rightarrow> LoyaltyDb \<Rightarrow> bool" where
  "refFresh ref db \<longleftrightarrow> \<not> list_ex (\<lambda>r. lr_sourceRef r = Some ref) (ld_rows db)"

definition genFresh :: "(LoyaltyDb \<Rightarrow> string) \<Rightarrow> bool" where
  "genFresh gen \<longleftrightarrow> (\<forall>db. gen db \<notin> lr_id ` set (ld_rows db))"

lemma insert_fresh:
  assumes "genFresh gen" "lr_sourceRef row = Some ref" "refFresh ref db"
  shows "insertLedger gen row db = (True, db\<lparr>ld_rows := ld_rows db @ [row\<lparr>lr_id := gen db\<rparr>]\<rparr>)"
proof -
  have "lr_id r \<noteq> gen db" if "r \<in> set (ld_rows db)" for r using assms(1) that unfolding genFresh_def by (metis imageI)
  then show ?thesis using assms by (auto simp: insertLedger_def Let_def list_ex_iff refFresh_def)
qed

lemma orderRows_append [simp]:
  "orderRows (db\<lparr>ld_rows := ld_rows db @ [r]\<rparr>) oid = orderRows db oid @ (if lr_orderId r = Some oid then [r] else [])"
  by (simp add: orderRows_def)

lemma orderRows_insert_other: "lr_orderId row = None \<Longrightarrow> orderRows (snd (insertLedger gen row db)) oid = orderRows db oid"
  by (simp add: insertLedger_def Let_def)

lemma orderRows_postExpiry [simp]: "orderRows (snd (postExpiry gen cid now db)) oid = orderRows db oid"
  by (simp add: postExpiry_def Let_def orderRows_insert_other)

lemma refFresh_append [simp]:
  "refFresh ref (db\<lparr>ld_rows := ld_rows db @ [r]\<rparr>) \<longleftrightarrow> refFresh ref db \<and> lr_sourceRef r \<noteq> Some ref"
  by (auto simp: refFresh_def)

lemma refFresh_postExpiry: "refFresh (CHR ''c'' # ref) db \<Longrightarrow> refFresh (CHR ''c'' # ref) (snd (postExpiry gen cid now db))"
  by (auto simp: postExpiry_def Let_def insertLedger_def refFresh_def)

lemmas orderSums = redeemedOf_def restoredOf_def trackedEarn_def earnReversedOf_def

lemma restoreLeg_rows:
  assumes "genFresh gen" "refFresh (ref @ '':restore'') db"
  shows "\<exists>tail. orderRows (snd (restoreLeg gen cid oid rid ex ref delta now db)) oid = orderRows db oid @ tail
     \<and> redeemedOf tail = 0 \<and> restoredOf tail = max 0 delta \<and> trackedEarn tail = 0 \<and> earnReversedOf tail = 0"
proof (cases "delta \<le> 0")
  case True
  then show ?thesis by (simp add: restoreLeg_def orderSums)
next
  case False
  then show ?thesis by (simp add: restoreLeg_def insert_fresh[OF assms(1) _ assms(2)] orderSums)
qed

lemma reverseLeg_rows:
  assumes "genFresh gen" "refFresh ((CHR ''c'' # ref) @ '':earn'') db"
  shows "\<exists>tail. orderRows (snd (reverseLeg gen cid oid rid (CHR ''c'' # ref) delta now db)) oid = orderRows db oid @ tail
     \<and> redeemedOf tail = 0 \<and> restoredOf tail = 0 \<and> trackedEarn tail = 0 \<and> earnReversedOf tail = max 0 delta"
proof (cases "delta \<le> 0")
  case True
  then show ?thesis by (simp add: reverseLeg_def orderSums)
next
  case False
  let ?db1 = "snd (postExpiry gen cid now db)"
  have "refFresh (CHR ''c'' # (ref @ '':earn'')) ?db1" using assms(2) by (intro refFresh_postExpiry) simp
  then show ?thesis using False
    by (simp add: reverseLeg_def Let_def split_beta insert_fresh[OF assms(1), where ref = "CHR ''c'' # (ref @ '':earn'')"] orderSums)
qed

lemma restoreLeg_refs:
  "refFresh (ref @ '':earn'') db \<Longrightarrow> refFresh (ref @ '':earn'') (snd (restoreLeg gen cid oid rid ex ref delta now db))"
  by (auto simp: restoreLeg_def insertLedger_def Let_def refFresh_def)

lemma orderSums_append:
  "redeemedOf (xs @ ys) = redeemedOf xs + redeemedOf ys" "restoredOf (xs @ ys) = restoredOf xs + restoredOf ys"
  "trackedEarn (xs @ ys) = trackedEarn xs + trackedEarn ys" "earnReversedOf (xs @ ys) = earnReversedOf xs + earnReversedOf ys"
  by (simp_all add: orderSums)

text \<open>C28: cancelling an order settles its points in full. If the two cancellation rows were not posted
  before, then afterwards exactly the redeemed points have been given back and the whole tracked
  earning has been taken back or recorded as shortfall, whatever partial refunds went before.\<close>

theorem release_order_converges:
  assumes gen: "genFresh gen"
    and "refFresh (''cancel:'' @ oid @ '':restore'') db" "refFresh (''cancel:'' @ oid @ '':earn'') db"
    and "restoredOf (orderRows db oid) \<le> max 0 (redeemedOf (orderRows db oid))"
    and "earnReversedOf (orderRows db oid) \<le> max 0 (trackedEarn (orderRows db oid))"
    and ne: "orderRows db oid \<noteq> []"
  shows "let rows = orderRows (snd (releaseOrderLoyalty gen oid settings now db)) oid
     in restoredOf rows = max 0 (redeemedOf rows) \<and> earnReversedOf rows = max 0 (trackedEarn rows)"
proof -
  obtain r rs where rows: "orderRows db oid = r # rs" using ne by (cases "orderRows db oid") auto
  let ?ref = "''cancel:'' @ oid"
  let ?ex = "case settings of Some s \<Rightarrow> lo_expiryDays s | None \<Rightarrow> lo_expiryDays (ld_program db)"
  let ?d = "proportionalTarget (redeemedOf (r # rs)) 1 1 - restoredOf (r # rs)"
  let ?e = "proportionalTarget (max 0 (trackedEarn (r # rs))) 1 1 - earnReversedOf (r # rs)"
  let ?db1 = "snd (restoreLeg gen (lr_customerId r) oid None ?ex ?ref ?d now db)"
  have one: "proportionalTarget t 1 1 = max 0 t" for t by (simp add: proportionalTarget_def)
  obtain t1 where t1: "orderRows ?db1 oid = (r # rs) @ t1" "redeemedOf t1 = 0" "restoredOf t1 = max 0 ?d" "trackedEarn t1 = 0" "earnReversedOf t1 = 0"
    using restoreLeg_rows[OF gen, of ?ref db "lr_customerId r" oid None ?ex ?d now] assms(2) rows by auto
  have fr: "refFresh ((CHR ''c'' # (''ancel:'' @ oid)) @ '':earn'') ?db1"
    using restoreLeg_refs[of ?ref db] assms(3) by simp
  obtain t2 where t2: "orderRows (snd (reverseLeg gen (lr_customerId r) oid None ?ref ?e now ?db1)) oid = orderRows ?db1 oid @ t2"
    "redeemedOf t2 = 0" "restoredOf t2 = 0" "trackedEarn t2 = 0" "earnReversedOf t2 = max 0 ?e"
    using reverseLeg_rows[OF gen fr, of "lr_customerId r" oid None ?e now] by auto
  have "snd (releaseOrderLoyalty gen oid settings now db) = snd (reverseLeg gen (lr_customerId r) oid None ?ref ?e now ?db1)"
    by (simp add: releaseOrderLoyalty_def reconcileOrderLoyalty_def rows Let_def split_beta)
  moreover have "orderRows (snd (reverseLeg gen (lr_customerId r) oid None ?ref ?e now ?db1)) oid = (r # rs) @ t1 @ t2"
    using t1(1) t2(1) by simp
  ultimately have "orderRows (snd (releaseOrderLoyalty gen oid settings now db)) oid = (r # rs) @ t1 @ t2" by metis
  then show ?thesis using t1(2-) t2(2-) assms(4,5)[unfolded rows] by (simp only: Let_def orderSums_append one) linarith
qed

text \<open>A generator for examples: longer than every id in use.\<close>

definition longId :: "LoyaltyDb \<Rightarrow> string" where
  "longId db = concat (map lr_id (ld_rows db)) @ ''x''"

lemma longId_fresh: "genFresh longId"
proof -
  have len: "r \<in> set rs \<Longrightarrow> length (lr_id r) \<le> length (concat (map lr_id rs))" for r and rs :: "LedgerRow list"
    by (induction rs) auto
  have "lr_id r \<noteq> longId db" if "r \<in> set (ld_rows db)" for r db
    using len[OF that] by (auto simp: longId_def dest!: arg_cong[of _ _ length])
  then show ?thesis unfolding genFresh_def by (metis imageE)
qed

definition exampleDb :: LoyaltyDb where
  "exampleDb =
     \<lparr>ld_rows = [emptyRow\<lparr>lr_id := ''a'', lr_customerId := ''c'', lr_orderId := Some ''o'', lr_kind := KRedeem, lr_points := -50\<rparr>,
                 emptyRow\<lparr>lr_id := ''b'', lr_customerId := ''c'', lr_orderId := Some ''o'', lr_kind := KEarn, lr_points := 90\<rparr>],
      ld_orders = [], ld_customers = [], ld_program = DEFAULT_LOYALTY_SETTINGS\<rparr>"

theorem release_order_converges_witness:
  "let rows = orderRows (snd (releaseOrderLoyalty longId ''o'' None 7 exampleDb)) ''o''
     in restoredOf rows = max 0 (redeemedOf rows) \<and> earnReversedOf rows = max 0 (trackedEarn rows)"
  by (rule release_order_converges[OF longId_fresh]) (simp_all add: exampleDb_def refFresh_def orderRows_def emptyRow_def orderSums)

section \<open>Expiry\<close>

lemma insort_key_last: "k x \<le> k r \<Longrightarrow> insort_key k x (ys @ [r]) = insort_key k x ys @ [r]"
  by (induction ys) auto

lemma insort_set: "set (insort_key k x xs) = insert x (set xs)"
  by (rule set_insort_key)

lemma sort_key_last: "(\<And>x. x \<in> set xs \<Longrightarrow> k x \<le> k r) \<Longrightarrow> sort_key k (xs @ [r]) = sort_key k xs @ [r]"
  by (induction xs) (auto simp: insort_key_last)

text \<open>Posting expiry clears it. In a ledger without negative balances whose rows were all written
  before now, after \<open>postExpiry\<close> nothing is pending, the balance has dropped by exactly what was
  pending, and what may be spent is unchanged.\<close>

theorem post_expiry_clears:
  assumes "genFresh gen" "0 \<le> lb_balance (loyaltyBalance db cid now)" "\<forall>r\<in>set (ld_rows db). lr_createdAt r < now"
    and fresh: "refFresh (''expire:'' @ cid @ '':'' @ showInt now) db"
  shows "let before = loyaltyBalance db cid now; after = loyaltyBalance (snd (postExpiry gen cid now db)) cid now
     in lb_pendingExpiry after = 0 \<and> lb_balance after = lb_balance before - lb_pendingExpiry before
        \<and> lb_available after = lb_available before"
proof (cases "customerById db cid")
  case None
  then show ?thesis by (simp add: postExpiry_def loyaltyBalance_def)
next
  case (Some c)
  let ?pend = "lb_pendingExpiry (loyaltyBalance db cid now)"
  let ?row = "(emptyRow\<lparr>lr_customerId := cid, lr_kind := KExpire, lr_points := - ?pend, lr_createdAt := now,
                lr_sourceRef := Some (''expire:'' @ cid @ '':'' @ showInt now), lr_reason := Some ''points_expired''\<rparr>)\<lparr>lr_id := gen db\<rparr>"
  let ?db' = "db\<lparr>ld_rows := ld_rows db @ [?row]\<rparr>"
  have bal: "lb_balance (loyaltyBalance d cid now) = totalOf d cid" for d
    by (simp add: loyaltyBalance_slow slowBalance_def Let_def)
  have pend: "?pend = min (totalOf db cid) (unpostedExpiredPoints (customerEntries db cid) now)"
    using assms(2) by (simp add: loyaltyBalance_slow slowBalance_def Let_def)
  have pos: "0 \<le> ?pend" using assms(2) bal unposted_nonneg[of "customerEntries db cid" now] pend by simp
  show ?thesis
  proof (cases "?pend = 0")
    case True
    then show ?thesis by (simp add: postExpiry_def Let_def)
  next
    case False
    then have db': "snd (postExpiry gen cid now db) = ?db'"
      using pos by (simp add: postExpiry_def Let_def insert_fresh[OF assms(1) _ fresh])
    have cnt: "counts db c ?row" using customerById_id[OF Some] by (simp add: counts_def)
    have ent: "customerEntries ?db' cid = customerEntries db cid @ [entryOfRow ?row]"
      using Some cnt assms(3) by (simp add: customerEntries_def, subst sort_key_last) (auto simp: rowKey_def)
    have un: "unpostedExpiredPoints (customerEntries ?db' cid) now = unpostedExpiredPoints (customerEntries db cid) now - ?pend"
      unfolding ent using pos pend by (subst unposted_after_expire) (simp_all add: entryOfRow_def)
    have tot: "totalOf ?db' cid = totalOf db cid - ?pend" using Some cnt by (simp add: totalOf_append)
    define d where "d = ?db'"
    have d: "loyaltyBalance d cid now = \<lparr>lb_balance = totalOf db cid - ?pend,
        lb_pendingExpiry = min (max 0 (totalOf db cid - ?pend)) (unpostedExpiredPoints (customerEntries db cid) now - ?pend),
        lb_available = max 0 (totalOf db cid - ?pend - min (max 0 (totalOf db cid - ?pend)) (unpostedExpiredPoints (customerEntries db cid) now - ?pend))\<rparr>"
      unfolding loyaltyBalance_slow[of d] slowBalance_def Let_def using un tot by (simp only: d_def)
    have av: "lb_available (loyaltyBalance db cid now) = max 0 (totalOf db cid - ?pend)"
      by (simp add: loyaltyBalance_slow slowBalance_def Let_def)
    have z: "min (max 0 (totalOf db cid - ?pend)) (unpostedExpiredPoints (customerEntries db cid) now - ?pend) = 0"
      using pend by linarith
    have "snd (postExpiry gen cid now db) = d" using db' by (simp only: d_def)
    then show ?thesis by (simp only: Let_def d z LoyaltyBalance.select_convs av bal) simp
  qed
qed

definition expiredDb :: LoyaltyDb where
  "expiredDb =
     \<lparr>ld_rows = [emptyRow\<lparr>lr_id := ''a'', lr_customerId := ''c'', lr_kind := KBonus, lr_points := 80, lr_createdAt := 1, lr_expiresAt := Some 5\<rparr>,
                 emptyRow\<lparr>lr_id := ''b'', lr_customerId := ''c'', lr_kind := KRedeem, lr_points := -30, lr_createdAt := 2\<rparr>],
      ld_orders = [], ld_customers = [\<lparr>cu_id = ''c'', cu_email = ''x'', cu_emailVerified = True, cu_createdAt = 0, cu_deleted = False, cu_birth = None\<rparr>],
      ld_program = DEFAULT_LOYALTY_SETTINGS\<rparr>"

theorem post_expiry_clears_witness:
  "lb_pendingExpiry (loyaltyBalance (snd (postExpiry longId ''c'' 9 expiredDb)) ''c'' 9) = 0"
proof -
  have "lb_balance (loyaltyBalance expiredDb ''c'' 9) = 50"
    by (simp add: loyaltyBalance_slow slowBalance_def Let_def totalOf_def countedSum_def expiredDb_def customerById_def counts_def emptyRow_def)
  moreover have "refFresh (''expire:'' @ ''c'' @ '':'' @ showInt 9) expiredDb" by (simp add: refFresh_def expiredDb_def)
  ultimately show ?thesis
    using post_expiry_clears[OF longId_fresh, of expiredDb "''c''" 9] by (simp add: Let_def expiredDb_def emptyRow_def)
qed

end
