(* ===== verification/CreditMath.thy ===== *)
theory CreditMath
  imports PromotionStack Loyalty
begin

text \<open>
  Account-credit arithmetic (\<open>account-credit/math.ts\<close>): checked cents, the address of an
  issuance, what is left of a balance after the pending holds, and the exact per-unit
  allocation a settlement must present and a return reads back. A JavaScript object that maps
  order lines to vectors of cents is an association list with distinct keys in insertion order.
\<close>

type_synonym Allocation = "(string \<times> int list) list"

definition MAX_CREDIT_CENTS :: int where
  "MAX_CREDIT_CENTS = 2147483647"

definition assertCents :: "int \<Rightarrow> string \<Rightarrow> bool \<Rightarrow> unit res" where
  "assertCents v label pos =
     checkE (\<not> isSafeInteger v \<or> v < (if pos then 1 else 0) \<or> MAX_CREDIT_CENTS < v)
       (Coded ''invalid_input'' (label @ '' must fit '' @ (if pos then ''positive'' else ''nonnegative'') @ '' integer cents''))"

text \<open>The pattern \<open>^[^\s@]+@[^\s@]+\.[^\s@]+$\<close>: one at sign with text on both sides, a dot inside
  the domain, no white space.\<close>

definition emailShape :: "string \<Rightarrow> bool" where
  "emailShape s =
     (let user = takeWhile (\<lambda>c. c \<noteq> CHR ''@'') s; domain = drop (length user + 1) s
      in user \<noteq> [] \<and> length user < length s \<and> list_all (\<lambda>c. \<not> js_space c) s \<and> CHR ''@'' \<notin> set domain
         \<and> list_ex (\<lambda>i. domain ! i = CHR ''.'') [1..<length domain - 1])"

definition normalizeCreditEmail :: "string \<Rightarrow> string res" where
  "normalizeCreditEmail email =
     (let normalized = toLowerCase (js_trim email)
      in if 320 < length normalized \<or> \<not> emailShape normalized
         then Inl (Coded ''invalid_input'' ''Valid issuance email required'') else Inr normalized)"

record CreditHold =
  ch_amount :: int
  ch_orderId :: "string option"

definition addHold :: "string option \<Rightarrow> CreditHold \<Rightarrow> int \<Rightarrow> int res" where
  "addHold exceptOrderId hold taken =
     bindE (assertCents (ch_amount hold) ''Hold'' False) (\<lambda>_.
       if exceptOrderId \<noteq> None \<and> ch_orderId hold = exceptOrderId then Inr taken
       else bindE (checkE (\<not> isSafeInteger (taken + ch_amount hold)) (Coded ''invariant'' ''Held credit overflow'')) (\<lambda>_.
         Inr (taken + ch_amount hold)))"

definition availableCredit :: "int \<Rightarrow> CreditHold list \<Rightarrow> string option \<Rightarrow> int res" where
  "availableCredit balance holds exceptOrderId =
     bindE (assertCents balance ''Balance'' False) (\<lambda>_.
     bindE (foldE (addHold exceptOrderId) holds 0) (\<lambda>taken.
       if balance < taken then Inl (Coded ''invariant'' ''Pending holds exceed balance'') else Inr (balance - taken)))"

definition addUnit :: "int \<Rightarrow> int \<Rightarrow> int res" where
  "addUnit c sm =
     bindE (assertCents c ''Unit allocation'' False) (\<lambda>_.
     bindE (checkE (\<not> isSafeInteger (sm + c) \<or> MAX_CREDIT_CENTS < sm + c) (Coded ''allocation'' ''Credit allocation overflow'')) (\<lambda>_.
       Inr (sm + c)))"

definition addLine :: "Allocation \<Rightarrow> string \<times> int \<Rightarrow> int \<Rightarrow> int res" where
  "addLine allocation line sm = (case line of (i, quantity) \<Rightarrow>
     (case map_of allocation i of
        Some units \<Rightarrow>
          if \<not> isSafeInteger quantity \<or> quantity < 1 \<or> int (length units) \<noteq> quantity
          then Inl (Coded ''allocation'' ''Credit unit allocation missing at settlement'')
          else foldE addUnit units sm
      | None \<Rightarrow> Inl (Coded ''allocation'' ''Credit unit allocation missing at settlement'')))"

definition validateAllocation :: "Allocation \<Rightarrow> (string \<times> int) list \<Rightarrow> int \<Rightarrow> unit res" where
  "validateAllocation allocation lines applied =
     bindE (assertCents applied ''Applied amount'' False) (\<lambda>_.
     bindE (checkE (length allocation \<noteq> length lines) (Coded ''allocation'' ''Credit allocation must cover exactly the purchased lines'')) (\<lambda>_.
     bindE (foldE (addLine allocation) lines 0) (\<lambda>sm.
       checkE (sm \<noteq> applied) (Coded ''allocation'' ''Credit allocation does not match redemption''))))"

definition equalAllocation :: "Allocation option \<Rightarrow> Allocation \<Rightarrow> bool" where
  "equalAllocation a b = (case a of
       None \<Rightarrow> False
     | Some xs \<Rightarrow> length xs = length b \<and> list_all (\<lambda>(k, v). map_of b k = Some v) xs)"

definition restorationAmount :: "int list \<Rightarrow> int \<Rightarrow> int \<Rightarrow> int option \<Rightarrow> int res" where
  "restorationAmount units restoredQuantity quantity expectedCents =
     bindE (checkE (\<not> isSafeInteger restoredQuantity \<or> restoredQuantity < 0 \<or> \<not> isSafeInteger quantity \<or> quantity < 1
                    \<or> int (length units) < restoredQuantity + quantity)
             (Coded ''allocation'' ''Return quantity exceeds purchased quantity'')) (\<lambda>_.
     bindE (mapE (\<lambda>c. assertCents c ''Stored unit allocation'' False) units) (\<lambda>_.
     (let amount = sum_list (take (nat quantity) (drop (nat restoredQuantity) units))
      in bindE (assertCents amount ''Restoration'' False) (\<lambda>_.
           if expectedCents \<noteq> None \<and> expectedCents \<noteq> Some amount
           then Inl (Coded ''conflict'' ''Restoration differs from approved allocation'') else Inr amount))))"

section \<open>What the arithmetic guarantees\<close>

lemma assertCents_iff [simp]: "assertCents v label pos = Inr u \<longleftrightarrow> (if pos then 1 else 0) \<le> v \<and> v \<le> MAX_CREDIT_CENTS"
  by (auto simp: assertCents_def isSafeInteger_def MAX_CREDIT_CENTS_def)

definition heldCents :: "string option \<Rightarrow> CreditHold list \<Rightarrow> int" where
  "heldCents x hs = sum_list (map ch_amount (filter (\<lambda>h. x = None \<or> ch_orderId h \<noteq> x) hs))"

definition holdsOk :: "CreditHold list \<Rightarrow> bool" where
  "holdsOk hs \<longleftrightarrow> list_all (\<lambda>h. 0 \<le> ch_amount h \<and> ch_amount h \<le> MAX_CREDIT_CENTS) hs"

lemma addHold_fold:
  assumes "foldE (addHold x) hs s = Inr t"
  shows "t = s + heldCents x hs \<and> holdsOk hs"
  using assms
proof (induction hs arbitrary: s)
  case (Cons h hs)
  then obtain s' where s': "addHold x h s = Inr s'" "foldE (addHold x) hs s' = Inr t" by auto
  show ?case using s'(1) Cons.IH[OF s'(2)] by (auto simp: heldCents_def holdsOk_def addHold_def split: if_splits)
qed (simp add: heldCents_def holdsOk_def)

lemma addHold_total:
  assumes "holdsOk hs" "0 \<le> s" "s + heldCents x hs \<le> MAX_CREDIT_CENTS"
  shows "foldE (addHold x) hs s = Inr (s + heldCents x hs)"
  using assms
proof (induction hs arbitrary: s)
  case (Cons h hs)
  have nn: "0 \<le> heldCents x hs" using Cons.prems(1) by (auto simp: heldCents_def holdsOk_def list_all_iff intro!: sum_list_nonneg)
  then show ?case using Cons nn
    by (auto simp: addHold_def heldCents_def holdsOk_def checkE_def isSafeInteger_def MAX_CREDIT_CENTS_def split: if_splits)
qed (simp add: heldCents_def)

lemma availableCredit_iff:
  "availableCredit b hs x = Inr v \<longleftrightarrow>
     0 \<le> b \<and> b \<le> MAX_CREDIT_CENTS \<and> holdsOk hs \<and> heldCents x hs \<le> b \<and> v = b - heldCents x hs"
proof
  assume "availableCredit b hs x = Inr v"
  then show "0 \<le> b \<and> b \<le> MAX_CREDIT_CENTS \<and> holdsOk hs \<and> heldCents x hs \<le> b \<and> v = b - heldCents x hs"
    using addHold_fold[of x hs 0] by (auto simp: availableCredit_def split: if_splits)
next
  assume r: "0 \<le> b \<and> b \<le> MAX_CREDIT_CENTS \<and> holdsOk hs \<and> heldCents x hs \<le> b \<and> v = b - heldCents x hs"
  then have "foldE (addHold x) hs 0 = Inr (heldCents x hs)" using addHold_total[of hs 0 x] by simp
  then show "availableCredit b hs x = Inr v" using r by (auto simp: availableCredit_def checkE_def assertCents_def isSafeInteger_def MAX_CREDIT_CENTS_def)
qed

lemma addUnit_fold: "foldE addUnit us s = Inr t \<longleftrightarrow> t = s + sum_list us \<and> list_all (\<lambda>c. 0 \<le> c \<and> c \<le> MAX_CREDIT_CENTS) us
    \<and> (us \<noteq> [] \<longrightarrow> s + sum_list us \<le> MAX_CREDIT_CENTS)" if "- MAX_CREDIT_CENTS \<le> s"
  using that
proof (induction us arbitrary: s)
  case (Cons c us)
  show ?case
  proof (cases "0 \<le> c \<and> c \<le> MAX_CREDIT_CENTS \<and> s + c \<le> MAX_CREDIT_CENTS")
    case True
    then show ?thesis using Cons.IH[of "s + c"] Cons.prems by (auto simp: addUnit_def isSafeInteger_def MAX_CREDIT_CENTS_def)
  next
    case False
    have "0 \<le> sum_list us" if "list_all (\<lambda>c. 0 \<le> c \<and> c \<le> MAX_CREDIT_CENTS) us"
      using that by (auto simp: list_all_iff intro!: sum_list_nonneg)
    then show ?thesis using False by (auto simp: addUnit_def isSafeInteger_def MAX_CREDIT_CENTS_def)
  qed
qed auto

end
