(* ===== verification/EditFunding.thy ===== *)
theory EditFunding
  imports CreditMath "HOL-Library.AList" "HOL-Library.List_Lexorder" "HOL-Library.Char_ord"
begin

text \<open>
  Funding of an order from a redeemed account credit (\<open>account-credit/edit-funding.ts\<close>). The posted
  redemption fixes, per order line, what every purchased unit received. Every later RESTORE row of
  the ledger carries an envelope that says which units it gave back, with the funding of the unit
  before and after. \<open>readState\<close> replays the complete history of such rows into the funding that is
  still retained; \<open>planEditCreditFunding\<close> and \<open>planCreditUnitReturn\<close> plan the rows an order edit
  or a return posts.

  Text columns that hold JSON appear as the value they parse to, \<open>None\<close> standing for text that is
  not JSON, so that \<open>JSON.parse\<close> inverts \<open>JSON.stringify\<close>. \<open>digest\<close> stands for the SHA-256 digest
  of the canonical text of a JSON value. The members \<open>type\<close>, \<open>cause\<close> and \<open>kind\<close> of an envelope are
  compared after \<open>String(..)\<close>, which is exact for strings; a one-element array of such a string is
  outside the model.
\<close>

section \<open>Data\<close>

type_synonym jsonText = "json option"

record EditFundingRedemption =
  rd_id :: string
  rd_orderId :: "string option"
  rd_accountCreditId :: string
  rd_kind :: string
  rd_status :: string
  rd_amount :: int
  rd_delta :: int
  rd_operationalAllocation :: "Allocation option"

record EditFundingHistoryRow =
  fr_id :: string
  fr_idempotencyKey :: string
  fr_orderId :: "string option"
  fr_accountCreditId :: string
  fr_relatedTransactionId :: "string option"
  fr_orderLineId :: "string option"
  fr_refundId :: "string option"
  fr_kind :: string
  fr_status :: string
  fr_quantity :: "int option"
  fr_amount :: int
  fr_delta :: int
  fr_allocation :: "jsonText option"
  fr_operationalAllocation :: "Allocation option"

record EditFundingUnitChange =
  uc_index :: int
  uc_before :: int
  uc_after :: int

datatype RestoreCause = QuantityReturn | UnitCorrection

datatype OperationKind = ByRefund | ByManualReturn

text \<open>The identities an envelope repeats, as the JSON members they are.\<close>

record EnvelopeLinks =
  ev_redemptionId :: "json option"
  ev_orderId :: "json option"
  ev_accountCreditId :: "json option"
  ev_orderLineId :: "json option"

datatype RestorationEnvelope =
    EditRestore (envelopeLinks: EnvelopeLinks) RestoreCause string string (envelopeUnits: "json list")
  | UnitRestore (envelopeLinks: EnvelopeLinks) OperationKind string (envelopeUnits: "json list")

record EditFundingPosting =
  ps_refundId :: "string option"
  ps_kind :: string
  ps_status :: string
  ps_relatedTransactionId :: string
  ps_orderId :: "string option"
  ps_accountCreditId :: string
  ps_orderLineId :: string
  ps_quantity :: int
  ps_amount :: int
  ps_delta :: int
  ps_idempotencyKey :: string
  ps_allocation :: json
  ps_operationalAllocation :: Allocation

record TargetUnit =
  tu_originalIndex :: "int option"
  tu_maximumCredit :: int
  tu_consumed :: "bool option"
  tu_unitId :: "string option"

record EditFundingTargetLine =
  tl_orderLineId :: string
  tl_units :: "TargetUnit list"

record CommittedEdit =
  ce_editId :: string
  ce_requestDigest :: string
  ce_postingKeys :: "string list"

record CreditFundingState =
  fs_remaining :: Allocation
  fs_returnedIndexes :: Allocation
  fs_redeemed :: int
  fs_restored :: int
  fs_retained :: int

datatype EditFundingResult =
    FundingReplay string CreditFundingState
  | FundingPlan string "EditFundingPosting list" Allocation CreditFundingState

section \<open>Facts\<close>

definition moneyCents :: "int \<Rightarrow> bool" where
  "moneyCents v \<longleftrightarrow> isSafeInteger v \<and> 0 \<le> v \<and> v \<le> MAX_CREDIT_CENTS"

definition requireFact :: "bool \<Rightarrow> string \<Rightarrow> string \<Rightarrow> unit res" where
  "requireFact ok code message = checkE (\<not> ok) (Coded code message)"

definition sumCents :: "int list \<Rightarrow> string \<Rightarrow> int res" where
  "sumCents values code =
     bindE (requireFact (moneyCents (sum_list values)) code ''Credit sum exceeds integer cents'') (\<lambda>_. Inr (sum_list values))"

definition invalidRedemption :: string where "invalidRedemption = ''INVALID_REDEMPTION''"
definition ambiguousHistory :: string where "ambiguousHistory = ''AMBIGUOUS_HISTORY''"
definition invalidRequest :: string where "invalidRequest = ''INVALID_REQUEST''"
definition replayConflict :: string where "replayConflict = ''REPLAY_CONFLICT''"

section \<open>Envelopes\<close>

definition causeName :: "RestoreCause \<Rightarrow> string" where
  "causeName c = (case c of QuantityReturn \<Rightarrow> ''quantity_return'' | UnitCorrection \<Rightarrow> ''unit_correction'')"

definition kindName :: "OperationKind \<Rightarrow> string" where
  "kindName k = (case k of ByRefund \<Rightarrow> ''refund'' | ByManualReturn \<Rightarrow> ''manual_return'')"

text \<open>A template literal of a member; \<open>keyFor\<close> is evaluated only where the members are strings.\<close>

definition memberText :: "json option \<Rightarrow> string" where
  "memberText v = (case v of Some (JStr s) \<Rightarrow> s | _ \<Rightarrow> [])"

fun keyFor :: "RestorationEnvelope \<Rightarrow> string" where
  "keyFor (EditRestore l cause editId dig us) =
     ''edit:'' @ editId @ '':credit:'' @ memberText (ev_redemptionId l) @ '':line:'' @ memberText (ev_orderLineId l) @ '':'' @ causeName cause"
| "keyFor (UnitRestore l kind opId us) =
     (case kind of ByRefund \<Rightarrow> ''refund:'' @ opId @ '':line:'' @ memberText (ev_orderLineId l) | ByManualReturn \<Rightarrow> ''manual:'' @ opId)"

definition unitJson :: "EditFundingUnitChange \<Rightarrow> json" where
  "unitJson u = JObj [(''after'', JNum (of_int (uc_after u))), (''before'', JNum (of_int (uc_before u))), (''index'', JNum (of_int (uc_index u)))]"

definition readUnit :: "json \<Rightarrow> (int \<times> int \<times> int) option" where
  "readUnit u = (case (jint (jget ''index'' (Some u)), jint (jget ''before'' (Some u)), jint (jget ''after'' (Some u))) of
       (Some i, Some b, Some a) \<Rightarrow> Some (i, b, a) | _ \<Rightarrow> None)"

definition member :: "string \<Rightarrow> json option \<Rightarrow> (string \<times> json) list" where
  "member k v = (case v of Some j \<Rightarrow> [(k, j)] | None \<Rightarrow> [])"

text \<open>\<open>serialize(envelope)\<close>: the members in sorted order.\<close>

fun serializeEnvelope :: "RestorationEnvelope \<Rightarrow> json" where
  "serializeEnvelope (EditRestore l cause editId dig us) = JObj
     (member ''accountCreditId'' (ev_accountCreditId l) @ [(''cause'', JStr (causeName cause)), (''editId'', JStr editId)]
      @ member ''orderId'' (ev_orderId l) @ member ''orderLineId'' (ev_orderLineId l) @ member ''redemptionId'' (ev_redemptionId l)
      @ [(''requestDigest'', JStr dig), (''type'', JStr ''account_credit.edit_restore''), (''units'', JArr us), (''version'', JNum 1)])"
| "serializeEnvelope (UnitRestore l kind opId us) = JObj
     (member ''accountCreditId'' (ev_accountCreditId l)
      @ [(''cause'', JStr ''quantity_return''), (''operation'', JObj [(''id'', JStr opId), (''kind'', JStr (kindName kind))])]
      @ member ''orderId'' (ev_orderId l) @ member ''orderLineId'' (ev_orderLineId l) @ member ''redemptionId'' (ev_redemptionId l)
      @ [(''type'', JStr ''account_credit.unit_restore''), (''units'', JArr us), (''version'', JNum 1)])"

definition linksOf :: "json option \<Rightarrow> EnvelopeLinks" where
  "linksOf raw = \<lparr>ev_redemptionId = jget ''redemptionId'' raw, ev_orderId = jget ''orderId'' raw,
     ev_accountCreditId = jget ''accountCreditId'' raw, ev_orderLineId = jget ''orderLineId'' raw\<rparr>"

definition operationOf :: "json option \<Rightarrow> (OperationKind \<times> string) option" where
  "operationOf v = (case (jstr (jget ''kind'' v), jstr (jget ''id'' v)) of
       (Some k, Some i) \<Rightarrow>
         if i = [] \<or> 153 < length i then None
         else if k = ''refund'' then (if uuidText i then Some (ByRefund, i) else None)
         else if k = ''manual_return'' then Some (ByManualReturn, i) else None
     | _ \<Rightarrow> None)"

definition causeOf :: "json option \<Rightarrow> RestoreCause option" where
  "causeOf v = (case jstr v of
       Some t \<Rightarrow> if t = ''quantity_return'' then Some QuantityReturn else if t = ''unit_correction'' then Some UnitCorrection else None
     | None \<Rightarrow> None)"

definition unitsOf :: "json option \<Rightarrow> json list" where
  "unitsOf v = (case v of Some (JArr us) \<Rightarrow> us | _ \<Rightarrow> [])"

definition parseUnitRestore :: "json option \<Rightarrow> RestorationEnvelope option res" where
  "parseUnitRestore raw = (case operationOf (jget ''operation'' raw) of
       Some (k, i) \<Rightarrow>
         bindE (requireFact (jget ''version'' raw = Some (JNum 1) \<and> causeOf (jget ''cause'' raw) = Some QuantityReturn \<and> unitsOf (jget ''units'' raw) \<noteq> [])
           ambiguousHistory ''Invalid unit-restoration operation provenance'') (\<lambda>_. Inr (Some (UnitRestore (linksOf raw) k i (unitsOf (jget ''units'' raw)))))
     | None \<Rightarrow> Inl (Coded ambiguousHistory ''Invalid unit-restoration operation provenance''))"

definition parseEditRestore :: "json option \<Rightarrow> RestorationEnvelope option res" where
  "parseEditRestore raw = (case (causeOf (jget ''cause'' raw), jstr (jget ''editId'' raw), jstr (jget ''requestDigest'' raw)) of
       (Some c, Some editId, Some dig) \<Rightarrow>
         bindE (requireFact (jget ''version'' raw = Some (JNum 1) \<and> uuidText editId \<and> digestOk dig \<and> unitsOf (jget ''units'' raw) \<noteq> [])
           ambiguousHistory ''Invalid versioned restoration provenance'') (\<lambda>_. Inr (Some (EditRestore (linksOf raw) c editId dig (unitsOf (jget ''units'' raw)))))
     | _ \<Rightarrow> Inl (Coded ambiguousHistory ''Invalid versioned restoration provenance''))"

definition startsWith :: "string \<Rightarrow> string \<Rightarrow> bool" where
  "startsWith p s \<longleftrightarrow> take (length p) s = p"

definition parseEnvelope :: "EditFundingHistoryRow \<Rightarrow> RestorationEnvelope option res" where
  "parseEnvelope row = (case fr_allocation row of
       None \<Rightarrow> Inr None
     | Some None \<Rightarrow> Inl (Coded ambiguousHistory ''Unreadable restoration allocation'')
     | Some (Some (JObj kvs)) \<Rightarrow>
         (case map_of kvs ''type'' of
            Some (JStr t) \<Rightarrow>
              if t = ''account_credit.unit_restore'' then parseUnitRestore (Some (JObj kvs))
              else if t = ''account_credit.edit_restore'' then parseEditRestore (Some (JObj kvs))
              else if startsWith ''account_credit.'' t then Inl (Coded ambiguousHistory ''Unsupported account-credit restoration provenance'')
              else Inr None
          | _ \<Rightarrow> Inr None)
     | Some (Some _) \<Rightarrow> Inr None)"

section \<open>Replaying the history\<close>

definition checkRedemption :: "EditFundingRedemption \<Rightarrow> Allocation res" where
  "checkRedemption r = (case (rd_orderId r, rd_operationalAllocation r) of
       (Some orderId, Some original) \<Rightarrow>
         bindE (requireFact (rd_kind r = ''REDEEM'' \<and> rd_status r = ''POSTED'' \<and> uuidText (rd_id r) \<and> uuidText orderId \<and> uuidText (rd_accountCreditId r)
             \<and> moneyCents (rd_amount r) \<and> 0 < rd_amount r \<and> rd_delta r = - rd_amount r) invalidRedemption ''Proven POSTED redemption & native order allocation required'') (\<lambda>_.
         bindE (requireFact (original \<noteq> []) invalidRedemption ''Missing full redemption allocation'') (\<lambda>_.
         bindE (requireFact (list_all (\<lambda>(line, units). uuidText line \<and> units \<noteq> [] \<and> list_all moneyCents units) original) invalidRedemption ''Invalid immutable native-line unit vector'') (\<lambda>_.
         bindE (sumCents (concat (map snd original)) invalidRedemption) (\<lambda>sm.
         bindE (requireFact (sm = rd_amount r) invalidRedemption ''Full allocation differs from redemption amount'') (\<lambda>_. Inr original)))))
     | _ \<Rightarrow> Inl (Coded invalidRedemption ''Proven POSTED redemption & native order allocation required''))"

record Admitted =
  ad_ids :: "string list"
  ad_keys :: "string list"
  ad_legacy :: "(string \<times> (int \<times> int list)) list"
  ad_modern :: "(EditFundingHistoryRow \<times> RestorationEnvelope) list"

definition rowProven :: "EditFundingRedemption \<Rightarrow> Allocation \<Rightarrow> EditFundingHistoryRow \<Rightarrow> bool" where
  "rowProven r original row \<longleftrightarrow> fr_id row \<noteq> [] \<and> fr_idempotencyKey row \<noteq> [] \<and> fr_kind row = ''RESTORE'' \<and> fr_status row = ''POSTED''
     \<and> fr_orderId row = rd_orderId r \<and> fr_accountCreditId row = rd_accountCreditId r \<and> fr_relatedTransactionId row = Some (rd_id r)
     \<and> (case fr_orderLineId row of None \<Rightarrow> False | Some l \<Rightarrow> map_of original l \<noteq> None) \<and> moneyCents (fr_amount row) \<and> fr_delta row = fr_amount row"

definition lineOfRow :: "EditFundingHistoryRow \<Rightarrow> string" where
  "lineOfRow row = (case fr_orderLineId row of Some l \<Rightarrow> l | None \<Rightarrow> [])"

definition legacyOf :: "string \<Rightarrow> (string \<times> (int \<times> int list)) list \<Rightarrow> int \<times> int list" where
  "legacyOf line m = (case map_of m line of Some g \<Rightarrow> g | None \<Rightarrow> (0, []))"

definition admitRow :: "EditFundingRedemption \<Rightarrow> Allocation \<Rightarrow> EditFundingHistoryRow \<Rightarrow> Admitted \<Rightarrow> Admitted res" where
  "admitRow r original row st =
     bindE (requireFact (rowProven r original row \<and> fr_id row \<notin> set (ad_ids st) \<and> fr_idempotencyKey row \<notin> set (ad_keys st))
       ambiguousHistory ''Restoration identity, native line or posted amount is unproven'') (\<lambda>_.
     bindE (parseEnvelope row) (\<lambda>envelope.
       (let st' = st\<lparr>ad_ids := fr_id row # ad_ids st, ad_keys := fr_idempotencyKey row # ad_keys st\<rparr>
        in case envelope of
             Some e \<Rightarrow> Inr (st'\<lparr>ad_modern := ad_modern st @ [(row, e)]\<rparr>)
           | None \<Rightarrow> (case fr_quantity row of
               Some q \<Rightarrow>
                 bindE (requireFact (isSafeInteger q \<and> 0 < q) ambiguousHistory ''Unversioned monetary restoration requires reconciliation'') (\<lambda>_.
                   (case legacyOf (lineOfRow row) (ad_legacy st) of (n, amounts) \<Rightarrow>
                      Inr (st'\<lparr>ad_legacy := AList.update (lineOfRow row) (n + q, amounts @ [fr_amount row]) (ad_legacy st)\<rparr>)))
             | None \<Rightarrow> Inl (Coded ambiguousHistory ''Unversioned monetary restoration requires reconciliation'')))))"

text \<open>Restorations without an envelope must be a prefix of the line's units; the prefix is returned.\<close>

definition checkLegacy :: "Allocation \<Rightarrow> string \<times> (int \<times> int list) \<Rightarrow> (string \<times> nat) res" where
  "checkLegacy original g = (case g of (line, q, amounts) \<Rightarrow>
     (let units = orElse (map_of original line) []
      in bindE (requireFact (isSafeInteger q \<and> q \<le> int (length units)) ambiguousHistory ''Legacy restoration fails frozen prefix proof'') (\<lambda>_.
         bindE (sumCents amounts ambiguousHistory) (\<lambda>a.
         bindE (sumCents (take (nat q) units) ambiguousHistory) (\<lambda>b.
         bindE (requireFact (a = b) ambiguousHistory ''Legacy restoration fails frozen prefix proof'') (\<lambda>_. Inr (line, nat q)))))))"

definition legacyCount :: "(string \<times> nat) list \<Rightarrow> string \<Rightarrow> nat" where
  "legacyCount legacy line = orElse (map_of legacy line) 0"

record UnitEdge =
  ue_line :: string
  ue_change :: EditFundingUnitChange
  ue_quantityReturn :: bool

fun envelopeCause :: "RestorationEnvelope \<Rightarrow> RestoreCause" where
  "envelopeCause (EditRestore _ c _ _ _) = c"
| "envelopeCause (UnitRestore _ _ _ _) = QuantityReturn"

definition admitUnit :: "Allocation \<Rightarrow> (string \<times> nat) list \<Rightarrow> string \<Rightarrow> RestoreCause \<Rightarrow> json \<Rightarrow> UnitEdge list \<Rightarrow> UnitEdge list res" where
  "admitUnit original legacy line cause u edges = (case readUnit u of
       Some (i, b, a) \<Rightarrow>
         bindE (requireFact (0 \<le> i \<and> i < int (length (orElse (map_of original line) [])) \<and> i \<notin> set (map (uc_index \<circ> ue_change) edges)
             \<and> moneyCents b \<and> moneyCents a \<and> a \<le> b \<and> (if cause = QuantityReturn then a = 0 else a < b) \<and> \<not> i < int (legacyCount legacy line))
           ambiguousHistory ''Invalid, duplicate or legacy-returned unit index'') (\<lambda>_.
           Inr (edges @ [\<lparr>ue_line = line, ue_change = \<lparr>uc_index = i, uc_before = b, uc_after = a\<rparr>, ue_quantityReturn = (cause = QuantityReturn)\<rparr>]))
     | None \<Rightarrow> Inl (Coded ambiguousHistory ''Invalid, duplicate or legacy-returned unit index''))"

record ModernState =
  ms_digests :: "(string \<times> string) list"
  ms_edges :: "UnitEdge list"

definition envelopeMatches :: "EditFundingRedemption \<Rightarrow> EditFundingHistoryRow \<Rightarrow> RestorationEnvelope \<Rightarrow> bool" where
  "envelopeMatches r row e \<longleftrightarrow> ev_redemptionId (envelopeLinks e) = Some (JStr (rd_id r)) \<and> ev_orderId (envelopeLinks e) = map_option JStr (rd_orderId r)
     \<and> ev_accountCreditId (envelopeLinks e) = Some (JStr (rd_accountCreditId r)) \<and> ev_orderLineId (envelopeLinks e) = map_option JStr (fr_orderLineId row)
     \<and> fr_idempotencyKey row = keyFor e \<and> fr_quantity row = Some (if envelopeCause e = QuantityReturn then int (length (envelopeUnits e)) else 0)"

definition operationMatches :: "(string \<times> string) list \<Rightarrow> EditFundingHistoryRow \<Rightarrow> RestorationEnvelope \<Rightarrow> (string \<times> string) list res" where
  "operationMatches digests row e = (case e of
       UnitRestore _ kind opId _ \<Rightarrow>
         bindE (requireFact (fr_refundId row = (if kind = ByRefund then Some opId else None)) ambiguousHistory ''Restoration operation differs from refund linkage'') (\<lambda>_. Inr digests)
     | EditRestore _ _ editId dig _ \<Rightarrow>
         bindE (requireFact (fr_refundId row = None) ambiguousHistory ''Edit restoration cannot carry refund linkage'') (\<lambda>_.
         bindE (requireFact (map_of digests editId = None \<or> map_of digests editId = Some dig) ambiguousHistory ''Edit has conflicting request digests'') (\<lambda>_.
           Inr (AList.update editId dig digests))))"

definition edgeCents :: "UnitEdge \<Rightarrow> int" where
  "edgeCents x = uc_before (ue_change x) - uc_after (ue_change x)"

definition admitModern :: "EditFundingRedemption \<Rightarrow> Allocation \<Rightarrow> (string \<times> nat) list \<Rightarrow> EditFundingHistoryRow \<times> RestorationEnvelope \<Rightarrow> ModernState \<Rightarrow> ModernState res" where
  "admitModern r original legacy re ms = (case re of (row, e) \<Rightarrow>
     bindE (requireFact (envelopeMatches r row e) ambiguousHistory ''Envelope & restoration row differ'') (\<lambda>_.
     bindE (operationMatches (ms_digests ms) row e) (\<lambda>digests.
     bindE (foldE (admitUnit original legacy (lineOfRow row) (envelopeCause e)) (envelopeUnits e) []) (\<lambda>edges.
     bindE (sumCents (map edgeCents edges) ambiguousHistory) (\<lambda>sm.
     bindE (requireFact (sm = fr_amount row \<and> fr_operationalAllocation row = Some [(lineOfRow row, map edgeCents edges)])
             ambiguousHistory ''Restoration allocation does not conserve cents'') (\<lambda>_.
       Inr \<lparr>ms_digests = digests, ms_edges = ms_edges ms @ edges\<rparr>))))))"

text \<open>The chain of one unit: its edges by falling funding, corrections before the return.\<close>

definition chainOf :: "UnitEdge list \<Rightarrow> string \<Rightarrow> nat \<Rightarrow> UnitEdge list" where
  "chainOf edges line i = sort_key (\<lambda>x. (- uc_before (ue_change x), ue_quantityReturn x))
     (filter (\<lambda>x. ue_line x = line \<and> uc_index (ue_change x) = int i) edges)"

definition followEdge :: "UnitEdge \<Rightarrow> int \<times> bool \<Rightarrow> (int \<times> bool) res" where
  "followEdge x st = (case st of (current, returned) \<Rightarrow>
     bindE (requireFact (\<not> returned \<and> uc_before (ue_change x) = current) ambiguousHistory ''Unit restoration chain has a gap, overlap or double consumption'') (\<lambda>_.
       Inr (uc_after (ue_change x), ue_quantityReturn x)))"

text \<open>What is left of unit \<open>i\<close>, and whether it is returned.\<close>

definition replayUnit :: "(string \<times> nat) list \<Rightarrow> UnitEdge list \<Rightarrow> string \<Rightarrow> int list \<Rightarrow> nat \<Rightarrow> (int \<times> bool) res" where
  "replayUnit legacy edges line units i =
     (let chain = chainOf edges line i; prefix = i < legacyCount legacy line
      in bindE (foldE followEdge chain (units ! i, False)) (\<lambda>(current, returned).
           Inr (if chain = [] then (if prefix then 0 else units ! i) else current, returned \<or> prefix)))"

definition replayLine :: "(string \<times> nat) list \<Rightarrow> UnitEdge list \<Rightarrow> string \<times> int list \<Rightarrow> (string \<times> (int \<times> bool) list) res" where
  "replayLine legacy edges lu = (case lu of (line, units) \<Rightarrow>
     bindE (mapE (replayUnit legacy edges line units) [0..<length units]) (\<lambda>us. Inr (line, us)))"

definition returnedOf :: "(int \<times> bool) list \<Rightarrow> int list" where
  "returnedOf us = map int (filter (\<lambda>i. snd (us ! i)) [0..<length us])"

definition stateOf :: "EditFundingRedemption \<Rightarrow> int \<Rightarrow> (string \<times> (int \<times> bool) list) list \<Rightarrow> CreditFundingState" where
  "stateOf r restored ls =
     \<lparr>fs_remaining = map (\<lambda>(l, us). (l, map fst us)) ls, fs_returnedIndexes = map (\<lambda>(l, us). (l, returnedOf us)) ls,
      fs_redeemed = rd_amount r, fs_restored = restored, fs_retained = sum_list (concat (map (\<lambda>(l, us). map fst us) ls))\<rparr>"

definition readState :: "EditFundingRedemption \<Rightarrow> EditFundingHistoryRow list \<Rightarrow> (CreditFundingState \<times> (EditFundingHistoryRow \<times> RestorationEnvelope) list) res" where
  "readState r history =
     bindE (checkRedemption r) (\<lambda>original.
     bindE (foldE (admitRow r original) history \<lparr>ad_ids = [], ad_keys = [], ad_legacy = [], ad_modern = []\<rparr>) (\<lambda>ad.
     bindE (mapE (checkLegacy original) (ad_legacy ad)) (\<lambda>legacy.
     bindE (foldE (admitModern r original legacy) (ad_modern ad) \<lparr>ms_digests = [], ms_edges = []\<rparr>) (\<lambda>ms.
     bindE (mapE (replayLine legacy (ms_edges ms)) original) (\<lambda>ls.
     bindE (sumCents (map fr_amount history) ambiguousHistory) (\<lambda>restored.
     bindE (sumCents (concat (map (\<lambda>(l, us). map fst us) ls)) ambiguousHistory) (\<lambda>retained.
     bindE (requireFact (restored + retained = rd_amount r) ambiguousHistory ''Full redemption conservation failed'') (\<lambda>_.
       Inr (stateOf r restored ls, ad_modern ad)))))))))"

definition readCreditFundingState :: "EditFundingRedemption \<Rightarrow> EditFundingHistoryRow list \<Rightarrow> CreditFundingState res" where
  "readCreditFundingState r history = bindE (readState r history) (\<lambda>(state, _). Inr state)"

section \<open>Planning a return\<close>

definition unitAt :: "Allocation \<Rightarrow> string \<Rightarrow> int \<Rightarrow> int" where
  "unitAt m line i = orElse (map_of m line) [] ! nat i"

definition setUnits :: "EditFundingUnitChange list \<Rightarrow> int list \<Rightarrow> int list" where
  "setUnits changes units = fold (\<lambda>c us. us[nat (uc_index c) := uc_after c]) changes units"

definition returnIndexes :: "RestoreCause \<Rightarrow> EditFundingUnitChange list \<Rightarrow> int list \<Rightarrow> int list" where
  "returnIndexes cause changes idx = (if cause = QuantityReturn then idx @ map uc_index changes else idx)"

definition updLine :: "string \<Rightarrow> (int list \<Rightarrow> int list) \<Rightarrow> Allocation \<Rightarrow> Allocation" where
  "updLine line f = map (\<lambda>(l, us). (l, if l = line then f us else us))"

definition changeCents :: "EditFundingUnitChange list \<Rightarrow> int list" where
  "changeCents = map (\<lambda>c. uc_before c - uc_after c)"

definition pickUnit :: "CreditFundingState \<Rightarrow> string \<Rightarrow> int option \<Rightarrow> EditFundingUnitChange list \<Rightarrow> EditFundingUnitChange list res" where
  "pickUnit state line index units = (case index of
       None \<Rightarrow> Inr units
     | Some i \<Rightarrow>
         bindE (requireFact (isSafeInteger i \<and> 0 \<le> i \<and> (case map_of (fs_remaining state) line of None \<Rightarrow> False | Some us \<Rightarrow> i < int (length us))
             \<and> i \<notin> set (map uc_index units) \<and> i \<notin> set (orElse (map_of (fs_returnedIndexes state) line) []))
           invalidRequest ''Returned unit identity is missing, repeated or already consumed'') (\<lambda>_.
           Inr (units @ [\<lparr>uc_index = i, uc_before = unitAt (fs_remaining state) line i, uc_after = 0\<rparr>])))"

definition envelopeLinksFor :: "EditFundingRedemption \<Rightarrow> string \<Rightarrow> EnvelopeLinks" where
  "envelopeLinksFor r line = \<lparr>ev_redemptionId = Some (JStr (rd_id r)), ev_orderId = map_option JStr (rd_orderId r),
     ev_accountCreditId = Some (JStr (rd_accountCreditId r)), ev_orderLineId = Some (JStr line)\<rparr>"

text \<open>A posting of an envelope with the given changes.\<close>

definition postingOf :: "EditFundingRedemption \<Rightarrow> string \<Rightarrow> RestorationEnvelope \<Rightarrow> EditFundingUnitChange list \<Rightarrow> string option \<Rightarrow> EditFundingPosting" where
  "postingOf r line e changes refundId =
     \<lparr>ps_refundId = refundId, ps_kind = ''RESTORE'', ps_status = ''POSTED'', ps_relatedTransactionId = rd_id r, ps_orderId = rd_orderId r,
      ps_accountCreditId = rd_accountCreditId r, ps_orderLineId = line,
      ps_quantity = (if envelopeCause e = QuantityReturn then int (length changes) else 0),
      ps_amount = sum_list (changeCents changes), ps_delta = sum_list (changeCents changes), ps_idempotencyKey = keyFor e,
      ps_allocation = serializeEnvelope e, ps_operationalAllocation = [(line, changeCents changes)]\<rparr>"

text \<open>The posting as the row of the ledger that later readers see.\<close>

definition rowOfPosting :: "string \<Rightarrow> EditFundingPosting \<Rightarrow> EditFundingHistoryRow" where
  "rowOfPosting i p =
     \<lparr>fr_id = i, fr_idempotencyKey = ps_idempotencyKey p, fr_orderId = ps_orderId p, fr_accountCreditId = ps_accountCreditId p,
      fr_relatedTransactionId = Some (ps_relatedTransactionId p), fr_orderLineId = Some (ps_orderLineId p), fr_refundId = ps_refundId p,
      fr_kind = ps_kind p, fr_status = ps_status p, fr_quantity = Some (ps_quantity p), fr_amount = ps_amount p, fr_delta = ps_delta p,
      fr_allocation = Some (Some (ps_allocation p)), fr_operationalAllocation = Some (ps_operationalAllocation p)\<rparr>"

definition postChanges :: "string \<Rightarrow> RestoreCause \<Rightarrow> EditFundingUnitChange list \<Rightarrow> CreditFundingState \<Rightarrow> CreditFundingState" where
  "postChanges line cause changes state =
     state\<lparr>fs_remaining := updLine line (setUnits changes) (fs_remaining state),
           fs_returnedIndexes := updLine line (returnIndexes cause changes) (fs_returnedIndexes state)\<rparr>"

definition planCreditUnitReturn ::
  "EditFundingRedemption \<Rightarrow> EditFundingHistoryRow list \<Rightarrow> OperationKind \<Rightarrow> string \<Rightarrow> string \<Rightarrow> int option list
    \<Rightarrow> (EditFundingPosting option \<times> CreditFundingState) res" where
  "planCreditUnitReturn r history kind opId line originalIndexes =
     bindE (readState r history) (\<lambda>(state, _).
     bindE (requireFact (uuidText line \<and> originalIndexes \<noteq> [] \<and> opId \<noteq> [] \<and> length opId \<le> 153 \<and> (kind \<noteq> ByRefund \<or> uuidText opId))
       invalidRequest ''Explicit unit-return identity required'') (\<lambda>_.
     bindE (foldE (pickUnit state line) originalIndexes []) (\<lambda>units.
       if units = [] then Inr (None, state)
       else bindE (sumCents (changeCents units) invalidRequest) (\<lambda>amount.
         (let posting = postingOf r line (UnitRestore (envelopeLinksFor r line) kind opId (map unitJson units)) units
                (if kind = ByRefund then Some opId else None);
              state' = postChanges line QuantityReturn units state
          in Inr (Some posting, state'\<lparr>fs_returnedIndexes := updLine line sort (fs_returnedIndexes state'),
                    fs_restored := fs_restored state + amount, fs_retained := fs_retained state - amount\<rparr>))))))"

section \<open>Planning an order edit\<close>

text \<open>\<open>localeCompare\<close> on identifiers: letters regardless of case first, lower case first on a tie.\<close>

definition swapCase :: "char \<Rightarrow> char" where
  "swapCase c = (if js_lower_char c \<noteq> c then js_lower_char c else js_upper_char c)"

definition collationKey :: "string \<Rightarrow> string \<times> string" where
  "collationKey s = (toLowerCase s, map swapCase s)"

definition checkTargetUnit :: "CreditFundingState \<Rightarrow> string \<Rightarrow> TargetUnit \<Rightarrow> int list \<Rightarrow> int list res" where
  "checkTargetUnit state line u seen =
     bindE (requireFact (moneyCents (tu_maximumCredit u) \<and> (case tu_unitId u of None \<Rightarrow> True | Some i \<Rightarrow> i \<noteq> [] \<and> length i \<le> 255)
         \<and> (case tu_originalIndex u of
              None \<Rightarrow> True
            | Some i \<Rightarrow> isSafeInteger i \<and> 0 \<le> i \<and> (case map_of (fs_remaining state) line of None \<Rightarrow> False | Some us \<Rightarrow> i < int (length us)) \<and> i \<notin> set seen))
       invalidRequest ''Invalid or transferred immutable unit index'') (\<lambda>_.
       Inr (case tu_originalIndex u of None \<Rightarrow> seen | Some i \<Rightarrow> i # seen))"

definition checkTargetLine :: "CreditFundingState \<Rightarrow> EditFundingTargetLine \<Rightarrow> string list \<Rightarrow> string list res" where
  "checkTargetLine state l lineIds =
     bindE (requireFact (uuidText (tl_orderLineId l) \<and> tl_orderLineId l \<notin> set lineIds) invalidRequest ''Duplicate or unproven target line'') (\<lambda>_.
     bindE (foldE (checkTargetUnit state (tl_orderLineId l)) (tl_units l) []) (\<lambda>_. Inr (tl_orderLineId l # lineIds)))"

definition targetUnitJson :: "TargetUnit \<Rightarrow> json" where
  "targetUnitJson u = JObj
     (member ''consumed'' (map_option JBool (tu_consumed u)) @ [(''maximumCredit'', JNum (of_int (tu_maximumCredit u))),
       (''originalIndex'', case tu_originalIndex u of None \<Rightarrow> JNull | Some i \<Rightarrow> JNum (of_int i))] @ member ''unitId'' (map_option JStr (tu_unitId u)))"

definition requestJson :: "EditFundingRedemption \<Rightarrow> string \<Rightarrow> EditFundingTargetLine list \<Rightarrow> json" where
  "requestJson r editId lines = JObj [(''editId'', JStr editId),
     (''lines'', JArr (map (\<lambda>l. JObj [(''orderLineId'', JStr (tl_orderLineId l)), (''units'', JArr (map targetUnitJson (tl_units l)))])
        (sort_key (collationKey \<circ> tl_orderLineId) lines))), (''redemptionId'', JStr (rd_id r))]"

definition isOwnRow :: "string \<Rightarrow> EditFundingHistoryRow \<times> RestorationEnvelope \<Rightarrow> bool" where
  "isOwnRow editId re = (case snd re of EditRestore _ _ i _ _ \<Rightarrow> i = editId | UnitRestore _ _ _ _ \<Rightarrow> False)"

definition hasDigest :: "string \<Rightarrow> EditFundingHistoryRow \<times> RestorationEnvelope \<Rightarrow> bool" where
  "hasDigest dig re = (case snd re of EditRestore _ _ _ d _ \<Rightarrow> d = dig | UnitRestore _ _ _ _ \<Rightarrow> False)"

text \<open>The funding each original unit of a line may keep.\<close>

definition unitsFor :: "EditFundingTargetLine list \<Rightarrow> string \<Rightarrow> TargetUnit list" where
  "unitsFor lines line = (case find (\<lambda>l. tl_orderLineId l = line) lines of None \<Rightarrow> [] | Some l \<Rightarrow> tl_units l)"

definition wantedUnit :: "EditFundingTargetLine list \<Rightarrow> string \<Rightarrow> int \<Rightarrow> TargetUnit option" where
  "wantedUnit lines line i = find (\<lambda>u. tu_originalIndex u = Some i) (unitsFor lines line)"

definition consumedOk :: "int list \<Rightarrow> TargetUnit \<Rightarrow> bool" where
  "consumedOk returned u = (case tu_originalIndex u of
       None \<Rightarrow> True
     | Some i \<Rightarrow> if i \<in> set returned then tu_consumed u = Some True else tu_consumed u \<noteq> Some True)"

definition editChanges :: "EditFundingTargetLine list \<Rightarrow> string \<Rightarrow> int list \<Rightarrow> int list \<Rightarrow> RestoreCause \<Rightarrow> EditFundingUnitChange list" where
  "editChanges lines line returned units cause = List.map_filter (\<lambda>i.
     (let before = units ! i
      in if int i \<in> set returned then None
         else case (cause, wantedUnit lines line (int i)) of
                (QuantityReturn, None) \<Rightarrow> Some \<lparr>uc_index = int i, uc_before = before, uc_after = 0\<rparr>
              | (UnitCorrection, Some u) \<Rightarrow> if tu_maximumCredit u < before then Some \<lparr>uc_index = int i, uc_before = before, uc_after = tu_maximumCredit u\<rparr> else None
              | _ \<Rightarrow> None)) [0..<length units]"

definition planCause :: "EditFundingRedemption \<Rightarrow> string \<Rightarrow> string \<Rightarrow> string \<Rightarrow> RestoreCause \<Rightarrow> EditFundingUnitChange list
    \<Rightarrow> EditFundingPosting list \<times> CreditFundingState \<Rightarrow> (EditFundingPosting list \<times> CreditFundingState) res" where
  "planCause r editId dig line cause changes st = (case st of (postings, state) \<Rightarrow>
     if changes = [] then Inr (postings, state)
     else bindE (sumCents (changeCents changes) invalidRequest) (\<lambda>_.
       Inr (postings @ [postingOf r line (EditRestore (envelopeLinksFor r line) cause editId dig (map unitJson changes)) changes None],
            postChanges line cause changes state)))"

definition planLine :: "EditFundingRedemption \<Rightarrow> string \<Rightarrow> string \<Rightarrow> EditFundingTargetLine list \<Rightarrow> string \<times> int list
    \<Rightarrow> EditFundingPosting list \<times> CreditFundingState \<Rightarrow> (EditFundingPosting list \<times> CreditFundingState) res" where
  "planLine r editId dig lines lu st = (case lu of (line, units) \<Rightarrow>
     (let returned = orElse (map_of (fs_returnedIndexes (snd st)) line) []
      in bindE (requireFact (list_all (consumedOk returned) (unitsFor lines line)) invalidRequest ''Returned unit funding cannot be reattached or consumed without posted proof'') (\<lambda>_.
         bindE (planCause r editId dig line QuantityReturn (editChanges lines line returned units QuantityReturn) st) (\<lambda>st1.
           planCause r editId dig line UnitCorrection (editChanges lines line returned units UnitCorrection) st1))))"

definition allocationFor :: "CreditFundingState \<Rightarrow> EditFundingTargetLine list \<Rightarrow> Allocation" where
  "allocationFor state lines = map (\<lambda>l. (tl_orderLineId l, map (\<lambda>u. case tu_originalIndex u of None \<Rightarrow> 0
     | Some i \<Rightarrow> unitAt (fs_remaining state) (tl_orderLineId l) i) (tl_units l))) lines"

definition planEditCreditFunding ::
  "(json \<Rightarrow> string) \<Rightarrow> EditFundingRedemption \<Rightarrow> EditFundingHistoryRow list \<Rightarrow> string \<Rightarrow> EditFundingTargetLine list \<Rightarrow> CommittedEdit option \<Rightarrow> EditFundingResult res" where
  "planEditCreditFunding digest r history editId lines committedEdit =
     bindE (readState r history) (\<lambda>(state, modern).
     bindE (requireFact (uuidText editId) invalidRequest ''Native edit identity & target lines required'') (\<lambda>_.
     bindE (foldE (checkTargetLine state) lines []) (\<lambda>_.
     (let dig = digest (requestJson r editId lines);
          ownRows = filter (isOwnRow editId) modern
      in case committedEdit of
           Some ce \<Rightarrow>
             bindE (requireFact (ce_editId ce = editId \<and> ce_requestDigest ce = dig \<and> distinct (ce_postingKeys ce)
                 \<and> sort (ce_postingKeys ce) = sort (map (fr_idempotencyKey \<circ> fst) ownRows) \<and> list_all (hasDigest dig) ownRows)
               replayConflict ''Edit replay payload or posted effect closure differs'') (\<lambda>_. Inr (FundingReplay dig state))
         | None \<Rightarrow>
             bindE (requireFact (ownRows = []) replayConflict ''Posted edit restoration lacks durable edit receipt'') (\<lambda>_.
             bindE (foldE (planLine r editId dig lines) (sort_key (collationKey \<circ> fst) (fs_remaining state)) ([], state)) (\<lambda>(postings, state1).
             bindE (sumCents (map ps_amount postings) invalidRequest) (\<lambda>posted.
             bindE (sumCents (concat (map snd (fs_remaining state1))) invalidRequest) (\<lambda>retained.
             bindE (requireFact (fs_restored state + posted + retained = fs_redeemed state) ambiguousHistory ''Planned funding does not conserve full redemption'') (\<lambda>_.
             bindE (sumCents (concat (map snd (allocationFor state1 lines))) invalidRequest) (\<lambda>allocated.
             bindE (requireFact (allocated = retained) ambiguousHistory ''Planned funding does not conserve full redemption'') (\<lambda>_.
               Inr (FundingPlan dig postings (allocationFor state1 lines)
                 (state1\<lparr>fs_restored := fs_restored state + posted, fs_retained := retained,
                   fs_returnedIndexes := map (\<lambda>(l, is). (l, sort is)) (fs_returnedIndexes state1)\<rparr>)))))))))))))"

end
