(* ===== verification/EditFundingLaws.thy ===== *)
theory EditFundingLaws
  imports EditFunding
begin

text \<open>
  The funding plans agree with the ledger they write: the rows a plan posts, read back with the
  rest of the history, replay to exactly the state the plan announced, and no plan is refused for
  not conserving the redemption. The step lemma shows this for one posting of valid unit changes;
  a return posts one, an order edit up to two per line.
\<close>

section \<open>Reading envelopes back\<close>

lemma requireFact_iff [simp]: "requireFact ok c m = Inr u \<longleftrightarrow> ok"
  by (simp add: requireFact_def)

lemma sumCents_iff [simp]: "sumCents vs c = Inr s \<longleftrightarrow> moneyCents (sum_list vs) \<and> s = sum_list vs"
  by (auto simp: sumCents_def)

lemma moneyCents_iff: "moneyCents v \<longleftrightarrow> 0 \<le> v \<and> v \<le> MAX_CREDIT_CENTS"
  by (auto simp: moneyCents_def isSafeInteger_def MAX_CREDIT_CENTS_def)

lemma jint_of_int [simp]: "isSafeInteger n \<Longrightarrow> jint (Some (JNum (of_int n))) = Some n"
  by (simp add: jint_def safeInt_def)

lemma money_safe: "moneyCents v \<Longrightarrow> isSafeInteger v"
  by (simp add: moneyCents_def)

lemma readUnit_unitJson [simp]:
  "\<lbrakk>isSafeInteger (uc_index c); moneyCents (uc_before c); moneyCents (uc_after c)\<rbrakk> \<Longrightarrow> readUnit (unitJson c) = Some (uc_index c, uc_before c, uc_after c)"
  by (simp add: readUnit_def unitJson_def money_safe)

text \<open>What the parser requires of an envelope.\<close>

fun envelopeOk :: "RestorationEnvelope \<Rightarrow> bool" where
  "envelopeOk (EditRestore l c editId dig us) \<longleftrightarrow> uuidText editId \<and> digestOk dig \<and> us \<noteq> []"
| "envelopeOk (UnitRestore l k i us) \<longleftrightarrow> i \<noteq> [] \<and> length i \<le> 153 \<and> (k = ByRefund \<longrightarrow> uuidText i) \<and> us \<noteq> []"

lemma causeOf_name [simp]: "causeOf (Some (JStr (causeName c))) = Some c"
  by (cases c) (simp_all add: causeOf_def causeName_def)

lemma operationOf_name [simp]:
  "\<lbrakk>i \<noteq> []; length i \<le> 153; k = ByRefund \<longrightarrow> uuidText i\<rbrakk> \<Longrightarrow> operationOf (Some (JObj [(''id'', JStr i), (''kind'', JStr (kindName k))])) = Some (k, i)"
  by (cases k) (simp_all add: operationOf_def kindName_def)

lemma map_of_member [simp]: "map_of (member k v @ kvs) k' = (if k' = k \<and> v \<noteq> None then v else map_of kvs k')"
  by (cases v) (auto simp: member_def map_add_def)

lemma parse_serialize:
  assumes "envelopeOk e" "fr_allocation row = Some (Some (serializeEnvelope e))"
  shows "parseEnvelope row = Inr (Some e)"
proof (cases e)
  case (EditRestore l c editId dig us)
  then show ?thesis using assms
    by (cases l) (auto simp: parseEnvelope_def parseEditRestore_def linksOf_def unitsOf_def simp del: map_of_append)
next
  case (UnitRestore l k i us)
  then show ?thesis using assms
    by (cases l) (auto simp: parseEnvelope_def parseUnitRestore_def linksOf_def unitsOf_def causeOf_def simp del: map_of_append)
qed

section \<open>Admission of one more row\<close>

lemma foldE_last: "foldE f (xs @ [x]) s = bindE (foldE f xs s) (f x)"
proof -
  have "foldE f [x] t = f x t" for t by (cases "f x t") auto
  then show ?thesis by (simp add: foldE_append fun_eq_iff del: foldE.simps(2) cong: bindE_cong)
qed

lemma admitRow_ids:
  assumes "admitRow r original row ad = Inr ad'"
  shows "ad_ids ad' = fr_id row # ad_ids ad \<and> ad_keys ad' = fr_idempotencyKey row # ad_keys ad"
  using assms by (auto simp: admitRow_def Let_def split: option.splits prod.splits)

lemma admitted_ids:
  "foldE (admitRow r original) rows ad = Inr ad' \<Longrightarrow>
     ad_ids ad' = rev (map fr_id rows) @ ad_ids ad \<and> ad_keys ad' = rev (map fr_idempotencyKey rows) @ ad_keys ad"
proof (induction rows arbitrary: ad)
  case (Cons row rows)
  then obtain ad1 where "admitRow r original row ad = Inr ad1" "foldE (admitRow r original) rows ad1 = Inr ad'" by auto
  then show ?case using Cons.IH admitRow_ids by fastforce
qed simp

definition edgeOk :: "UnitEdge \<Rightarrow> bool" where
  "edgeOk x \<longleftrightarrow> moneyCents (uc_before (ue_change x)) \<and> moneyCents (uc_after (ue_change x))
     \<and> (if ue_quantityReturn x then uc_after (ue_change x) = 0 \<and> 0 \<le> uc_before (ue_change x) else uc_after (ue_change x) < uc_before (ue_change x))"

lemma admitUnit_edges:
  "admitUnit original legacy line cause u edges = Inr edges' \<Longrightarrow> list_all edgeOk edges \<Longrightarrow> list_all edgeOk edges'"
  by (auto simp: admitUnit_def edgeOk_def moneyCents_iff split: option.splits if_splits)

lemma admitUnits_edges:
  "foldE (admitUnit original legacy line cause) us edges = Inr edges' \<Longrightarrow> list_all edgeOk edges \<Longrightarrow> list_all edgeOk edges'"
  using foldE_invariant[where P = "list_all edgeOk"] admitUnit_edges by blast

lemma admitModern_edges:
  "admitModern r original legacy re ms = Inr ms' \<Longrightarrow> list_all edgeOk (ms_edges ms) \<Longrightarrow> list_all edgeOk (ms_edges ms')"
  by (cases re) (auto simp: admitModern_def dest!: admitUnits_edges)

lemma modern_edges:
  "foldE (admitModern r original legacy) modern \<lparr>ms_digests = [], ms_edges = []\<rparr> = Inr ms \<Longrightarrow> list_all edgeOk (ms_edges ms)"
  using foldE_invariant[where P = "\<lambda>ms. list_all edgeOk (ms_edges ms)"] admitModern_edges by fastforce

text \<open>Changes of one line that a posting may carry: distinct unreturned units, each change starting
  from what the unit holds.\<close>

definition changesOk :: "RestoreCause \<Rightarrow> (int \<times> bool) list \<Rightarrow> EditFundingUnitChange list \<Rightarrow> bool" where
  "changesOk cause us cs \<longleftrightarrow> distinct (map uc_index cs) \<and> list_all (\<lambda>c. 0 \<le> uc_index c \<and> uc_index c < int (length us) \<and> isSafeInteger (uc_index c)
     \<and> us ! nat (uc_index c) = (uc_before c, False) \<and> moneyCents (uc_before c) \<and> moneyCents (uc_after c)
     \<and> (if cause = QuantityReturn then uc_after c = 0 else uc_after c < uc_before c)) cs"

definition edgeOf :: "string \<Rightarrow> RestoreCause \<Rightarrow> EditFundingUnitChange \<Rightarrow> UnitEdge" where
  "edgeOf line cause c = \<lparr>ue_line = line, ue_change = c, ue_quantityReturn = (cause = QuantityReturn)\<rparr>"

lemma admitUnits_changes:
  assumes "distinct (map uc_index (done @ cs))" "length units = length us"
    and "list_all (\<lambda>c. 0 \<le> uc_index c \<and> uc_index c < int (length us) \<and> isSafeInteger (uc_index c) \<and> moneyCents (uc_before c) \<and> moneyCents (uc_after c)
     \<and> (if cause = QuantityReturn then uc_after c = 0 else uc_after c < uc_before c)) cs"
    and "map_of original line = Some units" "\<And>c. c \<in> set cs \<Longrightarrow> \<not> uc_index c < int (legacyCount legacy line)"
  shows "foldE (admitUnit original legacy line cause) (map unitJson cs) (map (edgeOf line cause) done) = Inr (map (edgeOf line cause) (done @ cs))"
  using assms
proof (induction cs arbitrary: "done")
  case (Cons c cs)
  have c: "EditFundingUnitChange.make (uc_index c) (uc_before c) (uc_after c) = c" by (simp add: EditFundingUnitChange.make_def)
  have le: "uc_after c \<le> uc_before c" using Cons.prems(3) by (auto simp: moneyCents_iff split: if_splits)
  have "admitUnit original legacy line cause (unitJson c) (map (edgeOf line cause) done) = Inr (map (edgeOf line cause) (done @ [c]))"
    using Cons.prems le c by (auto simp: admitUnit_def orElse_def comp_def edgeOf_def requireFact_def checkE_def EditFundingUnitChange.make_def)
  then show ?case using Cons.IH[of "done @ [c]"] Cons.prems by simp
qed simp

section \<open>One more edge in a chain\<close>

lemma followEdge_iff [simp]:
  "followEdge x (u, ret) = Inr st \<longleftrightarrow> \<not> ret \<and> uc_before (ue_change x) = u \<and> st = (uc_after (ue_change x), ue_quantityReturn x)"
  by (auto simp: followEdge_def)

lemma follow_falls:
  "\<lbrakk>foldE followEdge chain (u, ret) = Inr (cur, False); list_all edgeOk chain\<rbrakk> \<Longrightarrow> \<not> ret \<and> cur \<le> u \<and> list_all (\<lambda>x. cur < uc_before (ue_change x)) chain"
proof (induction chain arbitrary: u ret)
  case (Cons x chain)
  then have x: "\<not> ret" "uc_before (ue_change x) = u" "foldE followEdge chain (uc_after (ue_change x), ue_quantityReturn x) = Inr (cur, False)"
    by auto
  have "\<not> ue_quantityReturn x \<and> cur \<le> uc_after (ue_change x) \<and> list_all (\<lambda>x. cur < uc_before (ue_change x)) chain"
    using Cons.IH[OF x(3)] Cons.prems(2) by simp
  then show ?case using x Cons.prems(2) by (auto simp: edgeOk_def)
qed simp

lemma sort_key_snoc: "(\<And>x. x \<in> set xs \<Longrightarrow> k x \<le> k r) \<Longrightarrow> sort_key k (xs @ [r]) = sort_key k xs @ [r]"
proof (induction xs)
  case (Cons x xs)
  have "insort_key k x (ys @ [r]) = insort_key k x ys @ [r]" for ys using Cons.prems[of x] by (induction ys) auto
  then show ?case using Cons by simp
qed simp

lemma chainOf_same:
  "(\<And>c. c \<in> set cs \<Longrightarrow> l \<noteq> line \<or> uc_index c \<noteq> int i) \<Longrightarrow> chainOf (edges @ map (edgeOf line cause) cs) l i = chainOf edges l i"
  unfolding chainOf_def by (subst filter_append, subst filter_False[of "map (edgeOf line cause) cs"]) (auto simp: edgeOf_def)

lemma filter_one: "\<lbrakk>distinct (map f cs); c \<in> set cs; f c = v\<rbrakk> \<Longrightarrow> filter (\<lambda>x. f x = v) cs = [c]"
  by (induction cs) (auto simp: filter_empty_conv, metis image_eqI)

lemma chainOf_snoc:
  assumes "distinct (map uc_index cs)" "c \<in> set cs" "uc_index c = int i" "list_all edgeOk edges"
    and cur: "foldE followEdge (chainOf edges line i) (u, False) = Inr (uc_before c, False)"
  shows "chainOf (edges @ map (edgeOf line cause) cs) line i = chainOf edges line i @ [edgeOf line cause c]"
proof -
  let ?old = "filter (\<lambda>x. ue_line x = line \<and> uc_index (ue_change x) = int i) edges"
  have "filter (\<lambda>c. uc_index c = int i) cs = [c]" using assms(1-3) by (rule filter_one)
  then have new: "filter (\<lambda>x. ue_line x = line \<and> uc_index (ue_change x) = int i) (map (edgeOf line cause) cs) = [edgeOf line cause c]"
    by (simp add: filter_map comp_def edgeOf_def)
  have "set (chainOf edges line i) = set ?old" by (simp add: chainOf_def)
  then have "uc_before c < uc_before (ue_change x)" if "x \<in> set ?old" for x
    using follow_falls[OF cur] assms(4) that by (auto simp: list_all_iff)
  then show ?thesis
    unfolding chainOf_def filter_append new by (intro sort_key_snoc) (auto simp: edgeOf_def)
qed

definition setPairs :: "RestoreCause \<Rightarrow> EditFundingUnitChange list \<Rightarrow> (int \<times> bool) list \<Rightarrow> (int \<times> bool) list" where
  "setPairs cause cs us = fold (\<lambda>c us. us[nat (uc_index c) := (uc_after c, cause = QuantityReturn)]) cs us"

lemma setPairs_length [simp]: "length (setPairs cause cs us) = length us"
  unfolding setPairs_def by (induction cs arbitrary: us) auto

lemma setPairs_fst: "map fst (setPairs cause cs us) = setUnits cs (map fst us)"
  unfolding setPairs_def setUnits_def by (induction cs arbitrary: us) (auto simp: map_update)

lemma setPairs_nth:
  assumes "distinct (map uc_index cs)" "\<And>c. c \<in> set cs \<Longrightarrow> 0 \<le> uc_index c" "i < length us"
  shows "setPairs cause cs us ! i = (case find (\<lambda>c. uc_index c = int i) cs of Some c \<Rightarrow> (uc_after c, cause = QuantityReturn) | None \<Rightarrow> us ! i)"
  using assms
proof (induction cs arbitrary: us)
  case (Cons c cs)
  have ih: "setPairs cause cs vs ! i = (case find (\<lambda>c. uc_index c = int i) cs of Some c \<Rightarrow> (uc_after c, cause = QuantityReturn) | None \<Rightarrow> vs ! i)"
    if "length vs = length us" for vs using Cons that by auto
  have none: "find (\<lambda>c. uc_index c = int i) cs = None" if "uc_index c = int i"
    using Cons.prems(1) that by (auto simp: find_None_iff) (metis image_eqI)
  show ?case
  proof (cases "uc_index c = int i")
    case True
    then show ?thesis using ih[of "us[nat (uc_index c) := (uc_after c, cause = QuantityReturn)]"] none Cons.prems(3) by (simp add: setPairs_def)
  next
    case False
    then have "nat (uc_index c) \<noteq> i" using Cons.prems(2)[of c] by auto
    then show ?thesis using ih[of "us[nat (uc_index c) := (uc_after c, cause = QuantityReturn)]"] False by (simp add: setPairs_def split: option.splits)
  qed
qed (simp add: setPairs_def)

lemma replayUnit_step:
  assumes us: "replayUnit legacy edges line units i = Inr (us ! i)" and "i < length us" "list_all edgeOk edges" "changesOk cause us cs"
  shows "replayUnit legacy (edges @ map (edgeOf line cause) cs) line units i = Inr (setPairs cause cs us ! i)"
proof -
  have cs: "distinct (map uc_index cs)" "\<And>c. c \<in> set cs \<Longrightarrow> 0 \<le> uc_index c" using assms(4) by (auto simp: changesOk_def list_all_iff)
  show ?thesis
  proof (cases "find (\<lambda>c. uc_index c = int i) cs")
    case None
    then have "chainOf (edges @ map (edgeOf line cause) cs) line i = chainOf edges line i"
      by (intro chainOf_same) (auto simp: find_None_iff)
    then show ?thesis using us None setPairs_nth[OF cs assms(2)] by (simp add: replayUnit_def)
  next
    case (Some c)
    then have c: "c \<in> set cs" "uc_index c = int i" by (auto dest: find_Some_in_set)
    then have usi: "us ! i = (uc_before c, False)" using assms(4) by (auto simp: changesOk_def list_all_iff)
    obtain cur ret where f: "foldE followEdge (chainOf edges line i) (units ! i, False) = Inr (cur, ret)"
      "us ! i = (if chainOf edges line i = [] then (if i < legacyCount legacy line then 0 else units ! i) else cur, ret \<or> i < legacyCount legacy line)"
      using us by (auto simp: replayUnit_def Let_def)
    then have f': "foldE followEdge (chainOf edges line i) (units ! i, False) = Inr (uc_before c, False)" "\<not> i < legacyCount legacy line"
      using usi by (auto split: if_splits)
    have "chainOf (edges @ map (edgeOf line cause) cs) line i = chainOf edges line i @ [edgeOf line cause c]"
      using chainOf_snoc[OF cs(1) c assms(3) f'(1)] .
    then show ?thesis using f' setPairs_nth[OF cs assms(2)] Some
      by (simp add: replayUnit_def foldE_last followEdge_def edgeOf_def)
  qed
qed

section \<open>The step\<close>

definition retainedOf :: "(string \<times> (int \<times> bool) list) list \<Rightarrow> int" where
  "retainedOf ls = sum_list (concat (map (\<lambda>(l, us). map fst us) ls))"

definition updLs :: "string \<Rightarrow> ((int \<times> bool) list \<Rightarrow> (int \<times> bool) list) \<Rightarrow> (string \<times> (int \<times> bool) list) list \<Rightarrow> (string \<times> (int \<times> bool) list) list" where
  "updLs line f ls = map (\<lambda>(l, us). (l, if l = line then f us else us)) ls"

text \<open>A successful replay, with everything it computed on the way.\<close>

definition replays :: "EditFundingRedemption \<Rightarrow> EditFundingHistoryRow list \<Rightarrow> Allocation \<Rightarrow> Admitted \<Rightarrow> (string \<times> nat) list \<Rightarrow> ModernState \<Rightarrow> (string \<times> (int \<times> bool) list) list \<Rightarrow> bool" where
  "replays r h original ad legacy ms ls \<longleftrightarrow> checkRedemption r = Inr original
     \<and> foldE (admitRow r original) h \<lparr>ad_ids = [], ad_keys = [], ad_legacy = [], ad_modern = []\<rparr> = Inr ad
     \<and> mapE (checkLegacy original) (ad_legacy ad) = Inr legacy
     \<and> foldE (admitModern r original legacy) (ad_modern ad) \<lparr>ms_digests = [], ms_edges = []\<rparr> = Inr ms
     \<and> mapE (replayLine legacy (ms_edges ms)) original = Inr ls
     \<and> moneyCents (sum_list (map fr_amount h)) \<and> moneyCents (retainedOf ls) \<and> sum_list (map fr_amount h) + retainedOf ls = rd_amount r"

lemma readState_iff:
  "readState r h = Inr res \<longleftrightarrow> (\<exists>original ad legacy ms ls. replays r h original ad legacy ms ls
     \<and> res = (stateOf r (sum_list (map fr_amount h)) ls, ad_modern ad))"
  by (auto simp: readState_def replays_def retainedOf_def split_beta)

lemma checkRedemption_facts:
  assumes "checkRedemption r = Inr original"
  shows "rd_operationalAllocation r = Some original" "rd_orderId r \<noteq> None" "rd_amount r \<le> MAX_CREDIT_CENTS" "0 < rd_amount r"
    "\<And>l us u. (l, us) \<in> set original \<Longrightarrow> u \<in> set us \<Longrightarrow> moneyCents u" "\<And>l us. (l, us) \<in> set original \<Longrightarrow> uuidText l"
  using assms by (auto simp: checkRedemption_def moneyCents_iff list_all_iff split: option.splits)

lemma replayLine_iff:
  "replayLine legacy edges (line, units) = Inr (l, us) \<longleftrightarrow> l = line \<and> length us = length units \<and> (\<forall>i<length units. replayUnit legacy edges line units i = Inr (us ! i))"
  by (auto simp: replayLine_def mapE_Inr_iff list_all2_conv_all_nth)

lemma replays_lines:
  assumes "mapE (replayLine legacy edges) original = Inr ls"
  shows "map fst ls = map fst original" "length ls = length original"
    "\<And>i. i < length original \<Longrightarrow> length (snd (ls ! i)) = length (snd (original ! i)) \<and>
       (\<forall>j<length (snd (original ! i)). replayUnit legacy edges (fst (original ! i)) (snd (original ! i)) j = Inr (snd (ls ! i) ! j))"
proof -
  have l2: "list_all2 (\<lambda>x y. replayLine legacy edges x = Inr y) original ls" using assms by (simp add: mapE_Inr_iff)
  then show len: "length ls = length original" by (simp add: list_all2_lengthD)
  have nth: "replayLine legacy edges (fst (original ! i), snd (original ! i)) = Inr (fst (ls ! i), snd (ls ! i))" if "i < length original" for i
    using l2 that by (simp add: list_all2_conv_all_nth)
  then have "fst (ls ! i) = fst (original ! i)" if "i < length original" for i
    using nth[OF that, unfolded replayLine_iff] by blast
  then show "map fst ls = map fst original" using len by (intro nth_equalityI) simp_all
  show "length (snd (ls ! i)) = length (snd (original ! i)) \<and>
       (\<forall>j<length (snd (original ! i)). replayUnit legacy edges (fst (original ! i)) (snd (original ! i)) j = Inr (snd (ls ! i) ! j))" if "i < length original" for i
    using nth[OF that, unfolded replayLine_iff] by blast
qed

lemma follow_money:
  "\<lbrakk>foldE followEdge chain (u, ret) = Inr (cur, ret'); list_all edgeOk chain; moneyCents u\<rbrakk> \<Longrightarrow> moneyCents cur"
  by (induction chain arbitrary: u ret) (auto simp: edgeOk_def)

lemma replayUnit_money:
  assumes "replayUnit legacy edges line units i = Inr v" "list_all edgeOk edges" "moneyCents (units ! i)"
  shows "moneyCents (fst v)"
proof -
  have "list_all edgeOk (chainOf edges line i)" using assms(2) by (auto simp: chainOf_def list_all_iff)
  then show ?thesis using assms follow_money[of "chainOf edges line i" "units ! i" False]
    by (auto simp: replayUnit_def Let_def moneyCents_iff MAX_CREDIT_CENTS_def)
qed

lemma replays_money:
  assumes "replays r h original ad legacy ms ls" "(l, us) \<in> set ls" "u \<in> set us"
  shows "moneyCents (fst u)"
proof -
  have m: "mapE (replayLine legacy (ms_edges ms)) original = Inr ls" and c: "checkRedemption r = Inr original" and e: "list_all edgeOk (ms_edges ms)"
    using assms(1) modern_edges by (auto simp: replays_def)
  obtain i where i: "i < length ls" "ls ! i = (l, us)" using assms(2) by (auto simp: in_set_conv_nth)
  obtain j where j: "j < length us" "us ! j = u" using assms(3) by (auto simp: in_set_conv_nth)
  note n = replays_lines[OF m]
  have j': "j < length (snd (original ! i))" using n(2) n(3)[of i] i j by simp
  have "snd (original ! i) ! j \<in> set (snd (original ! i))" using j' by simp
  then have "moneyCents (snd (original ! i) ! j)" using checkRedemption_facts(5)[OF c, of "fst (original ! i)" "snd (original ! i)"] n(2) i by simp
  moreover have "replayUnit legacy (ms_edges ms) (fst (original ! i)) (snd (original ! i)) j = Inr u"
    using n(3)[of i] n(2) i j j' by simp
  ultimately show ?thesis using replayUnit_money[OF _ e] by blast
qed

lemma setUnits_sum:
  assumes "distinct (map uc_index cs)" "\<And>c. c \<in> set cs \<Longrightarrow> 0 \<le> uc_index c \<and> uc_index c < int (length us) \<and> us ! nat (uc_index c) = uc_before c"
  shows "sum_list (setUnits cs us) = sum_list us - sum_list (changeCents cs)"
  using assms
proof (induction cs arbitrary: us)
  case (Cons c cs)
  let ?us = "us[nat (uc_index c) := uc_after c]"
  have "?us ! nat (uc_index d) = uc_before d" if "d \<in> set cs" for d
  proof -
    have "uc_index d \<noteq> uc_index c" using Cons.prems(1) that by (metis distinct.simps(2) image_eqI list.simps(9) set_map)
    then have "nat (uc_index d) \<noteq> nat (uc_index c)" using Cons.prems(2)[of c] Cons.prems(2)[of d] that by auto
    then show ?thesis using Cons.prems(2)[of d] that by simp
  qed
  then have "sum_list (setUnits cs ?us) = sum_list ?us - sum_list (changeCents cs)" using Cons by (intro Cons.IH) auto
  moreover have "nat (uc_index c) < length us" using Cons.prems(2)[of c] by auto
  ultimately show ?case using Cons.prems(2)[of c] by (simp add: setUnits_def changeCents_def sum_list_update_int)
qed (simp add: setUnits_def changeCents_def)

lemma updLs_retained:
  "\<lbrakk>distinct (map fst ls); map_of ls line = Some us\<rbrakk> \<Longrightarrow> retainedOf (updLs line f ls) = retainedOf ls + sum_list (map fst (f us)) - sum_list (map fst us)"
proof (induction ls)
  case (Cons x ls)
  obtain l vs where x: "x = (l, vs)" by (cases x)
  show ?case
  proof (cases "l = line")
    case True
    then have "updLs line f ls = ls" using Cons.prems x by (auto simp: updLs_def intro!: map_idI) (metis fst_conv image_eqI)
    then show ?thesis using True Cons.prems x by (simp add: retainedOf_def updLs_def)
  next
    case False
    then show ?thesis using Cons x by (simp add: retainedOf_def updLs_def)
  qed
qed simp

lemma updLs_nth: "i < length ls \<Longrightarrow> updLs line f ls ! i = (fst (ls ! i), if fst (ls ! i) = line then f (snd (ls ! i)) else snd (ls ! i))"
  by (simp add: updLs_def split_beta)

lemma map_of_nth: "map_of xs k = Some v \<Longrightarrow> \<exists>i<length xs. xs ! i = (k, v)"
  by (meson in_set_conv_nth map_of_SomeD)

lemma nth_fst_distinct: "\<lbrakk>distinct (map fst xs); i < length xs; j < length xs; fst (xs ! i) = fst (xs ! j)\<rbrakk> \<Longrightarrow> i = j"
  by (metis length_map nth_eq_iff_index_eq nth_map)

lemma replayLines_step:
  assumes m: "mapE (replayLine legacy edges) original = Inr ls" and "distinct (map fst original)" "map_of ls line = Some us"
    and "list_all edgeOk edges" "changesOk cause us cs"
  shows "mapE (replayLine legacy (edges @ map (edgeOf line cause) cs)) original = Inr (updLs line (setPairs cause cs) ls)"
proof -
  note n = replays_lines[OF m]
  obtain k where k: "k < length ls" "ls ! k = (line, us)" using map_of_nth[OF assms(3)] by auto
  have d: "distinct (map fst ls)" using assms(2) n(1) by simp
  have fst_eq: "fst (ls ! i) = fst (original ! i)" if "i < length original" for i using n(1,2) that by (metis nth_map)
  have "replayLine legacy (edges @ map (edgeOf line cause) cs) (original ! i) = Inr (updLs line (setPairs cause cs) ls ! i)" if i: "i < length original" for i
  proof (cases "fst (ls ! i) = line")
    case True
    then have "i = k" using nth_fst_distinct[OF d, of i k] n(2) i k by simp
    then have us: "snd (ls ! i) = us" using k by simp
    have "replayUnit legacy (edges @ map (edgeOf line cause) cs) line (snd (original ! i)) j = Inr (setPairs cause cs us ! j)" if "j < length us" for j
      using n(3)[OF i] us that fst_eq[OF i] True assms(4,5) by (intro replayUnit_step) auto
    then have "replayLine legacy (edges @ map (edgeOf line cause) cs) (line, snd (original ! i)) = Inr (line, setPairs cause cs us)"
      using n(3)[OF i] us by (simp add: replayLine_iff)
    then show ?thesis using True us fst_eq[OF i] n(2) i by (simp add: updLs_nth) (metis prod.collapse)
  next
    case False
    then have "chainOf (edges @ map (edgeOf line cause) cs) (fst (original ! i)) j = chainOf edges (fst (original ! i)) j" for j
      using fst_eq[OF i] by (intro chainOf_same) auto
    then have "replayLine legacy (edges @ map (edgeOf line cause) cs) (fst (original ! i), snd (original ! i)) = Inr (fst (original ! i), snd (ls ! i))"
      using n(3)[OF i] by (simp add: replayLine_iff replayUnit_def del: prod.collapse)
    then show ?thesis using False fst_eq[OF i] n(2) i by (simp add: updLs_nth)
  qed
  then show ?thesis using n(2) by (simp add: mapE_Inr_iff list_all2_conv_all_nth updLs_def)
qed

lemma legacy_returned:
  assumes "replayUnit legacy edges line units i = Inr (v, False)" shows "\<not> i < legacyCount legacy line"
  using assms by (auto simp: replayUnit_def Let_def)

lemma changes_retained:
  assumes "changesOk cause us cs"
  shows "sum_list (map fst (setPairs cause cs us)) = sum_list (map fst us) - sum_list (changeCents cs)" "0 \<le> sum_list (changeCents cs)"
    "\<And>p. p \<in> set (setPairs cause cs us) \<Longrightarrow> p \<in> set us \<or> moneyCents (fst p)"
proof -
  have cs: "distinct (map uc_index cs)" "\<And>c. c \<in> set cs \<Longrightarrow> 0 \<le> uc_index c \<and> uc_index c < int (length us) \<and> us ! nat (uc_index c) = (uc_before c, False)
      \<and> uc_after c \<le> uc_before c \<and> moneyCents (uc_after c)"
    using assms by (auto simp: changesOk_def list_all_iff moneyCents_iff split: if_splits)
  show "sum_list (map fst (setPairs cause cs us)) = sum_list (map fst us) - sum_list (changeCents cs)"
    unfolding setPairs_fst using cs by (subst setUnits_sum) (auto simp: nat_less_iff)
  show "0 \<le> sum_list (changeCents cs)" using cs(2) by (auto simp: changeCents_def intro!: sum_list_nonneg)
  have "set (setPairs cause ds vs) \<subseteq> set vs \<union> (\<lambda>c. (uc_after c, cause = QuantityReturn)) ` set ds" for ds vs
  proof (induction ds arbitrary: vs)
    case (Cons d ds)
    show ?case using Cons[of "vs[nat (uc_index d) := (uc_after d, cause = QuantityReturn)]"] set_update_subset_insert[of vs "nat (uc_index d)" "(uc_after d, cause = QuantityReturn)"]
      by (auto simp: setPairs_def)
  qed (simp add: setPairs_def)
  then show "p \<in> set us \<or> moneyCents (fst p)" if "p \<in> set (setPairs cause cs us)" for p using that cs(2) by fastforce
qed

lemma keyFor_nonempty: "envelopeOk e \<Longrightarrow> keyFor e \<noteq> []"
  by (cases e) (auto split: OperationKind.splits)

lemma post_money:
  assumes rep: "replays r h original ad legacy ms ls" and dist: "distinct (map fst original)" and us: "map_of ls line = Some us" and cs: "changesOk cause us cs"
  shows "retainedOf (updLs line (setPairs cause cs) ls) = retainedOf ls - sum_list (changeCents cs)"
    "moneyCents (sum_list (map fr_amount h) + sum_list (changeCents cs))" "moneyCents (retainedOf (updLs line (setPairs cause cs) ls))"
    "moneyCents (sum_list (changeCents cs))"
proof -
  from rep have cr: "checkRedemption r = Inr original" and rl: "mapE (replayLine legacy (ms_edges ms)) original = Inr ls"
    and sums: "moneyCents (sum_list (map fr_amount h))" "moneyCents (retainedOf ls)" "sum_list (map fr_amount h) + retainedOf ls = rd_amount r"
    by (auto simp: replays_def)
  let ?ls = "updLs line (setPairs cause cs) ls"
  have dls: "distinct (map fst ls)" using dist replays_lines(1)[OF rl] by simp
  show ret: "retainedOf ?ls = retainedOf ls - sum_list (changeCents cs)" using updLs_retained[OF dls us] changes_retained(1)[OF cs] by simp
  have "0 \<le> retainedOf ?ls" unfolding retainedOf_def
  proof (intro sum_list_nonneg)
    fix x assume "x \<in> set (concat (map (\<lambda>(l, us). map fst us) ?ls))"
    then obtain l vs p where p: "(l, vs) \<in> set ls" "p \<in> set (if l = line then setPairs cause cs vs else vs)" "x = fst p" by (auto simp: updLs_def split: if_splits)
    have "vs = us" if "l = line" using map_of_SomeD[OF us] p(1) that eq_key_imp_eq_value[OF dls] by blast
    then show "0 \<le> x" using p changes_retained(3)[OF cs] replays_money[OF rep] by (fastforce simp: moneyCents_iff split: if_splits)
  qed
  then show "moneyCents (sum_list (map fr_amount h) + sum_list (changeCents cs))" "moneyCents (retainedOf ?ls)" "moneyCents (sum_list (changeCents cs))"
    using ret changes_retained(2)[OF cs] sums checkRedemption_facts(3)[OF cr] by (auto simp: moneyCents_iff)
qed

lemma post_edges:
  assumes rl: "mapE (replayLine legacy (ms_edges ms)) original = Inr ls" and dist: "distinct (map fst original)"
    and us: "map_of ls line = Some us" and cs: "changesOk cause us cs"
  shows "foldE (admitUnit original legacy line cause) (map unitJson cs) [] = Inr (map (edgeOf line cause) cs)" "map_of original line \<noteq> None"
proof -
  note n = replays_lines[OF rl]
  obtain k where k: "k < length ls" "ls ! k = (line, us)" using map_of_nth[OF us] by auto
  define units where "units = snd (original ! k)"
  have ok: "original ! k = (line, units)" using k n(1,2) unfolding units_def by (metis fst_conv nth_map prod.collapse)
  have units: "map_of original line = Some units" "length units = length us"
    using dist ok k n(2) n(3)[of k] nth_mem[of k original] by (auto intro!: map_of_is_SomeI)
  then show "map_of original line \<noteq> None" by simp
  have nl: "\<not> uc_index c < int (legacyCount legacy line)" if "c \<in> set cs" for c
  proof -
    have c: "0 \<le> uc_index c" "uc_index c < int (length us)" "us ! nat (uc_index c) = (uc_before c, False)" using cs that by (auto simp: changesOk_def list_all_iff)
    have "replayUnit legacy (ms_edges ms) line units (nat (uc_index c)) = Inr (uc_before c, False)"
      using n(3)[of k] n(2) k ok c units(2) by (metis fst_conv nat_less_iff snd_conv)
    from legacy_returned[OF this] show ?thesis using c by simp
  qed
  show "foldE (admitUnit original legacy line cause) (map unitJson cs) [] = Inr (map (edgeOf line cause) cs)"
    using admitUnits_changes[of "[]" cs units us cause original line legacy] cs units nl by (simp add: changesOk_def list_all_iff)
qed

text \<open>Posting one envelope of valid changes extends a replay by exactly these changes.\<close>

lemma post_step:
  assumes rep: "replays r h original ad legacy ms ls" and dist: "distinct (map fst original)" and us: "map_of ls line = Some us"
    and cs: "changesOk cause us cs" and e: "envelopeOk e" "envelopeLinks e = envelopeLinksFor r line" "envelopeUnits e = map unitJson cs" "envelopeCause e = cause"
    and i: "i \<noteq> []" "i \<notin> fr_id ` set h" "keyFor e \<notin> fr_idempotencyKey ` set h"
    and row: "row = rowOfPosting i (postingOf r line e cs refund)"
    and op: "operationMatches (ms_digests ms) row e = Inr digests"
  shows "\<exists>ad' ms'. replays r (h @ [row]) original ad' legacy ms' (updLs line (setPairs cause cs) ls)
     \<and> ad_modern ad' = ad_modern ad @ [(row, e)] \<and> ms_digests ms' = digests"
proof -
  from rep have cr: "checkRedemption r = Inr original"
    and adm: "foldE (admitRow r original) h \<lparr>ad_ids = [], ad_keys = [], ad_legacy = [], ad_modern = []\<rparr> = Inr ad"
    and leg: "mapE (checkLegacy original) (ad_legacy ad) = Inr legacy"
    and mod: "foldE (admitModern r original legacy) (ad_modern ad) \<lparr>ms_digests = [], ms_edges = []\<rparr> = Inr ms"
    and rl: "mapE (replayLine legacy (ms_edges ms)) original = Inr ls"
    and sums: "sum_list (map fr_amount h) + retainedOf ls = rd_amount r"
    by (auto simp: replays_def)
  note money = post_money[OF rep dist us cs] and edges = post_edges[OF rl dist us cs]
  define ad' where "ad' = ad\<lparr>ad_ids := i # ad_ids ad, ad_keys := keyFor e # ad_keys ad, ad_modern := ad_modern ad @ [(row, e)]\<rparr>"
  have sel: "fr_id row = i" "fr_idempotencyKey row = keyFor e" "fr_amount row = sum_list (changeCents cs)" "lineOfRow row = line"
    "fr_allocation row = Some (Some (serializeEnvelope e))" "fr_operationalAllocation row = Some [(line, changeCents cs)]"
    by (simp_all add: row rowOfPosting_def postingOf_def lineOfRow_def)
  have "rowProven r original row" using i(1) keyFor_nonempty[OF e(1)] edges(2) money(4)
    by (simp add: row rowProven_def rowOfPosting_def postingOf_def)
  moreover have "i \<notin> set (ad_ids ad)" "keyFor e \<notin> set (ad_keys ad)" using admitted_ids[OF adm] i by auto
  ultimately have "admitRow r original row ad = Inr ad'"
    using parse_serialize[OF e(1) sel(5)] sel by (simp add: admitRow_def ad'_def requireFact_def checkE_def)
  then have a1: "foldE (admitRow r original) (h @ [row]) \<lparr>ad_ids = [], ad_keys = [], ad_legacy = [], ad_modern = []\<rparr> = Inr ad'"
    using adm by (simp add: foldE_last)
  have cents: "map edgeCents (map (edgeOf line cause) cs) = changeCents cs" by (simp add: edgeCents_def edgeOf_def changeCents_def)
  have match: "envelopeMatches r row e" using e by (simp add: envelopeMatches_def row rowOfPosting_def postingOf_def envelopeLinksFor_def)
  have "admitModern r original legacy (row, e) ms = Inr \<lparr>ms_digests = digests, ms_edges = ms_edges ms @ map (edgeOf line cause) cs\<rparr>"
    unfolding admitModern_def prod.case sel(4) e(3,4) using match op edges(1) cents money(4) sel
    by (simp add: requireFact_def sumCents_def checkE_def)
  then have a2: "foldE (admitModern r original legacy) (ad_modern ad') \<lparr>ms_digests = [], ms_edges = []\<rparr>
      = Inr \<lparr>ms_digests = digests, ms_edges = ms_edges ms @ map (edgeOf line cause) cs\<rparr>"
    using mod by (simp add: ad'_def foldE_last)
  have "replays r (h @ [row]) original ad' legacy \<lparr>ms_digests = digests, ms_edges = ms_edges ms @ map (edgeOf line cause) cs\<rparr>
      (updLs line (setPairs cause cs) ls)"
    using cr a1 leg a2 replayLines_step[OF rl dist us modern_edges[OF mod] cs] money sums sel(3)
    by (simp add: replays_def ad'_def)
  then show ?thesis by (intro exI conjI, assumption) (simp_all add: ad'_def)
qed

section \<open>Returns\<close>

lemma map_of_mapsnd: "map_of (map (\<lambda>(l, us). (l, f us)) ls) line = map_option f (map_of ls line)"
  by (induction ls) auto

lemma returnedOf_iff: "i \<in> set (returnedOf us) \<longleftrightarrow> 0 \<le> i \<and> i < int (length us) \<and> snd (us ! nat i)"
  by (auto simp: returnedOf_def image_iff) (metis nat_eq_iff2 nat_less_iff)

lemma sort_returnedOf [simp]: "sort (returnedOf us) = returnedOf us"
  by (rule sorted_sort_id) (simp add: returnedOf_def sorted_map sorted_wrt_filter)

lemma sort_sort [simp]: "sort (sort xs) = sort (xs :: int list)"
  by (rule sorted_sort_id) simp

text \<open>A plan's state describes the same lines as a replay; returned indexes may be out of order.\<close>

definition agrees :: "CreditFundingState \<Rightarrow> (string \<times> (int \<times> bool) list) list \<Rightarrow> bool" where
  "agrees st ls \<longleftrightarrow> fs_remaining st = map (\<lambda>(l, us). (l, map fst us)) ls
     \<and> map (\<lambda>(l, is). (l, sort is)) (fs_returnedIndexes st) = map (\<lambda>(l, us). (l, returnedOf us)) ls"

lemma agrees_stateOf: "agrees (stateOf r n ls) ls"
  by (auto simp: agrees_def stateOf_def)

lemma agrees_line:
  assumes "agrees st ls"
  shows "map_of (fs_remaining st) line = map_option (map fst) (map_of ls line)"
    "map_of ls line = Some us \<Longrightarrow> set (orElse (map_of (fs_returnedIndexes st) line) []) = set (returnedOf us)"
proof -
  show "map_of (fs_remaining st) line = map_option (map fst) (map_of ls line)" using assms by (simp add: agrees_def map_of_mapsnd)
  have "map_option sort (map_of (fs_returnedIndexes st) line) = map_option returnedOf (map_of ls line)"
    using assms by (metis agrees_def map_of_mapsnd)
  then show "map_of ls line = Some us \<Longrightarrow> set (orElse (map_of (fs_returnedIndexes st) line) []) = set (returnedOf us)"
    by (cases "map_of (fs_returnedIndexes st) line") (auto simp: orElse_def, (metis set_sort)+)
qed

lemma returned_set:
  assumes "changesOk cause us cs" "sort is = returnedOf us"
  shows "sort (returnIndexes cause cs is) = returnedOf (setPairs cause cs us)"
proof -
  have cs: "distinct (map uc_index cs)" "\<And>c. c \<in> set cs \<Longrightarrow> 0 \<le> uc_index c \<and> uc_index c < int (length us) \<and> us ! nat (uc_index c) = (uc_before c, False)"
    using assms(1) by (auto simp: changesOk_def list_all_iff)
  have "distinct (sort is)" unfolding assms(2) by (simp add: returnedOf_def distinct_map inj_on_def)
  then have d: "distinct is" by simp
  have "set is = set (returnedOf us)" using assms(2) by (metis set_sort)
  then have inis: "i \<in> set is \<longleftrightarrow> 0 \<le> i \<and> i < int (length us) \<and> snd (us ! nat i)" for i by (simp add: returnedOf_iff)
  have dist: "distinct (returnIndexes cause cs is)" using cs d inis by (auto simp: returnIndexes_def)
  have nth: "snd (setPairs cause cs us ! nat i) \<longleftrightarrow> (if i \<in> uc_index ` set cs then cause = QuantityReturn else snd (us ! nat i))" if "0 \<le> i" "i < int (length us)" for i
  proof -
    have "nat i < length us" using that by linarith
    from setPairs_nth[OF cs(1) _ this, of cause] cs(2) that show ?thesis
      by (cases "find (\<lambda>c. uc_index c = i) cs") (auto simp: find_None_iff image_iff dest: find_Some_in_set)
  qed
  have "set (returnIndexes cause cs is) = set (returnedOf (setPairs cause cs us))"
  proof (rule set_eqI)
    fix x show "x \<in> set (returnIndexes cause cs is) \<longleftrightarrow> x \<in> set (returnedOf (setPairs cause cs us))"
      using cs(2) nth[of x] inis[of x] by (cases "cause = QuantityReturn") (auto simp: returnIndexes_def returnedOf_iff split: if_splits)
  qed
  moreover have "sorted (returnedOf vs)" "distinct (returnedOf vs)" for vs
    by (auto simp: returnedOf_def sorted_map sorted_wrt_filter distinct_map inj_on_def)
  ultimately show ?thesis using dist by (intro sorted_distinct_set_unique) auto
qed

lemma agrees_post:
  assumes ag: "agrees st ls" and dist: "distinct (map fst ls)" and us: "map_of ls line = Some us" and cs: "changesOk cause us cs"
  shows "agrees (postChanges line cause cs st) (updLs line (setPairs cause cs) ls)"
proof -
  have rem: "updLine line (setUnits cs) (map (\<lambda>(l, us). (l, map fst us)) ls) = map (\<lambda>(l, us). (l, map fst us)) (updLs line (setPairs cause cs) ls)"
    by (auto simp: updLine_def updLs_def setPairs_fst)
  let ?R = "fs_returnedIndexes st"
  have eq: "map (\<lambda>(l, is). (l, sort is)) ?R = map (\<lambda>(l, us). (l, returnedOf us)) ls" using ag by (simp add: agrees_def)
  then have len: "length ?R = length ls" by (metis length_map)
  have nth: "fst (?R ! i) = fst (ls ! i) \<and> sort (snd (?R ! i)) = returnedOf (snd (ls ! i))" if "i < length ls" for i
    using arg_cong[OF eq, of "\<lambda>xs. xs ! i"] that len by (simp add: split_beta)
  have line: "snd (ls ! i) = us" if "i < length ls" "fst (ls ! i) = line" for i
    using that us dist by (metis eq_key_imp_eq_value map_of_SomeD nth_mem prod.collapse)
  have "map (\<lambda>(l, is). (l, sort is)) (updLine line (returnIndexes cause cs) ?R) = map (\<lambda>(l, us). (l, returnedOf us)) (updLs line (setPairs cause cs) ls)"
  proof (rule nth_equalityI)
    fix i assume "i < length (map (\<lambda>(l, is). (l, sort is)) (updLine line (returnIndexes cause cs) ?R))"
    then have i: "i < length ls" by (simp add: updLine_def len)
    have "sort (returnIndexes cause cs (snd (?R ! i))) = returnedOf (setPairs cause cs us)" if "fst (ls ! i) = line"
      using nth[OF i] line[OF i that] returned_set[OF cs] by simp
    then show "map (\<lambda>(l, is). (l, sort is)) (updLine line (returnIndexes cause cs) ?R) ! i = map (\<lambda>(l, us). (l, returnedOf us)) (updLs line (setPairs cause cs) ls) ! i"
      using nth[OF i] line[OF i] i by (auto simp: updLine_def updLs_def len split_beta)
  qed (simp add: updLine_def updLs_def len)
  then show ?thesis using ag rem by (simp add: agrees_def postChanges_def)
qed

lemma pick_changes:
  assumes "foldE (pickUnit st line) idx acc = Inr cs" "agrees st ls"
    and "\<And>l vs p. (l, vs) \<in> set ls \<Longrightarrow> p \<in> set vs \<Longrightarrow> moneyCents (fst p)"
    and "acc \<noteq> [] \<Longrightarrow> \<exists>us. map_of ls line = Some us \<and> changesOk QuantityReturn us acc" "cs \<noteq> []"
  shows "\<exists>us. map_of ls line = Some us \<and> changesOk QuantityReturn us cs"
  using assms(1,4,5)
proof (induction idx arbitrary: acc)
  case (Cons x idx)
  then obtain acc' where acc': "pickUnit st line x acc = Inr acc'" "foldE (pickUnit st line) idx acc' = Inr cs" by auto
  show ?case
  proof (rule Cons.IH[OF acc'(2) _ Cons.prems(3)])
    assume ne: "acc' \<noteq> []"
    show "\<exists>us. map_of ls line = Some us \<and> changesOk QuantityReturn us acc'"
    proof (cases x)
      case None
      then show ?thesis using acc'(1) ne Cons.prems(2) by (simp add: pickUnit_def)
    next
      case (Some i)
      then have f: "isSafeInteger i" "0 \<le> i" "case map_of (fs_remaining st) line of None \<Rightarrow> False | Some us \<Rightarrow> i < int (length us)"
        "i \<notin> set (map uc_index acc)" "i \<notin> set (orElse (map_of (fs_returnedIndexes st) line) [])"
        "acc' = acc @ [\<lparr>uc_index = i, uc_before = unitAt (fs_remaining st) line i, uc_after = 0\<rparr>]"
        using acc'(1) by (auto simp: pickUnit_def)
      obtain us where us: "map_of ls line = Some us" "i < int (length us)" using f(3) agrees_line(1)[OF assms(2), of line] by (auto split: option.splits)
      have "\<not> snd (us ! nat i)" using f(5) agrees_line(2)[OF assms(2) us(1)] us(2) f(2) by (simp add: returnedOf_iff)
      moreover have "unitAt (fs_remaining st) line i = fst (us ! nat i)" "us ! nat i \<in> set us"
        using us f(2) agrees_line(1)[OF assms(2), of line] by (auto simp: unitAt_def orElse_def)
      moreover from this have "moneyCents (fst (us ! nat i))" using assms(3) map_of_SomeD[OF us(1)] by blast
      moreover have "changesOk QuantityReturn us acc" using Cons.prems(2) us by (cases "acc = []") (auto simp: changesOk_def)
      ultimately show ?thesis using us f by (auto simp: changesOk_def list_all_iff moneyCents_iff prod_eq_iff)
    qed
  qed
qed simp

lemma stateOf_agrees:
  assumes "agrees st ls" "fs_returnedIndexes st' = map (\<lambda>(l, is). (l, sort is)) (fs_returnedIndexes st)" "fs_remaining st' = fs_remaining st"
    "fs_redeemed st' = rd_amount r" "fs_restored st' = n" "fs_retained st' = retainedOf ls"
  shows "stateOf r n ls = st'"
  using assms by (cases st') (simp add: stateOf_def agrees_def retainedOf_def)

text \<open>Planning the return of purchased units and posting the planned row are one step: if
  \<open>planCreditUnitReturn\<close> accepts, and the row is inserted under a fresh id and an unused key, then
  the complete history replays to exactly the state the plan announced, so later readers see what
  the plan promised and the redemption is conserved to the cent.\<close>

theorem unit_return_reads_back:
  assumes plan: "planCreditUnitReturn r history kind opId line indexes = Inr (Some p, st)"
    and alloc: "\<And>original. rd_operationalAllocation r = Some original \<Longrightarrow> distinct (map fst original)"
    and fresh: "i \<noteq> []" "i \<notin> fr_id ` set history" "ps_idempotencyKey p \<notin> fr_idempotencyKey ` set history"
  shows "readCreditFundingState r (history @ [rowOfPosting i p]) = Inr st \<and> fs_restored st + fs_retained st = rd_amount r"
proof -
  from plan obtain st0 modern cs where p0: "readState r history = Inr (st0, modern)" "foldE (pickUnit st0 line) indexes [] = Inr cs" "cs \<noteq> []"
    and req: "uuidText line" "opId \<noteq> []" "length opId \<le> 153" "kind \<noteq> ByRefund \<or> uuidText opId"
    and p: "p = postingOf r line (UnitRestore (envelopeLinksFor r line) kind opId (map unitJson cs)) cs (if kind = ByRefund then Some opId else None)"
    and st: "st = (postChanges line QuantityReturn cs st0)\<lparr>fs_returnedIndexes := updLine line sort (fs_returnedIndexes (postChanges line QuantityReturn cs st0)),
        fs_restored := fs_restored st0 + sum_list (changeCents cs), fs_retained := fs_retained st0 - sum_list (changeCents cs)\<rparr>"
    by (auto simp: planCreditUnitReturn_def Let_def split: if_splits)
  let ?e = "UnitRestore (envelopeLinksFor r line) kind opId (map unitJson cs)"
  obtain original ad legacy ms ls where rep: "replays r history original ad legacy ms ls" and st0: "st0 = stateOf r (sum_list (map fr_amount history)) ls"
    using p0(1) by (auto simp: readState_iff)
  have dist: "distinct (map fst original)" using alloc rep checkRedemption_facts(1) by (auto simp: replays_def)
  have rl: "mapE (replayLine legacy (ms_edges ms)) original = Inr ls" using rep by (simp add: replays_def)
  have dls: "distinct (map fst ls)" using dist replays_lines(1)[OF rl] by simp
  have ag: "agrees st0 ls" unfolding st0 by (rule agrees_stateOf)
  obtain us where us: "map_of ls line = Some us" "changesOk QuantityReturn us cs"
    using pick_changes[OF p0(2) ag] replays_money[OF rep] p0(3) by blast
  let ?refund = "if kind = ByRefund then Some opId else None"
  have op: "operationMatches (ms_digests ms) (rowOfPosting i p) ?e = Inr (ms_digests ms)"
    by (simp add: p operationMatches_def rowOfPosting_def postingOf_def requireFact_def checkE_def)
  have key: "keyFor ?e \<notin> fr_idempotencyKey ` set history" using fresh(3) by (simp add: p postingOf_def)
  have ok: "envelopeOk ?e" using req p0(3) by auto
  obtain ad' ms' where rep': "replays r (history @ [rowOfPosting i p]) original ad' legacy ms' (updLs line (setPairs QuantityReturn cs) ls)"
    using post_step[OF rep dist us ok _ _ _ fresh(1,2) key _ op, of ?refund] p by auto
  have "stateOf r (sum_list (map fr_amount (history @ [rowOfPosting i p]))) (updLs line (setPairs QuantityReturn cs) ls) = st"
    by (rule stateOf_agrees[OF agrees_post[OF ag dls us]])
       (use post_money(1)[OF rep dist us] in \<open>auto simp: st postChanges_def updLine_def st0 stateOf_def rowOfPosting_def p postingOf_def retainedOf_def\<close>)
  moreover have "readState r (history @ [rowOfPosting i p]) = Inr (stateOf r (sum_list (map fr_amount (history @ [rowOfPosting i p]))) (updLs line (setPairs QuantityReturn cs) ls), ad_modern ad')"
    unfolding readState_iff using rep' by blast
  ultimately show ?thesis using rep' by (auto simp: readCreditFundingState_def replays_def stateOf_def retainedOf_def)
qed

section \<open>Order edits\<close>

text \<open>\<open>newId\<close> names the id the database draws for a posted row.\<close>

definition postedRows :: "(EditFundingPosting \<Rightarrow> string) \<Rightarrow> EditFundingPosting list \<Rightarrow> EditFundingHistoryRow list" where
  "postedRows newId ps = map (\<lambda>p. rowOfPosting (newId p) p) ps"

definition uniqueRows :: "EditFundingHistoryRow list \<Rightarrow> bool" where
  "uniqueRows rows \<longleftrightarrow> distinct (map fr_id rows) \<and> [] \<notin> fr_id ` set rows \<and> distinct (map fr_idempotencyKey rows)"

lemma uniqueRows_prefix: "uniqueRows (xs @ ys) \<Longrightarrow> uniqueRows xs"
  by (auto simp: uniqueRows_def)

lemma uniqueRows_snoc:
  "uniqueRows (xs @ [x]) \<longleftrightarrow> uniqueRows xs \<and> fr_id x \<noteq> [] \<and> fr_id x \<notin> fr_id ` set xs \<and> fr_idempotencyKey x \<notin> fr_idempotencyKey ` set xs"
  by (auto simp: uniqueRows_def)

definition planned :: "EditFundingRedemption \<Rightarrow> EditFundingHistoryRow list \<Rightarrow> Allocation \<Rightarrow> (string \<times> nat) list \<Rightarrow> string \<Rightarrow> string \<Rightarrow> (EditFundingPosting \<Rightarrow> string)
    \<Rightarrow> EditFundingPosting list \<times> CreditFundingState \<Rightarrow> (string \<times> (int \<times> bool) list) list \<Rightarrow> bool" where
  "planned r h original legacy editId dig newId st ls \<longleftrightarrow> (\<exists>ad ms. replays r (h @ postedRows newId (fst st)) original ad legacy ms ls
     \<and> agrees (snd st) ls \<and> map_of (ms_digests ms) editId \<in> {None, Some dig})"

lemma updLs_none: "updLs line (setPairs cause []) ls = ls"
  by (auto simp: updLs_def setPairs_def intro!: map_idI)

lemma planCause_planned:
  assumes pl: "planned r h original legacy editId dig newId st ls" and dist: "distinct (map fst original)" and us: "map_of ls line = Some us" and cs: "changesOk cause us cs"
    and ok: "uuidText editId" "digestOk dig" and pc: "planCause r editId dig line cause cs st = Inr st'" and un: "uniqueRows (h @ postedRows newId (fst st'))"
  shows "planned r h original legacy editId dig newId st' (updLs line (setPairs cause cs) ls)"
proof (cases "cs = []")
  case True
  then show ?thesis using pl pc by (simp add: planCause_def split_beta updLs_none)
next
  case False
  let ?e = "EditRestore (envelopeLinksFor r line) cause editId dig (map unitJson cs)"
  let ?p = "postingOf r line ?e cs None"
  let ?row = "rowOfPosting (newId ?p) ?p"
  have st': "st' = (fst st @ [?p], postChanges line cause cs (snd st))" using pc False by (auto simp: planCause_def split_beta)
  obtain ad ms where rep: "replays r (h @ postedRows newId (fst st)) original ad legacy ms ls" and ag: "agrees (snd st) ls" and dg: "map_of (ms_digests ms) editId \<in> {None, Some dig}"
    using pl by (auto simp: planned_def)
  have dls: "distinct (map fst ls)" using rep dist replays_lines(1) by (auto simp: replays_def)
  have sel: "fr_id ?row = newId ?p" "fr_idempotencyKey ?row = keyFor ?e" by (simp_all add: rowOfPosting_def postingOf_def)
  have rows: "h @ postedRows newId (fst st') = (h @ postedRows newId (fst st)) @ [?row]" by (simp add: st' postedRows_def)
  have fresh: "newId ?p \<noteq> []" "newId ?p \<notin> fr_id ` set (h @ postedRows newId (fst st))" "keyFor ?e \<notin> fr_idempotencyKey ` set (h @ postedRows newId (fst st))"
    using un[unfolded rows uniqueRows_snoc sel] by blast+
  have op: "operationMatches (ms_digests ms) ?row ?e = Inr (AList.update editId dig (ms_digests ms))"
    using dg by (auto simp: operationMatches_def rowOfPosting_def postingOf_def requireFact_def checkE_def)
  have eok: "envelopeOk ?e" using ok False by simp
  obtain ad' ms' where rep': "replays r (h @ postedRows newId (fst st')) original ad' legacy ms' (updLs line (setPairs cause cs) ls)"
      "ms_digests ms' = AList.update editId dig (ms_digests ms)"
    using post_step[OF rep dist us cs eok _ _ _ fresh refl op] rows by auto
  have "map_of (ms_digests ms') editId = Some dig" by (simp add: rep'(2) update_conv)
  then show ?thesis using rep'(1) agrees_post[OF ag dls us cs] unfolding planned_def by (auto simp: st')
qed

lemma map_of_updLs: "map_of (updLs line f ls) l = (if l = line then map_option f (map_of ls l) else map_of ls l)"
  by (induction ls) (auto simp: updLs_def)

lemma map_filter_iff: "List.map_filter f xs = map (the \<circ> f) (filter (\<lambda>x. f x \<noteq> None) xs)"
  by (induction xs) (auto simp: List.map_filter_simps split: option.splits)

lemma editChanges_mem:
  "c \<in> set (editChanges lines line returned units cause) \<longleftrightarrow> (\<exists>i<length units. uc_index c = int i \<and> uc_before c = units ! i \<and> int i \<notin> set returned \<and>
     (case (cause, wantedUnit lines line (int i)) of (QuantityReturn, None) \<Rightarrow> uc_after c = 0
      | (UnitCorrection, Some u) \<Rightarrow> tu_maximumCredit u < units ! i \<and> uc_after c = tu_maximumCredit u | _ \<Rightarrow> False))"
  by (cases c; cases cause) (force simp: editChanges_def List.map_filter_def Let_def split: option.splits if_splits)+

lemma editChanges_distinct: "distinct (map uc_index (editChanges lines line returned units cause))"
proof -
  have "uc_index (the (f i)) = int i" if "f i \<noteq> None" "f = (\<lambda>i. (let before = units ! i
      in if int i \<in> set returned then None
         else case (cause, wantedUnit lines line (int i)) of
                (QuantityReturn, None) \<Rightarrow> Some \<lparr>uc_index = int i, uc_before = before, uc_after = 0\<rparr>
              | (UnitCorrection, Some u) \<Rightarrow> if tu_maximumCredit u < before then Some \<lparr>uc_index = int i, uc_before = before, uc_after = tu_maximumCredit u\<rparr> else None
              | _ \<Rightarrow> None))" for f i
    using that by (auto simp: Let_def split: if_splits RestoreCause.splits option.splits)
  then have "map uc_index (editChanges lines line returned units cause) = map int (filter (\<lambda>i. (let before = units ! i
      in if int i \<in> set returned then None
         else case (cause, wantedUnit lines line (int i)) of
                (QuantityReturn, None) \<Rightarrow> Some \<lparr>uc_index = int i, uc_before = before, uc_after = 0\<rparr>
              | (UnitCorrection, Some u) \<Rightarrow> if tu_maximumCredit u < before then Some \<lparr>uc_index = int i, uc_before = before, uc_after = tu_maximumCredit u\<rparr> else None
              | _ \<Rightarrow> None) \<noteq> None) [0..<length units])"
    by (simp add: editChanges_def map_filter_iff)
  then show ?thesis by (simp add: distinct_map inj_on_def)
qed

lemma wanted_money:
  assumes "\<And>u. u \<in> set (unitsFor lines line) \<Longrightarrow> moneyCents (tu_maximumCredit u)" "wantedUnit lines line i = Some u"
  shows "moneyCents (tu_maximumCredit u)"
  using assms by (auto simp: wantedUnit_def dest: find_Some_in_set)

lemma editChanges_ok:
  assumes us: "set returned = set (returnedOf us)" "length us < 2 ^ 32" "\<And>p. p \<in> set us \<Longrightarrow> moneyCents (fst p)"
    and cap: "\<And>u. u \<in> set (unitsFor lines line) \<Longrightarrow> moneyCents (tu_maximumCredit u)"
    and vs: "length vs = length us" "\<And>i. \<lbrakk>i < length us; cause = QuantityReturn \<or> wantedUnit lines line (int i) \<noteq> None\<rbrakk> \<Longrightarrow> vs ! i = us ! i"
  shows "changesOk cause vs (editChanges lines line returned (map fst us) cause)"
  unfolding changesOk_def list_all_iff
proof (intro conjI ballI editChanges_distinct)
  fix c assume "c \<in> set (editChanges lines line returned (map fst us) cause)"
  then obtain i where i: "i < length us" "uc_index c = int i" "uc_before c = fst (us ! i)" "int i \<notin> set returned"
    and w: "case (cause, wantedUnit lines line (int i)) of (QuantityReturn, None) \<Rightarrow> uc_after c = 0
      | (UnitCorrection, Some u) \<Rightarrow> tu_maximumCredit u < map fst us ! i \<and> uc_after c = tu_maximumCredit u | _ \<Rightarrow> False"
    by (auto simp: editChanges_mem)
  have nr: "\<not> snd (us ! i)" using i us(1) by (auto simp: returnedOf_iff)
  show "0 \<le> uc_index c" "uc_index c < int (length vs)" using i vs(1) by auto
  show "isSafeInteger (uc_index c)" using i us(2) by (simp add: isSafeInteger_def)
  show "moneyCents (uc_before c)" using i us(3)[OF nth_mem[OF i(1)]] by simp
  have "cause = QuantityReturn \<or> wantedUnit lines line (int i) \<noteq> None" using w by (auto split: RestoreCause.splits option.splits)
  then show "vs ! nat (uc_index c) = (uc_before c, False)" using vs(2)[OF i(1)] i nr by (simp add: prod_eq_iff)
  show "moneyCents (uc_after c)" using w wanted_money[OF cap] by (auto simp: moneyCents_iff MAX_CREDIT_CENTS_def split: RestoreCause.splits option.splits)
  show "if cause = QuantityReturn then uc_after c = 0 else uc_after c < uc_before c" using w i by (auto split: RestoreCause.splits option.splits)
qed

lemma setPairs_other:
  assumes "changesOk cause us cs" "i < length us" "int i \<notin> uc_index ` set cs"
  shows "setPairs cause cs us ! i = us ! i"
proof -
  have "find (\<lambda>c. uc_index c = int i) cs = None" using assms(3) unfolding find_None_iff by (metis image_eqI)
  then show ?thesis using setPairs_nth[of cs i us cause] assms by (simp add: changesOk_def list_all_iff)
qed

lemma updLs_twice:
  assumes "distinct (map fst ls)" "map_of ls line = Some us"
  shows "updLs line f (updLs line g ls) = updLs line (\<lambda>_. f (g us)) ls"
proof -
  have "vs = us" if "(line, vs) \<in> set ls" for vs using eq_key_imp_eq_value[OF assms(1) that map_of_SomeD[OF assms(2)]] .
  then show ?thesis unfolding updLs_def map_map by (intro map_cong) auto
qed

lemma planLine_planned:
  assumes pl: "planned r h original legacy editId dig newId st ls" and dist: "distinct (map fst original)" and us: "map_of ls line = Some us" and len: "length us < 2 ^ 32"
    and cap: "\<And>u. u \<in> set (unitsFor lines line) \<Longrightarrow> moneyCents (tu_maximumCredit u)"
    and ok: "uuidText editId" "digestOk dig" and pc: "planLine r editId dig lines (line, map fst us) st = Inr st'" and un: "uniqueRows (h @ postedRows newId (fst st'))"
  shows "\<exists>us'. planned r h original legacy editId dig newId st' (updLs line (\<lambda>_. us') ls) \<and> length us' = length us"
proof -
  define returned where "returned = orElse (map_of (fs_returnedIndexes (snd st)) line) []"
  let ?q = "editChanges lines line returned (map fst us) QuantityReturn" and ?u = "editChanges lines line returned (map fst us) UnitCorrection"
  obtain st1 where s1: "planCause r editId dig line QuantityReturn ?q st = Inr st1" and s2: "planCause r editId dig line UnitCorrection ?u st1 = Inr st'"
    using pc by (auto simp: planLine_def Let_def returned_def)
  have ret: "set returned = set (returnedOf us)" using pl agrees_line(2)[OF _ us] by (auto simp: planned_def returned_def)
  have money: "moneyCents (fst p)" if "p \<in> set us" for p
    using pl map_of_SomeD[OF us] that unfolding planned_def by (meson replays_money)
  have q: "changesOk QuantityReturn us ?q" by (rule editChanges_ok[OF ret len money cap]) auto
  let ?us1 = "setPairs QuantityReturn ?q us"
  have "?us1 ! i = us ! i" if "i < length us" "wantedUnit lines line (int i) \<noteq> None" for i
    using that by (intro setPairs_other[OF q]) (auto simp: editChanges_mem)
  then have u: "changesOk UnitCorrection ?us1 ?u" by (intro editChanges_ok[OF ret len money cap]) auto
  have "\<exists>rest. fst st' = fst st1 @ rest" using s2 by (cases st1) (auto simp: planCause_def split: if_splits)
  then have un1: "uniqueRows (h @ postedRows newId (fst st1))" using un uniqueRows_prefix[of "h @ postedRows newId (fst st1)"] by (auto simp: postedRows_def)
  have p1: "planned r h original legacy editId dig newId st1 (updLs line (setPairs QuantityReturn ?q) ls)"
    by (rule planCause_planned[OF pl dist us q ok s1 un1])
  have "map_of (updLs line (setPairs QuantityReturn ?q) ls) line = Some ?us1" by (simp add: map_of_updLs us)
  from planCause_planned[OF p1 dist this u ok s2 un]
  have "planned r h original legacy editId dig newId st' (updLs line (setPairs UnitCorrection ?u) (updLs line (setPairs QuantityReturn ?q) ls))" .
  moreover have "distinct (map fst ls)" using pl dist unfolding planned_def replays_def by (metis replays_lines(1))
  then have "updLs line (setPairs UnitCorrection ?u) (updLs line (setPairs QuantityReturn ?q) ls) = updLs line (\<lambda>_. setPairs UnitCorrection ?u ?us1) ls"
    by (rule updLs_twice) (rule us)
  ultimately show ?thesis by (intro exI[of _ "setPairs UnitCorrection ?u ?us1"]) simp
qed

lemma planLine_appends: "planLine r editId dig lines lu st = Inr st' \<Longrightarrow> \<exists>rest. fst st' = fst st @ rest"
  by (cases lu; cases st) (auto simp: planLine_def planCause_def Let_def split: if_splits)

lemma planLines_appends: "foldE (planLine r editId dig lines) lus st = Inr st' \<Longrightarrow> \<exists>rest. fst st' = fst st @ rest"
  by (erule foldE_invariant[where P = "\<lambda>s. \<exists>rest. fst s = fst st @ rest"]) (auto dest!: planLine_appends)

lemma planCause_redeemed: "planCause r editId dig line cause cs st = Inr st' \<Longrightarrow> fs_redeemed (snd st') = fs_redeemed (snd st)"
  by (auto simp: planCause_def postChanges_def split_beta split: if_splits)

lemma planLines_redeemed: "foldE (planLine r editId dig lines) lus st = Inr st' \<Longrightarrow> fs_redeemed (snd st') = fs_redeemed (snd st)"
  by (erule foldE_invariant[where P = "\<lambda>s. fs_redeemed (snd s) = fs_redeemed (snd st)"])
     (auto simp: planLine_def Let_def split_beta dest!: planCause_redeemed)

lemma planLines_planned:
  assumes dist: "distinct (map fst original)" and cap: "\<And>l u. u \<in> set (unitsFor lines l) \<Longrightarrow> moneyCents (tu_maximumCredit u)"
    and ok: "uuidText editId" "digestOk dig" and un: "uniqueRows (h @ postedRows newId (fst st'))"
    and pc: "foldE (planLine r editId dig lines) lus st = Inr st'" "planned r h original legacy editId dig newId st ls" "distinct (map fst lus)"
      "\<And>l units. (l, units) \<in> set lus \<Longrightarrow> \<exists>us. map_of ls l = Some us \<and> units = map fst us \<and> length us < 2 ^ 32"
  shows "\<exists>ls'. planned r h original legacy editId dig newId st' ls'"
  using pc
proof (induction lus arbitrary: st ls)
  case (Cons x lus)
  obtain l units where x: "x = (l, units)" by (cases x)
  obtain us where us: "map_of ls l = Some us" "units = map fst us" "length us < 2 ^ 32" using Cons.prems(4)[of l units] x by auto
  obtain st1 where s1: "planLine r editId dig lines (l, map fst us) st = Inr st1" and rest: "foldE (planLine r editId dig lines) lus st1 = Inr st'"
    using Cons.prems(1) x us(2) by auto
  have un1: "uniqueRows (h @ postedRows newId (fst st1))"
    using planLines_appends[OF rest] un uniqueRows_prefix[of "h @ postedRows newId (fst st1)"] by (auto simp: postedRows_def)
  obtain us' where p1: "planned r h original legacy editId dig newId st1 (updLs l (\<lambda>_. us') ls)"
    using planLine_planned[OF Cons.prems(2) dist us(1,3) cap[where l = l] ok s1 un1] by auto
  show ?case
  proof (rule Cons.IH[OF rest p1])
    show "distinct (map fst lus)" using Cons.prems(3) by simp
    fix l' units' assume m: "(l', units') \<in> set lus"
    then have "l' \<noteq> l" using Cons.prems(3) x by force
    then show "\<exists>us. map_of (updLs l (\<lambda>_. us') ls) l' = Some us \<and> units' = map fst us \<and> length us < 2 ^ 32"
      using Cons.prems(4)[of l' units'] m by (simp add: map_of_updLs)
  qed
qed auto

lemma digests_own:
  assumes "foldE (admitModern r original legacy) modern \<lparr>ms_digests = [], ms_edges = []\<rparr> = Inr ms" "filter (isOwnRow editId) modern = []"
  shows "map_of (ms_digests ms) editId = None"
proof -
  have step: "map_of (ms_digests ms') editId = None"
    if "re \<in> set modern" "map_of (ms_digests ms) editId = None" "admitModern r original legacy re ms = Inr ms'" for re ms ms'
  proof -
    obtain row e where re: "re = (row, e)" by (cases re)
    have "\<not> isOwnRow editId re" using assms(2) that(1) by (auto simp: filter_empty_conv)
    then show ?thesis using that(2,3) by (cases e) (auto simp: re admitModern_def operationMatches_def isOwnRow_def update_conv split: if_splits)
  qed
  show ?thesis by (rule foldE_invariant[where P = "\<lambda>ms. map_of (ms_digests ms) editId = None", OF assms(1)]) (auto intro: step)
qed

lemma targetUnits_money: "foldE (checkTargetUnit st line) us seen = Inr seen' \<Longrightarrow> u \<in> set us \<Longrightarrow> moneyCents (tu_maximumCredit u)"
  by (induction us arbitrary: seen) (auto simp: checkTargetUnit_def)

lemma targetLines_money: "foldE (checkTargetLine st) lines ids = Inr ids' \<Longrightarrow> l \<in> set lines \<Longrightarrow> u \<in> set (tl_units l) \<Longrightarrow> moneyCents (tu_maximumCredit u)"
  by (induction lines arbitrary: ids) (auto simp: checkTargetLine_def dest: targetUnits_money)

text \<open>A well-formed allocation object: distinct lines, vectors of at most \<open>2 ^ 32 - 1\<close> entries.\<close>

definition allocationWf :: "Allocation \<Rightarrow> bool" where
  "allocationWf m \<longleftrightarrow> distinct (map fst m) \<and> list_all (\<lambda>(l, us). length us < 2 ^ 32) m"

lemma replays_short:
  assumes rl: "mapE (replayLine legacy edges) original = Inr ls" and wf: "allocationWf original" and m: "(l, us) \<in> set ls"
  shows "length us < 2 ^ 32"
proof -
  note n = replays_lines[OF rl]
  obtain i where i: "i < length ls" "ls ! i = (l, us)" using m by (auto simp: in_set_conv_nth)
  then have "original ! i \<in> set original" using n(2) by simp
  then have "length (snd (original ! i)) < 2 ^ 32" using wf by (auto simp: allocationWf_def list_all_iff split_beta)
  then show ?thesis using n(2) n(3)[of i] i by simp
qed

lemma retained_remaining: "sum_list (concat (map (snd \<circ> (\<lambda>(l, us). (l, map fst us))) ls)) = retainedOf ls"
  unfolding retainedOf_def by (induction ls) auto

text \<open>C14: an order edit's funding plan is what the ledger says once it is posted. If
  \<open>planEditCreditFunding\<close> accepts a new edit, and its postings are inserted under fresh ids without
  violating the unique idempotency keys, then the complete history replays to exactly the announced
  state, across all lines and both causes, and what was redeemed is still accounted for to the cent.\<close>

theorem edit_plan_reads_back:
  assumes plan: "planEditCreditFunding digest r history editId lines None = Inr (FundingPlan dig postings allocation st)"
    and wf: "\<And>original. rd_operationalAllocation r = Some original \<Longrightarrow> allocationWf original" and dok: "digestOk dig"
    and un: "uniqueRows (history @ postedRows newId postings)"
  shows "readCreditFundingState r (history @ postedRows newId postings) = Inr st \<and> fs_restored st + fs_retained st = rd_amount r"
proof -
  from plan obtain st0 modern ids st1 where p0: "readState r history = Inr (st0, modern)" "uuidText editId" "foldE (checkTargetLine st0) lines [] = Inr ids"
    and own: "filter (isOwnRow editId) modern = []"
    and fold: "foldE (planLine r editId dig lines) (sort_key (collationKey \<circ> fst) (fs_remaining st0)) ([], st0) = Inr (postings, st1)"
    and st: "st = st1\<lparr>fs_restored := fs_restored st0 + sum_list (map ps_amount postings), fs_retained := sum_list (concat (map snd (fs_remaining st1))),
        fs_returnedIndexes := map (\<lambda>(l, is). (l, sort is)) (fs_returnedIndexes st1)\<rparr>"
    by (auto simp: planEditCreditFunding_def Let_def)
  obtain original ad legacy ms ls where rep: "replays r history original ad legacy ms ls" and st0: "st0 = stateOf r (sum_list (map fr_amount history)) ls" and md: "modern = ad_modern ad"
    using p0(1) by (auto simp: readState_iff)
  have awf: "allocationWf original" using wf rep checkRedemption_facts(1) by (auto simp: replays_def)
  then have dist: "distinct (map fst original)" by (simp add: allocationWf_def)
  have rl: "mapE (replayLine legacy (ms_edges ms)) original = Inr ls" using rep by (simp add: replays_def)
  note n = replays_lines[OF rl]
  have dls: "distinct (map fst ls)" using dist n(1) by simp
  have init: "planned r history original legacy editId dig newId ([], st0) ls"
    using rep digests_own[of r original legacy modern ms editId] own agrees_stateOf by (auto simp: planned_def postedRows_def st0 md replays_def)
  note short = replays_short[OF rl awf]
  have cap: "moneyCents (tu_maximumCredit u)" if "u \<in> set (unitsFor lines l)" for l u
    using that targetLines_money[OF p0(3)] by (auto simp: unitsFor_def dest: find_Some_in_set[OF sym] split: option.splits)
  have rem: "fs_remaining st0 = map (\<lambda>(l, us). (l, map fst us)) ls" by (simp add: st0 stateOf_def)
  have mem: "\<exists>us. map_of ls l = Some us \<and> units = map fst us \<and> length us < 2 ^ 32" if "(l, units) \<in> set (sort_key (collationKey \<circ> fst) (fs_remaining st0))" for l units
    using that short dls by (auto simp: rem intro: map_of_is_SomeI)
  have "map fst (fs_remaining st0) = map fst ls" by (auto simp: rem)
  then have "mset (map fst (sort_key (collationKey \<circ> fst) (fs_remaining st0))) = mset (map fst ls)" by (metis mset_map mset_sort)
  then have dk: "distinct (map fst (sort_key (collationKey \<circ> fst) (fs_remaining st0)))" using dls by (metis mset_eq_imp_distinct_iff)
  have "\<exists>ls'. planned r history original legacy editId dig newId (postings, st1) ls'"
    by (rule planLines_planned[OF dist _ p0(2) dok _ fold init dk mem]) (auto intro: cap simp: un)
  then obtain ls' ad' ms' where rep': "replays r (history @ postedRows newId postings) original ad' legacy ms' ls'" and ag: "agrees st1 ls'" by (auto simp: planned_def)
  have red: "fs_redeemed st1 = rd_amount r" using planLines_redeemed[OF fold] by (simp add: st0 stateOf_def)
  have amounts: "map fr_amount (postedRows newId postings) = map ps_amount postings" by (simp add: postedRows_def rowOfPosting_def comp_def)
  have "stateOf r (sum_list (map fr_amount (history @ postedRows newId postings))) ls' = st"
    by (rule stateOf_agrees[OF ag])
       (use ag red amounts in \<open>auto simp: st st0 stateOf_def agrees_def retained_remaining\<close>)
  moreover have "readState r (history @ postedRows newId postings) = Inr (stateOf r (sum_list (map fr_amount (history @ postedRows newId postings))) ls', ad_modern ad')"
    unfolding readState_iff using rep' by blast
  ultimately show ?thesis using rep' by (auto simp: readCreditFundingState_def replays_def stateOf_def retainedOf_def)
qed

section \<open>Examples\<close>

definition demoUuid :: "char \<Rightarrow> string" where
  "demoUuid c = replicate 8 c @ ''-'' @ replicate 4 c @ ''-'' @ replicate 4 c @ ''-'' @ replicate 4 c @ ''-'' @ replicate 12 c"

definition demoRedemption :: EditFundingRedemption where
  "demoRedemption = \<lparr>rd_id = demoUuid CHR ''1'', rd_orderId = Some (demoUuid CHR ''2''), rd_accountCreditId = demoUuid CHR ''3'', rd_kind = ''REDEEM'', rd_status = ''POSTED'',
     rd_amount = 500, rd_delta = -500, rd_operationalAllocation = Some [(demoUuid CHR ''4'', [300, 200])]\<rparr>"

definition demoReturn :: "(EditFundingPosting option \<times> CreditFundingState) res" where
  "demoReturn = planCreditUnitReturn demoRedemption [] ByManualReturn ''k'' (demoUuid CHR ''4'') [Some 1]"

lemma demoUuid_ok: "uuidText (demoUuid CHR ''1'')" "uuidText (demoUuid CHR ''2'')" "uuidText (demoUuid CHR ''3'')" "uuidText (demoUuid CHR ''4'')"
  by (simp_all add: uuidText_def demoUuid_def hexDigit_def numeral_eq_Suc)

lemma demo_replay: "replayLine [] [] (l, [300, 200]) = Inr (l, [(300, False), (200, False)])"
  by (simp add: replayLine_def replayUnit_def chainOf_def legacyCount_def orElse_def numeral_eq_Suc)

lemma demo_money: "moneyCents 0" "moneyCents 100" "moneyCents 200" "moneyCents 300" "moneyCents 400" "moneyCents 500"
  by (simp_all add: moneyCents_iff MAX_CREDIT_CENTS_def)

definition demoLines :: "(string \<times> (int \<times> bool) list) list" where
  "demoLines = [(demoUuid CHR ''4'', [(300, False), (200, False)])]"

lemma demo_state: "readState demoRedemption [] = Inr (stateOf demoRedemption 0 demoLines, [])"
  by (simp add: readState_def checkRedemption_def demoRedemption_def demoUuid_ok demo_money demo_replay demoLines_def requireFact_def sumCents_def checkE_def)

lemma demo_amount: "rd_amount demoRedemption = 500"
  by (simp add: demoRedemption_def)

lemma demoReturn_ok: "\<exists>p st. demoReturn = Inr (Some p, st) \<and> ps_amount p = 200 \<and> fs_retained st = 300"
  by (simp add: demoReturn_def planCreditUnitReturn_def demo_state demoUuid_ok pickUnit_def stateOf_def demoLines_def unitAt_def orElse_def
      changeCents_def returnedOf_def demo_money isSafeInteger_def requireFact_def checkE_def sumCents_def postingOf_def Let_def)

theorem unit_return_reads_back_witness:
  "\<exists>p st. demoReturn = Inr (Some p, st) \<and> readCreditFundingState demoRedemption [rowOfPosting ''x'' p] = Inr st \<and> fs_retained st = 300"
proof -
  obtain p st where p: "demoReturn = Inr (Some p, st)" "fs_retained st = 300" using demoReturn_ok by auto
  have "readCreditFundingState demoRedemption ([] @ [rowOfPosting ''x'' p]) = Inr st \<and> fs_restored st + fs_retained st = rd_amount demoRedemption"
    by (rule unit_return_reads_back[OF p(1)[unfolded demoReturn_def]]) (auto simp: demoRedemption_def)
  then show ?thesis using p by auto
qed

definition demoDigest :: "json \<Rightarrow> string" where
  "demoDigest j = replicate 64 CHR ''a''"

definition demoTarget :: "EditFundingTargetLine list" where
  "demoTarget = [\<lparr>tl_orderLineId = demoUuid CHR ''4'', tl_units = [\<lparr>tu_originalIndex = Some 0, tu_maximumCredit = 100, tu_consumed = None, tu_unitId = None\<rparr>]\<rparr>]"

definition demoEdit :: "EditFundingResult res" where
  "demoEdit = planEditCreditFunding demoDigest demoRedemption [] (demoUuid CHR ''1'') demoTarget None"

lemma demoEdit_facts: "\<exists>p q alloc st. demoEdit = Inr (FundingPlan (replicate 64 CHR ''a'') [p, q] alloc st) \<and> ps_idempotencyKey p \<noteq> ps_idempotencyKey q
    \<and> hd (ps_idempotencyKey p) = CHR ''e'' \<and> hd (ps_idempotencyKey q) = CHR ''e'' \<and> ps_amount p = 200 \<and> ps_amount q = 200
    \<and> ps_quantity p = 1 \<and> ps_quantity q = 0 \<and> ps_delta p = 200 \<and> ps_delta q = 200 \<and> ps_idempotencyKey p \<noteq> [] \<and> ps_idempotencyKey q \<noteq> [] \<and> fs_retained st = 100"
  by (simp add: demoEdit_def planEditCreditFunding_def demo_state demoUuid_ok demoTarget_def demoDigest_def checkTargetLine_def checkTargetUnit_def stateOf_def demoLines_def
      planLine_def planCause_def consumedOk_def editChanges_def wantedUnit_def unitsFor_def orElse_def postChanges_def updLine_def setUnits_def returnIndexes_def
      changeCents_def returnedOf_def demo_money isSafeInteger_def requireFact_def checkE_def sumCents_def postingOf_def Let_def allocationFor_def unitAt_def
      List.map_filter_simps causeName_def demo_amount numeral_eq_Suc del: bindE_Inr_iff replicate_Suc)

theorem edit_plan_reads_back_witness:
  "\<exists>p q alloc st. demoEdit = Inr (FundingPlan (replicate 64 CHR ''a'') [p, q] alloc st)
    \<and> readCreditFundingState demoRedemption [rowOfPosting (ps_idempotencyKey p) p, rowOfPosting (ps_idempotencyKey q) q] = Inr st \<and> fs_retained st = 100"
proof -
  obtain p q alloc st where p: "demoEdit = Inr (FundingPlan (replicate 64 CHR ''a'') [p, q] alloc st)" "ps_idempotencyKey p \<noteq> ps_idempotencyKey q"
    "ps_idempotencyKey p \<noteq> []" "ps_idempotencyKey q \<noteq> []" "fs_retained st = 100" using demoEdit_facts by blast
  have "readCreditFundingState demoRedemption ([] @ postedRows ps_idempotencyKey [p, q]) = Inr st \<and> fs_restored st + fs_retained st = rd_amount demoRedemption"
    by (rule edit_plan_reads_back[OF p(1)[unfolded demoEdit_def]])
       (use p in \<open>auto simp: demoRedemption_def allocationWf_def digestOk_def uniqueRows_def postedRows_def rowOfPosting_def\<close>)
  then show ?thesis using p by (auto simp: postedRows_def)
qed

end
