(* ===== verification/CreditService.thy ===== *)
theory CreditService
  imports EditFundingLaws
begin

text \<open>
  The life of an account credit in one store (\<open>account-credit/service.ts\<close>): issue, adjust, disable,
  reserve at payment preparation, redeem at settlement, release on cancellation or removal of the
  code, restore by order edits and returns. The state is the tables the operations read and write;
  an operation runs under the locks the code takes, and an error rolls its transaction back. The
  database refuses an entry that breaks a unique index or a check constraint of
  \<open>db/schema-account-credit.ts\<close>. \<open>gen\<close> stands for the ids the database draws and \<open>uuid\<close> for
  \<open>randomUUID\<close> and \<open>randomBytes\<close>.
\<close>

section \<open>Tables\<close>

datatype CreditKind = ISSUE | ADJUST | DISABLE | ENABLE | RESERVE | RELEASE | REDEEM | RESTORE

datatype CreditStatus = PENDING | POSTED | VOID

record CreditAccount =
  ca_id :: string
  ca_promotionId :: string
  ca_currency :: string
  ca_emailNormalized :: string
  ca_issuanceKey :: string
  ca_initialAmount :: int
  ca_balance :: int
  ca_disabled :: bool
  ca_sourcePromotionRecord :: "jsonText option"

record CreditTransaction =
  ct_id :: string
  ct_accountCreditId :: string
  ct_kind :: CreditKind
  ct_status :: CreditStatus
  ct_amount :: int
  ct_delta :: int
  ct_balanceAfter :: "int option"
  ct_relatedTransactionId :: "string option"
  ct_idempotencyKey :: string
  ct_reason :: "string option"
  ct_actor :: "string option"
  ct_orderId :: "string option"
  ct_refundId :: "string option"
  ct_orderLineId :: "string option"
  ct_quantity :: "int option"
  ct_allocation :: "jsonText option"
  ct_operationalAllocation :: "Allocation option"

record CreditPromotion =
  cp_id :: string
  cp_code :: "string option"
  cp_type :: string
  cp_enabled :: bool
  cp_startsAt :: "int option"
  cp_endsAt :: "int option"
  cp_stackOrder :: int

record CreditOrder =
  co_id :: string
  co_state :: OrderState
  co_currency :: string
  co_promotionId :: "string option"
  co_grandTotal :: int
  co_metadata :: "json option"
  co_lines :: "(string \<times> int) list"
  co_settled :: bool

record CreditDb =
  cd_storeCurrency :: "string option"
  cd_accounts :: "CreditAccount list"
  cd_entries :: "CreditTransaction list"
  cd_promotions :: "CreditPromotion list"
  cd_orders :: "CreditOrder list"

type_synonym 'a credit = "('a \<times> CreditDb) res"

section \<open>Helpers\<close>

definition requiredText :: "string \<Rightarrow> nat \<Rightarrow> string \<Rightarrow> unit res" where
  "requiredText v mx label = checkE (js_trim v = [] \<or> mx < length v) (Coded ''invalid_input'' (label @ '' required within field limits''))"

definition operator :: "string \<Rightarrow> string \<Rightarrow> string \<Rightarrow> unit res" where
  "operator operationKey actor reason =
     bindE (requiredText operationKey 153 ''Operation key'') (\<lambda>_. bindE (requiredText actor 100 ''Operator'') (\<lambda>_. requiredText reason 255 ''Reason''))"

definition sourcePromotionLive :: "jsonText option \<Rightarrow> bool" where
  "sourcePromotionLive record = (case record of
       None \<Rightarrow> True
     | Some (Some (JObj kvs)) \<Rightarrow> jnullish (map_of kvs ''deletedAt'')
     | Some _ \<Rightarrow> False)"

definition promotionLive :: "CreditPromotion \<Rightarrow> CreditAccount \<Rightarrow> int \<Rightarrow> bool" where
  "promotionLive promotion account now \<longleftrightarrow> cp_type promotion = ''account_credit'' \<and> cp_enabled promotion
     \<and> sourcePromotionLive (ca_sourcePromotionRecord account)
     \<and> (case cp_startsAt promotion of None \<Rightarrow> True | Some t \<Rightarrow> t \<le> now) \<and> (case cp_endsAt promotion of None \<Rightarrow> True | Some t \<Rightarrow> now \<le> t)"

definition lockAccount :: "CreditDb \<Rightarrow> string \<Rightarrow> CreditAccount res" where
  "lockAccount db accountId = (case find (\<lambda>a. ca_id a = accountId) (cd_accounts db) of
       Some a \<Rightarrow> Inr a | None \<Rightarrow> Inl (Coded ''missing'' ''Credit account missing in store''))"

definition importedFinancialReconciliationRequired :: "json option \<Rightarrow> bool" where
  "importedFinancialReconciliationRequired metadata = (case jget ''vendure'' metadata of
       Some (JObj kvs) \<Rightarrow> map_of kvs ''financialReconciliationV1'' \<noteq> None | _ \<Rightarrow> False)"

definition lockOrder :: "CreditDb \<Rightarrow> string \<Rightarrow> CreditOrder res" where
  "lockOrder db orderId = (case find (\<lambda>o'. co_id o' = orderId) (cd_orders db) of
       None \<Rightarrow> Inl (Coded ''missing'' ''Credit order missing in store'')
     | Some o' \<Rightarrow>
         if importedFinancialReconciliationRequired (co_metadata o')
         then Inl (Coded ''IMPORTED_FINANCIAL_RECONCILIATION_REQUIRED'' ''Imported financial history requires reconciliation before changing money.'')
         else Inr o')"

definition isHold :: "CreditTransaction \<Rightarrow> bool" where
  "isHold t \<longleftrightarrow> ct_kind t = RESERVE \<and> ct_status t = PENDING"

definition pendingForOrder :: "CreditDb \<Rightarrow> string \<Rightarrow> CreditTransaction option" where
  "pendingForOrder db orderId = find (\<lambda>t. ct_orderId t = Some orderId \<and> isHold t) (cd_entries db)"

definition priorOperation :: "CreditDb \<Rightarrow> string \<Rightarrow> CreditTransaction option" where
  "priorOperation db key = find (\<lambda>t. ct_idempotencyKey t = key) (cd_entries db)"

definition holdsForAccount :: "CreditDb \<Rightarrow> string \<Rightarrow> CreditHold list" where
  "holdsForAccount db accountId = map (\<lambda>t. \<lparr>ch_amount = ct_amount t, ch_orderId = ct_orderId t\<rparr>)
     (filter (\<lambda>t. ct_accountCreditId t = accountId \<and> isHold t) (cd_entries db))"

definition available :: "CreditDb \<Rightarrow> CreditAccount \<Rightarrow> string option \<Rightarrow> int res" where
  "available db account exceptOrderId = availableCredit (ca_balance account) (holdsForAccount db (ca_id account)) exceptOrderId"

definition accountPromotion :: "CreditDb \<Rightarrow> CreditAccount \<Rightarrow> CreditPromotion res" where
  "accountPromotion db account = (case find (\<lambda>p. cp_id p = ca_promotionId account) (cd_promotions db) of
       Some p \<Rightarrow> Inr p | None \<Rightarrow> Inl (Coded ''missing'' ''Credit promotion missing in store''))"

text \<open>The check constraints of the table.\<close>

definition entryAllowed :: "CreditTransaction \<Rightarrow> bool" where
  "entryAllowed t \<longleftrightarrow> 0 \<le> ct_amount t \<and> -2147483647 \<le> ct_delta t \<and> (case ct_balanceAfter t of None \<Rightarrow> True | Some b \<Rightarrow> 0 \<le> b)
     \<and> (case ct_quantity t of None \<Rightarrow> True | Some q \<Rightarrow> 0 \<le> q) \<and> (ct_status t = PENDING \<longrightarrow> ct_kind t = RESERVE \<and> 0 < ct_amount t)"

definition insertEntry :: "(CreditDb \<Rightarrow> string) \<Rightarrow> CreditTransaction \<Rightarrow> CreditDb \<Rightarrow> CreditTransaction credit" where
  "insertEntry gen t db =
     (let t' = t\<lparr>ct_id := gen db\<rparr>
      in if \<not> entryAllowed t' then Inl (Err ''check constraint violated'')
         else if list_ex (\<lambda>e. ct_id e = ct_id t' \<or> ct_idempotencyKey e = ct_idempotencyKey t'
                  \<or> (isHold t' \<and> isHold e \<and> ct_orderId t' \<noteq> None \<and> ct_orderId e = ct_orderId t')) (cd_entries db)
         then Inl (Err ''unique constraint violated'')
         else Inr (t', db\<lparr>cd_entries := cd_entries db @ [t']\<rparr>))"

definition setBalance :: "CreditAccount \<Rightarrow> int \<Rightarrow> CreditDb \<Rightarrow> CreditAccount credit" where
  "setBalance account balance db =
     bindE (assertCents balance ''Balance'' False) (\<lambda>_.
       Inr (account\<lparr>ca_balance := balance\<rparr>,
            db\<lparr>cd_accounts := map (\<lambda>a. if ca_id a = ca_id account then a\<lparr>ca_balance := balance\<rparr> else a) (cd_accounts db)\<rparr>))"

definition conflict :: "string \<Rightarrow> 'a res" where
  "conflict message = Inl (Coded ''conflict'' message)"

definition baseEntry :: "string \<Rightarrow> CreditKind \<Rightarrow> int \<Rightarrow> int \<Rightarrow> int option \<Rightarrow> string \<Rightarrow> CreditTransaction" where
  "baseEntry accountId kind amount delta balanceAfter key =
     \<lparr>ct_id = [], ct_accountCreditId = accountId, ct_kind = kind, ct_status = POSTED, ct_amount = amount, ct_delta = delta, ct_balanceAfter = balanceAfter,
      ct_relatedTransactionId = None, ct_idempotencyKey = key, ct_reason = None, ct_actor = None, ct_orderId = None, ct_refundId = None,
      ct_orderLineId = None, ct_quantity = None, ct_allocation = None, ct_operationalAllocation = None\<rparr>"

definition setStatus :: "string \<Rightarrow> CreditStatus \<Rightarrow> CreditDb \<Rightarrow> CreditDb" where
  "setStatus i st db = db\<lparr>cd_entries := map (\<lambda>t. if ct_id t = i then t\<lparr>ct_status := st\<rparr> else t) (cd_entries db)\<rparr>"

section \<open>Quotes\<close>

definition findByCode :: "CreditDb \<Rightarrow> string \<Rightarrow> int \<Rightarrow> bool \<Rightarrow> (CreditAccount \<times> CreditPromotion) option" where
  "findByCode db code now includeInactive =
     (case filter (\<lambda>p. map_option toLowerCase (cp_code p) = Some (toLowerCase (js_trim code))) (cd_promotions db) of
        [p] \<Rightarrow> (case find (\<lambda>a. ca_promotionId a = cp_id p) (cd_accounts db) of
                  Some a \<Rightarrow> if includeInactive \<or> promotionLive p a now then Some (a, p) else None
                | None \<Rightarrow> None)
      | _ \<Rightarrow> None)"

definition previewAvailable :: "CreditDb \<Rightarrow> string \<Rightarrow> string \<Rightarrow> string option \<Rightarrow> int \<Rightarrow> int res" where
  "previewAvailable db code currency orderId now = (case findByCode db code now False of
       None \<Rightarrow> Inr 0
     | Some (account, _) \<Rightarrow>
         if ca_currency account \<noteq> currency then Inr 0
         else let hold = Option.bind orderId (pendingForOrder db);
                  ownOrder = (if map_option ct_accountCreditId hold = Some (ca_id account) then orderId else None)
              in if ca_disabled account \<and> ownOrder = None then Inr 0 else available db account ownOrder)"

datatype CreditPhase = AddingItems | ArrangingPayment | PaymentSettled

definition currentDiscount :: "CreditDb \<Rightarrow> string \<Rightarrow> string \<Rightarrow> string option \<Rightarrow> CreditPhase \<Rightarrow> int \<Rightarrow> int res" where
  "currentDiscount db promotionId currency orderId phase now = (case find (\<lambda>a. ca_promotionId a = promotionId) (cd_accounts db) of
       None \<Rightarrow> Inr 0
     | Some account \<Rightarrow>
         if ca_currency account \<noteq> currency then Inr 0
         else bindE (accountPromotion db account) (\<lambda>promotion.
           if \<not> promotionLive promotion account now then Inr 0
           else (let hold = Option.bind orderId (pendingForOrder db)
                 in case hold of
                      Some h \<Rightarrow> if ct_accountCreditId h \<noteq> ca_id account then Inr 0
                                else if phase \<noteq> AddingItems then Inr (ct_amount h) else available db account orderId
                    | None \<Rightarrow> if phase \<noteq> AddingItems \<or> ca_disabled account then Inr 0 else available db account orderId)))"

section \<open>Operations\<close>

definition currencyCode :: "string \<Rightarrow> bool" where
  "currencyCode s \<longleftrightarrow> length s = 3 \<and> list_all (\<lambda>c. 65 \<le> (of_char c :: int) \<and> (of_char c :: int) \<le> 90) s"

definition issueNew :: "(CreditDb \<Rightarrow> string) \<Rightarrow> string \<Rightarrow> string \<Rightarrow> int \<Rightarrow> string \<Rightarrow> string \<Rightarrow> CreditDb \<Rightarrow> (CreditAccount \<times> string \<times> bool) credit" where
  "issueNew gen code email amount issuanceKey currency db =
     bindE (requiredText code 200 ''Coupon code'') (\<lambda>_.
     if list_ex (\<lambda>p. map_option toLowerCase (cp_code p) = Some (toLowerCase code)) (cd_promotions db) then conflict ''Coupon code already exists''
     else let stackOrder = fold (\<lambda>p m. max m (cp_stackOrder p)) (cd_promotions db) 0 + 1;
              promotion = \<lparr>cp_id = gen db, cp_code = Some code, cp_type = ''account_credit'', cp_enabled = True, cp_startsAt = None, cp_endsAt = None, cp_stackOrder = stackOrder\<rparr>;
              db1 = db\<lparr>cd_promotions := cd_promotions db @ [promotion]\<rparr>;
              account = \<lparr>ca_id = gen db1, ca_promotionId = cp_id promotion, ca_currency = currency, ca_emailNormalized = email, ca_issuanceKey = issuanceKey,
                ca_initialAmount = amount, ca_balance = amount, ca_disabled = False, ca_sourcePromotionRecord = None\<rparr>
          in bindE (checkE (MAX_CREDIT_CENTS < stackOrder) (Coded ''invariant'' ''Promotion stack rank exhausted'')) (\<lambda>_.
             if list_ex (\<lambda>p. cp_id p = cp_id promotion) (cd_promotions db) \<or> list_ex (\<lambda>a. ca_id a = ca_id account \<or> ca_promotionId a = cp_id promotion) (cd_accounts db)
             then Inl (Err ''unique constraint violated'')
             else bindE (insertEntry gen ((baseEntry (ca_id account) ISSUE amount amount (Some amount) (''issue:'' @ issuanceKey))\<lparr>ct_reason := Some ''Approved issuance''\<rparr>)
                    (db1\<lparr>cd_accounts := cd_accounts db1 @ [account]\<rparr>)) (\<lambda>(_, db2). Inr ((account, code, True), db2))))"

definition issue :: "(CreditDb \<Rightarrow> string) \<Rightarrow> (CreditDb \<Rightarrow> string) \<Rightarrow> string \<Rightarrow> int \<Rightarrow> string \<Rightarrow> string option \<Rightarrow> string option \<Rightarrow> CreditDb \<Rightarrow> (CreditAccount \<times> string \<times> bool) credit" where
  "issue gen uuid email amount issuanceKey currency code db =
     bindE (assertCents amount ''Issue amount'' True) (\<lambda>_.
     bindE (requiredText issuanceKey 154 ''Issuance key'') (\<lambda>_.
     bindE (normalizeCreditEmail email) (\<lambda>emailNormalized.
     case cd_storeCurrency db of
       None \<Rightarrow> Inl (Coded ''missing'' ''Credit store missing'')
     | Some storeCurrency \<Rightarrow>
         (let currency = orElse currency storeCurrency
          in bindE (requiredText currency 3 ''Currency'') (\<lambda>_.
             bindE (checkE (\<not> currencyCode currency) (Coded ''invalid_input'' ''Currency must be an ISO code'')) (\<lambda>_.
             case find (\<lambda>a. ca_issuanceKey a = issuanceKey) (cd_accounts db) of
               Some existing \<Rightarrow>
                 bindE (accountPromotion db existing) (\<lambda>promotion.
                   if ca_emailNormalized existing \<noteq> emailNormalized \<or> ca_initialAmount existing \<noteq> amount \<or> ca_currency existing \<noteq> currency
                      \<or> (code \<noteq> None \<and> cp_code promotion \<noteq> map_option js_trim code)
                   then conflict ''Issuance key conflicts with existing credit''
                   else Inr ((existing, orElse (cp_code promotion) [], False), db))
             | None \<Rightarrow> issueNew gen (case code of Some c \<Rightarrow> js_trim c | None \<Rightarrow> ''ACC-'' @ toUpperCase (uuid db)) emailNormalized amount issuanceKey currency db))))))"

definition adjust :: "(CreditDb \<Rightarrow> string) \<Rightarrow> string \<Rightarrow> int \<Rightarrow> string \<Rightarrow> string \<Rightarrow> string \<Rightarrow> CreditDb \<Rightarrow> CreditAccount credit" where
  "adjust gen accountId delta operationKey actor reason db =
     bindE (operator operationKey actor reason) (\<lambda>_.
     bindE (assertCents \<bar>delta\<bar> ''Adjustment'' True) (\<lambda>_.
     bindE (lockAccount db accountId) (\<lambda>account.
     case priorOperation db (''adjust:'' @ operationKey) of
       Some prior \<Rightarrow>
         if ct_kind prior \<noteq> ADJUST \<or> ct_status prior \<noteq> POSTED \<or> ct_accountCreditId prior \<noteq> ca_id account \<or> ct_delta prior \<noteq> delta
            \<or> ct_actor prior \<noteq> Some actor \<or> ct_reason prior \<noteq> Some reason
         then conflict ''Adjustment key conflicts with existing operation'' else Inr (account, db)
     | None \<Rightarrow>
         if ca_balance account + delta < 0 \<or> MAX_CREDIT_CENTS < ca_balance account + delta
         then Inl (Coded ''unavailable'' ''Adjustment exceeds available credit or storage limit'')
         else bindE (available db account None) (\<lambda>av.
           if av + delta < 0 then Inl (Coded ''unavailable'' ''Adjustment exceeds available credit or storage limit'')
           else bindE (setBalance account (ca_balance account + delta) db) (\<lambda>(updated, db1).
                bindE (insertEntry gen ((baseEntry (ca_id account) ADJUST \<bar>delta\<bar> delta (Some (ca_balance updated)) (''adjust:'' @ operationKey))
                         \<lparr>ct_actor := Some actor, ct_reason := Some reason\<rparr>) db1) (\<lambda>(_, db2). Inr (updated, db2)))))))"

definition disable :: "(CreditDb \<Rightarrow> string) \<Rightarrow> string \<Rightarrow> bool \<Rightarrow> string \<Rightarrow> string \<Rightarrow> string \<Rightarrow> CreditDb \<Rightarrow> CreditAccount credit" where
  "disable gen accountId disabled operationKey actor reason db =
     bindE (operator operationKey actor reason) (\<lambda>_.
     bindE (lockAccount db accountId) (\<lambda>account.
     (let kind = (if disabled then DISABLE else ENABLE)
      in case priorOperation db (''status:'' @ operationKey) of
           Some prior \<Rightarrow>
             if ct_kind prior \<noteq> kind \<or> ct_status prior \<noteq> POSTED \<or> ct_accountCreditId prior \<noteq> ca_id account \<or> ct_actor prior \<noteq> Some actor \<or> ct_reason prior \<noteq> Some reason
             then conflict ''Status key conflicts with existing operation'' else Inr (account, db)
         | None \<Rightarrow>
             (let db1 = db\<lparr>cd_accounts := map (\<lambda>a. if ca_id a = ca_id account then a\<lparr>ca_disabled := disabled\<rparr> else a) (cd_accounts db)\<rparr>
              in bindE (insertEntry gen ((baseEntry (ca_id account) kind 0 0 (Some (ca_balance account)) (''status:'' @ operationKey))
                   \<lparr>ct_actor := Some actor, ct_reason := Some reason\<rparr>) db1) (\<lambda>(_, db2). Inr (account\<lparr>ca_disabled := disabled\<rparr>, db2))))))"

definition reserve :: "(CreditDb \<Rightarrow> string) \<Rightarrow> (CreditDb \<Rightarrow> string) \<Rightarrow> string \<Rightarrow> string \<Rightarrow> int \<Rightarrow> CreditPhase \<Rightarrow> int \<Rightarrow> CreditDb \<Rightarrow> CreditTransaction credit" where
  "reserve gen uuid orderId accountId appliedAmount phase now db =
     bindE (checkE (phase \<noteq> ArrangingPayment) (Coded ''invalid_input'' ''Credit reserves only at payment preparation'')) (\<lambda>_.
     bindE (assertCents appliedAmount ''Applied amount'' True) (\<lambda>_.
     bindE (lockOrder db orderId) (\<lambda>order.
     bindE (checkE (co_state order \<noteq> PendingPayment) (Coded ''unavailable'' ''Credit order is not awaiting payment'')) (\<lambda>_.
     bindE (lockAccount db accountId) (\<lambda>account.
     (let hold = pendingForOrder db orderId
      in bindE (accountPromotion db account) (\<lambda>promotion.
         bindE (checkE (co_currency order \<noteq> ca_currency account \<or> co_promotionId order \<noteq> Some (ca_promotionId account) \<or> \<not> promotionLive promotion account now
                 \<or> (ca_disabled account \<and> hold = None) \<or> (case hold of None \<Rightarrow> False | Some h \<Rightarrow> ct_accountCreditId h \<noteq> ca_id account))
               (Coded ''unavailable'' ''Credit unavailable for this checkout'')) (\<lambda>_.
         bindE (checkE (co_grandTotal order \<le> 0) (Coded ''unavailable'' ''Credit checkout needs a payable shipping or tax balance'')) (\<lambda>_.
         bindE (available db account (Some (co_id order))) (\<lambda>av.
         bindE (checkE (av < appliedAmount) (Coded ''unavailable'' ''Credit amount changed; reapply coupon'')) (\<lambda>_.
         case hold of
           Some h \<Rightarrow>
             if ct_amount h = appliedAmount then Inr (h, db)
             else insertEntry gen ((baseEntry (ca_id account) RESERVE appliedAmount 0 None (''hold:'' @ uuid db))
                    \<lparr>ct_status := PENDING, ct_orderId := Some (co_id order), ct_relatedTransactionId := Some (ct_id h)\<rparr>) (setStatus (ct_id h) VOID db)
         | None \<Rightarrow> insertEntry gen ((baseEntry (ca_id account) RESERVE appliedAmount 0 None (''hold:'' @ uuid db))
                    \<lparr>ct_status := PENDING, ct_orderId := Some (co_id order)\<rparr>) db)))))))))))"

definition redemptionForOrder :: "CreditDb \<Rightarrow> string \<Rightarrow> string option \<Rightarrow> CreditTransaction option res" where
  "redemptionForOrder db orderId accountId =
     (case filter (\<lambda>t. ct_orderId t = Some orderId \<and> ct_kind t = REDEEM \<and> ct_status t = POSTED
             \<and> (case accountId of None \<Rightarrow> True | Some a \<Rightarrow> ct_accountCreditId t = a)) (cd_entries db) of
        [] \<Rightarrow> Inr None | [t] \<Rightarrow> Inr (Some t) | _ \<Rightarrow> conflict ''Multiple redemptions require explicit reconciliation'')"

definition voidHold :: "CreditTransaction \<Rightarrow> CreditDb \<Rightarrow> CreditDb" where
  "voidHold hold db = setStatus (ct_id hold) VOID db"

definition releaseEntry :: "(CreditDb \<Rightarrow> string) \<Rightarrow> CreditTransaction \<Rightarrow> int \<Rightarrow> string \<Rightarrow> CreditDb \<Rightarrow> CreditTransaction credit" where
  "releaseEntry gen hold amount reason db = insertEntry gen ((baseEntry (ct_accountCreditId hold) RELEASE amount 0 None (''release:'' @ ct_id hold))
     \<lparr>ct_orderId := ct_orderId hold, ct_relatedTransactionId := Some (ct_id hold), ct_reason := Some reason\<rparr>) db"

definition allocationJson :: "Allocation \<Rightarrow> json" where
  "allocationJson m = JObj (map (\<lambda>(l, us). (l, JArr (map (\<lambda>c. JNum (of_int c)) us))) m)"

definition redeem :: "(CreditDb \<Rightarrow> string) \<Rightarrow> string \<Rightarrow> int \<Rightarrow> Allocation \<Rightarrow> CreditDb \<Rightarrow> CreditTransaction option credit" where
  "redeem gen orderId appliedAmount allocation db =
     bindE (assertCents appliedAmount ''Applied amount'' False) (\<lambda>_.
     bindE (lockOrder db orderId) (\<lambda>order.
     case pendingForOrder db orderId of
       None \<Rightarrow>
         bindE (redemptionForOrder db orderId None) (\<lambda>prior. case prior of
             Some p \<Rightarrow> if ct_amount p \<noteq> appliedAmount \<or> \<not> equalAllocation (ct_operationalAllocation p) allocation
                       then conflict ''Settlement replay differs from posted redemption'' else Inr (prior, db)
           | None \<Rightarrow> Inr (None, db))
     | Some hold \<Rightarrow>
         bindE (lockAccount db (ct_accountCreditId hold)) (\<lambda>account.
         bindE (checkE (\<not> co_settled order) (Coded ''unavailable'' ''Credit redemption requires settled payment'')) (\<lambda>_.
         bindE (checkE (co_currency order \<noteq> ca_currency account \<or> (0 < appliedAmount \<and> co_promotionId order \<noteq> Some (ca_promotionId account)) \<or> ct_amount hold < appliedAmount)
               (Coded ''invariant'' ''Settled credit does not match hold'')) (\<lambda>_.
         if appliedAmount = 0
         then bindE (releaseEntry gen hold (ct_amount hold) ''No credit applied at settlement'' (voidHold hold db)) (\<lambda>(_, db1). Inr (None, db1))
         else bindE (validateAllocation allocation (co_lines order) appliedAmount) (\<lambda>_.
              bindE (checkE (ca_balance account < appliedAmount) (Coded ''invariant'' ''Credit balance invariant broken'')) (\<lambda>_.
              bindE (setBalance account (ca_balance account - appliedAmount) db) (\<lambda>(updated, db1).
              bindE (insertEntry gen ((baseEntry (ca_id account) REDEEM appliedAmount (- appliedAmount) (Some (ca_balance updated)) (''redeem:'' @ ct_id hold))
                  \<lparr>ct_orderId := Some (co_id order), ct_relatedTransactionId := Some (ct_id hold), ct_reason := Some ''Payment settled'',
                   ct_allocation := Some (Some (allocationJson allocation)), ct_operationalAllocation := Some allocation\<rparr>)
                  (setStatus (ct_id hold) POSTED db1)) (\<lambda>(entry, db2).
                if appliedAmount < ct_amount hold
                then bindE (releaseEntry gen hold (ct_amount hold - appliedAmount) ''Unused reserved credit'' db2) (\<lambda>(_, db3). Inr (Some entry, db3))
                else Inr (Some entry, db2))))))))))"

datatype ReleaseCause = CancelledOrder | CouponRemoved string

definition release :: "(CreditDb \<Rightarrow> string) \<Rightarrow> string \<Rightarrow> ReleaseCause \<Rightarrow> CreditDb \<Rightarrow> bool credit" where
  "release gen orderId cause db =
     bindE (lockOrder db orderId) (\<lambda>order.
     bindE (checkE (cause = CancelledOrder \<and> co_state order \<noteq> Cancelled) (Coded ''unavailable'' ''Credit cancellation requires cancelled order'')) (\<lambda>_.
     case pendingForOrder db orderId of
       None \<Rightarrow> Inr (False, db)
     | Some hold \<Rightarrow>
         bindE (lockAccount db (ct_accountCreditId hold)) (\<lambda>account.
         (case cause of
            CancelledOrder \<Rightarrow> bindE (releaseEntry gen hold (ct_amount hold) ''Order cancelled'' (voidHold hold db)) (\<lambda>(_, db1). Inr (True, db1))
          | CouponRemoved couponCode \<Rightarrow>
              bindE (accountPromotion db account) (\<lambda>promotion.
                if map_option toLowerCase (cp_code promotion) \<noteq> Some (toLowerCase (js_trim couponCode)) then Inr (False, db)
                else bindE (releaseEntry gen hold (ct_amount hold) ''Coupon removed'' (voidHold hold db)) (\<lambda>(_, db1). Inr (True, db1)))))))"

section \<open>Restorations\<close>

definition kindText :: "CreditKind \<Rightarrow> string" where
  "kindText k = (case k of ISSUE \<Rightarrow> ''ISSUE'' | ADJUST \<Rightarrow> ''ADJUST'' | DISABLE \<Rightarrow> ''DISABLE'' | ENABLE \<Rightarrow> ''ENABLE'' | RESERVE \<Rightarrow> ''RESERVE''
     | RELEASE \<Rightarrow> ''RELEASE'' | REDEEM \<Rightarrow> ''REDEEM'' | RESTORE \<Rightarrow> ''RESTORE'')"

definition statusText :: "CreditStatus \<Rightarrow> string" where
  "statusText st = (case st of PENDING \<Rightarrow> ''PENDING'' | POSTED \<Rightarrow> ''POSTED'' | VOID \<Rightarrow> ''VOID'')"

definition redemptionOf :: "CreditTransaction \<Rightarrow> EditFundingRedemption" where
  "redemptionOf t = \<lparr>rd_id = ct_id t, rd_orderId = ct_orderId t, rd_accountCreditId = ct_accountCreditId t, rd_kind = kindText (ct_kind t), rd_status = statusText (ct_status t),
     rd_amount = ct_amount t, rd_delta = ct_delta t, rd_operationalAllocation = ct_operationalAllocation t\<rparr>"

definition historyRowOf :: "CreditTransaction \<Rightarrow> EditFundingHistoryRow" where
  "historyRowOf t = \<lparr>fr_id = ct_id t, fr_idempotencyKey = ct_idempotencyKey t, fr_orderId = ct_orderId t, fr_accountCreditId = ct_accountCreditId t,
     fr_relatedTransactionId = ct_relatedTransactionId t, fr_orderLineId = ct_orderLineId t, fr_refundId = ct_refundId t, fr_kind = kindText (ct_kind t),
     fr_status = statusText (ct_status t), fr_quantity = ct_quantity t, fr_amount = ct_amount t, fr_delta = ct_delta t, fr_allocation = ct_allocation t,
     fr_operationalAllocation = ct_operationalAllocation t\<rparr>"

definition restorations :: "CreditDb \<Rightarrow> string \<Rightarrow> CreditTransaction list" where
  "restorations db orderId = filter (\<lambda>t. ct_orderId t = Some orderId \<and> ct_kind t = RESTORE) (cd_entries db)"

definition readCreditFundingEvidence :: "CreditDb \<Rightarrow> string \<Rightarrow> (CreditTransaction \<times> CreditTransaction list) option res" where
  "readCreditFundingEvidence db orderId =
     bindE (redemptionForOrder db orderId None) (\<lambda>redemption. Inr (map_option (\<lambda>r. (r, restorations db orderId)) redemption))"

definition prepareEditCreditFunding ::
  "(json \<Rightarrow> string) \<Rightarrow> string \<Rightarrow> string \<Rightarrow> EditFundingTargetLine list \<Rightarrow> CommittedEdit option \<Rightarrow> CreditDb \<Rightarrow> (CreditTransaction \<times> EditFundingResult) option res" where
  "prepareEditCreditFunding digest orderId editId lines committedEdit db =
     bindE (lockOrder db orderId) (\<lambda>order.
     bindE (redemptionForOrder db orderId None) (\<lambda>redemption. case redemption of
       None \<Rightarrow> Inr None
     | Some r \<Rightarrow>
         bindE (checkE (ct_operationalAllocation r = None) (Coded ''allocation'' ''Imported credit allocation requires reconciliation before restoration or edit funding.'')) (\<lambda>_.
         bindE (lockAccount db (ct_accountCreditId r)) (\<lambda>account.
         bindE (checkE (ca_currency account \<noteq> co_currency order) (Coded ''conflict'' ''Credit funding currency differs from order'')) (\<lambda>_.
         (case planEditCreditFunding digest (redemptionOf r) (map historyRowOf (restorations db orderId)) editId lines committedEdit of
            Inl (Coded _ message) \<Rightarrow> Inl (Coded ''allocation'' message)
          | Inl e \<Rightarrow> Inl e
          | Inr plan \<Rightarrow> Inr (Some (r, plan))))))))"

definition fundingEntry :: "EditFundingPosting \<Rightarrow> int \<Rightarrow> string option \<Rightarrow> string option \<Rightarrow> string \<Rightarrow> CreditTransaction" where
  "fundingEntry p balanceAfter refundId actor reason =
     (baseEntry (ps_accountCreditId p) RESTORE (ps_amount p) (ps_delta p) (Some balanceAfter) (ps_idempotencyKey p))
       \<lparr>ct_relatedTransactionId := Some (ps_relatedTransactionId p), ct_orderId := ps_orderId p, ct_orderLineId := Some (ps_orderLineId p),
        ct_quantity := Some (ps_quantity p), ct_allocation := Some (Some (ps_allocation p)), ct_operationalAllocation := Some (ps_operationalAllocation p),
        ct_refundId := refundId, ct_actor := actor, ct_reason := Some reason\<rparr>"

definition postFundingRow :: "(CreditDb \<Rightarrow> string) \<Rightarrow> string option \<Rightarrow> string option \<Rightarrow> string \<Rightarrow> EditFundingPosting
    \<Rightarrow> CreditAccount \<times> CreditTransaction list \<times> CreditDb \<Rightarrow> (CreditAccount \<times> CreditTransaction list \<times> CreditDb) res" where
  "postFundingRow gen refundId actor reason p st = (case st of (account, entries, db) \<Rightarrow>
     bindE (setBalance account (ca_balance account + ps_amount p) db) (\<lambda>(updated, db1).
     bindE (insertEntry gen (fundingEntry p (ca_balance updated) refundId actor reason) db1) (\<lambda>(entry, db2).
       Inr (updated, entries @ [entry], db2))))"

definition postFundingRows :: "(CreditDb \<Rightarrow> string) \<Rightarrow> CreditAccount \<Rightarrow> EditFundingPosting list \<Rightarrow> string option \<Rightarrow> string option \<Rightarrow> string \<Rightarrow> CreditDb \<Rightarrow> CreditTransaction list credit" where
  "postFundingRows gen account postings refundId actor reason db =
     bindE (foldE (postFundingRow gen refundId actor reason) postings (account, [], db)) (\<lambda>(_, entries, db'). Inr (entries, db'))"

definition postEditCreditFunding ::
  "(CreditDb \<Rightarrow> string) \<Rightarrow> (json \<Rightarrow> string) \<Rightarrow> string \<Rightarrow> string \<Rightarrow> EditFundingTargetLine list \<Rightarrow> CommittedEdit option \<Rightarrow> CreditDb \<Rightarrow> (CreditTransaction \<times> EditFundingResult) option credit" where
  "postEditCreditFunding gen digest orderId editId lines committedEdit db =
     bindE (prepareEditCreditFunding digest orderId editId lines committedEdit db) (\<lambda>prepared. case prepared of
       Some (r, FundingPlan dig postings allocation state) \<Rightarrow>
         bindE (lockAccount db (ct_accountCreditId r)) (\<lambda>account.
         bindE (postFundingRows gen account postings None None ''Committed order edit'' db) (\<lambda>(_, db'). Inr (prepared, db')))
     | _ \<Rightarrow> Inr (prepared, db))"

record RestorationInput =
  ri_orderId :: string
  ri_orderLineId :: string
  ri_quantity :: int
  ri_key :: string
  ri_reason :: string
  ri_actor :: "string option"
  ri_refundId :: "string option"
  ri_expectedCents :: "int option"
  ri_originalIndexes :: "int option list option"

definition envelopeIndexes :: "json \<Rightarrow> json list option" where
  "envelopeIndexes j = (case jget ''units'' (Some j) of Some (JArr us) \<Rightarrow> Some (map (\<lambda>u. orElse (jget ''index'' (Some u)) JNull) us) | _ \<Rightarrow> None)"

definition sameUnits :: "CreditTransaction \<Rightarrow> RestorationInput \<Rightarrow> bool" where
  "sameUnits prior input = (case (ri_originalIndexes input, ct_allocation prior) of
       (Some idx, Some (Some j)) \<Rightarrow>
         jget ''type'' (Some j) \<noteq> Some (JStr ''account_credit.unit_restore'')
         \<or> envelopeIndexes j = Some (map (\<lambda>i. JNum (of_int i)) (List.map_filter id idx))
     | _ \<Rightarrow> True)"

definition sameRestoration :: "CreditTransaction \<Rightarrow> CreditAccount \<Rightarrow> CreditTransaction \<Rightarrow> RestorationInput \<Rightarrow> bool" where
  "sameRestoration prior account redemption input \<longleftrightarrow>
     (let originalQuantity = (case ri_originalIndexes input of Some idx \<Rightarrow> int (length (List.map_filter id idx)) | None \<Rightarrow> ri_quantity input)
      in ct_kind prior = RESTORE \<and> ct_status prior = POSTED \<and> ct_accountCreditId prior = ca_id account \<and> ct_relatedTransactionId prior = Some (ct_id redemption)
         \<and> ct_orderId prior = Some (ri_orderId input) \<and> ct_orderLineId prior = Some (ri_orderLineId input) \<and> ct_quantity prior = Some originalQuantity
         \<and> ct_actor prior = ri_actor input \<and> ct_reason prior = Some (ri_reason input) \<and> ct_refundId prior = ri_refundId input
         \<and> (case ri_expectedCents input of None \<Rightarrow> True | Some c \<Rightarrow> ct_amount prior = c))"

definition openIndexes :: "CreditFundingState \<Rightarrow> RestorationInput \<Rightarrow> int option list option" where
  "openIndexes state input = (case ri_originalIndexes input of
       Some idx \<Rightarrow> Some idx
     | None \<Rightarrow> map_option (\<lambda>us. take (nat (ri_quantity input)) (map Some (filter (\<lambda>i. i \<notin> set (orElse (map_of (fs_returnedIndexes state) (ri_orderLineId input)) []))
                 (map int [0..<length us])))) (map_of (fs_remaining state) (ri_orderLineId input)))"

definition postRestoration :: "(CreditDb \<Rightarrow> string) \<Rightarrow> CreditAccount \<Rightarrow> CreditTransaction \<Rightarrow> RestorationInput \<Rightarrow> CreditDb \<Rightarrow> CreditTransaction option credit" where
  "postRestoration gen account redemption input db =
     (let history = restorations db (ri_orderId input); r = redemptionOf redemption
      in case readCreditFundingState r (map historyRowOf history) of
           Inl (Coded _ m) \<Rightarrow> Inl (Coded ''allocation'' (''Proven credit allocation missing or restoration conflicts: '' @ m))
         | Inl e \<Rightarrow> Inl e
         | Inr state \<Rightarrow>
             (let priorByKey = priorOperation db (ri_key input);
                  byRefund = (if ri_refundId input = None then [] else filter (\<lambda>t. ct_refundId t = ri_refundId input \<and> ct_orderLineId t = Some (ri_orderLineId input)) history)
              in if 1 < length byRefund \<or> (case (priorByKey, byRefund) of (Some p, q # _) \<Rightarrow> ct_id p \<noteq> ct_id q | _ \<Rightarrow> False)
                 then conflict ''Restoration identity conflicts with existing operations''
                 else case (case priorByKey of Some p \<Rightarrow> Some p | None \<Rightarrow> (case byRefund of q # _ \<Rightarrow> Some q | [] \<Rightarrow> None)) of
                   Some prior \<Rightarrow>
                     if \<not> sameRestoration prior account redemption input then conflict ''Restoration key conflicts with existing operation''
                     else if \<not> sameUnits prior input then conflict ''Restoration key conflicts with selected units''
                     else Inr (Some prior, db)
                 | None \<Rightarrow>
                     if \<not> list_ex (\<lambda>o'. co_id o' = ri_orderId input \<and> ri_orderLineId input \<in> set (map fst (co_lines o'))) (cd_orders db) \<or> ct_orderId redemption \<noteq> Some (ri_orderId input)
                     then Inl (Coded ''allocation'' ''Proven linked order line required for restoration'')
                     else (case openIndexes state input of
                         Some indexes \<Rightarrow>
                           if int (length indexes) \<noteq> ri_quantity input then Inl (Coded ''allocation'' ''Proven credit allocation missing for returned units'')
                           else (case planCreditUnitReturn r (map historyRowOf history) (case ri_refundId input of Some _ \<Rightarrow> ByRefund | None \<Rightarrow> ByManualReturn)
                                    (case ri_refundId input of Some i \<Rightarrow> i | None \<Rightarrow> drop (length ''manual:'') (ri_key input)) (ri_orderLineId input) indexes of
                               Inl (Coded _ message) \<Rightarrow> Inl (Coded ''allocation'' message)
                             | Inl e \<Rightarrow> Inl e
                             | Inr (None, _) \<Rightarrow>
                                 if ri_expectedCents input \<noteq> None \<and> ri_expectedCents input \<noteq> Some 0 then conflict ''Unfunded merchandise cannot restore credit'' else Inr (None, db)
                             | Inr (Some p, _) \<Rightarrow>
                                 if ri_expectedCents input \<noteq> None \<and> ri_expectedCents input \<noteq> Some (ps_amount p) then conflict ''Restoration amount conflicts with expected cents''
                                 else bindE (postFundingRows gen account [p] (ri_refundId input) (ri_actor input) (ri_reason input) db) (\<lambda>(entries, db').
                                        Inr (Some (hd entries), db')))
                       | None \<Rightarrow> Inl (Coded ''allocation'' ''Proven credit allocation missing for returned units''))))"

section \<open>After settlement\<close>

datatype 'a CreditSettlementResult = SettledCredit 'a | ReconciliationRequired string

text \<open>A savepoint: a failed posting leaves the settled payment and the tables as they were.\<close>

definition afterSettlement :: "(CreditDb \<Rightarrow> 'a credit) \<Rightarrow> CreditDb \<Rightarrow> 'a CreditSettlementResult \<times> CreditDb" where
  "afterSettlement fn db = (case fn db of
       Inr (v, db') \<Rightarrow> (SettledCredit v, db')
     | Inl (Coded code _) \<Rightarrow>
         (ReconciliationRequired (if code = ''IMPORTED_FINANCIAL_RECONCILIATION_REQUIRED'' then ''posting_failed'' else code), db)
     | Inl (Err _) \<Rightarrow> (ReconciliationRequired ''posting_failed'', db))"

definition redeemAfterSettlement :: "(CreditDb \<Rightarrow> string) \<Rightarrow> string \<Rightarrow> int \<Rightarrow> Allocation \<Rightarrow> CreditDb \<Rightarrow> CreditTransaction option CreditSettlementResult \<times> CreditDb" where
  "redeemAfterSettlement gen orderId appliedAmount allocation db = afterSettlement (redeem gen orderId appliedAmount allocation) db"

end
