(* ===== verification/CreditLaws.thy ===== *)
theory CreditLaws
  imports CreditService
begin

text \<open>
  What the account-credit operations keep over every run: balances are the sum of the posted
  ledger, holds never exceed the balance, ids and keys are unique, an order has one hold. And what
  an order edit posts is what later readers of the ledger see.
\<close>

section \<open>The invariant\<close>

definition heldBy :: "CreditTransaction list \<Rightarrow> string \<Rightarrow> int" where
  "heldBy es a = sum_list (map (\<lambda>t. if ct_accountCreditId t = a \<and> isHold t then ct_amount t else 0) es)"

definition postedTo :: "CreditTransaction list \<Rightarrow> string \<Rightarrow> int" where
  "postedTo es a = sum_list (map (\<lambda>t. if ct_accountCreditId t = a then ct_delta t else 0) es)"

definition heldOrders :: "CreditTransaction list \<Rightarrow> string list" where
  "heldOrders es = List.map_filter (\<lambda>t. if isHold t then ct_orderId t else None) es"

definition entriesOk :: "CreditTransaction list \<Rightarrow> bool" where
  "entriesOk es \<longleftrightarrow> distinct (map ct_id es) \<and> distinct (map ct_idempotencyKey es) \<and> list_all entryAllowed es \<and> distinct (heldOrders es)"

definition balancesOk :: "(string \<times> int) list \<Rightarrow> CreditTransaction list \<Rightarrow> bool" where
  "balancesOk bs es \<longleftrightarrow> distinct (map fst bs) \<and> entriesOk es \<and> (\<forall>t\<in>set es. ct_accountCreditId t \<in> fst ` set bs)
     \<and> (\<forall>(i, b)\<in>set bs. 0 \<le> b \<and> b \<le> MAX_CREDIT_CENTS \<and> heldBy es i \<le> b \<and> b = postedTo es i)"

definition balancesOf :: "CreditAccount list \<Rightarrow> (string \<times> int) list" where
  "balancesOf as = map (\<lambda>a. (ca_id a, ca_balance a)) as"

definition creditInv :: "CreditDb \<Rightarrow> bool" where
  "creditInv db \<longleftrightarrow> balancesOk (balancesOf (cd_accounts db)) (cd_entries db)"

lemma held_posted_append [simp]:
  "heldBy (es @ [t]) a = heldBy es a + (if ct_accountCreditId t = a \<and> isHold t then ct_amount t else 0)"
  "postedTo (es @ [t]) a = postedTo es a + (if ct_accountCreditId t = a then ct_delta t else 0)"
  by (simp_all add: heldBy_def postedTo_def)

definition withStatus :: "string \<Rightarrow> CreditStatus \<Rightarrow> CreditTransaction list \<Rightarrow> CreditTransaction list" where
  "withStatus i st es = map (\<lambda>t. if ct_id t = i then t\<lparr>ct_status := st\<rparr> else t) es"

lemma withStatus_posted [simp]: "postedTo (withStatus i st es) a = postedTo es a"
  by (auto simp: postedTo_def withStatus_def intro!: arg_cong[where f = sum_list])

lemma withStatus_ids [simp]: "map ct_id (withStatus i st es) = map ct_id es" "map ct_idempotencyKey (withStatus i st es) = map ct_idempotencyKey es"
  by (auto simp: withStatus_def)

lemma withStatus_other: "i \<notin> ct_id ` set es \<Longrightarrow> withStatus i st es = es"
  by (auto simp: withStatus_def intro!: map_idI)

lemma withStatus_held:
  "\<lbrakk>distinct (map ct_id es); h \<in> set es; isHold h; st \<noteq> PENDING\<rbrakk> \<Longrightarrow>
     heldBy (withStatus (ct_id h) st es) a = heldBy es a - (if ct_accountCreditId h = a then ct_amount h else 0)"
proof (induction es)
  case (Cons t es)
  show ?case
  proof (cases "ct_id t = ct_id h")
    case True
    then have "t = h" "withStatus (ct_id h) st es = es" using Cons.prems by (auto simp: withStatus_other dest: image_eqI)
    then show ?thesis using Cons.prems(3,4) by (simp add: withStatus_def heldBy_def isHold_def)
  next
    case False
    then show ?thesis using Cons by (auto simp: withStatus_def heldBy_def)
  qed
qed simp

lemma withStatus_orders: "st \<noteq> PENDING \<Longrightarrow> distinct (heldOrders es) \<Longrightarrow> distinct (heldOrders (withStatus i st es)) \<and> set (heldOrders (withStatus i st es)) \<subseteq> set (heldOrders es)"
  by (induction es) (auto simp: heldOrders_def withStatus_def List.map_filter_simps isHold_def split: option.splits)

lemma withStatus_ok: "st \<noteq> PENDING \<Longrightarrow> entriesOk es \<Longrightarrow> entriesOk (withStatus i st es)"
proof -
  assume st: "st \<noteq> PENDING" "entriesOk es"
  have "list_all entryAllowed (withStatus i st es)" using st by (auto simp: entriesOk_def list_all_iff withStatus_def entryAllowed_def)
  then show ?thesis using st withStatus_orders[of st es i] by (simp add: entriesOk_def)
qed

lemma insertEntry_facts:
  assumes "insertEntry gen t db = Inr (t', db')"
  shows "t' = t\<lparr>ct_id := gen db\<rparr>" "db' = db\<lparr>cd_entries := cd_entries db @ [t']\<rparr>" "entriesOk (cd_entries db) \<Longrightarrow> entriesOk (cd_entries db @ [t'])"
    "entryAllowed t'" "gen db \<notin> ct_id ` set (cd_entries db)" "ct_idempotencyKey t \<notin> ct_idempotencyKey ` set (cd_entries db)"
proof -
  have *: "\<not> list_ex (\<lambda>e. ct_id e = gen db \<or> ct_idempotencyKey e = ct_idempotencyKey t \<or> (isHold t' \<and> isHold e \<and> ct_orderId t' \<noteq> None \<and> ct_orderId e = ct_orderId t')) (cd_entries db)"
    and t': "t' = t\<lparr>ct_id := gen db\<rparr>" "db' = db\<lparr>cd_entries := cd_entries db @ [t']\<rparr>" "entryAllowed t'"
    using assms by (auto simp: insertEntry_def Let_def split: if_splits)
  show "t' = t\<lparr>ct_id := gen db\<rparr>" "db' = db\<lparr>cd_entries := cd_entries db @ [t']\<rparr>" "entryAllowed t'" by (rule t')+
  show "gen db \<notin> ct_id ` set (cd_entries db)" "ct_idempotencyKey t \<notin> ct_idempotencyKey ` set (cd_entries db)" using * by (auto simp: list_ex_iff)
  have "o' \<notin> set (heldOrders (cd_entries db))" if "isHold t'" "ct_orderId t' = Some o'" for o'
    using * that by (auto simp: heldOrders_def List.map_filter_def list_ex_iff split: if_splits)
  then have "distinct (heldOrders (cd_entries db)) \<Longrightarrow> distinct (heldOrders (cd_entries db @ [t']))"
    by (auto simp: heldOrders_def List.map_filter_def split: if_splits option.splits)
  then show "entriesOk (cd_entries db) \<Longrightarrow> entriesOk (cd_entries db @ [t'])"
    using * t' by (auto simp: entriesOk_def list_ex_iff)
qed

text \<open>Posting: entries \<open>es1\<close> in which no hold grew, one new entry and one new balance that differ from
  the old ones by the same amount, and enough balance left for the holds.\<close>

lemma post_inv:
  assumes inv: "balancesOk bs es" and b: "(i, b) \<in> set bs"
    and es1: "\<And>a. heldBy es1 a \<le> heldBy es a" "\<And>a. postedTo es1 a = postedTo es a" "ct_accountCreditId ` set es1 \<subseteq> ct_accountCreditId ` set es"
    and t: "entriesOk (es1 @ [t])" "ct_accountCreditId t = i" "ct_delta t = b' - b" "heldBy (es1 @ [t]) i \<le> b'" "0 \<le> b'" "b' \<le> MAX_CREDIT_CENTS"
  shows "balancesOk (map (\<lambda>(j, c). (j, if j = i then b' else c)) bs) (es1 @ [t])"
proof -
  let ?bs = "map (\<lambda>(j, c). (j, if j = i then b' else c)) bs"
  have d: "distinct (map fst bs)" and accts: "\<forall>t\<in>set es. ct_accountCreditId t \<in> fst ` set bs" using inv by (auto simp: balancesOk_def)
  have fsts: "map fst ?bs = map fst bs" by auto
  have uniq: "c = b" if "(i, c) \<in> set bs" for c using eq_key_imp_eq_value[OF d that b] .
  have "0 \<le> c' \<and> c' \<le> MAX_CREDIT_CENTS \<and> heldBy (es1 @ [t]) j \<le> c' \<and> c' = postedTo (es1 @ [t]) j"
    if m: "(j, c) \<in> set bs" "c' = (if j = i then b' else c)" for j c c'
  proof -
    have old: "0 \<le> c" "c \<le> MAX_CREDIT_CENTS" "heldBy es j \<le> c" "c = postedTo es j" using inv m(1) by (auto simp: balancesOk_def)
    show ?thesis
    proof (cases "j = i")
      case True
      then show ?thesis using uniq m old t es1(2)[of i] by (simp del: held_posted_append(1))
    next
      case False
      then show ?thesis using m old t(2) es1(1)[of j] es1(2)[of j] by simp
    qed
  qed
  then have vals: "\<forall>(j, c')\<in>set ?bs. 0 \<le> c' \<and> c' \<le> MAX_CREDIT_CENTS \<and> heldBy (es1 @ [t]) j \<le> c' \<and> c' = postedTo (es1 @ [t]) j"
    by (auto simp del: held_posted_append)
  have "fst ` set ?bs = fst ` set bs" by (metis fsts list.set_map)
  moreover have "\<forall>u\<in>set (es1 @ [t]). ct_accountCreditId u \<in> fst ` set bs" 
  proof
    fix u assume "u \<in> set (es1 @ [t])"
    then consider "u \<in> set es1" | "u = t" by auto
    then show "ct_accountCreditId u \<in> fst ` set bs"
    proof cases
      case 1
      then obtain v where "v \<in> set es" "ct_accountCreditId u = ct_accountCreditId v" using es1(3) by blast
      then show ?thesis using accts by simp
    next
      case 2
      then show ?thesis using b t(2) by (metis fst_conv image_eqI)
    qed
  qed
  ultimately show ?thesis unfolding balancesOk_def fsts by (intro conjI d t(1) vals) simp
qed

section \<open>Every operation keeps it\<close>

lemma lockAccount_facts: "lockAccount db i = Inr a \<Longrightarrow> a \<in> set (cd_accounts db) \<and> ca_id a = i \<and> (i, ca_balance a) \<in> set (balancesOf (cd_accounts db))"
  by (auto simp: lockAccount_def balancesOf_def dest!: find_Some_in_set split: option.splits)

lemma setBalance_facts:
  "setBalance account b db = Inr (u, db1) \<Longrightarrow> 0 \<le> b \<and> b \<le> MAX_CREDIT_CENTS \<and> u = account\<lparr>ca_balance := b\<rparr> \<and> cd_entries db1 = cd_entries db
     \<and> balancesOf (cd_accounts db1) = map (\<lambda>(j, c). (j, if j = ca_id account then b else c)) (balancesOf (cd_accounts db))"
  by (auto simp: setBalance_def balancesOf_def)

lemma pendingForOrder_facts: "pendingForOrder db oid = Some h \<Longrightarrow> h \<in> set (cd_entries db) \<and> isHold h \<and> ct_orderId h = Some oid"
  by (auto simp: pendingForOrder_def dest!: find_Some_in_set)

lemma setStatus_sel [simp]: "cd_entries (setStatus i st db) = withStatus i st (cd_entries db)" "cd_accounts (setStatus i st db) = cd_accounts db"
  by (simp_all add: setStatus_def withStatus_def)

lemma held_all: "heldCents None (holdsForAccount db a) = heldBy (cd_entries db) a"
proof -
  have "heldCents None (map (\<lambda>t. \<lparr>ch_amount = ct_amount t, ch_orderId = ct_orderId t\<rparr>) (filter (\<lambda>t. ct_accountCreditId t = a \<and> isHold t) es)) = heldBy es a" for es
    by (induction es) (auto simp: heldCents_def heldBy_def)
  then show ?thesis by (simp add: holdsForAccount_def)
qed

lemma held_except:
  "heldCents (Some oid) (holdsForAccount db a) = heldBy (filter (\<lambda>t. ct_orderId t \<noteq> Some oid) (cd_entries db)) a"
proof -
  have "heldCents (Some oid) (map (\<lambda>t. \<lparr>ch_amount = ct_amount t, ch_orderId = ct_orderId t\<rparr>) (filter (\<lambda>t. ct_accountCreditId t = a \<and> isHold t) es))
      = heldBy (filter (\<lambda>t. ct_orderId t \<noteq> Some oid) es) a" for es
    by (induction es) (auto simp: heldCents_def heldBy_def)
  then show ?thesis by (simp add: holdsForAccount_def)
qed

lemma heldOrders_mem: "t \<in> set es \<Longrightarrow> isHold t \<Longrightarrow> ct_orderId t = Some oid \<Longrightarrow> oid \<in> set (heldOrders es)"
  by (induction es) (auto simp: heldOrders_def List.map_filter_simps split: option.splits)

lemma held_no_order: "oid \<notin> set (heldOrders es) \<Longrightarrow> heldBy (filter (\<lambda>t. ct_orderId t \<noteq> Some oid) es) a = heldBy es a"
  by (induction es) (auto simp: heldBy_def heldOrders_def List.map_filter_simps split: option.splits if_splits)

lemma held_own_order:
  "\<lbrakk>distinct (heldOrders es); h \<in> set es; isHold h; ct_orderId h = Some oid\<rbrakk> \<Longrightarrow>
     heldBy (filter (\<lambda>t. ct_orderId t \<noteq> Some oid) es) a = heldBy es a - (if ct_accountCreditId h = a then ct_amount h else 0)"
proof (induction es)
  case (Cons t es)
  have d: "distinct (heldOrders es)" and n: "isHold t \<Longrightarrow> ct_orderId t = Some x \<Longrightarrow> x \<notin> set (heldOrders es)" for x
    using Cons.prems(1) by (auto simp: heldOrders_def List.map_filter_simps split: option.splits if_splits)
  show ?case
  proof (cases "t = h")
    case True
    then show ?thesis using held_no_order[OF n] Cons.prems by (simp add: heldBy_def)
  next
    case False
    then have "h \<in> set es" using Cons.prems by simp
    moreover have "\<not> (isHold t \<and> ct_orderId t = Some oid)" using n heldOrders_mem[OF calculation Cons.prems(3,4)] by blast
    ultimately show ?thesis using Cons.IH[OF d] Cons.prems by (auto simp: heldBy_def)
  qed
qed simp

lemma available_facts:
  assumes "available db account x = Inr av"
  shows "av = ca_balance account - heldCents x (holdsForAccount db (ca_id account)) \<and> 0 \<le> av"
  using assms by (auto simp: available_def availableCredit_iff)

lemma withStatus_accts: "ct_accountCreditId ` set (withStatus i st es) = ct_accountCreditId ` set es"
proof -
  have "map ct_accountCreditId (withStatus i st es) = map ct_accountCreditId es" by (simp add: withStatus_def)
  then show ?thesis by (metis list.set_map)
qed

lemma hold_nonneg: "entriesOk es \<Longrightarrow> h \<in> set es \<Longrightarrow> 0 \<le> ct_amount h"
  by (auto simp: entriesOk_def list_all_iff entryAllowed_def)

text \<open>Inserting an entry that moves no money and adds no hold.\<close>

lemma neutral_inv:
  assumes "creditInv db" "insertEntry gen t (db'\<lparr>cd_accounts := as\<rparr>) = Inr (t', db2)" "balancesOf as = balancesOf (cd_accounts db)"
    and "cd_entries db' = cd_entries db \<or> (\<exists>h st. h \<in> set (cd_entries db) \<and> isHold h \<and> st \<noteq> PENDING \<and> cd_entries db' = withStatus (ct_id h) st (cd_entries db))"
    and "ct_delta t = 0" "\<not> isHold t" "ct_accountCreditId t \<in> fst ` set (balancesOf as)"
  shows "creditInv db2"
proof -
  let ?es = "cd_entries db" and ?es1 = "cd_entries db'" and ?bs = "balancesOf (cd_accounts db)"
  have inv: "balancesOk ?bs ?es" using assms(1) by (simp add: creditInv_def)
  then have ok: "entriesOk ?es" by (simp add: balancesOk_def)
  have held: "heldBy ?es1 a \<le> heldBy ?es a" for a
    using assms(4) ok withStatus_held[of ?es _ _ a] hold_nonneg[OF ok] by (auto simp: entriesOk_def)
  have ok1: "entriesOk ?es1" using assms(4) ok withStatus_ok by auto
  have posted: "postedTo ?es1 a = postedTo ?es a" for a using assms(4) by auto
  have accts: "ct_accountCreditId ` set ?es1 = ct_accountCreditId ` set ?es" using assms(4) by (metis withStatus_accts)
  note f = insertEntry_facts[OF assms(2)]
  obtain b where b: "(ct_accountCreditId t, b) \<in> set ?bs" using assms(3,7) by auto
  have bal: "0 \<le> b" "b \<le> MAX_CREDIT_CENTS" "heldBy ?es (ct_accountCreditId t) \<le> b" using inv b by (auto simp: balancesOk_def)
  have same: "map (\<lambda>(j, c). (j, if j = ct_accountCreditId t then b else c)) ?bs = ?bs"
    using inv b by (intro map_idI) (auto simp: balancesOk_def dest: eq_key_imp_eq_value)
  have "balancesOk (map (\<lambda>(j, c). (j, if j = ct_accountCreditId t then b else c)) ?bs) (?es1 @ [t'])"
    using f(1) f(3)[simplified, OF ok1] bal held[of "ct_accountCreditId t"] assms(5,6) accts
    by (intro post_inv[OF inv b held posted]) (auto simp: isHold_def)
  then show ?thesis using f(2) assms(3) same by (simp add: creditInv_def)
qed

lemma lockAccount_mem: "lockAccount db i = Inr a \<Longrightarrow> i \<in> fst ` set (balancesOf (cd_accounts db))"
  using lockAccount_facts[of db i a] by force

lemma baseEntry_sel [simp]:
  "ct_accountCreditId (baseEntry a k am d b key) = a" "ct_kind (baseEntry a k am d b key) = k" "ct_status (baseEntry a k am d b key) = POSTED"
  "ct_amount (baseEntry a k am d b key) = am" "ct_delta (baseEntry a k am d b key) = d" "ct_idempotencyKey (baseEntry a k am d b key) = key"
  by (simp_all add: baseEntry_def)

lemma releaseEntry_inv:
  assumes inv: "creditInv db" and r: "releaseEntry gen hold amount reason db1 = Inr (t, db2)" and mem: "ct_accountCreditId hold \<in> fst ` set (balancesOf (cd_accounts db))"
    and db1: "db1 = db \<or> (hold \<in> set (cd_entries db) \<and> isHold hold \<and> db1 = voidHold hold db)"
  shows "creditInv db2"
proof (rule neutral_inv[OF inv])
  show "insertEntry gen ((baseEntry (ct_accountCreditId hold) RELEASE amount 0 None (''release:'' @ ct_id hold))
     \<lparr>ct_orderId := ct_orderId hold, ct_relatedTransactionId := Some (ct_id hold), ct_reason := Some reason\<rparr>) (db1\<lparr>cd_accounts := cd_accounts db1\<rparr>) = Inr (t, db2)"
    using r by (simp add: releaseEntry_def)
  show "cd_entries db1 = cd_entries db \<or> (\<exists>h st. h \<in> set (cd_entries db) \<and> isHold h \<and> st \<noteq> PENDING \<and> cd_entries db1 = withStatus (ct_id h) st (cd_entries db))"
  proof (cases "db1 = db")
    case False
    then show ?thesis using db1 by (intro disjI2 exI[of _ hold] exI[of _ VOID]) (simp add: voidHold_def)
  qed simp
qed (use db1 mem in \<open>auto simp: voidHold_def isHold_def\<close>)

lemma disable_inv:
  assumes op: "disable gen i dis key actor reason db = Inr (x, db')" and inv: "creditInv db"
  shows "creditInv db'"
proof (cases "priorOperation db (''status:'' @ key)")
  case (Some prior)
  then show ?thesis using op inv by (auto simp: disable_def Let_def conflict_def split: if_splits)
next
  case None
  let ?as = "map (\<lambda>a. if ca_id a = i then a\<lparr>ca_disabled := dis\<rparr> else a) (cd_accounts db)"
  obtain account t where f: "lockAccount db i = Inr account"
    "insertEntry gen ((baseEntry i (if dis then DISABLE else ENABLE) 0 0 (Some (ca_balance account)) (''status:'' @ key))\<lparr>ct_actor := Some actor, ct_reason := Some reason\<rparr>) (db\<lparr>cd_accounts := ?as\<rparr>) = Inr (t, db')"
    using op None lockAccount_facts by (fastforce simp: disable_def Let_def)
  have "balancesOf ?as = balancesOf (cd_accounts db)" by (simp add: balancesOf_def)
  then show ?thesis using lockAccount_mem[OF f(1)] by (intro neutral_inv[OF inv f(2)]) (auto simp: isHold_def)
qed

lemma release_inv:
  assumes op: "release gen oid cause db = Inr (x, db')" and inv: "creditInv db"
  shows "creditInv db'"
proof (cases "pendingForOrder db oid")
  case None
  then show ?thesis using op inv by (auto simp: release_def)
next
  case (Some h)
  note h = pendingForOrder_facts[OF Some]
  have "lockAccount db (ct_accountCreditId h) = Inr a \<Longrightarrow> releaseEntry gen h am rs (voidHold h db) = Inr (t, d) \<Longrightarrow> creditInv d" for a am rs t d
    using h lockAccount_mem releaseEntry_inv[OF inv, of gen h am rs "voidHold h db" t d] by blast
  then show ?thesis using op inv Some by (cases cause) (auto simp: release_def split: if_splits)
qed

lemma creditAdjust_inv:
  assumes op: "adjust gen i delta key actor reason db = Inr (x, db')" and inv: "creditInv db"
  shows "creditInv db'"
proof (cases "priorOperation db (''adjust:'' @ key)")
  case (Some prior)
  then show ?thesis using op inv by (auto simp: adjust_def conflict_def split: if_splits)
next
  case None
  then obtain account av u db1 t where f: "lockAccount db i = Inr account" "available db account None = Inr av" "0 \<le> av + delta"
    "setBalance account (ca_balance account + delta) db = Inr (u, db1)"
    "insertEntry gen ((baseEntry (ca_id account) ADJUST \<bar>delta\<bar> delta (Some (ca_balance u)) (''adjust:'' @ key))\<lparr>ct_actor := Some actor, ct_reason := Some reason\<rparr>) db1 = Inr (t, db')"
    using op by (auto simp: adjust_def split: if_splits)
  note a = lockAccount_facts[OF f(1)] and av = available_facts[OF f(2)] and sb = setBalance_facts[OF f(4)] and ie = insertEntry_facts[OF f(5)]
  have b: "balancesOk (balancesOf (cd_accounts db)) (cd_entries db)" using inv by (simp add: creditInv_def)
  have "balancesOk (map (\<lambda>(j, c). (j, if j = i then ca_balance account + delta else c)) (balancesOf (cd_accounts db))) (cd_entries db @ [t])"
    using a av sb ie(1) ie(3) b f(3) by (intro post_inv[OF b]) (auto simp: held_all isHold_def balancesOk_def)
  then show ?thesis using ie(2) sb a by (simp add: creditInv_def)
qed

text \<open>A new hold within what is available to its order.\<close>

lemma hold_inv:
  assumes inv: "creditInv db" and a: "(i, b) \<in> set (balancesOf (cd_accounts db))"
    and ie: "insertEntry gen t db1 = Inr (t', db')" and db1: "cd_accounts db1 = cd_accounts db"
    and es: "pendingForOrder db oid = None \<and> cd_entries db1 = cd_entries db \<or> (\<exists>h. pendingForOrder db oid = Some h \<and> ct_accountCreditId h = i \<and> cd_entries db1 = withStatus (ct_id h) VOID (cd_entries db))"
    and t: "ct_accountCreditId t = i" "ct_delta t = 0" "ct_amount t \<le> b - heldCents (Some oid) (holdsForAccount db i)"
  shows "creditInv db'"
proof -
  let ?es = "cd_entries db" and ?bs = "balancesOf (cd_accounts db)"
  have bal: "balancesOk ?bs ?es" using inv by (simp add: creditInv_def)
  then have ok: "entriesOk ?es" and b: "0 \<le> b" "b \<le> MAX_CREDIT_CENTS" "heldBy ?es i \<le> b" using a by (auto simp: balancesOk_def)
  note f = insertEntry_facts[OF ie]
  have es1: "heldBy (cd_entries db1) j \<le> heldBy ?es j" "postedTo (cd_entries db1) j = postedTo ?es j" "entriesOk (cd_entries db1)"
    "ct_accountCreditId ` set (cd_entries db1) = ct_accountCreditId ` set ?es" "heldBy (cd_entries db1) i \<le> heldCents (Some oid) (holdsForAccount db i)" for j
  proof -
    have "heldBy (cd_entries db1) j \<le> heldBy ?es j \<and> postedTo (cd_entries db1) j = postedTo ?es j \<and> entriesOk (cd_entries db1)
      \<and> ct_accountCreditId ` set (cd_entries db1) = ct_accountCreditId ` set ?es \<and> heldBy (cd_entries db1) i \<le> heldCents (Some oid) (holdsForAccount db i)"
      using es
    proof
      assume n: "pendingForOrder db oid = None \<and> cd_entries db1 = ?es"
      then have "oid \<notin> set (heldOrders ?es)" by (auto simp: pendingForOrder_def find_None_iff heldOrders_def List.map_filter_def split: if_splits)
      then show ?thesis using n ok by (simp add: held_except held_no_order)
    next
      assume "\<exists>h. pendingForOrder db oid = Some h \<and> ct_accountCreditId h = i \<and> cd_entries db1 = withStatus (ct_id h) VOID ?es"
      then obtain h where h: "pendingForOrder db oid = Some h" "ct_accountCreditId h = i" "cd_entries db1 = withStatus (ct_id h) VOID ?es" by auto
      note p = pendingForOrder_facts[OF h(1)]
      have ws: "heldBy (withStatus (ct_id h) VOID ?es) a = heldBy ?es a - (if ct_accountCreditId h = a then ct_amount h else 0)" for a
        using p ok by (intro withStatus_held) (auto simp: entriesOk_def)
      have ho: "heldBy (filter (\<lambda>t. ct_orderId t \<noteq> Some oid) ?es) i = heldBy ?es i - ct_amount h"
        using p ok h(2) held_own_order[of ?es h oid i] by (simp add: entriesOk_def)
      show ?thesis using h(2,3) ws ho hold_nonneg[OF ok] p withStatus_ok[OF _ ok] by (auto simp: withStatus_accts held_except)
    qed
    then show "heldBy (cd_entries db1) j \<le> heldBy ?es j" "postedTo (cd_entries db1) j = postedTo ?es j" "entriesOk (cd_entries db1)"
      "ct_accountCreditId ` set (cd_entries db1) = ct_accountCreditId ` set ?es" "heldBy (cd_entries db1) i \<le> heldCents (Some oid) (holdsForAccount db i)" by auto
  qed
  have same: "map (\<lambda>(j, c). (j, if j = i then b else c)) ?bs = ?bs"
    using bal a by (intro map_idI) (auto simp: balancesOk_def dest: eq_key_imp_eq_value)
  have "heldBy (cd_entries db1 @ [t']) i \<le> b" using es1(5) b es1(1)[of i] t f(1) by auto
  then have "balancesOk (map (\<lambda>(j, c). (j, if j = i then b else c)) ?bs) (cd_entries db1 @ [t'])"
    using f(1) f(3) es1 b t by (intro post_inv[OF bal a es1(1,2)]) auto
  then show ?thesis using f(2) db1 same by (simp add: creditInv_def)
qed

lemma reserve_inv:
  assumes op: "reserve gen uuid oid i amount phase now db = Inr (x, db')" and inv: "creditInv db"
  shows "creditInv db'"
proof -
  obtain order account av where f: "lockOrder db oid = Inr order" "lockAccount db i = Inr account" "available db account (Some (co_id order)) = Inr av" "\<not> av < amount"
    and hold: "\<not> (case pendingForOrder db oid of None \<Rightarrow> False | Some h \<Rightarrow> ct_accountCreditId h \<noteq> ca_id account)"
    and post: "(case pendingForOrder db oid of
           Some h \<Rightarrow>
             if ct_amount h = amount then Inr (h, db)
             else insertEntry gen ((baseEntry (ca_id account) RESERVE amount 0 None (''hold:'' @ uuid db))
                    \<lparr>ct_status := PENDING, ct_orderId := Some (co_id order), ct_relatedTransactionId := Some (ct_id h)\<rparr>) (setStatus (ct_id h) VOID db)
         | None \<Rightarrow> insertEntry gen ((baseEntry (ca_id account) RESERVE amount 0 None (''hold:'' @ uuid db))
                    \<lparr>ct_status := PENDING, ct_orderId := Some (co_id order)\<rparr>) db) = Inr (x, db')"
    using op by (auto simp: reserve_def Let_def split: if_splits)
  have oid: "co_id order = oid" using f(1) by (auto simp: lockOrder_def dest!: find_Some_in_set split: option.splits if_splits)
  note a = lockAccount_facts[OF f(2)] and av = available_facts[OF f(3)[unfolded oid]]
  show ?thesis
  proof (cases "pendingForOrder db oid")
    case None
    then show ?thesis using post a av f(4) oid by (intro hold_inv[OF inv, of i "ca_balance account" gen _ db x db' oid]) auto
  next
    case (Some h)
    show ?thesis
    proof (cases "ct_amount h = amount")
      case True
      then show ?thesis using post Some inv by simp
    next
      case False
      then have ie: "insertEntry gen ((baseEntry i RESERVE amount 0 None (''hold:'' @ uuid db))
          \<lparr>ct_status := PENDING, ct_orderId := Some oid, ct_relatedTransactionId := Some (ct_id h)\<rparr>) (setStatus (ct_id h) VOID db) = Inr (x, db')"
        using post Some oid a by simp
      show ?thesis by (rule hold_inv[OF inv _ ie, where i = i and b = "ca_balance account" and oid = oid]) (use Some a av f(4) hold in auto)
    qed
  qed
qed

lemma creditRedeem_inv:
  assumes op: "redeem gen oid amount allocation db = Inr (x, db')" and inv: "creditInv db"
  shows "creditInv db'"
proof (cases "pendingForOrder db oid")
  case None
  then show ?thesis using op inv by (auto simp: redeem_def conflict_def split: option.splits if_splits)
next
  case (Some h)
  note h = pendingForOrder_facts[OF Some]
  have bal: "balancesOk (balancesOf (cd_accounts db)) (cd_entries db)" using inv by (simp add: creditInv_def)
  then have ok: "entriesOk (cd_entries db)" by (simp add: balancesOk_def)
  obtain order account where f: "lockOrder db oid = Inr order" "lockAccount db (ct_accountCreditId h) = Inr account" "amount \<le> ct_amount h" "0 \<le> amount"
    using op Some by (auto simp: redeem_def not_less split: if_splits)
  note a = lockAccount_facts[OF f(2)]
  show ?thesis
  proof (cases "amount = 0")
    case True
    then obtain t where "releaseEntry gen h (ct_amount h) ''No credit applied at settlement'' (voidHold h db) = Inr (t, db')"
      using op Some f by (auto simp: redeem_def split: if_splits)
    then show ?thesis using h lockAccount_mem[OF f(2)] releaseEntry_inv[OF inv] by blast
  next
    case False
    let ?t = "(baseEntry (ca_id account) REDEEM amount (- amount) (Some (ca_balance account - amount)) (''redeem:'' @ ct_id h))
        \<lparr>ct_orderId := Some (co_id order), ct_relatedTransactionId := Some (ct_id h), ct_reason := Some ''Payment settled'',
         ct_allocation := Some (Some (allocationJson allocation)), ct_operationalAllocation := Some allocation\<rparr>"
    obtain u db1 entry db2 where g: "setBalance account (ca_balance account - amount) db = Inr (u, db1)" "insertEntry gen ?t (setStatus (ct_id h) POSTED db1) = Inr (entry, db2)"
      and rest: "if amount < ct_amount h then \<exists>t. releaseEntry gen h (ct_amount h - amount) ''Unused reserved credit'' db2 = Inr (t, db') else db' = db2"
      using op Some f False by (fastforce simp: redeem_def dest: setBalance_facts split: if_splits)
    note sb = setBalance_facts[OF g(1)] and ie = insertEntry_facts[OF g(2)]
    let ?es1 = "withStatus (ct_id h) POSTED (cd_entries db)"
    have ws: "heldBy ?es1 j = heldBy (cd_entries db) j - (if ct_accountCreditId h = j then ct_amount h else 0)" for j
      using h ok by (intro withStatus_held) (auto simp: entriesOk_def)
    have held: "heldBy (cd_entries db) (ca_id account) \<le> ca_balance account" using bal a by (auto simp: balancesOk_def)
    have "balancesOk (map (\<lambda>(j, c). (j, if j = ca_id account then ca_balance account - amount else c)) (balancesOf (cd_accounts db))) (?es1 @ [entry])"
      using a sb ie(1) ie(3) withStatus_ok[OF _ ok] ws held f(3) hold_nonneg[OF ok] h
      by (intro post_inv[OF bal]) (auto simp: withStatus_accts isHold_def)
    then have inv2: "creditInv db2" using ie(2) sb by (simp add: creditInv_def)
    have "ct_accountCreditId h \<in> fst ` set (balancesOf (cd_accounts db2))" using ie(2) sb a lockAccount_mem[OF f(2)] by (force simp: image_iff)
    then show ?thesis using rest inv2 releaseEntry_inv[OF inv2, of gen h _ _ db2] by (auto split: if_splits)
  qed
qed

lemma sum_list_0': "(\<And>x. x \<in> set xs \<Longrightarrow> f x = 0) \<Longrightarrow> sum_list (map f xs) = (0 :: int)"
  by (induction xs) auto

lemma issue_inv:
  assumes op: "issue gen uuid email amount key currency code db = Inr (x, db')" and inv: "creditInv db"
  shows "creditInv db'"
proof (cases "\<exists>existing. find (\<lambda>a. ca_issuanceKey a = key) (cd_accounts db) = Some existing")
  case True
  then show ?thesis using op inv by (auto simp: issue_def Let_def conflict_def split: option.splits if_splits)
next
  case False
  then obtain c e cur where n: "issueNew gen c e amount key cur db = Inr (x, db')" "0 < amount" "amount \<le> MAX_CREDIT_CENTS"
    using op by (auto simp: issue_def Let_def split: option.splits if_splits)
  define p where "p = \<lparr>cp_id = gen db, cp_code = Some c, cp_type = ''account_credit'', cp_enabled = True, cp_startsAt = None, cp_endsAt = None,
    cp_stackOrder = fold (\<lambda>p m. max m (cp_stackOrder p)) (cd_promotions db) 0 + 1\<rparr>"
  define account where "account = \<lparr>ca_id = gen (db\<lparr>cd_promotions := cd_promotions db @ [p]\<rparr>), ca_promotionId = gen db, ca_currency = cur, ca_emailNormalized = e, ca_issuanceKey = key,
    ca_initialAmount = amount, ca_balance = amount, ca_disabled = False, ca_sourcePromotionRecord = None\<rparr>"
  define db1 where "db1 = db\<lparr>cd_promotions := cd_promotions db @ [p], cd_accounts := cd_accounts db @ [account]\<rparr>"
  have ids: "ca_id account \<notin> ca_id ` set (cd_accounts db)"
    using n(1) by (auto simp: issueNew_def Let_def conflict_def list_ex_iff account_def p_def split: if_splits)
  obtain t where t: "insertEntry gen ((baseEntry (ca_id account) ISSUE amount amount (Some amount) (''issue:'' @ key))\<lparr>ct_reason := Some ''Approved issuance''\<rparr>) db1 = Inr (t, db')"
    using n(1) by (auto simp: issueNew_def Let_def conflict_def account_def p_def db1_def split: if_splits)
  have f: "db1 = db\<lparr>cd_promotions := cd_promotions db @ [p], cd_accounts := cd_accounts db @ [account]\<rparr>"
    "ca_id account \<notin> ca_id ` set (cd_accounts db)" "ca_balance account = amount"
    "insertEntry gen ((baseEntry (ca_id account) ISSUE amount amount (Some amount) (''issue:'' @ key))\<lparr>ct_reason := Some ''Approved issuance''\<rparr>) db1 = Inr (t, db')"
    using ids t by (simp_all add: db1_def account_def)
  note ie = insertEntry_facts[OF f(4)]
  let ?bs = "balancesOf (cd_accounts db)" and ?es = "cd_entries db"
  have bal: "balancesOk ?bs ?es" using inv by (simp add: creditInv_def)
  have fresh: "ca_id account \<notin> fst ` set ?bs" using f(2) by (force simp: balancesOf_def)
  then have none: "\<forall>t\<in>set ?es. ct_accountCreditId t \<noteq> ca_id account" using bal unfolding balancesOk_def by metis
  then have zero: "heldBy ?es (ca_id account) = 0" "postedTo ?es (ca_id account) = 0"
    by (auto simp: heldBy_def postedTo_def intro!: sum_list_0')
  then have "balancesOk (?bs @ [(ca_id account, 0)]) ?es" using bal fresh by (auto simp: balancesOk_def MAX_CREDIT_CENTS_def)
  then have "balancesOk (map (\<lambda>(j, c). (j, if j = ca_id account then amount else c)) (?bs @ [(ca_id account, 0)])) (?es @ [t])"
    using ie(1) ie(3) f(1) bal n zero by (intro post_inv[where es = ?es and b = 0]) (auto simp: isHold_def balancesOk_def)
  moreover have "map (\<lambda>(j, c). (j, if j = ca_id account then amount else c)) ?bs = ?bs" using fresh by (intro map_idI) force
  moreover have "balancesOf (cd_accounts db @ [account]) = ?bs @ [(ca_id account, amount)]" using f(3) by (simp add: balancesOf_def)
  ultimately show ?thesis using ie(2) f(1) by (simp add: creditInv_def)
qed

lemma postFundingRow_inv:
  assumes op: "postFundingRow gen refundId actor reason p st = Inr st'" and inv: "creditInv (snd (snd st))"
    and acct: "(ca_id (fst st), ca_balance (fst st)) \<in> set (balancesOf (cd_accounts (snd (snd st))))" "ps_accountCreditId p = ca_id (fst st)" "ps_delta p = ps_amount p"
  shows "creditInv (snd (snd st')) \<and> (ca_id (fst st'), ca_balance (fst st')) \<in> set (balancesOf (cd_accounts (snd (snd st')))) \<and> ca_id (fst st') = ca_id (fst st)
    \<and> ca_balance (fst st') = ca_balance (fst st) + ps_amount p"
proof -
  obtain account entries db where st: "st = (account, entries, db)" by (metis prod_cases3)
  obtain u db1 t db2 where f: "setBalance account (ca_balance account + ps_amount p) db = Inr (u, db1)"
    "insertEntry gen (fundingEntry p (ca_balance u) refundId actor reason) db1 = Inr (t, db2)" "st' = (u, entries @ [t], db2)"
    using op by (auto simp: postFundingRow_def st)
  note sb = setBalance_facts[OF f(1)] and ie = insertEntry_facts[OF f(2)]
  have bal: "balancesOk (balancesOf (cd_accounts db)) (cd_entries db)" using inv by (simp add: creditInv_def st)
  have b: "(ca_id account, ca_balance account) \<in> set (balancesOf (cd_accounts db))" using acct by (simp add: st)
  have am: "0 \<le> ps_amount p" using ie(1,4) by (simp add: entryAllowed_def fundingEntry_def)
  have "heldBy (cd_entries db) (ca_id account) \<le> ca_balance account" using bal b by (auto simp: balancesOk_def)
  then have "balancesOk (map (\<lambda>(j, c). (j, if j = ca_id account then ca_balance account + ps_amount p else c)) (balancesOf (cd_accounts db))) (cd_entries db @ [t])"
    using sb ie(1) ie(3) bal acct am by (intro post_inv[OF bal b]) (auto simp: fundingEntry_def isHold_def st balancesOk_def)
  then show ?thesis using ie(2) sb f(3) b by (force simp: creditInv_def st)
qed

lemma postFundingRows_inv:
  assumes "foldE (postFundingRow gen refundId actor reason) ps st = Inr st'" "creditInv (snd (snd st))"
    and "(ca_id (fst st), ca_balance (fst st)) \<in> set (balancesOf (cd_accounts (snd (snd st))))"
    and "\<And>p. p \<in> set ps \<Longrightarrow> ps_accountCreditId p = ca_id (fst st) \<and> ps_delta p = ps_amount p"
  shows "creditInv (snd (snd st')) \<and> ca_balance (fst st') = ca_balance (fst st) + sum_list (map ps_amount ps)"
  using assms
proof (induction ps arbitrary: st)
  case (Cons p ps)
  then obtain st1 where s1: "postFundingRow gen refundId actor reason p st = Inr st1" "foldE (postFundingRow gen refundId actor reason) ps st1 = Inr st'" by auto
  have "ps_accountCreditId p = ca_id (fst st)" "ps_delta p = ps_amount p" using Cons.prems(4)[of p] by auto
  from postFundingRow_inv[OF s1(1) Cons.prems(2,3) this] show ?case using Cons.IH[OF s1(2)] Cons.prems(4) by auto
qed simp

lemma postingOf_sel [simp]:
  "ps_accountCreditId (postingOf r line e cs ref) = rd_accountCreditId r" "ps_delta (postingOf r line e cs ref) = ps_amount (postingOf r line e cs ref)"
  by (simp_all add: postingOf_def)

definition isPosting :: "EditFundingRedemption \<Rightarrow> EditFundingPosting \<Rightarrow> bool" where
  "isPosting r p \<longleftrightarrow> (\<exists>line e cs. p = postingOf r line e cs None)"

lemma isPosting_postingOf: "isPosting r (postingOf r line e cs None)"
  unfolding isPosting_def by blast

lemma planLines_postings:
  assumes "foldE (planLine r editId dig lines) lus st = Inr st'" "\<forall>p\<in>set (fst st). isPosting r p"
  shows "\<forall>p\<in>set (fst st'). isPosting r p"
proof -
  have step: "planCause r editId dig line cause cs s = Inr s' \<Longrightarrow> \<forall>p\<in>set (fst s). isPosting r p \<Longrightarrow> \<forall>p\<in>set (fst s'). isPosting r p" for line cause cs s s'
    by (auto simp: planCause_def isPosting_postingOf split_beta split: if_splits)
  show ?thesis
  proof (rule foldE_invariant[where P = "\<lambda>s. \<forall>p\<in>set (fst s). isPosting r p", OF assms])
    fix x s s' assume s: "\<forall>p\<in>set (fst s). isPosting r p" "planLine r editId dig lines x s = Inr s'"
    then obtain s1 l c1 c2 where "planCause r editId dig l QuantityReturn c1 s = Inr s1" "planCause r editId dig l UnitCorrection c2 s1 = Inr s'"
      by (auto simp: planLine_def Let_def split_beta)
    then show "\<forall>p\<in>set (fst s'). isPosting r p" using step[OF _ step[OF _ s(1)]] by blast
  qed
qed

lemma plan_postings:
  assumes "planEditCreditFunding digest r h editId lines ce = Inr (FundingPlan dig ps alloc st)" "p \<in> set ps"
  shows "isPosting r p"
proof -
  obtain lus st0 st1 where "foldE (planLine r editId dig lines) lus ([], st0) = Inr (ps, st1)"
    using assms(1) by (auto simp: planEditCreditFunding_def Let_def split: option.splits)
  from planLines_postings[OF this] show ?thesis using assms(2) by simp
qed

text \<open>What a successful posting of an edit did.\<close>

lemma prepare_facts:
  assumes "prepareEditCreditFunding digest oid editId lines ce db = Inr (Some (r, plan))"
  shows "redemptionForOrder db oid None = Inr (Some r)"
    "planEditCreditFunding digest (redemptionOf r) (map historyRowOf (restorations db oid)) editId lines ce = Inr plan"
proof -
  obtain order red where f: "lockOrder db oid = Inr order" "redemptionForOrder db oid None = Inr red"
    using assms by (auto simp: prepareEditCreditFunding_def)
  then obtain r' where r': "red = Some r'" using assms by (cases red) (auto simp: prepareEditCreditFunding_def)
  obtain plan' where "planEditCreditFunding digest (redemptionOf r') (map historyRowOf (restorations db oid)) editId lines ce = Inr plan'" "r = r'" "plan = plan'"
    using assms f r' by (cases "planEditCreditFunding digest (redemptionOf r') (map historyRowOf (restorations db oid)) editId lines ce")
      (auto simp: prepareEditCreditFunding_def split: js_error.splits)
  then show "redemptionForOrder db oid None = Inr (Some r)"
    "planEditCreditFunding digest (redemptionOf r) (map historyRowOf (restorations db oid)) editId lines ce = Inr plan" using f r' by auto
qed

lemma postEdit_cases:
  assumes "postEditCreditFunding gen digest oid editId lines ce db = Inr (x, db')"
  obtains (plan) r dig ps alloc st account u entries where "x = Some (r, FundingPlan dig ps alloc st)" "redemptionForOrder db oid None = Inr (Some r)"
      "lockAccount db (ct_accountCreditId r) = Inr account"
      "planEditCreditFunding digest (redemptionOf r) (map historyRowOf (restorations db oid)) editId lines ce = Inr (FundingPlan dig ps alloc st)"
      "foldE (postFundingRow gen None None ''Committed order edit'') ps (account, [], db) = Inr (u, entries, db')"
    | (none) "db' = db" "\<And>r dig ps alloc st. x \<noteq> Some (r, FundingPlan dig ps alloc st)"
proof -
  obtain prepared where p: "prepareEditCreditFunding digest oid editId lines ce db = Inr prepared" using assms by (auto simp: postEditCreditFunding_def)
  show thesis
  proof (cases "\<exists>r dig ps alloc st. prepared = Some (r, FundingPlan dig ps alloc st)")
    case True
    then obtain r dig ps alloc st where pr: "prepared = Some (r, FundingPlan dig ps alloc st)" by auto
    obtain account u entries where "x = prepared" "lockAccount db (ct_accountCreditId r) = Inr account"
      "foldE (postFundingRow gen None None ''Committed order edit'') ps (account, [], db) = Inr (u, entries, db')"
      using assms p pr by (auto simp: postEditCreditFunding_def postFundingRows_def)
    then show thesis using plan pr prepare_facts[OF p[unfolded pr]] by blast
  next
    case False
    then have "x = prepared \<and> db' = db" using assms p by (auto simp: postEditCreditFunding_def split: option.splits EditFundingResult.splits)
    then show thesis using False none by blast
  qed
qed

lemma creditEdit_inv:
  assumes op: "postEditCreditFunding gen digest oid editId lines ce db = Inr (x, db')" and inv: "creditInv db"
  shows "creditInv db'"
  using op
proof (cases rule: postEdit_cases)
  case (plan r dig ps alloc st account u entries)
  note a = lockAccount_facts[OF plan(3)]
  have "ps_accountCreditId p = ca_id account \<and> ps_delta p = ps_amount p" if "p \<in> set ps" for p
    using plan_postings[OF plan(4) that] a by (auto simp: redemptionOf_def isPosting_def)
  then show ?thesis using postFundingRows_inv[OF plan(5)] inv a by simp
qed (use inv in simp)

lemma unitReturn_posting:
  "planCreditUnitReturn r h kind i line idx = Inr (Some p, st) \<Longrightarrow> ps_accountCreditId p = rd_accountCreditId r \<and> ps_delta p = ps_amount p"
  by (auto simp: planCreditUnitReturn_def Let_def split: if_splits)

lemma postRestoration_inv:
  assumes op: "postRestoration gen account red input db = Inr (x, db')" and inv: "creditInv db"
    and a: "lockAccount db (ct_accountCreditId red) = Inr account"
  shows "creditInv db'"
proof (cases "db' = db")
  case False
  then obtain kind i idx p st entries where f: "planCreditUnitReturn (redemptionOf red) (map historyRowOf (restorations db (ri_orderId input))) kind i (ri_orderLineId input) idx = Inr (Some p, st)"
    "postFundingRows gen account [p] (ri_refundId input) (ri_actor input) (ri_reason input) db = Inr (entries, db')"
    using op unfolding postRestoration_def Let_def
    by (auto simp: conflict_def split: sum.splits js_error.splits option.splits list.splits if_splits prod.splits)
  have "ps_accountCreditId p = ca_id account \<and> ps_delta p = ps_amount p"
    using unitReturn_posting[OF f(1)] lockAccount_facts[OF a] by (simp add: redemptionOf_def)
  moreover obtain u where "foldE (postFundingRow gen (ri_refundId input) (ri_actor input) (ri_reason input)) [p] (account, [], db) = Inr (u, entries, db')"
    using f(2) by (auto simp: postFundingRows_def)
  ultimately show ?thesis using postFundingRows_inv[of gen _ _ _ "[p]" "(account, [], db)"] inv lockAccount_facts[OF a] by auto
qed (use inv in simp)

section \<open>Runs\<close>

datatype CreditOp =
    DoIssue string int string "string option" "string option"
  | DoAdjust string int string string string
  | DoDisable string bool string string string
  | DoReserve string string int int
  | DoRedeem string int Allocation
  | DoRelease string ReleaseCause
  | DoEdit string string "EditFundingTargetLine list" "CommittedEdit option"
  | DoRestore RestorationInput
  | CreditEnv "CreditPromotion list" "CreditOrder list" "string option"

text \<open>A refused operation leaves the tables as they were.\<close>

definition commitOr :: "CreditDb \<Rightarrow> 'a credit \<Rightarrow> CreditDb" where
  "commitOr db r = (case r of Inl _ \<Rightarrow> db | Inr (_, db') \<Rightarrow> db')"

text \<open>\<open>restoreRefund\<close> and \<open>restoreManual\<close> call \<open>postRestoration\<close> for the order's redemption.\<close>

definition restoreFor :: "(CreditDb \<Rightarrow> string) \<Rightarrow> RestorationInput \<Rightarrow> CreditDb \<Rightarrow> CreditTransaction option credit" where
  "restoreFor gen input db =
     bindE (lockOrder db (ri_orderId input)) (\<lambda>_. bindE (redemptionForOrder db (ri_orderId input) None) (\<lambda>red. case red of
       None \<Rightarrow> Inr (None, db)
     | Some r \<Rightarrow> bindE (lockAccount db (ct_accountCreditId r)) (\<lambda>account. postRestoration gen account r input db)))"

fun creditStep :: "(CreditDb \<Rightarrow> string) \<Rightarrow> (CreditDb \<Rightarrow> string) \<Rightarrow> (json \<Rightarrow> string) \<Rightarrow> CreditOp \<Rightarrow> CreditDb \<Rightarrow> CreditDb" where
  "creditStep gen uuid digest (DoIssue email amount key cur code) db = commitOr db (issue gen uuid email amount key cur code db)"
| "creditStep gen uuid digest (DoAdjust i delta key actor reason) db = commitOr db (adjust gen i delta key actor reason db)"
| "creditStep gen uuid digest (DoDisable i dis key actor reason) db = commitOr db (disable gen i dis key actor reason db)"
| "creditStep gen uuid digest (DoReserve oid i amount now) db = commitOr db (reserve gen uuid oid i amount ArrangingPayment now db)"
| "creditStep gen uuid digest (DoRedeem oid amount allocation) db = snd (redeemAfterSettlement gen oid amount allocation db)"
| "creditStep gen uuid digest (DoRelease oid cause) db = commitOr db (release gen oid cause db)"
| "creditStep gen uuid digest (DoEdit oid editId lines ce) db = commitOr db (postEditCreditFunding gen digest oid editId lines ce db)"
| "creditStep gen uuid digest (DoRestore input) db = commitOr db (restoreFor gen input db)"
| "creditStep gen uuid digest (CreditEnv ps os cur) db = db\<lparr>cd_promotions := ps, cd_orders := os, cd_storeCurrency := cur\<rparr>"

lemma commitOr_inv: "\<lbrakk>creditInv db; \<And>x db'. r = Inr (x, db') \<Longrightarrow> creditInv db'\<rbrakk> \<Longrightarrow> creditInv (commitOr db r)"
  by (auto simp: commitOr_def split: sum.splits prod.splits)

lemma restoreFor_inv: "restoreFor gen input db = Inr (x, db') \<Longrightarrow> creditInv db \<Longrightarrow> creditInv db'"
  by (auto simp: restoreFor_def split: option.splits intro: postRestoration_inv)

lemma creditEnv_inv: "creditInv db \<Longrightarrow> creditInv (db\<lparr>cd_promotions := ps, cd_orders := os, cd_storeCurrency := cur\<rparr>)"
  by (simp add: creditInv_def)

lemma creditStep_inv: "creditInv db \<Longrightarrow> creditInv (creditStep gen uuid digest l db)"
proof (cases l)
  case (DoRedeem oid amount allocation)
  then show "creditInv db \<Longrightarrow> ?thesis"
    by (auto simp: redeemAfterSettlement_def afterSettlement_def intro: creditRedeem_inv split: sum.splits prod.splits js_error.splits)
qed (auto intro!: commitOr_inv intro: issue_inv creditAdjust_inv disable_inv reserve_inv release_inv creditEdit_inv restoreFor_inv creditEnv_inv)

interpretation cm: machine "creditStep gen uuid digest" creditInv for gen uuid digest
  by unfold_locales (rule creditStep_inv)


section \<open>What an edit posts, readers see\<close>

definition entryFor :: "EditFundingPosting \<Rightarrow> CreditTransaction \<Rightarrow> bool" where
  "entryFor p t \<longleftrightarrow> historyRowOf t = rowOfPosting (ct_id t) p \<and> ct_orderId t = ps_orderId p \<and> ct_kind t = RESTORE \<and> ct_idempotencyKey t = ps_idempotencyKey p"

lemma postFundingRow_iff:
  "postFundingRow gen ref actor reason p (account, entries, db) = Inr st' \<longleftrightarrow> (\<exists>u db1 t db2. setBalance account (ca_balance account + ps_amount p) db = Inr (u, db1)
     \<and> insertEntry gen (fundingEntry p (ca_balance u) ref actor reason) db1 = Inr (t, db2) \<and> st' = (u, entries @ [t], db2))"
  by (auto simp: postFundingRow_def)

lemma postFundingRows_entries:
  assumes "foldE (postFundingRow gen None None reason) ps st = Inr st'" "\<forall>p\<in>set ps. isPosting r p"
  shows "\<exists>new. cd_entries (snd (snd st')) = cd_entries (snd (snd st)) @ new \<and> list_all2 entryFor ps new"
  using assms
proof (induction ps arbitrary: st)
  case (Cons p ps)
  obtain account entries db where st: "st = (account, entries, db)" by (metis prod_cases3)
  obtain u db1 t db2 where f: "setBalance account (ca_balance account + ps_amount p) db = Inr (u, db1)"
    "insertEntry gen (fundingEntry p (ca_balance u) None None reason) db1 = Inr (t, db2)" "foldE (postFundingRow gen None None reason) ps (u, entries @ [t], db2) = Inr st'"
    using Cons.prems(1) by (auto simp: postFundingRow_iff st)
  note sb = setBalance_facts[OF f(1)] and ie = insertEntry_facts[OF f(2)]
  have "entryFor p t" using Cons.prems(2) ie(1)
    by (auto simp: entryFor_def isPosting_def historyRowOf_def rowOfPosting_def fundingEntry_def postingOf_def baseEntry_def kindText_def statusText_def)
  moreover obtain new where "cd_entries (snd (snd st')) = cd_entries db2 @ new" "list_all2 entryFor ps new"
    using Cons.IH[OF f(3)] Cons.prems(2) by auto
  ultimately show ?case using ie(2) sb by (intro exI[of _ "t # new"]) (simp add: st)
qed auto

lemma redemption_append:
  assumes "cd_entries db' = cd_entries db @ new" "\<forall>t\<in>set new. ct_kind t = RESTORE"
  shows "redemptionForOrder db' oid x = redemptionForOrder db oid x"
proof -
  have "filter (\<lambda>t. ct_orderId t = Some oid \<and> ct_kind t = REDEEM \<and> ct_status t = POSTED \<and> P t) new = []" for P
    using assms(2) by (auto simp: filter_empty_conv)
  then show ?thesis by (simp add: redemptionForOrder_def assms(1))
qed

lemma redemption_order: "redemptionForOrder db oid x = Inr (Some r) \<Longrightarrow> ct_orderId r = Some oid"
proof -
  assume "redemptionForOrder db oid x = Inr (Some r)"
  then have "r \<in> set (filter (\<lambda>t. ct_orderId t = Some oid \<and> ct_kind t = REDEEM \<and> ct_status t = POSTED \<and> (case x of None \<Rightarrow> True | Some a \<Rightarrow> ct_accountCreditId t = a)) (cd_entries db))"
    by (auto simp: redemptionForOrder_def conflict_def split: list.splits simp del: set_filter)
  then show ?thesis by simp
qed

lemma entryFor_source: "list_all2 entryFor ps new \<Longrightarrow> t \<in> set new \<Longrightarrow> \<exists>p\<in>set ps. entryFor p t"
  by (induction rule: list_all2_induct) auto

lemma entries_postedRows:
  assumes "list_all2 entryFor ps new" "distinct (map ct_idempotencyKey new)"
  shows "\<exists>newId. map historyRowOf new = postedRows newId ps"
proof -
  define newId where "newId p = (case find (\<lambda>t. ct_idempotencyKey t = ps_idempotencyKey p) new of Some t \<Rightarrow> ct_id t | None \<Rightarrow> [])" for p :: EditFundingPosting
  have uniq: "find (\<lambda>t. ct_idempotencyKey t = ps_idempotencyKey p) new = Some t" if "t \<in> set new" "entryFor p t" for p t
    using that assms(2) by (induction new) (auto simp: entryFor_def, metis image_eqI)
  have "historyRowOf t = rowOfPosting (newId p) p" if "t \<in> set new" "entryFor p t" for p t
    using uniq[OF that] that(2) by (simp add: newId_def entryFor_def)
  then have "map historyRowOf new = postedRows newId ps"
    using assms(1) unfolding postedRows_def by (simp add: list_all2_conv_all_nth list_eq_iff_nth_eq)
  then show ?thesis by blast
qed

text \<open>C26: the edit of an order and the readers of its ledger agree. If an order edit posts its credit
  funding on consistent tables, then afterwards the evidence of the order holds the same redemption,
  its restoration history replays to exactly the funding state the edit announced, and the tables
  are consistent again.\<close>

theorem posted_edit_visible:
  assumes op: "postEditCreditFunding gen digest oid editId lines None db = Inr (Some (r, FundingPlan dig ps alloc st), db')" and inv: "creditInv db"
    and ids: "list_all (\<lambda>t. ct_id t \<noteq> []) (cd_entries db')" and dok: "digestOk dig"
    and wf: "\<And>original. ct_operationalAllocation r = Some original \<Longrightarrow> allocationWf original"
  shows "readCreditFundingEvidence db' oid = Inr (Some (r, restorations db' oid))
    \<and> readCreditFundingState (redemptionOf r) (map historyRowOf (restorations db' oid)) = Inr st \<and> creditInv db'"
  using op
proof (cases rule: postEdit_cases)
  case (plan r' dig' ps' alloc' st' account u entries)
  then have p: "planEditCreditFunding digest (redemptionOf r) (map historyRowOf (restorations db oid)) editId lines None = Inr (FundingPlan dig ps alloc st)"
    and red: "redemptionForOrder db oid None = Inr (Some r)" and fold: "foldE (postFundingRow gen None None ''Committed order edit'') ps (account, [], db) = Inr (u, entries, db')" by auto
  have post: "\<forall>p\<in>set ps. isPosting (redemptionOf r) p" using plan_postings[OF p] by blast
  obtain new where new: "cd_entries db' = cd_entries db @ new" "list_all2 entryFor ps new" using postFundingRows_entries[OF fold post] by auto
  have inv': "creditInv db'" by (rule creditEdit_inv[OF op inv])
  then have ok: "distinct (map ct_id (cd_entries db'))" "distinct (map ct_idempotencyKey (cd_entries db'))" by (auto simp: creditInv_def balancesOk_def entriesOk_def)
  have ord: "ct_orderId t = Some oid \<and> ct_kind t = RESTORE" if t: "t \<in> set new" for t
  proof -
    obtain p where p: "p \<in> set ps" "entryFor p t" using entryFor_source[OF new(2) t] by blast
    then have "ps_orderId p = Some oid" using post redemption_order[OF red] by (auto simp: isPosting_def postingOf_def redemptionOf_def)
    then show ?thesis using p(2) by (simp add: entryFor_def)
  qed
  then have rest: "restorations db' oid = restorations db oid @ new" by (simp add: restorations_def new(1))
  obtain newId where rows: "map historyRowOf new = postedRows newId ps" using entries_postedRows[OF new(2)] ok(2) new(1) by auto
  have "uniqueRows (map historyRowOf (restorations db' oid))"
    using ok ids by (auto simp: uniqueRows_def restorations_def historyRowOf_def comp_def distinct_map_filter list_all_iff)
  then have "readCreditFundingState (redemptionOf r) (map historyRowOf (restorations db oid) @ postedRows newId ps) = Inr st"
    using edit_plan_reads_back[OF p] wf dok rest rows by (simp add: redemptionOf_def)
  then show ?thesis using redemption_append[OF new(1)] ord red inv' rest rows by (auto simp: readCreditFundingEvidence_def)
qed blast

section \<open>Example\<close>

definition demoEntry :: "string \<Rightarrow> CreditKind \<Rightarrow> int \<Rightarrow> int \<Rightarrow> string \<Rightarrow> CreditTransaction" where
  "demoEntry i kind amount delta key = (baseEntry (demoUuid CHR ''3'') kind amount delta None key)\<lparr>ct_id := i\<rparr>"

definition demoRedeem :: CreditTransaction where
  "demoRedeem = (demoEntry (demoUuid CHR ''1'') REDEEM 500 (-500) ''r'')\<lparr>ct_orderId := Some (demoUuid CHR ''2''), ct_operationalAllocation := Some [(demoUuid CHR ''4'', [300, 200])]\<rparr>"

definition demoCreditDb :: CreditDb where
  "demoCreditDb = \<lparr>cd_storeCurrency = Some ''USD'',
     cd_accounts = [\<lparr>ca_id = demoUuid CHR ''3'', ca_promotionId = ''p'', ca_currency = ''USD'', ca_emailNormalized = ''a@b.c'', ca_issuanceKey = ''k'', ca_initialAmount = 500,
       ca_balance = 0, ca_disabled = False, ca_sourcePromotionRecord = None\<rparr>],
     cd_entries = [demoEntry ''i'' ISSUE 500 500 ''i'', demoRedeem], cd_promotions = [],
     cd_orders = [\<lparr>co_id = demoUuid CHR ''2'', co_state = Paid, co_currency = ''USD'', co_promotionId = Some ''p'', co_grandTotal = 900, co_metadata = None,
       co_lines = [(demoUuid CHR ''4'', 2)], co_settled = True\<rparr>]\<rparr>"

definition demoGen :: "CreditDb \<Rightarrow> string" where
  "demoGen db = replicate (length (cd_entries db)) CHR ''x''"

lemma demo_inv: "creditInv demoCreditDb"
  by (simp add: creditInv_def balancesOk_def balancesOf_def demoCreditDb_def demoRedeem_def demoEntry_def entriesOk_def entryAllowed_def isHold_def heldOrders_def
      List.map_filter_simps heldBy_def postedTo_def MAX_CREDIT_CENTS_def demoUuid_def baseEntry_def numeral_eq_Suc)

lemma demo_redemption: "redemptionOf demoRedeem = demoRedemption"
  by (simp add: redemptionOf_def demoRedeem_def demoEntry_def demoRedemption_def kindText_def statusText_def baseEntry_def)

lemma demo_post:
  assumes "demoEdit = Inr (FundingPlan dig [p, q] alloc st)" "ps_idempotencyKey p \<noteq> ps_idempotencyKey q" "hd (ps_idempotencyKey p) = CHR ''e''" "hd (ps_idempotencyKey q) = CHR ''e''"
    "ps_amount p = 200" "ps_amount q = 200" "ps_quantity p = 1" "ps_quantity q = 0" "ps_delta p = 200" "ps_delta q = 200"
  shows "\<exists>db'. postEditCreditFunding demoGen demoDigest (demoUuid CHR ''2'') (demoUuid CHR ''1'') demoTarget None demoCreditDb = Inr (Some (demoRedeem, FundingPlan dig [p, q] alloc st), db')
    \<and> list_all (\<lambda>t. ct_id t \<noteq> []) (cd_entries db')"
proof -
  have keys: "ps_idempotencyKey p \<noteq> ''i''" "ps_idempotencyKey p \<noteq> ''r''" "ps_idempotencyKey q \<noteq> ''i''" "ps_idempotencyKey q \<noteq> ''r''" using assms(3,4) by auto
  have "redemptionForOrder demoCreditDb (demoUuid CHR ''2'') None = Inr (Some demoRedeem)"
    by (simp add: redemptionForOrder_def demoCreditDb_def demoRedeem_def demoEntry_def baseEntry_def)
  moreover have "restorations demoCreditDb (demoUuid CHR ''2'') = []"
    by (simp add: restorations_def demoCreditDb_def demoRedeem_def demoEntry_def baseEntry_def)
  ultimately have prep: "prepareEditCreditFunding demoDigest (demoUuid CHR ''2'') (demoUuid CHR ''1'') demoTarget None demoCreditDb = Inr (Some (demoRedeem, FundingPlan dig [p, q] alloc st))"
    using assms(1)[unfolded demoEdit_def] demo_redemption
    by (simp add: prepareEditCreditFunding_def lockOrder_def lockAccount_def demoCreditDb_def importedFinancialReconciliationRequired_def demoRedeem_def demoEntry_def baseEntry_def checkE_def)
  have u: "demoUuid CHR ''1'' \<noteq> []" by (simp add: demoUuid_def)
  show ?thesis unfolding postEditCreditFunding_def prep
    using keys keys[symmetric] assms(2-) u
    by (simp add: postFundingRows_def postFundingRow_def setBalance_def insertEntry_def lockAccount_def demoCreditDb_def demoRedeem_def demoEntry_def baseEntry_def
        fundingEntry_def entryAllowed_def isHold_def demoGen_def Let_def assertCents_def isSafeInteger_def MAX_CREDIT_CENTS_def checkE_def demoUuid_def numeral_eq_Suc del: bindE_Inr_iff)
qed

theorem posted_edit_visible_witness:
  "\<exists>p q alloc st db'. postEditCreditFunding demoGen demoDigest (demoUuid CHR ''2'') (demoUuid CHR ''1'') demoTarget None demoCreditDb
      = Inr (Some (demoRedeem, FundingPlan (replicate 64 CHR ''a'') [p, q] alloc st), db')
    \<and> readCreditFundingState (redemptionOf demoRedeem) (map historyRowOf (restorations db' (demoUuid CHR ''2''))) = Inr st \<and> fs_retained st = 100"
proof -
  obtain p q alloc st where e: "demoEdit = Inr (FundingPlan (replicate 64 CHR ''a'') [p, q] alloc st)" "ps_idempotencyKey p \<noteq> ps_idempotencyKey q"
    "hd (ps_idempotencyKey p) = CHR ''e''" "hd (ps_idempotencyKey q) = CHR ''e''" "ps_amount p = 200" "ps_amount q = 200" "ps_quantity p = 1" "ps_quantity q = 0"
    "ps_delta p = 200" "ps_delta q = 200" "fs_retained st = 100"
    using demoEdit_facts by blast
  obtain db' where db': "postEditCreditFunding demoGen demoDigest (demoUuid CHR ''2'') (demoUuid CHR ''1'') demoTarget None demoCreditDb
      = Inr (Some (demoRedeem, FundingPlan (replicate 64 CHR ''a'') [p, q] alloc st), db')" "list_all (\<lambda>t. ct_id t \<noteq> []) (cd_entries db')"
    using demo_post[OF e(1-10)] by blast
  have "readCreditFundingState (redemptionOf demoRedeem) (map historyRowOf (restorations db' (demoUuid CHR ''2''))) = Inr st"
    using posted_edit_visible[OF db'(1) demo_inv db'(2)]
    by (simp add: digestOk_def demoRedeem_def demoEntry_def baseEntry_def allocationWf_def)
  then show ?thesis using db'(1) e(11) by blast
qed

end
