(* ===== verification/OrderEdit.thy ===== *)
theory OrderEdit
  imports PromotionStack EditFunding
begin

text \<open>
  Editing a placed order (\<open>orders/order-edit.ts\<close>, \<open>orders/line-quantity.ts\<close>, the stock and line
  persistence of \<open>orders/order-edit-service.ts\<close>, \<open>orders/stock-reservation.ts\<close>): the staged
  operations on a working copy, repricing, line differences, refund attribution and settlement
  rules, the stored quantity columns, the stock plan and the writes of a commit. \<open>Map\<close>s of the code
  are partial functions where only looked up and association lists where iterated.
\<close>

section \<open>Quantity columns of a stored line\<close>

text \<open>\<open>quantity\<close> is what was ordered, \<open>cancelledQty\<close> what will never ship, \<open>editRemovedQty\<close> the part of it
  that edits removed; the customer is billed for \<open>quantity - editRemovedQty\<close>.\<close>

record StoredLineQuantities =
  sq_quantity :: int
  sq_cancelledQty :: int
  sq_editRemovedQty :: int

record LineQuantityChange = StoredLineQuantities +
  sq_removed :: int
  sq_restored :: int
  sq_added :: int

definition billedQty :: "'a StoredLineQuantities_scheme \<Rightarrow> int" where
  "billedQty l = sq_quantity l - sq_editRemovedQty l"

definition billedLine :: "'a StoredLineQuantities_scheme \<Rightarrow> 'a StoredLineQuantities_scheme" where
  "billedLine row = (if sq_editRemovedQty row = 0 then row
     else row\<lparr>sq_quantity := sq_quantity row - sq_editRemovedQty row, sq_cancelledQty := sq_cancelledQty row - sq_editRemovedQty row\<rparr>)"

definition reconcileLineQuantities :: "'a StoredLineQuantities_scheme \<Rightarrow> int \<Rightarrow> LineQuantityChange" where
  "reconcileLineQuantities current billedAfter =
     (let q = sq_quantity current; c = sq_cancelledQty current; r = sq_editRemovedQty current; billedBefore = q - r
      in if billedAfter < billedBefore
         then let removed = billedBefore - billedAfter
              in \<lparr>sq_quantity = q, sq_cancelledQty = c + removed, sq_editRemovedQty = r + removed, sq_removed = removed, sq_restored = 0, sq_added = 0\<rparr>
         else if billedBefore < billedAfter
         then let grow = billedAfter - billedBefore; restored = min grow r; added = grow - restored
              in \<lparr>sq_quantity = q + added, sq_cancelledQty = c - restored, sq_editRemovedQty = r - restored, sq_removed = 0, sq_restored = restored, sq_added = added\<rparr>
         else \<lparr>sq_quantity = q, sq_cancelledQty = c, sq_editRemovedQty = r, sq_removed = 0, sq_restored = 0, sq_added = 0\<rparr>)"

section \<open>Data\<close>

record AddressInput =
  ai_fullName :: "string option"
  ai_line1 :: string
  ai_line2 :: "string option"
  ai_city :: string
  ai_province :: "string option"
  ai_postalCode :: "string option"
  ai_country :: string
  ai_phone :: "string option"

record Address =
  ad_fullName :: "string option"
  ad_line1 :: "string option"
  ad_line2 :: "string option"
  ad_city :: "string option"
  ad_province :: "string option"
  ad_postalCode :: "string option"
  ad_country :: "string option"
  ad_phone :: "string option"

datatype AddressKind = ShippingAddress | BillingAddress

datatype EditOp =
    SetQuantity string int
  | RemoveLine string
  | SwapVariant string string "int option"
  | AddItem string int "int option"
  | ApplyCoupon string
  | RemoveCoupon "string option"
  | SetShippingMethod string
  | SetShippingAmount int
  | RemoveShipping
  | AddAdjustment string int
  | RemoveAdjustment string
  | SetAddress AddressKind AddressInput bool

text \<open>What the schema of an operation admits; \<open>uuid\<close> is the library's UUID check.\<close>

definition editOpOk :: "(string \<Rightarrow> bool) \<Rightarrow> EditOp \<Rightarrow> bool" where
  "editOpOk uuid op = (case op of
       SetQuantity lineId q \<Rightarrow> uuid lineId \<and> 0 \<le> q \<and> q \<le> 100000
     | RemoveLine lineId \<Rightarrow> uuid lineId
     | SwapVariant lineId sku q \<Rightarrow> uuid lineId \<and> sku \<noteq> [] \<and> (case q of None \<Rightarrow> True | Some n \<Rightarrow> 1 \<le> n)
     | AddItem sku q price \<Rightarrow> sku \<noteq> [] \<and> 1 \<le> q \<and> q \<le> 100000 \<and> (case price of None \<Rightarrow> True | Some p \<Rightarrow> 0 \<le> p)
     | ApplyCoupon code \<Rightarrow> code \<noteq> [] \<and> length code \<le> 255
     | RemoveCoupon code \<Rightarrow> (case code of None \<Rightarrow> True | Some c \<Rightarrow> c \<noteq> [] \<and> length c \<le> 255)
     | SetShippingMethod code \<Rightarrow> code \<noteq> []
     | SetShippingAmount amount \<Rightarrow> 0 \<le> amount
     | RemoveShipping \<Rightarrow> True
     | AddAdjustment label amount \<Rightarrow> js_trim label \<noteq> [] \<and> length (js_trim label) \<le> 120 \<and> amount \<noteq> 0
     | RemoveAdjustment i \<Rightarrow> uuid i
     | SetAddress _ _ _ \<Rightarrow> True)"

datatype Settlement =
    RefundNow "string option"
  | LeaveCredit
  | SendPayLink
  | RecordPayment string "string option" "int option"
  | LeaveDue

text \<open>The columns of a product variant the edit reads.\<close>

record VariantFacts =
  vf_id :: string
  vf_sku :: string
  vf_name :: string
  vf_price :: int
  vf_salePrice :: "int option"
  vf_isPreOrder :: bool
  vf_preOrderPrice :: "int option"
  vf_fulfillmentType :: string
  vf_enabled :: bool
  vf_productId :: string
  vf_deletedAt :: "int option"
  vf_appKey :: "string option"
  vf_stripePriceId :: "string option"

record PromoFacts =
  pf_id :: string
  pf_code :: "string option"
  pf_type :: PromotionType
  pf_value :: int
  pf_freeShipping :: bool
  pf_conditions :: "json option"

record ShippingMethodFacts =
  sm_id :: string
  sm_code :: string
  sm_name :: string
  sm_calculator :: json

record OriginalLine =
  ol_variantId :: "string option"
  ol_sku :: string
  ol_name :: string
  ol_unitPrice :: int
  ol_quantity :: int

record WLine =
  wl_key :: string
  wl_id :: "string option"
  wl_variantId :: "string option"
  wl_sku :: string
  wl_name :: string
  wl_unitPrice :: int
  wl_quantity :: int
  wl_fulfilledQty :: int
  wl_refundedQty :: int
  wl_cancelledQty :: int
  wl_editRemovedQty :: "int option"
  wl_original :: "OriginalLine option"
  wl_customPrice :: bool

record WAdjustment =
  wa_id :: "string option"
  wa_label :: string
  wa_amount :: int

datatype PromotionChoice = KeepPromotion | NoPromotion | ApplyPromotion PromoFacts

datatype ShippingChoice = KeepShipping | MethodShipping ShippingMethodFacts | CustomShipping int | NoShipping

record WorkingOrder =
  wo_lines :: "WLine list"
  wo_adjustments :: "WAdjustment list"
  wo_couponCodes :: "string list"
  wo_promotion :: PromotionChoice
  wo_shipping :: ShippingChoice
  wo_shippingAddress :: "Address option"
  wo_billingAddress :: "Address option"
  wo_saveToAddressBook :: bool

record EditLookups =
  el_variantsBySku :: "string \<Rightarrow> VariantFacts option"
  el_promosByCode :: "(string \<times> PromoFacts) list"
  el_methodsByCode :: "string \<Rightarrow> ShippingMethodFacts option"
  el_unitPriceFor :: "VariantFacts \<Rightarrow> int"

section \<open>Working state\<close>

definition lockedQty :: "WLine \<Rightarrow> int" where
  "lockedQty l = wl_fulfilledQty l + wl_cancelledQty l"

definition openQty :: "int \<Rightarrow> int \<Rightarrow> int \<Rightarrow> int" where
  "openQty quantity fulfilledQty cancelledQty = max 0 (quantity - fulfilledQty - cancelledQty)"

definition normalText :: "string option \<Rightarrow> string option" where
  "normalText v = (case v of Some t \<Rightarrow> if js_trim t \<noteq> [] then Some (js_trim t) else None | None \<Rightarrow> None)"

definition normalizeAddress :: "AddressInput \<Rightarrow> Address" where
  "normalizeAddress a =
     \<lparr>ad_fullName = normalText (ai_fullName a), ad_line1 = normalText (Some (ai_line1 a)), ad_line2 = normalText (ai_line2 a), ad_city = normalText (Some (ai_city a)),
      ad_province = normalText (ai_province a), ad_postalCode = normalText (ai_postalCode a),
      ad_country = map_option toUpperCase (normalText (Some (ai_country a))), ad_phone = normalText (ai_phone a)\<rparr>"

definition sameAddress :: "Address option \<Rightarrow> Address option \<Rightarrow> bool" where
  "sameAddress a b \<longleftrightarrow> a = b"

definition countryChanged :: "Address option \<Rightarrow> Address option \<Rightarrow> bool" where
  "countryChanged before after \<longleftrightarrow> orElse (Option.bind before ad_country) [] \<noteq> orElse (Option.bind after ad_country) []"

definition lineByKey :: "WorkingOrder \<Rightarrow> string \<Rightarrow> WLine res" where
  "lineByKey w i = (case find (\<lambda>l. wl_id l = Some i) (wo_lines w) of
       Some l \<Rightarrow> Inr l | None \<Rightarrow> Inl (Coded ''LINE_NOT_FOUND'' ''order line not found on this order''))"

definition requireVariant :: "EditLookups \<Rightarrow> string \<Rightarrow> VariantFacts res" where
  "requireVariant lookups sku = (case el_variantsBySku lookups sku of
       Some v \<Rightarrow> if vf_enabled v \<and> vf_deletedAt v = None then Inr v else Inl (Coded ''VARIANT_UNAVAILABLE'' (''variant is not available: '' @ sku))
     | None \<Rightarrow> Inl (Coded ''VARIANT_UNAVAILABLE'' (''variant is not available: '' @ sku)))"

text \<open>The code mutates the object it found: the first line with that id.\<close>

primrec updFirst :: "('a \<Rightarrow> bool) \<Rightarrow> ('a \<Rightarrow> 'a) \<Rightarrow> 'a list \<Rightarrow> 'a list" where
  "updFirst P f [] = []"
| "updFirst P f (x # xs) = (if P x then f x # xs else x # updFirst P f xs)"

definition updWLine :: "string \<Rightarrow> (WLine \<Rightarrow> WLine) \<Rightarrow> WorkingOrder \<Rightarrow> WorkingOrder" where
  "updWLine i f w = w\<lparr>wo_lines := updFirst (\<lambda>l. wl_id l = Some i) f (wo_lines w)\<rparr>"

definition newLine :: "nat \<Rightarrow> VariantFacts \<Rightarrow> int \<Rightarrow> int \<Rightarrow> bool \<Rightarrow> WLine" where
  "newLine seq v price quantity custom =
     \<lparr>wl_key = ''new:'' @ showNat seq, wl_id = None, wl_variantId = Some (vf_id v), wl_sku = vf_sku v, wl_name = vf_name v, wl_unitPrice = price, wl_quantity = quantity,
      wl_fulfilledQty = 0, wl_refundedQty = 0, wl_cancelledQty = 0, wl_editRemovedQty = None, wl_original = None, wl_customPrice = custom\<rparr>"

definition swapVariant :: "EditLookups \<Rightarrow> string \<Rightarrow> string \<Rightarrow> int option \<Rightarrow> WorkingOrder \<times> nat \<Rightarrow> (WorkingOrder \<times> nat) res" where
  "swapVariant lookups lineId sku quantity st = (case st of (w, seq) \<Rightarrow>
     bindE (lineByKey w lineId) (\<lambda>l.
     bindE (requireVariant lookups sku) (\<lambda>v.
     let movable = wl_quantity l - lockedQty l; moved = orElse quantity movable; price = el_unitPriceFor lookups v
     in if movable \<le> 0 then Inl (Coded ''LINE_LOCKED'' (wl_sku l @ '': every unit is already shipped or refunded''))
        else if movable < moved then Inl (Coded ''LINE_LOCKED'' (wl_sku l @ '': only '' @ showInt movable @ '' unit(s) can be swapped''))
        else if Some (vf_id v) = wl_variantId l \<and> moved = movable then Inr (w, seq)
        else if lockedQty l = 0 \<and> orElse (wl_editRemovedQty l) 0 = 0 \<and> moved = wl_quantity l
        then Inr (updWLine lineId (\<lambda>x. x\<lparr>wl_variantId := Some (vf_id v), wl_sku := vf_sku v, wl_name := vf_name v, wl_unitPrice := price\<rparr>) w, seq)
        else let w1 = updWLine lineId (\<lambda>x. x\<lparr>wl_quantity := wl_quantity x - moved\<rparr>) w
             in Inr (w1\<lparr>wo_lines := wo_lines w1 @ [newLine (Suc seq) v price moved False]\<rparr>, Suc seq))))"

primrec removeFirst :: "('a \<Rightarrow> bool) \<Rightarrow> 'a list \<Rightarrow> 'a list" where
  "removeFirst P [] = []"
| "removeFirst P (x # xs) = (if P x then xs else x # removeFirst P xs)"

definition applyEditOp :: "EditLookups \<Rightarrow> EditOp \<Rightarrow> WorkingOrder \<times> nat \<Rightarrow> (WorkingOrder \<times> nat) res" where
  "applyEditOp lookups op st = (case st of (w, seq) \<Rightarrow> (case op of
       SetQuantity lineId q \<Rightarrow>
         bindE (lineByKey w lineId) (\<lambda>l.
           if q < lockedQty l then Inl (Coded ''LINE_LOCKED'' (wl_sku l @ '': '' @ showInt (lockedQty l) @ '' unit(s) already shipped or refunded and cannot be removed''))
           else Inr (updWLine lineId (\<lambda>x. x\<lparr>wl_quantity := q\<rparr>) w, seq))
     | RemoveLine lineId \<Rightarrow>
         bindE (lineByKey w lineId) (\<lambda>l. Inr (updWLine lineId (\<lambda>x. x\<lparr>wl_quantity := lockedQty x\<rparr>) w, seq))
     | SwapVariant lineId sku q \<Rightarrow> swapVariant lookups lineId sku q (w, seq)
     | AddItem sku q price \<Rightarrow>
         bindE (requireVariant lookups sku) (\<lambda>v.
           Inr (w\<lparr>wo_lines := wo_lines w @ [newLine (Suc seq) v (orElse price (el_unitPriceFor lookups v)) q (price \<noteq> None)]\<rparr>, Suc seq))
     | ApplyCoupon code \<Rightarrow>
         if length (filter (\<lambda>(c, _). toLowerCase c = toLowerCase code) (el_promosByCode lookups)) \<noteq> 1
         then Inl (Coded ''COUPON_NOT_FOUND'' (''coupon not found or not active: '' @ code))
         else bindE (canonicalCouponCodes (wo_couponCodes w @ [code])) (\<lambda>codes. Inr (w\<lparr>wo_couponCodes := codes\<rparr>, seq))
     | RemoveCoupon code \<Rightarrow>
         Inr (w\<lparr>wo_couponCodes := (case code of None \<Rightarrow> [] | Some c \<Rightarrow> filter (\<lambda>x. toLowerCase x \<noteq> toLowerCase c) (wo_couponCodes w))\<rparr>, seq)
     | SetShippingMethod code \<Rightarrow> (case el_methodsByCode lookups code of
           Some m \<Rightarrow> Inr (w\<lparr>wo_shipping := MethodShipping m\<rparr>, seq)
         | None \<Rightarrow> Inl (Coded ''SHIPPING_METHOD_NOT_FOUND'' (''shipping method not found: '' @ code)))
     | SetShippingAmount amount \<Rightarrow> Inr (w\<lparr>wo_shipping := CustomShipping amount\<rparr>, seq)
     | RemoveShipping \<Rightarrow> Inr (w\<lparr>wo_shipping := NoShipping\<rparr>, seq)
     | AddAdjustment label amount \<Rightarrow> Inr (w\<lparr>wo_adjustments := wo_adjustments w @ [\<lparr>wa_id = None, wa_label = label, wa_amount = amount\<rparr>]\<rparr>, seq)
     | RemoveAdjustment i \<Rightarrow>
         if list_ex (\<lambda>a. wa_id a = Some i) (wo_adjustments w) then Inr (w\<lparr>wo_adjustments := removeFirst (\<lambda>a. wa_id a = Some i) (wo_adjustments w)\<rparr>, seq)
         else Inl (Coded ''ADJUSTMENT_NOT_FOUND'' ''adjustment not found on this order'')
     | SetAddress kind address save \<Rightarrow>
         (let a = normalizeAddress address;
              w1 = (case kind of ShippingAddress \<Rightarrow> w\<lparr>wo_shippingAddress := Some a\<rparr> | BillingAddress \<Rightarrow> w\<lparr>wo_billingAddress := Some a\<rparr>)
          in Inr (if save then w1\<lparr>wo_saveToAddressBook := True\<rparr> else w1, seq))))"

definition applyEditOps :: "WorkingOrder \<Rightarrow> EditOp list \<Rightarrow> EditLookups \<Rightarrow> WorkingOrder res" where
  "applyEditOps initial ops lookups =
     bindE (canonicalCouponCodes (wo_couponCodes initial)) (\<lambda>codes.
     bindE (foldE (applyEditOp lookups) ops (initial\<lparr>wo_couponCodes := codes\<rparr>, 0)) (\<lambda>(w, _). Inr w))"

text \<open>The keys an operation list refers to, without repetitions in order of first use.\<close>

definition addKey :: "'a \<Rightarrow> 'a list \<Rightarrow> 'a list" where
  "addKey k ks = (if k \<in> set ks then ks else ks @ [k])"

definition referencedKeys :: "EditOp list \<Rightarrow> string list \<times> string list \<times> string list" where
  "referencedKeys ops = fold (\<lambda>op (skus, coupons, methods). case op of
       AddItem sku _ _ \<Rightarrow> (addKey sku skus, coupons, methods)
     | SwapVariant _ sku _ \<Rightarrow> (addKey sku skus, coupons, methods)
     | ApplyCoupon code \<Rightarrow> (skus, addKey code coupons, methods)
     | SetShippingMethod code \<Rightarrow> (skus, coupons, addKey code methods)
     | _ \<Rightarrow> (skus, coupons, methods)) ops ([], [], [])"

definition assertEditable :: "OrderState \<Rightarrow> EditOp list \<Rightarrow> unit res" where
  "assertEditable state ops =
     (let addressOnly = ops \<noteq> [] \<and> list_all (\<lambda>op. case op of SetAddress _ _ _ \<Rightarrow> True | _ \<Rightarrow> False) ops
      in if state = Cancelled then Inl (Coded ''ORDER_NOT_EDITABLE'' ''a cancelled order cannot be edited'')
         else checkE (state \<notin> {PendingPayment, Paid, PartiallyRefunded} \<and> \<not> (addressOnly \<and> state = Refunded))
                (Coded ''ORDER_NOT_EDITABLE'' ''a Refunded order cannot be edited (only its address can)''))"

section \<open>Entitlements\<close>

definition isEntitlementBearing :: "string \<Rightarrow> string option \<Rightarrow> bool" where
  "isEntitlementBearing fulfillmentType appKey \<longleftrightarrow> fulfillmentType \<in> {''digital_download'', ''license'', ''update_pass''} \<and> orElse appKey [] \<noteq> []"

definition bearing :: "(string \<Rightarrow> VariantFacts option) \<Rightarrow> string option \<Rightarrow> bool" where
  "bearing variantsById variantId =
     (case (case variantId of Some i \<Rightarrow> if i = [] then None else variantsById i | None \<Rightarrow> None) of
        None \<Rightarrow> True | Some v \<Rightarrow> isEntitlementBearing (vf_fulfillmentType v) (vf_appKey v) \<or> orElse (vf_stripePriceId v) [] \<noteq> [])"

definition planChangesEntitlements :: "WLine list \<Rightarrow> (string \<Rightarrow> VariantFacts option) \<Rightarrow> bool" where
  "planChangesEntitlements lines variantsById \<longleftrightarrow> list_ex (\<lambda>l. case wl_original l of
       Some orig \<Rightarrow> (ol_variantId orig \<noteq> wl_variantId l \<or> ol_quantity orig \<noteq> wl_quantity l) \<and> (bearing variantsById (wl_variantId l) \<or> bearing variantsById (ol_variantId orig))
     | None \<Rightarrow> 0 < wl_quantity l \<and> bearing variantsById (wl_variantId l)) lines"

datatype PrincipalKind = HumanPrincipal | AgentPrincipal

definition assertPrincipalMayCommit :: "PrincipalKind \<Rightarrow> WLine list \<Rightarrow> (string \<Rightarrow> VariantFacts option) \<Rightarrow> unit res" where
  "assertPrincipalMayCommit principalKind lines variantsById =
     checkE (principalKind \<noteq> HumanPrincipal \<and> planChangesEntitlements lines variantsById) (Coded ''AGENT_FORBIDDEN'' ''agents cannot perform this action'')"

text \<open>Issuance: one grant per unit of an entitlement-bearing line (\<open>licensing/entitlements.ts\<close>); the
  durations are milliseconds after \<open>now\<close>.\<close>

record LicenseGrantInput =
  lg_orderLineId :: string
  lg_quantity :: int
  lg_fulfillmentType :: string
  lg_appKey :: "string option"
  lg_licenseSeats :: "int option"
  lg_updatesDurationDays :: "int option"
  lg_licenseDurationDays :: "int option"
  lg_metadata :: "json option"

record LicenseGrant =
  gr_orderLineId :: string
  gr_appKey :: string
  gr_seats :: int
  gr_expiresAt :: "int option"
  gr_updatesUntil :: "int option"
  gr_metadata :: "json option"

definition addDays :: "int \<Rightarrow> int option \<Rightarrow> int option" where
  "addDays d days = map_option (\<lambda>n. d + n * 86400000) days"

definition lineGrants :: "int \<Rightarrow> LicenseGrantInput \<Rightarrow> LicenseGrant list" where
  "lineGrants now line =
     (if isEntitlementBearing (lg_fulfillmentType line) (lg_appKey line)
      then replicate (nat (lg_quantity line))
        \<lparr>gr_orderLineId = lg_orderLineId line, gr_appKey = orElse (lg_appKey line) [], gr_seats = orElse (lg_licenseSeats line) 1,
         gr_expiresAt = addDays now (lg_licenseDurationDays line), gr_updatesUntil = addDays now (lg_updatesDurationDays line), gr_metadata = lg_metadata line\<rparr>
      else [])"

definition buildLicenseGrants :: "LicenseGrantInput list \<Rightarrow> int \<Rightarrow> LicenseGrant list" where
  "buildLicenseGrants lines now = concat (map (lineGrants now) lines)"

end
