(* ===== verification/OrderCommit.thy ===== *)
theory OrderCommit
  imports OrderEdit
begin

text \<open>
  The outcome of an order edit: the repriced lines, the differences shown and refunded, the
  settlement of the balance, the stock plan, and what a commit writes to the order lines and the
  stock table (\<open>orders/order-edit.ts\<close>, \<open>orders/order-edit-service.ts\<close>, \<open>orders/stock-reservation.ts\<close>).
\<close>

section \<open>Repricing\<close>

record PricingInputs =
  pi_taxRate :: int
  pi_taxInclusive :: bool
  pi_shippingTaxable :: bool
  pi_shippingTaxRate :: "int option"
  pi_shippingTaxInclusive :: "bool option"
  pi_promotion :: "Promotion option"
  pi_pointsDiscount :: rat
  pi_baseShipping :: int

record PricedLine =
  pl_key :: string
  pl_lineSubtotal :: int
  pl_lineDiscount :: int
  pl_lineTotal :: int

definition totalsInputOf :: "WLine list \<Rightarrow> WAdjustment list \<Rightarrow> PricingInputs \<Rightarrow> TotalsInput" where
  "totalsInputOf active adjustments p =
     \<lparr>ti_lines = map (\<lambda>l. \<lparr>cl_unitPrice = wl_unitPrice l, cl_quantity = wl_quantity l\<rparr>) active, ti_shipping = pi_baseShipping p, ti_taxRate = pi_taxRate p,
      ti_shippingTaxable = pi_shippingTaxable p, ti_shippingTaxRate = pi_shippingTaxRate p, ti_shippingTaxInclusive = pi_shippingTaxInclusive p,
      ti_taxInclusive = pi_taxInclusive p, ti_promotion = pi_promotion p, ti_pointsDiscount = Some (pi_pointsDiscount p),
      ti_adjustments = Some (map (\<lambda>a. \<lparr>ta_amount = of_int (wa_amount a), ta_taxable = False\<rparr>) adjustments)\<rparr>"

text \<open>A line reduced to nothing stays with zero money; the others take the totals' lines in turn.\<close>

fun assignLines :: "WLine list \<Rightarrow> LineTotals list \<Rightarrow> PricedLine list" where
  "assignLines [] ts = []"
| "assignLines (l # ls) ts =
     (if wl_quantity l \<le> 0 then \<lparr>pl_key = wl_key l, pl_lineSubtotal = 0, pl_lineDiscount = 0, pl_lineTotal = 0\<rparr> # assignLines ls ts
      else case ts of
             t # ts' \<Rightarrow> \<lparr>pl_key = wl_key l, pl_lineSubtotal = lt_lineSubtotal t, pl_lineDiscount = lt_lineDiscount t, pl_lineTotal = lt_lineTotal t\<rparr> # assignLines ls ts'
           | [] \<Rightarrow> [])"

definition priceWorkingOrder :: "WLine list \<Rightarrow> WAdjustment list \<Rightarrow> PricingInputs \<Rightarrow> OrderTotals \<times> PricedLine list" where
  "priceWorkingOrder lines adjustments p =
     (let active = filter (\<lambda>l. 0 < wl_quantity l) lines; totals = calculateOrderTotals (totalsInputOf active adjustments p)
      in (totals, assignLines lines (ot_lines totals)))"

section \<open>Differences\<close>

record LineSnap =
  ls_id :: "string option"
  ls_sku :: string
  ls_name :: string
  ls_unitPrice :: int
  ls_quantity :: int
  ls_lineTotal :: int
  ls_fulfilledQty :: int
  ls_refundedQty :: int

datatype LineChange = UnchangedLine | AddedLine | RemovedLine | QuantityChanged | SwappedLine | RepricedLine

record LineDiff =
  df_lineId :: "string option"
  df_sku :: string
  df_name :: string
  df_change :: LineChange
  df_beforeQty :: int
  df_afterQty :: int
  df_beforeTotal :: int
  df_afterTotal :: int
  df_fromSku :: "string option"

text \<open>\<open>new Map(before.map(l => [l.id, l]))\<close>: the last row of an id counts; an empty id is not looked up.\<close>

definition snapById :: "LineSnap list \<Rightarrow> string option \<Rightarrow> LineSnap option" where
  "snapById before i = (case i of Some k \<Rightarrow> if k = [] then None else find (\<lambda>l. ls_id l = Some k) (rev before) | None \<Rightarrow> None)"

definition lineTotalOf :: "PricedLine list \<Rightarrow> string \<Rightarrow> int res" where
  "lineTotalOf perLine key = (case find (\<lambda>x. pl_key x = key) perLine of Some t \<Rightarrow> Inr (pl_lineTotal t) | None \<Rightarrow> Inl (Err ''undefined line''))"

definition diffLine :: "LineSnap list \<Rightarrow> PricedLine list \<Rightarrow> WLine \<Rightarrow> LineDiff res" where
  "diffLine before perLine l =
     bindE (lineTotalOf perLine (wl_key l)) (\<lambda>t. case snapById before (wl_id l) of
       None \<Rightarrow> Inr \<lparr>df_lineId = None, df_sku = wl_sku l, df_name = wl_name l, df_change = AddedLine, df_beforeQty = 0, df_afterQty = wl_quantity l,
                    df_beforeTotal = 0, df_afterTotal = t, df_fromSku = None\<rparr>
     | Some b \<Rightarrow>
         (let change = (if (case wl_original l of Some orig \<Rightarrow> wl_sku l \<noteq> ol_sku orig | None \<Rightarrow> False) then SwappedLine
                        else if wl_quantity l = 0 \<and> 0 < ls_quantity b then RemovedLine
                        else if wl_quantity l \<noteq> ls_quantity b then QuantityChanged
                        else if t \<noteq> ls_lineTotal b then RepricedLine else UnchangedLine)
          in Inr \<lparr>df_lineId = wl_id l, df_sku = wl_sku l, df_name = wl_name l, df_change = change, df_beforeQty = ls_quantity b, df_afterQty = wl_quantity l,
                  df_beforeTotal = ls_lineTotal b, df_afterTotal = t, df_fromSku = (if change = SwappedLine then Some (ls_sku b) else None)\<rparr>))"

definition diffLines :: "LineSnap list \<Rightarrow> WLine list \<Rightarrow> PricedLine list \<Rightarrow> LineDiff list res" where
  "diffLines before working perLine = mapE (diffLine before perLine) working"

record RemovedUnit =
  ru_orderLineId :: string
  ru_sku :: string
  ru_quantity :: int
  ru_amount :: int

fun removedUnits :: "LineSnap list \<Rightarrow> WLine list \<Rightarrow> PricedLine list \<Rightarrow> RemovedUnit list res" where
  "removedUnits before [] perLine = Inr []"
| "removedUnits before (l # ls) perLine = (case snapById before (wl_id l) of
       None \<Rightarrow> removedUnits before ls perLine
     | Some b \<Rightarrow>
         if ls_quantity b \<le> wl_quantity l then removedUnits before ls perLine
         else bindE (lineTotalOf perLine (wl_key l)) (\<lambda>after.
              bindE (removedUnits before ls perLine) (\<lambda>out.
                Inr (\<lparr>ru_orderLineId = orElse (ls_id b) [], ru_sku = ls_sku b, ru_quantity = ls_quantity b - wl_quantity l,
                      ru_amount = max 0 (ls_lineTotal b - after)\<rparr> # out))))"

record EditRefundLine =
  er_orderLineId :: string
  er_quantity :: int
  er_amount :: int

primrec drawLines :: "RemovedUnit list \<Rightarrow> int \<Rightarrow> EditRefundLine list" where
  "drawLines [] left = []"
| "drawLines (u # us) left =
     (let amount = min (ru_amount u) left
      in \<lparr>er_orderLineId = ru_orderLineId u, er_quantity = ru_quantity u, er_amount = amount\<rparr> # drawLines us (left - amount))"

definition allocateEditRefundLines :: "RemovedUnit list \<Rightarrow> int \<Rightarrow> EditRefundLine list \<times> int" where
  "allocateEditRefundLines units refundAmount =
     (let lines = drawLines (filter (\<lambda>u. 0 < ru_quantity u) (sort_key (collationKey \<circ> ru_orderLineId) units)) (max 0 refundAmount)
      in (lines, foldl (\<lambda>n l. n + er_amount l) 0 lines))"

section \<open>Settlement\<close>

definition settlementType :: "Settlement \<Rightarrow> string" where
  "settlementType st = (case st of RefundNow _ \<Rightarrow> ''refund_now'' | LeaveCredit \<Rightarrow> ''leave_credit'' | SendPayLink \<Rightarrow> ''send_pay_link''
     | RecordPayment _ _ _ \<Rightarrow> ''record_payment'' | LeaveDue \<Rightarrow> ''leave_due'')"

definition allowedSettlements :: "int \<Rightarrow> string list" where
  "allowedSettlements balance =
     (if balance < 0 then [''refund_now'', ''leave_credit'']
      else if 0 < balance then [''send_pay_link'', ''record_payment'', ''leave_due''] else [])"

definition validateSettlement :: "int \<Rightarrow> Settlement option \<Rightarrow> Settlement option res" where
  "validateSettlement balance settlement =
     (if balance = 0 then Inr None
      else case settlement of
        None \<Rightarrow> Inl (Coded ''SETTLEMENT_REQUIRED'' (''choose how to settle the '' @ (if 0 < balance then ''amount due'' else ''credit'')))
      | Some st \<Rightarrow>
          if settlementType st \<notin> set (allowedSettlements balance)
          then Inl (Coded ''SETTLEMENT_INVALID'' (settlementType st @ '' is not valid when the balance is '' @ (if 0 < balance then ''due'' else ''a credit'')))
          else (case st of
            RecordPayment _ _ (Some amount) \<Rightarrow>
              if balance < amount then Inl (Coded ''SETTLEMENT_INVALID'' ''recorded payment exceeds the amount due'') else Inr (Some st)
          | _ \<Rightarrow> Inr (Some st)))"

record RefundablePayment =
  rp_id :: string
  rp_method :: string
  rp_amount :: int
  rp_available :: int

text \<open>Messages are ASCII; the dash of the last one is written as a hyphen.\<close>

datatype RefundFeasibility = Feasible string | Infeasible string

definition refundFeasibility :: "OrderState \<Rightarrow> RefundablePayment list \<Rightarrow> int \<Rightarrow> string option \<Rightarrow> RefundFeasibility" where
  "refundFeasibility state refundable amount paymentId =
     (if state \<noteq> Paid \<and> state \<noteq> PartiallyRefunded then Infeasible ''only a paid order can be refunded; leave the credit instead''
      else let selected = (case paymentId of Some i \<Rightarrow> i \<noteq> [] | None \<Rightarrow> False);
               pool = (if selected then filter (\<lambda>p. Some (rp_id p) = paymentId) refundable else refundable)
           in case pool of
                [] \<Rightarrow> Infeasible (if selected then ''the selected payment has nothing left to refund'' else ''no refundable payment on this order'')
              | p # rest \<Rightarrow>
                  if \<not> selected \<and> rest \<noteq> [] then Infeasible ''select which payment to refund''
                  else if rp_available p < amount then Infeasible ''the refund exceeds what is left on that payment''
                  else if amount = rp_available p then Infeasible ''this would refund the whole payment - cancel or refund the order instead''
                  else Feasible (rp_id p))"

section \<open>Stored lines and stock\<close>

record StoredLine = StoredLineQuantities +
  sl_id :: string
  sl_variantId :: "string option"
  sl_sku :: string
  sl_name :: string
  sl_unitPrice :: int
  sl_fulfilledQty :: int
  sl_refundedQty :: int
  sl_lineSubtotal :: int
  sl_lineDiscount :: int
  sl_lineTax :: int
  sl_lineTotal :: int

record StockRow =
  sk_variantId :: string
  sk_onHand :: int
  sk_allocated :: int

text \<open>The working copy of the billed view of the stored lines.\<close>

definition workingLine :: "StoredLine \<Rightarrow> WLine" where
  "workingLine l =
     \<lparr>wl_key = sl_id l, wl_id = Some (sl_id l), wl_variantId = sl_variantId l, wl_sku = sl_sku l, wl_name = sl_name l, wl_unitPrice = sl_unitPrice l,
      wl_quantity = sq_quantity l, wl_fulfilledQty = sl_fulfilledQty l, wl_refundedQty = sl_refundedQty l, wl_cancelledQty = sq_cancelledQty l,
      wl_editRemovedQty = Some (sq_editRemovedQty l),
      wl_original = Some \<lparr>ol_variantId = sl_variantId l, ol_sku = sl_sku l, ol_name = sl_name l, ol_unitPrice = sl_unitPrice l, ol_quantity = sq_quantity l\<rparr>,
      wl_customPrice = False\<rparr>"

definition initialWorking :: "StoredLine list \<Rightarrow> WAdjustment list \<Rightarrow> string list \<Rightarrow> WorkingOrder" where
  "initialWorking rawLines adjustments codes =
     \<lparr>wo_lines = map (\<lambda>l. workingLine (billedLine l)) rawLines, wo_adjustments = adjustments, wo_couponCodes = codes, wo_promotion = KeepPromotion,
      wo_shipping = KeepShipping, wo_shippingAddress = None, wo_billingAddress = None, wo_saveToAddressBook = False\<rparr>"

definition physical :: "(string \<Rightarrow> VariantFacts option) \<Rightarrow> string \<Rightarrow> bool" where
  "physical variantsById i = (case variantsById i of Some v \<Rightarrow> \<not> vf_isPreOrder v \<and> vf_fulfillmentType v = ''physical'' | None \<Rightarrow> False)"

fun bumpAt :: "string \<Rightarrow> int \<Rightarrow> (string \<times> int) list \<Rightarrow> (string \<times> int) list" where
  "bumpAt i n [] = [(i, n)]"
| "bumpAt i n ((k, d) # m) = (if k = i then (k, d + n) # m else (k, d) # bumpAt i n m)"

definition bump :: "(string \<Rightarrow> VariantFacts option) \<Rightarrow> string option \<times> int \<Rightarrow> (string \<times> int) list \<Rightarrow> (string \<times> int) list" where
  "bump variantsById vn m = (case vn of (Some i, n) \<Rightarrow> if i = [] \<or> n = 0 \<or> \<not> physical variantsById i then m else bumpAt i n m | _ \<Rightarrow> m)"

definition stockDeltas :: "(string \<Rightarrow> VariantFacts option) \<Rightarrow> StoredLine list \<Rightarrow> WLine list \<Rightarrow> (string \<times> int) list" where
  "stockDeltas variantsById dbLines working =
     filter (\<lambda>(_, d). d \<noteq> 0)
       (fold (bump variantsById) (map (\<lambda>l. (wl_variantId l, openQty (wl_quantity l) (wl_fulfilledQty l) (wl_cancelledQty l))) working)
         (fold (bump variantsById) (map (\<lambda>l. (sl_variantId l, - openQty (sq_quantity l) (sl_fulfilledQty l) (sq_cancelledQty l))) dbLines) []))"

definition deltasAvailable :: "(string \<Rightarrow> VariantFacts option) \<Rightarrow> (string \<times> int) list \<Rightarrow> unit res" where
  "deltasAvailable variantsById deltas = foldE (\<lambda>(i, d) _. case variantsById i of
       Some v \<Rightarrow> checkE (0 < d \<and> (\<not> vf_enabled v \<or> vf_deletedAt v \<noteq> None)) (Coded ''VARIANT_UNAVAILABLE'' (''variant is not available: '' @ vf_sku v))
     | None \<Rightarrow> Inl (Err ''undefined variant'')) deltas ()"

record StockCheck =
  sc_sku :: string
  sc_name :: string
  sc_variantId :: string
  sc_delta :: int
  sc_available :: "int option"
  sc_ok :: bool

definition stockChecks :: "(string \<Rightarrow> VariantFacts option) \<Rightarrow> StockRow list \<Rightarrow> (string \<times> int) list \<Rightarrow> StockCheck list" where
  "stockChecks variantsById stock deltas = List.map_filter (\<lambda>(i, delta). map_option (\<lambda>v.
     let avail = (if 0 < delta then map_option (\<lambda>r. sk_onHand r - sk_allocated r) (find (\<lambda>r. sk_variantId r = i) stock) else None)
     in \<lparr>sc_sku = vf_sku v, sc_name = vf_name v, sc_variantId = i, sc_delta = delta, sc_available = avail,
         sc_ok = (delta \<le> 0 \<or> (case avail of Some a \<Rightarrow> delta \<le> a | None \<Rightarrow> False))\<rparr>) (variantsById i)) deltas"

section \<open>Stock reservation\<close>

definition validateReservableItems :: "(string \<times> int) list \<Rightarrow> (string \<Rightarrow> VariantFacts option) \<Rightarrow> string list" where
  "validateReservableItems items bySku = concat (map (\<lambda>(sku, _). case bySku sku of Some v \<Rightarrow> if vf_enabled v then [] else [sku] | None \<Rightarrow> [sku]) items)"

text \<open>The conditional \<open>UPDATE\<close>: the new table and the number of rows it changed.\<close>

definition reserves :: "string \<Rightarrow> int \<Rightarrow> StockRow \<Rightarrow> bool" where
  "reserves i n r \<longleftrightarrow> sk_variantId r = i \<and> n \<le> sk_onHand r - sk_allocated r"

definition allocateStock :: "string \<Rightarrow> int \<Rightarrow> StockRow list \<Rightarrow> StockRow list \<times> nat" where
  "allocateStock i n stock = (map (\<lambda>r. if reserves i n r then r\<lparr>sk_allocated := sk_allocated r + n\<rparr> else r) stock, length (filter (reserves i n) stock))"

record Reservable =
  rv_index :: nat
  rv_variantId :: string
  rv_quantity :: int

definition reservables :: "(string \<times> int) list \<Rightarrow> (string \<Rightarrow> VariantFacts option) \<Rightarrow> Reservable list" where
  "reservables items bySku = sort_key (\<lambda>r. toLowerCase (rv_variantId r)) (concat (map (\<lambda>(k, sku, n). case bySku sku of
       Some v \<Rightarrow> if vf_enabled v \<and> \<not> vf_isPreOrder v \<and> vf_fulfillmentType v = ''physical'' then [\<lparr>rv_index = k, rv_variantId = vf_id v, rv_quantity = n\<rparr>] else []
     | None \<Rightarrow> []) (zip [0..<length items] items)))"

definition reserveStep :: "Reservable \<Rightarrow> StockRow list \<times> nat list \<Rightarrow> StockRow list \<times> nat list" where
  "reserveStep r st = (case st of (stock, failedAt) \<Rightarrow>
     (let (stock', n) = allocateStock (rv_variantId r) (rv_quantity r) stock in (stock', if n \<noteq> 1 then failedAt @ [rv_index r] else failedAt)))"

definition joinSkus :: "string list \<Rightarrow> string" where
  "joinSkus skus = (case skus of [] \<Rightarrow> [] | s # ss \<Rightarrow> foldl (\<lambda>acc x. acc @ '', '' @ x) s ss)"

definition reserveStockOrThrow :: "(string \<times> int) list \<Rightarrow> (string \<Rightarrow> VariantFacts option) \<Rightarrow> StockRow list \<Rightarrow> (bool \<times> StockRow list) res" where
  "reserveStockOrThrow items bySku stock =
     (let rs = reservables items bySku; (stock', failedAt) = fold reserveStep rs (stock, [])
      in if failedAt \<noteq> [] then Inl (Coded ''StockReservationError'' (''unavailable or out of stock: '' @ joinSkus (map (\<lambda>k. fst (items ! k)) (sort failedAt))))
         else Inr (rs \<noteq> [], stock'))"

section \<open>Commit\<close>

text \<open>Deltas in order: a negative one frees stock at once, a positive one is collected for the reservation,
  with the variant of its SKU.\<close>

definition releaseStock :: "string \<Rightarrow> int \<Rightarrow> StockRow list \<Rightarrow> StockRow list" where
  "releaseStock i n stock = map (\<lambda>r. if sk_variantId r = i then r\<lparr>sk_allocated := max (sk_allocated r - n) 0\<rparr> else r) stock"

definition commitStock :: "(string \<Rightarrow> VariantFacts option) \<Rightarrow> (string \<times> int) list \<Rightarrow> StockRow list \<Rightarrow> StockRow list res" where
  "commitStock variantsById deltas stock =
     (let freed = fold (\<lambda>(i, d) st. if d < 0 then releaseStock i (- d) st else st) deltas stock;
          growing = List.map_filter (\<lambda>(i, d). if d < 0 then None else map_option (\<lambda>v. (v, d)) (variantsById i)) deltas
      in if growing = [] then Inr freed
         else case reserveStockOrThrow (map (\<lambda>(v, d). (vf_sku v, d)) growing) (map_of (rev (map (\<lambda>(v, _). (vf_sku v, v)) growing))) freed of
                Inl _ \<Rightarrow> Inl (Coded ''OUT_OF_STOCK'' ''insufficient stock for the added quantity'')
              | Inr (_, stock') \<Rightarrow> Inr stock')"

definition pricedFor :: "PricedLine list \<Rightarrow> string \<Rightarrow> PricedLine res" where
  "pricedFor perLine key = (case find (\<lambda>x. pl_key x = key) perLine of Some t \<Rightarrow> Inr t | None \<Rightarrow> Inl (Err ''undefined line''))"

definition insertedLine :: "string \<Rightarrow> WLine \<Rightarrow> PricedLine \<Rightarrow> int \<Rightarrow> StoredLine" where
  "insertedLine i l p lineTax =
     \<lparr>sq_quantity = wl_quantity l, sq_cancelledQty = 0, sq_editRemovedQty = 0, sl_id = i, sl_variantId = wl_variantId l, sl_sku = wl_sku l, sl_name = wl_name l,
      sl_unitPrice = wl_unitPrice l, sl_fulfilledQty = 0, sl_refundedQty = 0, sl_lineSubtotal = pl_lineSubtotal p, sl_lineDiscount = pl_lineDiscount p,
      sl_lineTax = lineTax, sl_lineTotal = pl_lineTotal p\<rparr>"

definition lineUnchanged :: "StoredLine \<Rightarrow> WLine \<Rightarrow> PricedLine \<Rightarrow> int \<Rightarrow> bool" where
  "lineUnchanged cur l p lineTax \<longleftrightarrow> billedQty cur = wl_quantity l \<and> sl_unitPrice cur = wl_unitPrice l \<and> sl_variantId cur = wl_variantId l
     \<and> sl_lineSubtotal cur = pl_lineSubtotal p \<and> sl_lineDiscount cur = pl_lineDiscount p \<and> sl_lineTotal cur = pl_lineTotal p \<and> sl_lineTax cur = lineTax"

definition updatedLine :: "StoredLine \<Rightarrow> WLine \<Rightarrow> PricedLine \<Rightarrow> int \<Rightarrow> StoredLine" where
  "updatedLine cur l p lineTax =
     (if lineUnchanged cur l p lineTax then cur
      else let qty = reconcileLineQuantities cur (wl_quantity l)
           in cur\<lparr>sq_quantity := sq_quantity qty, sq_cancelledQty := sq_cancelledQty qty, sq_editRemovedQty := sq_editRemovedQty qty, sl_unitPrice := wl_unitPrice l,
                  sl_variantId := wl_variantId l, sl_sku := wl_sku l, sl_name := wl_name l, sl_lineSubtotal := pl_lineSubtotal p, sl_lineDiscount := pl_lineDiscount p,
                  sl_lineTax := lineTax, sl_lineTotal := pl_lineTotal p\<rparr>)"

text \<open>One working line is written: \<open>newId\<close> is the id drawn for a new row, \<open>lineTax\<close> the tax the pricing
  stack gives the line; a second row of an id breaks the primary key.\<close>

definition commitLine :: "(string \<Rightarrow> string) \<Rightarrow> (string \<Rightarrow> int) \<Rightarrow> PricedLine list \<Rightarrow> WLine \<Rightarrow> StoredLine list \<Rightarrow> StoredLine list res" where
  "commitLine newId lineTax perLine l rows =
     bindE (pricedFor perLine (wl_key l)) (\<lambda>p. case wl_id l of
       None \<Rightarrow>
         if list_ex (\<lambda>r. sl_id r = newId (wl_key l)) rows then Inl (Err ''unique constraint violated'')
         else Inr (rows @ [insertedLine (newId (wl_key l)) l p (lineTax (wl_key l))])
     | Some i \<Rightarrow>
         (case find (\<lambda>r. sl_id r = i) rows of
            None \<Rightarrow> Inl (Err ''undefined row'')
          | Some cur \<Rightarrow> Inr (map (\<lambda>r. if sl_id r = i then updatedLine cur l p (lineTax (wl_key l)) else r) rows)))"

definition commitLines :: "(string \<Rightarrow> string) \<Rightarrow> (string \<Rightarrow> int) \<Rightarrow> PricedLine list \<Rightarrow> WLine list \<Rightarrow> StoredLine list \<Rightarrow> StoredLine list res" where
  "commitLines newId lineTax perLine working rows = foldE (commitLine newId lineTax perLine) working rows"

text \<open>Lines and stock of one committed edit of an order that redeemed no account credit: the working copy,
  its price (\<open>price\<close>, the pricing stage, which may refuse), the stock plan, the stock writes, the line
  writes. An error rolls everything back.\<close>

definition commitEdit :: "(string \<Rightarrow> string) \<Rightarrow> (string \<Rightarrow> int) \<Rightarrow> (WorkingOrder \<Rightarrow> PricedLine list res) \<Rightarrow> (string \<Rightarrow> VariantFacts option) \<Rightarrow> EditLookups
    \<Rightarrow> WAdjustment list \<Rightarrow> string list \<Rightarrow> EditOp list \<Rightarrow> StoredLine list \<times> StockRow list \<Rightarrow> (StoredLine list \<times> StockRow list) res" where
  "commitEdit newId lineTax price variantsById lookups adjustments codes ops db = (case db of (rows, stock) \<Rightarrow>
     bindE (applyEditOps (initialWorking rows adjustments codes) ops lookups) (\<lambda>w.
     bindE (price w) (\<lambda>perLine.
     let deltas = stockDeltas variantsById (map billedLine rows) (wo_lines w)
     in bindE (deltasAvailable variantsById deltas) (\<lambda>_.
        bindE (commitStock variantsById deltas stock) (\<lambda>stock'.
        bindE (commitLines newId lineTax perLine (wo_lines w) rows) (\<lambda>rows'. Inr (rows', stock')))))))"

end
