(* ===== verification/OrderLaws.thy ===== *)
theory OrderLaws
  imports OrderCommit
begin

text \<open>
  What an order edit keeps: shipped and cancelled units, the identity of the stored lines, the
  quantity columns, the agreement of the stock allocation with the open units; and what it charges,
  refunds and settles.
\<close>

section \<open>Quantity columns\<close>

definition quantitiesOk :: "int \<Rightarrow> 'a StoredLineQuantities_scheme \<Rightarrow> bool" where
  "quantitiesOk fulfilled l \<longleftrightarrow> 0 \<le> fulfilled \<and> 0 \<le> sq_editRemovedQty l \<and> sq_editRemovedQty l \<le> sq_cancelledQty l \<and> fulfilled + sq_cancelledQty l \<le> sq_quantity l"

lemma reconcile_facts:
  assumes "quantitiesOk fulfilled l" and "fulfilled + (sq_cancelledQty l - sq_editRemovedQty l) \<le> b"
  defines "l' \<equiv> reconcileLineQuantities l b"
  shows "quantitiesOk fulfilled l'" "billedQty l' = b" "sq_quantity l \<le> sq_quantity l'" "sq_cancelledQty l' - sq_editRemovedQty l' = sq_cancelledQty l - sq_editRemovedQty l"
    "sq_quantity l' - fulfilled - sq_cancelledQty l' = b - fulfilled - (sq_cancelledQty l - sq_editRemovedQty l)"
  using assms(1,2) unfolding l'_def by (auto simp: quantitiesOk_def reconcileLineQuantities_def billedQty_def Let_def)

text \<open>C37: the quantity columns after an edit. For a consistent row and any new billed quantity that keeps
  the shipped and refund-cancelled units, the row stays consistent, its billed view is exactly the
  requested quantity, the ordered quantity never falls, refund-cancelled units are never revived,
  the units still to ship are the billed units not shipped or cancelled, and setting the billed
  quantity back restores the columns of a row that was lowered.\<close>

theorem reconcile_quantities:
  assumes "quantitiesOk fulfilled l" and "fulfilled + (sq_cancelledQty l - sq_editRemovedQty l) \<le> b"
  defines "l' \<equiv> reconcileLineQuantities l b"
  shows "quantitiesOk fulfilled l' \<and> billedQty l' = b \<and> sq_quantity l \<le> sq_quantity l'
    \<and> sq_cancelledQty l' - sq_editRemovedQty l' = sq_cancelledQty l - sq_editRemovedQty l
    \<and> sq_quantity l' - fulfilled - sq_cancelledQty l' = b - fulfilled - (sq_cancelledQty l - sq_editRemovedQty l)
    \<and> sq_removed l' - sq_restored l' - sq_added l' = billedQty l - b
    \<and> (b \<le> billedQty l \<longrightarrow> StoredLineQuantities.truncate (reconcileLineQuantities l' (billedQty l)) = StoredLineQuantities.truncate l)"
  using reconcile_facts[OF assms(1,2)] assms(1,2) unfolding l'_def
  by (auto simp: quantitiesOk_def reconcileLineQuantities_def billedQty_def Let_def StoredLineQuantities.defs)

theorem reconcile_quantities_witness:
  "let l = \<lparr>sq_quantity = 5, sq_cancelledQty = 2, sq_editRemovedQty = 1\<rparr>; l' = reconcileLineQuantities l 7
   in quantitiesOk 2 l' \<and> sq_quantity l' = 7 \<and> sq_editRemovedQty l' = 0 \<and> sq_cancelledQty l' = 1"
  using reconcile_quantities[of 2 "\<lparr>sq_quantity = 5, sq_cancelledQty = 2, sq_editRemovedQty = 1\<rparr>" 7]
  by (simp add: quantitiesOk_def reconcileLineQuantities_def Let_def)

section \<open>Staged operations\<close>

definition keepsLine :: "WLine \<Rightarrow> WLine \<Rightarrow> bool" where
  "keepsLine l0 l \<longleftrightarrow> wl_key l = wl_key l0 \<and> wl_id l = wl_id l0 \<and> wl_id l0 \<noteq> None \<and> wl_fulfilledQty l = wl_fulfilledQty l0 \<and> wl_refundedQty l = wl_refundedQty l0
     \<and> wl_cancelledQty l = wl_cancelledQty l0 \<and> wl_editRemovedQty l = wl_editRemovedQty l0 \<and> wl_original l = wl_original l0
     \<and> lockedQty l \<le> wl_quantity l \<and> (wl_variantId l = wl_variantId l0 \<or> lockedQty l = 0 \<and> orElse (wl_editRemovedQty l) 0 = 0)"

definition freshLine :: "WLine \<Rightarrow> bool" where
  "freshLine l \<longleftrightarrow> wl_id l = None \<and> wl_original l = None \<and> wl_fulfilledQty l = 0 \<and> wl_refundedQty l = 0 \<and> wl_cancelledQty l = 0 \<and> 1 \<le> wl_quantity l"

definition editedLines :: "WLine list \<Rightarrow> WLine list \<Rightarrow> bool" where
  "editedLines initial ls \<longleftrightarrow> (\<exists>olds news. ls = olds @ news \<and> list_all2 keepsLine initial olds \<and> list_all freshLine news)"

lemma updFirst_append: "find P xs \<noteq> None \<Longrightarrow> updFirst P f (xs @ ys) = updFirst P f xs @ ys"
  by (induction xs) auto

lemma updFirst_rel:
  assumes "list_all2 R xs ys" "find P ys = Some l" "\<And>x. R x l \<Longrightarrow> R x (f l)"
  shows "list_all2 R xs (updFirst P f ys)"
  using assms by (induction rule: list_all2_induct) (auto split: if_splits)

lemma find_append_None: "find P ys = None \<Longrightarrow> find P (xs @ ys) = find P xs"
  by (induction xs) auto

lemma fresh_no_id: "list_all freshLine news \<Longrightarrow> find (\<lambda>l. wl_id l = Some i) news = None"
  by (induction news) (auto simp: freshLine_def)

text \<open>Changing the line an operation names keeps the shape of the working order.\<close>

lemma updWLine_edited:
  assumes "editedLines initial (wo_lines w)" "lineByKey w i = Inr l" "\<And>l0. keepsLine l0 l \<Longrightarrow> keepsLine l0 (f l)"
  shows "editedLines initial (wo_lines (updWLine i f w))"
proof -
  obtain olds news where on: "wo_lines w = olds @ news" "list_all2 keepsLine initial olds" "list_all freshLine news" using assms(1) by (auto simp: editedLines_def)
  then have "find (\<lambda>l. wl_id l = Some i) olds = Some l"
    using assms(2) fresh_no_id[OF on(3)] by (auto simp: lineByKey_def find_append_None split: option.splits)
  then have "wo_lines (updWLine i f w) = updFirst (\<lambda>l. wl_id l = Some i) f olds @ news" "list_all2 keepsLine initial (updFirst (\<lambda>l. wl_id l = Some i) f olds)"
    using on(1) updFirst_rel[where R = keepsLine and f = f, OF on(2)] assms(3) by (auto simp: updWLine_def updFirst_append)
  then show ?thesis using on(3) unfolding editedLines_def by blast
qed

lemma lineByKey_keeps:
  assumes "editedLines initial (wo_lines w)" "lineByKey w i = Inr l"
  shows "\<exists>l0\<in>set initial. keepsLine l0 l"
proof -
  obtain olds news where on: "wo_lines w = olds @ news" "list_all2 keepsLine initial olds" "list_all freshLine news" using assms(1) by (auto simp: editedLines_def)
  then have "find (\<lambda>l. wl_id l = Some i) olds = Some l"
    using assms(2) fresh_no_id[OF on(3)] by (auto simp: lineByKey_def find_append_None split: option.splits)
  then have "l \<in> set olds" by (rule find_Some_in_set[THEN conjunct1])
  then show ?thesis using on(2) by (metis in_set_conv_nth list_all2_conv_all_nth)
qed

lemma addLine_edited: "editedLines initial ls \<Longrightarrow> freshLine l \<Longrightarrow> editedLines initial (ls @ [l])"
proof -
  assume "editedLines initial ls" "freshLine l"
  then obtain olds news where "ls = olds @ news" "list_all2 keepsLine initial olds" "list_all freshLine news" "freshLine l" by (auto simp: editedLines_def)
  then show ?thesis unfolding editedLines_def by (intro exI[of _ olds] exI[of _ "news @ [l]"]) simp
qed

lemma freshLine_new: "1 \<le> q \<Longrightarrow> freshLine (newLine n v price q c)"
  by (simp add: freshLine_def newLine_def)

lemma swapVariant_cases:
  assumes "swapVariant lookups i sku q (w, seq) = Inr (w', seq')" "lineByKey w i = Inr l" "requireVariant lookups sku = Inr v"
  defines "movable \<equiv> wl_quantity l - lockedQty l"
  defines "moved \<equiv> orElse q movable"
  shows "0 < movable \<and> moved \<le> movable \<and> (w' = w
    \<or> (\<exists>price. lockedQty l = 0 \<and> orElse (wl_editRemovedQty l) 0 = 0 \<and> w' = updWLine i (\<lambda>x. x\<lparr>wl_variantId := Some (vf_id v), wl_sku := vf_sku v, wl_name := vf_name v, wl_unitPrice := price\<rparr>) w)
    \<or> (\<exists>w1 price. w1 = updWLine i (\<lambda>x. x\<lparr>wl_quantity := wl_quantity x - moved\<rparr>) w \<and> w' = w1\<lparr>wo_lines := wo_lines w1 @ [newLine (Suc seq) v price moved False]\<rparr>))"
proof -
  have s: "swapVariant lookups i sku q (w, seq) =
    (if movable \<le> 0 then Inl (Coded ''LINE_LOCKED'' (wl_sku l @ '': every unit is already shipped or refunded''))
        else if movable < moved then Inl (Coded ''LINE_LOCKED'' (wl_sku l @ '': only '' @ showInt movable @ '' unit(s) can be swapped''))
        else if Some (vf_id v) = wl_variantId l \<and> moved = movable then Inr (w, seq)
        else if lockedQty l = 0 \<and> orElse (wl_editRemovedQty l) 0 = 0 \<and> moved = wl_quantity l
        then Inr (updWLine i (\<lambda>x. x\<lparr>wl_variantId := Some (vf_id v), wl_sku := vf_sku v, wl_name := vf_name v, wl_unitPrice := el_unitPriceFor lookups v\<rparr>) w, seq)
        else Inr ((updWLine i (\<lambda>x. x\<lparr>wl_quantity := wl_quantity x - moved\<rparr>) w)\<lparr>wo_lines := wo_lines (updWLine i (\<lambda>x. x\<lparr>wl_quantity := wl_quantity x - moved\<rparr>) w)
               @ [newLine (Suc seq) v (el_unitPriceFor lookups v) moved False]\<rparr>, Suc seq))"
    unfolding swapVariant_def prod.case assms(2,3) bindE_simps Let_def movable_def[symmetric] moved_def[symmetric] ..
  show ?thesis
  proof (cases "0 < movable \<and> moved \<le> movable")
    case True
    then have m: "\<not> movable \<le> 0" "\<not> movable < moved" by auto
    consider (same) "Some (vf_id v) = wl_variantId l \<and> moved = movable"
      | (point) "\<not> (Some (vf_id v) = wl_variantId l \<and> moved = movable)" "lockedQty l = 0 \<and> orElse (wl_editRemovedQty l) 0 = 0 \<and> moved = wl_quantity l"
      | (split) "\<not> (Some (vf_id v) = wl_variantId l \<and> moved = movable)" "\<not> (lockedQty l = 0 \<and> orElse (wl_editRemovedQty l) 0 = 0 \<and> moved = wl_quantity l)" by blast
    then show ?thesis
    proof cases
      case same
      then have "w' = w" using assms(1) unfolding s if_not_P[OF m(1)] if_not_P[OF m(2)] if_P[OF same] by simp
      then show ?thesis using True by blast
    next
      case point
      then show ?thesis using True assms(1) unfolding s if_not_P[OF m(1)] if_not_P[OF m(2)] if_not_P[OF point(1)] if_P[OF point(2)] sum.inject prod.inject by blast
    next
      case split
      then show ?thesis using True assms(1) unfolding s if_not_P[OF m(1)] if_not_P[OF m(2)] if_not_P[OF split(1)] if_not_P[OF split(2)] sum.inject prod.inject by blast
    qed
  qed (use assms(1) in \<open>simp add: s split: if_splits\<close>)
qed

lemma swapVariant_edited:
  assumes "swapVariant lookups i sku q (w, seq) = Inr (w', seq')" "editedLines initial (wo_lines w)" "case q of None \<Rightarrow> True | Some n \<Rightarrow> 1 \<le> n"
  shows "editedLines initial (wo_lines w')"
proof -
  obtain l v where l: "lineByKey w i = Inr l" and v: "requireVariant lookups sku = Inr v" using assms(1) by (auto simp: swapVariant_def)
  define movable where "movable = wl_quantity l - lockedQty l"
  define moved where "moved = orElse q movable"
  have m: "0 < movable" "moved \<le> movable" using swapVariant_cases[OF assms(1) l v] unfolding movable_def[symmetric] moved_def[symmetric] by auto
  have pos: "1 \<le> moved" using assms(3) m by (auto simp: moved_def orElse_def split: option.splits)
  consider (same) "w' = w"
    | (point) price where "lockedQty l = 0" "orElse (wl_editRemovedQty l) 0 = 0" "w' = updWLine i (\<lambda>x. x\<lparr>wl_variantId := Some (vf_id v), wl_sku := vf_sku v, wl_name := vf_name v, wl_unitPrice := price\<rparr>) w"
    | (split) w1 price where "w1 = updWLine i (\<lambda>x. x\<lparr>wl_quantity := wl_quantity x - moved\<rparr>) w" "w' = w1\<lparr>wo_lines := wo_lines w1 @ [newLine (Suc seq) v price moved False]\<rparr>"
    using swapVariant_cases[OF assms(1) l v] unfolding movable_def[symmetric] moved_def[symmetric] by blast
  then show ?thesis
  proof cases
    case point
    have "keepsLine l0 l \<Longrightarrow> keepsLine l0 (l\<lparr>wl_variantId := Some (vf_id v), wl_sku := vf_sku v, wl_name := vf_name v, wl_unitPrice := price\<rparr>)" for l0
      using point by (simp add: keepsLine_def lockedQty_def)
    then show ?thesis unfolding point(3) by (rule updWLine_edited[OF assms(2) l])
  next
    case split
    have "editedLines initial (wo_lines w1)" unfolding split(1) using m
      by (intro updWLine_edited[OF assms(2) l]) (auto simp: keepsLine_def lockedQty_def movable_def)
    then show ?thesis using pos by (simp add: split(2) addLine_edited freshLine_new)
  qed (use assms(2) in simp)
qed

lemma applyEditOp_edited:
  assumes "applyEditOp lookups op (w, seq) = Inr (w', seq')" "editedLines initial (wo_lines w)" "editOpOk uuid op"
  shows "editedLines initial (wo_lines w')"
proof (cases op)
  case (SetQuantity i q)
  then obtain l where l: "lineByKey w i = Inr l" and q: "lockedQty l \<le> q" and w': "w' = updWLine i (\<lambda>x. x\<lparr>wl_quantity := q\<rparr>) w"
    using assms(1) by (auto simp: applyEditOp_def split: if_splits)
  have "keepsLine l0 l \<Longrightarrow> keepsLine l0 (l\<lparr>wl_quantity := q\<rparr>)" for l0 using q by (auto simp: keepsLine_def lockedQty_def)
  then show ?thesis unfolding w' by (rule updWLine_edited[OF assms(2) l])
next
  case (RemoveLine i)
  then obtain l where l: "lineByKey w i = Inr l" and w': "w' = updWLine i (\<lambda>x. x\<lparr>wl_quantity := lockedQty x\<rparr>) w"
    using assms(1) by (auto simp: applyEditOp_def)
  have "keepsLine l0 l \<Longrightarrow> keepsLine l0 (l\<lparr>wl_quantity := lockedQty l\<rparr>)" for l0 by (auto simp: keepsLine_def lockedQty_def)
  then show ?thesis unfolding w' by (rule updWLine_edited[OF assms(2) l])
next
  case (SwapVariant i sku q)
  have "case q of None \<Rightarrow> True | Some n \<Rightarrow> 1 \<le> n" using assms(3) unfolding SwapVariant editOpOk_def by (cases q) simp_all
  then show ?thesis by (rule swapVariant_edited[OF _ assms(2), rotated]) (use assms(1,3) SwapVariant in \<open>simp add: applyEditOp_def\<close>)
next
  case (AddItem sku q price)
  then obtain v n p c where "wo_lines w' = wo_lines w @ [newLine n v p q c]" "1 \<le> q" using assms(1,3) by (auto simp: applyEditOp_def editOpOk_def)
  then show ?thesis using addLine_edited[OF assms(2) freshLine_new] by simp
next
  case (SetAddress k a s)
  then show ?thesis using assms by (auto simp: applyEditOp_def Let_def split: AddressKind.splits)
qed (use assms in \<open>auto simp: applyEditOp_def split: if_splits option.splits\<close>)

lemma applyEditOps_edited:
  assumes "applyEditOps initial ops lookups = Inr w" "list_all (editOpOk uuid) ops" "list_all (\<lambda>l. wl_id l \<noteq> None \<and> lockedQty l \<le> wl_quantity l) (wo_lines initial)"
  shows "editedLines (wo_lines initial) (wo_lines w)"
proof -
  obtain codes seq where f: "foldE (applyEditOp lookups) ops (initial\<lparr>wo_couponCodes := codes\<rparr>, 0) = Inr (w, seq)"
    using assms(1) by (auto simp: applyEditOps_def)
  have "list_all2 keepsLine (wo_lines initial) (wo_lines initial)"
    using assms(3) by (auto simp: keepsLine_def list_all_iff intro!: list.rel_refl_strong)
  then have "editedLines (wo_lines initial) (wo_lines (initial\<lparr>wo_couponCodes := codes\<rparr>))"
    unfolding editedLines_def by (intro exI[of _ "wo_lines initial"] exI[of _ "[]"]) simp
  then have "editedLines (wo_lines initial) (wo_lines (fst (w, seq)))"
    using assms(2) foldE_invariant[where P = "\<lambda>st. editedLines (wo_lines initial) (wo_lines (fst st))", OF f]
      applyEditOp_edited by (fastforce simp: list_all_iff)
  then show ?thesis by simp
qed

text \<open>C29: staging operations never touches what is final. Whatever operations of the schema are applied to an
  order, each line of the order is still there at its place with its id and its shipped, refunded and
  cancelled units, its billed quantity is never below the shipped and cancelled units, its variant
  changes only when no unit is locked or was removed before, and every added line is new with a
  positive quantity.\<close>

theorem edit_keeps_locked_units:
  assumes "applyEditOps initial ops lookups = Inr w" and "list_all (editOpOk uuid) ops"
    and "list_all (\<lambda>l. wl_id l \<noteq> None \<and> lockedQty l \<le> wl_quantity l) (wo_lines initial)"
  shows "(\<forall>i < length (wo_lines initial). let l0 = wo_lines initial ! i; l = wo_lines w ! i
        in wl_id l = wl_id l0 \<and> wl_fulfilledQty l = wl_fulfilledQty l0 \<and> wl_refundedQty l = wl_refundedQty l0 \<and> wl_cancelledQty l = wl_cancelledQty l0
         \<and> lockedQty l0 \<le> wl_quantity l \<and> (wl_variantId l \<noteq> wl_variantId l0 \<longrightarrow> lockedQty l0 = 0 \<and> orElse (wl_editRemovedQty l0) 0 = 0))
    \<and> length (wo_lines initial) \<le> length (wo_lines w)
    \<and> list_all (\<lambda>l. wl_id l = None \<and> 1 \<le> wl_quantity l \<and> lockedQty l = 0) (drop (length (wo_lines initial)) (wo_lines w))"
proof -
  obtain olds news where on: "wo_lines w = olds @ news" "list_all2 keepsLine (wo_lines initial) olds" "list_all freshLine news"
    using applyEditOps_edited[OF assms] by (auto simp: editedLines_def)
  have len: "length olds = length (wo_lines initial)" using on(2) by (simp add: list_all2_lengthD)
  have "keepsLine (wo_lines initial ! i) (wo_lines w ! i)" if "i < length (wo_lines initial)" for i
    using on(1,2) len that by (simp add: list_all2_nthD nth_append)
  moreover have "list_all (\<lambda>l. wl_id l = None \<and> 1 \<le> wl_quantity l \<and> lockedQty l = 0) news"
    using on(3) by (auto simp: list_all_iff freshLine_def lockedQty_def)
  ultimately show ?thesis using on(1) len unfolding keepsLine_def Let_def lockedQty_def by fastforce
qed

section \<open>Example\<close>

definition demoVariant :: VariantFacts where
  "demoVariant = \<lparr>vf_id = ''v'', vf_sku = ''S'', vf_name = ''Cap'', vf_price = 500, vf_salePrice = None, vf_isPreOrder = False, vf_preOrderPrice = None,
     vf_fulfillmentType = ''physical'', vf_enabled = True, vf_productId = ''p'', vf_deletedAt = None, vf_appKey = None, vf_stripePriceId = None\<rparr>"

definition demoVariants :: "string \<Rightarrow> VariantFacts option" where
  "demoVariants i = (if i = ''v'' then Some demoVariant else None)"

definition demoWLine :: WLine where
  "demoWLine = \<lparr>wl_key = ''a'', wl_id = Some ''a'', wl_variantId = Some ''v'', wl_sku = ''S'', wl_name = ''Cap'', wl_unitPrice = 500, wl_quantity = 5, wl_fulfilledQty = 2,
     wl_refundedQty = 0, wl_cancelledQty = 1, wl_editRemovedQty = Some 0, wl_original = None, wl_customPrice = False\<rparr>"

definition demoWorking :: WorkingOrder where
  "demoWorking = \<lparr>wo_lines = [demoWLine], wo_adjustments = [], wo_couponCodes = [], wo_promotion = KeepPromotion, wo_shipping = KeepShipping,
     wo_shippingAddress = None, wo_billingAddress = None, wo_saveToAddressBook = False\<rparr>"

definition demoLookups :: EditLookups where
  "demoLookups = \<lparr>el_variantsBySku = (\<lambda>_. None), el_promosByCode = [], el_methodsByCode = (\<lambda>_. None), el_unitPriceFor = vf_price\<rparr>"

theorem edit_keeps_locked_units_witness:
  "\<exists>w. applyEditOps demoWorking [RemoveLine ''a'', RemoveShipping] demoLookups = Inr w \<and> lockedQty (hd (wo_lines demoWorking)) \<le> wl_quantity (wo_lines w ! 0) \<and> wl_quantity (wo_lines w ! 0) = 3"
proof -
  define w where "w = demoWorking\<lparr>wo_lines := [demoWLine\<lparr>wl_quantity := 3\<rparr>], wo_shipping := NoShipping\<rparr>"
  have "applyEditOps demoWorking [RemoveLine ''a'', RemoveShipping] demoLookups = Inr w"
    by (simp add: w_def applyEditOps_def canonicalCouponCodes_def applyEditOp_def lineByKey_def updWLine_def demoWorking_def demoWLine_def lockedQty_def del: bindE_Inr_iff)
  moreover from edit_keeps_locked_units[OF this, of "\<lambda>_. True"]
  have "lockedQty (wo_lines demoWorking ! 0) \<le> wl_quantity (wo_lines w ! 0)"
    by (simp add: editOpOk_def demoWorking_def demoWLine_def lockedQty_def Let_def)
  ultimately show ?thesis by (auto simp: w_def demoWorking_def demoWLine_def)
qed

end
