(* ===== verification/StockLaws.thy ===== *)
theory StockLaws
  imports OrderLaws
begin

text \<open>
  The stock side of an order edit: what a commit writes to the lines and to the stock table, and that
  the allocated stock keeps agreeing with the units still to ship.
\<close>

section \<open>The stock plan\<close>

definition variantUnits :: "string \<Rightarrow> (string option \<times> int) list \<Rightarrow> int" where
  "variantUnits i xs = sum_list (map (\<lambda>(v, n). if v = Some i then n else 0) xs)"

lemma variantUnits_simps [simp]: "variantUnits i [] = 0" "variantUnits i ((v, n) # xs) = (if v = Some i then n else 0) + variantUnits i xs" "variantUnits i (xs @ ys) = variantUnits i xs + variantUnits i ys"
  by (simp_all add: variantUnits_def)

lemma bumpAt_map: "map_of (bumpAt i n m) k = (if k = i then Some (orElse (map_of m i) 0 + n) else map_of m k)"
  by (induction i n m rule: bumpAt.induct) (auto simp: orElse_def)

lemma bumpAt_keys: "set (map fst (bumpAt i n m)) = insert i (set (map fst m))"
  by (induction i n m rule: bumpAt.induct) auto

lemma bumpAt_distinct: "distinct (map fst m) \<Longrightarrow> distinct (map fst (bumpAt i n m))"
proof (induction i n m rule: bumpAt.induct)
  case (2 i n k d m)
  then show ?case using bumpAt_keys[of i n m] by (cases "k = i") auto
qed simp

definition planOk :: "(string \<Rightarrow> VariantFacts option) \<Rightarrow> (string \<times> int) list \<Rightarrow> bool" where
  "planOk V m \<longleftrightarrow> distinct (map fst m) \<and> (\<forall>i\<in>set (map fst m). physical V i \<and> i \<noteq> [])"

lemma bump_step:
  assumes "planOk V m"
  shows "planOk V (bump V vn m)" "orElse (map_of (bump V vn m) i) 0 = orElse (map_of m i) 0 + (if physical V i \<and> i \<noteq> [] then variantUnits i [vn] else 0)"
proof -
  obtain v n where vn: "vn = (v, n)" by force
  show "planOk V (bump V vn m)" using assms bumpAt_keys[of _ n m] by (auto simp: vn bump_def planOk_def bumpAt_distinct simp del: set_map split: option.splits)
  show "orElse (map_of (bump V vn m) i) 0 = orElse (map_of m i) 0 + (if physical V i \<and> i \<noteq> [] then variantUnits i [vn] else 0)"
    by (auto simp: vn bump_def bumpAt_map orElse_def split: option.splits)
qed

lemma bump_fold:
  assumes "planOk V m"
  shows "planOk V (fold (bump V) xs m) \<and> orElse (map_of (fold (bump V) xs m) i) 0 = orElse (map_of m i) 0 + (if physical V i \<and> i \<noteq> [] then variantUnits i xs else 0)"
  using assms
proof (induction xs arbitrary: m)
  case (Cons x xs)
  have "variantUnits i (x # xs) = variantUnits i [x] + variantUnits i xs" by (cases x) simp
  then show ?case using Cons.IH[OF bump_step(1)[OF Cons.prems]] bump_step(2)[OF Cons.prems] by simp
qed simp

definition openOfStored :: "StoredLine list \<Rightarrow> (string option \<times> int) list" where
  "openOfStored rows = map (\<lambda>l. (sl_variantId l, openQty (sq_quantity l) (sl_fulfilledQty l) (sq_cancelledQty l))) rows"

definition openOfWorking :: "WLine list \<Rightarrow> (string option \<times> int) list" where
  "openOfWorking ls = map (\<lambda>l. (wl_variantId l, openQty (wl_quantity l) (wl_fulfilledQty l) (wl_cancelledQty l))) ls"

lemma variantUnits_negated: "variantUnits i (map (\<lambda>l. (f l, - g l)) xs) = - variantUnits i (map (\<lambda>l. (f l, g l)) xs)"
  by (induction xs) auto

lemma map_of_nonzero: "distinct (map fst m) \<Longrightarrow> orElse (map_of (filter (\<lambda>(_, d). d \<noteq> 0) m) i) 0 = orElse (map_of m i) (0 :: int)"
proof (induction m)
  case (Cons x m)
  obtain k d where x: "x = (k, d)" by force
  have "map_of m k = None" "map_of (filter (\<lambda>(_, d). d \<noteq> 0) m) k = None" using Cons.prems by (auto simp: x map_of_eq_None_iff)
  then show ?case using Cons by (cases "i = k") (auto simp: x orElse_def)
qed simp

text \<open>The plan changes the allocation of each physical variant by exactly the change of its open units.\<close>

lemma stockDeltas_facts:
  "planOk V (stockDeltas V db ls)"
  "orElse (map_of (stockDeltas V db ls) i) 0 = (if physical V i \<and> i \<noteq> [] then variantUnits i (openOfWorking ls) - variantUnits i (openOfStored db) else 0)"
proof -
  let ?base = "fold (bump V) (map (\<lambda>l. (sl_variantId l, - openQty (sq_quantity l) (sl_fulfilledQty l) (sq_cancelledQty l))) db) []"
  let ?m = "fold (bump V) (openOfWorking ls) ?base"
  have m: "stockDeltas V db ls = filter (\<lambda>(_, d). d \<noteq> 0) ?m" by (simp add: stockDeltas_def openOfWorking_def)
  have nil: "planOk V []" by (simp add: planOk_def)
  have p0: "planOk V ?base" using bump_fold[OF nil] by blast
  have "orElse (map_of ?base i) 0 = orElse (map_of [] i) 0 + (if physical V i \<and> i \<noteq> [] then - variantUnits i (openOfStored db) else 0)"
    using bump_fold[OF nil, THEN conjunct2] unfolding openOfStored_def variantUnits_negated[symmetric] by blast
  moreover have bm: "orElse (map_of ?m i) 0 = orElse (map_of ?base i) 0 + (if physical V i \<and> i \<noteq> [] then variantUnits i (openOfWorking ls) else 0)"
    using bump_fold[OF p0] by blast
  ultimately have val: "orElse (map_of ?m i) 0 = (if physical V i \<and> i \<noteq> [] then variantUnits i (openOfWorking ls) - variantUnits i (openOfStored db) else 0)"
    by (simp add: orElse_def[of None])
  have pm: "planOk V ?m" using bump_fold[OF p0] by blast
  then show "planOk V (stockDeltas V db ls)" unfolding m planOk_def by (auto simp: distinct_map_filter)
  show "orElse (map_of (stockDeltas V db ls) i) 0 = (if physical V i \<and> i \<noteq> [] then variantUnits i (openOfWorking ls) - variantUnits i (openOfStored db) else 0)"
    unfolding m map_of_nonzero[OF pm[unfolded planOk_def, THEN conjunct1]] val ..
qed

section \<open>Stock writes\<close>

definition stockOk :: "StockRow list \<Rightarrow> bool" where
  "stockOk stock \<longleftrightarrow> distinct (map sk_variantId stock)"

lemma release_fold:
  assumes "distinct (map fst deltas)"
  shows "fold (\<lambda>(i, d) st. if d < 0 then releaseStock i (- d) st else st) deltas stock
    = map (\<lambda>r. let d = orElse (map_of deltas (sk_variantId r)) 0 in if d < 0 then r\<lparr>sk_allocated := max (sk_allocated r + d) 0\<rparr> else r) stock"
  using assms
proof (induction deltas arbitrary: stock)
  case (Cons x deltas)
  obtain i d where x: "x = (i, d)" by force
  have none: "map_of deltas i = None" using Cons.prems by (simp add: x map_of_eq_None_iff)
  show ?case
    using Cons.prems none by (auto simp: x Cons.IH releaseStock_def comp_def orElse_def Let_def)
qed (simp add: orElse_def)

lemma allocate_one:
  assumes "allocateStock i n stock = (stock', 1)" "stockOk stock"
  shows "stock' = map (\<lambda>r. if sk_variantId r = i then r\<lparr>sk_allocated := sk_allocated r + n\<rparr> else r) stock"
    and "\<forall>r\<in>set stock. sk_variantId r = i \<longrightarrow> sk_allocated r + n \<le> sk_onHand r" and "i \<in> set (map sk_variantId stock)"
proof -
  have len: "length (filter (reserves i n) stock) = 1" and st: "stock' = map (\<lambda>r. if reserves i n r then r\<lparr>sk_allocated := sk_allocated r + n\<rparr> else r) stock"
    using assms(1) by (auto simp: allocateStock_def)
  then obtain r where r: "r \<in> set stock" "reserves i n r" by (metis One_nat_def filter_empty_conv list.size(3) zero_neq_one)
  have uniq: "x = r" if "x \<in> set stock" "sk_variantId x = i" for x
    using assms(2) r that by (auto simp: stockOk_def reserves_def distinct_map inj_on_def)
  then have eq: "reserves i n x \<longleftrightarrow> sk_variantId x = i" if "x \<in> set stock" for x using r(2) that by (auto simp: reserves_def)
  show "stock' = map (\<lambda>r. if sk_variantId r = i then r\<lparr>sk_allocated := sk_allocated r + n\<rparr> else r) stock" unfolding st using eq by (auto intro: map_cong)
  show "\<forall>r\<in>set stock. sk_variantId r = i \<longrightarrow> sk_allocated r + n \<le> sk_onHand r" using uniq r(2) by (fastforce simp: reserves_def)
  show "i \<in> set (map sk_variantId stock)" using r by (auto simp: reserves_def)
qed

definition wantedOf :: "Reservable list \<Rightarrow> string \<Rightarrow> int" where
  "wantedOf rs i = sum_list (map (\<lambda>r. if rv_variantId r = i then rv_quantity r else 0) rs)"

lemma reserve_Cons:
  "allocateStock (rv_variantId r) (rv_quantity r) stock = (st, n) \<Longrightarrow>
   fold reserveStep (r # rs) (stock, failed) = fold reserveStep rs (st, if n = 1 then failed else failed @ [rv_index r])"
  by (simp add: reserveStep_def[of r])

lemma reserve_failed: "snd (fold reserveStep rs (stock, failed)) = [] \<Longrightarrow> failed = []"
proof (induction rs arbitrary: stock failed)
  case (Cons r rs)
  obtain st n where a: "allocateStock (rv_variantId r) (rv_quantity r) stock = (st, n)" by force
  have "(if n = 1 then failed else failed @ [rv_index r]) = []" using Cons.prems unfolding reserve_Cons[OF a] by (rule Cons.IH)
  then show ?case by (auto split: if_splits)
qed simp

text \<open>A reservation in which every update hit its row added what was asked, within what is on hand.\<close>

lemma reserve_fold:
  assumes "fold reserveStep rs (stock, []) = (stock', [])" "stockOk stock" "list_all (\<lambda>r. 0 \<le> sk_onHand r - sk_allocated r) stock"
  shows "stock' = map (\<lambda>r. r\<lparr>sk_allocated := sk_allocated r + wantedOf rs (sk_variantId r)\<rparr>) stock \<and> list_all (\<lambda>r. 0 \<le> sk_onHand r - sk_allocated r) stock'"
  using assms
proof (induction rs arbitrary: stock)
  case (Cons r rs)
  obtain st n where a: "allocateStock (rv_variantId r) (rv_quantity r) stock = (st, n)" by force
  note step = Cons.prems(1)[unfolded reserve_Cons[OF a]]
  have "(if n = 1 then [] else [] @ [rv_index r]) = []" by (rule reserve_failed[OF arg_cong[OF step, of snd, unfolded snd_conv]])
  then have "n = 1" by (auto split: if_splits)
  then have f: "fold reserveStep rs (st, []) = (stock', [])" using step by simp
  note one = allocate_one[OF a[unfolded \<open>n = 1\<close>] Cons.prems(2)]
  have "stockOk st" using Cons.prems(2) by (auto simp: one(1) stockOk_def comp_def if_distrib cong: if_cong)
  moreover have "list_all (\<lambda>r. 0 \<le> sk_onHand r - sk_allocated r) st" using Cons.prems(3) one(2) by (auto simp: one(1) list_all_iff)
  ultimately have "stock' = map (\<lambda>r. r\<lparr>sk_allocated := sk_allocated r + wantedOf rs (sk_variantId r)\<rparr>) st" "list_all (\<lambda>r. 0 \<le> sk_onHand r - sk_allocated r) stock'"
    using Cons.IH[OF f] by auto
  then show ?case by (auto simp: one(1) wantedOf_def)
qed (simp add: wantedOf_def)

section \<open>The stock of a commit\<close>

definition variantsOk :: "(string \<Rightarrow> VariantFacts option) \<Rightarrow> bool" where
  "variantsOk V \<longleftrightarrow> (\<forall>i v. V i = Some v \<longrightarrow> vf_id v = i \<and> i \<noteq> []) \<and> (\<forall>i j v u. V i = Some v \<longrightarrow> V j = Some u \<longrightarrow> vf_sku v = vf_sku u \<longrightarrow> i = j)"

definition growingOf :: "(string \<Rightarrow> VariantFacts option) \<Rightarrow> (string \<times> int) list \<Rightarrow> (VariantFacts \<times> int) list" where
  "growingOf V deltas = List.map_filter (\<lambda>(i, d). if d < 0 then None else map_option (\<lambda>v. (v, d)) (V i)) deltas"

lemma growingOf_mem: "(v, d) \<in> set (growingOf V deltas) \<longleftrightarrow> (\<exists>i. (i, d) \<in> set deltas \<and> 0 \<le> d \<and> V i = Some v)"
  by (induction deltas) (auto simp: growingOf_def List.map_filter_simps split: option.splits if_splits)

lemma growingOf_skus:
  assumes "variantsOk V" "distinct (map fst deltas)"
  shows "distinct (map (\<lambda>(v, _). vf_sku v) (growingOf V deltas))"
  using assms(2)
proof (induction deltas)
  case (Cons x deltas)
  obtain i d where x: "x = (i, d)" by force
  show ?case
  proof (cases "d < 0 \<or> V i = None")
    case False
    then obtain v where v: "V i = Some v" "0 \<le> d" by auto
    have "vf_sku v \<noteq> vf_sku u" if mem: "(u, e) \<in> set (growingOf V deltas)" for u e
    proof -
      obtain j where "(j, e) \<in> set deltas" "V j = Some u" using mem by (auto simp: growingOf_mem)
      then show ?thesis using Cons.prems v assms(1) by (auto simp: x variantsOk_def) (metis fst_conv image_eqI)
    qed
    then show ?thesis using Cons v by (auto simp: x growingOf_def List.map_filter_simps)
  qed (use Cons in \<open>auto simp: x growingOf_def List.map_filter_simps\<close>)
qed (simp add: growingOf_def List.map_filter_simps)

lemma growingOf_wanted:
  assumes "variantsOk V" "planOk V deltas"
  shows "sum_list (map (\<lambda>(v, d). if vf_id v = i then d else 0) (growingOf V deltas)) = (if V i = None then 0 else max 0 (orElse (map_of deltas i) 0))"
  using assms(2)
proof (induction deltas)
  case (Cons x deltas)
  obtain k d where x: "x = (k, d)" by force
  obtain v where v: "V k = Some v" "vf_id v = k" using Cons.prems assms(1) by (auto simp: x planOk_def physical_def variantsOk_def split: option.splits)
  have "planOk V deltas" "map_of deltas k = None" using Cons.prems by (auto simp: x planOk_def map_of_eq_None_iff)
  then show ?case using Cons.IH v by (auto simp: x growingOf_def List.map_filter_simps orElse_def split: option.splits)
qed (simp add: growingOf_def List.map_filter_simps orElse_def)

text \<open>With distinct SKUs every collected item is reserved for its own variant.\<close>

lemma reservables_wanted:
  assumes "distinct (map (\<lambda>(v, _). vf_sku v) gs)" "\<forall>(v, d)\<in>set gs. vf_enabled v \<and> \<not> vf_isPreOrder v \<and> vf_fulfillmentType v = ''physical''"
  defines "bySku \<equiv> map_of (rev (map (\<lambda>(v, _). (vf_sku v, v)) gs))"
  shows "wantedOf (reservables (map (\<lambda>(v, d). (vf_sku v, d)) gs) bySku) i = sum_list (map (\<lambda>(v, d). if vf_id v = i then d else 0) gs)"
proof -
  have bs: "bySku (vf_sku v) = Some v" if "(v, d) \<in> set gs" for v d
  proof -
    have "distinct (map fst (rev (map (\<lambda>(v, _). (vf_sku v, v)) gs)))" using assms(1) by (simp add: comp_def split_def flip: rev_map)
    then show ?thesis using that unfolding bySku_def by (intro map_of_is_SomeI) force+
  qed
  have one: "(case bySku (vf_sku v) of Some v \<Rightarrow> if vf_enabled v \<and> \<not> vf_isPreOrder v \<and> vf_fulfillmentType v = ''physical''
       then [\<lparr>rv_index = k, rv_variantId = vf_id v, rv_quantity = n\<rparr>] else [] | None \<Rightarrow> []) = [\<lparr>rv_index = k, rv_variantId = vf_id v, rv_quantity = n\<rparr>]"
    if "(v, n) \<in> set gs" for v n k using bs[OF that] assms(2) that by auto
  have "sum_list (map (\<lambda>r. if rv_variantId r = i then rv_quantity r else 0) (concat (map (\<lambda>(k, sku, n). case bySku sku of
       Some v \<Rightarrow> if vf_enabled v \<and> \<not> vf_isPreOrder v \<and> vf_fulfillmentType v = ''physical'' then [\<lparr>rv_index = k, rv_variantId = vf_id v, rv_quantity = n\<rparr>] else []
     | None \<Rightarrow> []) (zip ks (map (\<lambda>(v, d). (vf_sku v, d)) hs))))) = sum_list (map (\<lambda>(v, d). if vf_id v = i then d else 0) hs)"
    if "set hs \<subseteq> set gs" "length ks = length hs" for hs ks
    using that
  proof (induction hs arbitrary: ks)
    case (Cons h hs)
    obtain v n where h: "h = (v, n)" by force
    obtain k ks' where ks: "ks = k # ks'" using Cons.prems(2) by (cases ks) auto
    show ?case using Cons.IH[of ks'] Cons.prems one[of v n k] by (simp add: h ks)
  qed simp
  then show ?thesis unfolding wantedOf_def reservables_def sum_list_sort_key by simp
qed

lemma deltasAvailable_enabled:
  assumes "deltasAvailable V deltas = Inr u" "(i, d) \<in> set deltas" "0 < d" "V i = Some v"
  shows "vf_enabled v"
  using assms(1,2) unfolding deltasAvailable_def
proof (induction deltas)
  case (Cons x deltas)
  then show ?case using assms(3,4) by (cases x) (auto split: option.splits)
qed simp

definition withinHand :: "StockRow list \<Rightarrow> bool" where
  "withinHand stock \<longleftrightarrow> list_all (\<lambda>r. 0 \<le> sk_onHand r - sk_allocated r) stock"

text \<open>A commit that passes changes every allocation by exactly the planned difference.\<close>

lemma commitStock_facts:
  assumes c: "commitStock V deltas stock = Inr stock'" and V: "variantsOk V" and p: "planOk V deltas" and nz: "\<forall>(i, d)\<in>set deltas. d \<noteq> 0"
    and av: "deltasAvailable V deltas = Inr u" and ok: "stockOk stock" "withinHand stock"
    and clip: "\<And>r. r \<in> set stock \<Longrightarrow> orElse (map_of deltas (sk_variantId r)) 0 < 0 \<Longrightarrow> 0 \<le> sk_allocated r + orElse (map_of deltas (sk_variantId r)) 0"
  shows "stock' = map (\<lambda>r. r\<lparr>sk_allocated := sk_allocated r + orElse (map_of deltas (sk_variantId r)) 0\<rparr>) stock \<and> withinHand stock'"
proof -
  let ?d = "\<lambda>r :: StockRow. orElse (map_of deltas (sk_variantId r)) 0" and ?gs = "growingOf V deltas"
  define freed where "freed = fold (\<lambda>(i, d) st. if d < 0 then releaseStock i (- d) st else st) deltas stock"
  have freed: "freed = map (\<lambda>r. r\<lparr>sk_allocated := sk_allocated r + min 0 (?d r)\<rparr>) stock"
    unfolding freed_def release_fold[OF p[unfolded planOk_def, THEN conjunct1]] using clip by (auto simp: Let_def)
  have ok': "stockOk freed" "withinHand freed" using ok by (auto simp: freed stockOk_def withinHand_def comp_def list_all_iff)
  have none: "V i = None \<Longrightarrow> map_of deltas i = None" for i using p by (auto simp: planOk_def physical_def map_of_eq_None_iff)
  have total: "sum_list (map (\<lambda>(v, d). if vf_id v = i then d else 0) ?gs) = max 0 (orElse (map_of deltas i) 0)" for i
    using growingOf_wanted[OF V p, of i] none[of i] by (simp add: orElse_def)
  have final: ?thesis if st: "stock' = map (\<lambda>r. r\<lparr>sk_allocated := sk_allocated r + max 0 (?d r)\<rparr>) freed" "withinHand stock'"
    using st by (auto simp: freed comp_def)
  show ?thesis
  proof (cases "?gs = []")
    case True
    then have "max 0 (?d r) = 0" for r using total[of "sk_variantId r"] by simp
    moreover have "stock' = freed" using c True unfolding commitStock_def freed_def[symmetric] growingOf_def[symmetric] by simp
    ultimately show ?thesis using ok' by (intro final) simp_all
  next
    case False
    let ?rs = "reservables (map (\<lambda>(v, d). (vf_sku v, d)) ?gs) (map_of (rev (map (\<lambda>(v, _). (vf_sku v, v)) ?gs)))"
    have f: "fold reserveStep ?rs (freed, []) = (stock', [])"
      using c False unfolding commitStock_def freed_def[symmetric] growingOf_def[symmetric]
      by (auto simp: reserveStockOrThrow_def Let_def split: sum.splits prod.splits if_splits)
    have "vf_enabled v \<and> \<not> vf_isPreOrder v \<and> vf_fulfillmentType v = ''physical''" if g: "(v, d) \<in> set ?gs" for v d
    proof -
      obtain i where i: "(i, d) \<in> set deltas" "0 \<le> d" "V i = Some v" using g by (auto simp: growingOf_mem)
      then have "0 < d" "physical V i" using nz p by (force simp: planOk_def)+
      then show ?thesis using deltasAvailable_enabled[OF av i(1) _ i(3)] i(3) by (simp add: physical_def)
    qed
    then have all: "\<forall>(v, d)\<in>set ?gs. vf_enabled v \<and> \<not> vf_isPreOrder v \<and> vf_fulfillmentType v = ''physical''" by blast
    have "wantedOf ?rs i = max 0 (orElse (map_of deltas i) 0)" for i
      unfolding reservables_wanted[OF growingOf_skus[OF V p[unfolded planOk_def, THEN conjunct1]] all] by (rule total)
    then have "stock' = map (\<lambda>r. r\<lparr>sk_allocated := sk_allocated r + max 0 (?d r)\<rparr>) freed" "withinHand stock'"
      using reserve_fold[OF f ok'(1) ok'(2)[unfolded withinHand_def]] unfolding withinHand_def by auto
    then show ?thesis by (rule final)
  qed
qed

section \<open>Line writes\<close>

definition rowOk :: "StoredLine \<Rightarrow> bool" where
  "rowOk r \<longleftrightarrow> quantitiesOk (sl_fulfilledQty r) r"

definition openUnits :: "StoredLine list \<Rightarrow> string \<Rightarrow> int" where
  "openUnits rows i = sum_list (map (\<lambda>r. if sl_variantId r = Some i then sq_quantity r - sl_fulfilledQty r - sq_cancelledQty r else 0) rows)"

abbreviation fits :: "StoredLine \<Rightarrow> WLine \<Rightarrow> bool" where
  "fits r \<equiv> keepsLine (workingLine (billedLine r))"

lemma working_sel:
  "wl_id (workingLine (billedLine r)) = Some (sl_id r)" "wl_fulfilledQty (workingLine (billedLine r)) = sl_fulfilledQty r"
  "wl_cancelledQty (workingLine (billedLine r)) = sq_cancelledQty r - sq_editRemovedQty r"
  "wl_quantity (workingLine (billedLine r)) = sq_quantity r - sq_editRemovedQty r" "wl_variantId (workingLine (billedLine r)) = sl_variantId r"
  by (simp_all add: workingLine_def billedLine_def)

lemma updated_facts:
  assumes "rowOk r" "fits r l"
  shows "rowOk (updatedLine r l p t)" "sl_id (updatedLine r l p t) = sl_id r" "sl_variantId (updatedLine r l p t) = wl_variantId l"
    "sq_quantity (updatedLine r l p t) - sl_fulfilledQty (updatedLine r l p t) - sq_cancelledQty (updatedLine r l p t)
      = openQty (wl_quantity l) (wl_fulfilledQty l) (wl_cancelledQty l)"
proof -
  have l: "wl_fulfilledQty l = sl_fulfilledQty r" "wl_cancelledQty l = sq_cancelledQty r - sq_editRemovedQty r" "sl_fulfilledQty r + (sq_cancelledQty r - sq_editRemovedQty r) \<le> wl_quantity l"
    using assms(2) by (auto simp: keepsLine_def working_sel lockedQty_def)
  note q = reconcile_facts[OF assms(1)[unfolded rowOk_def] l(3)]
  show "sl_id (updatedLine r l p t) = sl_id r" by (simp add: updatedLine_def Let_def)
  show "sl_variantId (updatedLine r l p t) = wl_variantId l" by (simp add: updatedLine_def lineUnchanged_def Let_def)
  show "rowOk (updatedLine r l p t)" using q assms(1) by (simp add: updatedLine_def rowOk_def quantitiesOk_def Let_def)
  show "sq_quantity (updatedLine r l p t) - sl_fulfilledQty (updatedLine r l p t) - sq_cancelledQty (updatedLine r l p t)
      = openQty (wl_quantity l) (wl_fulfilledQty l) (wl_cancelledQty l)"
    using q l by (auto simp: updatedLine_def lineUnchanged_def billedQty_def openQty_def Let_def)
qed

lemma commit_existing:
  assumes "list_all2 fits rows olds" "foldE (commitLine newId tax perLine) olds (before @ rows) = Inr rows'" "distinct (map sl_id (before @ rows))" "list_all rowOk rows"
  shows "\<exists>out. rows' = before @ out \<and> map sl_id out = map sl_id rows \<and> list_all rowOk out \<and> openUnits out i = variantUnits i (openOfWorking olds)"
  using assms
proof (induction arbitrary: before rule: list_all2_induct)
  case (Cons r rows l olds)
  obtain p where p: "foldE (commitLine newId tax perLine) olds (before @ updatedLine r l p (tax (wl_key l)) # rows) = Inr rows'"
  proof -
    have id: "wl_id l = Some (sl_id r)" using Cons.hyps(1) by (simp add: keepsLine_def working_sel)
    have find: "find (\<lambda>x. sl_id x = sl_id r) (before @ r # rows) = Some r" using Cons.prems(2) by (induction before) auto
    have "map (\<lambda>x. if sl_id x = sl_id r then y else x) (before @ r # rows) = before @ y # rows" for y
    proof -
      have "\<forall>x\<in>set before \<union> set rows. sl_id x \<noteq> sl_id r" using Cons.prems(2) by (auto simp: image_iff)
      then show ?thesis by (simp add: map_idI)
    qed
    moreover obtain mid where "commitLine newId tax perLine l (before @ r # rows) = Inr mid" "foldE (commitLine newId tax perLine) olds mid = Inr rows'" using Cons.prems(1) by auto
    ultimately show thesis using that by (auto simp: commitLine_def[of _ _ _ l] id find)
  qed
  let ?r = "updatedLine r l p (tax (wl_key l))"
  have ok: "rowOk r" "list_all rowOk rows" using Cons.prems(3) by auto
  note u = updated_facts[OF ok(1) Cons.hyps(1), of p "tax (wl_key l)"]
  obtain out where "rows' = (before @ [?r]) @ out" "map sl_id out = map sl_id rows" "list_all rowOk out" "openUnits out i = variantUnits i (openOfWorking olds)"
    using Cons.IH[of "before @ [?r]"] p Cons.prems(2) ok(2) u(2) by auto
  then show ?case using u by (intro exI[of _ "?r # out"]) (simp add: openUnits_def openOfWorking_def)
qed (simp add: openUnits_def openOfWorking_def)

lemma commit_new:
  assumes "foldE (commitLine newId tax perLine) news rows = Inr rows'" "list_all freshLine news" "distinct (map sl_id rows)"
  shows "\<exists>out. rows' = rows @ out \<and> distinct (map sl_id rows') \<and> list_all rowOk out \<and> openUnits out i = variantUnits i (openOfWorking news)"
  using assms
proof (induction news arbitrary: rows)
  case (Cons l news)
  have fresh: "freshLine l" "list_all freshLine news" using Cons.prems(2) by auto
  obtain mid where "commitLine newId tax perLine l rows = Inr mid" "foldE (commitLine newId tax perLine) news mid = Inr rows'" using Cons.prems(1) by auto
  with fresh(1) obtain p where p: "foldE (commitLine newId tax perLine) news (rows @ [insertedLine (newId (wl_key l)) l p (tax (wl_key l))]) = Inr rows'"
    and id: "\<forall>r\<in>set rows. sl_id r \<noteq> newId (wl_key l)"
    by (auto simp: commitLine_def[of _ _ _ l] freshLine_def list_ex_iff split: if_splits)
  let ?r = "insertedLine (newId (wl_key l)) l p (tax (wl_key l))"
  have r: "rowOk ?r" "sl_variantId ?r = wl_variantId l" "sq_quantity ?r - sl_fulfilledQty ?r - sq_cancelledQty ?r = openQty (wl_quantity l) (wl_fulfilledQty l) (wl_cancelledQty l)" "sl_id ?r = newId (wl_key l)"
    using fresh(1) by (auto simp: insertedLine_def rowOk_def quantitiesOk_def freshLine_def openQty_def)
  have "distinct (map sl_id (rows @ [?r]))" using Cons.prems(3) id r(4) by (auto simp: image_iff)
  then obtain out where "rows' = (rows @ [?r]) @ out" "distinct (map sl_id rows')" "list_all rowOk out" "openUnits out i = variantUnits i (openOfWorking news)"
    using Cons.IH[OF p fresh(2)] by blast
  then show ?case using r by (intro exI[of _ "?r # out"]) (simp add: openUnits_def openOfWorking_def)
qed (simp add: openUnits_def openOfWorking_def)

lemma openUnits_append: "openUnits (xs @ ys) i = openUnits xs i + openUnits ys i"
  by (simp add: openUnits_def)

lemma openUnits_nonneg: "list_all rowOk rows \<Longrightarrow> 0 \<le> openUnits rows i"
  by (induction rows) (auto simp: openUnits_def rowOk_def quantitiesOk_def)

lemma commitLines_facts:
  assumes "commitLines newId tax perLine ls rows = Inr rows'" "editedLines (map (\<lambda>r. workingLine (billedLine r)) rows) ls" "distinct (map sl_id rows)" "list_all rowOk rows"
  shows "distinct (map sl_id rows') \<and> list_all rowOk rows' \<and> take (length rows) (map sl_id rows') = map sl_id rows \<and> openUnits rows' i = variantUnits i (openOfWorking ls)"
proof -
  obtain olds news where on: "ls = olds @ news" "list_all2 fits rows olds" "list_all freshLine news" using assms(2) by (auto simp: editedLines_def list_all2_map1)
  obtain mid where mid: "foldE (commitLine newId tax perLine) olds rows = Inr mid" "foldE (commitLine newId tax perLine) news mid = Inr rows'"
    using assms(1) by (auto simp: commitLines_def on(1) foldE_append)
  have "map sl_id mid = map sl_id rows \<and> list_all rowOk mid \<and> openUnits mid i = variantUnits i (openOfWorking olds)"
    using commit_existing[OF on(2), of newId tax perLine "[]" mid i] mid(1) assms(3,4) by auto
  then show ?thesis using commit_new[OF mid(2) on(3), of i] assms(3) by (auto simp: openUnits_append openOfWorking_def on(1))
qed

lemma billed_open: "list_all rowOk rows \<Longrightarrow> variantUnits i (openOfStored (map billedLine rows)) = openUnits rows i"
  by (induction rows) (auto simp: openOfStored_def openUnits_def rowOk_def quantitiesOk_def billedLine_def openQty_def)

text \<open>C5: stock and orders stay in step. A committed order edit keeps the stored lines well-formed with
  their ids, never allocates more than is on hand, and changes the allocation of every stocked
  physical variant by exactly the change of the units still to ship of that variant, so allocated
  stock that covered the open units before covers them after; other rows are untouched.\<close>

theorem edit_commit_conserves_stock:
  assumes op: "commitEdit newId lineTax price V lookups adjustments codes ops (rows, stock) = Inr (rows', stock')"
    and ops: "list_all (editOpOk uuid) ops" and V: "variantsOk V"
    and rows: "distinct (map sl_id rows)" "list_all rowOk rows" and stock: "stockOk stock" "withinHand stock"
    and covered: "list_all (\<lambda>r. physical V (sk_variantId r) \<longrightarrow> openUnits rows (sk_variantId r) \<le> sk_allocated r) stock"
  shows "distinct (map sl_id rows') \<and> list_all rowOk rows' \<and> take (length rows) (map sl_id rows') = map sl_id rows
    \<and> stock' = map (\<lambda>r. if physical V (sk_variantId r) then r\<lparr>sk_allocated := sk_allocated r + openUnits rows' (sk_variantId r) - openUnits rows (sk_variantId r)\<rparr> else r) stock
    \<and> withinHand stock'
    \<and> list_all (\<lambda>r. physical V (sk_variantId r) \<longrightarrow> openUnits rows' (sk_variantId r) \<le> sk_allocated r) stock'"
proof -
  obtain w perLine u where w: "applyEditOps (initialWorking rows adjustments codes) ops lookups = Inr w"
    and av: "deltasAvailable V (stockDeltas V (map billedLine rows) (wo_lines w)) = Inr u"
    and cs: "commitStock V (stockDeltas V (map billedLine rows) (wo_lines w)) stock = Inr stock'" and cl: "commitLines newId lineTax perLine (wo_lines w) rows = Inr rows'"
    using op by (auto simp: commitEdit_def Let_def)
  let ?D = "stockDeltas V (map billedLine rows) (wo_lines w)"
  have "list_all (\<lambda>l. wl_id l \<noteq> None \<and> lockedQty l \<le> wl_quantity l) (map (\<lambda>r. workingLine (billedLine r)) rows)"
    using rows(2) by (auto simp: list_all_iff working_sel lockedQty_def rowOk_def quantitiesOk_def)
  then have ed: "editedLines (map (\<lambda>r. workingLine (billedLine r)) rows) (wo_lines w)"
    using applyEditOps_edited[OF w ops] by (simp add: initialWorking_def)
  note lines = commitLines_facts[OF cl ed rows]
  have nz: "\<forall>(i, d)\<in>set ?D. d \<noteq> 0" by (auto simp: stockDeltas_def)
  have d: "orElse (map_of ?D i) 0 = (if physical V i then openUnits rows' i - openUnits rows i else 0)" for i
    using V lines[of i] billed_open[OF rows(2), of i] by (auto simp: stockDeltas_facts(2) variantsOk_def physical_def split: option.splits)
  have pos: "0 \<le> openUnits rows' i" for i using lines openUnits_nonneg by blast
  have clip: "0 \<le> sk_allocated r + orElse (map_of ?D (sk_variantId r)) 0" if "r \<in> set stock" "orElse (map_of ?D (sk_variantId r)) 0 < 0" for r
    using that covered stock(2) pos[of "sk_variantId r"] by (auto simp: d list_all_iff)
  have st: "stock' = map (\<lambda>r. if physical V (sk_variantId r) then r\<lparr>sk_allocated := sk_allocated r + openUnits rows' (sk_variantId r) - openUnits rows (sk_variantId r)\<rparr> else r) stock"
    "withinHand stock'"
    using commitStock_facts[OF cs V stockDeltas_facts(1) nz av stock] clip by (auto simp: d)
  then show ?thesis using lines covered by (auto simp: list_all_iff)
qed

section \<open>Example\<close>

definition demoStored :: StoredLine where
  "demoStored = \<lparr>sq_quantity = 4, sq_cancelledQty = 1, sq_editRemovedQty = 1, sl_id = ''a'', sl_variantId = Some ''v'', sl_sku = ''S'', sl_name = ''Cap'', sl_unitPrice = 500,
     sl_fulfilledQty = 1, sl_refundedQty = 0, sl_lineSubtotal = 1500, sl_lineDiscount = 0, sl_lineTax = 0, sl_lineTotal = 1500\<rparr>"

definition demoStock :: "StockRow list" where
  "demoStock = [\<lparr>sk_variantId = ''v'', sk_onHand = 10, sk_allocated = 7\<rparr>]"

definition demoPrice :: "WorkingOrder \<Rightarrow> PricedLine list res" where
  "demoPrice w = Inr [\<lparr>pl_key = ''a'', pl_lineSubtotal = 2500, pl_lineDiscount = 0, pl_lineTotal = 2500\<rparr>]"

lemma demo_apply:
  "applyEditOps (initialWorking [demoStored] [] []) [SetQuantity ''a'' 5] demoLookups
   = Inr ((initialWorking [demoStored] [] [])\<lparr>wo_lines := [(workingLine (billedLine demoStored))\<lparr>wl_quantity := 5\<rparr>]\<rparr>)"
  by (simp add: applyEditOps_def canonicalCouponCodes_def applyEditOp_def lineByKey_def updWLine_def initialWorking_def working_sel lockedQty_def demoStored_def del: bindE_Inr_iff)

lemma demo_commit:
  "commitEdit id (\<lambda>_. 0) demoPrice demoVariants demoLookups [] [] [SetQuantity ''a'' 5] ([demoStored], demoStock)
   = Inr ([demoStored\<lparr>sq_quantity := 5, sq_cancelledQty := 0, sq_editRemovedQty := 0, sl_lineSubtotal := 2500, sl_lineTotal := 2500\<rparr>], [\<lparr>sk_variantId = ''v'', sk_onHand = 10, sk_allocated = 9\<rparr>])"
proof -
  let ?l = "(workingLine (billedLine demoStored))\<lparr>wl_quantity := 5\<rparr>"
  have d: "stockDeltas demoVariants [billedLine demoStored] [?l] = [(''v'', 2)]"
    by (simp add: stockDeltas_def bump_def physical_def demoVariants_def demoVariant_def workingLine_def billedLine_def demoStored_def openQty_def)
  have "commitStock demoVariants [(''v'', 2)] demoStock = Inr [\<lparr>sk_variantId = ''v'', sk_onHand = 10, sk_allocated = 9\<rparr>]"
    by (simp add: commitStock_def List.map_filter_simps demoVariants_def demoVariant_def demoStock_def reserveStockOrThrow_def reservables_def reserveStep_def allocateStock_def reserves_def Let_def)
  moreover have "commitLines id (\<lambda>_. 0) [\<lparr>pl_key = ''a'', pl_lineSubtotal = 2500, pl_lineDiscount = 0, pl_lineTotal = 2500\<rparr>] [?l] [demoStored]
      = Inr [demoStored\<lparr>sq_quantity := 5, sq_cancelledQty := 0, sq_editRemovedQty := 0, sl_lineSubtotal := 2500, sl_lineTotal := 2500\<rparr>]"
    by (simp add: commitLines_def commitLine_def pricedFor_def workingLine_def billedLine_def demoStored_def updatedLine_def lineUnchanged_def billedQty_def reconcileLineQuantities_def Let_def del: bindE_Inr_iff)
  moreover have "deltasAvailable demoVariants [(''v'', 2)] = Inr ()" by (simp add: deltasAvailable_def demoVariants_def demoVariant_def del: bindE_Inr_iff)
  moreover have "wo_lines ((initialWorking [demoStored] [] [])\<lparr>wo_lines := [?l]\<rparr>) = [?l]" by simp
  ultimately show ?thesis by (simp only: commitEdit_def prod.case demo_apply bindE_simps demoPrice_def Let_def list.map d)
qed

theorem edit_commit_conserves_stock_witness:
  "\<exists>rows' stock'. commitEdit id (\<lambda>_. 0) demoPrice demoVariants demoLookups [] [] [SetQuantity ''a'' 5] ([demoStored], demoStock) = Inr (rows', stock')
    \<and> openUnits [demoStored] ''v'' = 2 \<and> openUnits rows' ''v'' = 4 \<and> map sk_allocated demoStock = [7] \<and> map sk_allocated stock' = [9] \<and> withinHand stock' \<and> list_all rowOk rows'"
proof -
  have V: "variantsOk demoVariants" by (auto simp: variantsOk_def demoVariants_def demoVariant_def split: if_splits)
  have rows: "distinct (map sl_id [demoStored])" "list_all rowOk [demoStored]" by (simp_all add: rowOk_def quantitiesOk_def demoStored_def)
  have stock: "stockOk demoStock" "withinHand demoStock" by (simp_all add: stockOk_def withinHand_def demoStock_def)
  have cov: "list_all (\<lambda>r. physical demoVariants (sk_variantId r) \<longrightarrow> openUnits [demoStored] (sk_variantId r) \<le> sk_allocated r) demoStock"
    by (simp add: demoStock_def openUnits_def demoStored_def)
  have "list_all (editOpOk (\<lambda>_. True)) [SetQuantity ''a'' 5]" by (simp add: editOpOk_def)
  note kept = edit_commit_conserves_stock[OF demo_commit this V rows stock cov]
  have units: "openUnits [demoStored] ''v'' = 2" "map sk_allocated demoStock = [7]"
    "openUnits [demoStored\<lparr>sq_quantity := 5, sq_cancelledQty := 0, sq_editRemovedQty := 0, sl_lineSubtotal := 2500, sl_lineTotal := 2500\<rparr>] ''v'' = 4"
    by (simp_all add: openUnits_def demoStored_def demoStock_def)
  have row: "map sk_allocated [\<lparr>sk_variantId = ''v'', sk_onHand = 10, sk_allocated = 9\<rparr>] = [9]" by simp
  show ?thesis
    by (intro exI conjI, rule demo_commit, rule units(1), rule units(3), rule units(2), rule row)
      (rule kept[THEN conjunct2, THEN conjunct2, THEN conjunct2, THEN conjunct2, THEN conjunct1], rule kept[THEN conjunct2, THEN conjunct1])
qed

end
