(* ===== verification/OrderMoney.thy ===== *)
theory OrderMoney
  imports OrderLaws
begin

text \<open>
  Money and status around an order edit: per-line prices against the totals, the refund attributed to
  removed units, the settlement of the balance, the gate for agents against what issuance would
  grant, and the read-side statuses of an order (\<open>orders/status.ts\<close>).
\<close>

section \<open>Status projections\<close>

datatype OrderStatus = OpenStatus | CompletedStatus | CancelledStatus | ArchivedStatus

datatype OrderPaymentStatus = PayPending | PayAuthorized | PayPaid | PayPartiallyRefunded | PayRefunded | PayVoided | PayFailed | PayBalanceDue

datatype OrderFulfillmentStatus = Unfulfilled | PartiallyFulfilled | Fulfilled | PartiallyDelivered | Delivered

datatype InternalPaymentState = PaymentPending | PaymentAuthorized | PaymentSettledState | PaymentDeclined | PaymentFailed

datatype InternalFulfillmentState = FulfillmentPending | FulfillmentShipped | FulfillmentDelivered | FulfillmentCancelled

definition deriveOrderStatus :: "OrderState \<Rightarrow> bool \<Rightarrow> OrderStatus" where
  "deriveOrderStatus state deleted =
     (if deleted then ArchivedStatus
      else if state = Cancelled then CancelledStatus
      else if state = PendingPayment then OpenStatus else CompletedStatus)"

definition derivePaymentStatus :: "OrderState \<Rightarrow> InternalPaymentState list \<Rightarrow> int option \<Rightarrow> OrderPaymentStatus" where
  "derivePaymentStatus state paymentsNewestFirst amountDue =
     (if (state = Paid \<or> state = PartiallyRefunded) \<and> 0 < orElse amountDue 0 then PayBalanceDue
      else if state = Refunded then PayRefunded
      else if state = PartiallyRefunded then PayPartiallyRefunded
      else if state = Paid then PayPaid
      else if state = Cancelled then
        (if PaymentSettledState \<in> set paymentsNewestFirst then PayPaid
         else if PaymentAuthorized \<in> set paymentsNewestFirst then PayVoided
         else if list_ex (\<lambda>p. p = PaymentDeclined \<or> p = PaymentFailed) paymentsNewestFirst then PayFailed else PayPending)
      else (case paymentsNewestFirst of
              [] \<Rightarrow> PayPending
            | latest # _ \<Rightarrow>
                if latest = PaymentAuthorized then PayAuthorized
                else if latest = PaymentDeclined \<or> latest = PaymentFailed then PayFailed else PayPending))"

definition deriveFulfillmentStatus :: "(int \<times> int \<times> int) list \<Rightarrow> InternalFulfillmentState list \<Rightarrow> OrderFulfillmentStatus" where
  "deriveFulfillmentStatus lines fulfillments =
     (let total = foldl (\<lambda>s (quantity, fulfilledQty, cancelledQty). s + max (quantity - cancelledQty) 0) 0 lines;
          fulfilled = foldl (\<lambda>s (quantity, fulfilledQty, cancelledQty). s + fulfilledQty) 0 lines
      in if total \<le> 0 then Fulfilled
         else if fulfilled \<le> 0 then Unfulfilled
         else if fulfilled < total then PartiallyFulfilled
         else let active = filter (\<lambda>f. f \<noteq> FulfillmentCancelled) fulfillments; delivered = length (filter (\<lambda>f. f = FulfillmentDelivered) active)
              in if active = [] then Fulfilled
                 else if delivered = length active then Delivered
                 else if 0 < delivered then PartiallyDelivered else Fulfilled)"

definition wirePaymentState :: "string \<Rightarrow> string" where
  "wirePaymentState state = (if state = ''Settled'' then ''captured'' else toLowerCase state)"

text \<open>The fulfilment status says whether anything is left to ship. For lines with consistent
  quantities, the status is unfulfilled or partially fulfilled exactly when some line has units that
  are neither shipped nor cancelled; unfulfilled means none was shipped; and delivered means that
  nothing is open and every fulfilment that was not cancelled is delivered.\<close>

theorem fulfillment_status_open:
  assumes "\<forall>(q, f, c)\<in>set lines. 0 \<le> f \<and> 0 \<le> c \<and> f + c \<le> q"
  shows "(deriveFulfillmentStatus lines fs \<in> {Unfulfilled, PartiallyFulfilled} \<longleftrightarrow> (\<exists>(q, f, c)\<in>set lines. f + c < q))
    \<and> (deriveFulfillmentStatus lines fs = Unfulfilled \<longrightarrow> (\<forall>(q, f, c)\<in>set lines. f = 0))
    \<and> (deriveFulfillmentStatus lines fs = Delivered \<longrightarrow> (\<forall>(q, f, c)\<in>set lines. q = f + c) \<and> (\<forall>x\<in>set fs. x = FulfillmentDelivered \<or> x = FulfillmentCancelled))"
proof -
  define total where "total = sum_list (map (\<lambda>(q, f, c). q - c) lines)"
  define shipped where "shipped = sum_list (map (\<lambda>(q, f, c). f) lines)"
  define left where "left = sum_list (map (\<lambda>(q, f, c). q - c - f) lines)"
  have fold1: "foldl (\<lambda>s (q, f, c). s + max (q - c) 0) a xs = a + sum_list (map (\<lambda>(q, f, c). max (q - c) 0) xs)" for a and xs :: "(int \<times> int \<times> int) list"
    by (induction xs arbitrary: a) auto
  have fold2: "foldl (\<lambda>s (q, f, c). s + f) a xs = a + sum_list (map (\<lambda>(q, f, c). f) xs)" for a and xs :: "(int \<times> int \<times> int) list"
    by (induction xs arbitrary: a) auto
  have t: "foldl (\<lambda>s (q, f, c). s + max (q - c) 0) 0 lines = total" unfolding fold1 total_def using assms by (auto intro!: arg_cong[where f = sum_list] map_cong)
  have d: "foldl (\<lambda>s (q, f, c). s + f) 0 lines = shipped" unfolding fold2 shipped_def by simp
  have l: "left = total - shipped" unfolding left_def total_def shipped_def by (induction lines) auto
  have nn: "0 \<le> shipped" "0 \<le> left" unfolding shipped_def left_def using assms by (fastforce intro!: sum_list_nonneg)+
  have zero: "(\<Sum>x\<leftarrow>xs. g x) = 0 \<longleftrightarrow> (\<forall>x\<in>set xs. g x = 0)" if "\<forall>x\<in>set xs. 0 \<le> g x" for g :: "(int \<times> int \<times> int) \<Rightarrow> int" and xs
    using that by (subst sum_list_nonneg_eq_0_iff) auto
  have left0: "left = 0 \<longleftrightarrow> (\<forall>(q, f, c)\<in>set lines. q = f + c)" unfolding left_def using assms by (subst zero) auto
  have shipped0: "shipped = 0 \<longleftrightarrow> (\<forall>(q, f, c)\<in>set lines. f = 0)" unfolding shipped_def using assms by (subst zero) auto
  have ex: "(\<exists>(q, f, c)\<in>set lines. f + c < q) \<longleftrightarrow> left \<noteq> 0" unfolding left0 using assms by fastforce
  have status: "deriveFulfillmentStatus lines fs = (if total \<le> 0 then Fulfilled else if shipped \<le> 0 then Unfulfilled else if shipped < total then PartiallyFulfilled
     else let active = filter (\<lambda>f. f \<noteq> FulfillmentCancelled) fs; delivered = length (filter (\<lambda>f. f = FulfillmentDelivered) active)
              in if active = [] then Fulfilled else if delivered = length active then Delivered else if 0 < delivered then PartiallyDelivered else Fulfilled)"
    unfolding deriveFulfillmentStatus_def t d Let_def ..
  have all: "length (filter P xs) = length xs \<Longrightarrow> \<forall>x\<in>set xs. P x" for P and xs :: "InternalFulfillmentState list"
    by (metis filter_True filter_id_conv length_filter_less less_irrefl)
  have st: "deriveFulfillmentStatus lines fs \<in> {Unfulfilled, PartiallyFulfilled} \<longleftrightarrow> left \<noteq> 0" unfolding status using nn l by (auto simp: Let_def)
  have un: "deriveFulfillmentStatus lines fs = Unfulfilled \<Longrightarrow> shipped = 0" unfolding status using nn by (auto simp: Let_def split: if_splits)
  have de: "left = 0 \<and> (\<forall>x\<in>set fs. x = FulfillmentDelivered \<or> x = FulfillmentCancelled)" if del: "deriveFulfillmentStatus lines fs = Delivered"
  proof -
    let ?active = "filter (\<lambda>f. f \<noteq> FulfillmentCancelled) fs"
    have "left = 0" using st del nn by auto
    moreover have "length (filter (\<lambda>f. f = FulfillmentDelivered) ?active) = length ?active"
      using del unfolding status Let_def by (simp split: if_splits)
    then have "\<forall>x\<in>set ?active. x = FulfillmentDelivered" by (rule all)
    ultimately show ?thesis by auto
  qed
  show ?thesis unfolding ex left0[symmetric] shipped0[symmetric] using st un de by blast
qed

theorem fulfillment_status_open_witness:
  "deriveFulfillmentStatus [(3, 1, 1), (2, 2, 0)] [FulfillmentShipped] \<in> {Unfulfilled, PartiallyFulfilled}"
  using fulfillment_status_open[of "[(3, 1, 1), (2, 2, 0)]" "[FulfillmentShipped]"] by auto

section \<open>Prices\<close>

lemma assignLines_facts:
  assumes "length ts = length (filter (\<lambda>l. 0 < wl_quantity l) ls)"
  shows "map pl_key (assignLines ls ts) = map wl_key ls" "sum_list (map pl_lineTotal (assignLines ls ts)) = sum_list (map lt_lineTotal ts)"
    "sum_list (map pl_lineDiscount (assignLines ls ts)) = sum_list (map lt_lineDiscount ts)" "sum_list (map pl_lineSubtotal (assignLines ls ts)) = sum_list (map lt_lineSubtotal ts)"
  using assms by (induction ls ts rule: assignLines.induct) (auto split: list.splits if_splits)

lemma assignLines_nth:
  assumes "length ts = length (filter (\<lambda>l. 0 < wl_quantity l) ls)" "list_all2 (\<lambda>l t. lt_unitPrice t = wl_unitPrice l \<and> lt_quantity t = wl_quantity l \<and> lt_lineTotal t = lt_lineSubtotal t - lt_lineDiscount t \<and> lt_lineSubtotal t = wl_unitPrice l * wl_quantity l) (filter (\<lambda>l. 0 < wl_quantity l) ls) ts"
  shows "list_all2 (\<lambda>l t. pl_lineSubtotal t = wl_unitPrice l * max 0 (wl_quantity l) \<and> pl_lineTotal t = pl_lineSubtotal t - pl_lineDiscount t) ls (assignLines ls ts)"
  using assms by (induction ls ts rule: assignLines.induct) (auto split: list.splits if_splits)

text \<open>The stored price columns are the totals, line by line. Pricing the working lines gives one entry
  per line, in order, with its key; a line without units carries no money, every other line its unit
  price times its quantity, less its discount; and the columns add up to the subtotal, the discount
  and the merchandise total of the order totals.\<close>

theorem priced_lines_match_totals:
  "let totals = fst (priceWorkingOrder ls adjustments p); perLine = snd (priceWorkingOrder ls adjustments p)
   in map pl_key perLine = map wl_key ls
     \<and> list_all2 (\<lambda>l t. pl_lineSubtotal t = wl_unitPrice l * max 0 (wl_quantity l) \<and> pl_lineTotal t = pl_lineSubtotal t - pl_lineDiscount t) ls perLine
     \<and> sum_list (map pl_lineSubtotal perLine) = ot_subtotal totals \<and> sum_list (map pl_lineDiscount perLine) = ot_discountTotal totals
     \<and> sum_list (map pl_lineTotal perLine) = ot_subtotal totals - ot_discountTotal totals"
proof -
  let ?act = "filter (\<lambda>l. 0 < wl_quantity l) ls"
  define input where "input = totalsInputOf ?act adjustments p"
  define ts where "ts = ot_lines (calculateOrderTotals input)"
  have pw: "priceWorkingOrder ls adjustments p = (calculateOrderTotals input, assignLines ls ts)" by (simp add: priceWorkingOrder_def input_def ts_def Let_def)
  have til: "ti_lines input = map (\<lambda>l. \<lparr>cl_unitPrice = wl_unitPrice l, cl_quantity = wl_quantity l\<rparr>) ?act" by (simp add: input_def totalsInputOf_def)
  have ts: "ts = linesOf input" by (simp add: ts_def calculateOrderTotals_def Let_def)
  have len: "length (lineSubtotalsOf input) = length ?act" "length (perLineOf input) = length ?act" by (simp_all add: lineSubtotalsOf_def til perLineOf_length)
  have nth: "lt_unitPrice (ts ! i) = wl_unitPrice (?act ! i) \<and> lt_quantity (ts ! i) = wl_quantity (?act ! i) \<and> lt_lineTotal (ts ! i) = lt_lineSubtotal (ts ! i) - lt_lineDiscount (ts ! i)
      \<and> lt_lineSubtotal (ts ! i) = wl_unitPrice (?act ! i) * wl_quantity (?act ! i)" if "i < length ?act" for i
    using that len by (simp add: ts linesOf_def til lineSubtotalsOf_def)
  have lts: "length ts = length ?act" using len by (simp add: ts linesOf_def til)
  note fs = assignLines_facts[OF lts]
  have lines: "list_all2 (\<lambda>l t. pl_lineSubtotal t = wl_unitPrice l * max 0 (wl_quantity l) \<and> pl_lineTotal t = pl_lineSubtotal t - pl_lineDiscount t) ls (assignLines ls ts)"
    by (rule assignLines_nth[OF lts]) (use nth lts in \<open>auto simp: list_all2_conv_all_nth\<close>)
  have sub: "sum_list (map lt_lineSubtotal ts) = ot_subtotal (calculateOrderTotals input)"
    using len by (auto simp: ts linesOf_def til calculateOrderTotals_def Let_def comp_def case_prod_beta intro!: arg_cong[where f = sum_list] nth_equalityI)
  have dis: "sum_list (map lt_lineDiscount ts) = ot_discountTotal (calculateOrderTotals input)" by (simp add: ts calculateOrderTotals_def Let_def)
  have "\<forall>t\<in>set ts. lt_lineTotal t = lt_lineSubtotal t - lt_lineDiscount t" using nth lts by (metis in_set_conv_nth)
  then have eq: "map lt_lineTotal ts = map (\<lambda>t. lt_lineSubtotal t - lt_lineDiscount t) ts" by simp
  have "sum_list (map lt_lineTotal ts) = ot_subtotal (calculateOrderTotals input) - ot_discountTotal (calculateOrderTotals input)"
    unfolding eq sum_list_map_minus sub dis ..
  then show ?thesis unfolding pw fst_conv snd_conv Let_def using fs lines sub dis by simp
qed

section \<open>Refund of removed units\<close>

lemma removedUnits_facts: "removedUnits before ls perLine = Inr us \<Longrightarrow> list_all (\<lambda>u. 0 < ru_quantity u \<and> 0 \<le> ru_amount u) us"
  by (induction before ls perLine arbitrary: us rule: removedUnits.induct) (auto split: option.splits if_splits)

lemma drawLines_sum:
  assumes "list_all (\<lambda>u. 0 \<le> ru_amount u) us" "0 \<le> left"
  shows "sum_list (map er_amount (drawLines us left)) = min left (sum_list (map ru_amount us))"
  using assms
proof (induction us arbitrary: left)
  case (Cons u us)
  have "0 \<le> sum_list (map ru_amount us)" using Cons.prems(1) by (auto simp: list_all_iff intro!: sum_list_nonneg)
  then show ?case using Cons by (auto simp: Let_def)
qed simp

lemma drawLines_bounds:
  assumes "list_all (\<lambda>u. 0 \<le> ru_amount u) us" "0 \<le> left"
  shows "list_all2 (\<lambda>u e. er_orderLineId e = ru_orderLineId u \<and> er_quantity e = ru_quantity u \<and> 0 \<le> er_amount e \<and> er_amount e \<le> ru_amount u) us (drawLines us left)"
  using assms by (induction us arbitrary: left) (auto simp: Let_def)

text \<open>C38: the refund of an edit is attributed to the units the edit removed, never more than they were worth
  and never more than is refunded. Whatever units an edit removed, the attributed lines are one per
  removed unit record (in the collation order of their ids) with its quantity, each between zero and
  the money the units carried on their line, and they add up to the smaller of the refund and the
  removed value; the rest of the refund stays an adjustment.\<close>

theorem edit_refund_attribution:
  fixes refund :: int
  assumes "removedUnits before ls perLine = Inr us"
  defines "out \<equiv> allocateEditRefundLines us refund"
  shows "snd out = sum_list (map er_amount (fst out)) \<and> snd out = min (max 0 refund) (sum_list (map ru_amount us))
    \<and> list_all2 (\<lambda>u e. er_orderLineId e = ru_orderLineId u \<and> er_quantity e = ru_quantity u \<and> 0 < er_quantity e \<and> 0 \<le> er_amount e \<and> er_amount e \<le> ru_amount u)
        (sort_key (collationKey \<circ> ru_orderLineId) us) (fst out)"
proof -
  let ?sorted = "sort_key (collationKey \<circ> ru_orderLineId) us"
  have us: "list_all (\<lambda>u. 0 < ru_quantity u \<and> 0 \<le> ru_amount u) ?sorted" using removedUnits_facts[OF assms(1)] by (simp add: list_all_iff)
  then have keep: "filter (\<lambda>u. 0 < ru_quantity u) ?sorted = ?sorted" and am: "list_all (\<lambda>u. 0 \<le> ru_amount u) ?sorted" by (auto simp: list_all_iff filter_id_conv)
  have fold: "foldl (\<lambda>n l. n + er_amount l) a xs = a + sum_list (map er_amount xs)" for a and xs :: "EditRefundLine list" by (induction xs arbitrary: a) auto
  have out: "fst out = drawLines ?sorted (max 0 refund)" "snd out = sum_list (map er_amount (drawLines ?sorted (max 0 refund)))"
    by (simp_all add: out_def allocateEditRefundLines_def keep fold Let_def)
  have "list_all2 (\<lambda>u e. er_orderLineId e = ru_orderLineId u \<and> er_quantity e = ru_quantity u \<and> 0 < er_quantity e \<and> 0 \<le> er_amount e \<and> er_amount e \<le> ru_amount u) ?sorted (fst out)"
    unfolding out(1) using drawLines_bounds[OF am, of "max 0 refund"] us by (auto simp: list_all2_conv_all_nth list_all_length)
  then show ?thesis using out drawLines_sum[OF am, of "max 0 refund"] sum_list_sort_key[of ru_amount "collationKey \<circ> ru_orderLineId" us] by simp
qed

definition demoSnap :: "LineSnap list" where
  "demoSnap = [\<lparr>ls_id = Some ''a'', ls_sku = ''S'', ls_name = ''Cap'', ls_unitPrice = 500, ls_quantity = 7, ls_lineTotal = 3500, ls_fulfilledQty = 2, ls_refundedQty = 0\<rparr>]"

theorem edit_refund_attribution_witness:
  "\<exists>us. removedUnits demoSnap [demoWLine] [\<lparr>pl_key = ''a'', pl_lineSubtotal = 2500, pl_lineDiscount = 0, pl_lineTotal = 2500\<rparr>] = Inr us
     \<and> map ru_amount us = [1000] \<and> snd (allocateEditRefundLines us 1400) = 1000 \<and> snd (allocateEditRefundLines us 900) = 900"
proof -
  let ?us = "[\<lparr>ru_orderLineId = ''a'', ru_sku = ''S'', ru_quantity = 2, ru_amount = 1000\<rparr>]"
  have r: "removedUnits demoSnap [demoWLine] [\<lparr>pl_key = ''a'', pl_lineSubtotal = 2500, pl_lineDiscount = 0, pl_lineTotal = 2500\<rparr>] = Inr ?us"
    by (simp add: snapById_def demoSnap_def demoWLine_def lineTotalOf_def orElse_def)
  have "snd (allocateEditRefundLines ?us 1400) = 1000 \<and> snd (allocateEditRefundLines ?us 900) = 900"
    using edit_refund_attribution[OF r, of 1400] edit_refund_attribution[OF r, of 900] by simp
  then show ?thesis using r by (intro exI[of _ ?us]) simp
qed

section \<open>Settlement\<close>

text \<open>C40: the settlement of an edited order is accepted exactly when it fits the balance: nothing is settled
  at balance zero, a credit can only be refunded or kept, an amount due can only be sent as a pay
  link, recorded (never more than is due) or left due; a missing choice is refused as required and
  every other choice as invalid.\<close>

theorem settlement_validation:
  "(validateSettlement balance st = Inr r \<longleftrightarrow>
      (if balance = 0 then r = None
       else \<exists>c. st = Some c \<and> r = Some c \<and>
         (if balance < 0 then (\<exists>p. c = RefundNow p) \<or> c = LeaveCredit
          else c = SendPayLink \<or> c = LeaveDue \<or> (\<exists>m reference. c = RecordPayment m reference None) \<or> (\<exists>m reference a. c = RecordPayment m reference (Some a) \<and> a \<le> balance))))
   \<and> ((\<exists>m. validateSettlement balance st = Inl (Coded ''SETTLEMENT_REQUIRED'' m)) \<longleftrightarrow> balance \<noteq> 0 \<and> st = None)
   \<and> ((\<exists>r. validateSettlement balance st = Inr r) \<or> st = None \<or> (\<exists>m. validateSettlement balance st = Inl (Coded ''SETTLEMENT_INVALID'' m)))"
  by (cases st; cases "the st")
    (auto simp: validateSettlement_def settlementType_def allowedSettlements_def split: option.splits)

section \<open>Agents\<close>

text \<open>What issuance reads of a line: the variant's kind and key with its licence terms.\<close>

definition grantInput :: "(string \<Rightarrow> VariantFacts option) \<Rightarrow> (string \<Rightarrow> int option \<times> int option \<times> int option \<times> json option) \<Rightarrow> string \<Rightarrow> string option \<Rightarrow> int \<Rightarrow> LicenseGrantInput list" where
  "grantInput V terms line variantId quantity = (case variantId of None \<Rightarrow> [] | Some i \<Rightarrow> (case V i of None \<Rightarrow> [] | Some v \<Rightarrow>
     (case terms i of (seats, updates, licence, meta) \<Rightarrow>
       [\<lparr>lg_orderLineId = line, lg_quantity = quantity, lg_fulfillmentType = vf_fulfillmentType v, lg_appKey = vf_appKey v, lg_licenseSeats = seats,
         lg_updatesDurationDays = updates, lg_licenseDurationDays = licence, lg_metadata = meta\<rparr>])))"

definition grantsAfter :: "(string \<Rightarrow> VariantFacts option) \<Rightarrow> (string \<Rightarrow> int option \<times> int option \<times> int option \<times> json option) \<Rightarrow> WLine list \<Rightarrow> int \<Rightarrow> LicenseGrant list" where
  "grantsAfter V terms ls now = buildLicenseGrants (concat (map (\<lambda>l. grantInput V terms (wl_key l) (wl_variantId l) (wl_quantity l)) ls)) now"

definition grantsBefore :: "(string \<Rightarrow> VariantFacts option) \<Rightarrow> (string \<Rightarrow> int option \<times> int option \<times> int option \<times> json option) \<Rightarrow> WLine list \<Rightarrow> int \<Rightarrow> LicenseGrant list" where
  "grantsBefore V terms ls now = buildLicenseGrants (concat (map (\<lambda>l. case wl_original l of None \<Rightarrow> [] | Some orig \<Rightarrow>
     grantInput V terms (wl_key l) (ol_variantId orig) (ol_quantity orig)) ls)) now"

lemma grants_append: "buildLicenseGrants (xs @ ys) now = buildLicenseGrants xs now @ buildLicenseGrants ys now"
  by (simp add: buildLicenseGrants_def)

lemma not_bearing: "\<not> bearing V i \<Longrightarrow> buildLicenseGrants (grantInput V terms line i n) now = []"
  by (auto simp: bearing_def grantInput_def buildLicenseGrants_def lineGrants_def split: option.splits if_splits prod.splits)

lemma no_units: "n \<le> 0 \<Longrightarrow> buildLicenseGrants (grantInput V terms line i n) now = []"
  by (auto simp: grantInput_def buildLicenseGrants_def lineGrants_def split: option.splits prod.splits)

text \<open>An agent never changes entitlements. If the commit gate lets an agent's edit pass, then issuing
  licences for the edited lines gives exactly the grants it would have given for the lines before the
  edit, whatever the licence terms of the variants are.\<close>

theorem agent_edit_keeps_grants:
  assumes "assertPrincipalMayCommit AgentPrincipal ls V = Inr u"
  shows "grantsAfter V terms ls now = grantsBefore V terms ls now"
proof -
  have "list_all (\<lambda>l. buildLicenseGrants (grantInput V terms (wl_key l) (wl_variantId l) (wl_quantity l)) now
      = buildLicenseGrants (case wl_original l of None \<Rightarrow> [] | Some orig \<Rightarrow> grantInput V terms (wl_key l) (ol_variantId orig) (ol_quantity orig)) now) ls"
    using assms unfolding assertPrincipalMayCommit_def planChangesEntitlements_def list_all_iff
    by (auto simp: list_ex_iff not_bearing no_units buildLicenseGrants_def[of "[]"] not_less split: option.splits) (metis not_bearing)+
  then show ?thesis
    unfolding grantsAfter_def grantsBefore_def by (induction ls) (auto simp: grants_append)
qed

theorem agent_edit_keeps_grants_witness:
  "assertPrincipalMayCommit AgentPrincipal [demoWLine] demoVariants = Inr () \<and>
   grantsAfter demoVariants (\<lambda>_. (None, None, None, None)) [demoWLine] 0 = grantsBefore demoVariants (\<lambda>_. (None, None, None, None)) [demoWLine] 0"
proof -
  have "assertPrincipalMayCommit AgentPrincipal [demoWLine] demoVariants = Inr ()"
    by (simp add: assertPrincipalMayCommit_def planChangesEntitlements_def demoWLine_def bearing_def demoVariants_def demoVariant_def isEntitlementBearing_def orElse_def)
  then show ?thesis using agent_edit_keeps_grants by blast
qed

end
