(* ===== verification/OutboundUrl.thy ===== *)
theory OutboundUrl
  imports JsText "HOL-Library.Word"
begin

unbundle bit_operations_syntax

text \<open>
  The guard of outbound requests (\<open>security/outbound-url.ts\<close>): host names and addresses that must never
  be reached from the server, the check of a URL before it is fetched, the refusal of redirects and
  the bounded response buffer. Node's \<open>isIP\<close>, the URL parser, DNS and the transport are parameters.
\<close>

section \<open>Text\<close>

text \<open>\<open>split('::')\<close>: non-overlapping from the left.\<close>

fun splitDouble :: "string \<Rightarrow> string list" where
  "splitDouble [] = [[]]"
| "splitDouble [x] = [[x]]"
| "splitDouble (x # y # xs) =
     (if x = CHR '':'' \<and> y = CHR '':'' then [] # splitDouble xs
      else (case splitDouble (y # xs) of s # ss \<Rightarrow> (x # s) # ss | [] \<Rightarrow> [[x]]))"

definition endsWith :: "string \<Rightarrow> string \<Rightarrow> bool" where
  "endsWith s t \<longleftrightarrow> length t \<le> length s \<and> drop (length s - length t) s = t"

section \<open>Host names and addresses\<close>

definition PRIVATE_HOSTNAMES :: "string list" where
  "PRIVATE_HOSTNAMES = [''localhost'', ''localhost.localdomain'', ''ip6-localhost'', ''ip6-loopback'']"

definition unbracket :: "string \<Rightarrow> string" where
  "unbracket s = (if 2 \<le> length s \<and> hd s = CHR ''['' \<and> last s = CHR '']'' \<and> \<not> list_ex (\<lambda>c. c = CHR 0x0A \<or> c = CHR 0x0D) s then butlast (tl s) else s)"

definition dropDot :: "string \<Rightarrow> string" where
  "dropDot s = (if s \<noteq> [] \<and> last s = CHR ''.'' then butlast s else s)"

definition normalizeHostname :: "string \<Rightarrow> string" where
  "normalizeHostname hostname = toLowerCase (dropDot (unbracket (js_trim hostname)))"

definition isPrivateHostname :: "string \<Rightarrow> bool" where
  "isPrivateHostname hostname \<longleftrightarrow> hostname \<in> set PRIVATE_HOSTNAMES \<or> endsWith hostname ''.localhost'' \<or> endsWith hostname ''.local''"

text \<open>\<open>Number(part)\<close> when it is an integer of one byte.\<close>

definition byteOf :: "string \<Rightarrow> int option" where
  "byteOf part = (case js_Number part of
       Some v \<Rightarrow> if v = of_int \<lfloor>v\<rfloor> \<and> 0 \<le> \<lfloor>v\<rfloor> \<and> \<lfloor>v\<rfloor> \<le> 255 then Some \<lfloor>v\<rfloor> else None
     | None \<Rightarrow> None)"

definition ipv4ToBytes :: "string \<Rightarrow> int list option" where
  "ipv4ToBytes address =
     (let parts = map byteOf (js_split CHR ''.'' address)
      in if length parts \<noteq> 4 \<or> None \<in> set parts then None else Some (map the parts))"

definition blockedOctets :: "int \<Rightarrow> int \<Rightarrow> int \<Rightarrow> bool" where
  "blockedOctets a b c \<longleftrightarrow>
     a = 0 \<or> a = 10 \<or> a = 127 \<or> (a = 100 \<and> 64 \<le> b \<and> b \<le> 127) \<or> (a = 169 \<and> b = 254) \<or> (a = 172 \<and> 16 \<le> b \<and> b \<le> 31) \<or> (a = 192 \<and> b = 168)
     \<or> (a = 192 \<and> b = 0) \<or> (a = 198 \<and> (b = 18 \<or> b = 19)) \<or> (a = 198 \<and> b = 51 \<and> c = 100) \<or> (a = 203 \<and> b = 0 \<and> c = 113) \<or> 224 \<le> a"

definition isBlockedIpv4 :: "string \<Rightarrow> bool" where
  "isBlockedIpv4 address = (case ipv4ToBytes address of Some (a # b # c # _) \<Rightarrow> blockedOctets a b c | _ \<Rightarrow> True)"

definition hexDigits :: "string \<Rightarrow> bool" where
  "hexDigits s \<longleftrightarrow> 1 \<le> length s \<and> length s \<le> 4 \<and> list_all (\<lambda>c. hexVal c \<noteq> None) s"

definition parseHex :: "string \<Rightarrow> int" where
  "parseHex s = digitsVal 16 (map (\<lambda>c. the (hexVal c)) s)"

fun hextetsFrom :: "string list \<Rightarrow> int list option" where
  "hextetsFrom [] = Some []"
| "hextetsFrom (segment # rest) =
     (if segment = [] then None
      else if CHR ''.'' \<in> set segment
      then if rest \<noteq> [] then None
           else (case ipv4ToBytes segment of
                   Some [b0, b1, b2, b3] \<Rightarrow> Some [push_bit 8 b0 OR b1, push_bit 8 b2 OR b3]
                 | _ \<Rightarrow> None)
      else if \<not> hexDigits segment then None
      else map_option (\<lambda>out. parseHex segment # out) (hextetsFrom rest))"

definition parseIpv6Hextets :: "string \<Rightarrow> int list option" where
  "parseIpv6Hextets part = (if part = [] then Some [] else hextetsFrom (js_split CHR '':'' part))"

definition hextetBytes :: "int list \<Rightarrow> int list" where
  "hextetBytes hs = concat (map (\<lambda>h. [drop_bit 8 h AND 0xff, h AND 0xff]) hs)"

definition parseIpv6ToBytes :: "string \<Rightarrow> int list option" where
  "parseIpv6ToBytes address =
     (if CHR ''%'' \<in> set address then None
      else let pieces = splitDouble (toLowerCase address)
           in if 2 < length pieces then None
              else case (parseIpv6Hextets (pieces ! 0), if length pieces = 2 then parseIpv6Hextets (pieces ! 1) else Some []) of
                (Some head, Some tail) \<Rightarrow>
                  (let zeros = 8 - int (length head) - int (length tail)
                   in if length pieces = 2
                      then if zeros < 1 then None else Some (hextetBytes (head @ replicate (nat zeros) 0 @ tail))
                      else if length head \<noteq> 8 then None else Some (hextetBytes head))
              | _ \<Rightarrow> None)"

definition dotted :: "int list \<Rightarrow> string" where
  "dotted bytes = js_join ''.'' (map showInt bytes)"

definition mappedIpv4 :: "int list \<Rightarrow> string option" where
  "mappedIpv4 bytes = (if list_all (\<lambda>b. b = 0) (take 10 bytes) \<and> bytes ! 10 = 0xff \<and> bytes ! 11 = 0xff then Some (dotted (take 4 (drop 12 bytes))) else None)"

definition hexChar :: "int \<Rightarrow> char" where
  "hexChar n = char_of (if n < 10 then 48 + n else 87 + n)"

definition hexBytes :: "int list \<Rightarrow> string" where
  "hexBytes bytes = concat (map (\<lambda>b. [hexChar (b div 16), hexChar (b mod 16)]) bytes)"

definition addressIdentity :: "(string \<Rightarrow> nat) \<Rightarrow> string \<Rightarrow> string option" where
  "addressIdentity isIP address =
     (if isIP address = 4 then map_option (\<lambda>bs. ''4:'' @ dotted bs) (ipv4ToBytes address)
      else if isIP address \<noteq> 6 then None
      else case parseIpv6ToBytes address of
             None \<Rightarrow> None
           | Some bytes \<Rightarrow> (case mappedIpv4 bytes of Some m \<Rightarrow> Some (''4:'' @ m) | None \<Rightarrow> Some (''6:'' @ hexBytes bytes)))"

definition isBlockedIpv6 :: "string \<Rightarrow> bool" where
  "isBlockedIpv6 address = (case parseIpv6ToBytes address of
       None \<Rightarrow> True
     | Some bytes \<Rightarrow> (case mappedIpv4 bytes of
         Some mapped \<Rightarrow> isBlockedIpv4 mapped
       | None \<Rightarrow>
           list_all (\<lambda>b. b = 0) bytes \<or> (list_all (\<lambda>b. b = 0) (take 15 bytes) \<and> bytes ! 15 = 1)
           \<or> (bytes ! 0 AND 0xfe) = 0xfc
           \<or> (bytes ! 0 = 0xfe \<and> (bytes ! 1 AND 0xc0) = 0x80)
           \<or> bytes ! 0 = 0xff
           \<or> (bytes ! 0 = 0x20 \<and> bytes ! 1 = 0x01 \<and> bytes ! 2 = 0x0d \<and> bytes ! 3 = 0xb8)
           \<or> (bytes ! 0 = 0x20 \<and> bytes ! 1 = 0x01 \<and> bytes ! 2 = 0 \<and> bytes ! 3 = 0)
           \<or> (bytes ! 0 = 0x20 \<and> bytes ! 1 = 0x02)
           \<or> (bytes ! 0 = 0 \<and> bytes ! 1 = 0x64 \<and> bytes ! 2 = 0xff \<and> bytes ! 3 = 0x9b)
           \<or> (bytes ! 0 = 0x01 \<and> list_all (\<lambda>b. b = 0) (take 7 (drop 1 bytes)))))"

definition isPrivateOrSpecialAddress :: "(string \<Rightarrow> nat) \<Rightarrow> string \<Rightarrow> bool" where
  "isPrivateOrSpecialAddress isIP address =
     (let normalized = normalizeHostname address
      in if isIP normalized = 4 then isBlockedIpv4 normalized
         else if isIP normalized = 6 then isBlockedIpv6 normalized else True)"

text \<open>The identities of this host: the configured list and the addresses of the interfaces.\<close>

definition currentSelfAddresses :: "(string \<Rightarrow> nat) \<Rightarrow> string \<Rightarrow> string list \<Rightarrow> string list res" where
  "currentSelfAddresses isIP selfIps interfaces =
     (let configured = js_trim selfIps
      in bindE (mapE (\<lambda>a. case addressIdentity isIP (js_trim a) of Some i \<Rightarrow> Inr i | None \<Rightarrow> Inl (Err ''Invalid OUTBOUND_SELF_IPS inventory''))
           (if configured = [] then [] else js_split CHR '','' configured)) (\<lambda>own.
         bindE (mapE (\<lambda>a. case addressIdentity isIP (hd (js_split CHR ''%'' a)) of Some i \<Rightarrow> Inr i | None \<Rightarrow> Inl (Err ''Invalid host network interface address''))
           interfaces) (\<lambda>host. Inr (own @ host))))"

section \<open>The check of a URL\<close>

record Url =
  ur_protocol :: string
  ur_username :: string
  ur_password :: string
  ur_hostname :: string
  ur_rest :: string
  ur_hash :: string

record LookupAddress =
  la_address :: string
  la_family :: nat

record CheckedOutboundUrl =
  cu_url :: Url
  cu_address :: string
  cu_family :: nat

text \<open>What the check reads of its surroundings: Node's address test, the URL parser, DNS, the abort signal
  before and after the lookup, and the addresses of this host.\<close>

record OutboundEnv =
  oe_isIP :: "string \<Rightarrow> nat"
  oe_parseUrl :: "string \<Rightarrow> Url option"
  oe_lookup :: "string \<Rightarrow> LookupAddress list res"
  oe_abortedBefore :: bool
  oe_abortedAfter :: bool
  oe_selfIps :: string
  oe_interfaces :: "string list"

definition isSelf :: "OutboundEnv \<Rightarrow> string list \<Rightarrow> string \<Rightarrow> bool" where
  "isSelf env self address = (case addressIdentity (oe_isIP env) address of Some i \<Rightarrow> i \<in> set self | None \<Rightarrow> False)"

definition checkOutboundUrl :: "OutboundEnv \<Rightarrow> string \<Rightarrow> CheckedOutboundUrl res" where
  "checkOutboundUrl env rawUrl =
     bindE (checkE (oe_abortedBefore env) (Err ''aborted'')) (\<lambda>_.
     bindE (checkE (js_trim rawUrl = []) (Err ''Outbound URL is required'')) (\<lambda>_.
     bindE (checkE (2048 < length rawUrl) (Err ''Outbound URL is too long'')) (\<lambda>_.
     case oe_parseUrl env rawUrl of
       None \<Rightarrow> Inl (Err ''Outbound URL must be absolute'')
     | Some url \<Rightarrow>
         bindE (checkE (ur_protocol url \<noteq> ''http:'' \<and> ur_protocol url \<noteq> ''https:'') (Err ''Outbound URL must use http or https'')) (\<lambda>_.
         bindE (checkE (ur_username url \<noteq> [] \<or> ur_password url \<noteq> []) (Err ''Outbound URL must not include credentials'')) (\<lambda>_.
         let hostname = normalizeHostname (ur_hostname url); isIP = oe_isIP env
         in bindE (checkE (hostname = [] \<or> isPrivateHostname hostname) (Err ''Outbound URL must not target private network hosts'')) (\<lambda>_.
            if isIP hostname \<noteq> 0
            then bindE (checkE (isPrivateOrSpecialAddress isIP hostname) (Err ''Outbound URL must not target private network hosts'')) (\<lambda>_.
                 bindE (currentSelfAddresses isIP (oe_selfIps env) (oe_interfaces env)) (\<lambda>self.
                 bindE (checkE (isSelf env self hostname) (Err ''Outbound URL must not target this host'')) (\<lambda>_.
                   Inr \<lparr>cu_url = url\<lparr>ur_hash := []\<rparr>, cu_address = hostname, cu_family = isIP hostname\<rparr>)))
            else bindE (oe_lookup env hostname) (\<lambda>records.
                 bindE (checkE (oe_abortedAfter env) (Err ''aborted'')) (\<lambda>_.
                 bindE (checkE (records = []) (Err ''Outbound URL host could not be resolved'')) (\<lambda>_.
                 bindE (checkE (list_ex (\<lambda>r. isPrivateOrSpecialAddress isIP (la_address r)) records) (Err ''Outbound URL must not resolve to private network addresses'')) (\<lambda>_.
                 bindE (currentSelfAddresses isIP (oe_selfIps env) (oe_interfaces env)) (\<lambda>self.
                 bindE (checkE (list_ex (\<lambda>r. isSelf env self (normalizeHostname (la_address r))) records) (Err ''Outbound URL must not resolve to this host'')) (\<lambda>_.
                   Inr \<lparr>cu_url = url\<lparr>ur_hash := []\<rparr>, cu_address = la_address (hd records), cu_family = la_family (hd records)\<rparr>)))))))))))) "

definition assertSafeOutboundUrl :: "OutboundEnv \<Rightarrow> (Url \<Rightarrow> string) \<Rightarrow> string \<Rightarrow> string res" where
  "assertSafeOutboundUrl env urlText rawUrl = bindE (checkOutboundUrl env rawUrl) (\<lambda>c. Inr (urlText (cu_url c)))"

record OutboundResponse =
  or_status :: int
  or_location :: "string option"
  or_body :: "int list"

text \<open>\<open>transport\<close> sends the request to the pinned address with the given server name; \<open>resolve\<close> is
  \<open>new URL(location, base)\<close>. A redirect is never followed.\<close>

definition safeOutboundFetch :: "OutboundEnv \<Rightarrow> (Url \<Rightarrow> string \<Rightarrow> nat \<Rightarrow> string \<Rightarrow> OutboundResponse res) \<Rightarrow> (string \<Rightarrow> Url \<Rightarrow> string res) \<Rightarrow> string \<Rightarrow> OutboundResponse res" where
  "safeOutboundFetch env transport resolve rawUrl =
     bindE (checkOutboundUrl env rawUrl) (\<lambda>c.
     bindE (transport (cu_url c) (cu_address c) (cu_family c) (normalizeHostname (ur_hostname (cu_url c)))) (\<lambda>response.
     if 300 \<le> or_status response \<and> or_status response < 400
     then (case or_location response of
             Some location \<Rightarrow>
               if location = [] then Inl (Err ''Outbound redirects are not allowed'')
               else bindE (resolve location (cu_url c)) (\<lambda>target. bindE (checkOutboundUrl env target) (\<lambda>_. Inl (Err ''Outbound redirects are not allowed'')))
           | None \<Rightarrow> Inl (Err ''Outbound redirects are not allowed''))
     else Inr response))"

section \<open>The response body\<close>

definition MAX_OUTBOUND_RESPONSE_BYTES :: nat where
  "MAX_OUTBOUND_RESPONSE_BYTES = 8 * 1024 * 1024"

datatype OutboundOutcome = Rejected string | Resolved "int list"

record BodyState =
  bo_settled :: "OutboundOutcome option"
  bo_bodyless :: bool
  bo_body :: "int list"
  bo_receivedBytes :: nat

datatype BodyEvent = DataChunk "int list" | EndOfBody | AbortedBody | ErrorEvent string | CloseEvent

definition failBody :: "string \<Rightarrow> BodyState \<Rightarrow> BodyState" where
  "failBody message st = (if bo_settled st \<noteq> None then st else st\<lparr>bo_settled := Some (Rejected message), bo_body := []\<rparr>)"

text \<open>\<open>chunk.copy(target, at)\<close>.\<close>

definition copyAt :: "int list \<Rightarrow> nat \<Rightarrow> int list \<Rightarrow> int list" where
  "copyAt chunk pos target = take pos target @ chunk @ drop (pos + length chunk) target"

text \<open>\<open>alloc n\<close> is the uninitialised buffer of \<open>Buffer.allocUnsafe(n)\<close>.\<close>

definition onData :: "(nat \<Rightarrow> int list) \<Rightarrow> int list \<Rightarrow> BodyState \<Rightarrow> BodyState" where
  "onData alloc chunk st =
     (if bo_settled st \<noteq> None then st
      else if bo_bodyless st \<and> 0 < length chunk then failBody ''Outbound response must not contain a body'' st
      else if MAX_OUTBOUND_RESPONSE_BYTES - bo_receivedBytes st < length chunk then failBody ''Outbound response exceeds 8388608 byte limit'' st
      else if chunk = [] then st
      else let nextSize = bo_receivedBytes st + length chunk;
               body = (if length (bo_body st) < nextSize
                       then copyAt (take (bo_receivedBytes st) (bo_body st)) 0
                              (alloc (min MAX_OUTBOUND_RESPONSE_BYTES (max (64 * 1024) (max nextSize (length (bo_body st) * 2)))))
                       else bo_body st)
           in st\<lparr>bo_body := copyAt chunk (bo_receivedBytes st) body, bo_receivedBytes := nextSize\<rparr>)"

definition onEnd :: "BodyState \<Rightarrow> BodyState" where
  "onEnd st = (if bo_settled st \<noteq> None then st
     else st\<lparr>bo_settled := Some (Resolved (if bo_bodyless st then [] else take (bo_receivedBytes st) (bo_body st))), bo_body := []\<rparr>)"

definition bodyStep :: "(nat \<Rightarrow> int list) \<Rightarrow> BodyEvent \<Rightarrow> BodyState \<Rightarrow> BodyState" where
  "bodyStep alloc ev st = (case ev of
       DataChunk chunk \<Rightarrow> onData alloc chunk st
     | EndOfBody \<Rightarrow> onEnd st
     | AbortedBody \<Rightarrow> failBody ''Outbound response aborted'' st
     | ErrorEvent message \<Rightarrow> failBody message st
     | CloseEvent \<Rightarrow> failBody ''Outbound response closed before completion'' st)"

text \<open>The response headers arrive: a declared length beyond the limit is refused at once.\<close>

definition onResponse :: "string \<Rightarrow> int \<Rightarrow> int option \<Rightarrow> BodyState" where
  "onResponse verb status declaredLength =
     (let bodyless = (toUpperCase verb = ''HEAD'' \<or> status \<in> {204, 205, 304});
          st = \<lparr>bo_settled = None, bo_bodyless = bodyless, bo_body = [], bo_receivedBytes = 0\<rparr>
      in if \<not> bodyless \<and> (case declaredLength of Some n \<Rightarrow> int MAX_OUTBOUND_RESPONSE_BYTES < n | None \<Rightarrow> False)
         then failBody ''Outbound response exceeds 8388608 byte limit'' st else st)"

end
