(* ===== verification/OutboundLaws.thy ===== *)
theory OutboundLaws
  imports OutboundUrl "HOL-Library.Sublist"
begin

text \<open>
  What the outbound guard guarantees: requests reach only public addresses that are not this host, the
  blocked IPv4 addresses are exactly the listed networks (also behind IPv4-mapped IPv6 text), and a
  response body is bounded and delivered as received.
\<close>

section \<open>Decimal text of bytes\<close>

lemma digitChar_val: "d < 10 \<Longrightarrow> digitVal (digitChar d) = Some d"
  by (simp add: digitVal_def digitChar_def Let_def)

lemma showNat_digits: "\<forall>c\<in>set (showNat n). digitVal c \<noteq> None"
proof (induction n rule: showNat.induct)
  case (1 n)
  then show ?case by (subst showNat.simps) (auto simp: digitChar_val)
qed

lemma showNat_nonempty: "showNat n \<noteq> []"
  by (subst showNat.simps) simp

lemma readDigits_all: "\<forall>c\<in>set s. digitVal c \<noteq> None \<Longrightarrow> readDigits s = (map (\<lambda>c. the (digitVal c)) s, [])"
  by (induction s) auto

lemma digits_showNat: "digitsVal 10 (map (\<lambda>c. the (digitVal c)) (showNat n)) = int n"
proof (induction n rule: showNat.induct)
  case (1 n)
  have *: "digitsVal 10 (xs @ [d]) = digitsVal 10 xs * 10 + int d" for xs d by (simp add: digitsVal_def)
  show ?case
  proof (cases "n < 10")
    case True
    then show ?thesis by (subst showNat.simps) (simp add: digitChar_val digitsVal_def)
  next
    case False
    then have "map (\<lambda>c. the (digitVal c)) (showNat n) = map (\<lambda>c. the (digitVal c)) (showNat (n div 10)) @ [n mod 10]"
      by (subst showNat.simps) (simp add: digitChar_val)
    then have "digitsVal 10 (map (\<lambda>c. the (digitVal c)) (showNat n)) = int (n div 10) * 10 + int (n mod 10)" using 1 False by (simp only: *) simp
    then show ?thesis by (metis div_mult_mod_eq of_nat_add of_nat_mult of_nat_numeral)
  qed
qed

lemma digit_not_space: "digitVal c \<noteq> None \<Longrightarrow> \<not> js_space c"
  by (auto simp: digitVal_def js_space_def Let_def split: if_splits)

lemma digit_chars: "digitVal c \<noteq> None \<Longrightarrow> c \<in> set ''0123456789''"
proof -
  assume "digitVal c \<noteq> None"
  then have "(of_char c :: nat) \<in> {48..<58}" by (auto simp: digitVal_def Let_def simp del: atLeastLessThan_upt split: if_splits)
  then have "(of_char c :: nat) \<in> set [48..<58]" by (simp only: set_upt)
  then have "c \<in> set (map char_of [48..<58::nat])" by (metis char_of_char image_eqI set_map)
  also have "map char_of [48..<58::nat] = ''0123456789''" by code_simp
  finally show ?thesis .
qed

lemma decimalVal_digits: "s \<noteq> [] \<Longrightarrow> \<forall>c\<in>set s. digitVal c \<noteq> None \<Longrightarrow> decimalVal s = Some (of_int (digitsVal 10 (map (\<lambda>c. the (digitVal c)) s)))"
  by (simp add: decimalVal_def readDigits_all exponentPart_def)

lemma trim_digits: "s \<noteq> [] \<Longrightarrow> \<forall>c\<in>set s. digitVal c \<noteq> None \<Longrightarrow> js_trim s = s"
proof -
  assume s: "s \<noteq> []" "\<forall>c\<in>set s. digitVal c \<noteq> None"
  have "dropWhile js_space xs = xs" if "\<forall>c\<in>set xs. digitVal c \<noteq> None" for xs
    using that digit_not_space by (cases xs) auto
  then show ?thesis using s by (simp add: js_trim_def)
qed

lemma js_Number_digits:
  assumes "s \<noteq> []" "\<forall>c\<in>set s. digitVal c \<noteq> None"
  shows "js_Number s = map_option fl (decimalVal s)"
proof -
  obtain c r where s: "s = c # r" using assms(1) by (cases s) auto
  have c: "c \<in> set ''0123456789''" using assms(2) digit_chars by (simp add: s)
  note number = js_Number_def[of s, unfolded trim_digits[OF assms] Let_def]
  show ?thesis
  proof (cases r)
    case Nil
    then show ?thesis unfolding number using c by (auto simp: s)
  next
    case (Cons d r')
    have d: "d \<in> set ''0123456789''" using assms(2) digit_chars by (simp add: s Cons)
    then show ?thesis unfolding number using c by (auto simp: s Cons)
  qed
qed

lemma byteOf_showInt: "0 \<le> a \<Longrightarrow> a \<le> 255 \<Longrightarrow> byteOf (showInt a) = Some a"
proof -
  assume a: "0 \<le> a" "a \<le> 255"
  have "js_Number (showInt a) = Some (of_int a)"
    using a fl_of_int[of a] by (simp add: showInt_def js_Number_digits[OF showNat_nonempty showNat_digits] decimalVal_digits[OF showNat_nonempty showNat_digits] digits_showNat)
  then show ?thesis using a by (simp add: byteOf_def)
qed

lemma split_none: "c \<notin> set s \<Longrightarrow> js_split c s = [s]"
  by (induction s) auto

lemma split_at: "c \<notin> set s \<Longrightarrow> js_split c (s @ c # t) = s # js_split c t"
  by (induction s) auto

lemma dot_not_digit: "0 \<le> a \<Longrightarrow> CHR ''.'' \<notin> set (showInt a)"
  using showNat_digits[of "nat a"] by (auto simp: showInt_def digitVal_def)

lemma ipv4_dotted:
  assumes "\<forall>x\<in>{a, b, c, d}. 0 \<le> x \<and> x \<le> 255"
  shows "ipv4ToBytes (dotted [a, b, c, d]) = Some [a, b, c, d]"
proof -
  have "js_split CHR ''.'' (dotted [a, b, c, d]) = map showInt [a, b, c, d]"
    using assms by (simp add: dotted_def split_at split_none dot_not_digit)
  then show ?thesis using assms by (simp add: ipv4ToBytes_def byteOf_showInt Let_def)
qed

section \<open>The blocked networks\<close>

definition ipWord :: "int \<Rightarrow> int \<Rightarrow> int \<Rightarrow> int \<Rightarrow> 32 word" where
  "ipWord a b c d = word_of_int (((a * 256 + b) * 256 + c) * 256 + d)"

definition inCidr :: "32 word \<Rightarrow> 32 word \<times> nat \<Rightarrow> bool" where
  "inCidr w net \<longleftrightarrow> drop_bit (32 - snd net) w = drop_bit (32 - snd net) (fst net)"

text \<open>This-network, private, loopback, carrier-grade NAT, link-local, protocol and documentation, benchmark,
  multicast and reserved networks.\<close>

definition blockedNetworks :: "(32 word \<times> nat) list" where
  "blockedNetworks = [(ipWord 0 0 0 0, 8), (ipWord 10 0 0 0, 8), (ipWord 127 0 0 0, 8), (ipWord 100 64 0 0, 10), (ipWord 169 254 0 0, 16), (ipWord 172 16 0 0, 12),
     (ipWord 192 168 0 0, 16), (ipWord 192 0 0 0, 16), (ipWord 198 18 0 0, 15), (ipWord 198 51 100 0, 24), (ipWord 203 0 113 0, 24), (ipWord 224 0 0 0, 3)]"

lemma uint_ipWord:
  assumes "\<forall>x\<in>{a, b, c, d}. 0 \<le> x \<and> x \<le> 255"
  shows "uint (ipWord a b c d) = ((a * 256 + b) * 256 + c) * 256 + d"
  unfolding ipWord_def uint_word_of_int using assms by (intro mod_pos_pos_trivial) auto

lemma inCidr_iff: "inCidr w (base, n) \<longleftrightarrow> uint w div 2 ^ (32 - n) = uint base div 2 ^ (32 - n)"
proof -
  have "uint (drop_bit k v) = uint v div 2 ^ k" for k and v :: "32 word"
    unfolding unsigned_drop_bit_eq using uint_lt2p[of v] by (simp add: drop_bit_eq_div[where 'a = int] take_bit_eq_mod)
  then show ?thesis by (simp only: inCidr_def word_uint_eq_iff fst_conv snd_conv)
qed

lemma div_low: "0 \<le> r \<Longrightarrow> r < m \<Longrightarrow> (x * m + r) div m = (x :: int)"
  by simp

lemma pair_eq:
  fixes a b K L m :: int
  assumes "0 \<le> b" "b < m" "0 \<le> L" "L < m"
  shows "a * m + b = K * m + L \<longleftrightarrow> a = K \<and> b = L"
proof
  assume eq: "a * m + b = K * m + L"
  then have "a = K" using div_low[of b m a] div_low[of L m K] assms by simp
  then show "a = K \<and> b = L" using eq by simp
qed simp

lemma div_upper:
  assumes "b < q * m" "0 < (m :: int)"
  shows "b div m < q"
proof -
  have "b div m * m \<le> b" using div_mult_mod_eq[of b m] pos_mod_sign[OF assms(2), of b] by linarith
  then have "b div m * m < q * m" using assms(1) by linarith
  then show ?thesis using assms(2) by simp
qed

lemma div_pair:
  fixes a b K L m q :: int
  assumes "0 \<le> b" "b < q * m" "0 < m" "0 \<le> L" "L < q"
  shows "(a * (q * m) + b) div m = K * q + L \<longleftrightarrow> a = K \<and> L * m \<le> b \<and> b < L * m + m"
proof -
  have d: "(a * (q * m) + b) div m = a * q + b div m" using assms(3) by (simp add: mult.assoc[symmetric])
  have "b div m < q" "0 \<le> b div m" using assms by (simp_all add: div_upper pos_imp_zdiv_nonneg_iff)
  then have "a * q + b div m = K * q + L \<longleftrightarrow> a = K \<and> b div m = L" using pair_eq[of "b div m" q L a K] assms by blast
  moreover have "b div m = L \<longleftrightarrow> L * m \<le> b \<and> b < L * m + m"
  proof
    assume "b div m = L"
    then show "L * m \<le> b \<and> b < L * m + m"
      using div_mult_mod_eq[of b m] pos_mod_sign[OF assms(3), of b] pos_mod_bound[OF assms(3), of b] by auto
  next
    assume "L * m \<le> b \<and> b < L * m + m"
    then show "b div m = L" using div_low[of "b - L * m" m L] by simp
  qed
  ultimately show ?thesis using d by simp
qed

lemma blocked_cidr:
  assumes r: "\<forall>x\<in>{a, b, c, d}. 0 \<le> x \<and> x \<le> 255"
  shows "blockedOctets a b c \<longleftrightarrow> list_ex (inCidr (ipWord a b c d)) blockedNetworks"
proof -
  define N where "N = ((a * 256 + b) * 256 + c) * 256 + d"
  have r': "0 \<le> a" "a \<le> 255" "0 \<le> b" "b \<le> 255" "0 \<le> c" "c \<le> 255" "0 \<le> d" "d \<le> 255" using r by auto
  have n8: "N div 2 ^ 8 = (a * 256 + b) * 256 + c" unfolding N_def using r' by (simp add: div_low)
  have n16: "N div 2 ^ 16 = a * 256 + b" using div_low[of "c * 256 + d" "2 ^ 16" "a * 256 + b"] r' by (simp add: N_def algebra_simps)
  have n24: "N div 2 ^ 24 = a" using div_low[of "b * 65536 + c * 256 + d" "2 ^ 24" a] r' by (simp add: N_def algebra_simps)
  have n20: "N div 2 ^ 20 = (a * 256 + b) div 2 ^ 4" using zdiv_zmult2_eq[of "2 ^ 4" N "2 ^ 16"] n16 by simp
  have n22: "N div 2 ^ 22 = (a * 256 + b) div 2 ^ 6" using zdiv_zmult2_eq[of "2 ^ 6" N "2 ^ 16"] n16 by simp
  have n17: "N div 2 ^ 17 = (a * 256 + b) div 2" using zdiv_zmult2_eq[of 2 N "2 ^ 16"] n16 by simp
  have n29: "N div 2 ^ 29 = a div 2 ^ 5" using zdiv_zmult2_eq[of "2 ^ 5" N "2 ^ 24"] n24 by simp
  have u: "uint (ipWord a b c d) = N" using uint_ipWord[OF r] by (simp add: N_def)
  have nets: "list_ex (inCidr (ipWord a b c d)) blockedNetworks \<longleftrightarrow>
      a = 0 \<or> a = 10 \<or> a = 127 \<or> (a * 256 + b) div 2 ^ 6 = (100 * 256 + 64) div 2 ^ 6 \<or> a * 256 + b = 169 * 256 + 254 \<or> (a * 256 + b) div 2 ^ 4 = (172 * 256 + 16) div 2 ^ 4
      \<or> a * 256 + b = 192 * 256 + 168 \<or> a * 256 + b = 192 * 256 \<or> (a * 256 + b) div 2 = (198 * 256 + 18) div 2
      \<or> (a * 256 + b) * 256 + c = (198 * 256 + 51) * 256 + 100 \<or> (a * 256 + b) * 256 + c = 203 * 65536 + 113 \<or> a div 2 ^ 5 = 7"
    unfolding blockedNetworks_def by (simp add: inCidr_iff u uint_ipWord n8[simplified] n16[simplified] n24[simplified] n20[simplified] n22[simplified] n17[simplified] n29[simplified])
  have q1: "a * 256 + b = 169 * 256 + 254 \<longleftrightarrow> a = 169 \<and> b = 254" "a * 256 + b = 192 * 256 + 168 \<longleftrightarrow> a = 192 \<and> b = 168"
    using pair_eq[of b 256 254 a 169] pair_eq[of b 256 168 a 192] r' by simp_all
  have d6: "(a * 256 + b) div 2 ^ 6 = (100 * 256 + 64) div 2 ^ 6 \<longleftrightarrow> a = 100 \<and> 64 \<le> b \<and> b \<le> 127"
    using div_pair[of b 4 64 1 a 100] r' by auto
  have d4: "(a * 256 + b) div 2 ^ 4 = (172 * 256 + 16) div 2 ^ 4 \<longleftrightarrow> a = 172 \<and> 16 \<le> b \<and> b \<le> 31"
    using div_pair[of b 16 16 1 a 172] r' by auto
  have d1: "(a * 256 + b) div 2 = (198 * 256 + 18) div 2 \<longleftrightarrow> a = 198 \<and> (b = 18 \<or> b = 19)"
    using div_pair[of b 128 2 9 a 198] r' by auto
  have d5: "a div 2 ^ 5 = 7 \<longleftrightarrow> 224 \<le> a" using div_pair[of a 8 32 7 0 0] r' by simp
  have p1: "a * 256 + b = 192 * 256 \<longleftrightarrow> a = 192 \<and> b = 0" using pair_eq[of b 256 0 a 192] r' by simp
  have t1: "(a * 256 + b) * 256 + c = (198 * 256 + 51) * 256 + 100 \<longleftrightarrow> a = 198 \<and> b = 51 \<and> c = 100"
    using pair_eq[of c 256 100 "a * 256 + b" "198 * 256 + 51"] pair_eq[of b 256 51 a 198] r' by simp
  have t2: "(a * 256 + b) * 256 + c = 203 * 65536 + 113 \<longleftrightarrow> a = 203 \<and> b = 0 \<and> c = 113"
    using pair_eq[of c 256 113 "a * 256 + b" "203 * 256"] pair_eq[of b 256 0 a 203] r' by simp
  show ?thesis unfolding nets blockedOctets_def d6 d4 d1 d5 p1 q1 t1 t2 ..
qed

lemma mapped_ipv4_blocked:
  assumes "\<forall>x\<in>{a, b, c, d}. 0 \<le> x \<and> x \<le> 255" "parseIpv6ToBytes text = Some (replicate 10 0 @ [0xff, 0xff, a, b, c, d])"
  shows "isBlockedIpv6 text = isBlockedIpv4 (dotted [a, b, c, d])"
  using assms(2) by (simp add: isBlockedIpv6_def mappedIpv4_def numeral_eq_Suc)

text \<open>C32: the guard blocks exactly the listed IPv4 networks. For every IPv4 address, written in dotted decimal
  or as any IPv6 text that denotes its IPv4-mapped address, the address test answers blocked exactly
  when the 32-bit address lies in one of the twelve networks.\<close>

theorem blocked_networks_exact:
  assumes "\<forall>x\<in>{a, b, c, d}. 0 \<le> x \<and> x \<le> 255"
  shows "isBlockedIpv4 (dotted [a, b, c, d]) = list_ex (inCidr (ipWord a b c d)) blockedNetworks
    \<and> (parseIpv6ToBytes text = Some (replicate 10 0 @ [0xff, 0xff, a, b, c, d]) \<longrightarrow> isBlockedIpv6 text = list_ex (inCidr (ipWord a b c d)) blockedNetworks)"
proof -
  have "isBlockedIpv4 (dotted [a, b, c, d]) = list_ex (inCidr (ipWord a b c d)) blockedNetworks"
    using ipv4_dotted[OF assms] blocked_cidr[OF assms] by (simp add: isBlockedIpv4_def)
  then show ?thesis using mapped_ipv4_blocked[OF assms] by blast
qed

theorem blocked_networks_exact_witness:
  "parseIpv6ToBytes ''::FFFF:10.1.2.3'' = Some (replicate 10 0 @ [0xff, 0xff, 10, 1, 2, 3]) \<and> isBlockedIpv6 ''::FFFF:10.1.2.3''"
proof -
  have "ipv4ToBytes ''10.1.2.3'' = Some [10, 1, 2, 3]"
  proof -
    have "dotted [10, 1, 2, 3] = ''10.1.2.3''" by code_simp
    then show ?thesis using ipv4_dotted[of 10 1 2 3] by simp
  qed
  moreover have "splitDouble (toLowerCase ''::FFFF:10.1.2.3'') = [[], ''ffff:10.1.2.3'']" by code_simp
  ultimately have p: "parseIpv6ToBytes ''::FFFF:10.1.2.3'' = Some (replicate 10 0 @ [0xff, 0xff, 10, 1, 2, 3])"
    by (simp add: parseIpv6ToBytes_def parseIpv6Hextets_def hexDigits_def hexVal_def parseHex_def digitsVal_def hextetBytes_def numeral_eq_Suc)
  have "list_ex (inCidr (ipWord 10 1 2 3)) blockedNetworks" using blocked_cidr[of 10 1 2 3] by (simp add: blockedOctets_def)
  then show ?thesis using blocked_networks_exact[of 10 1 2 3 "''::FFFF:10.1.2.3''"] p by simp
qed

section \<open>Requests\<close>

lemma checkOutbound_facts:
  assumes "checkOutboundUrl env rawUrl = Inr c"
  shows "ur_protocol (cu_url c) \<in> {''http:'', ''https:''}" "ur_username (cu_url c) = [] \<and> ur_password (cu_url c) = []"
    "\<not> isPrivateHostname (normalizeHostname (ur_hostname (cu_url c)))" "\<not> isPrivateOrSpecialAddress (oe_isIP env) (cu_address c)"
    "\<exists>self. currentSelfAddresses (oe_isIP env) (oe_selfIps env) (oe_interfaces env) = Inr self
      \<and> \<not> isSelf env self (if oe_isIP env (normalizeHostname (ur_hostname (cu_url c))) = 0 then normalizeHostname (cu_address c) else cu_address c)"
  using assms by (auto simp: checkOutboundUrl_def Let_def list_ex_iff split: option.splits if_splits)

text \<open>C20: an outbound fetch that answers has talked only to a public address. Its URL is http or https
  without credentials and names no private host; the address the transport was pinned to is not
  private or special and is not an address of this host; and the answer is no redirect, whatever
  Node's address test, the URL parser, DNS and the transport do.\<close>

theorem outbound_fetch_public:
  assumes "safeOutboundFetch env transport resolve rawUrl = Inr response"
  shows "\<exists>c self. checkOutboundUrl env rawUrl = Inr c
    \<and> transport (cu_url c) (cu_address c) (cu_family c) (normalizeHostname (ur_hostname (cu_url c))) = Inr response
    \<and> ur_protocol (cu_url c) \<in> {''http:'', ''https:''} \<and> ur_username (cu_url c) = [] \<and> ur_password (cu_url c) = []
    \<and> \<not> isPrivateHostname (normalizeHostname (ur_hostname (cu_url c))) \<and> \<not> isPrivateOrSpecialAddress (oe_isIP env) (cu_address c)
    \<and> currentSelfAddresses (oe_isIP env) (oe_selfIps env) (oe_interfaces env) = Inr self
    \<and> \<not> isSelf env self (if oe_isIP env (normalizeHostname (ur_hostname (cu_url c))) = 0 then normalizeHostname (cu_address c) else cu_address c)
    \<and> \<not> (300 \<le> or_status response \<and> or_status response < 400)"
proof -
  obtain c where c: "checkOutboundUrl env rawUrl = Inr c" "transport (cu_url c) (cu_address c) (cu_family c) (normalizeHostname (ur_hostname (cu_url c))) = Inr response"
    "\<not> (300 \<le> or_status response \<and> or_status response < 400)"
    using assms by (auto simp: safeOutboundFetch_def split: if_splits option.splits)
  then show ?thesis using checkOutbound_facts[OF c(1)] by blast
qed

definition demoEnv :: OutboundEnv where
  "demoEnv = \<lparr>oe_isIP = (\<lambda>h. if h = ''9.9.9.9'' then 4 else 0), oe_parseUrl = (\<lambda>_. Some \<lparr>ur_protocol = ''https:'', ur_username = [], ur_password = [], ur_hostname = ''h'', ur_rest = [], ur_hash = []\<rparr>),
     oe_lookup = (\<lambda>_. Inr [\<lparr>la_address = ''9.9.9.9'', la_family = 4\<rparr>]), oe_abortedBefore = False, oe_abortedAfter = False, oe_selfIps = [], oe_interfaces = []\<rparr>"

definition demoTransport :: "Url \<Rightarrow> string \<Rightarrow> nat \<Rightarrow> string \<Rightarrow> OutboundResponse res" where
  "demoTransport url address family servername = Inr \<lparr>or_status = 200, or_location = None, or_body = []\<rparr>"

lemma demo_outbound: "safeOutboundFetch demoEnv demoTransport (\<lambda>l _. Inr l) ''u'' = Inr \<lparr>or_status = 200, or_location = None, or_body = []\<rparr>"
proof -
  have n: "normalizeHostname ''h'' = ''h''" "normalizeHostname ''9.9.9.9'' = ''9.9.9.9''" by code_simp+
  have "dotted [9, 9, 9, 9] = ''9.9.9.9''" by code_simp
  then have "isBlockedIpv4 ''9.9.9.9'' = False" using ipv4_dotted[of 9 9 9 9] by (simp add: isBlockedIpv4_def blockedOctets_def)
  then have "isPrivateOrSpecialAddress (oe_isIP demoEnv) ''9.9.9.9'' = False" by (simp add: isPrivateOrSpecialAddress_def n demoEnv_def)
  moreover have "\<not> isPrivateHostname ''h''" "js_trim ''u'' = ''u''" by code_simp+
  moreover have "currentSelfAddresses (oe_isIP demoEnv) [] [] = Inr []" by (simp add: currentSelfAddresses_def js_trim_def)
  ultimately show ?thesis
    by (simp add: safeOutboundFetch_def checkOutboundUrl_def demoTransport_def demoEnv_def n isSelf_def Let_def split: option.splits del: bindE_Inr_iff)
qed

theorem outbound_fetch_public_witness:
  "\<exists>response c. safeOutboundFetch demoEnv demoTransport (\<lambda>l _. Inr l) ''u'' = Inr response \<and> checkOutboundUrl demoEnv ''u'' = Inr c \<and> \<not> isPrivateOrSpecialAddress (oe_isIP demoEnv) (cu_address c)"
  using outbound_fetch_public[OF demo_outbound] demo_outbound by blast

section \<open>The response body\<close>

definition chunksOf :: "BodyEvent list \<Rightarrow> int list" where
  "chunksOf evs = concat (map (\<lambda>e. case e of DataChunk c \<Rightarrow> c | _ \<Rightarrow> []) evs)"

text \<open>While a response is open, the buffer starts with the bytes received so far; a resolved body is what had
  been received.\<close>

definition bodyOk :: "int list \<Rightarrow> BodyState \<Rightarrow> bool" where
  "bodyOk received st \<longleftrightarrow> length (bo_body st) \<le> MAX_OUTBOUND_RESPONSE_BYTES \<and> (case bo_settled st of
       None \<Rightarrow> bo_receivedBytes st = length received \<and> length received \<le> length (bo_body st) \<and> take (length received) (bo_body st) = received \<and> (bo_bodyless st \<longrightarrow> received = [])
     | Some (Resolved b) \<Rightarrow> bo_body st = [] \<and> length b \<le> MAX_OUTBOUND_RESPONSE_BYTES \<and> (\<exists>rest. received = b @ rest)
     | Some (Rejected _) \<Rightarrow> bo_body st = [])"

lemma copyAt_length: "pos + length chunk \<le> length target \<Longrightarrow> length (copyAt chunk pos target) = length target"
  by (simp add: copyAt_def)

lemma copyAt_take: "pos + length chunk \<le> length target \<Longrightarrow> take (pos + length chunk) (copyAt chunk pos target) = take pos target @ chunk"
  by (simp add: copyAt_def)

lemma failBody_ok: "bodyOk received st \<Longrightarrow> bodyOk (received @ rest) (failBody m st)"
  by (cases "bo_settled st") (auto simp: failBody_def bodyOk_def split: OutboundOutcome.splits)

lemma settled_ok: "bodyOk received st \<Longrightarrow> bo_settled st \<noteq> None \<Longrightarrow> bodyOk (received @ rest) st"
  by (auto simp: bodyOk_def split: option.splits OutboundOutcome.splits)

lemma onEnd_ok: "bodyOk received st \<Longrightarrow> bodyOk received (onEnd st)"
  by (cases "bo_settled st") (auto simp: onEnd_def bodyOk_def split: OutboundOutcome.splits)

text \<open>A chunk that fits is appended; the buffer grows to hold it but never past the limit.\<close>

lemma onData_fits:
  assumes alloc: "\<And>n. length (alloc n) = n" and ok: "bodyOk received st" and open': "bo_settled st = None" "\<not> bo_bodyless st \<or> chunk = []"
    and fits: "length received + length chunk \<le> MAX_OUTBOUND_RESPONSE_BYTES"
  shows "bo_settled (onData alloc chunk st) = None \<and> bo_bodyless (onData alloc chunk st) = bo_bodyless st \<and> bodyOk (received @ chunk) (onData alloc chunk st)"
proof (cases "chunk = []")
  case True
  then show ?thesis using ok open' by (simp add: onData_def)
next
  case False
  define r where "r = length received"
  have st: "bo_receivedBytes st = r" "r \<le> length (bo_body st)" "take r (bo_body st) = received" "length (bo_body st) \<le> MAX_OUTBOUND_RESPONSE_BYTES"
    using ok open' by (auto simp: bodyOk_def r_def)
  define cap where "cap = min MAX_OUTBOUND_RESPONSE_BYTES (max (64 * 1024) (max (r + length chunk) (length (bo_body st) * 2)))"
  define body where "body = (if length (bo_body st) < r + length chunk then copyAt received 0 (alloc cap) else bo_body st)"
  have cap: "r + length chunk \<le> cap" "cap \<le> MAX_OUTBOUND_RESPONSE_BYTES" using fits by (auto simp: cap_def r_def)
  have body: "r + length chunk \<le> length body" "length body \<le> MAX_OUTBOUND_RESPONSE_BYTES" "take r body = received"
    using cap st alloc by (auto simp: body_def copyAt_def r_def)
  have "onData alloc chunk st = st\<lparr>bo_body := copyAt chunk r body, bo_receivedBytes := r + length chunk\<rparr>"
    using False open' fits st by (simp add: onData_def Let_def body_def cap_def r_def)
  then show ?thesis using body open' False copyAt_take[OF body(1)] copyAt_length[OF body(1)] by (auto simp: bodyOk_def r_def)
qed

lemma onData_ok:
  assumes "\<And>n. length (alloc n) = n" "bodyOk received st"
  shows "bodyOk (received @ chunk) (onData alloc chunk st)"
proof -
  consider (settled) "bo_settled st \<noteq> None" | (fits) "bo_settled st = None" "\<not> bo_bodyless st \<or> chunk = []" "length received + length chunk \<le> MAX_OUTBOUND_RESPONSE_BYTES"
    | (fails) m where "bo_settled st = None" "onData alloc chunk st = failBody m st"
  proof (cases "bo_settled st")
    case None
    then have r: "bo_receivedBytes st = length received" "length received \<le> MAX_OUTBOUND_RESPONSE_BYTES" using assms(2) by (auto simp: bodyOk_def)
    show thesis
    proof (cases "bo_bodyless st \<and> 0 < length chunk \<or> MAX_OUTBOUND_RESPONSE_BYTES - length received < length chunk")
      case True
      then show thesis using fails None r by (cases "bo_bodyless st \<and> 0 < length chunk") (auto simp: onData_def)
    next
      case False
      then show thesis using fits None r by auto
    qed
  qed (use settled in auto)
  then show ?thesis
  proof cases
    case settled
    then show ?thesis using settled_ok[OF assms(2)] by (simp add: onData_def)
  next
    case fits
    then show ?thesis using onData_fits[OF assms] by blast
  next
    case fails
    then show ?thesis using failBody_ok[OF assms(2)] by simp
  qed
qed

lemma bodyStep_ok:
  assumes "\<And>n. length (alloc n) = n" "bodyOk received st"
  shows "bodyOk (received @ chunksOf [ev]) (bodyStep alloc ev st)"
  using onData_ok[OF assms] onEnd_ok[OF assms(2)] failBody_ok[OF assms(2), of "[]"] by (cases ev) (simp_all add: bodyStep_def chunksOf_def)

lemma bodyRun_ok:
  assumes "\<And>n. length (alloc n) = n" "bodyOk received st"
  shows "bodyOk (received @ chunksOf evs) (fold (bodyStep alloc) evs st)"
  using assms(2)
proof (induction evs arbitrary: received st)
  case (Cons ev evs)
  then show ?case using Cons.IH[OF bodyStep_ok[OF assms(1) Cons.prems, of ev]] by (simp add: chunksOf_def)
qed (simp add: chunksOf_def)

lemma onResponse_ok: "bodyOk [] (onResponse verb status declared)"
  by (auto simp: onResponse_def bodyOk_def failBody_def Let_def)

lemma open_run:
  assumes "\<And>n. length (alloc n) = n" "bodyOk received st" "bo_settled st = None" "\<not> bo_bodyless st" "length received + length (concat cs) \<le> MAX_OUTBOUND_RESPONSE_BYTES"
  shows "let st' = fold (bodyStep alloc) (map DataChunk cs) st in bo_settled st' = None \<and> \<not> bo_bodyless st' \<and> bodyOk (received @ concat cs) st'"
  using assms(2-)
proof (induction cs arbitrary: received st)
  case (Cons c cs)
  have "length received + length c \<le> MAX_OUTBOUND_RESPONSE_BYTES" using Cons.prems(4) by simp
  note fits = onData_fits[OF assms(1) Cons.prems(1,2) disjI1[OF Cons.prems(3)] this]
  then have "let st' = fold (bodyStep alloc) (map DataChunk cs) (onData alloc c st) in bo_settled st' = None \<and> \<not> bo_bodyless st' \<and> bodyOk ((received @ c) @ concat cs) st'"
    using Cons.prems(3,4) by (intro Cons.IH) auto
  then show ?case by (simp add: bodyStep_def[of alloc "DataChunk c"])
qed simp

text \<open>C36: the response buffer is bounded and the body faithful. Whatever events the transport delivers in
  whatever order, the buffer never exceeds 8 MiB, nothing is kept after a failure, and a resolved
  body is a prefix of the bytes received, within the limit; and a response with a body whose chunks
  stay within the limit is delivered completely at its end.\<close>

theorem response_body_bounded:
  assumes "\<And>n. length (alloc n) = n"
  shows "(let st = fold (bodyStep alloc) evs (onResponse verb status declared)
      in length (bo_body st) \<le> MAX_OUTBOUND_RESPONSE_BYTES \<and> (case bo_settled st of
           Some (Resolved b) \<Rightarrow> length b \<le> MAX_OUTBOUND_RESPONSE_BYTES \<and> prefix b (chunksOf evs) | Some (Rejected _) \<Rightarrow> bo_body st = [] | None \<Rightarrow> True))
    \<and> (\<not> bo_bodyless (onResponse verb status declared) \<and> bo_settled (onResponse verb status declared) = None \<and> length (concat cs) \<le> MAX_OUTBOUND_RESPONSE_BYTES
        \<longrightarrow> bo_settled (fold (bodyStep alloc) (map DataChunk cs @ [EndOfBody]) (onResponse verb status declared)) = Some (Resolved (concat cs)))"
proof -
  have "bodyOk (chunksOf evs) (fold (bodyStep alloc) evs (onResponse verb status declared))"
    using bodyRun_ok[OF assms onResponse_ok, where evs = evs] by simp
  moreover have "bo_settled (fold (bodyStep alloc) (map DataChunk cs @ [EndOfBody]) (onResponse verb status declared)) = Some (Resolved (concat cs))"
    if open': "\<not> bo_bodyless (onResponse verb status declared)" "bo_settled (onResponse verb status declared) = None" "length (concat cs) \<le> MAX_OUTBOUND_RESPONSE_BYTES"
    using open_run[OF assms onResponse_ok open'(2,1), of cs] open'(3) by (auto simp: Let_def bodyStep_def[of alloc EndOfBody] onEnd_def bodyOk_def)
  ultimately show ?thesis by (auto simp: bodyOk_def prefix_def Let_def split: option.splits OutboundOutcome.splits)
qed

theorem response_body_bounded_witness:
  "bo_settled (fold (bodyStep (\<lambda>n. replicate n 0)) (map DataChunk [[1, 2], [], [3]] @ [EndOfBody]) (onResponse ''get'' 200 (Some 3))) = Some (Resolved [1, 2, 3])"
proof -
  have o: "\<not> bo_bodyless (onResponse ''get'' 200 (Some 3))" "bo_settled (onResponse ''get'' 200 (Some 3)) = None"
    by (simp_all add: onResponse_def toUpperCase_def js_upper_char_def MAX_OUTBOUND_RESPONSE_BYTES_def Let_def)
  have "bo_settled (fold (bodyStep (\<lambda>n. replicate n 0)) (map DataChunk [[1, 2], [], [3]] @ [EndOfBody]) (onResponse ''get'' 200 (Some 3))) = Some (Resolved (concat [[1, 2], [], [3]]))"
    using response_body_bounded[where alloc = "\<lambda>n. replicate n 0" and evs = "[]" and verb = "''get''" and status = 200 and declared = "Some 3" and cs = "[[1, 2], [], [3]]"] o
    by (simp only: length_replicate) (simp add: MAX_OUTBOUND_RESPONSE_BYTES_def)
  then show ?thesis by simp
qed

end
