(* ===== verification/LicensePolicy.thy ===== *)
theory LicensePolicy
  imports JsText "HOL-Library.AList"
begin

text \<open>
  The policies and pure rules of licensing: the per-app device policy registry
  (licensing/device-policy.ts), the entitlement authorization policy and its decision points
  (licensing/entitlement-policy.ts), the tier catalogs and update rules (licensing/entitlements.ts),
  the lifecycle plan of a licence's tokens (licensing/license-lifecycle.ts, renewal.ts, trial.ts) and
  the token signer (licensing/sign.ts).

  An instant is an \<open>int\<close> of milliseconds (\<open>Date.getTime\<close>), a unix time an \<open>int\<close> of seconds. A JavaScript
  record with string keys is an association list. The JSON text of a token is identified with the
  JSON value it denotes; Ed25519 is a parameter.
\<close>

type_synonym instant = int

definition unix :: "instant \<Rightarrow> int" where
  "unix d = d div 1000"

definition MS_PER_DAY :: int where
  "MS_PER_DAY = 86400000"

section \<open>Device policies\<close>

definition KNOWN_PLATFORMS :: "string list" where
  "KNOWN_PLATFORMS = [''macos'', ''windows'', ''linux'', ''ios'', ''ipados'', ''android'', ''watchos'']"

definition DEFAULT_PLATFORM_POOL :: "(string \<times> string) list" where
  "DEFAULT_PLATFORM_POOL = [(''macos'', ''computer''), (''windows'', ''computer''), (''linux'', ''computer''),
     (''ios'', ''mobile''), (''ipados'', ''mobile''), (''android'', ''mobile''), (''watchos'', ''companion'')]"

record DevicePolicy =
  dp_marker :: string
  dp_poolCaps :: "(string \<times> int) list option"
  dp_leasablePools :: "string list option"
  dp_pooledSeats :: "bool option"
  dp_platformPools :: "(string \<times> string) list option"
  dp_leaseTtlSeconds :: "int option"
  dp_leaseGraceSeconds :: "int option"
  dp_activationSources :: "(string \<times> string \<times> string) list option"

type_synonym DevicePolicies = "string \<rightharpoonup> DevicePolicy"

definition registerDevicePolicy :: "string \<Rightarrow> DevicePolicy \<Rightarrow> DevicePolicies \<Rightarrow> DevicePolicies" where
  "registerDevicePolicy appKey policy policies = policies(appKey \<mapsto> policy)"

definition clearDevicePolicies :: "DevicePolicies \<Rightarrow> DevicePolicies" where
  "clearDevicePolicies policies = (\<lambda>_. None)"

definition devicePolicyFor :: "DevicePolicies \<Rightarrow> string \<Rightarrow> DevicePolicy option" where
  "devicePolicyFor policies appKey = policies appKey"

definition DEFAULT_LEASE_TTL_SECONDS :: int where
  "DEFAULT_LEASE_TTL_SECONDS = 7 * 86400"

definition DEFAULT_LEASE_GRACE_SECONDS :: int where
  "DEFAULT_LEASE_GRACE_SECONDS = 14 * 86400"

definition DEFAULT_LEASABLE_POOLS :: "string list" where
  "DEFAULT_LEASABLE_POOLS = [''computer'', ''mobile'']"

definition DEFAULT_ACTIVATION_SOURCES :: "(string \<times> string \<times> string) list" where
  "DEFAULT_ACTIVATION_SOURCES = [(''desktop'', ''desktop'', ''computer'')]"

fun metadataRecord :: "json \<Rightarrow> (string \<times> json) list" where
  "metadataRecord (JObj kvs) = kvs"
| "metadataRecord _ = []"

definition withCurrentDevicePolicy :: "DevicePolicies \<Rightarrow> string \<Rightarrow> json \<Rightarrow> json" where
  "withCurrentDevicePolicy policies appKey metadata = (case devicePolicyFor policies appKey of
     None \<Rightarrow> metadata
   | Some policy \<Rightarrow> JObj (AList.update ''device_policy'' (JStr (dp_marker policy)) (metadataRecord metadata)))"

definition hasCurrentDevicePolicy :: "DevicePolicies \<Rightarrow> string \<Rightarrow> json \<Rightarrow> bool" where
  "hasCurrentDevicePolicy policies appKey metadata = (case devicePolicyFor policies appKey of
     None \<Rightarrow> False
   | Some policy \<Rightarrow> map_of (metadataRecord metadata) ''device_policy'' = Some (JStr (dp_marker policy)))"

definition usesBoundedDevicePools :: "DevicePolicies \<Rightarrow> string \<Rightarrow> int \<Rightarrow> json \<Rightarrow> bool" where
  "usesBoundedDevicePools policies appKey seats metadata =
     (devicePolicyFor policies appKey \<noteq> None \<and> (seats > 0 \<or> hasCurrentDevicePolicy policies appKey metadata))"

definition isKnownPlatform :: "string \<Rightarrow> bool" where
  "isKnownPlatform platform = (platform \<in> set KNOWN_PLATFORMS)"

text \<open>\<open>a?.[k]\<close> on an optional record.\<close>

definition optGet :: "(string \<times> 'a) list option \<Rightarrow> string \<Rightarrow> 'a option" where
  "optGet m k = (case m of None \<Rightarrow> None | Some kvs \<Rightarrow> map_of kvs k)"

definition derivePool :: "DevicePolicies \<Rightarrow> string \<Rightarrow> string \<Rightarrow> string option" where
  "derivePool policies appKey platform =
     (case Option.bind (devicePolicyFor policies appKey) (\<lambda>p. optGet (dp_platformPools p) platform) of
        Some (c # cs) \<Rightarrow> Some (c # cs)
      | _ \<Rightarrow> map_of DEFAULT_PLATFORM_POOL platform)"

text \<open>A pool without a cap is uncapped (\<open>Number.POSITIVE_INFINITY\<close>), which is \<open>None\<close>.\<close>

definition poolCap :: "DevicePolicies \<Rightarrow> string \<Rightarrow> string \<Rightarrow> int option" where
  "poolCap policies appKey pool = Option.bind (devicePolicyFor policies appKey) (\<lambda>p. optGet (dp_poolCaps p) pool)"

definition leasablePool :: "DevicePolicies \<Rightarrow> string \<Rightarrow> string \<Rightarrow> bool" where
  "leasablePool policies appKey pool =
     (pool \<in> set (orElse (Option.bind (devicePolicyFor policies appKey) dp_leasablePools) DEFAULT_LEASABLE_POOLS))"

definition leaseTtlSecondsFor :: "DevicePolicies \<Rightarrow> string \<Rightarrow> int" where
  "leaseTtlSecondsFor policies appKey =
     orElse (Option.bind (devicePolicyFor policies appKey) dp_leaseTtlSeconds) DEFAULT_LEASE_TTL_SECONDS"

definition leaseGraceSecondsFor :: "DevicePolicies \<Rightarrow> string \<Rightarrow> int" where
  "leaseGraceSecondsFor policies appKey =
     orElse (Option.bind (devicePolicyFor policies appKey) dp_leaseGraceSeconds) DEFAULT_LEASE_GRACE_SECONDS"

definition activationSourceDefaults :: "DevicePolicies \<Rightarrow> string \<Rightarrow> string \<Rightarrow> (string \<times> string) option" where
  "activationSourceDefaults policies appKey source = (case devicePolicyFor policies appKey of
     None \<Rightarrow> None
   | Some policy \<Rightarrow> map_of (orElse (dp_activationSources policy) DEFAULT_ACTIVATION_SOURCES) source)"

section \<open>The entitlement policy\<close>

datatype EntitlementPath = ActivatePath | RefreshPath | UpdateFeedPath | LeaseIssuePath | LeaseRenewPath
  | TrialStartPath | TrialResendPath | StorekitLinkPath | WindowsLinkPath

datatype ExtensionPath = ExtActivate | ExtRefresh | ExtLeaseIssue | ExtTrial

record PolicyLicense =
  pl_id :: string
  pl_appKey :: string
  pl_status :: string
  pl_seats :: int
  pl_expiresAt :: "instant option"
  pl_metadata :: json

datatype PolicyDecision = Allow | DenyNotFound | RejectedPlatform string

record AuthorizeContext =
  az_path :: EntitlementPath
  az_storeId :: string
  az_license :: PolicyLicense
  az_platform :: "string option"
  az_pool :: "string option"
  az_ext :: "(string \<times> json) list"
  az_now :: instant

datatype EntitlementScope = MobileScope | FullScope

record TrialContext =
  tc_storeId :: string
  tc_appKey :: string
  tc_email :: string
  tc_resend :: bool
  tc_priorMetadata :: json
  tc_ext :: "(string \<times> json) list"
  tc_now :: instant

record TrialDecision =
  td_days :: int
  td_metadata :: "(string \<times> json) list"

record ExtensionIssue =
  ei_path :: "string list"
  ei_message :: string

text \<open>The hooks of a registered policy; a missing hook is \<open>None\<close>. \<open>authorize\<close> may read the tables of the
  transaction and may throw. A request extension schema answers the issues it found or the data.\<close>

record 'tx EntitlementPolicy =
  ep_id :: string
  ep_internalInvalid :: bool
  ep_requestExtensions :: "ExtensionPath \<Rightarrow> (json \<Rightarrow> ExtensionIssue list + (string \<times> json) list) option"
  ep_authorize :: "('tx \<Rightarrow> AuthorizeContext \<Rightarrow> PolicyDecision res) option"
  ep_claims :: "(EntitlementPath \<Rightarrow> string \<Rightarrow> json \<Rightarrow> string option \<Rightarrow> EntitlementScope option) option"
  ep_leaseUnlimited :: "(string \<Rightarrow> int \<Rightarrow> json \<Rightarrow> string \<Rightarrow> bool) option"
  ep_trial :: "(TrialContext \<Rightarrow> TrialDecision) option"

definition DEFAULT_ENTITLEMENT_POLICY :: "'tx EntitlementPolicy" where
  "DEFAULT_ENTITLEMENT_POLICY = \<lparr>ep_id = ''default'', ep_internalInvalid = False, ep_requestExtensions = (\<lambda>_. None),
     ep_authorize = None, ep_claims = None, ep_leaseUnlimited = None, ep_trial = None\<rparr>"

definition registerEntitlementPolicy :: "'tx EntitlementPolicy \<Rightarrow> 'tx EntitlementPolicy option \<Rightarrow> 'tx EntitlementPolicy option" where
  "registerEntitlementPolicy policy active = Some policy"

definition clearEntitlementPolicy :: "'tx EntitlementPolicy option \<Rightarrow> 'tx EntitlementPolicy option" where
  "clearEntitlementPolicy active = None"

definition entitlementPolicy :: "'tx EntitlementPolicy option \<Rightarrow> 'tx EntitlementPolicy" where
  "entitlementPolicy active = orElse active DEFAULT_ENTITLEMENT_POLICY"

definition authorizeEntitlement :: "'tx EntitlementPolicy option \<Rightarrow> 'tx \<Rightarrow> AuthorizeContext \<Rightarrow> PolicyDecision res" where
  "authorizeEntitlement active tx ctx = (case ep_authorize (entitlementPolicy active) of None \<Rightarrow> Inr Allow | Some f \<Rightarrow> f tx ctx)"

definition policyClaims :: "'tx EntitlementPolicy option \<Rightarrow> EntitlementPath \<Rightarrow> string \<Rightarrow> json \<Rightarrow> string option \<Rightarrow> EntitlementScope option" where
  "policyClaims active path appKey metadata pool =
     (case ep_claims (entitlementPolicy active) of None \<Rightarrow> None | Some f \<Rightarrow> f path appKey metadata pool)"

definition policyLeaseUnlimited :: "'tx EntitlementPolicy option \<Rightarrow> string \<Rightarrow> int \<Rightarrow> json \<Rightarrow> string \<Rightarrow> bool" where
  "policyLeaseUnlimited active appKey seats metadata pool =
     (case ep_leaseUnlimited (entitlementPolicy active) of None \<Rightarrow> False | Some f \<Rightarrow> f appKey seats metadata pool)"

definition TRIAL_DAYS :: int where
  "TRIAL_DAYS = 14"

definition trialExpiresAt :: "instant \<Rightarrow> int \<Rightarrow> instant" where
  "trialExpiresAt now days = now + days * MS_PER_DAY"

definition policyTrial :: "'tx EntitlementPolicy option \<Rightarrow> TrialContext \<Rightarrow> TrialDecision" where
  "policyTrial active ctx = (case ep_trial (entitlementPolicy active) of
     None \<Rightarrow> \<lparr>td_days = TRIAL_DAYS, td_metadata = []\<rparr> | Some f \<Rightarrow> f ctx)"

definition extensionMessage :: "ExtensionIssue list \<Rightarrow> string" where
  "extensionMessage issues =
     (let p = (case issues of [] \<Rightarrow> [] | i # _ \<Rightarrow> js_join ''.'' (ei_path i));
          m = (case issues of [] \<Rightarrow> [] | i # _ \<Rightarrow> ei_message i)
      in js_trim (''invalid request: '' @ (if p = [] then ''body'' else p) @ '' '' @ m))"

definition parseRequestExtensions :: "'tx EntitlementPolicy option \<Rightarrow> ExtensionPath \<Rightarrow> json \<Rightarrow> (string \<times> json) list res" where
  "parseRequestExtensions active path raw = (case ep_requestExtensions (entitlementPolicy active) path of
     None \<Rightarrow> Inr []
   | Some schema \<Rightarrow> (case schema raw of
       Inl issues \<Rightarrow> (if ep_internalInvalid (entitlementPolicy active) then Inl (Err ''invalid request extension'')
                      else Inl (Coded ''INVALID_REQUEST'' (extensionMessage issues)))
     | Inr kvs \<Rightarrow> Inr kvs))"

section \<open>Tiers and updates\<close>

record TierCatalog =
  tg_aliases :: "(string \<times> string) list option"
  tg_features :: "(string \<times> string list) list option"

type_synonym TierCatalogs = "string \<rightharpoonup> TierCatalog"

definition registerTierCatalog :: "string \<Rightarrow> TierCatalog \<Rightarrow> TierCatalogs \<Rightarrow> TierCatalogs" where
  "registerTierCatalog appKey catalog catalogs = catalogs(appKey \<mapsto> catalog)"

definition clearTierCatalogs :: "TierCatalogs \<Rightarrow> TierCatalogs" where
  "clearTierCatalogs catalogs = (\<lambda>_. None)"

definition tierCatalogFor :: "TierCatalogs \<Rightarrow> string \<Rightarrow> TierCatalog option" where
  "tierCatalogFor catalogs appKey = catalogs appKey"

definition resolveAuthorizationTier :: "TierCatalogs \<Rightarrow> string option \<Rightarrow> string option \<Rightarrow> string option" where
  "resolveAuthorizationTier catalogs appKey plan = (case plan of
     None \<Rightarrow> None
   | Some p \<Rightarrow> Some (orElse (case appKey of Some (c # cs) \<Rightarrow> Option.bind (tierCatalogFor catalogs (c # cs)) (\<lambda>t. optGet (tg_aliases t) p) | _ \<Rightarrow> None) p))"

definition canReceiveUpdate :: "string \<Rightarrow> instant option \<Rightarrow> instant \<Rightarrow> bool" where
  "canReceiveUpdate status updatesUntil now = (status = ''active'' \<and> (case updatesUntil of None \<Rightarrow> True | Some u \<Rightarrow> now \<le> u))"

definition canAccessDownload :: "string \<Rightarrow> instant option \<Rightarrow> instant \<Rightarrow> bool" where
  "canAccessDownload status expiresAt now = (status = ''active'' \<and> (case expiresAt of None \<Rightarrow> True | Some e \<Rightarrow> now \<le> e))"

definition canReceiveTieredUpdate :: "TierCatalogs \<Rightarrow> string \<Rightarrow> instant option \<Rightarrow> instant option \<Rightarrow> string option \<Rightarrow> json \<Rightarrow> string \<Rightarrow> instant \<Rightarrow> bool" where
  "canReceiveTieredUpdate catalogs status updatesUntil expiresAt appKey metadata requiredTier now =
     (canReceiveUpdate status updatesUntil now \<and> (case expiresAt of None \<Rightarrow> True | Some e \<Rightarrow> \<not> e < now)
      \<and> (case metadata of
           JObj kvs \<Rightarrow> resolveAuthorizationTier catalogs appKey (jstr (map_of kvs ''tier'')) = Some requiredTier
         | _ \<Rightarrow> False))"

record Entitlements =
  en_tier :: "string option"
  en_features :: "json list"

text \<open>\<open>metadata.tier\<close> is a string or absent, as issuance writes it.\<close>

definition buildEntitlements :: "TierCatalogs \<Rightarrow> string \<Rightarrow> json \<Rightarrow> Entitlements" where
  "buildEntitlements catalogs appKey metadata =
     (let tier = resolveAuthorizationTier catalogs (Some appKey) (jstr (jget ''tier'' (Some metadata)))
      in \<lparr>en_tier = tier, en_features = (case jget ''features'' (Some metadata) of
            Some (JArr fs) \<Rightarrow> fs
          | _ \<Rightarrow> (case tier of
              Some (c # cs) \<Rightarrow> map JStr (orElse (Option.bind (tierCatalogFor catalogs appKey) (\<lambda>t. optGet (tg_features t) (c # cs))) [])
            | _ \<Rightarrow> []))\<rparr>)"

definition extendEntitlement :: "instant option \<Rightarrow> int option \<Rightarrow> instant \<Rightarrow> instant option" where
  "extendEntitlement current durationDays now = (case durationDays of
     None \<Rightarrow> None
   | Some days \<Rightarrow> Some ((case current of Some c \<Rightarrow> if c > now then c else now | None \<Rightarrow> now) + days * MS_PER_DAY))"

section \<open>Lifecycle plans\<close>

datatype LicenseKind = TrialLicense | LifetimeLicense | TermLicense

datatype EntitlementStage = TimeBound | Provisional | FinalStage

record LicenseLifecyclePlan =
  lp_licenseKind :: LicenseKind
  lp_entitlementStage :: EntitlementStage
  lp_licenseIssuedAtUnix :: int
  lp_confirmationDueAtUnix :: "int option"
  lp_tokenExpiresAtUnix :: int
  lp_validUntil :: "instant option"

definition LIFETIME_CONFIRMATION_DAYS :: int where
  "LIFETIME_CONFIRMATION_DAYS = 30"

definition FINAL_LIFETIME_EXP_UNIX :: int where
  "FINAL_LIFETIME_EXP_UNIX = 253402300799"

definition ROLLING_TERM_TOKEN_DAYS :: int where
  "ROLLING_TERM_TOKEN_DAYS = 30"

record LifecycleWindows =
  lw_lifetimeConfirmationDays :: "int option"
  lw_rollingTermTokenDays :: "int option"
  lw_finalLifetimeExpUnix :: "int option"

definition planLicenseLifecycle :: "instant \<Rightarrow> instant option \<Rightarrow> json \<Rightarrow> instant \<Rightarrow> LifecycleWindows \<Rightarrow> LicenseLifecyclePlan" where
  "planLicenseLifecycle createdAt expiresAt metadata now windows =
     (let confirmationDays = orElse (lw_lifetimeConfirmationDays windows) LIFETIME_CONFIRMATION_DAYS;
          rollingTermDays = orElse (lw_rollingTermTokenDays windows) ROLLING_TERM_TOKEN_DAYS;
          finalLifetimeExp = orElse (lw_finalLifetimeExpUnix windows) FINAL_LIFETIME_EXP_UNIX;
          issued = unix createdAt; nowUnix = unix now
      in case expiresAt of
        Some e \<Rightarrow> (let hardExpiry = unix e; isTrial = (map_of (metadataRecord metadata) ''kind'' = Some (JStr ''trial'')) in
          \<lparr>lp_licenseKind = (if isTrial then TrialLicense else TermLicense), lp_entitlementStage = TimeBound,
            lp_licenseIssuedAtUnix = issued, lp_confirmationDueAtUnix = None,
            lp_tokenExpiresAtUnix = (if isTrial then hardExpiry else min hardExpiry (nowUnix + rollingTermDays * 86400)),
            lp_validUntil = Some e\<rparr>)
      | None \<Rightarrow> (let due = issued + confirmationDays * 86400 in
          if nowUnix < due
          then \<lparr>lp_licenseKind = LifetimeLicense, lp_entitlementStage = Provisional, lp_licenseIssuedAtUnix = issued,
                 lp_confirmationDueAtUnix = Some due, lp_tokenExpiresAtUnix = due, lp_validUntil = Some (due * 1000)\<rparr>
          else \<lparr>lp_licenseKind = LifetimeLicense, lp_entitlementStage = FinalStage, lp_licenseIssuedAtUnix = issued,
                 lp_confirmationDueAtUnix = Some due, lp_tokenExpiresAtUnix = finalLifetimeExp, lp_validUntil = None\<rparr>))"

section \<open>Signed tokens\<close>

definition V2_FIELD_ORDER :: "string list" where
  "V2_FIELD_ORDER = [''v'', ''id'', ''app'', ''tier'', ''features'', ''device_id'', ''iat'', ''exp'',
     ''license_kind'', ''entitlement_stage'', ''license_issued_at'', ''confirmation_due_at'', ''entitlement_scope'']"

text \<open>\<open>expiresAtUnix\<close> is \<open>None\<close> for null or absent; \<open>confirmationDueAtUnix\<close> distinguishes absent (\<open>None\<close>) from
  null (\<open>Some None\<close>).\<close>

record EntitlementInput =
  ein_licenseId :: string
  ein_app :: string
  ein_tier :: string
  ein_features :: "json list"
  ein_deviceId :: string
  ein_ttlSeconds :: "int option"
  ein_expiresAtUnix :: "int option"
  ein_tokenExpiresAtUnix :: "int option"
  ein_licenseKind :: "LicenseKind option"
  ein_entitlementStage :: "EntitlementStage option"
  ein_licenseIssuedAtUnix :: "int option"
  ein_confirmationDueAtUnix :: "int option option"
  ein_entitlementScope :: "EntitlementScope option"
  ein_offeredVersions :: "int list"

record SignedFormat =
  sf_fieldOrder :: "string list"
  sf_extraClaims :: "(EntitlementInput \<Rightarrow> (string \<times> json) list) option"

type_synonym SignedFormats = "(int \<times> SignedFormat) list"

definition builtinFormats :: SignedFormats where
  "builtinFormats = [(2, \<lparr>sf_fieldOrder = V2_FIELD_ORDER, sf_extraClaims = None\<rparr>)]"

definition registerSignedFormat :: "int \<Rightarrow> SignedFormat \<Rightarrow> SignedFormats \<Rightarrow> SignedFormats res" where
  "registerSignedFormat v format formats =
     (if v \<le> 2 then Inl (Err ''signed format version must be an integer > 2 (v:2 is frozen)'')
      else if map_of formats v \<noteq> None then Inl (Err (''signed format v:'' @ showInt v @ '' is already registered''))
      else if \<not> distinct (sf_fieldOrder format) then Inl (Err ''signed format fieldOrder has duplicates'')
      else (let missing = filter (\<lambda>k. k \<notin> set (sf_fieldOrder format)) V2_FIELD_ORDER in
        if missing \<noteq> [] then Inl (Err (''signed format v:'' @ showInt v @ '' must carry every v:2 claim; missing: '' @ js_join '', '' missing))
        else Inr (formats @ [(v, format)])))"

definition resetSignedFormatsForTest :: "SignedFormats \<Rightarrow> SignedFormats" where
  "resetSignedFormatsForTest formats = filter (\<lambda>(v, _). v = 2) formats"

definition supportedSignedVersions :: "SignedFormats \<Rightarrow> int list" where
  "supportedSignedVersions formats = sort (map fst formats)"

definition negotiateSignedVersion :: "SignedFormats \<Rightarrow> int list \<Rightarrow> int" where
  "negotiateSignedVersion formats offered =
     foldl (\<lambda>best v. if map_of formats v \<noteq> None \<and> v > best then v else best) 2 offered"

text \<open>The signed payload object and the canonical value that is signed: the format's fields in order,
  absent ones left out.\<close>

type_synonym SignedPayload = "(string \<times> json) list"

definition canonicalPayload :: "SignedFormats \<Rightarrow> int \<Rightarrow> SignedPayload \<Rightarrow> json res" where
  "canonicalPayload formats v p = (case map_of formats v of
     None \<Rightarrow> Inl (Err (''unsupported signed token version v:'' @ showInt v))
   | Some f \<Rightarrow> Inr (JObj (List.map_filter (\<lambda>k. map_option (Pair k) (map_of p k)) (sf_fieldOrder f))))"

definition licenseKindText :: "LicenseKind \<Rightarrow> string" where
  "licenseKindText k = (case k of TrialLicense \<Rightarrow> ''trial'' | LifetimeLicense \<Rightarrow> ''lifetime'' | TermLicense \<Rightarrow> ''term'')"

definition stageText :: "EntitlementStage \<Rightarrow> string" where
  "stageText s = (case s of TimeBound \<Rightarrow> ''time_bound'' | Provisional \<Rightarrow> ''provisional'' | FinalStage \<Rightarrow> ''final'')"

definition scopeText :: "EntitlementScope \<Rightarrow> string" where
  "scopeText s = (case s of MobileScope \<Rightarrow> ''mobile'' | FullScope \<Rightarrow> ''full'')"

definition opt :: "string \<Rightarrow> ('a \<Rightarrow> json) \<Rightarrow> 'a option \<Rightarrow> SignedPayload" where
  "opt k f x = (case x of None \<Rightarrow> [] | Some v \<Rightarrow> [(k, f v)])"

definition numJ :: "int \<Rightarrow> json" where
  "numJ n = JNum (of_int n)"

definition tokenExp :: "int option \<Rightarrow> EntitlementInput \<Rightarrow> instant \<Rightarrow> int" where
  "tokenExp defaultTtl e now =
     (let rollingExp = unix now + orElse (ein_ttlSeconds e) (orElse defaultTtl (7 * 86400)) in
      case ein_tokenExpiresAtUnix e of
        Some x \<Rightarrow> x
      | None \<Rightarrow> (case ein_expiresAtUnix e of Some x \<Rightarrow> min rollingExp x | None \<Rightarrow> rollingExp))"

text \<open>In an object literal a later property overrides an earlier one; \<open>map_of\<close> finds the first entry, so
  the format's extra claims, which come first in the source, come last here.\<close>

definition entitlementPayload :: "SignedFormats \<Rightarrow> int option \<Rightarrow> EntitlementInput \<Rightarrow> instant \<Rightarrow> SignedPayload" where
  "entitlementPayload formats defaultTtl e now =
     (let v = negotiateSignedVersion formats (ein_offeredVersions e);
          extras = (if v > 2 then (case Option.bind (map_of formats v) sf_extraClaims of None \<Rightarrow> [] | Some f \<Rightarrow> f e) else [])
      in [(''v'', numJ v), (''id'', JStr (ein_licenseId e)), (''app'', JStr (ein_app e)), (''tier'', JStr (ein_tier e)),
          (''features'', JArr (ein_features e)), (''device_id'', JStr (ein_deviceId e)), (''iat'', numJ (unix now)),
          (''exp'', numJ (tokenExp defaultTtl e now))]
         @ opt ''license_kind'' (JStr \<circ> licenseKindText) (ein_licenseKind e)
         @ opt ''entitlement_stage'' (JStr \<circ> stageText) (ein_entitlementStage e)
         @ opt ''license_issued_at'' numJ (ein_licenseIssuedAtUnix e)
         @ opt ''confirmation_due_at'' (\<lambda>d. case d of None \<Rightarrow> JNull | Some n \<Rightarrow> numJ n) (ein_confirmationDueAtUnix e)
         @ opt ''entitlement_scope'' (JStr \<circ> scopeText) (ein_entitlementScope e)
         @ filter (\<lambda>(k, _). k \<notin> set V2_FIELD_ORDER) (rev extras))"

datatype SignedToken = SignedToken json string

definition signToken :: "('key \<Rightarrow> json \<Rightarrow> string) \<Rightarrow> SignedFormats \<Rightarrow> int \<Rightarrow> SignedPayload \<Rightarrow> 'key \<Rightarrow> SignedToken res" where
  "signToken edSign formats v p key = bindE (canonicalPayload formats v p) (\<lambda>msg. Inr (SignedToken msg (edSign key msg)))"

fun verifyToken :: "('pub \<Rightarrow> json \<Rightarrow> string \<Rightarrow> bool) \<Rightarrow> SignedToken \<Rightarrow> 'pub \<Rightarrow> json option" where
  "verifyToken edVerify (SignedToken msg sig) publicKey = (if \<not> edVerify publicKey msg sig then None else Some msg)"

definition signEntitlement :: "('key \<Rightarrow> json \<Rightarrow> string) \<Rightarrow> 'key option \<Rightarrow> SignedFormats \<Rightarrow> int option \<Rightarrow> EntitlementInput \<Rightarrow> instant \<Rightarrow> SignedToken option res" where
  "signEntitlement edSign key formats defaultTtl e now = (case key of
     None \<Rightarrow> Inr None
   | Some k \<Rightarrow> bindE (signToken edSign formats (negotiateSignedVersion formats (ein_offeredVersions e))
         (entitlementPayload formats defaultTtl e now) k) (Inr \<circ> Some))"

definition signLeaseEnvelope :: "('key \<Rightarrow> json \<Rightarrow> string) \<Rightarrow> 'key option \<Rightarrow> json \<Rightarrow> string option" where
  "signLeaseEnvelope edSign key canonical = map_option (\<lambda>k. edSign k canonical) key"

definition verifyLeaseEnvelope :: "('pub \<Rightarrow> json \<Rightarrow> string \<Rightarrow> bool) \<Rightarrow> json \<Rightarrow> string \<Rightarrow> 'pub \<Rightarrow> bool" where
  "verifyLeaseEnvelope edVerify canonical signature publicKey = edVerify publicKey canonical signature"

definition digitText :: "string \<Rightarrow> bool" where
  "digitText s = (s \<noteq> [] \<and> length s \<le> 6 \<and> list_all (\<lambda>c. digitVal c \<noteq> None) s)"

definition parseOfferedVersions :: "string option \<Rightarrow> int list option" where
  "parseOfferedVersions header = (case header of
     None \<Rightarrow> None
   | Some h \<Rightarrow> if h = [] then None else
       (let out = map (\<lambda>p. digitsVal 10 (List.map_filter digitVal p)) (filter digitText (map js_trim (js_split CHR '','' h)))
        in if out = [] then None else Some out))"

end
