(* ===== verification/Activation.thy ===== *)
theory Activation
  imports LicensePolicy
begin

text \<open>
  The licence and activation tables and the transactions on them: activation on a device, lookup by
  token, deactivation and the record of an issued token (licensing/activations.ts), device leases
  (licensing/device-leases.ts) and revocation of a whole licence (licensing/license-revocation.ts).

  A transaction takes the environment (the registered policies, the clock, the ids and tokens it draws,
  the signing key and Ed25519, SHA-256) and the tables; \<open>Inl\<close> is a thrown error, after which the
  transaction is rolled back. Row locks make the transactions on one licence run one after another. A
  unique index or an integer column out of range is a thrown error. The instant in a lease envelope is
  kept as a number; the source prints it as ISO text. The dash of one rejection message is a hyphen.
\<close>

section \<open>Tables\<close>

record LicenseRow =
  li_id :: string
  li_storeId :: string
  li_appKey :: string
  li_licenseKey :: string
  li_status :: string
  li_seats :: int
  li_updatesUntil :: "instant option"
  li_expiresAt :: "instant option"
  li_metadata :: json
  li_createdAt :: instant
  li_updatedAt :: instant

record ActivationRow =
  ac_id :: string
  ac_storeId :: string
  ac_licenseId :: string
  ac_appKey :: string
  ac_deviceIdHash :: string
  ac_tokenHash :: "string option"
  ac_deviceLabel :: "string option"
  ac_deviceClass :: "string option"
  ac_platform :: "string option"
  ac_pool :: "string option"
  ac_state :: string
  ac_generation :: int
  ac_revokedAt :: "instant option"
  ac_removedAt :: "instant option"
  ac_leaseId :: "string option"
  ac_leaseIssuedAt :: "instant option"
  ac_leaseExpiresAt :: "instant option"
  ac_leaseGraceSeconds :: "int option"
  ac_updatedAt :: instant
  ac_tokenVersion :: "int option"
  ac_tokenIssuedAt :: "instant option"
  ac_activatedAt :: instant
  ac_lastSeenAt :: instant

record LicenseAudit =
  lu_storeId :: string
  lu_actor :: "string option"
  lu_entityId :: string
  lu_action :: string
  lu_fromState :: string
  lu_toState :: string
  lu_reason :: "string option"
  lu_revoked :: "nat option"
  lu_at :: instant

record LicDb =
  ld_licenses :: "LicenseRow list"
  ld_activations :: "ActivationRow list"
  ld_audit :: "LicenseAudit list"

record 'key LicEnv =
  le_policies :: DevicePolicies
  le_active :: "LicDb EntitlementPolicy option"
  le_catalogs :: TierCatalogs
  le_now :: instant
  le_sha256 :: "string \<Rightarrow> string"
  le_token :: string
  le_leaseId :: string
  le_rowId :: string
  le_key :: "'key option"
  le_edSign :: "'key \<Rightarrow> json \<Rightarrow> string"
  le_formats :: SignedFormats
  le_ttl :: "int option"

type_synonym 'a lic = "('a \<times> LicDb) res"

definition updAct :: "(ActivationRow \<Rightarrow> bool) \<Rightarrow> (ActivationRow \<Rightarrow> ActivationRow) \<Rightarrow> LicDb \<Rightarrow> LicDb" where
  "updAct P f db = db\<lparr>ld_activations := map (\<lambda>r. if P r then f r else r) (ld_activations db)\<rparr>"

definition uniqueViolation :: js_error where
  "uniqueViolation = Err ''duplicate key value violates unique constraint''"

definition tokenTaken :: "string \<Rightarrow> string \<Rightarrow> LicDb \<Rightarrow> bool" where
  "tokenTaken i h db = list_ex (\<lambda>r. ac_id r \<noteq> i \<and> ac_tokenHash r = Some h) (ld_activations db)"

definition insertActivation :: "ActivationRow \<Rightarrow> LicDb \<Rightarrow> LicDb res" where
  "insertActivation row db =
     (if list_ex (\<lambda>r. ac_id r = ac_id row \<or> (ac_licenseId r = ac_licenseId row \<and> ac_deviceIdHash r = ac_deviceIdHash row)
          \<or> (ac_tokenHash row \<noteq> None \<and> ac_tokenHash r = ac_tokenHash row)) (ld_activations db)
      then Inl uniqueViolation else Inr (db\<lparr>ld_activations := ld_activations db @ [row]\<rparr>))"

section \<open>Activation\<close>

definition deriveDeviceClassAndPool :: "DevicePolicies \<Rightarrow> string \<Rightarrow> string \<Rightarrow> (string \<times> string) option" where
  "deriveDeviceClassAndPool policies appKey source = activationSourceDefaults policies appKey source"

text \<open>A JavaScript string is truthy when it is not empty.\<close>

definition truthyText :: "string option \<Rightarrow> bool" where
  "truthyText s = (s \<noteq> None \<and> s \<noteq> Some [])"

definition storedPool :: "string option \<Rightarrow> string option \<Rightarrow> string option" where
  "storedPool pool deviceClass =
     (if truthyText pool then pool
      else if deviceClass \<in> {Some ''mac'', Some ''windows'', Some ''desktop''} then Some ''computer''
      else if deviceClass \<in> {Some ''iphone'', Some ''android''} then Some ''mobile''
      else None)"

definition rowPool :: "ActivationRow \<Rightarrow> string option" where
  "rowPool r = storedPool (ac_pool r) (ac_deviceClass r)"

record ActivateInput =
  ai_storeId :: string
  ai_appKey :: string
  ai_licenseKey :: string
  ai_deviceId :: string
  ai_deviceLabel :: "string option"
  ai_activationSource :: "string option"
  ai_ext :: "(string \<times> json) list"

datatype ActivateResult = ActNotFound | ActRejected string | ActFull | ActOk LicenseRow string string

definition policyLicenseOf :: "LicenseRow \<Rightarrow> PolicyLicense" where
  "policyLicenseOf l = \<lparr>pl_id = li_id l, pl_appKey = li_appKey l, pl_status = li_status l, pl_seats = li_seats l,
     pl_expiresAt = li_expiresAt l, pl_metadata = li_metadata l\<rparr>"

definition licenseFor :: "string \<Rightarrow> string \<Rightarrow> string \<Rightarrow> LicDb \<Rightarrow> LicenseRow option" where
  "licenseFor storeId licenseKey appKey db =
     find (\<lambda>l. li_storeId l = storeId \<and> li_licenseKey l = licenseKey \<and> li_appKey l = appKey) (ld_licenses db)"

definition capReached :: "int option \<Rightarrow> 'a list \<Rightarrow> bool" where
  "capReached cap xs = (case cap of None \<Rightarrow> False | Some n \<Rightarrow> n \<le> int (length xs))"

text \<open>The seat and pool checks: \<open>True\<close> is the answer \<open>full\<close>.\<close>

definition activationFull :: "DevicePolicies \<Rightarrow> string \<Rightarrow> LicenseRow \<Rightarrow> ActivationRow list \<Rightarrow> ActivationRow option \<Rightarrow> string option \<Rightarrow> bool" where
  "activationFull policies appKey lic existing sameDevice pool =
     (let activeExisting = filter (\<lambda>r. ac_state r = ''active'') existing;
          unlimited = (li_seats lic \<le> 0);
          sameDeviceLive = (case sameDevice of None \<Rightarrow> False | Some d \<Rightarrow> list_ex (\<lambda>r. ac_id r = ac_id d \<and> ac_state r = ''active'') existing);
          bounded = usesBoundedDevicePools policies appKey (li_seats lic) (li_metadata lic);
          sameDevicePool = (case sameDevice of None \<Rightarrow> None | Some d \<Rightarrow>
            (case find (\<lambda>r. ac_id r = ac_id d) existing of None \<Rightarrow> storedPool None None | Some r \<Rightarrow> rowPool r));
          others = filter (\<lambda>r. Some (ac_id r) \<noteq> map_option ac_id sameDevice \<and> rowPool r = pool) activeExisting
      in (\<not> unlimited \<and> \<not> sameDeviceLive \<and> li_seats lic \<le> int (length activeExisting))
         \<or> (bounded \<and> truthyText pool \<and> (\<not> sameDeviceLive \<or> sameDevicePool \<noteq> pool)
             \<and> capReached (poolCap policies appKey (the pool)) others))"

definition activateSeat :: "'key LicEnv \<Rightarrow> ActivateInput \<Rightarrow> LicenseRow \<Rightarrow> LicDb \<Rightarrow> ActivateResult lic" where
  "activateSeat env input lic db =
     (let deviceIdHash = le_sha256 env (ai_deviceId input);
          tokenHash = le_sha256 env (le_token env);
          existing = filter (\<lambda>r. ac_licenseId r = li_id lic) (ld_activations db);
          sameDevice = find (\<lambda>r. ac_licenseId r = li_id lic \<and> ac_deviceIdHash r = deviceIdHash) (ld_activations db);
          derived = (if devicePolicyFor (le_policies env) (ai_appKey input) \<noteq> None
            then deriveDeviceClassAndPool (le_policies env) (ai_appKey input) (orElse (ai_activationSource input) ''desktop'') else None);
          deviceClass = map_option fst derived; pool = map_option snd derived
      in if activationFull (le_policies env) (ai_appKey input) lic existing sameDevice pool then Inr (ActFull, db)
         else (case sameDevice of
           Some d \<Rightarrow> if tokenTaken (ac_id d) tokenHash db then Inl uniqueViolation
             else Inr (ActOk lic (ac_id d) (le_token env),
               updAct (\<lambda>r. ac_id r = ac_id d) (\<lambda>r. r\<lparr>ac_tokenHash := Some tokenHash, ac_lastSeenAt := le_now env, ac_deviceLabel := ai_deviceLabel input,
                 ac_deviceClass := (if truthyText deviceClass then deviceClass else ac_deviceClass r), ac_pool := (if truthyText pool then pool else ac_pool r),
                 ac_state := ''active'', ac_revokedAt := None, ac_removedAt := None\<rparr>) db)
         | None \<Rightarrow> bindE (insertActivation \<lparr>ac_id = le_rowId env, ac_storeId = ai_storeId input, ac_licenseId = li_id lic, ac_appKey = ai_appKey input,
               ac_deviceIdHash = deviceIdHash, ac_tokenHash = Some tokenHash, ac_deviceLabel = ai_deviceLabel input, ac_deviceClass = deviceClass,
               ac_platform = None, ac_pool = pool, ac_state = ''active'', ac_generation = 0, ac_revokedAt = None, ac_removedAt = None,
               ac_leaseId = None, ac_leaseIssuedAt = None, ac_leaseExpiresAt = None, ac_leaseGraceSeconds = None, ac_updatedAt = le_now env,
               ac_tokenVersion = None, ac_tokenIssuedAt = None, ac_activatedAt = le_now env, ac_lastSeenAt = le_now env\<rparr> db)
             (\<lambda>db'. Inr (ActOk lic (le_rowId env) (le_token env), db'))))"

definition activateLicenseOnDevice :: "'key LicEnv \<Rightarrow> ActivateInput \<Rightarrow> LicDb \<Rightarrow> ActivateResult lic" where
  "activateLicenseOnDevice env input db = (case licenseFor (ai_storeId input) (ai_licenseKey input) (ai_appKey input) db of
     None \<Rightarrow> Inr (ActNotFound, db)
   | Some lic \<Rightarrow> if li_status lic \<noteq> ''active'' then Inr (ActNotFound, db)
     else bindE (authorizeEntitlement (le_active env) db \<lparr>az_path = ActivatePath, az_storeId = ai_storeId input, az_license = policyLicenseOf lic,
         az_platform = None, az_pool = None, az_ext = ai_ext input, az_now = le_now env\<rparr>) (\<lambda>decision. case decision of
       RejectedPlatform reason \<Rightarrow> Inr (ActRejected reason, db)
     | DenyNotFound \<Rightarrow> Inr (ActNotFound, db)
     | Allow \<Rightarrow> (if (case li_expiresAt lic of None \<Rightarrow> False | Some e \<Rightarrow> unix e \<le> unix (le_now env)) then Inr (ActNotFound, db)
         else activateSeat env input lic db)))"

text \<open>The join of an activation with its licence, in the rows of the transaction's store.\<close>

definition joined :: "string \<Rightarrow> LicDb \<Rightarrow> (ActivationRow \<times> LicenseRow) list" where
  "joined storeId db = concat (map (\<lambda>r. map (Pair r) (filter (\<lambda>l. li_id l = ac_licenseId r \<and> li_storeId l = storeId) (ld_licenses db)))
     (filter (\<lambda>r. ac_storeId r = storeId) (ld_activations db)))"

definition findActivationByToken :: "'key LicEnv \<Rightarrow> string \<Rightarrow> string \<Rightarrow> string \<Rightarrow> string option \<Rightarrow> EntitlementPath option \<Rightarrow> (string \<times> json) list \<Rightarrow> LicDb \<Rightarrow> (ActivationRow \<times> LicenseRow) option lic" where
  "findActivationByToken env storeId appKey activationToken deviceId path ext db =
     (case find (\<lambda>(r, l). ac_tokenHash r = Some (le_sha256 env activationToken) \<and> ac_appKey r = appKey \<and> ac_state r = ''active'' \<and> li_appKey l = appKey) (joined storeId db) of
        None \<Rightarrow> Inr (None, db)
      | Some (r, l) \<Rightarrow> if li_status l \<noteq> ''active'' then Inr (None, db)
        else bindE (authorizeEntitlement (le_active env) db \<lparr>az_path = orElse path RefreshPath, az_storeId = li_storeId l, az_license = policyLicenseOf l,
            az_platform = None, az_pool = ac_pool r, az_ext = ext, az_now = le_now env\<rparr>) (\<lambda>decision.
          if decision \<noteq> Allow then Inr (None, db)
          else if (case li_expiresAt l of None \<Rightarrow> False | Some e \<Rightarrow> unix e \<le> unix (le_now env)) then Inr (None, db)
          else if truthyText deviceId \<and> ac_deviceIdHash r \<noteq> le_sha256 env (the deviceId) then Inr (None, db)
          else Inr (Some (r, l), updAct (\<lambda>x. ac_id x = ac_id r) (\<lambda>x. x\<lparr>ac_lastSeenAt := le_now env\<rparr>) db)))"

definition deactivateDevice :: "'key LicEnv \<Rightarrow> string \<Rightarrow> string \<Rightarrow> string \<Rightarrow> LicDb \<Rightarrow> LicDb" where
  "deactivateDevice env storeId appKey activationToken db =
     db\<lparr>ld_activations := filter (\<lambda>r. \<not> (ac_storeId r = storeId \<and> ac_tokenHash r = Some (le_sha256 env activationToken) \<and> ac_appKey r = appKey)) (ld_activations db)\<rparr>"

definition liveLicense :: "instant \<Rightarrow> LicenseRow \<Rightarrow> bool" where
  "liveLicense now l = (li_status l = ''active'' \<and> (case li_expiresAt l of None \<Rightarrow> True | Some e \<Rightarrow> now < e))"

definition recordCanonicalEntitlementIssuance :: "'key LicEnv \<Rightarrow> string \<Rightarrow> string \<Rightarrow> string \<Rightarrow> LicDb \<Rightarrow> bool lic" where
  "recordCanonicalEntitlementIssuance env storeId activationId appKey db =
     (if length (filter (\<lambda>(r, l). ac_id r = activationId \<and> ac_appKey r = appKey \<and> li_appKey l = ac_appKey r \<and> ac_state r = ''active''
          \<and> liveLicense (le_now env) l) (joined storeId db)) \<noteq> 1 then Inr (False, db)
      else (let hit = (\<lambda>r. ac_storeId r = storeId \<and> ac_id r = activationId \<and> ac_appKey r = appKey) in
        if length (filter hit (ld_activations db)) \<noteq> 1 then Inl (Err ''canonical entitlement issuance was not recorded'')
        else Inr (True, updAct hit (\<lambda>r. r\<lparr>ac_tokenVersion := Some 2, ac_tokenIssuedAt := Some (le_now env)\<rparr>) db)))"

record IssuanceInventory =
  iv_canonicalV2 :: nat
  iv_legacyOrUnknown :: nat
  iv_canRemoveLegacyVerifier :: bool

definition getEntitlementIssuanceInventory :: "'key LicEnv \<Rightarrow> string \<Rightarrow> string option \<Rightarrow> LicDb \<Rightarrow> IssuanceInventory" where
  "getEntitlementIssuanceInventory env storeId appKey db =
     (let rows = map fst (filter (\<lambda>(r, l). li_appKey l = ac_appKey r \<and> liveLicense (le_now env) l \<and> (truthyText appKey \<longrightarrow> Some (ac_appKey r) = appKey)) (joined storeId db));
          canonical = length (filter (\<lambda>r. ac_tokenVersion r = Some 2 \<and> ac_tokenIssuedAt r \<noteq> None) rows);
          legacy = length (filter (\<lambda>r. ac_tokenVersion r \<noteq> Some 2 \<or> ac_tokenIssuedAt r = None) rows)
      in \<lparr>iv_canonicalV2 = canonical, iv_legacyOrUnknown = legacy, iv_canRemoveLegacyVerifier = (legacy = 0)\<rparr>)"

section \<open>Device leases\<close>

definition legacyDeviceClassFor :: "string \<Rightarrow> string" where
  "legacyDeviceClassFor platform =
     (if platform = ''macos'' then ''mac'' else if platform = ''windows'' then ''windows''
      else if platform = ''ios'' \<or> platform = ''ipados'' then ''iphone'' else if platform = ''android'' then ''android''
      else if platform = ''watchos'' then ''watch'' else platform)"

record LeaseEnvelope =
  lv_leaseId :: string
  lv_deviceIdHash :: string
  lv_pool :: "string option"
  lv_entitlement :: "SignedToken option"
  lv_issuedAt :: instant
  lv_expiresAt :: instant
  lv_graceSeconds :: int
  lv_generation :: int
  lv_signature :: "string option"
  lv_entitlementScope :: "EntitlementScope option"

definition canonicalLeaseEnvelope :: "LeaseEnvelope \<Rightarrow> json" where
  "canonicalLeaseEnvelope e = JObj ([(''leaseId'', JStr (lv_leaseId e)), (''deviceIdHash'', JStr (lv_deviceIdHash e)),
     (''pool'', case lv_pool e of None \<Rightarrow> JNull | Some p \<Rightarrow> JStr p), (''issuedAt'', numJ (lv_issuedAt e)), (''expiresAt'', numJ (lv_expiresAt e)),
     (''graceSeconds'', numJ (lv_graceSeconds e)), (''generation'', numJ (lv_generation e))]
     @ opt ''entitlementScope'' (JStr \<circ> scopeText) (lv_entitlementScope e))"

definition lockActiveLicense :: "instant \<Rightarrow> string \<Rightarrow> string \<Rightarrow> string \<Rightarrow> LicDb \<Rightarrow> LicenseRow option" where
  "lockActiveLicense now storeId appKey licenseKey db = (case licenseFor storeId licenseKey appKey db of
     None \<Rightarrow> None
   | Some l \<Rightarrow> if li_status l \<noteq> ''active'' then None
     else if (case li_expiresAt l of None \<Rightarrow> False | Some e \<Rightarrow> e \<le> now) then None else Some l)"

record IssueLeaseInput =
  il_storeId :: string
  il_appKey :: string
  il_licenseKey :: string
  il_deviceIdHash :: string
  il_platform :: string
  il_deviceLabel :: "string option"
  il_ext :: "(string \<times> json) list"
  il_offeredVersions :: "int list"

datatype IssueLeaseResult = LeaseNotFound | LeaseRejected string | LeaseFull | LeaseOk LeaseEnvelope string string

text \<open>The signed envelope of a lease, of issue and of renewal.\<close>

definition leaseEnvelope :: "'key LicEnv \<Rightarrow> EntitlementPath \<Rightarrow> string \<Rightarrow> LicenseRow \<Rightarrow> string \<Rightarrow> string option \<Rightarrow> int \<Rightarrow> int list \<Rightarrow> LeaseEnvelope res" where
  "leaseEnvelope env path appKey lic deviceIdHash pool generation offered =
     (let scope = policyClaims (le_active env) path (li_appKey lic) (li_metadata lic) pool;
          ents = buildEntitlements (le_catalogs env) appKey (li_metadata lic);
          core = \<lparr>lv_leaseId = le_leaseId env, lv_deviceIdHash = deviceIdHash, lv_pool = pool, lv_entitlement = None, lv_issuedAt = le_now env,
            lv_expiresAt = le_now env + leaseTtlSecondsFor (le_policies env) (li_appKey lic) * 1000,
            lv_graceSeconds = leaseGraceSecondsFor (le_policies env) (li_appKey lic), lv_generation = generation, lv_signature = None, lv_entitlementScope = scope\<rparr>
      in bindE (if truthyText (en_tier ents)
           then signEntitlement (le_edSign env) (le_key env) (le_formats env) (le_ttl env)
             \<lparr>ein_licenseId = li_id lic, ein_app = appKey, ein_tier = the (en_tier ents), ein_features = en_features ents, ein_deviceId = deviceIdHash,
               ein_ttlSeconds = None, ein_expiresAtUnix = map_option unix (li_expiresAt lic), ein_tokenExpiresAtUnix = None, ein_licenseKind = None,
               ein_entitlementStage = None, ein_licenseIssuedAtUnix = None, ein_confirmationDueAtUnix = None, ein_entitlementScope = scope,
               ein_offeredVersions = offered\<rparr> (le_now env)
           else Inr None)
         (\<lambda>entitlement. Inr (core\<lparr>lv_entitlement := entitlement, lv_signature := signLeaseEnvelope (le_edSign env) (le_key env) (canonicalLeaseEnvelope core)\<rparr>)))"

definition leaseColumns :: "'key LicEnv \<Rightarrow> string \<Rightarrow> ActivationRow \<Rightarrow> ActivationRow" where
  "leaseColumns env appKey r = r\<lparr>ac_leaseId := Some (le_leaseId env), ac_leaseIssuedAt := Some (le_now env),
     ac_leaseExpiresAt := Some (le_now env + leaseTtlSecondsFor (le_policies env) appKey * 1000),
     ac_leaseGraceSeconds := Some (leaseGraceSecondsFor (le_policies env) appKey), ac_lastSeenAt := le_now env, ac_updatedAt := le_now env\<rparr>"

definition placeColumns :: "IssueLeaseInput \<Rightarrow> string \<Rightarrow> string \<Rightarrow> ActivationRow \<Rightarrow> ActivationRow" where
  "placeColumns input pool tokenHash r = r\<lparr>ac_tokenHash := Some tokenHash, ac_platform := Some (il_platform input), ac_pool := Some pool,
     ac_deviceClass := Some (legacyDeviceClassFor (il_platform input)), ac_state := ''active''\<rparr>"

text \<open>The pool or seat check of a lease: \<open>True\<close> is the answer \<open>full\<close>.\<close>

definition leaseIsFull :: "'key LicEnv \<Rightarrow> LicenseRow \<Rightarrow> string \<Rightarrow> ActivationRow list \<Rightarrow> ActivationRow option \<Rightarrow> bool" where
  "leaseIsFull env lic pool existing sameDevice =
     (let policy = (devicePolicyFor (le_policies env) (li_appKey lic) \<noteq> None);
          unlimited = (policyLeaseUnlimited (le_active env) (li_appKey lic) (li_seats lic) (li_metadata lic) pool
            \<or> (li_seats lic \<le> 0 \<and> \<not> usesBoundedDevicePools (le_policies env) (li_appKey lic) (li_seats lic) (li_metadata lic)))
      in (case sameDevice of None \<Rightarrow> True | Some d \<Rightarrow> policy \<and> ac_pool d \<noteq> Some pool) \<and> \<not> unlimited
         \<and> (if policy then capReached (poolCap (le_policies env) (li_appKey lic) pool) (filter (\<lambda>r. ac_pool r = Some pool) existing)
            else capReached (Some (li_seats lic)) existing))"

text \<open>The row of the lease: the live row of the device, else its tombstone, else a new row.\<close>

definition placeLease :: "'key LicEnv \<Rightarrow> IssueLeaseInput \<Rightarrow> LicenseRow \<Rightarrow> string \<Rightarrow> ActivationRow option \<Rightarrow> LicDb \<Rightarrow> (string \<times> int) lic" where
  "placeLease env input lic pool sameDevice db =
     (let tokenHash = le_sha256 env (le_token env);
          cols = leaseColumns env (li_appKey lic) \<circ> placeColumns input pool tokenHash
      in case sameDevice of
        Some d \<Rightarrow> (if tokenTaken (ac_id d) tokenHash db then Inl uniqueViolation
          else Inr ((ac_id d, ac_generation d), updAct (\<lambda>r. ac_id r = ac_id d)
            (\<lambda>r. (cols r)\<lparr>ac_deviceLabel := (case il_deviceLabel input of None \<Rightarrow> ac_deviceLabel r | Some l \<Rightarrow> Some l)\<rparr>) db))
      | None \<Rightarrow> (case find (\<lambda>r. ac_licenseId r = li_id lic \<and> ac_deviceIdHash r = il_deviceIdHash input) (ld_activations db) of
          Some t \<Rightarrow> (if tokenTaken (ac_id t) tokenHash db then Inl uniqueViolation
            else Inr ((ac_id t, ac_generation t), updAct (\<lambda>r. ac_id r = ac_id t)
              (\<lambda>r. (cols r)\<lparr>ac_deviceLabel := il_deviceLabel input, ac_removedAt := None\<rparr>) db))
        | None \<Rightarrow> bindE (insertActivation (cols \<lparr>ac_id = le_rowId env, ac_storeId = il_storeId input, ac_licenseId = li_id lic, ac_appKey = il_appKey input,
              ac_deviceIdHash = il_deviceIdHash input, ac_tokenHash = None, ac_deviceLabel = il_deviceLabel input, ac_deviceClass = None, ac_platform = None,
              ac_pool = None, ac_state = ''active'', ac_generation = 0, ac_revokedAt = None, ac_removedAt = None, ac_leaseId = None, ac_leaseIssuedAt = None,
              ac_leaseExpiresAt = None, ac_leaseGraceSeconds = None, ac_updatedAt = le_now env, ac_tokenVersion = None, ac_tokenIssuedAt = None,
              ac_activatedAt = le_now env, ac_lastSeenAt = le_now env\<rparr>) db)
            (\<lambda>db'. Inr ((le_rowId env, 0), db'))))"

definition issueDeviceLease :: "'key LicEnv \<Rightarrow> IssueLeaseInput \<Rightarrow> LicDb \<Rightarrow> IssueLeaseResult lic" where
  "issueDeviceLease env input db = (case derivePool (le_policies env) (il_appKey input) (il_platform input) of
     None \<Rightarrow> Inr (LeaseRejected (''unknown platform \"'' @ il_platform input @ ''\"''), db)
   | Some pool \<Rightarrow> if \<not> leasablePool (le_policies env) (il_appKey input) pool
     then Inr (LeaseRejected (''platform \"'' @ il_platform input @ ''\" resolves to a companion pool - companion devices do not activate a license directly''), db)
     else (case lockActiveLicense (le_now env) (il_storeId input) (il_appKey input) (il_licenseKey input) db of
       None \<Rightarrow> Inr (LeaseNotFound, db)
     | Some lic \<Rightarrow> bindE (authorizeEntitlement (le_active env) db \<lparr>az_path = LeaseIssuePath, az_storeId = il_storeId input, az_license = policyLicenseOf lic,
           az_platform = Some (il_platform input), az_pool = Some pool, az_ext = il_ext input, az_now = le_now env\<rparr>) (\<lambda>decision. case decision of
         RejectedPlatform reason \<Rightarrow> Inr (LeaseRejected reason, db)
       | DenyNotFound \<Rightarrow> Inr (LeaseNotFound, db)
       | Allow \<Rightarrow>
         (let existing = filter (\<lambda>r. ac_licenseId r = li_id lic \<and> ac_state r = ''active'') (ld_activations db);
              sameDevice = find (\<lambda>r. ac_deviceIdHash r = il_deviceIdHash input) existing
          in if leaseIsFull env lic pool existing sameDevice then Inr (LeaseFull, db)
             else bindE (placeLease env input lic pool sameDevice db) (\<lambda>((i, generation), db').
               bindE (leaseEnvelope env LeaseIssuePath (il_appKey input) lic (il_deviceIdHash input) (Some pool) generation (il_offeredVersions input)) (\<lambda>lease.
                 Inr (LeaseOk lease i (le_token env), db')))))))"

datatype RenewLeaseResult = RenewNotFound | RenewRevoked | RenewOk LeaseEnvelope

definition renewDeviceLease :: "'key LicEnv \<Rightarrow> string \<Rightarrow> string \<Rightarrow> string \<Rightarrow> string \<Rightarrow> (string \<times> json) list \<Rightarrow> int list \<Rightarrow> LicDb \<Rightarrow> RenewLeaseResult lic" where
  "renewDeviceLease env storeId appKey deviceIdHash leaseId ext offered db =
     (case find (\<lambda>r. ac_storeId r = storeId \<and> ac_appKey r = appKey \<and> ac_deviceIdHash r = deviceIdHash \<and> ac_leaseId r = Some leaseId) (ld_activations db) of
        None \<Rightarrow> Inr (RenewNotFound, db)
      | Some row \<Rightarrow> if ac_state row \<noteq> ''active'' then Inr (RenewRevoked, db)
        else if ac_leaseId row \<noteq> Some leaseId then Inr (RenewNotFound, db)
        else (case find (\<lambda>l. li_id l = ac_licenseId row) (ld_licenses db) of
          None \<Rightarrow> Inr (RenewRevoked, db)
        | Some lic \<Rightarrow> if li_status lic \<noteq> ''active'' \<or> (case li_expiresAt lic of None \<Rightarrow> False | Some e \<Rightarrow> e \<le> le_now env) then Inr (RenewRevoked, db)
          else bindE (authorizeEntitlement (le_active env) db \<lparr>az_path = LeaseRenewPath, az_storeId = storeId, az_license = policyLicenseOf lic,
              az_platform = None, az_pool = ac_pool row, az_ext = ext, az_now = le_now env\<rparr>) (\<lambda>decision.
            if decision \<noteq> Allow then Inr (RenewRevoked, db)
            else bindE (leaseEnvelope env LeaseRenewPath (li_appKey lic) lic deviceIdHash (ac_pool row) (ac_generation row) offered) (\<lambda>lease.
              Inr (RenewOk lease, updAct (\<lambda>r. ac_id r = ac_id row) (leaseColumns env (li_appKey lic)) db)))))"

section \<open>Removal and revocation\<close>

definition MAX_INT4 :: int where
  "MAX_INT4 = 2147483647"

text \<open>An \<open>UPDATE\<close> that makes tombstones of the matching rows and bumps their generation.\<close>

definition tombstone :: "(ActivationRow \<Rightarrow> bool) \<Rightarrow> (ActivationRow \<Rightarrow> ActivationRow) \<Rightarrow> LicDb \<Rightarrow> LicDb res" where
  "tombstone P f db =
     (if list_ex (\<lambda>r. P r \<and> MAX_INT4 \<le> ac_generation r) (ld_activations db) then Inl (Err ''integer out of range'')
      else Inr (updAct P (\<lambda>r. (f r)\<lparr>ac_generation := ac_generation r + 1\<rparr>) db))"

definition revokeDeviceRemote :: "'key LicEnv \<Rightarrow> string \<Rightarrow> string \<Rightarrow> string \<Rightarrow> LicDb \<Rightarrow> bool lic" where
  "revokeDeviceRemote env storeId licenseId activationId db =
     (let hit = (\<lambda>r. ac_id r = activationId \<and> ac_storeId r = storeId \<and> ac_licenseId r = licenseId) in
      bindE (tombstone hit (\<lambda>r. r\<lparr>ac_state := ''revoked'', ac_revokedAt := Some (le_now env), ac_updatedAt := le_now env\<rparr>) db)
        (\<lambda>db'. Inr (filter hit (ld_activations db) \<noteq> [], db')))"

definition removeDeviceOffline :: "'key LicEnv \<Rightarrow> string \<Rightarrow> string \<Rightarrow> string \<Rightarrow> string \<Rightarrow> LicDb \<Rightarrow> LicDb res" where
  "removeDeviceOffline env storeId appKey deviceIdHash leaseId db =
     tombstone (\<lambda>r. ac_storeId r = storeId \<and> ac_appKey r = appKey \<and> ac_deviceIdHash r = deviceIdHash \<and> ac_leaseId r = Some leaseId \<and> ac_state r = ''active'')
       (\<lambda>r. r\<lparr>ac_state := ''removed'', ac_removedAt := Some (le_now env), ac_updatedAt := le_now env\<rparr>) db"

definition lockLicense :: "string \<Rightarrow> string \<Rightarrow> LicDb \<Rightarrow> LicenseRow option" where
  "lockLicense storeId licenseId db = find (\<lambda>l. li_id l = licenseId \<and> li_storeId l = storeId) (ld_licenses db)"

definition setLicenseStatus :: "string \<Rightarrow> string \<Rightarrow> string \<Rightarrow> instant \<Rightarrow> LicDb \<Rightarrow> LicDb" where
  "setLicenseStatus storeId licenseId status now db =
     db\<lparr>ld_licenses := map (\<lambda>l. if li_id l = licenseId \<and> li_storeId l = storeId then l\<lparr>li_status := status, li_updatedAt := now\<rparr> else l) (ld_licenses db)\<rparr>"

datatype LicenseRevokeOutcome = RevokeOk bool "string list" | RevokeNotFound

datatype LicenseRestoreOutcome = RestoreOk bool | RestoreNotFound | RestoreRefused

definition revokeLicenseInTx :: "instant \<Rightarrow> string option \<Rightarrow> string option \<Rightarrow> string \<Rightarrow> string \<Rightarrow> LicDb \<Rightarrow> LicenseRevokeOutcome lic" where
  "revokeLicenseInTx now actor reason storeId licenseId db = (case lockLicense storeId licenseId db of
     None \<Rightarrow> Inr (RevokeNotFound, db)
   | Some lic \<Rightarrow> if li_status lic = ''revoked'' then Inr (RevokeOk False [], db)
     else (let hit = (\<lambda>r. ac_storeId r = storeId \<and> ac_licenseId r = licenseId \<and> ac_state r = ''active'');
               revoked = filter hit (ld_activations db)
           in bindE (tombstone hit (\<lambda>r. r\<lparr>ac_state := ''revoked'', ac_revokedAt := Some now, ac_updatedAt := now\<rparr>) (setLicenseStatus storeId licenseId ''revoked'' now db))
             (\<lambda>db'. Inr (RevokeOk True (map ac_id revoked), db'\<lparr>ld_audit := ld_audit db' @ [\<lparr>lu_storeId = storeId, lu_actor = actor, lu_entityId = licenseId,
                lu_action = ''revoke'', lu_fromState = li_status lic, lu_toState = ''revoked'', lu_reason = reason, lu_revoked = Some (length revoked), lu_at = now\<rparr>]\<rparr>))))"

definition restoreLicenseInTx :: "instant \<Rightarrow> string option \<Rightarrow> string option \<Rightarrow> string \<Rightarrow> string \<Rightarrow> LicDb \<Rightarrow> LicenseRestoreOutcome \<times> LicDb" where
  "restoreLicenseInTx now actor reason storeId licenseId db = (case lockLicense storeId licenseId db of
     None \<Rightarrow> (RestoreNotFound, db)
   | Some lic \<Rightarrow> if li_status lic = ''active'' then (RestoreOk False, db)
     else if (case li_expiresAt lic of None \<Rightarrow> False | Some e \<Rightarrow> e \<le> now) then (RestoreRefused, db)
     else (let db' = setLicenseStatus storeId licenseId ''active'' now db in
       (RestoreOk True, db'\<lparr>ld_audit := ld_audit db' @ [\<lparr>lu_storeId = storeId, lu_actor = actor, lu_entityId = licenseId,
          lu_action = ''restore'', lu_fromState = li_status lic, lu_toState = ''active'', lu_reason = reason, lu_revoked = None, lu_at = now\<rparr>]\<rparr>)))"

end
