(* ===== verification/ActivationLaws.thy ===== *)
theory ActivationLaws
  imports Activation
begin

text \<open>
  What the licence transactions keep: the shape of the activation table, the seat and pool limits, and
  the life of a lease id.
\<close>

section \<open>Runs\<close>

text \<open>What one transaction draws: the clock and the random ids.\<close>

record Draw =
  dr_now :: instant
  dr_token :: string
  dr_leaseId :: string
  dr_rowId :: string

definition drawEnv :: "'key LicEnv \<Rightarrow> Draw \<Rightarrow> 'key LicEnv" where
  "drawEnv env d = env\<lparr>le_now := dr_now d, le_token := dr_token d, le_leaseId := dr_leaseId d, le_rowId := dr_rowId d\<rparr>"

lemma drawEnv_simps [simp]:
  "le_policies (drawEnv env d) = le_policies env" "le_active (drawEnv env d) = le_active env" "le_leaseId (drawEnv env d) = dr_leaseId d"
  "le_sha256 (drawEnv env d) = le_sha256 env"
  by (simp_all add: drawEnv_def)

datatype LicOp =
    LActivate Draw ActivateInput
  | LFind Draw string string string "string option" "EntitlementPath option" "(string \<times> json) list"
  | LDeactivate Draw string string string
  | LRecord Draw string string string
  | LIssue Draw IssueLeaseInput
  | LRenew Draw string string string string "(string \<times> json) list" "int list"
  | LRevokeDevice Draw string string string
  | LRemoveOffline Draw string string string string
  | LRevokeLicense instant "string option" "string option" string string
  | LRestoreLicense instant "string option" "string option" string string
  | LNewLicense LicenseRow
  | LExtendLicense string "instant option" "instant option"

text \<open>A transaction that throws leaves the tables as they were. Licences appear with a new id and their
  dates may move.\<close>

definition licCommit :: "LicDb \<Rightarrow> 'a lic \<Rightarrow> LicDb" where
  "licCommit db r = (case r of Inl _ \<Rightarrow> db | Inr (_, db') \<Rightarrow> db')"

fun licStep :: "'key LicEnv \<Rightarrow> LicOp \<Rightarrow> LicDb \<Rightarrow> LicDb" where
  "licStep env (LActivate d input) db = licCommit db (activateLicenseOnDevice (drawEnv env d) input db)"
| "licStep env (LFind d storeId appKey token deviceId path ext) db = licCommit db (findActivationByToken (drawEnv env d) storeId appKey token deviceId path ext db)"
| "licStep env (LDeactivate d storeId appKey token) db = deactivateDevice (drawEnv env d) storeId appKey token db"
| "licStep env (LRecord d storeId i appKey) db = licCommit db (recordCanonicalEntitlementIssuance (drawEnv env d) storeId i appKey db)"
| "licStep env (LIssue d input) db = licCommit db (issueDeviceLease (drawEnv env d) input db)"
| "licStep env (LRenew d storeId appKey dev lease ext offered) db = licCommit db (renewDeviceLease (drawEnv env d) storeId appKey dev lease ext offered db)"
| "licStep env (LRevokeDevice d storeId licenseId i) db = licCommit db (revokeDeviceRemote (drawEnv env d) storeId licenseId i db)"
| "licStep env (LRemoveOffline d storeId appKey dev lease) db =
     (case removeDeviceOffline (drawEnv env d) storeId appKey dev lease db of Inl _ \<Rightarrow> db | Inr db' \<Rightarrow> db')"
| "licStep env (LRevokeLicense now actor reason storeId licenseId) db = licCommit db (revokeLicenseInTx now actor reason storeId licenseId db)"
| "licStep env (LRestoreLicense now actor reason storeId licenseId) db = snd (restoreLicenseInTx now actor reason storeId licenseId db)"
| "licStep env (LNewLicense l) db = (if li_id l \<in> li_id ` set (ld_licenses db) then db else db\<lparr>ld_licenses := ld_licenses db @ [l]\<rparr>)"
| "licStep env (LExtendLicense licenseId updatesUntil expiresAt) db =
     db\<lparr>ld_licenses := map (\<lambda>l. if li_id l = licenseId then l\<lparr>li_updatesUntil := updatesUntil, li_expiresAt := expiresAt\<rparr> else l) (ld_licenses db)\<rparr>"

definition emptyLicDb :: LicDb where
  "emptyLicDb = \<lparr>ld_licenses = [], ld_activations = [], ld_audit = []\<rparr>"

section \<open>The invariant\<close>

text \<open>A licence as the limits see it.\<close>

definition limitKey :: "LicenseRow \<Rightarrow> string \<times> string \<times> string \<times> int \<times> json" where
  "limitKey l = (li_id l, li_storeId l, li_appKey l, li_seats l, li_metadata l)"

text \<open>A pool comes from the platform of a lease or from the trusted source of an activation.\<close>

definition serverPool :: "DevicePolicies \<Rightarrow> string \<Rightarrow> string \<Rightarrow> bool" where
  "serverPool policies appKey pool \<longleftrightarrow>
     (\<exists>platform. derivePool policies appKey platform = Some pool \<and> leasablePool policies appKey pool)
     \<or> (\<exists>source c. activationSourceDefaults policies appKey source = Some (c, pool))"

definition activationOk :: "DevicePolicies \<Rightarrow> ActivationRow \<Rightarrow> bool" where
  "activationOk policies r \<longleftrightarrow> ac_state r \<in> {''active'', ''removed'', ''revoked''} \<and> 0 \<le> ac_generation r \<and> ac_generation r \<le> MAX_INT4
     \<and> (case ac_pool r of None \<Rightarrow> True | Some p \<Rightarrow> serverPool policies (ac_appKey r) p) \<and> rowPool r = ac_pool r
     \<and> (case ac_leaseId r of None \<Rightarrow> ac_leaseExpiresAt r = None
         | Some _ \<Rightarrow> \<exists>t. ac_leaseIssuedAt r = Some t \<and> ac_leaseExpiresAt r = Some (t + leaseTtlSecondsFor policies (ac_appKey r) * 1000))"

definition live :: "string \<Rightarrow> ActivationRow list \<Rightarrow> ActivationRow list" where
  "live licenseId rows = filter (\<lambda>r. ac_licenseId r = licenseId \<and> ac_state r = ''active'') rows"

definition inPool :: "string \<Rightarrow> string \<Rightarrow> ActivationRow list \<Rightarrow> ActivationRow list" where
  "inPool licenseId p rows = filter (\<lambda>r. ac_pool r = Some p) (live licenseId rows)"

definition seatsOk :: "'key LicEnv \<Rightarrow> string \<times> string \<times> string \<times> int \<times> json \<Rightarrow> ActivationRow list \<Rightarrow> bool" where
  "seatsOk env k rows = (case k of (i, st, app, seats, metadata) \<Rightarrow>
     (devicePolicyFor (le_policies env) app = None \<and> 0 < seats \<and> (\<forall>p. \<not> policyLeaseUnlimited (le_active env) app seats metadata p)
        \<longrightarrow> int (length (live i rows)) \<le> seats)
     \<and> (usesBoundedDevicePools (le_policies env) app seats metadata
        \<longrightarrow> (\<forall>p c. poolCap (le_policies env) app p = Some c \<and> \<not> policyLeaseUnlimited (le_active env) app seats metadata p
               \<longrightarrow> int (length (inPool i p rows)) \<le> max 0 c)))"

definition rowsOk :: "'key LicEnv \<Rightarrow> (string \<times> string \<times> string \<times> int \<times> json) list \<Rightarrow> ActivationRow list \<Rightarrow> bool" where
  "rowsOk env ks rows \<longleftrightarrow> distinct (map fst ks) \<and> distinct (map ac_id rows) \<and> distinct (map (\<lambda>r. (ac_licenseId r, ac_deviceIdHash r)) rows)
     \<and> distinct (List.map_filter ac_tokenHash rows)
     \<and> (\<forall>r\<in>set rows. activationOk (le_policies env) r \<and> (\<exists>seats metadata. (ac_licenseId r, ac_storeId r, ac_appKey r, seats, metadata) \<in> set ks))
     \<and> (\<forall>k\<in>set ks. seatsOk env k rows)"

definition licInv :: "'key LicEnv \<Rightarrow> LicDb \<Rightarrow> bool" where
  "licInv env db \<longleftrightarrow> rowsOk env (map limitKey (ld_licenses db)) (ld_activations db)"

text \<open>An activation for an app with a device policy arrives through a source the policy knows, with a
  named pool.\<close>

definition sourceKnown :: "DevicePolicies \<Rightarrow> ActivateInput \<Rightarrow> bool" where
  "sourceKnown policies input \<longleftrightarrow> devicePolicyFor policies (ai_appKey input) = None
     \<or> (\<exists>c q qs. activationSourceDefaults policies (ai_appKey input) (orElse (ai_activationSource input) ''desktop'') = Some (c, q # qs))"

section \<open>Writes that free or keep slots\<close>

text \<open>A write that keeps a row's identity, store, device, token, class and pool, and never makes a row live.\<close>

definition slotKeeping :: "(ActivationRow \<Rightarrow> ActivationRow) \<Rightarrow> bool" where
  "slotKeeping g \<longleftrightarrow> (\<forall>r. ac_id (g r) = ac_id r \<and> ac_storeId (g r) = ac_storeId r \<and> ac_licenseId (g r) = ac_licenseId r \<and> ac_appKey (g r) = ac_appKey r
     \<and> ac_deviceIdHash (g r) = ac_deviceIdHash r \<and> ac_tokenHash (g r) = ac_tokenHash r \<and> ac_deviceClass (g r) = ac_deviceClass r \<and> ac_pool (g r) = ac_pool r
     \<and> (ac_state (g r) = ''active'' \<longrightarrow> ac_state r = ''active''))"

lemma filter_map_le:
  assumes "\<And>x. x \<in> set xs \<Longrightarrow> P (g x) \<Longrightarrow> Q x"
  shows "length (filter P (map g xs)) \<le> length (filter Q xs)"
  using assms by (induction xs) auto

lemma seatsOk_mono:
  assumes "seatsOk env k rows" "\<And>i. length (live i rows') \<le> length (live i rows)" "\<And>i p. length (inPool i p rows') \<le> length (inPool i p rows)"
  shows "seatsOk env k rows'"
proof -
  obtain i st app seats metadata where k: "k = (i, st, app, seats, metadata)" by (metis prod_cases5)
  have "int (length (live i rows')) \<le> int (length (live i rows))" "\<And>p. int (length (inPool i p rows')) \<le> int (length (inPool i p rows))"
    using assms(2,3) by simp_all
  then show ?thesis using assms(1) unfolding k seatsOk_def prod.case by (meson order_trans)
qed

lemma rowsOk_map:
  assumes ok: "rowsOk env ks rows" and g: "slotKeeping g" and activationOk: "\<And>r. r \<in> set rows \<Longrightarrow> activationOk (le_policies env) r \<Longrightarrow> activationOk (le_policies env) (g r)"
  shows "rowsOk env ks (map g rows)"
proof -
  have m: "map ac_id (map g rows) = map ac_id rows" "map (\<lambda>r. (ac_licenseId r, ac_deviceIdHash r)) (map g rows) = map (\<lambda>r. (ac_licenseId r, ac_deviceIdHash r)) rows"
    "List.map_filter ac_tokenHash (map g rows) = List.map_filter ac_tokenHash rows"
    using g by (induction rows) (auto simp: slotKeeping_def List.map_filter_def)
  have "length (live i (map g rows)) \<le> length (live i rows)" for i
    unfolding live_def by (rule filter_map_le) (use g in \<open>auto simp: slotKeeping_def\<close>)
  moreover have "length (inPool i p (map g rows)) \<le> length (inPool i p rows)" for i p
    unfolding inPool_def live_def filter_filter by (rule filter_map_le) (use g in \<open>auto simp: slotKeeping_def\<close>)
  ultimately have "\<forall>k\<in>set ks. seatsOk env k (map g rows)" using ok seatsOk_mono unfolding rowsOk_def by blast
  moreover have "\<forall>r\<in>set (map g rows). activationOk (le_policies env) r \<and> (\<exists>seats metadata. (ac_licenseId r, ac_storeId r, ac_appKey r, seats, metadata) \<in> set ks)"
    using ok activationOk g by (auto simp: rowsOk_def slotKeeping_def)
  ultimately show ?thesis using ok unfolding rowsOk_def m by blast
qed

lemma rowsOk_filter:
  assumes "rowsOk env ks rows"
  shows "rowsOk env ks (filter P rows)"
proof -
  have l: "length (live i (filter P rows)) \<le> length (live i rows)" for i
    unfolding live_def by (metis (no_types, lifting) filter_filter length_filter_le filter_cong)
  have p: "length (inPool i q (filter P rows)) \<le> length (inPool i q rows)" for i q
  proof -
    have "inPool i q (filter P rows) = filter P (inPool i q rows)" unfolding inPool_def live_def filter_filter by (rule filter_cong) auto
    then show ?thesis by simp
  qed
  have "distinct (List.map_filter ac_tokenHash (filter P rows))" using assms unfolding rowsOk_def List.map_filter_def
    by (auto simp: distinct_map filter_filter inj_on_def)
  moreover have "\<forall>k\<in>set ks. seatsOk env k (filter P rows)" using assms seatsOk_mono[OF _ l p] unfolding rowsOk_def by blast
  ultimately show ?thesis using assms by (auto simp: rowsOk_def distinct_map inj_on_def)
qed

section \<open>Writes that take a slot\<close>

lemma seatsOk_mset: "mset rows = mset rows' \<Longrightarrow> seatsOk env k rows = seatsOk env k rows'"
proof -
  assume m: "mset rows = mset rows'"
  have "length (filter P rows) = length (filter P rows')" for P by (metis m mset_filter size_mset)
  then show ?thesis by (simp add: seatsOk_def live_def inPool_def)
qed

lemma rowsOk_mset:
  assumes "mset rows = mset rows'" "rowsOk env ks rows"
  shows "rowsOk env ks rows'"
proof -
  have d: "distinct (map f rows') = distinct (map f rows)" for f :: "ActivationRow \<Rightarrow> 'b"
    by (metis assms(1) mset_eq_imp_distinct_iff mset_map)
  have f: "distinct (List.map_filter f rows') = distinct (List.map_filter f rows)" for f :: "ActivationRow \<Rightarrow> 'b option"
    unfolding List.map_filter_def by (metis assms(1) mset_eq_imp_distinct_iff mset_map mset_filter)
  show ?thesis using assms(2) seatsOk_mset[OF assms(1), of env] mset_eq_setD[OF assms(1)] unfolding rowsOk_def d f by simp
qed

lemma rows_split:
  assumes "distinct (map ac_id rows)" "d \<in> set rows"
  shows "mset rows = add_mset d (mset (filter (\<lambda>r. ac_id r \<noteq> ac_id d) rows))"
    and "mset (map (\<lambda>r. if ac_id r = ac_id d then f r else r) rows) = add_mset (f d) (mset (filter (\<lambda>r. ac_id r \<noteq> ac_id d) rows))"
proof -
  obtain xs ys where s: "rows = xs @ d # ys" using assms(2) by (meson split_list)
  have n: "\<forall>r\<in>set xs \<union> set ys. ac_id r \<noteq> ac_id d" using assms(1) by (auto simp: s image_iff)
  have x: "filter (\<lambda>r. ac_id r \<noteq> ac_id d) xs = xs" "filter (\<lambda>r. ac_id r \<noteq> ac_id d) ys = ys"
    "map (\<lambda>r. if ac_id r = ac_id d then f r else r) xs = xs" "map (\<lambda>r. if ac_id r = ac_id d then f r else r) ys = ys"
    using n by (auto intro: filter_True map_idI)
  show "mset rows = add_mset d (mset (filter (\<lambda>r. ac_id r \<noteq> ac_id d) rows))"
    "mset (map (\<lambda>r. if ac_id r = ac_id d then f r else r) rows) = add_mset (f d) (mset (filter (\<lambda>r. ac_id r \<noteq> ac_id d) rows))"
    using x by (simp_all add: s)
qed

lemma length_split:
  assumes "distinct (map ac_id rows)" "d \<in> set rows"
  shows "length (filter P rows) = length (filter P (filter (\<lambda>r. ac_id r \<noteq> ac_id d) rows)) + (if P d then 1 else 0)"
proof -
  have "size (filter_mset P (mset rows)) = size (filter_mset P (add_mset d (mset (filter (\<lambda>r. ac_id r \<noteq> ac_id d) rows))))"
    using rows_split(1)[OF assms] by simp
  then show ?thesis by (simp flip: mset_filter)
qed

text \<open>What the limits ask before a row takes a slot beside \<open>others\<close>.\<close>

definition seatFree :: "'key LicEnv \<Rightarrow> LicenseRow \<Rightarrow> ActivationRow list \<Rightarrow> bool" where
  "seatFree env l others \<longleftrightarrow> (devicePolicyFor (le_policies env) (li_appKey l) = None \<and> 0 < li_seats l
     \<and> (\<forall>p. \<not> policyLeaseUnlimited (le_active env) (li_appKey l) (li_seats l) (li_metadata l) p)
     \<longrightarrow> int (length (live (li_id l) others)) + 1 \<le> li_seats l)"

definition poolFree :: "'key LicEnv \<Rightarrow> LicenseRow \<Rightarrow> string option \<Rightarrow> ActivationRow list \<Rightarrow> bool" where
  "poolFree env l pool others \<longleftrightarrow> (usesBoundedDevicePools (le_policies env) (li_appKey l) (li_seats l) (li_metadata l) \<longrightarrow> (\<forall>p c. pool = Some p
     \<and> poolCap (le_policies env) (li_appKey l) p = Some c \<and> \<not> policyLeaseUnlimited (le_active env) (li_appKey l) (li_seats l) (li_metadata l) p
     \<longrightarrow> int (length (inPool (li_id l) p others)) + 1 \<le> max 0 c))"

definition slotFree :: "'key LicEnv \<Rightarrow> LicenseRow \<Rightarrow> string option \<Rightarrow> ActivationRow list \<Rightarrow> bool" where
  "slotFree env l pool others \<longleftrightarrow> seatFree env l others \<and> poolFree env l pool others"

lemma live_filter: "live i (filter P rows) = filter P (live i rows)" "inPool i p (filter P rows) = filter P (inPool i p rows)"
  by (auto simp: live_def inPool_def filter_filter intro: filter_cong)

lemma seatFree_filter:
  assumes "seatFree env l rows"
  shows "seatFree env l (filter P rows)"
  unfolding seatFree_def
proof
  assume "devicePolicyFor (le_policies env) (li_appKey l) = None \<and> 0 < li_seats l
     \<and> (\<forall>p. \<not> policyLeaseUnlimited (le_active env) (li_appKey l) (li_seats l) (li_metadata l) p)"
  then have "int (length (live (li_id l) rows)) + 1 \<le> li_seats l" using assms unfolding seatFree_def by (rule rev_mp)
  moreover have "int (length (live (li_id l) (filter P rows))) \<le> int (length (live (li_id l) rows))" unfolding live_filter by simp
  ultimately show "int (length (live (li_id l) (filter P rows))) + 1 \<le> li_seats l" by linarith
qed

lemma poolFree_filter:
  assumes "poolFree env l pool rows"
  shows "poolFree env l pool (filter P rows)"
  unfolding poolFree_def
proof (intro impI allI)
  fix p c assume "usesBoundedDevicePools (le_policies env) (li_appKey l) (li_seats l) (li_metadata l)"
    "pool = Some p \<and> poolCap (le_policies env) (li_appKey l) p = Some c \<and> \<not> policyLeaseUnlimited (le_active env) (li_appKey l) (li_seats l) (li_metadata l) p"
  then have "int (length (inPool (li_id l) p rows)) + 1 \<le> max 0 c" using assms unfolding poolFree_def by blast
  moreover have "int (length (inPool (li_id l) p (filter P rows))) \<le> int (length (inPool (li_id l) p rows))" unfolding live_filter by simp
  ultimately show "int (length (inPool (li_id l) p (filter P rows))) + 1 \<le> max 0 c" by linarith
qed

text \<open>A row that is already live holds its seat, and its pool slot when it stays in its pool.\<close>

lemma slotFree_live:
  assumes ok: "rowsOk env ks rows" and l: "limitKey l \<in> set ks" and d: "d \<in> set rows" "ac_licenseId d = li_id l" "ac_state d = ''active''"
  shows "seatFree env l (filter (\<lambda>r. ac_id r \<noteq> ac_id d) rows)" "ac_pool d = pool \<Longrightarrow> poolFree env l pool (filter (\<lambda>r. ac_id r \<noteq> ac_id d) rows)"
proof -
  have dist: "distinct (map ac_id rows)" and s: "seatsOk env (limitKey l) rows" using ok l by (simp_all add: rowsOk_def)
  note len = length_split[OF dist d(1)]
  have "length (live (li_id l) rows) = length (live (li_id l) (filter (\<lambda>r. ac_id r \<noteq> ac_id d) rows)) + 1"
    unfolding live_def using len[of "\<lambda>r. ac_licenseId r = li_id l \<and> ac_state r = ''active''"] d by simp
  then show "seatFree env l (filter (\<lambda>r. ac_id r \<noteq> ac_id d) rows)" using s by (auto simp: seatFree_def seatsOk_def limitKey_def)
  assume pool: "ac_pool d = pool"
  have "length (inPool (li_id l) p rows) = length (inPool (li_id l) p (filter (\<lambda>r. ac_id r \<noteq> ac_id d) rows)) + 1" if "pool = Some p" for p
    unfolding inPool_def live_def
    using len[of "\<lambda>r. ac_licenseId r = li_id l \<and> ac_state r = ''active'' \<and> ac_pool r = Some p"] d pool that by simp
  then show "poolFree env l pool (filter (\<lambda>r. ac_id r \<noteq> ac_id d) rows)" using s by (fastforce simp: poolFree_def seatsOk_def limitKey_def)
qed

lemma rowsOk_admit:
  assumes ok: "rowsOk env ks others" and l: "limitKey l \<in> set ks"
    and r: "ac_licenseId r = li_id l" "ac_storeId r = li_storeId l" "ac_appKey r = li_appKey l" "activationOk (le_policies env) r"
    and fresh: "\<forall>o'\<in>set others. ac_id o' \<noteq> ac_id r \<and> (ac_licenseId o', ac_deviceIdHash o') \<noteq> (ac_licenseId r, ac_deviceIdHash r)
      \<and> (ac_tokenHash r = None \<or> ac_tokenHash o' \<noteq> ac_tokenHash r)"
    and free: "slotFree env l (ac_pool r) others"
  shows "rowsOk env ks (others @ [r])"
proof -
  have seats: "seatsOk env k (others @ [r])" if k: "k \<in> set ks" for k
  proof (cases "fst k = li_id l")
    case True
    have "inj_on fst (set ks)" using ok by (simp add: rowsOk_def distinct_map)
    then have kl: "k = limitKey l" using k l True by (auto simp: inj_on_def limitKey_def)
    have "seatsOk env k others" using ok k by (simp add: rowsOk_def)
    then show ?thesis using free r(1) unfolding kl seatsOk_def limitKey_def prod.case slotFree_def seatFree_def poolFree_def
      by (auto simp: live_def inPool_def)
  next
    case False
    then have "live (fst k) (others @ [r]) = live (fst k) others" "\<And>p. inPool (fst k) p (others @ [r]) = inPool (fst k) p others"
      using r(1) by (auto simp: live_def inPool_def)
    then show ?thesis using ok k unfolding rowsOk_def seatsOk_def by (cases k) auto
  qed
  have "distinct (List.map_filter ac_tokenHash (others @ [r]))"
    using ok fresh by (auto simp: rowsOk_def List.map_filter_def)
  moreover have "\<exists>seats metadata. (ac_licenseId r, ac_storeId r, ac_appKey r, seats, metadata) \<in> set ks" using l r by (auto simp: limitKey_def)
  ultimately show ?thesis using ok fresh seats r(4) by (auto simp: rowsOk_def)
qed

lemma rowsOk_readmit:
  assumes ok: "rowsOk env ks rows" and d: "d \<in> set rows" and l: "limitKey l \<in> set ks" "ac_licenseId d = li_id l"
    and f: "ac_id (f d) = ac_id d" "ac_licenseId (f d) = ac_licenseId d" "ac_storeId (f d) = ac_storeId d" "ac_appKey (f d) = ac_appKey d"
      "ac_deviceIdHash (f d) = ac_deviceIdHash d" "activationOk (le_policies env) (f d)"
    and token: "\<forall>r\<in>set rows. ac_id r \<noteq> ac_id d \<longrightarrow> ac_tokenHash r \<noteq> ac_tokenHash (f d)"
    and free: "slotFree env l (ac_pool (f d)) (filter (\<lambda>r. ac_id r \<noteq> ac_id d) rows)"
  shows "rowsOk env ks (map (\<lambda>r. if ac_id r = ac_id d then f r else r) rows)"
proof -
  have dist: "distinct (map ac_id rows)" "distinct (map (\<lambda>r. (ac_licenseId r, ac_deviceIdHash r)) rows)" "inj_on fst (set ks)"
    using ok by (simp_all add: rowsOk_def distinct_map)
  obtain seats metadata where "(ac_licenseId d, ac_storeId d, ac_appKey d, seats, metadata) \<in> set ks" using ok d unfolding rowsOk_def by blast
  then have "(ac_licenseId d, ac_storeId d, ac_appKey d, seats, metadata) = limitKey l"
    using l by (intro inj_onD[OF dist(3)]) (simp_all add: limitKey_def)
  then have dl: "ac_storeId d = li_storeId l" "ac_appKey d = li_appKey l" by (simp_all add: limitKey_def)
  have "rowsOk env ks (filter (\<lambda>r. ac_id r \<noteq> ac_id d) rows @ [f d])"
  proof (rule rowsOk_admit[OF rowsOk_filter[OF ok] l(1)])
    show "\<forall>o'\<in>set (filter (\<lambda>r. ac_id r \<noteq> ac_id d) rows). ac_id o' \<noteq> ac_id (f d) \<and> (ac_licenseId o', ac_deviceIdHash o') \<noteq> (ac_licenseId (f d), ac_deviceIdHash (f d))
        \<and> (ac_tokenHash (f d) = None \<or> ac_tokenHash o' \<noteq> ac_tokenHash (f d))"
    proof
      fix o' assume o': "o' \<in> set (filter (\<lambda>r. ac_id r \<noteq> ac_id d) rows)"
      have "inj_on (\<lambda>r. (ac_licenseId r, ac_deviceIdHash r)) (set rows)" using dist(2) by (simp add: distinct_map)
      then have "(ac_licenseId o', ac_deviceIdHash o') \<noteq> (ac_licenseId d, ac_deviceIdHash d)" using o' d by (auto dest: inj_onD)
      then show "ac_id o' \<noteq> ac_id (f d) \<and> (ac_licenseId o', ac_deviceIdHash o') \<noteq> (ac_licenseId (f d), ac_deviceIdHash (f d))
        \<and> (ac_tokenHash (f d) = None \<or> ac_tokenHash o' \<noteq> ac_tokenHash (f d))" using o' token unfolding f(1,2,5) by simp
    qed
  qed (simp_all add: f l dl free)
  then show ?thesis by (rule rowsOk_mset[rotated]) (use rows_split(2)[OF dist(1) d, of f] in simp)
qed

section \<open>Every transaction keeps the invariant\<close>

lemma licInv_draw: "licInv (drawEnv env d) db = licInv env db"
  by (simp add: licInv_def rowsOk_def seatsOk_def)

lemma licInv_slotKeeping:
  assumes "licInv env db" "slotKeeping f" "\<And>r. \<lbrakk>r \<in> set (ld_activations db); P r; activationOk (le_policies env) r\<rbrakk> \<Longrightarrow> activationOk (le_policies env) (f r)"
  shows "licInv env (updAct P f db)"
proof -
  have "slotKeeping (\<lambda>r. if P r then f r else r)" using assms(2) by (simp add: slotKeeping_def)
  then show ?thesis using rowsOk_map[of env _ "ld_activations db" "\<lambda>r. if P r then f r else r"] assms(1,3)
    by (simp add: licInv_def updAct_def)
qed

lemma activationOk_seen [simp]: "activationOk policies (r\<lparr>ac_lastSeenAt := t\<rparr>) = activationOk policies r"
  "activationOk policies (r\<lparr>ac_tokenVersion := v, ac_tokenIssuedAt := i\<rparr>) = activationOk policies r"
  by (simp_all add: activationOk_def rowPool_def split: option.splits)

lemma tombstone_inv:
  assumes "tombstone P f db = Inr db'" "licInv env db"
    and f: "slotKeeping f" "\<And>r. activationOk (le_policies env) r \<Longrightarrow> activationOk (le_policies env) (f r) \<and> ac_generation (f r) = ac_generation r"
  shows "licInv env db'"
proof -
  have g: "slotKeeping (\<lambda>r. (f r)\<lparr>ac_generation := ac_generation r + 1\<rparr>)" using f(1) by (simp add: slotKeeping_def)
  have lim: "\<not> list_ex (\<lambda>r. P r \<and> MAX_INT4 \<le> ac_generation r) (ld_activations db)" and db': "db' = updAct P (\<lambda>r. (f r)\<lparr>ac_generation := ac_generation r + 1\<rparr>) db"
    using assms(1) by (auto simp: tombstone_def split: if_splits)
  have "activationOk (le_policies env) ((f r)\<lparr>ac_generation := ac_generation r + 1\<rparr>)" if "activationOk (le_policies env) (f r)" "0 \<le> ac_generation r" "ac_generation r < MAX_INT4" for r
    using that by (auto simp: activationOk_def rowPool_def split: option.splits)
  then show ?thesis unfolding db' using lim f(2)
    by (intro licInv_slotKeeping[OF assms(2) g]) (auto simp: list_ex_iff not_le activationOk_def)
qed

lemma tombstone_revoked:
  "tombstone P (\<lambda>r. r\<lparr>ac_state := ''revoked'', ac_revokedAt := Some t, ac_updatedAt := t\<rparr>) db = Inr db' \<Longrightarrow> licInv env db \<Longrightarrow> licInv env db'"
  by (erule tombstone_inv) (auto simp: slotKeeping_def activationOk_def rowPool_def split: option.splits)

lemma tombstone_removed:
  "tombstone P (\<lambda>r. r\<lparr>ac_state := ''removed'', ac_removedAt := Some t, ac_updatedAt := t\<rparr>) db = Inr db' \<Longrightarrow> licInv env db \<Longrightarrow> licInv env db'"
  by (erule tombstone_inv) (auto simp: slotKeeping_def activationOk_def rowPool_def split: option.splits)

lemma licInv_licenses:
  assumes "licInv env db" "map limitKey (ld_licenses db') = map limitKey (ld_licenses db)" "ld_activations db' = ld_activations db"
  shows "licInv env db'"
  using assms by (simp add: licInv_def)

lemma setLicenseStatus_inv: "licInv env (setLicenseStatus storeId licenseId status now db) = licInv env db"
proof -
  have "map limitKey (ld_licenses (setLicenseStatus storeId licenseId status now db)) = map limitKey (ld_licenses db)"
    by (simp add: setLicenseStatus_def limitKey_def)
  then show ?thesis by (simp add: licInv_def) (simp add: setLicenseStatus_def)
qed

lemma licInv_audit [simp]: "licInv env (db\<lparr>ld_audit := a\<rparr>) = licInv env db"
  by (simp add: licInv_def)

lemma revokeLicense_inv:
  assumes "revokeLicenseInTx now actor reason storeId licenseId db = Inr (x, db')" "licInv env db"
  shows "licInv env db'"
  using assms by (auto simp: revokeLicenseInTx_def Let_def setLicenseStatus_inv split: option.splits if_splits
      dest: tombstone_revoked[where env = env])

lemma restoreLicense_inv: "licInv env db \<Longrightarrow> licInv env (snd (restoreLicenseInTx now actor reason storeId licenseId db))"
  by (auto simp: restoreLicenseInTx_def Let_def setLicenseStatus_inv split: option.splits)

lemma revokeDevice_inv:
  assumes "revokeDeviceRemote env storeId licenseId i db = Inr (x, db')" "licInv env db"
  shows "licInv env db'"
  using assms by (auto simp: revokeDeviceRemote_def Let_def dest: tombstone_revoked[where env = env])

lemma removeDevice_inv:
  assumes "removeDeviceOffline env storeId appKey dev lease db = Inr db'" "licInv env db"
  shows "licInv env db'"
  using assms unfolding removeDeviceOffline_def by (rule tombstone_removed)

lemma findActivation_inv:
  assumes "findActivationByToken env storeId appKey token deviceId path ext db = Inr (x, db')" "licInv env db"
  shows "licInv env db'"
proof -
  have "slotKeeping (\<lambda>x. x\<lparr>ac_lastSeenAt := le_now env\<rparr>)" by (simp add: slotKeeping_def)
  then have "licInv env (updAct P (\<lambda>x. x\<lparr>ac_lastSeenAt := le_now env\<rparr>) db)" for P by (intro licInv_slotKeeping[OF assms(2)]) simp_all
  then show ?thesis using assms by (auto simp: findActivationByToken_def split: option.splits prod.splits if_splits)
qed

lemma record_inv:
  assumes "recordCanonicalEntitlementIssuance env storeId i appKey db = Inr (x, db')" "licInv env db"
  shows "licInv env db'"
proof -
  have "slotKeeping (\<lambda>r. r\<lparr>ac_tokenVersion := Some 2, ac_tokenIssuedAt := Some (le_now env)\<rparr>)" by (simp add: slotKeeping_def)
  then have "licInv env (updAct P (\<lambda>r. r\<lparr>ac_tokenVersion := Some 2, ac_tokenIssuedAt := Some (le_now env)\<rparr>) db)" for P
    by (intro licInv_slotKeeping[OF assms(2)]) simp_all
  then show ?thesis using assms by (auto simp: recordCanonicalEntitlementIssuance_def Let_def split: if_splits)
qed

lemma licInv_license:
  assumes "licInv env db" "r \<in> set (ld_activations db)" "l \<in> set (ld_licenses db)" "li_id l = ac_licenseId r"
  shows "ac_appKey r = li_appKey l \<and> ac_storeId r = li_storeId l"
proof -
  obtain seats metadata where k: "(ac_licenseId r, ac_storeId r, ac_appKey r, seats, metadata) \<in> set (map limitKey (ld_licenses db))"
    using assms(1,2) unfolding licInv_def rowsOk_def by blast
  have "distinct (map fst (map limitKey (ld_licenses db)))" using assms(1) unfolding licInv_def rowsOk_def by blast
  then have inj: "inj_on fst (set (map limitKey (ld_licenses db)))" by (simp only: distinct_map)
  have l: "limitKey l \<in> set (map limitKey (ld_licenses db))" using assms(3) by simp
  have "(ac_licenseId r, ac_storeId r, ac_appKey r, seats, metadata) = limitKey l"
    by (rule inj_onD[OF inj _ k l]) (simp add: limitKey_def assms(4))
  then show ?thesis by (simp add: limitKey_def)
qed

lemma renew_inv:
  assumes "renewDeviceLease env storeId appKey dev lease ext offered db = Inr (x, db')" "licInv env db"
  shows "licInv env db'"
proof -
  have keep: "slotKeeping (leaseColumns env app)" for app by (simp add: slotKeeping_def leaseColumns_def)
  have "licInv env (updAct (\<lambda>r. ac_id r = ac_id row) (leaseColumns env (li_appKey lic)) db)"
    if row: "find P (ld_activations db) = Some row" and lic: "find (\<lambda>l. li_id l = ac_licenseId row) (ld_licenses db) = Some lic" for P row lic
  proof (rule licInv_slotKeeping[OF assms(2) keep])
    fix r assume r: "r \<in> set (ld_activations db)" "ac_id r = ac_id row" "activationOk (le_policies env) r"
    have row': "row \<in> set (ld_activations db)" using row by (auto simp: find_Some_iff)
    moreover have "inj_on ac_id (set (ld_activations db))" using assms(2) by (simp add: licInv_def rowsOk_def distinct_map)
    ultimately have "r = row" using r(1,2) by (auto dest: inj_onD)
    moreover have "lic \<in> set (ld_licenses db)" "li_id lic = ac_licenseId row" using lic by (auto simp: find_Some_iff)
    ultimately have "ac_appKey r = li_appKey lic" using licInv_license[OF assms(2) r(1)] by simp
    then show "activationOk (le_policies env) (leaseColumns env (li_appKey lic) r)" using r(3) by (auto simp: activationOk_def leaseColumns_def rowPool_def split: option.splits)
  qed
  then show ?thesis using assms by (auto simp: renewDeviceLease_def split: option.splits if_splits)
qed

lemma licInv_rows:
  assumes "licInv env db"
  shows "distinct (map ac_id (ld_activations db))" "inj_on ac_id (set (ld_activations db))"
    "\<And>r. r \<in> set (ld_activations db) \<Longrightarrow> activationOk (le_policies env) r \<and> rowPool r = ac_pool r"
  using assms by (auto simp: licInv_def rowsOk_def activationOk_def distinct_map)

lemma insertActivation_inv:
  assumes "insertActivation r db = Inr db'" "licInv env db" "l \<in> set (ld_licenses db)"
    "ac_licenseId r = li_id l" "ac_storeId r = li_storeId l" "ac_appKey r = li_appKey l" "activationOk (le_policies env) r" "slotFree env l (ac_pool r) (ld_activations db)"
  shows "licInv env db'"
proof -
  have fresh: "\<forall>o'\<in>set (ld_activations db). ac_id o' \<noteq> ac_id r \<and> (ac_licenseId o', ac_deviceIdHash o') \<noteq> (ac_licenseId r, ac_deviceIdHash r)
      \<and> (ac_tokenHash r = None \<or> ac_tokenHash o' \<noteq> ac_tokenHash r)"
    and db': "db' = db\<lparr>ld_activations := ld_activations db @ [r]\<rparr>"
    using assms(1) by (auto simp: insertActivation_def list_ex_iff split: if_splits)
  have "limitKey l \<in> set (map limitKey (ld_licenses db))" using assms(3) by simp
  from rowsOk_admit[OF assms(2)[unfolded licInv_def] this assms(4-7) fresh assms(8)]
  show ?thesis unfolding db' by (simp add: licInv_def)
qed

lemma readmit_inv:
  assumes "licInv env db" "d \<in> set (ld_activations db)" "l \<in> set (ld_licenses db)" "ac_licenseId d = li_id l"
    and f: "ac_id (f d) = ac_id d" "ac_licenseId (f d) = ac_licenseId d" "ac_storeId (f d) = ac_storeId d" "ac_appKey (f d) = ac_appKey d"
      "ac_deviceIdHash (f d) = ac_deviceIdHash d" "activationOk (le_policies env) (f d)" "ac_tokenHash (f d) = Some h"
    and token: "\<not> tokenTaken (ac_id d) h db" and free: "slotFree env l (ac_pool (f d)) (filter (\<lambda>r. ac_id r \<noteq> ac_id d) (ld_activations db))"
  shows "licInv env (updAct (\<lambda>r. ac_id r = ac_id d) f db)"
proof -
  have "limitKey l \<in> set (map limitKey (ld_licenses db))" using assms(3) by simp
  moreover have "\<forall>r\<in>set (ld_activations db). ac_id r \<noteq> ac_id d \<longrightarrow> ac_tokenHash r \<noteq> ac_tokenHash (f d)"
    using token f(7) by (auto simp: tokenTaken_def list_ex_iff)
  ultimately show ?thesis using rowsOk_readmit[OF assms(1)[unfolded licInv_def] assms(2) _ assms(4), of f] f free
    by (simp add: licInv_def updAct_def)
qed

lemma activationFull_slotFree:
  assumes inv: "licInv env db" and l: "l \<in> set (ld_licenses db)" and dev: "sameDevice = find (\<lambda>r. ac_licenseId r = li_id l \<and> ac_deviceIdHash r = h) (ld_activations db)"
    and full: "\<not> activationFull (le_policies env) (li_appKey l) l (filter (\<lambda>r. ac_licenseId r = li_id l) (ld_activations db)) sameDevice pool"
    and pool: "devicePolicyFor (le_policies env) (li_appKey l) = None \<or> truthyText pool"
  shows "slotFree env l pool (filter (\<lambda>r. Some (ac_id r) \<noteq> map_option ac_id sameDevice) (ld_activations db))"
proof -
  let ?rows = "ld_activations db" and ?others = "filter (\<lambda>r. Some (ac_id r) \<noteq> map_option ac_id sameDevice) (ld_activations db)"
  let ?existing = "filter (\<lambda>r. ac_licenseId r = li_id l) ?rows"
  let ?live = "case sameDevice of None \<Rightarrow> False | Some d \<Rightarrow> ac_state d = ''active''"
  have ok: "rowsOk env (map limitKey (ld_licenses db)) ?rows" and key: "limitKey l \<in> set (map limitKey (ld_licenses db))"
    using inv l by (simp_all add: licInv_def)
  note rows = licInv_rows[OF inv]
  have d: "d \<in> set ?rows \<and> ac_licenseId d = li_id l" if "sameDevice = Some d" for d using that dev by (auto simp: find_Some_iff)
  have live: "(case sameDevice of None \<Rightarrow> False | Some d \<Rightarrow> list_ex (\<lambda>r. ac_id r = ac_id d \<and> ac_state r = ''active'') ?existing) = ?live"
    using d rows(2) by (auto simp: list_ex_iff split: option.splits dest: inj_onD)
  have same: "(case find (\<lambda>r. ac_id r = ac_id x) ?existing of None \<Rightarrow> storedPool None None | Some r \<Rightarrow> rowPool r) = ac_pool x" if x: "sameDevice = Some x" for x
  proof -
    have "x \<in> set ?existing" using d[OF x] by simp
    then obtain r where r: "find (\<lambda>r. ac_id r = ac_id x) ?existing = Some r" using find_None_iff[of "\<lambda>r. ac_id r = ac_id x" ?existing] by fastforce
    then have "r \<in> set ?rows" "ac_id r = ac_id x" by (auto simp: find_Some_iff dest: nth_mem)
    then have "r = x" using d[OF x] rows(2) by (auto dest: inj_onD)
    then show ?thesis using r rows(3) d[OF x] by simp
  qed
  have act: "filter (\<lambda>r. ac_state r = ''active'') ?existing = live (li_id l) ?rows" by (simp add: live_def conj_commute)
  have seat: "seatFree env l ?others"
  proof (cases ?live)
    case True
    then show ?thesis using slotFree_live(1)[OF ok key] d by (cases sameDevice) (auto simp: eq_commute)
  next
    case False
    then have "li_seats l \<le> 0 \<or> int (length (live (li_id l) ?rows)) < li_seats l" using full unfolding activationFull_def Let_def live act by auto
    then have "seatFree env l ?rows" by (auto simp: seatFree_def)
    then show ?thesis by (rule seatFree_filter)
  qed
  have "poolFree env l pool ?others"
  proof (cases "?live \<and> map_option ac_pool sameDevice = Some pool")
    case True
    then show ?thesis using slotFree_live(2)[OF ok key] d by (cases sameDevice) (auto simp: eq_commute)
  next
    case False
    have o: "filter (\<lambda>r. Some (ac_id r) \<noteq> map_option ac_id sameDevice \<and> rowPool r = Some p) (live (li_id l) ?rows) = inPool (li_id l) p ?others" for p
      using rows(3) by (auto simp: inPool_def live_def intro!: filter_cong)
    have moving: "\<not> ?live \<or> (case sameDevice of None \<Rightarrow> None | Some d \<Rightarrow> (case find (\<lambda>r. ac_id r = ac_id d) ?existing of None \<Rightarrow> storedPool None None | Some r \<Rightarrow> rowPool r)) \<noteq> pool"
      using False same by (auto split: option.splits)
    show ?thesis unfolding poolFree_def
    proof (intro impI allI)
      fix p c assume b: "usesBoundedDevicePools (le_policies env) (li_appKey l) (li_seats l) (li_metadata l)"
        and p: "pool = Some p \<and> poolCap (le_policies env) (li_appKey l) p = Some c \<and> \<not> policyLeaseUnlimited (le_active env) (li_appKey l) (li_seats l) (li_metadata l) p"
      have "truthyText pool" using pool b by (auto simp: usesBoundedDevicePools_def)
      then have "\<not> capReached (Some c) (inPool (li_id l) p ?others)"
        using full b p moving unfolding activationFull_def Let_def live act o[symmetric] by auto
      then show "int (length (inPool (li_id l) p ?others)) + 1 \<le> max 0 c" by (simp add: capReached_def)
    qed
  qed
  then show ?thesis using seat by (simp add: slotFree_def)
qed

lemma others_eq: "filter (\<lambda>r. Some (ac_id r) \<noteq> map_option ac_id (Some d)) rows = filter (\<lambda>r. ac_id r \<noteq> ac_id d) rows"
  "filter (\<lambda>r. Some (ac_id r) \<noteq> map_option ac_id None) rows = rows"
  by simp_all

lemma licenseFor_facts:
  assumes "licenseFor storeId licenseKey appKey db = Some l"
  shows "l \<in> set (ld_licenses db)" "li_storeId l = storeId" "li_appKey l = appKey"
  using assms by (auto simp: licenseFor_def find_Some_iff)

lemma storedPool_named [simp]: "storedPool (Some (q # qs)) c = Some (q # qs)"
  by (simp add: storedPool_def truthyText_def)

lemma activateSeat_inv:
  assumes run: "activateSeat env input l db = Inr (x, db')" and inv: "licInv env db"
    and l: "licenseFor (ai_storeId input) (ai_licenseKey input) (ai_appKey input) db = Some l" and src: "sourceKnown (le_policies env) input"
  shows "licInv env db'"
proof -
  note lf = licenseFor_facts[OF l]
  define h where "h = le_sha256 env (ai_deviceId input)"
  define t where "t = le_sha256 env (le_token env)"
  define same where "same = find (\<lambda>r. ac_licenseId r = li_id l \<and> ac_deviceIdHash r = h) (ld_activations db)"
  define derived where "derived = (if devicePolicyFor (le_policies env) (ai_appKey input) \<noteq> None
    then deriveDeviceClassAndPool (le_policies env) (ai_appKey input) (orElse (ai_activationSource input) ''desktop'') else None)"
  note defs = h_def[symmetric] t_def[symmetric] same_def[symmetric] derived_def[symmetric]
  have src': "derived = None \<and> devicePolicyFor (le_policies env) (li_appKey l) = None \<or> (\<exists>c q qs. derived = Some (c, q # qs) \<and> serverPool (le_policies env) (li_appKey l) (q # qs))"
    using src lf(3) by (auto simp: sourceKnown_def derived_def deriveDeviceClassAndPool_def serverPool_def)
  show ?thesis
  proof (cases "activationFull (le_policies env) (ai_appKey input) l (filter (\<lambda>r. ac_licenseId r = li_id l) (ld_activations db)) same (map_option snd derived)")
    case True
    then show ?thesis using run inv unfolding activateSeat_def Let_def defs by simp
  next
    case False
    have "devicePolicyFor (le_policies env) (li_appKey l) = None \<or> truthyText (map_option snd derived)" using src' by (auto simp: truthyText_def)
    note free = activationFull_slotFree[OF inv lf(1) same_def False[unfolded lf(3)[symmetric]] this]
    show ?thesis
    proof (cases same)
      case None
      then show ?thesis using run False free src' lf unfolding activateSeat_def Let_def defs None
        by (auto intro!: insertActivation_inv[OF _ inv lf(1)] simp: activationOk_def rowPool_def storedPool_def[of None] truthyText_def MAX_INT4_def)
    next
      case (Some d)
      have d: "d \<in> set (ld_activations db)" "ac_licenseId d = li_id l" using Some unfolding same_def by (auto simp: find_Some_iff)
      have app: "ac_appKey d = li_appKey l" using licInv_license[OF inv d(1) lf(1)] d(2) by simp
      let ?f = "\<lambda>r. r\<lparr>ac_tokenHash := Some t, ac_lastSeenAt := le_now env, ac_deviceLabel := ai_deviceLabel input,
        ac_deviceClass := (if truthyText (map_option fst derived) then map_option fst derived else ac_deviceClass r),
        ac_pool := (if truthyText (map_option snd derived) then map_option snd derived else ac_pool r), ac_state := ''active'', ac_revokedAt := None, ac_removedAt := None\<rparr>"
      have "\<not> tokenTaken (ac_id d) t db" and db': "db' = updAct (\<lambda>r. ac_id r = ac_id d) ?f db"
        using run False unfolding activateSeat_def Let_def defs Some by (auto split: if_splits)
      moreover have "activationOk (le_policies env) (?f d)" using src' licInv_rows(3)[OF inv d(1)] app
        by (auto simp: activationOk_def rowPool_def truthyText_def split: option.splits)
      moreover have "slotFree env l (ac_pool (?f d)) (filter (\<lambda>r. ac_id r \<noteq> ac_id d) (ld_activations db))"
        using free src' unfolding Some others_eq by (auto simp: truthyText_def slotFree_def poolFree_def usesBoundedDevicePools_def)
      ultimately show ?thesis unfolding db' by (intro readmit_inv[OF inv d(1) lf(1) d(2)]) simp_all
    qed
  qed
qed

text \<open>A decision point either answers without a write or lets the request pass.\<close>

lemma decision_cases:
  assumes "bindE m (\<lambda>decision. case decision of RejectedPlatform reason \<Rightarrow> Inr (f reason, db) | DenyNotFound \<Rightarrow> Inr (y, db) | Allow \<Rightarrow> g) = Inr (x, db')"
  shows "db' = db \<and> (\<exists>reason. x \<in> {f reason, y}) \<or> m = Inr Allow \<and> g = Inr (x, db')"
proof -
  obtain decision where d: "m = Inr decision" using assms by (cases m) auto
  show ?thesis using assms unfolding d by (cases decision) auto
qed

lemma activate_cases:
  assumes "activateLicenseOnDevice env input db = Inr (x, db')"
  shows "db' = db \<or> (\<exists>l. licenseFor (ai_storeId input) (ai_licenseKey input) (ai_appKey input) db = Some l \<and> activateSeat env input l db = Inr (x, db'))"
  using assms unfolding activateLicenseOnDevice_def by (auto simp del: bindE_Inr_iff split: option.splits if_splits dest!: decision_cases)

lemma activate_inv:
  assumes "activateLicenseOnDevice env input db = Inr (x, db')" "licInv env db" "sourceKnown (le_policies env) input"
  shows "licInv env db'"
  using activate_cases[OF assms(1)] activateSeat_inv assms(2,3) by blast

lemma lockActiveLicense_facts:
  "lockActiveLicense now storeId appKey licenseKey db = Some l \<Longrightarrow> licenseFor storeId licenseKey appKey db = Some l"
  by (auto simp: lockActiveLicense_def split: option.splits if_splits)

lemma issue_cases:
  assumes "issueDeviceLease env input db = Inr (x, db')"
  shows "db' = db \<or> (\<exists>pool l sameDevice y. derivePool (le_policies env) (il_appKey input) (il_platform input) = Some pool \<and> leasablePool (le_policies env) (il_appKey input) pool
    \<and> licenseFor (il_storeId input) (il_licenseKey input) (il_appKey input) db = Some l
    \<and> sameDevice = find (\<lambda>r. ac_deviceIdHash r = il_deviceIdHash input) (live (li_id l) (ld_activations db))
    \<and> \<not> leaseIsFull env l pool (live (li_id l) (ld_activations db)) sameDevice \<and> placeLease env input l pool sameDevice db = Inr (y, db'))"
proof (cases "derivePool (le_policies env) (il_appKey input) (il_platform input)")
  case (Some pool)
  show ?thesis
  proof (cases "leasablePool (le_policies env) (il_appKey input) pool")
    case True
    show ?thesis
    proof (cases "lockActiveLicense (le_now env) (il_storeId input) (il_appKey input) (il_licenseKey input) db")
      case None
      then show ?thesis using assms Some True by (simp add: issueDeviceLease_def)
    next
      case (Some l)
      note l = lockActiveLicense_facts[OF Some]
      let ?e = "live (li_id l) (ld_activations db)" and ?d = "find (\<lambda>r. ac_deviceIdHash r = il_deviceIdHash input) (live (li_id l) (ld_activations db))"
      have "db' = db \<or> (if leaseIsFull env l pool ?e ?d then Inr (LeaseFull, db)
             else bindE (placeLease env input l pool ?d db) (\<lambda>((i, generation), db').
               bindE (leaseEnvelope env LeaseIssuePath (il_appKey input) l (il_deviceIdHash input) (Some pool) generation (il_offeredVersions input)) (\<lambda>lease.
                 Inr (LeaseOk lease i (le_token env), db')))) = Inr (x, db')"
        using assms \<open>derivePool _ _ _ = Some pool\<close> True Some unfolding issueDeviceLease_def live_def Let_def
        by (auto simp del: bindE_Inr_iff dest!: decision_cases)
      then show ?thesis using \<open>derivePool _ _ _ = Some pool\<close> True l by (auto split: if_splits prod.splits)
    qed
  qed (use assms Some in \<open>simp add: issueDeviceLease_def\<close>)
qed (use assms in \<open>simp add: issueDeviceLease_def\<close>)

lemma leaseIsFull_slotFree:
  assumes inv: "licInv env db" and l: "l \<in> set (ld_licenses db)" and full: "\<not> leaseIsFull env l pool (live (li_id l) (ld_activations db)) None"
  shows "slotFree env l (Some pool) (ld_activations db)"
  using full unfolding leaseIsFull_def Let_def slotFree_def seatFree_def poolFree_def
  by (auto simp: capReached_def inPool_def usesBoundedDevicePools_def split: if_splits)

lemma derivePool_named: "derivePool policies app platform = Some p \<Longrightarrow> \<exists>q qs. p = q # qs"
  by (auto simp: derivePool_def DEFAULT_PLATFORM_POOL_def split: option.splits list.splits if_splits)

lemma leaseIsFull_live:
  assumes inv: "licInv env db" and l: "l \<in> set (ld_licenses db)" and d: "d \<in> set (ld_activations db)" "ac_licenseId d = li_id l" "ac_state d = ''active''"
    and full: "\<not> leaseIsFull env l pool (live (li_id l) (ld_activations db)) (Some d)"
  shows "slotFree env l (Some pool) (filter (\<lambda>r. ac_id r \<noteq> ac_id d) (ld_activations db))"
proof -
  have key: "limitKey l \<in> set (map limitKey (ld_licenses db))" using l by simp
  note keep = slotFree_live[OF inv[unfolded licInv_def] key d]
  have "poolFree env l (Some pool) (filter (\<lambda>r. ac_id r \<noteq> ac_id d) (ld_activations db))"
  proof (cases "ac_pool d = Some pool \<or> devicePolicyFor (le_policies env) (li_appKey l) = None")
    case True
    then show ?thesis using keep(2) by (auto simp: poolFree_def usesBoundedDevicePools_def)
  next
    case False
    then have "\<not> leaseIsFull env l pool (live (li_id l) (ld_activations db)) None" using full by (simp add: leaseIsFull_def Let_def)
    then show ?thesis using leaseIsFull_slotFree[OF inv l] by (auto simp: slotFree_def intro: poolFree_filter)
  qed
  then show ?thesis using keep(1) by (simp add: slotFree_def)
qed

lemma leased_activationOk:
  assumes "ac_appKey r = app" "serverPool (le_policies env) app pool" "derivePool (le_policies env) app platform = Some pool" "0 \<le> ac_generation r" "ac_generation r \<le> MAX_INT4"
  shows "activationOk (le_policies env) (leaseColumns env app (placeColumns input pool h r))"
  using assms derivePool_named[OF assms(3)] by (auto simp: activationOk_def rowPool_def leaseColumns_def placeColumns_def)

lemma place_inv:
  assumes run: "placeLease env input l pool same db = Inr (y, db')" and inv: "licInv env db"
    and l: "licenseFor (il_storeId input) (il_licenseKey input) (il_appKey input) db = Some l"
    and pool: "derivePool (le_policies env) (il_appKey input) (il_platform input) = Some pool" "leasablePool (le_policies env) (il_appKey input) pool"
    and same: "same = find (\<lambda>r. ac_deviceIdHash r = il_deviceIdHash input) (live (li_id l) (ld_activations db))"
    and full: "\<not> leaseIsFull env l pool (live (li_id l) (ld_activations db)) same"
  shows "licInv env db'"
proof -
  note lf = licenseFor_facts[OF l]
  have sp: "serverPool (le_policies env) (li_appKey l) pool" and dp: "derivePool (le_policies env) (li_appKey l) (il_platform input) = Some pool"
    using pool lf(3) by (auto simp: serverPool_def)
  let ?h = "le_sha256 env (le_token env)"
  let ?cols = "\<lambda>r. leaseColumns env (li_appKey l) (placeColumns input pool ?h r)"
  have readmit: "licInv env (updAct (\<lambda>r. ac_id r = ac_id d) f db)"
    if d: "d \<in> set (ld_activations db)" "ac_licenseId d = li_id l" and f: "f d = (?cols d)\<lparr>ac_deviceLabel := lab, ac_removedAt := rm\<rparr>"
      and h: "\<not> tokenTaken (ac_id d) ?h db" and free: "slotFree env l (Some pool) (filter (\<lambda>r. ac_id r \<noteq> ac_id d) (ld_activations db))" for d f lab rm
  proof (rule readmit_inv[OF inv d(1) lf(1) d(2), where h = ?h])
    have app: "ac_appKey d = li_appKey l" using licInv_license[OF inv d(1) lf(1)] d(2) by simp
    have "activationOk (le_policies env) (?cols d)" using leased_activationOk[OF app sp dp] licInv_rows(3)[OF inv d(1)] by (simp add: activationOk_def)
    then show "activationOk (le_policies env) (f d)" unfolding f by (simp add: activationOk_def rowPool_def split: option.splits)
  qed (use h free in \<open>simp_all add: f leaseColumns_def placeColumns_def\<close>)
  show ?thesis
  proof (cases same)
    case (Some d)
    then have d: "d \<in> set (ld_activations db)" "ac_licenseId d = li_id l" "ac_state d = ''active''" unfolding same by (auto simp: find_Some_iff live_def dest: nth_mem)
    have free: "slotFree env l (Some pool) (filter (\<lambda>r. ac_id r \<noteq> ac_id d) (ld_activations db))" using leaseIsFull_live[OF inv lf(1) d] full Some by simp
    have h: "\<not> tokenTaken (ac_id d) ?h db"
      and db': "db' = updAct (\<lambda>r. ac_id r = ac_id d) (\<lambda>r. (?cols r)\<lparr>ac_deviceLabel := (case il_deviceLabel input of None \<Rightarrow> ac_deviceLabel r | Some l \<Rightarrow> Some l)\<rparr>) db"
      using run Some by (auto simp: placeLease_def Let_def o_def split: if_splits)
    show ?thesis unfolding db'
      by (rule readmit[OF d(1,2) _ h free, where lab = "case il_deviceLabel input of None \<Rightarrow> ac_deviceLabel d | Some l \<Rightarrow> Some l" and rm = "ac_removedAt d"])
        (simp add: leaseColumns_def placeColumns_def)
  next
    case None
    have free: "slotFree env l (Some pool) (ld_activations db)" using leaseIsFull_slotFree[OF inv lf(1)] full None by simp
    show ?thesis
    proof (cases "find (\<lambda>r. ac_licenseId r = li_id l \<and> ac_deviceIdHash r = il_deviceIdHash input) (ld_activations db)")
      case (Some t)
      then have t: "t \<in> set (ld_activations db)" "ac_licenseId t = li_id l" by (auto simp: find_Some_iff dest: nth_mem)
      have "slotFree env l (Some pool) (filter (\<lambda>r. ac_id r \<noteq> ac_id t) (ld_activations db))" using free by (simp add: slotFree_def seatFree_filter poolFree_filter)
      then show ?thesis using run None Some by (auto simp: placeLease_def Let_def o_def split: if_splits intro!: readmit[OF t, where lab = "il_deviceLabel input" and rm = None])
    next
      case None2: None
      then show ?thesis using run None free sp dp lf unfolding placeLease_def Let_def
        by (auto intro!: insertActivation_inv[OF _ inv lf(1)] leased_activationOk simp: MAX_INT4_def) (auto simp: leaseColumns_def placeColumns_def)
    qed
  qed
qed

lemma issueLease_inv:
  assumes "issueDeviceLease env input db = Inr (x, db')" "licInv env db"
  shows "licInv env db'"
  using issue_cases[OF assms(1)] place_inv assms(2) by blast

section \<open>Limits over runs\<close>

fun licGuard :: "'key LicEnv \<Rightarrow> LicOp \<Rightarrow> bool" where
  "licGuard env (LActivate d input) = sourceKnown (le_policies env) input"
| "licGuard env _ = True"

lemma licCommit_inv: "\<lbrakk>licInv env db; \<And>x db'. r = Inr (x, db') \<Longrightarrow> licInv env db'\<rbrakk> \<Longrightarrow> licInv env (licCommit db r)"
  by (auto simp: licCommit_def split: sum.splits prod.splits)

lemma rowsOk_key:
  assumes "rowsOk env ks rows" "fst k \<notin> fst ` set ks" "seatsOk env k rows"
  shows "rowsOk env (ks @ [k]) rows"
  using assms unfolding rowsOk_def by simp blast

lemma new_license_inv:
  assumes "licInv env db" "li_id l \<notin> li_id ` set (ld_licenses db)"
  shows "licInv env (db\<lparr>ld_licenses := ld_licenses db @ [l]\<rparr>)"
proof -
  let ?ks = "map limitKey (ld_licenses db)"
  have ids: "fst ` set ?ks = li_id ` set (ld_licenses db)" by (auto simp: limitKey_def image_iff)
  have none: "live (li_id l) (ld_activations db) = []" unfolding live_def filter_empty_conv
  proof (intro ballI notI, elim conjE)
    fix r assume r: "r \<in> set (ld_activations db)" "ac_licenseId r = li_id l"
    then obtain seats metadata where k: "(ac_licenseId r, ac_storeId r, ac_appKey r, seats, metadata) \<in> set ?ks"
      using assms(1) unfolding licInv_def rowsOk_def by blast
    have "li_id l \<in> fst ` set ?ks" by (rule rev_image_eqI[OF k]) (simp add: r(2))
    then show False using assms(2) ids by simp
  qed
  then have "seatsOk env (limitKey l) (ld_activations db)" by (simp add: seatsOk_def limitKey_def inPool_def)
  moreover have "fst (limitKey l) \<notin> fst ` set ?ks" using assms(2) unfolding ids by (simp add: limitKey_def)
  ultimately show ?thesis using rowsOk_key[OF assms(1)[unfolded licInv_def]] by (simp add: licInv_def)
qed

lemma licStep_inv:
  assumes "licGuard env op" "licInv env db"
  shows "licInv env (licStep env op db)"
proof (cases op)
  case (LRemoveOffline d storeId appKey dev lease)
  then show ?thesis using assms(2) removeDevice_inv[of "drawEnv env d"] by (auto simp: licInv_draw split: sum.splits)
next
  case (LDeactivate d storeId appKey token)
  then show ?thesis using assms(2) rowsOk_filter by (simp add: deactivateDevice_def licInv_def)
next
  case (LExtendLicense licenseId updatesUntil expiresAt)
  have "map limitKey (ld_licenses (licStep env op db)) = map limitKey (ld_licenses db)" unfolding LExtendLicense by (simp add: limitKey_def)
  then show ?thesis using assms(2) LExtendLicense by (intro licInv_licenses[OF assms(2)]) simp_all
next
  case (LActivate d input)
  then show ?thesis using assms activate_inv[of "drawEnv env d"] by (auto simp: licInv_draw intro!: licCommit_inv)
next
  case (LIssue d input)
  then show ?thesis using assms issueLease_inv[of "drawEnv env d"] by (auto simp: licInv_draw intro!: licCommit_inv)
next
  case (LRenew d storeId appKey dev lease ext offered)
  then show ?thesis using assms renew_inv[of "drawEnv env d"] by (auto simp: licInv_draw intro!: licCommit_inv)
next
  case (LFind d storeId appKey token deviceId path ext)
  then show ?thesis using assms findActivation_inv[of "drawEnv env d"] by (auto simp: licInv_draw intro!: licCommit_inv)
next
  case (LRecord d storeId i appKey)
  then show ?thesis using assms record_inv[of "drawEnv env d"] by (auto simp: licInv_draw intro!: licCommit_inv)
next
  case (LRevokeDevice d storeId licenseId i)
  then show ?thesis using assms revokeDevice_inv[of "drawEnv env d"] by (auto simp: licInv_draw intro!: licCommit_inv)
next
  case (LRevokeLicense now actor reason storeId licenseId)
  then show ?thesis using assms revokeLicense_inv by (auto intro!: licCommit_inv)
next
  case (LRestoreLicense now actor reason storeId licenseId)
  then show ?thesis using assms restoreLicense_inv by simp
next
  case (LNewLicense l)
  then show ?thesis using assms(2) new_license_inv[OF assms(2), of l] by simp
qed

interpretation lic: guarded_machine "licStep env" "licInv env" "licGuard env" for env
  by unfold_locales (rule licStep_inv)

lemma empty_licInv: "licInv env emptyLicDb"
  by (simp add: licInv_def rowsOk_def emptyLicDb_def List.map_filter_def)

text \<open>C7: over every sequence of licence transactions that starts from empty tables and whose activations
  arrive through known sources, no licence holds more live devices than it may. Without a device policy
  the live devices never outnumber a positive seat count; under a policy the live devices of a bounded
  licence in a capped pool never outnumber the cap. A pool the entitlement policy declares unlimited is
  left out.\<close>

theorem device_limits_hold:
  assumes "list_all (licGuard env) ops"
  shows "let db = fold (licStep env) ops emptyLicDb in list_all (\<lambda>l.
      (devicePolicyFor (le_policies env) (li_appKey l) = None \<and> 0 < li_seats l
         \<and> (\<forall>p. \<not> policyLeaseUnlimited (le_active env) (li_appKey l) (li_seats l) (li_metadata l) p)
         \<longrightarrow> int (length (filter (\<lambda>r. ac_licenseId r = li_id l \<and> ac_state r = ''active'') (ld_activations db))) \<le> li_seats l)
      \<and> (usesBoundedDevicePools (le_policies env) (li_appKey l) (li_seats l) (li_metadata l) \<longrightarrow> (\<forall>p c. poolCap (le_policies env) (li_appKey l) p = Some c
           \<and> \<not> policyLeaseUnlimited (le_active env) (li_appKey l) (li_seats l) (li_metadata l) p
           \<longrightarrow> int (length (filter (\<lambda>r. ac_pool r = Some p) (filter (\<lambda>r. ac_licenseId r = li_id l \<and> ac_state r = ''active'') (ld_activations db)))) \<le> max 0 c)))
      (ld_licenses db)"
proof -
  define db where "db = fold (licStep env) ops emptyLicDb"
  have "licInv env db" unfolding db_def using assms empty_licInv by (rule lic.run_guarded)
  then have "seatsOk env (limitKey l) (ld_activations db)" if "l \<in> set (ld_licenses db)" for l
    using that by (simp add: licInv_def rowsOk_def)
  then show ?thesis unfolding db_def[symmetric] Let_def list_all_iff seatsOk_def limitKey_def prod.case live_def inPool_def by blast
qed

text \<open>C31: over the same sequences the activation table keeps its shape. Row ids and token hashes are not
  repeated and a device has one row per licence; every row belongs to a licence of its own store and
  app, is active, removed or revoked, keeps its generation in the column's range, has only a pool the
  server derived from the platform or the activation source, and its lease, where it has one, ends one
  lease lifetime after it was issued.\<close>

theorem activation_table_wellformed:
  assumes "list_all (licGuard env) ops"
  shows "let db = fold (licStep env) ops emptyLicDb; rows = ld_activations db in
     distinct (map ac_id rows) \<and> distinct (map (\<lambda>r. (ac_licenseId r, ac_deviceIdHash r)) rows) \<and> distinct (List.map_filter ac_tokenHash rows)
     \<and> list_all (\<lambda>r. list_ex (\<lambda>l. li_id l = ac_licenseId r \<and> li_storeId l = ac_storeId r \<and> li_appKey l = ac_appKey r) (ld_licenses db)
         \<and> ac_state r \<in> {''active'', ''removed'', ''revoked''} \<and> 0 \<le> ac_generation r \<and> ac_generation r \<le> 2147483647
         \<and> (case ac_pool r of None \<Rightarrow> True | Some p \<Rightarrow> serverPool (le_policies env) (ac_appKey r) p)
         \<and> (case ac_leaseId r of None \<Rightarrow> ac_leaseExpiresAt r = None
             | Some _ \<Rightarrow> \<exists>t. ac_leaseIssuedAt r = Some t \<and> ac_leaseExpiresAt r = Some (t + leaseTtlSecondsFor (le_policies env) (ac_appKey r) * 1000))) rows"
proof -
  define db where "db = fold (licStep env) ops emptyLicDb"
  have inv: "licInv env db" unfolding db_def using assms empty_licInv by (rule lic.run_guarded)
  then have "\<exists>l\<in>set (ld_licenses db). li_id l = ac_licenseId r \<and> li_storeId l = ac_storeId r \<and> li_appKey l = ac_appKey r" if "r \<in> set (ld_activations db)" for r
    using that unfolding licInv_def rowsOk_def limitKey_def by fastforce
  then show ?thesis unfolding db_def[symmetric] Let_def list_all_iff list_ex_iff
    using inv unfolding licInv_def rowsOk_def activationOk_def MAX_INT4_def by blast
qed

section \<open>A concrete run\<close>

text \<open>A one-seat licence of an app that allows one computer: the second computer is refused.\<close>

definition demoPolicy :: DevicePolicy where
  "demoPolicy = \<lparr>dp_marker = ''m'', dp_poolCaps = Some [(''computer'', 1)], dp_leasablePools = None, dp_pooledSeats = None,
     dp_platformPools = None, dp_leaseTtlSeconds = None, dp_leaseGraceSeconds = None, dp_activationSources = None\<rparr>"

definition demoLicEnv :: "unit LicEnv" where
  "demoLicEnv = \<lparr>le_policies = [''app'' \<mapsto> demoPolicy], le_active = None, le_catalogs = (\<lambda>_. None), le_now = 0, le_sha256 = (\<lambda>s. s),
     le_token = [], le_leaseId = [], le_rowId = [], le_key = None, le_edSign = (\<lambda>_ _. []), le_formats = builtinFormats, le_ttl = None\<rparr>"

definition demoDraw :: "string \<Rightarrow> Draw" where
  "demoDraw x = \<lparr>dr_now = 1000, dr_token = x, dr_leaseId = x, dr_rowId = x\<rparr>"

definition demoLicense :: LicenseRow where
  "demoLicense = \<lparr>li_id = ''L'', li_storeId = ''s'', li_appKey = ''app'', li_licenseKey = ''K'', li_status = ''active'', li_seats = 1,
     li_updatesUntil = None, li_expiresAt = None, li_metadata = JNull, li_createdAt = 0, li_updatedAt = 0\<rparr>"

definition demoLease :: "string \<Rightarrow> IssueLeaseInput" where
  "demoLease dev = \<lparr>il_storeId = ''s'', il_appKey = ''app'', il_licenseKey = ''K'', il_deviceIdHash = dev, il_platform = ''macos'',
     il_deviceLabel = None, il_ext = [], il_offeredVersions = []\<rparr>"

definition demoOps :: "LicOp list" where
  "demoOps = [LNewLicense demoLicense, LIssue (demoDraw ''x'') (demoLease ''a''), LIssue (demoDraw ''y'') (demoLease ''b'')]"

definition demoActivation :: ActivationRow where
  "demoActivation = \<lparr>ac_id = ''x'', ac_storeId = ''s'', ac_licenseId = ''L'', ac_appKey = ''app'', ac_deviceIdHash = ''a'', ac_tokenHash = Some ''x'',
     ac_deviceLabel = None, ac_deviceClass = Some ''mac'', ac_platform = Some ''macos'', ac_pool = Some ''computer'', ac_state = ''active'', ac_generation = 0,
     ac_revokedAt = None, ac_removedAt = None, ac_leaseId = Some ''x'', ac_leaseIssuedAt = Some 1000, ac_leaseExpiresAt = Some 604801000,
     ac_leaseGraceSeconds = Some 1209600, ac_updatedAt = 1000, ac_tokenVersion = None, ac_tokenIssuedAt = None, ac_activatedAt = 1000, ac_lastSeenAt = 1000\<rparr>"

lemma demo_lic_run: "fold (licStep demoLicEnv) demoOps emptyLicDb = \<lparr>ld_licenses = [demoLicense], ld_activations = [demoActivation], ld_audit = []\<rparr>"
  by code_simp

theorem device_limits_hold_witness:
  "list_all (licGuard demoLicEnv) demoOps \<and> usesBoundedDevicePools (le_policies demoLicEnv) ''app'' 1 JNull
   \<and> int (length (filter (\<lambda>r. ac_pool r = Some ''computer'') (filter (\<lambda>r. ac_licenseId r = ''L'' \<and> ac_state r = ''active'')
       (ld_activations (fold (licStep demoLicEnv) demoOps emptyLicDb))))) \<le> 1"
proof -
  have g: "list_all (licGuard demoLicEnv) demoOps" by (simp add: demoOps_def)
  have b: "usesBoundedDevicePools (le_policies demoLicEnv) ''app'' 1 JNull" by code_simp
  have c: "poolCap (le_policies demoLicEnv) ''app'' ''computer'' = Some 1" "policyLeaseUnlimited (le_active demoLicEnv) ''app'' 1 JNull ''computer'' = False" by code_simp+
  have l: "demoLicense \<in> set (ld_licenses (fold (licStep demoLicEnv) demoOps emptyLicDb))" by (simp add: demo_lic_run)
  have f: "li_appKey demoLicense = ''app''" "li_seats demoLicense = 1" "li_metadata demoLicense = JNull" "li_id demoLicense = ''L''" by (simp_all add: demoLicense_def)
  from device_limits_hold[OF g, unfolded Let_def list_all_iff, rule_format, OF l] show ?thesis using g b c unfolding f by fastforce
qed

theorem activation_table_wellformed_witness:
  "list_all (licGuard demoLicEnv) demoOps \<and> distinct (map ac_id (ld_activations (fold (licStep demoLicEnv) demoOps emptyLicDb)))
   \<and> list_all (\<lambda>r. ac_state r \<in> {''active'', ''removed'', ''revoked''} \<and> ac_generation r \<le> 2147483647) (ld_activations (fold (licStep demoLicEnv) demoOps emptyLicDb))"
proof -
  have g: "list_all (licGuard demoLicEnv) demoOps" by (simp add: demoOps_def)
  then show ?thesis using activation_table_wellformed[OF g] unfolding Let_def list_all_iff by blast
qed

end
