(* ===== verification/LeaseLaws.thy ===== *)
theory LeaseLaws
  imports ActivationLaws
begin

text \<open>
  The life of a lease id: every renewal or re-issue draws a new id, and a superseded id is never
  accepted again. The proofs follow what each transaction writes to the activation rows.
\<close>

section \<open>The shape of a write\<close>

definition rowWrite :: "(ActivationRow \<Rightarrow> ActivationRow) \<Rightarrow> bool" where
  "rowWrite g \<longleftrightarrow> (\<forall>r. ac_id (g r) = ac_id r \<and> ac_leaseId (g r) = ac_leaseId r)"

definition leaseWrite :: "string \<Rightarrow> (ActivationRow \<Rightarrow> ActivationRow) \<Rightarrow> bool" where
  "leaseWrite x g \<longleftrightarrow> (\<forall>r. ac_id (g r) = ac_id r \<and> ac_leaseId (g r) = Some x)"

text \<open>What one transaction may write, \<open>x\<close> being the lease id it draws: rows written or dropped without a
  change of their lease, one row moved to the drawn lease, or a new row.\<close>

inductive writes :: "string option \<Rightarrow> ActivationRow list \<Rightarrow> ActivationRow list \<Rightarrow> bool" for x rows where
  keep: "rowWrite g \<Longrightarrow> writes x rows (map g (filter P rows))"
| lease: "\<lbrakk>x = Some y; leaseWrite y g\<rbrakk> \<Longrightarrow> writes x rows (map (\<lambda>r. if ac_id r = i then g r else r) rows)"
| insert: "\<lbrakk>ac_id r \<notin> ac_id ` set rows; ac_leaseId r = None \<or> x \<noteq> None \<and> ac_leaseId r = x\<rbrakk> \<Longrightarrow> writes x rows (rows @ [r])"

lemma writes_refl: "writes x rows rows"
  using writes.keep[of "\<lambda>r. r" x rows "\<lambda>_. True"] by (simp add: rowWrite_def)

lemma writes_updAct: "rowWrite g \<Longrightarrow> writes x (ld_activations db) (ld_activations (updAct P g db))"
  using writes.keep[of "\<lambda>r. if P r then g r else r" x "ld_activations db" "\<lambda>_. True"] by (simp add: rowWrite_def updAct_def)

lemma writes_lease: "leaseWrite y g \<Longrightarrow> writes (Some y) (ld_activations db) (ld_activations (updAct (\<lambda>r. ac_id r = i) g db))"
  by (simp add: updAct_def writes.lease)

lemma writes_insert:
  "\<lbrakk>insertActivation r db = Inr db'; ac_leaseId r = None \<or> x \<noteq> None \<and> ac_leaseId r = x\<rbrakk> \<Longrightarrow> writes x (ld_activations db) (ld_activations db')"
  using writes.insert[of r "ld_activations db" x] by (fastforce simp: insertActivation_def list_ex_iff split: if_splits)

lemma writes_tombstone:
  "\<lbrakk>tombstone P f db = Inr db'; rowWrite f\<rbrakk> \<Longrightarrow> writes x (ld_activations db) (ld_activations db')"
  by (auto simp: tombstone_def rowWrite_def split: if_splits intro!: writes_updAct)

fun leaseDraw :: "LicOp \<Rightarrow> string option" where
  "leaseDraw (LIssue d input) = Some (dr_leaseId d)"
| "leaseDraw (LRenew d storeId appKey dev lease ext offered) = Some (dr_leaseId d)"
| "leaseDraw _ = None"

lemma writes_commit:
  "(\<And>y db'. r = Inr (y, db') \<Longrightarrow> writes x (ld_activations db) (ld_activations db')) \<Longrightarrow> writes x (ld_activations db) (ld_activations (licCommit db r))"
  by (auto simp: licCommit_def writes_refl split: sum.splits prod.splits)

lemma activate_writes:
  assumes "activateLicenseOnDevice env input db = Inr (y, db')"
  shows "writes x (ld_activations db) (ld_activations db')"
proof -
  have "writes x (ld_activations db) (ld_activations db')" if "activateSeat env input l db = Inr (y, db')" for l
    using that unfolding activateSeat_def Let_def
    by (auto split: if_splits option.splits intro!: writes_refl writes_updAct writes_insert simp: rowWrite_def)
  then show ?thesis using activate_cases[OF assms] writes_refl by blast
qed

lemma issue_writes:
  assumes "issueDeviceLease env input db = Inr (y, db')"
  shows "writes (Some (le_leaseId env)) (ld_activations db) (ld_activations db')"
proof -
  have "writes (Some (le_leaseId env)) (ld_activations db) (ld_activations db')" if "placeLease env input l pool same db = Inr (z, db')" for l pool same z
    using that unfolding placeLease_def Let_def
    by (auto split: if_splits option.splits intro!: writes_lease elim!: writes_insert simp: leaseWrite_def leaseColumns_def placeColumns_def)
  then show ?thesis using issue_cases[OF assms] writes_refl by blast
qed

lemma renew_ok:
  assumes "renewDeviceLease env storeId appKey dev lease ext offered db = Inr (y, db')"
  shows "db' = db \<and> (\<forall>lv. y \<noteq> RenewOk lv) \<or> (\<exists>row app. row \<in> set (ld_activations db) \<and> ac_leaseId row = Some lease
    \<and> db' = updAct (\<lambda>r. ac_id r = ac_id row) (leaseColumns env app) db)"
  using assms by (auto simp: renewDeviceLease_def find_Some_iff split: option.splits if_splits dest: nth_mem)

lemma renew_writes:
  assumes "renewDeviceLease env storeId appKey dev lease ext offered db = Inr (y, db')"
  shows "writes (Some (le_leaseId env)) (ld_activations db) (ld_activations db')"
  using renew_ok[OF assms] by (auto intro!: writes_refl writes_lease simp: leaseWrite_def leaseColumns_def)

lemma step_writes: "writes (leaseDraw op) (ld_activations db) (ld_activations (licStep env op db))"
proof (cases op)
  case (LActivate d input)
  then show ?thesis using activate_writes[of "drawEnv env d"] by (auto intro!: writes_commit)
next
  case (LIssue d input)
  then show ?thesis using issue_writes[of "drawEnv env d"] by (auto intro!: writes_commit)
next
  case (LRenew d storeId appKey dev lease ext offered)
  then show ?thesis using renew_writes[of "drawEnv env d"] by (auto intro!: writes_commit)
next
  case (LDeactivate d storeId appKey token)
  then show ?thesis using writes.keep[of "\<lambda>r. r"] by (simp add: deactivateDevice_def rowWrite_def)
next
  case (LFind d storeId appKey token deviceId path ext)
  then show ?thesis
    by (auto intro!: writes_commit writes_refl writes_updAct simp: rowWrite_def findActivationByToken_def split: option.splits prod.splits if_splits)
next
  case (LRecord d storeId i appKey)
  then show ?thesis
    by (auto intro!: writes_commit writes_refl writes_updAct simp: rowWrite_def recordCanonicalEntitlementIssuance_def Let_def split: if_splits)
next
  case (LRevokeDevice d storeId licenseId i)
  then show ?thesis by (auto intro!: writes_commit elim!: writes_tombstone simp: rowWrite_def revokeDeviceRemote_def Let_def)
next
  case (LRemoveOffline d storeId appKey dev lease)
  then show ?thesis by (auto intro!: writes_refl elim!: writes_tombstone simp: rowWrite_def removeDeviceOffline_def split: sum.splits)
next
  case (LRevokeLicense now actor reason storeId licenseId)
  have "writes None (ld_activations db) (ld_activations (licCommit db (revokeLicenseInTx now actor reason storeId licenseId db)))"
  proof (rule writes_commit)
    fix y db' assume "revokeLicenseInTx now actor reason storeId licenseId db = Inr (y, db')"
    then show "writes None (ld_activations db) (ld_activations db')"
      by (auto simp: revokeLicenseInTx_def Let_def setLicenseStatus_def rowWrite_def split: option.splits if_splits intro!: writes_refl dest!: writes_tombstone)
  qed
  then show ?thesis by (simp add: LRevokeLicense)
next
  case (LRestoreLicense now actor reason storeId licenseId)
  then show ?thesis by (auto simp: restoreLicenseInTx_def Let_def setLicenseStatus_def writes_refl split: option.splits)
qed (auto simp: writes_refl)

section \<open>Superseded leases\<close>

definition leaseIds :: "ActivationRow list \<Rightarrow> string list" where
  "leaseIds rows = List.map_filter ac_leaseId rows"

lemma leaseIds_set: "x \<in> set (leaseIds rows) \<longleftrightarrow> (\<exists>r\<in>set rows. ac_leaseId r = Some x)"
  by (force simp: leaseIds_def List.map_filter_def)

lemma leaseIds_distinct:
  "distinct (leaseIds rows) \<Longrightarrow> \<lbrakk>r \<in> set rows; r' \<in> set rows; ac_leaseId r = Some x; ac_leaseId r' = Some x\<rbrakk> \<Longrightarrow> r = r'"
  by (force simp: leaseIds_def List.map_filter_def distinct_map inj_on_def)

text \<open>Row ids are distinct, no two rows hold the same lease, and every lease was drawn before.\<close>

definition leaseInv :: "string list \<Rightarrow> ActivationRow list \<Rightarrow> bool" where
  "leaseInv used rows \<longleftrightarrow> distinct (map ac_id rows) \<and> distinct (leaseIds rows) \<and> set (leaseIds rows) \<subseteq> set used"

lemma writes_leaseIds: "writes x rows rows' \<Longrightarrow> set (leaseIds rows') \<subseteq> set (leaseIds rows) \<union> set_option x"
  by (induction rule: writes.induct) (auto simp: leaseIds_set rowWrite_def leaseWrite_def split: if_splits)

lemma writes_leaseInv:
  assumes "writes x rows rows'" "leaseInv used rows" "\<And>y. x = Some y \<Longrightarrow> y \<notin> set used"
  shows "leaseInv (used @ (case x of None \<Rightarrow> [] | Some y \<Rightarrow> [y])) rows'"
proof -
  have sub: "set (leaseIds rows') \<subseteq> set (used @ (case x of None \<Rightarrow> [] | Some y \<Rightarrow> [y]))"
    using writes_leaseIds[OF assms(1)] assms(2) by (auto simp: leaseInv_def split: option.splits)
  from assms(1) have "distinct (map ac_id rows') \<and> distinct (leaseIds rows')"
  proof cases
    case (keep g P)
    have "map ac_id rows' = map ac_id (filter P rows)" "leaseIds rows' = leaseIds (filter P rows)"
      using keep by (auto simp: rowWrite_def leaseIds_def List.map_filter_def filter_map o_def)
    moreover have "distinct (leaseIds (filter P rows))" using assms(2) unfolding leaseInv_def leaseIds_def List.map_filter_def
      by (auto simp: distinct_map inj_on_def filter_filter)
    ultimately show ?thesis using assms(2) by (simp add: leaseInv_def distinct_map inj_on_def)
  next
    case (lease y g i)
    then have ids: "map ac_id rows' = map ac_id rows" by (auto simp: leaseWrite_def)
    have "distinct (leaseIds (map (\<lambda>r. if ac_id r = i then g r else r) xs))" if "distinct (map ac_id xs)" "distinct (leaseIds xs)" "y \<notin> set (leaseIds xs)" for xs
      using that
    proof (induction xs)
      case (Cons r xs)
      have tail: "distinct (leaseIds (map (\<lambda>r. if ac_id r = i then g r else r) xs))" using Cons by (auto simp: leaseIds_def List.map_filter_def split: if_splits)
      show ?case
      proof (cases "ac_id r = i")
        case True
        then have "map (\<lambda>r. if ac_id r = i then g r else r) xs = xs" using Cons.prems(1) by (auto simp: image_iff intro!: map_idI)
        then show ?thesis using True Cons.prems tail lease(3) by (auto simp: leaseIds_def List.map_filter_def leaseWrite_def split: if_splits)
      next
        case False
        have "set (leaseIds (map (\<lambda>r. if ac_id r = i then g r else r) xs)) \<subseteq> insert y (set (leaseIds xs))"
          using lease(3) by (auto simp: leaseIds_set leaseWrite_def split: if_splits)
        then show ?thesis using False Cons.prems tail by (auto simp: leaseIds_def List.map_filter_def split: if_splits)
      qed
    qed (simp add: leaseIds_def List.map_filter_def)
    then have "distinct (leaseIds rows')" using assms(2,3) lease(1,2) by (auto simp: leaseInv_def)
    then show ?thesis unfolding ids using assms(2) by (simp add: leaseInv_def)
  next
    case (insert r)
    have "ac_leaseId r = None \<or> (\<exists>y. x = Some y \<and> ac_leaseId r = Some y \<and> y \<notin> set (leaseIds rows))"
      using insert(3) assms(2,3) by (auto simp: leaseInv_def)
    moreover have "leaseIds rows' = leaseIds rows @ (case ac_leaseId r of None \<Rightarrow> [] | Some y \<Rightarrow> [y])"
      using insert(1) by (auto simp: leaseIds_def List.map_filter_def split: option.splits)
    ultimately show ?thesis using insert(1,2) assms(2) by (auto simp: leaseInv_def)
  qed
  then show ?thesis using sub by (simp add: leaseInv_def)
qed

lemma run_leaseInv:
  assumes "leaseInv used (ld_activations db)" "distinct (used @ List.map_filter leaseDraw ops)"
  shows "leaseInv (used @ List.map_filter leaseDraw ops) (ld_activations (fold (licStep env) ops db))"
  using assms
proof (induction ops arbitrary: used db)
  case (Cons op ops)
  have draws: "List.map_filter leaseDraw (op # ops) = (case leaseDraw op of None \<Rightarrow> [] | Some y \<Rightarrow> [y]) @ List.map_filter leaseDraw ops"
    by (simp add: List.map_filter_def split: option.splits)
  have fresh: "y \<notin> set used" if "leaseDraw op = Some y" for y using Cons.prems(2) that unfolding draws by auto
  have "leaseInv (used @ (case leaseDraw op of None \<Rightarrow> [] | Some y \<Rightarrow> [y])) (ld_activations (licStep env op db))"
    by (rule writes_leaseInv[OF step_writes Cons.prems(1)]) (rule fresh)
  from Cons.IH[OF this] Cons.prems(2) show ?case unfolding draws by simp
qed (simp add: List.map_filter_def)

text \<open>A lease id no row holds stays unknown while it is not drawn again.\<close>

lemma run_dead:
  assumes "x \<notin> set (leaseIds (ld_activations db))" "x \<notin> set (List.map_filter leaseDraw ops)"
  shows "x \<notin> set (leaseIds (ld_activations (fold (licStep env) ops db)))"
  using assms
proof (induction ops arbitrary: db)
  case (Cons op ops)
  have "leaseDraw op \<noteq> Some x" "x \<notin> set (List.map_filter leaseDraw ops)" using Cons.prems(2) by (auto simp: List.map_filter_def split: if_splits)
  then show ?case using Cons writes_leaseIds[OF step_writes[where op = op and db = db and env = env]] by fastforce
qed simp

lemma updAct_none: "(\<And>r. r \<in> set (ld_activations db) \<Longrightarrow> \<not> P r) \<Longrightarrow> updAct P g db = db"
proof -
  assume "\<And>r. r \<in> set (ld_activations db) \<Longrightarrow> \<not> P r"
  then have "map (\<lambda>r. if P r then g r else r) (ld_activations db) = ld_activations db" by (intro map_idI) simp
  then show ?thesis by (simp add: updAct_def)
qed

lemma dead_lease:
  assumes "x \<notin> set (leaseIds (ld_activations db))"
  shows "renewDeviceLease env storeId appKey dev x ext offered db = Inr (RenewNotFound, db)" "removeDeviceOffline env storeId appKey dev x db = Inr db"
proof -
  have none: "ac_leaseId r \<noteq> Some x" if "r \<in> set (ld_activations db)" for r using assms that by (auto simp: leaseIds_set)
  then have "find (\<lambda>r. ac_storeId r = storeId \<and> ac_appKey r = appKey \<and> ac_deviceIdHash r = dev \<and> ac_leaseId r = Some x) (ld_activations db) = None"
    by (auto simp: find_None_iff)
  then show "renewDeviceLease env storeId appKey dev x ext offered db = Inr (RenewNotFound, db)" by (simp add: renewDeviceLease_def)
  show "removeDeviceOffline env storeId appKey dev x db = Inr db"
    using none by (auto simp: removeDeviceOffline_def tombstone_def list_ex_iff intro!: updAct_none)
qed

text \<open>C18: a lease id that was renewed is dead. When a renewal succeeds after any sequence of licence
  transactions and no random id is drawn twice, then after any further transactions, at any time and
  for any device, a renewal with the old id is refused as unknown and an offline removal with the old
  id changes nothing.\<close>

theorem lease_replay_rejected:
  assumes "distinct (List.map_filter leaseDraw (ops @ LRenew d storeId appKey dev lease ext offered # later))"
    and "renewDeviceLease (drawEnv env d) storeId appKey dev lease ext offered (fold (licStep env) ops emptyLicDb) = Inr (RenewOk lv, db)"
  shows "let db' = fold (licStep env) later db in
     renewDeviceLease (drawEnv env d') storeId' appKey' dev' lease ext' offered' db' = Inr (RenewNotFound, db')
     \<and> removeDeviceOffline (drawEnv env d') storeId' appKey' dev' lease db' = Inr db'"
proof -
  define db0 where "db0 = fold (licStep env) ops emptyLicDb"
  have draws: "distinct (List.map_filter leaseDraw ops)" "dr_leaseId d \<notin> set (List.map_filter leaseDraw ops)"
    "set (List.map_filter leaseDraw ops) \<inter> set (List.map_filter leaseDraw later) = {}"
    using assms(1) by (auto simp: List.map_filter_def)
  have "leaseInv [] (ld_activations emptyLicDb)" by (simp add: leaseInv_def emptyLicDb_def leaseIds_def List.map_filter_def)
  from run_leaseInv[OF this, of ops env] have inv: "leaseInv (List.map_filter leaseDraw ops) (ld_activations db0)" using draws(1) by (simp add: db0_def)
  obtain row app where row: "row \<in> set (ld_activations db0)" "ac_leaseId row = Some lease"
    and db: "db = updAct (\<lambda>r. ac_id r = ac_id row) (leaseColumns (drawEnv env d) app) db0"
    using renew_ok[OF assms(2)] unfolding db0_def by blast
  have used: "lease \<in> set (List.map_filter leaseDraw ops)" using row inv by (auto simp: leaseInv_def leaseIds_set subset_iff)
  have "lease \<notin> set (leaseIds (ld_activations db))"
  proof
    assume "lease \<in> set (leaseIds (ld_activations db))"
    then obtain r where "r \<in> set (ld_activations db0)" "ac_id r \<noteq> ac_id row" "ac_leaseId r = Some lease"
      using used draws(2) by (auto simp: leaseIds_set db updAct_def leaseColumns_def split: if_splits)
    then show False using leaseIds_distinct[of "ld_activations db0"] inv row by (auto simp: leaseInv_def)
  qed
  then have "lease \<notin> set (leaseIds (ld_activations (fold (licStep env) later db)))" using used draws(3) by (intro run_dead) auto
  then show ?thesis unfolding Let_def using dead_lease by blast
qed

definition demoLeaseV :: LeaseEnvelope where
  "demoLeaseV = \<lparr>lv_leaseId = ''z'', lv_deviceIdHash = ''a'', lv_pool = Some ''computer'', lv_entitlement = None, lv_issuedAt = 1000, lv_expiresAt = 604801000,
     lv_graceSeconds = 1209600, lv_generation = 0, lv_signature = None, lv_entitlementScope = None\<rparr>"

lemma demo_renew:
  "renewDeviceLease (drawEnv demoLicEnv (demoDraw ''z'')) ''s'' ''app'' ''a'' ''x'' [] [] (fold (licStep demoLicEnv) demoOps emptyLicDb)
   = Inr (RenewOk demoLeaseV, licStep demoLicEnv (LRenew (demoDraw ''z'') ''s'' ''app'' ''a'' ''x'' [] []) (fold (licStep demoLicEnv) demoOps emptyLicDb))"
  unfolding demo_lic_run by code_simp

theorem lease_replay_rejected_witness:
  "let db = licStep demoLicEnv (LRenew (demoDraw ''z'') ''s'' ''app'' ''a'' ''x'' [] []) (fold (licStep demoLicEnv) demoOps emptyLicDb) in
   renewDeviceLease (drawEnv demoLicEnv (demoDraw ''w'')) ''s'' ''app'' ''a'' ''x'' [] [] db = Inr (RenewNotFound, db)"
proof -
  have "distinct (List.map_filter leaseDraw (demoOps @ LRenew (demoDraw ''z'') ''s'' ''app'' ''a'' ''x'' [] [] # []))" by code_simp
  from lease_replay_rejected[OF this demo_renew, of "demoDraw ''w''" "''s''" "''app''" "''a''" "[]" "[]"] show ?thesis by (simp add: Let_def)
qed

section \<open>Revived leases\<close>

text \<open>The activate path does not clear the lease of the row it re-admits. After a device's lease was revoked
  and the device was activated again through that path, the revoked lease renews, and a queued offline
  removal with it removes the new activation.\<close>

definition revivedOps :: "LicOp list" where
  "revivedOps = demoOps @ [LRevokeDevice (demoDraw ''p'') ''s'' ''L'' ''x'', LActivate (demoDraw ''q'')
     \<lparr>ai_storeId = ''s'', ai_appKey = ''app'', ai_licenseKey = ''K'', ai_deviceId = ''a'', ai_deviceLabel = None, ai_activationSource = None, ai_ext = []\<rparr>]"

theorem revoked_lease_revived:
  "(case renewDeviceLease (drawEnv demoLicEnv (demoDraw ''z'')) ''s'' ''app'' ''a'' ''x'' [] [] (fold (licStep demoLicEnv) revivedOps emptyLicDb) of
      Inr (RenewOk lv, _) \<Rightarrow> lv_generation lv = 1 | _ \<Rightarrow> False)
   \<and> (case removeDeviceOffline (drawEnv demoLicEnv (demoDraw ''z'')) ''s'' ''app'' ''a'' ''x'' (fold (licStep demoLicEnv) revivedOps emptyLicDb) of
      Inr db \<Rightarrow> map ac_state (ld_activations db) = [''removed''] | _ \<Rightarrow> False)"
  by code_simp

end
