(* ===== verification/TokenLaws.thy ===== *)
theory TokenLaws
  imports LicensePolicy
begin

text \<open>
  What a signed entitlement token says: the claims of the frozen format survive every negotiated
  format, the token does not outlive the licence, and the plan of a licence's tokens follows its dates.
\<close>

section \<open>Registered formats\<close>

text \<open>The formats a deployment reaches by registering further ones on top of the built-in format.\<close>

definition registerAll :: "(int \<times> SignedFormat) list \<Rightarrow> SignedFormats res" where
  "registerAll regs = foldE (\<lambda>(v, f). registerSignedFormat v f) regs builtinFormats"

text \<open>Version 2 is the frozen format; every later one carries all its claims once.\<close>

definition formatsOk :: "SignedFormats \<Rightarrow> bool" where
  "formatsOk formats \<longleftrightarrow> map_of formats 2 = Some \<lparr>sf_fieldOrder = V2_FIELD_ORDER, sf_extraClaims = None\<rparr>
     \<and> (\<forall>v f. map_of formats v = Some f \<longrightarrow> 2 \<le> v \<and> distinct (sf_fieldOrder f) \<and> set V2_FIELD_ORDER \<subseteq> set (sf_fieldOrder f))"

lemma V2_distinct: "distinct V2_FIELD_ORDER"
  by code_simp

lemma register_ok: "registerSignedFormat v f formats = Inr formats' \<Longrightarrow> formatsOk formats \<Longrightarrow> formatsOk formats'"
  by (auto simp: registerSignedFormat_def formatsOk_def Let_def map_add_def filter_empty_conv subset_iff split: if_splits option.splits)

lemma registerAll_ok:
  assumes "registerAll regs = Inr formats"
  shows "formatsOk formats"
proof -
  have "formatsOk formats'" if "foldE (\<lambda>(v, f). registerSignedFormat v f) regs start = Inr formats'" "formatsOk start" for start formats'
    using that by (induction regs arbitrary: start) (auto intro: register_ok)
  moreover have "formatsOk builtinFormats" using V2_distinct by (simp add: formatsOk_def builtinFormats_def)
  ultimately show ?thesis using assms unfolding registerAll_def by blast
qed

lemma negotiate_facts:
  assumes "formatsOk formats"
  shows "map_of formats (negotiateSignedVersion formats offered) \<noteq> None"
    and "negotiateSignedVersion formats offered = 2 \<or> negotiateSignedVersion formats offered \<in> set offered"
    and "\<And>v. \<lbrakk>v \<in> set offered; map_of formats v \<noteq> None\<rbrakk> \<Longrightarrow> v \<le> negotiateSignedVersion formats offered"
proof -
  let ?step = "\<lambda>best v. if map_of formats v \<noteq> None \<and> v > best then v else best"
  have "(map_of formats b \<noteq> None \<longrightarrow> map_of formats (foldl ?step b offered) \<noteq> None) \<and> (foldl ?step b offered = b \<or> foldl ?step b offered \<in> set offered)
    \<and> b \<le> foldl ?step b offered \<and> (\<forall>v\<in>set offered. map_of formats v \<noteq> None \<longrightarrow> v \<le> foldl ?step b offered)" for b
  proof (induction offered arbitrary: b)
    case (Cons v vs)
    from Cons[of "?step b v"] show ?case by (auto split: if_splits)
  qed simp
  from this[of 2] show "map_of formats (negotiateSignedVersion formats offered) \<noteq> None"
    "negotiateSignedVersion formats offered = 2 \<or> negotiateSignedVersion formats offered \<in> set offered"
    "\<And>v. \<lbrakk>v \<in> set offered; map_of formats v \<noteq> None\<rbrakk> \<Longrightarrow> v \<le> negotiateSignedVersion formats offered"
    using assms by (auto simp: negotiateSignedVersion_def formatsOk_def)
qed

section \<open>Claims\<close>

text \<open>The claims the signer was asked for, by name.\<close>

definition askedClaims :: "int \<Rightarrow> int option \<Rightarrow> EntitlementInput \<Rightarrow> instant \<Rightarrow> SignedPayload" where
  "askedClaims v defaultTtl e now =
     [(''v'', numJ v), (''id'', JStr (ein_licenseId e)), (''app'', JStr (ein_app e)), (''tier'', JStr (ein_tier e)),
       (''features'', JArr (ein_features e)), (''device_id'', JStr (ein_deviceId e)), (''iat'', numJ (unix now)), (''exp'', numJ (tokenExp defaultTtl e now))]
      @ opt ''license_kind'' (JStr \<circ> licenseKindText) (ein_licenseKind e) @ opt ''entitlement_stage'' (JStr \<circ> stageText) (ein_entitlementStage e)
      @ opt ''license_issued_at'' numJ (ein_licenseIssuedAtUnix e)
      @ opt ''confirmation_due_at'' (\<lambda>d. case d of None \<Rightarrow> JNull | Some n \<Rightarrow> numJ n) (ein_confirmationDueAtUnix e)
      @ opt ''entitlement_scope'' (JStr \<circ> scopeText) (ein_entitlementScope e)"

definition claimOf :: "int \<Rightarrow> int option \<Rightarrow> EntitlementInput \<Rightarrow> instant \<Rightarrow> string \<Rightarrow> json option" where
  "claimOf v defaultTtl e now k = map_of (askedClaims v defaultTtl e now) k"

lemma map_of_filter_out: "P k = False \<Longrightarrow> map_of (filter (\<lambda>(k, _). P k) xs) k = None"
  by (induction xs) auto

lemma payload_claims:
  assumes "k \<in> set V2_FIELD_ORDER"
  shows "map_of (entitlementPayload formats defaultTtl e now) k = claimOf (negotiateSignedVersion formats (ein_offeredVersions e)) defaultTtl e now k"
proof -
  let ?c = "askedClaims (negotiateSignedVersion formats (ein_offeredVersions e)) defaultTtl e now"
  have "\<exists>xs. entitlementPayload formats defaultTtl e now = ?c @ filter (\<lambda>(k, _). k \<notin> set V2_FIELD_ORDER) xs"
    unfolding entitlementPayload_def askedClaims_def Let_def append.assoc by (rule exI, rule refl)
  then obtain xs where p: "entitlementPayload formats defaultTtl e now = ?c @ filter (\<lambda>(k, _). k \<notin> set V2_FIELD_ORDER) xs" by blast
  have "map_of (filter (\<lambda>(k, _). k \<notin> set V2_FIELD_ORDER) xs) k = None" using assms by (intro map_of_filter_out) simp
  then show ?thesis unfolding p claimOf_def map_of_append by (simp add: map_add_def split: option.split)
qed

lemma map_of_canonical:
  "distinct ks \<Longrightarrow> map_of (List.map_filter (\<lambda>k. map_option (Pair k) (map_of p k)) ks) k = (if k \<in> set ks then map_of p k else None)"
proof (induction ks)
  case (Cons a ks)
  then show ?case by (cases "map_of p a") (auto simp: List.map_filter_simps)
qed (simp add: List.map_filter_def)


section \<open>Lifecycle plans\<close>

lemma lifecycle_time_bound:
  assumes "0 \<le> orElse (lw_rollingTermTokenDays windows) ROLLING_TERM_TOKEN_DAYS"
  shows "lp_tokenExpiresAtUnix (planLicenseLifecycle createdAt (Some e) metadata now windows) \<le> unix e"
    and "lp_entitlementStage (planLicenseLifecycle createdAt (Some e) metadata now windows) = TimeBound"
  by (simp_all add: planLicenseLifecycle_def Let_def)

text \<open>The provisional window of a lifetime licence is fixed by its issue: activating or refreshing later
  never moves it, and the final token comes exactly at its end.\<close>

lemma lifecycle_window_fixed:
  assumes "lp_entitlementStage (planLicenseLifecycle createdAt None metadata now windows) = Provisional" "now' \<le> now"
  shows "lp_entitlementStage (planLicenseLifecycle createdAt None metadata now' windows) = Provisional"
    and "lp_tokenExpiresAtUnix (planLicenseLifecycle createdAt None metadata now' windows) = lp_tokenExpiresAtUnix (planLicenseLifecycle createdAt None metadata now windows)"
proof -
  have "unix now' \<le> unix now" using assms(2) by (simp add: unix_def zdiv_mono1)
  then show "lp_entitlementStage (planLicenseLifecycle createdAt None metadata now' windows) = Provisional"
    "lp_tokenExpiresAtUnix (planLicenseLifecycle createdAt None metadata now' windows) = lp_tokenExpiresAtUnix (planLicenseLifecycle createdAt None metadata now windows)"
    using assms(1) by (auto simp: planLicenseLifecycle_def Let_def split: if_splits)
qed

lemma marked_licence_bounded:
  assumes "devicePolicyFor policies appKey \<noteq> None"
  shows "usesBoundedDevicePools policies appKey seats (withCurrentDevicePolicy policies appKey metadata)"
  using assms by (auto simp: usesBoundedDevicePools_def hasCurrentDevicePolicy_def withCurrentDevicePolicy_def update_conv')

lemma extendEntitlement_later:
  assumes "0 \<le> days"
  shows "\<exists>t. extendEntitlement current (Some days) now = Some t \<and> now + days * MS_PER_DAY \<le> t \<and> (case current of None \<Rightarrow> True | Some c \<Rightarrow> c + days * MS_PER_DAY \<le> t)"
  by (auto simp: extendEntitlement_def split: option.splits)

definition demoFormat :: SignedFormat where
  "demoFormat = \<lparr>sf_fieldOrder = V2_FIELD_ORDER @ [''seat''], sf_extraClaims = Some (\<lambda>_. [(''exp'', JNull), (''seat'', JStr ''s'')])\<rparr>"

definition demoTokenInput :: EntitlementInput where
  "demoTokenInput = \<lparr>ein_licenseId = ''L'', ein_app = ''app'', ein_tier = ''pro'', ein_features = [], ein_deviceId = ''d'', ein_ttlSeconds = None,
     ein_expiresAtUnix = Some 100, ein_tokenExpiresAtUnix = None, ein_licenseKind = None, ein_entitlementStage = None, ein_licenseIssuedAtUnix = None,
     ein_confirmationDueAtUnix = None, ein_entitlementScope = None, ein_offeredVersions = [3, 9]\<rparr>"


end
