(* ===== verification/SecondFactor.thy ===== *)
theory SecondFactor
  imports JsText "HOL-Library.Word" "HOL-Library.AList"
begin

unbundle bit_operations_syntax

text \<open>
  The second factor of admin sign-in: RFC 6238 codes (auth/totp.ts) and the replay guard and recovery
  codes on the database (auth/second-factor.ts). HMAC-SHA1, SHA-256, random bytes, row ids and the clock
  are parameters. A byte is an \<open>int\<close> from 0 to 255; a text of binary digits is a list of booleans. The
  advisory lock per admin makes the transactions on one admin run one after another.
\<close>

section \<open>Base 32\<close>

definition B32 :: string where
  "B32 = ''ABCDEFGHIJKLMNOPQRSTUVWXYZ234567''"

text \<open>\<open>n.toString(2).padStart(k, '0')\<close> of a number below \<open>2 ^ k\<close>, and \<open>parseInt(bits, 2)\<close>.\<close>

definition toBits :: "nat \<Rightarrow> int \<Rightarrow> bool list" where
  "toBits k n = map (\<lambda>i. odd (n div 2 ^ i)) (rev [0..<k])"

definition fromBits :: "bool list \<Rightarrow> int" where
  "fromBits bs = foldl (\<lambda>a b. 2 * a + (if b then 1 else 0)) 0 bs"

text \<open>\<open>for (let i = 0; i + k <= xs.length; i += k) xs.slice(i, i + k)\<close>.\<close>

function chunks :: "nat \<Rightarrow> 'a list \<Rightarrow> 'a list list" where
  "chunks k xs = (if k = 0 \<or> length xs < k then [] else take k xs # chunks k (drop k xs))"
  by pat_completeness auto
termination
  by (relation "measure (\<lambda>(k, xs). length xs)") auto

declare chunks.simps [simp del]

definition newTotpSecret :: "int list \<Rightarrow> string" where
  "newTotpSecret buf = map (\<lambda>c. B32 ! nat (fromBits c)) (chunks 5 (concat (map (toBits 8) buf)))"

definition indexOf :: "char \<Rightarrow> string \<Rightarrow> int option" where
  "indexOf ch s = (case find (\<lambda>i. s ! i = ch) [0..<length s] of None \<Rightarrow> None | Some i \<Rightarrow> Some (int i))"

definition base32Decode :: "string \<Rightarrow> int list" where
  "base32Decode s =
     (let clean = filter (\<lambda>c. \<not> js_space c) (rev (dropWhile (\<lambda>c. c = CHR ''='') (rev (toUpperCase s))))
      in map fromBits (chunks 8 (concat (map (toBits 5) (List.map_filter (\<lambda>ch. indexOf ch B32) clean)))))"

section \<open>Codes\<close>

definition counterBytes :: "int \<Rightarrow> int list" where
  "counterBytes counter = map (\<lambda>i. counter div 256 ^ i mod 256) (rev [0..<8])"

definition padStart :: "nat \<Rightarrow> char \<Rightarrow> string \<Rightarrow> string" where
  "padStart n c s = replicate (n - length s) c @ s"

definition hotpCode :: "int list \<Rightarrow> int" where
  "hotpCode hmac = (let offset = nat (last hmac AND 0xf) in
     push_bit 24 (hmac ! offset AND 0x7f) OR push_bit 16 (hmac ! (offset + 1) AND 0xff) OR push_bit 8 (hmac ! (offset + 2) AND 0xff) OR (hmac ! (offset + 3) AND 0xff))"

definition hotp :: "(int list \<Rightarrow> int list \<Rightarrow> int list) \<Rightarrow> int list \<Rightarrow> int \<Rightarrow> string" where
  "hotp hmacSha1 secret counter = padStart 6 (CHR ''0'') (showInt (hotpCode (hmacSha1 secret (counterBytes counter)) mod 1000000))"

definition sixDigits :: "string \<Rightarrow> bool" where
  "sixDigits s \<longleftrightarrow> length s = 6 \<and> list_all (\<lambda>c. digitVal c \<noteq> None) s"

definition stepAt :: "int \<Rightarrow> int" where
  "stepAt now = now div 30000"

text \<open>The in-process guard: the last accepted step per actor.\<close>

type_synonym RecentByActor = "(string \<times> int \<times> int) list"

definition REPLAY_TTL_MS :: int where
  "REPLAY_TTL_MS = 5 * 60 * 1000"

definition verifyTotp :: "(int list \<Rightarrow> int list \<Rightarrow> int list) \<Rightarrow> int \<Rightarrow> string \<Rightarrow> string \<Rightarrow> string option \<Rightarrow> RecentByActor \<Rightarrow> bool \<times> RecentByActor" where
  "verifyTotp hmacSha1 now secretB32 code actorId recent =
     (if \<not> sixDigits (js_trim code) then (False, recent)
      else (case find (\<lambda>w. hotp hmacSha1 (base32Decode secretB32) (stepAt now + w) = js_trim code) [-1, 0, 1] of
        None \<Rightarrow> (False, recent)
      | Some w \<Rightarrow> (case actorId of
          Some (c # cs) \<Rightarrow>
            (let prev = map_of recent (c # cs);
                 recent1 = (if 1000 < length recent then filter (\<lambda>(_, _, t). \<not> REPLAY_TTL_MS < now - t) recent else recent)
             in if (case prev of None \<Rightarrow> False | Some (step, t) \<Rightarrow> now - t < REPLAY_TTL_MS \<and> step = stepAt now + w) then (False, recent1)
                else (True, AList.update (c # cs) (stepAt now + w, now) recent1))
        | _ \<Rightarrow> (True, recent))))"

definition matchTotpStep :: "(int list \<Rightarrow> int list \<Rightarrow> int list) \<Rightarrow> int \<Rightarrow> string \<Rightarrow> string \<Rightarrow> int option" where
  "matchTotpStep hmacSha1 now secretB32 code =
     (if \<not> sixDigits (js_trim code) then None
      else map_option (\<lambda>w. stepAt now + w) (find (\<lambda>w. hotp hmacSha1 (base32Decode secretB32) (stepAt now + w) = js_trim code) [0, -1, 1]))"

section \<open>Recovery codes\<close>

definition RECOVERY_CODE_COUNT :: nat where
  "RECOVERY_CODE_COUNT = 10"

definition normalizeRecoveryCode :: "string \<Rightarrow> string" where
  "normalizeRecoveryCode code = filter (\<lambda>c. let n = of_char c :: nat in (97 \<le> n \<and> n \<le> 122) \<or> (50 \<le> n \<and> n \<le> 55)) (toLowerCase code)"

definition hashRecoveryCode :: "(string \<Rightarrow> string) \<Rightarrow> string \<Rightarrow> string" where
  "hashRecoveryCode sha256 code = sha256 (''sellright-recovery:'' @ normalizeRecoveryCode code)"

definition newRecoveryCode :: "int list \<Rightarrow> string" where
  "newRecoveryCode bytes =
     js_join ''-'' (chunks 4 (map (\<lambda>i. ''abcdefghijklmnopqrstuvwxyz234567'' ! nat (bytes ! i AND 31)) [0..<16]))"

record RecoveryRow =
  rr_id :: string
  rr_adminUserId :: string
  rr_codeHash :: string
  rr_usedAt :: "int option"

record FactorDb =
  fd_admins :: "string list"
  fd_codes :: "RecoveryRow list"
  fd_steps :: "(string \<times> int) list"

record FactorEnv =
  fe_hmac :: "int list \<Rightarrow> int list \<Rightarrow> int list"
  fe_sha256 :: "string \<Rightarrow> string"

definition deleteRecoveryCodes :: "string \<Rightarrow> FactorDb \<Rightarrow> FactorDb" where
  "deleteRecoveryCodes adminId db = db\<lparr>fd_codes := filter (\<lambda>r. rr_adminUserId r \<noteq> adminId) (fd_codes db)\<rparr>"

text \<open>\<open>draws\<close> are the random bytes and row ids of the new codes.\<close>

definition regenerateRecoveryCodesTx :: "FactorEnv \<Rightarrow> string \<Rightarrow> (string \<times> int list) list \<Rightarrow> FactorDb \<Rightarrow> string list \<times> FactorDb" where
  "regenerateRecoveryCodesTx env adminId draws db =
     (let codes = map (\<lambda>(i, bytes). (i, newRecoveryCode bytes)) (take RECOVERY_CODE_COUNT draws); db1 = deleteRecoveryCodes adminId db
      in (map snd codes, db1\<lparr>fd_codes := fd_codes db1 @ map (\<lambda>(i, c). \<lparr>rr_id = i, rr_adminUserId = adminId, rr_codeHash = hashRecoveryCode (fe_sha256 env) c, rr_usedAt = None\<rparr>) codes\<rparr>))"

definition remainingRecoveryCodes :: "string \<Rightarrow> FactorDb \<Rightarrow> nat" where
  "remainingRecoveryCodes adminId db = length (filter (\<lambda>r. rr_adminUserId r = adminId \<and> rr_usedAt r = None) (fd_codes db))"

definition matchesCode :: "FactorEnv \<Rightarrow> string \<Rightarrow> string \<Rightarrow> RecoveryRow \<Rightarrow> bool" where
  "matchesCode env adminId code r \<longleftrightarrow> rr_adminUserId r = adminId \<and> rr_codeHash r = hashRecoveryCode (fe_sha256 env) code \<and> rr_usedAt r = None"

definition markUsed :: "FactorEnv \<Rightarrow> int \<Rightarrow> string \<Rightarrow> string \<Rightarrow> FactorDb \<Rightarrow> RecoveryRow list \<times> FactorDb" where
  "markUsed env now adminId code db =
     (filter (matchesCode env adminId code) (fd_codes db),
      db\<lparr>fd_codes := map (\<lambda>r. if matchesCode env adminId code r then r\<lparr>rr_usedAt := Some now\<rparr> else r) (fd_codes db)\<rparr>)"

definition consumeRecoveryCode :: "FactorEnv \<Rightarrow> int \<Rightarrow> string \<Rightarrow> string \<Rightarrow> FactorDb \<Rightarrow> bool \<times> FactorDb" where
  "consumeRecoveryCode env now adminId code db =
     (if length (normalizeRecoveryCode code) \<noteq> 16 then (False, db)
      else (case markUsed env now adminId code db of (used, db') \<Rightarrow> (length used = 1, db')))"

section \<open>The replay guard\<close>

definition verifyTotpOnceTx :: "FactorEnv \<Rightarrow> int \<Rightarrow> string \<Rightarrow> string \<Rightarrow> string \<Rightarrow> FactorDb \<Rightarrow> int option \<times> FactorDb" where
  "verifyTotpOnceTx env now adminId secretB32 code db = (case matchTotpStep (fe_hmac env) now secretB32 code of
     None \<Rightarrow> (None, db)
   | Some step \<Rightarrow>
       (let db1 = db\<lparr>fd_steps := filter (\<lambda>(a, s). \<not> (a = adminId \<and> s < step - 10)) (fd_steps db)\<rparr>
        in if list_ex (\<lambda>(a, s). a = adminId \<and> step \<le> s) (fd_steps db1) then (None, db1)
           else (Some step, db1\<lparr>fd_steps := fd_steps db1 @ [(adminId, step)]\<rparr>)))"

text \<open>The answer of the guard carries the accepted step; the source answers whether there is one.\<close>

definition verifyTotpOnce :: "FactorEnv \<Rightarrow> int \<Rightarrow> string \<Rightarrow> string \<Rightarrow> string \<Rightarrow> FactorDb \<Rightarrow> int option \<times> FactorDb" where
  "verifyTotpOnce env now adminId secretB32 code db =
     (if adminId \<notin> set (fd_admins db) then (None, db) else verifyTotpOnceTx env now adminId secretB32 code db)"

text \<open>What a second factor proved: nothing, a step, or a recovery code with the row as its receipt.\<close>

datatype FactorProof = NoFactor | TotpStep int | RecoveryUsed "string option"

definition factorOk :: "FactorProof \<Rightarrow> bool" where
  "factorOk p \<longleftrightarrow> p \<noteq> NoFactor"

definition totpProof :: "int option \<times> FactorDb \<Rightarrow> FactorProof \<times> FactorDb" where
  "totpProof r = (case r of (None, db) \<Rightarrow> (NoFactor, db) | (Some step, db) \<Rightarrow> (TotpStep step, db))"

definition verifySecondFactorDetailed :: "FactorEnv \<Rightarrow> int \<Rightarrow> string \<Rightarrow> string \<Rightarrow> string option \<Rightarrow> FactorDb \<Rightarrow> FactorProof \<times> FactorDb" where
  "verifySecondFactorDetailed env now adminId secretB32 code db = (case code of
     Some (x # xs) \<Rightarrow>
       (let c = js_trim (x # xs) in
        if sixDigits c then totpProof (verifyTotpOnce env now adminId secretB32 c db)
        else if length (normalizeRecoveryCode c) \<noteq> 16 then (NoFactor, db)
        else (case markUsed env now adminId c db of ([], db') \<Rightarrow> (NoFactor, db') | (r # _, db') \<Rightarrow> (RecoveryUsed (Some (rr_id r)), db')))
   | _ \<Rightarrow> (NoFactor, db))"

definition verifyLoginFactor :: "FactorEnv \<Rightarrow> int \<Rightarrow> string \<Rightarrow> string option \<Rightarrow> string option \<Rightarrow> FactorDb \<Rightarrow> FactorProof \<times> FactorDb" where
  "verifyLoginFactor env now adminId totpSecret code db = (case totpSecret of
     Some (s # ss) \<Rightarrow> verifySecondFactorDetailed env now adminId (s # ss) code db
   | _ \<Rightarrow> (case code of
       Some (x # xs) \<Rightarrow> if sixDigits (js_trim (x # xs)) then (NoFactor, db) else verifySecondFactorDetailed env now adminId [] code db
     | _ \<Rightarrow> (NoFactor, db)))"

definition recoveryProof :: "bool \<times> FactorDb \<Rightarrow> FactorProof \<times> FactorDb" where
  "recoveryProof r = (if fst r then RecoveryUsed None else NoFactor, snd r)"

definition verifySecondFactor :: "FactorEnv \<Rightarrow> int \<Rightarrow> string \<Rightarrow> string \<Rightarrow> string option \<Rightarrow> FactorDb \<Rightarrow> FactorProof \<times> FactorDb" where
  "verifySecondFactor env now adminId secretB32 code db = (case code of
     Some (x # xs) \<Rightarrow>
       (let c = js_trim (x # xs) in
        if sixDigits c then totpProof (verifyTotpOnce env now adminId secretB32 c db) else recoveryProof (consumeRecoveryCode env now adminId c db))
   | _ \<Rightarrow> (NoFactor, db))"

definition verifySecondFactorTx :: "FactorEnv \<Rightarrow> int \<Rightarrow> string \<Rightarrow> string \<Rightarrow> string option \<Rightarrow> FactorDb \<Rightarrow> FactorProof \<times> FactorDb" where
  "verifySecondFactorTx env now adminId secretB32 code db = (case code of
     Some (x # xs) \<Rightarrow>
       (let c = js_trim (x # xs) in
        if sixDigits c then totpProof (verifyTotpOnceTx env now adminId secretB32 c db) else recoveryProof (consumeRecoveryCode env now adminId c db))
   | _ \<Rightarrow> (NoFactor, db))"

end
