(* ===== verification/SecondFactorLaws.thy ===== *)
theory SecondFactorLaws
  imports SecondFactor
begin

text \<open>
  A time step is accepted at most once per admin, a recovery code at most once per set, and a generated
  secret decodes to the bytes it was made from.
\<close>

section \<open>Base 32 round trip\<close>

lemma toBits_0 [simp]: "toBits 0 n = []"
  by (simp add: toBits_def)

lemma toBits_Suc: "toBits (Suc k) n = toBits k (n div 2) @ [odd n]"
proof -
  have "[0..<Suc k] = 0 # map Suc [0..<k]" by (simp add: map_Suc_upt upt_conv_Cons del: upt_Suc)
  then show ?thesis by (simp add: toBits_def rev_map zdiv_zmult2_eq comp_def del: upt_Suc)
qed

lemma length_toBits [simp]: "length (toBits k n) = k"
  by (simp add: toBits_def)

lemma fromBits_Nil [simp]: "fromBits [] = 0"
  by (simp add: fromBits_def)

lemma fromBits_snoc [simp]: "fromBits (bs @ [b]) = 2 * fromBits bs + (if b then 1 else 0)"
  by (simp add: fromBits_def)

lemma fromBits_toBits: "\<lbrakk>0 \<le> n; n < 2 ^ k\<rbrakk> \<Longrightarrow> fromBits (toBits k n) = n"
proof (induction k arbitrary: n)
  case (Suc k)
  then have "fromBits (toBits k (n div 2)) = n div 2" by (intro Suc.IH) auto
  then show ?case by (simp add: toBits_Suc odd_iff_mod_2_eq_one) presburger
qed simp

lemma fromBits_range: "0 \<le> fromBits bs \<and> fromBits bs < 2 ^ length bs"
  by (induction bs rule: rev_induct) auto

lemma toBits_fromBits: "toBits (length bs) (fromBits bs) = bs"
  by (induction bs rule: rev_induct) (auto simp: toBits_Suc)

lemma chunks_Nil [simp]: "chunks k [] = []"
  by (subst chunks.simps) auto

lemma chunks_append: "\<lbrakk>0 < k; length c = k\<rbrakk> \<Longrightarrow> chunks k (c @ xs) = c # chunks k xs"
  by (subst chunks.simps) auto

lemma chunks_concat: "\<lbrakk>0 < k; \<forall>c\<in>set cs. length c = k\<rbrakk> \<Longrightarrow> chunks k (concat cs) = cs"
  by (induction cs) (auto simp: chunks_append)

lemma chunks_exact: "\<lbrakk>0 < k; k dvd length xs\<rbrakk> \<Longrightarrow> concat (chunks k xs) = xs \<and> (\<forall>c\<in>set (chunks k xs). length c = k)"
proof (induction k xs rule: chunks.induct)
  case (1 k xs)
  show ?case
  proof (cases "length xs < k")
    case True
    then have "xs = []" using 1(3) by (auto dest: dvd_imp_le)
    then show ?thesis by simp
  next
    case False
    then have "k dvd length (drop k xs)" using 1(3) by simp
    with 1(1,2) False have rest: "concat (chunks k (drop k xs)) = drop k xs \<and> (\<forall>c\<in>set (chunks k (drop k xs)). length c = k)" by blast
    have split: "chunks k xs = take k xs # chunks k (drop k xs)" using False 1(2) by (subst chunks.simps) auto
    have "length (take k xs) = k" using False by simp
    with rest show ?thesis unfolding split by simp
  qed
qed

lemma B32_indexOf: "list_all (\<lambda>i. indexOf (B32 ! i) B32 = Some (int i)) [0..<32]"
  by code_simp

lemma B32_clean: "list_all (\<lambda>c. js_upper_char c = c \<and> \<not> js_space c \<and> c \<noteq> CHR ''='') B32"
  by (simp add: B32_def js_upper_char_def js_space_def Let_def)

lemma cleaned: "set s \<subseteq> set B32 \<Longrightarrow> filter (\<lambda>c. \<not> js_space c) (rev (dropWhile (\<lambda>c. c = CHR ''='') (rev (toUpperCase s)))) = s"
proof -
  assume s: "set s \<subseteq> set B32"
  have up: "toUpperCase s = s" using s B32_clean by (auto simp: toUpperCase_def list_all_iff intro: map_idI)
  have "dropWhile (\<lambda>c. c = CHR ''='') (rev s) = rev s" using s B32_clean by (intro dropWhile_id) (auto simp: list_all_iff)
  then show ?thesis using s B32_clean by (auto simp: up filter_id_conv list_all_iff)
qed

text \<open>A new TOTP secret is the text of its random bytes: decoding it, as every code check does, gives
  the bytes back.\<close>

theorem totp_secret_roundtrip:
  assumes "length buf = 20" "\<forall>b\<in>set buf. 0 \<le> b \<and> b < 256"
  shows "base32Decode (newTotpSecret buf) = buf"
proof -
  let ?bits = "concat (map (toBits 8) buf)"
  have five: "concat (chunks 5 ?bits) = ?bits" "\<forall>c\<in>set (chunks 5 ?bits). length c = 5"
    using chunks_exact[of 5 ?bits] assms(1) by (simp_all add: length_concat comp_def sum_list_triv)
  have small: "fromBits c < 32 \<and> 0 \<le> fromBits c" if "c \<in> set (chunks 5 ?bits)" for c
    using fromBits_range[of c] five(2) that by simp
  have len: "length B32 = 32" by (simp add: B32_def)
  have "set (newTotpSecret buf) \<subseteq> set B32"
    using small len by (auto simp: newTotpSecret_def nat_less_iff intro!: nth_mem)
  note clean = cleaned[OF this]
  have "List.map_filter (\<lambda>ch. indexOf ch B32) (newTotpSecret buf) = map fromBits (chunks 5 ?bits)"
  proof -
    have "indexOf (B32 ! nat (fromBits c)) B32 = Some (fromBits c)" if "c \<in> set (chunks 5 ?bits)" for c
      using small[OF that] B32_indexOf by (auto simp: list_all_iff nat_less_iff dest: bspec[of _ _ "nat (fromBits c)"])
    then show ?thesis by (auto simp: newTotpSecret_def List.map_filter_def filter_map comp_def filter_id_conv)
  qed
  moreover have "map (toBits 5) (map fromBits (chunks 5 ?bits)) = chunks 5 ?bits"
    using five(2) toBits_fromBits by (auto intro!: map_idI simp: comp_def) metis
  moreover have "chunks 8 ?bits = map (toBits 8) buf" by (rule chunks_concat) auto
  moreover have "map fromBits (map (toBits 8) buf) = buf"
    using assms(2) fromBits_toBits[of _ 8] by (auto intro!: map_idI)
  ultimately show ?thesis using five(1) by (simp add: base32Decode_def clean)
qed

text \<open>Witness for the round trip: twenty bytes of 255.\<close>

theorem totp_secret_roundtrip_witness:
  "length (replicate 20 (255::int)) = 20 \<and> base32Decode (newTotpSecret (replicate 20 255)) = replicate 20 255"
  using totp_secret_roundtrip[of "replicate 20 255"] by simp

section \<open>The in-process guard\<close>

text \<open>The in-process guard remembers one step per actor: with distinct codes in the drift window, after the
  next step's code the code before it is accepted a second time at the same moment. The durable guard
  below has no such gap.\<close>

lemma verifyTotp_replayed:
  assumes shape: "sixDigits (js_trim code)" "sixDigits (js_trim next)"
    and codes: "hotp h (base32Decode s) (stepAt now) = js_trim code" "hotp h (base32Decode s) (stepAt now + 1) = js_trim next"
    and apart: "distinct [hotp h (base32Decode s) (stepAt now - 1), js_trim code, js_trim next]"
    and first: "verifyTotp h now s code (Some (c # cs)) [] = (ok1, recent1)"
    and second: "verifyTotp h now s next (Some (c # cs)) recent1 = (ok2, recent2)"
  shows "ok1 \<and> ok2 \<and> fst (verifyTotp h now s code (Some (c # cs)) recent2)"
proof -
  have "ok1" "recent1 = [(c # cs, stepAt now, now)]"
    using first shape codes apart by (auto simp: verifyTotp_def Let_def)
  moreover from this have "ok2" "recent2 = [(c # cs, stepAt now + 1, now)]"
    using second shape codes apart by (auto simp: verifyTotp_def Let_def)
  ultimately show ?thesis using shape codes apart by (auto simp: verifyTotp_def Let_def)
qed

section \<open>Runs\<close>

datatype FactorOp =
    FVerify int string string "string option"
  | FVerifyTx int string string "string option"
  | FDetailed int string string "string option"
  | FLogin int string "string option" "string option"
  | FRegenerate string "(string \<times> int list) list"
  | FDeleteCodes string
  | FNewAdmin string

datatype FactorEvent = StepAccepted string int | CodeAccepted string string | CodesReplaced string

text \<open>The event of an answer to a code.\<close>

definition eventOf :: "FactorEnv \<Rightarrow> string \<Rightarrow> string option \<Rightarrow> FactorProof \<Rightarrow> FactorEvent list" where
  "eventOf env a code p = (case p of
     NoFactor \<Rightarrow> []
   | TotpStep s \<Rightarrow> [StepAccepted a s]
   | RecoveryUsed _ \<Rightarrow> [CodeAccepted a (hashRecoveryCode (fe_sha256 env) (js_trim (case code of None \<Rightarrow> [] | Some c \<Rightarrow> c)))])"

definition logged :: "FactorEnv \<Rightarrow> string \<Rightarrow> string option \<Rightarrow> FactorEvent list \<Rightarrow> FactorProof \<times> FactorDb \<Rightarrow> FactorEvent list \<times> FactorDb" where
  "logged env a code trace r = (trace @ eventOf env a code (fst r), snd r)"

fun factorStep :: "FactorEnv \<Rightarrow> FactorOp \<Rightarrow> FactorEvent list \<times> FactorDb \<Rightarrow> FactorEvent list \<times> FactorDb" where
  "factorStep env (FVerify now a secret code) (trace, db) = logged env a code trace (verifySecondFactor env now a secret code db)"
| "factorStep env (FVerifyTx now a secret code) (trace, db) = logged env a code trace (verifySecondFactorTx env now a secret code db)"
| "factorStep env (FDetailed now a secret code) (trace, db) = logged env a code trace (verifySecondFactorDetailed env now a secret code db)"
| "factorStep env (FLogin now a secret code) (trace, db) = logged env a code trace (verifyLoginFactor env now a secret code db)"
| "factorStep env (FRegenerate a draws) (trace, db) = (trace @ [CodesReplaced a], snd (regenerateRecoveryCodesTx env a draws db))"
| "factorStep env (FDeleteCodes a) (trace, db) = (trace, deleteRecoveryCodes a db)"
| "factorStep env (FNewAdmin a) (trace, db) = (trace, db\<lparr>fd_admins := a # fd_admins db\<rparr>)"

definition stepsOf :: "string \<Rightarrow> FactorEvent list \<Rightarrow> int list" where
  "stepsOf a trace = List.map_filter (\<lambda>e. case e of StepAccepted b s \<Rightarrow> if b = a then Some s else None | _ \<Rightarrow> None) trace"

text \<open>The codes of an admin accepted since the last new set.\<close>

definition codesSince :: "string \<Rightarrow> FactorEvent list \<Rightarrow> string list" where
  "codesSince a trace = foldl (\<lambda>acc e. case e of CodeAccepted b h \<Rightarrow> if b = a then acc @ [h] else acc | CodesReplaced b \<Rightarrow> if b = a then [] else acc | _ \<Rightarrow> acc) [] trace"

lemma stepsOf_append [simp]: "stepsOf a (trace @ trace2) = stepsOf a trace @ stepsOf a trace2"
  by (simp add: stepsOf_def List.map_filter_def)

lemma codesSince_snoc [simp]: "codesSince a (trace @ [e]) =
    (case e of CodeAccepted b h \<Rightarrow> if b = a then codesSince a trace @ [h] else codesSince a trace | CodesReplaced b \<Rightarrow> if b = a then [] else codesSince a trace | _ \<Rightarrow> codesSince a trace)"
  by (cases e) (simp_all add: codesSince_def)

lemma stepsOf_events [simp]: "stepsOf a [] = []" "stepsOf a [StepAccepted b s] = (if b = a then [s] else [])" "stepsOf a [CodeAccepted b h] = []" "stepsOf a [CodesReplaced b] = []"
  by (simp_all add: stepsOf_def List.map_filter_def)

section \<open>The invariant\<close>

definition guarded :: "string \<Rightarrow> int list \<Rightarrow> (string \<times> int) list \<Rightarrow> bool" where
  "guarded a steps rows \<longleftrightarrow> sorted_wrt (<) steps \<and> (\<forall>s\<in>set steps. \<exists>t. (a, t) \<in> set rows \<and> s \<le> t)"

definition consumed :: "string \<Rightarrow> string list \<Rightarrow> RecoveryRow list \<Rightarrow> bool" where
  "consumed a hashes rows \<longleftrightarrow> distinct hashes \<and> (\<forall>r\<in>set rows. rr_adminUserId r = a \<and> rr_usedAt r = None \<longrightarrow> rr_codeHash r \<notin> set hashes)"

definition factorInv :: "FactorEvent list \<times> FactorDb \<Rightarrow> bool" where
  "factorInv st \<longleftrightarrow> (\<forall>a. guarded a (stepsOf a (fst st)) (fd_steps (snd st)) \<and> consumed a (codesSince a (fst st)) (fd_codes (snd st)))"

text \<open>The rows left once the steps far below the presented one are pruned.\<close>

abbreviation keptSteps :: "string \<Rightarrow> int \<Rightarrow> (string \<times> int) list \<Rightarrow> (string \<times> int) list" where
  "keptSteps a step rows \<equiv> filter (\<lambda>(c, s). \<not> (c = a \<and> s < step - 10)) rows"

lemma guarded_replayed:
  assumes "guarded b steps rows" and replay: "list_ex (\<lambda>(c, s). c = a \<and> step \<le> s) (keptSteps a step rows)"
  shows "guarded b steps (keptSteps a step rows)"
proof -
  obtain t where t: "(a, t) \<in> set (keptSteps a step rows)" "step \<le> t" using replay by (auto simp: list_ex_iff)
  have "\<exists>t. (b, t) \<in> set (keptSteps a step rows) \<and> s \<le> t" if s: "s \<in> set steps" for s
  proof -
    obtain u where u: "(b, u) \<in> set rows" "s \<le> u" using assms(1) s unfolding guarded_def by blast
    show ?thesis
    proof (cases "b = a \<and> u < step - 10")
      case True
      then show ?thesis using t u(2) by (intro exI[of _ t]) auto
    next
      case False
      then show ?thesis using u by (intro exI[of _ u]) auto
    qed
  qed
  then show ?thesis using assms(1) unfolding guarded_def by blast
qed

lemma guarded_accepted:
  assumes inv: "guarded b steps rows" and fresh: "\<not> list_ex (\<lambda>(c, s). c = a \<and> step \<le> s) (keptSteps a step rows)"
  shows "guarded b (steps @ (if b = a then [step] else [])) (keptSteps a step rows @ [(a, step)])"
proof -
  have old: "\<exists>u. (b, u) \<in> set rows \<and> s \<le> u" if "s \<in> set steps" for s using inv that unfolding guarded_def by blast
  have srt: "sorted_wrt (<) steps" using inv by (simp add: guarded_def)
  show ?thesis
  proof (cases "b = a")
    case True
    have less: "s < step" if s: "s \<in> set steps" for s
    proof -
      obtain u where u: "(a, u) \<in> set rows" "s \<le> u" using old[OF s] True by blast
      have "\<not> step \<le> u" using fresh u(1) by (auto simp: list_ex_iff)
      then show ?thesis using u(2) by linarith
    qed
    have "sorted_wrt (<) (steps @ [step])" using srt less by (simp add: sorted_wrt_append)
    moreover have "\<exists>t. (b, t) \<in> set (keptSteps a step rows @ [(a, step)]) \<and> s \<le> t" if "s \<in> set (steps @ [step])" for s
      using that less[of s] True by (intro exI[of _ step]) auto
    ultimately have "guarded b (steps @ [step]) (keptSteps a step rows @ [(a, step)])" unfolding guarded_def by blast
    then show ?thesis using True by simp
  next
    case False
    then have "\<exists>t. (b, t) \<in> set (keptSteps a step rows @ [(a, step)]) \<and> s \<le> t" if "s \<in> set steps" for s using old[OF that] by auto
    then have "guarded b steps (keptSteps a step rows @ [(a, step)])" unfolding guarded_def using srt by blast
    then show ?thesis using False by simp
  qed
qed

lemma totpOnceTx_guarded:
  assumes "verifyTotpOnceTx env now a secret code db = (r, db')" "\<And>b. guarded b (steps b) (fd_steps db)"
  shows "guarded b (steps b @ (if b = a then (case r of None \<Rightarrow> [] | Some s \<Rightarrow> [s]) else [])) (fd_steps db') \<and> fd_codes db' = fd_codes db"
proof (cases "matchTotpStep (fe_hmac env) now secret code")
  case None
  then show ?thesis using assms by (auto simp: verifyTotpOnceTx_def)
next
  case (Some step)
  show ?thesis
  proof (cases "list_ex (\<lambda>(c, s). c = a \<and> step \<le> s) (keptSteps a step (fd_steps db))")
    case True
    then have "verifyTotpOnceTx env now a secret code db = (None, db\<lparr>fd_steps := keptSteps a step (fd_steps db)\<rparr>)"
      using Some by (simp add: verifyTotpOnceTx_def Let_def)
    then have r: "r = None" "fd_steps db' = keptSteps a step (fd_steps db)" "fd_codes db' = fd_codes db" using assms(1) by simp_all
    show ?thesis using guarded_replayed[OF assms(2) True] by (simp only: r option.case if_cancel append_Nil2 simp_thms)
  next
    case False
    then have "verifyTotpOnceTx env now a secret code db = (Some step, db\<lparr>fd_steps := keptSteps a step (fd_steps db) @ [(a, step)]\<rparr>)"
      using Some by (simp add: verifyTotpOnceTx_def Let_def)
    then have r: "r = Some step" "fd_steps db' = keptSteps a step (fd_steps db) @ [(a, step)]" "fd_codes db' = fd_codes db" using assms(1) by simp_all
    show ?thesis using guarded_accepted[OF assms(2) False] by (simp only: r option.case simp_thms)
  qed
qed

lemma markUsed_consumed:
  assumes "markUsed env now a code db = (used, db')" "\<And>b. consumed b (hashes b) (fd_codes db)"
  shows "consumed b (hashes b @ (if b = a \<and> used \<noteq> [] then [hashRecoveryCode (fe_sha256 env) code] else [])) (fd_codes db') \<and> fd_steps db' = fd_steps db"
proof -
  have u: "used = filter (matchesCode env a code) (fd_codes db)" "fd_steps db' = fd_steps db"
    and db': "fd_codes db' = map (\<lambda>r. if matchesCode env a code r then r\<lparr>rr_usedAt := Some now\<rparr> else r) (fd_codes db)"
    using assms(1) by (auto simp: markUsed_def)
  have fresh: "hashRecoveryCode (fe_sha256 env) code \<notin> set (hashes a)" if "used \<noteq> []"
    using that assms(2)[of a] by (auto simp: u(1) filter_empty_conv matchesCode_def consumed_def)
  have gone: "rr_codeHash r \<noteq> hashRecoveryCode (fe_sha256 env) code" if mem: "r \<in> set (fd_codes db')" and own: "rr_adminUserId r = a" "rr_usedAt r = None" for r
  proof -
    obtain q where q: "q \<in> set (fd_codes db)" "r = (if matchesCode env a code q then q\<lparr>rr_usedAt := Some now\<rparr> else q)"
      using mem unfolding db' set_map by blast
    show ?thesis
    proof (cases "matchesCode env a code q")
      case True
      then show ?thesis using q(2) own(2) by simp
    next
      case False
      then have "r = q" using q(2) by simp
      then show ?thesis using False own unfolding matchesCode_def by blast
    qed
  qed
  have kept: "consumed b (hashes b) (fd_codes db')"
    using assms(2)[of b] by (auto simp: consumed_def db' split: if_splits)
  show ?thesis
  proof (cases "b = a \<and> used \<noteq> []")
    case True
    then have "hashRecoveryCode (fe_sha256 env) code \<notin> set (hashes b)" using fresh by blast
    moreover have "\<forall>r\<in>set (fd_codes db'). rr_adminUserId r = b \<and> rr_usedAt r = None \<longrightarrow> rr_codeHash r \<noteq> hashRecoveryCode (fe_sha256 env) code"
      using gone True by blast
    ultimately have "consumed b (hashes b @ [hashRecoveryCode (fe_sha256 env) code]) (fd_codes db')"
      using kept unfolding consumed_def by simp
    then show ?thesis using True u(2) by simp
  next
    case False
    then have "hashes b @ (if b = a \<and> used \<noteq> [] then [hashRecoveryCode (fe_sha256 env) code] else []) = hashes b" by (simp only: if_False append_Nil2)
    then show ?thesis using kept u(2) by simp
  qed
qed

text \<open>The answers to a code: from the step guard, from marking recovery codes used, or none.\<close>

definition answers :: "FactorEnv \<Rightarrow> string \<Rightarrow> string \<Rightarrow> FactorDb \<Rightarrow> FactorProof \<times> FactorDb \<Rightarrow> bool" where
  "answers env a code db r \<longleftrightarrow> (\<exists>now secret c. r = totpProof (verifyTotpOnceTx env now a secret c db))
     \<or> (\<exists>now used. markUsed env now a (js_trim code) db = (used, snd r) \<and> (fst r = NoFactor \<or> used \<noteq> [] \<and> fst r \<in> range RecoveryUsed))
     \<or> r = (NoFactor, db)"

lemma answers_none [simp]: "answers env a code db (NoFactor, db)"
  by (simp add: answers_def)

lemma answers_totp [simp]: "answers env a code db (totpProof (verifyTotpOnceTx env now a secret c db))"
  unfolding answers_def by blast

lemma answers_once [simp]: "answers env a code db (totpProof (verifyTotpOnce env now a secret c db))"
proof (cases "a \<in> set (fd_admins db)")
  case False
  then have "totpProof (verifyTotpOnce env now a secret c db) = (NoFactor, db)" by (simp add: verifyTotpOnce_def totpProof_def)
  then show ?thesis by simp
qed (simp add: verifyTotpOnce_def)

lemma answers_marked: "\<lbrakk>markUsed env now a (js_trim code) db = (used, db'); p = NoFactor \<or> used \<noteq> [] \<and> p \<in> range RecoveryUsed\<rbrakk> \<Longrightarrow> answers env a code db (p, db')"
  unfolding answers_def fst_conv snd_conv by blast

lemma answers_consume [simp]: "answers env a code db (recoveryProof (consumeRecoveryCode env now a (js_trim code) db))"
proof -
  obtain used db' where m: "markUsed env now a (js_trim code) db = (used, db')" by (cases "markUsed env now a (js_trim code) db")
  show ?thesis using answers_marked[OF m, of "if length used = 1 then RecoveryUsed None else NoFactor"] m
    by (cases used) (auto simp: recoveryProof_def consumeRecoveryCode_def)
qed

lemma answer_inv:
  assumes inv: "factorInv (trace, db)" and r: "answers env a code db r"
  shows "factorInv (logged env a (Some code) trace r)"
proof -
  consider (totp) now secret c where "r = totpProof (verifyTotpOnceTx env now a secret c db)"
    | (marked) now used where "markUsed env now a (js_trim code) db = (used, snd r)" "fst r = NoFactor \<or> used \<noteq> [] \<and> fst r \<in> range RecoveryUsed"
    | (none) "r = (NoFactor, db)"
    using r unfolding answers_def by blast
  then show ?thesis
  proof cases
  case totp
  note r' = totp
  obtain s db' where v: "verifyTotpOnceTx env now a secret c db = (s, db')" by (cases "verifyTotpOnceTx env now a secret c db")
  have "\<And>b. guarded b (stepsOf b trace) (fd_steps db)" using inv by (simp add: factorInv_def)
  note m = totpOnceTx_guarded[OF v this]
  show ?thesis unfolding factorInv_def
  proof
    fix b
    show "guarded b (stepsOf b (fst (logged env a (Some code) trace r))) (fd_steps (snd (logged env a (Some code) trace r)))
      \<and> consumed b (codesSince b (fst (logged env a (Some code) trace r))) (fd_codes (snd (logged env a (Some code) trace r)))"
      using m[of b] inv unfolding r' v by (cases s) (auto simp: factorInv_def logged_def totpProof_def eventOf_def split: if_splits)
  qed
next
  case marked
  note u = marked(1) and f = marked(2)
  have "\<And>b. consumed b (codesSince b trace) (fd_codes db)" using inv by (simp add: factorInv_def)
  note m = markUsed_consumed[OF u this]
  show ?thesis unfolding factorInv_def
  proof
    fix b
    have "consumed b (codesSince b trace) (fd_codes (snd r))" using m[of b] by (auto simp: consumed_def split: if_splits)
    then show "guarded b (stepsOf b (fst (logged env a (Some code) trace r))) (fd_steps (snd (logged env a (Some code) trace r)))
      \<and> consumed b (codesSince b (fst (logged env a (Some code) trace r))) (fd_codes (snd (logged env a (Some code) trace r)))"
      using f m[of b] inv by (auto simp: factorInv_def logged_def eventOf_def split: if_splits)
  qed
  next
    case none
    then show ?thesis using inv by (simp add: logged_def eventOf_def)
  qed
qed

lemma no_code_inv: "factorInv (trace, db) \<Longrightarrow> factorInv (logged env a code trace (NoFactor, db))"
  by (simp add: logged_def eventOf_def)

lemma verify_answers:
  "answers env a c db (verifySecondFactor env now a secret (Some c) db)" "answers env a c db (verifySecondFactorTx env now a secret (Some c) db)"
  by (cases c; simp add: verifySecondFactor_def verifySecondFactorTx_def Let_def)+

lemma detailed_answers: "answers env a c db (verifySecondFactorDetailed env now a secret (Some c) db)"
proof -
  obtain used db' where m: "markUsed env now a (js_trim c) db = (used, db')" by (cases "markUsed env now a (js_trim c) db")
  show ?thesis
  proof (cases c)
    case (Cons x xs)
    have "markUsed env now a (js_trim (x # xs)) db = (used, db')" using m Cons by simp
    then show ?thesis unfolding Cons using answers_marked[of env now a "x # xs" db used db']
      by (cases used) (simp_all add: verifySecondFactorDetailed_def Let_def)
  qed (simp add: verifySecondFactorDetailed_def)
qed

lemma verify_inv:
  assumes "factorInv (trace, db)"
  shows "factorInv (logged env a code trace (verifySecondFactor env now a secret code db))" "factorInv (logged env a code trace (verifySecondFactorTx env now a secret code db))"
    "factorInv (logged env a code trace (verifySecondFactorDetailed env now a secret code db))"
proof (atomize (full), cases code)
  case None
  then show "factorInv (logged env a code trace (verifySecondFactor env now a secret code db)) \<and> factorInv (logged env a code trace (verifySecondFactorTx env now a secret code db))
    \<and> factorInv (logged env a code trace (verifySecondFactorDetailed env now a secret code db))"
    using no_code_inv[OF assms] by (simp add: verifySecondFactor_def verifySecondFactorTx_def verifySecondFactorDetailed_def)
next
  case (Some c)
  show "factorInv (logged env a code trace (verifySecondFactor env now a secret code db)) \<and> factorInv (logged env a code trace (verifySecondFactorTx env now a secret code db))
    \<and> factorInv (logged env a code trace (verifySecondFactorDetailed env now a secret code db))"
    unfolding Some by (intro conjI answer_inv[OF assms] verify_answers detailed_answers)
qed

lemma factorStep_inv:
  assumes "factorInv st"
  shows "factorInv (factorStep env op st)"
proof -
  obtain trace db where st: "st = (trace, db)" by (cases st)
  note inv = assms[unfolded st]
  show ?thesis unfolding st
  proof (cases op)
    case (FLogin now a secret code)
    show "factorInv (factorStep env op (trace, db))" unfolding FLogin
      using verify_inv(3)[OF inv] no_code_inv[OF inv] by (auto simp: verifyLoginFactor_def split: option.splits list.splits)
  next
    case (FRegenerate a draws)
    then show "factorInv (factorStep env op (trace, db))" using inv
      by (auto simp: factorInv_def regenerateRecoveryCodesTx_def deleteRecoveryCodes_def Let_def consumed_def)
  next
    case (FDeleteCodes a)
    then show "factorInv (factorStep env op (trace, db))" using inv by (auto simp: factorInv_def deleteRecoveryCodes_def consumed_def)
  qed (use inv verify_inv[OF inv] in \<open>simp_all add: factorInv_def\<close>)
qed

interpretation sf: machine "factorStep env" factorInv for env
  by unfold_locales (rule factorStep_inv)

text \<open>C25: a proof of the second factor counts once. Over every sequence of sign-ins and credential changes,
  whatever the clock, the secrets and the hash functions do, the time steps accepted for an admin
  strictly increase, so no code is accepted twice, and between two sets of recovery codes no recovery
  code is accepted twice.\<close>

theorem second_factor_once:
  "let trace = fst (fold (factorStep env) ops ([], \<lparr>fd_admins = admins, fd_codes = [], fd_steps = []\<rparr>)) in
   sorted_wrt (<) (stepsOf a trace) \<and> distinct (codesSince a trace)"
proof -
  have "factorInv ([], \<lparr>fd_admins = admins, fd_codes = [], fd_steps = []\<rparr>)"
    by (simp add: factorInv_def guarded_def consumed_def stepsOf_def codesSince_def List.map_filter_def)
  from sf.run_inv[OF this, of env ops] show ?thesis by (simp add: Let_def factorInv_def guarded_def consumed_def)
qed

end
