(* ===== verification/Reservation.thy ===== *)
theory Reservation
  imports CreditService OrderMoney "HOL-Library.Char_ord" "HOL-Library.List_Lexorder"
begin

text \<open>
  Order reservations (payments/reservation.ts, payments/policy/transitions.ts): the life of a hold an order has on
  a thing, from its placement over payment to its release, and the sweep that retries releases
  (jobs/reservation-release-sweep.ts). One store; the orders and the account credit are the tables of
  \<open>CreditService\<close>. A registered payment policy is a parameter: its projection of a transition acts on the
  policies' own tables (type \<open>'p\<close>) or fails, and a failed projection leaves them as it found them. \<open>now\<close> is
  the time of the transaction. The order's lock set makes the transactions on one order run one after
  another; the rows of other orders that a placement reads may be out of date.
\<close>

section \<open>Tables\<close>

datatype ReservationState = Held | Consumed | Released

record ReservationRow =
  hr_id :: string
  hr_orderId :: string
  hr_kind :: string
  hr_ownerKey :: string
  hr_state :: ReservationState
  hr_holder :: json
  hr_releaseOnFullRefund :: bool
  hr_createdAt :: int
  hr_updatedAt :: int
  hr_expiresAt :: "int option"
  hr_releaseRequestedAt :: "int option"
  hr_releaseReason :: "string option"
  hr_releasedAt :: "int option"
  hr_releasedUnverified :: bool
  hr_consumedAt :: "int option"
  hr_consumedPaymentId :: "string option"
  hr_consumedOperationId :: "string option"
  hr_providerTerminalAt :: "int option"

record PaymentAttemptRow =
  at_orderId :: string
  at_operation :: string
  at_method :: string
  at_status :: string
  at_context :: "json option"

record PaymentRow =
  pm_orderId :: string
  pm_state :: InternalPaymentState

datatype TransitionCause = CauseReserved | CauseConsumed | CauseOrderCancelled | CauseOrderRefunded | CauseOrderPurged | CauseOperatorOverride

record ReservationTransition =
  rt_reservation :: ReservationRow
  rt_from :: "ReservationState option"
  rt_to :: ReservationState
  rt_cause :: TransitionCause

record 'p PaymentPolicy =
  pp_id :: string
  pp_onReservationTransition :: "(ReservationTransition \<Rightarrow> 'p \<Rightarrow> 'p option) option"

datatype ReservationAudit =
    ProjectionFailed string TransitionCause "string option" "string list"
  | PolicyAdminTask string nat

record 'p ReservationDb =
  rs_storeId :: string
  rs_credit :: CreditDb
  rs_rows :: "ReservationRow list"
  rs_attempts :: "PaymentAttemptRow list"
  rs_payments :: "PaymentRow list"
  rs_audit :: "ReservationAudit list"
  rs_policy :: 'p

record 'p ReservationEnv =
  re_creditId :: "CreditDb \<Rightarrow> string"
  re_rowId :: "'p ReservationDb \<Rightarrow> string"
  re_policies :: "'p PaymentPolicy list"

type_synonym ('a, 'p) reserving = "('a \<times> 'p ReservationDb) res"

definition liveHold :: "ReservationRow \<Rightarrow> bool" where
  "liveHold r \<longleftrightarrow> hr_state r \<in> {Held, Consumed}"

text \<open>The check constraint on a row.\<close>

definition rowShape :: "ReservationRow \<Rightarrow> bool" where
  "rowShape r \<longleftrightarrow> (case hr_state r of
     Held \<Rightarrow> hr_consumedAt r = None \<and> hr_releasedAt r = None \<and> hr_providerTerminalAt r = None
   | Consumed \<Rightarrow> hr_consumedAt r \<noteq> None \<and> hr_providerTerminalAt r \<noteq> None \<and> hr_releasedAt r = None
   | Released \<Rightarrow> hr_releasedAt r \<noteq> None \<and> hr_providerTerminalAt r \<noteq> None)"

section \<open>Projections\<close>

definition unavailable :: "string \<Rightarrow> js_error" where
  "unavailable policyId = Coded ''PaymentPolicyUnavailableError'' (''payment policy \"'' @ policyId @ ''\" is unavailable'')"

definition isUnavailable :: "js_error \<Rightarrow> bool" where
  "isUnavailable e = (case e of Coded c _ \<Rightarrow> c = ''PaymentPolicyUnavailableError'' | Err _ \<Rightarrow> False)"

text \<open>The first policy whose projection fails, with the tables as the projections before it left them.\<close>

primrec dispatchReservationTransition :: "'p PaymentPolicy list \<Rightarrow> ReservationTransition \<Rightarrow> 'p \<Rightarrow> string option \<times> 'p" where
  "dispatchReservationTransition [] t p = (None, p)"
| "dispatchReservationTransition (policy # rest) t p = (case pp_onReservationTransition policy of
     None \<Rightarrow> dispatchReservationTransition rest t p
   | Some hook \<Rightarrow> (case hook t p of None \<Rightarrow> (Some (pp_id policy), p) | Some p' \<Rightarrow> dispatchReservationTransition rest t p'))"

primrec dispatchReservationTransitions ::
  "'p PaymentPolicy list \<Rightarrow> ReservationRow list \<Rightarrow> ReservationState option \<Rightarrow> ReservationState \<Rightarrow> TransitionCause \<Rightarrow> 'p \<Rightarrow> string option \<times> 'p" where
  "dispatchReservationTransitions policies [] from to cause p = (None, p)"
| "dispatchReservationTransitions policies (row # rows) from to cause p =
     (case dispatchReservationTransition policies \<lparr>rt_reservation = row, rt_from = from, rt_to = to, rt_cause = cause\<rparr> p of
        (Some failed, p') \<Rightarrow> (Some failed, p')
      | (None, p') \<Rightarrow> dispatchReservationTransitions policies rows from to cause p')"

text \<open>Dispatch whose failure aborts the transaction.\<close>

definition projected :: "'p PaymentPolicy list \<Rightarrow> ReservationRow list \<Rightarrow> ReservationState option \<Rightarrow> ReservationState \<Rightarrow> TransitionCause \<Rightarrow> 'p ReservationDb \<Rightarrow> 'p ReservationDb res" where
  "projected policies rows from to cause db = (case dispatchReservationTransitions policies rows from to cause (rs_policy db) of
     (Some failed, _) \<Rightarrow> Inl (unavailable failed)
   | (None, p) \<Rightarrow> Inr (db\<lparr>rs_policy := p\<rparr>))"

section \<open>Orders and provider work\<close>

definition orderRow :: "'p ReservationDb \<Rightarrow> string \<Rightarrow> CreditOrder option" where
  "orderRow db orderId = find (\<lambda>o'. co_id o' = orderId) (cd_orders (rs_credit db))"

definition orderState :: "'p ReservationDb \<Rightarrow> string \<Rightarrow> OrderState res" where
  "orderState db orderId = (case orderRow db orderId of
     None \<Rightarrow> Inl (Coded ''ReservationRuleError'' (''order '' @ orderId @ '' not found in store '' @ rs_storeId db))
   | Some o' \<Rightarrow> Inr (co_state o'))"

definition financiallyQuarantined :: "'p ReservationDb \<Rightarrow> string \<Rightarrow> bool" where
  "financiallyQuarantined db orderId = (case orderRow db orderId of None \<Rightarrow> False | Some o' \<Rightarrow> importedFinancialReconciliationRequired (co_metadata o'))"

definition assertFinancialEffectsAllowed :: "'p ReservationDb \<Rightarrow> string \<Rightarrow> unit res" where
  "assertFinancialEffectsAllowed db orderId = checkE (financiallyQuarantined db orderId)
     (Coded ''IMPORTED_FINANCIAL_RECONCILIATION_REQUIRED'' ''Imported financial history requires reconciliation before changing money.'')"

text \<open>A flag of a JSON column; the code writes booleans there.\<close>

definition jsonFlag :: "json option \<Rightarrow> bool" where
  "jsonFlag v \<longleftrightarrow> v = Some (JBool True)"

definition PROVIDER_METHODS :: "string list" where
  "PROVIDER_METHODS = [''nmi'', ''stripe'', ''sezzle'']"

definition openAttempt :: "PaymentAttemptRow \<Rightarrow> bool" where
  "openAttempt a \<longleftrightarrow> at_operation a \<noteq> ''refund'' \<and> at_status a \<notin> {''settled'', ''cancelled''}
     \<and> \<not> (at_status a = ''failed'' \<and> (at_method a = ''nmi''
          \<or> at_method a = ''sezzle'' \<and> jsonFlag (jget ''authorization_released'' (jget ''recovery'' (at_context a)))))"

definition undiscovered :: "'p ReservationDb \<Rightarrow> CreditOrder \<Rightarrow> bool" where
  "undiscovered db o' \<longleftrightarrow> jsonFlag (jget ''hold'' (jget ''stripeDiscovery'' (co_metadata o')))
     \<or> \<not> list_ex (\<lambda>a. at_orderId a = co_id o' \<and> at_operation a = ''intent'') (rs_attempts db)
        \<and> jnullish (jget ''checkedAt'' (jget ''stripeDiscovery'' (co_metadata o')))"

definition providerQuiescent :: "'p ReservationDb \<Rightarrow> string \<Rightarrow> bool \<Rightarrow> bool" where
  "providerQuiescent db orderId stripeDiscoverable \<longleftrightarrow>
     \<not> list_ex (\<lambda>a. at_orderId a = orderId \<and> openAttempt a) (rs_attempts db)
     \<and> \<not> list_ex (\<lambda>p. pm_orderId p = orderId \<and> pm_state p \<in> {PaymentPending, PaymentAuthorized}) (rs_payments db)
     \<and> \<not> (stripeDiscoverable \<and> (case orderRow db orderId of None \<Rightarrow> False | Some o' \<Rightarrow> undiscovered db o'))"

section \<open>Placement\<close>

record ReserveInput =
  hi_orderId :: string
  hi_kind :: string
  hi_ownerKey :: string
  hi_holder :: "json option"
  hi_releaseOnFullRefund :: "bool option"
  hi_expiresAt :: "int option"

definition reservationConflict :: "string \<Rightarrow> string \<Rightarrow> js_error" where
  "reservationConflict reason detail = Coded ''ReservationConflict'' (''order reservation conflict: '' @ reason @ '' ('' @ detail @ '')'')"

definition sameOwner :: "ReserveInput \<Rightarrow> ReservationRow \<Rightarrow> bool" where
  "sameOwner i r \<longleftrightarrow> hr_kind r = hi_kind i \<and> hr_ownerKey r = hi_ownerKey i"

text \<open>The insert, with the unique indexes of the table.\<close>

definition insertReservation :: "int \<Rightarrow> string \<Rightarrow> ReserveInput \<Rightarrow> 'p ReservationDb \<Rightarrow> (ReservationRow, 'p) reserving" where
  "insertReservation now newId i db =
     (let row = \<lparr>hr_id = newId, hr_orderId = hi_orderId i, hr_kind = hi_kind i, hr_ownerKey = hi_ownerKey i, hr_state = Held,
                hr_holder = orElse (hi_holder i) (JObj []), hr_releaseOnFullRefund = orElse (hi_releaseOnFullRefund i) False,
                hr_createdAt = now, hr_updatedAt = now, hr_expiresAt = hi_expiresAt i, hr_releaseRequestedAt = None, hr_releaseReason = None,
                hr_releasedAt = None, hr_releasedUnverified = False, hr_consumedAt = None, hr_consumedPaymentId = None,
                hr_consumedOperationId = None, hr_providerTerminalAt = None\<rparr>
      in if newId \<in> hr_id ` set (rs_rows db) then Inl (Err ''duplicate key'')
         else if list_ex (\<lambda>r. sameOwner i r \<and> hr_orderId r = hi_orderId i) (rs_rows db) then Inl (Err ''duplicate key'')
         else if list_ex (\<lambda>r. sameOwner i r \<and> liveHold r) (rs_rows db)
         then Inl (reservationConflict ''live_owner'' (hi_kind i @ '':'' @ hi_ownerKey i @ '' held by a concurrent order''))
         else Inr (row, db\<lparr>rs_rows := rs_rows db @ [row]\<rparr>))"

text \<open>\<open>seen\<close> are the rows the check for another owner read.\<close>

definition reserveHold :: "'p ReservationEnv \<Rightarrow> int \<Rightarrow> ReservationRow list \<Rightarrow> ReserveInput \<Rightarrow> 'p ReservationDb \<Rightarrow> (ReservationRow, 'p) reserving" where
  "reserveHold env now seen i db =
     bindE (assertFinancialEffectsAllowed db (hi_orderId i)) (\<lambda>_.
     bindE (orderState db (hi_orderId i)) (\<lambda>state.
     bindE (checkE (state \<in> {Cancelled, Refunded}) (reservationConflict ''order_terminal'' (''order is '' @ (if state = Cancelled then ''Cancelled'' else ''Refunded'')))) (\<lambda>_.
     bindE (checkE (hi_expiresAt i \<noteq> None \<and> list_ex (\<lambda>a. at_orderId a = hi_orderId i \<and> at_method a \<in> set PROVIDER_METHODS) (rs_attempts db))
              (Coded ''ReservationRuleError'' ''expires_at must be NULL: provider-bound holds have no fixed expiry'')) (\<lambda>_.
     case find (\<lambda>r. hr_orderId r = hi_orderId i \<and> sameOwner i r) (rs_rows db) of
       Some existing \<Rightarrow>
         if hr_state existing = Released then Inl (reservationConflict ''released'' (hi_kind i @ '':'' @ hi_ownerKey i)) else Inr (existing, db)
     | None \<Rightarrow> (case find (\<lambda>r. sameOwner i r \<and> liveHold r) seen of
         Some other \<Rightarrow> Inl (reservationConflict ''live_owner'' (hi_kind i @ '':'' @ hi_ownerKey i @ '' held by order '' @ hr_orderId other))
       | None \<Rightarrow>
           bindE (insertReservation now (re_rowId env db) i db) (\<lambda>(row, db1).
           bindE (projected (re_policies env) [row] None Held CauseReserved db1) (\<lambda>db2. Inr (row, db2))))))))"

section \<open>Consumption\<close>

text \<open>\<open>UPDATE \<dots> RETURNING\<close>.\<close>

definition updateReturning :: "(ReservationRow \<Rightarrow> bool) \<Rightarrow> (ReservationRow \<Rightarrow> ReservationRow) \<Rightarrow> 'p ReservationDb \<Rightarrow> ReservationRow list \<times> 'p ReservationDb" where
  "updateReturning P f db = (map f (filter P (rs_rows db)), db\<lparr>rs_rows := map (\<lambda>r. if P r then f r else r) (rs_rows db)\<rparr>)"

definition heldOf :: "string \<Rightarrow> ReservationRow \<Rightarrow> bool" where
  "heldOf orderId r \<longleftrightarrow> hr_orderId r = orderId \<and> hr_state r = Held"

definition markConsumed :: "int \<Rightarrow> string option \<Rightarrow> string \<Rightarrow> ReservationRow \<Rightarrow> ReservationRow" where
  "markConsumed now paymentId operationId r = r\<lparr>hr_state := Consumed, hr_consumedAt := Some now, hr_providerTerminalAt := Some now,
     hr_consumedPaymentId := paymentId, hr_consumedOperationId := Some operationId, hr_updatedAt := now\<rparr>"

definition stateName :: "OrderState \<Rightarrow> string" where
  "stateName st = (case st of PendingPayment \<Rightarrow> ''PendingPayment'' | Paid \<Rightarrow> ''Paid'' | PartiallyRefunded \<Rightarrow> ''PartiallyRefunded''
     | Refunded \<Rightarrow> ''Refunded'' | Cancelled \<Rightarrow> ''Cancelled'')"

definition consumeCore :: "'p ReservationEnv \<Rightarrow> int \<Rightarrow> string \<Rightarrow> string option \<Rightarrow> string \<Rightarrow> bool \<Rightarrow> 'p ReservationDb \<Rightarrow> (ReservationRow list, 'p) reserving" where
  "consumeCore env now orderId paymentId operationId isolateProjection db =
     (if financiallyQuarantined db orderId then Inr ([], db)
      else bindE (orderState db orderId) (\<lambda>state.
        bindE (checkE (state \<notin> {Paid, PartiallyRefunded})
                 (Coded ''ReservationRuleError'' (''cannot consume reservations of a '' @ stateName state @ '' order (I3: consume implies Paid)''))) (\<lambda>_.
        case updateReturning (heldOf orderId) (markConsumed now paymentId operationId) db of (consumed, db1) \<Rightarrow>
          (case dispatchReservationTransitions (re_policies env) consumed (Some Held) Consumed CauseConsumed (rs_policy db1) of
             (None, p) \<Rightarrow> Inr (consumed, db1\<lparr>rs_policy := p\<rparr>)
           | (Some failed, p) \<Rightarrow>
               if isolateProjection
               then Inr (consumed, db1\<lparr>rs_policy := p, rs_audit := rs_audit db1 @ [ProjectionFailed orderId CauseConsumed (Some operationId) (map hr_id consumed)]\<rparr>)
               else Inl (unavailable failed)))))"

definition consume :: "'p ReservationEnv \<Rightarrow> int \<Rightarrow> string \<Rightarrow> string \<Rightarrow> string \<Rightarrow> 'p ReservationDb \<Rightarrow> (ReservationRow list, 'p) reserving" where
  "consume env now orderId paymentId operationId db = consumeCore env now orderId (Some paymentId) operationId False db"

definition consumeForSettlement :: "'p ReservationEnv \<Rightarrow> int \<Rightarrow> string \<Rightarrow> string option \<Rightarrow> string \<Rightarrow> 'p ReservationDb \<Rightarrow> (ReservationRow list, 'p) reserving" where
  "consumeForSettlement env now orderId paymentId operationId db =
     (if \<not> list_ex (heldOf orderId) (rs_rows db) then Inr ([], db)
      else (case orderRow db orderId of
        None \<Rightarrow> Inr ([], db)
      | Some o' \<Rightarrow> if co_state o' \<notin> {Paid, PartiallyRefunded} then Inr ([], db) else consumeCore env now orderId paymentId operationId True db))"

section \<open>Release\<close>

definition markRequested :: "int \<Rightarrow> string \<Rightarrow> ReservationRow \<Rightarrow> ReservationRow" where
  "markRequested now reason r = r\<lparr>hr_releaseRequestedAt := Some (orElse (hr_releaseRequestedAt r) now),
     hr_releaseReason := Some (orElse (hr_releaseReason r) reason), hr_updatedAt := now\<rparr>"

definition requestRelease :: "int \<Rightarrow> string \<Rightarrow> string \<Rightarrow> 'p ReservationDb \<Rightarrow> (ReservationRow list, 'p) reserving" where
  "requestRelease now orderId reason db =
     bindE (assertFinancialEffectsAllowed db orderId) (\<lambda>_. Inr (updateReturning (heldOf orderId) (markRequested now reason) db))"

definition requestedOf :: "string \<Rightarrow> ReservationRow \<Rightarrow> bool" where
  "requestedOf orderId r \<longleftrightarrow> heldOf orderId r \<and> hr_releaseRequestedAt r \<noteq> None"

definition markReleased :: "int \<Rightarrow> ReservationRow \<Rightarrow> ReservationRow" where
  "markReleased now r = r\<lparr>hr_state := Released, hr_releasedAt := Some now, hr_providerTerminalAt := Some now, hr_updatedAt := now\<rparr>"

definition releaseCredit :: "'p ReservationEnv \<Rightarrow> string \<Rightarrow> 'p ReservationDb \<Rightarrow> 'p ReservationDb res" where
  "releaseCredit env orderId db = bindE (release (re_creditId env) orderId CancelledOrder (rs_credit db)) (\<lambda>(_, c). Inr (db\<lparr>rs_credit := c\<rparr>))"

definition settleReleaseCore :: "'p ReservationEnv \<Rightarrow> int \<Rightarrow> string \<Rightarrow> bool \<Rightarrow> 'p ReservationDb \<Rightarrow> (ReservationRow list, 'p) reserving" where
  "settleReleaseCore env now orderId stripeDiscoverable db =
     (if financiallyQuarantined db orderId then Inr ([], db)
      else bindE (orderState db orderId) (\<lambda>state.
        if state \<notin> {Cancelled, Refunded} then Inr ([], db)
        else bindE (if state = Cancelled \<and> providerQuiescent db orderId stripeDiscoverable then releaseCredit env orderId db else Inr db) (\<lambda>db1.
          let pending = map hr_id (filter (requestedOf orderId) (rs_rows db1)) in
          if pending = [] then Inr ([], db1)
          else if \<not> providerQuiescent db1 orderId stripeDiscoverable then Inr ([], db1)
          else (case updateReturning (\<lambda>r. hr_id r \<in> set pending) (markReleased now) db1 of (released, db2) \<Rightarrow>
            bindE (projected (re_policies env) released (Some Held) Released (if state = Refunded then CauseOrderRefunded else CauseOrderCancelled) db2) (\<lambda>db3.
              Inr (released, db3))))))"

definition settleRelease :: "'p ReservationEnv \<Rightarrow> int \<Rightarrow> string \<Rightarrow> bool \<Rightarrow> 'p ReservationDb \<Rightarrow> (ReservationRow list, 'p) reserving" where
  "settleRelease env now orderId stripeDiscoverable db = settleReleaseCore env now orderId stripeDiscoverable db"

definition releaseHold :: "'p ReservationEnv \<Rightarrow> int \<Rightarrow> string \<Rightarrow> string \<Rightarrow> bool \<Rightarrow> 'p ReservationDb \<Rightarrow> (ReservationRow list \<times> ReservationRow list, 'p) reserving" where
  "releaseHold env now orderId reason stripeDiscoverable db =
     bindE (requestRelease now orderId reason db) (\<lambda>(_, db1).
     bindE (settleRelease env now orderId stripeDiscoverable db1) (\<lambda>(released, db2).
     Inr ((released, filter (heldOf orderId) (rs_rows db2)), db2)))"

definition hasPendingRelease :: "string \<Rightarrow> 'p ReservationDb \<Rightarrow> bool" where
  "hasPendingRelease orderId db \<longleftrightarrow> list_ex (requestedOf orderId) (rs_rows db)"

definition releaseOnProviderTerminal :: "'p ReservationEnv \<Rightarrow> int \<Rightarrow> string \<Rightarrow> 'p ReservationDb \<Rightarrow> (ReservationRow list, 'p) reserving" where
  "releaseOnProviderTerminal env now orderId db =
     (if \<not> hasPendingRelease orderId db \<and> pendingForOrder (rs_credit db) orderId = None then Inr ([], db)
      else settleReleaseCore env now orderId True db)"

definition refundableOf :: "string \<Rightarrow> ReservationRow \<Rightarrow> bool" where
  "refundableOf orderId r \<longleftrightarrow> hr_orderId r = orderId \<and> hr_state r = Consumed \<and> hr_releaseOnFullRefund r"

definition markRefunded :: "int \<Rightarrow> ReservationRow \<Rightarrow> ReservationRow" where
  "markRefunded now r = r\<lparr>hr_state := Released, hr_releasedAt := Some now, hr_updatedAt := now\<rparr>"

definition releaseOnFullRefund :: "'p ReservationEnv \<Rightarrow> int \<Rightarrow> string \<Rightarrow> 'p ReservationDb \<Rightarrow> (ReservationRow list, 'p) reserving" where
  "releaseOnFullRefund env now orderId db =
     (if financiallyQuarantined db orderId then Inr ([], db)
      else bindE (orderState db orderId) (\<lambda>state.
        if state \<noteq> Refunded then Inr ([], db)
        else (case updateReturning (refundableOf orderId) (markRefunded now) db of (released, db1) \<Rightarrow>
          bindE (projected (re_policies env) released (Some Consumed) Released CauseOrderRefunded db1) (\<lambda>db2. Inr (released, db2)))))"

definition releaseOnFullRefundOrDefer :: "'p ReservationEnv \<Rightarrow> int \<Rightarrow> string \<Rightarrow> string option \<Rightarrow> 'p ReservationDb \<Rightarrow> (ReservationRow list \<times> bool, 'p) reserving" where
  "releaseOnFullRefundOrDefer env now orderId refundId db = (case releaseOnFullRefund env now orderId db of
     Inr (released, db1) \<Rightarrow> Inr ((released, False), db1)
   | Inl e \<Rightarrow>
       if \<not> isUnavailable e then Inl e
       else (case updateReturning (refundableOf orderId) (markRequested now ''order_refunded'') db of (deferred, db1) \<Rightarrow>
         Inr (([], True), if deferred = [] then db1
           else db1\<lparr>rs_audit := rs_audit db1 @ [ProjectionFailed orderId CauseOrderRefunded refundId (map hr_id deferred), PolicyAdminTask orderId (length deferred)]\<rparr>)))"

definition markOverridden :: "int \<Rightarrow> string \<Rightarrow> ReservationRow \<Rightarrow> ReservationRow" where
  "markOverridden now reason r = r\<lparr>hr_state := Released, hr_releasedAt := Some now, hr_providerTerminalAt := Some now, hr_releasedUnverified := True,
     hr_releaseReason := Some (''operator_override: '' @ js_trim reason), hr_updatedAt := now\<rparr>"

definition overrideRelease :: "'p ReservationEnv \<Rightarrow> int \<Rightarrow> string \<Rightarrow> string \<Rightarrow> 'p ReservationDb \<Rightarrow> (ReservationRow list, 'p) reserving" where
  "overrideRelease env now orderId reason db =
     bindE (assertFinancialEffectsAllowed db orderId) (\<lambda>_.
     bindE (checkE (length (js_trim reason) < 10) (Coded ''ReservationRuleError'' ''override reason must be at least 10 characters'')) (\<lambda>_.
     bindE (orderState db orderId) (\<lambda>state.
     bindE (checkE (state \<noteq> Cancelled) (Coded ''ReservationRuleError'' (''operator override requires a Cancelled order (order is '' @ stateName state @ '')''))) (\<lambda>_.
     case updateReturning (heldOf orderId) (markOverridden now reason) db of (released, db1) \<Rightarrow>
       bindE (projected (re_policies env) released (Some Held) Released CauseOperatorOverride db1) (\<lambda>db2. Inr (released, db2))))))"

section \<open>Purge and queries\<close>

definition purgeBlockedByReservations :: "'p ReservationDb \<Rightarrow> string \<Rightarrow> bool \<Rightarrow> bool" where
  "purgeBlockedByReservations db orderId stripeDiscoverable \<longleftrightarrow> list_ex (heldOf orderId) (rs_rows db) \<and> \<not> providerQuiescent db orderId stripeDiscoverable"

definition purgeReservations :: "'p ReservationEnv \<Rightarrow> string \<Rightarrow> 'p ReservationDb \<Rightarrow> (ReservationRow list, 'p) reserving" where
  "purgeReservations env orderId db =
     bindE (assertFinancialEffectsAllowed db orderId) (\<lambda>_.
     let rows = filter (\<lambda>r. hr_orderId r = orderId) (rs_rows db) in
     bindE (foldE (\<lambda>row. projected (re_policies env) [row\<lparr>hr_state := Released\<rparr>] (Some (hr_state row)) Released CauseOrderPurged) rows db) (\<lambda>db1.
     Inr (rows, db1\<lparr>rs_rows := filter (\<lambda>r. hr_orderId r \<noteq> orderId) (rs_rows db1)\<rparr>)))"

definition findOpen :: "'p ReservationDb \<Rightarrow> string option \<Rightarrow> string option \<Rightarrow> string option \<Rightarrow> ReservationRow list" where
  "findOpen db orderId kind ownerKey = filter (\<lambda>r. liveHold r \<and> (case orderId of Some (c # cs) \<Rightarrow> hr_orderId r = c # cs | _ \<Rightarrow> True)
     \<and> (case kind of Some (c # cs) \<Rightarrow> hr_kind r = c # cs | _ \<Rightarrow> True) \<and> (case ownerKey of Some (c # cs) \<Rightarrow> hr_ownerKey r = c # cs | _ \<Rightarrow> True)) (rs_rows db)"

section \<open>The sweep\<close>

definition sweepable :: "'p ReservationDb \<Rightarrow> ReservationRow \<Rightarrow> bool" where
  "sweepable db r \<longleftrightarrow> hr_releaseRequestedAt r \<noteq> None \<and> (case orderRow db (hr_orderId r) of
     None \<Rightarrow> False
   | Some o' \<Rightarrow> (hr_state r = Held \<or> hr_state r = Consumed \<and> co_state o' = Refunded) \<and> \<not> importedFinancialReconciliationRequired (co_metadata o'))"

text \<open>The orders to sweep, each once, in ascending order, and a page of them.\<close>

definition sweepOrders :: "'p ReservationDb \<Rightarrow> string list" where
  "sweepOrders db = sort (remdups (map hr_orderId (filter (sweepable db) (rs_rows db))))"

definition sweepPage :: "nat \<Rightarrow> string option \<Rightarrow> string list \<Rightarrow> string list" where
  "sweepPage batchLimit after orders = take batchLimit (filter (\<lambda>i. case after of None \<Rightarrow> True | Some a \<Rightarrow> a < i) orders)"

fun fillWindow :: "nat \<Rightarrow> string list \<Rightarrow> string list \<Rightarrow> string list \<Rightarrow> string list" where
  "fillWindow batchLimit seen ids [] = ids"
| "fillWindow batchLimit seen ids (i # rest) = (if batchLimit \<le> length ids \<or> i \<in> set seen then ids else fillWindow batchLimit seen (ids @ [i]) rest)"

definition sweepWindow :: "nat \<Rightarrow> string option \<Rightarrow> string list \<Rightarrow> string list" where
  "sweepWindow batchLimit after orders =
     (let ids = sweepPage batchLimit after orders
      in if after \<noteq> None \<and> length ids < batchLimit then fillWindow batchLimit ids ids (sweepPage batchLimit None orders) else ids)"

text \<open>The orders examined and the new cursor.\<close>

definition sweepCandidates :: "nat \<Rightarrow> string option \<Rightarrow> 'p ReservationDb \<Rightarrow> string list \<times> string option" where
  "sweepCandidates batchLimit after db =
     (let ids = sweepWindow batchLimit after (sweepOrders db) in (ids, if ids = [] then None else Some (last ids)))"

record SweepResult =
  sw_orders :: nat
  sw_released :: nat
  sw_deferred :: nat
  sw_errors :: nat

definition sweepOrder :: "'p ReservationEnv \<Rightarrow> int \<Rightarrow> bool \<Rightarrow> string \<Rightarrow> 'p ReservationDb \<Rightarrow> (nat \<times> nat, 'p) reserving" where
  "sweepOrder env now stripeDiscover orderId db = (case orderRow db orderId of
     None \<Rightarrow> Inr ((0, 0), db)
   | Some o' \<Rightarrow>
       if importedFinancialReconciliationRequired (co_metadata o') then Inr ((0, 0), db)
       else bindE (if co_state o' = Refunded then releaseOnFullRefundOrDefer env now orderId None db else Inr (([], False), db)) (\<lambda>((r5, deferred), db1).
         bindE (settleRelease env now orderId stripeDiscover db1) (\<lambda>(r4, db2).
           Inr ((length r5 + length r4, if deferred then 1 else 0), db2))))"

text \<open>One order of a pass; an error rolls the order's transaction back and is counted.\<close>

definition sweepStep :: "'p ReservationEnv \<Rightarrow> int \<Rightarrow> bool \<Rightarrow> string \<Rightarrow> SweepResult \<times> 'p ReservationDb \<Rightarrow> SweepResult \<times> 'p ReservationDb" where
  "sweepStep env now stripeDiscover orderId st = (case st of (result, db) \<Rightarrow> (case sweepOrder env now stripeDiscover orderId db of
     Inr ((released, deferred), db1) \<Rightarrow>
       (result\<lparr>sw_orders := sw_orders result + 1, sw_released := sw_released result + released, sw_deferred := sw_deferred result + deferred\<rparr>, db1)
   | Inl _ \<Rightarrow> (result\<lparr>sw_errors := sw_errors result + 1\<rparr>, db)))"

definition reservationReleaseSweep :: "'p ReservationEnv \<Rightarrow> int \<Rightarrow> bool \<Rightarrow> nat \<Rightarrow> string option \<Rightarrow> 'p ReservationDb \<Rightarrow> (SweepResult \<times> string option) \<times> 'p ReservationDb" where
  "reservationReleaseSweep env now stripeDiscover batchLimit cursor db = (case sweepCandidates batchLimit cursor db of (ids, cursor1) \<Rightarrow>
     (case fold (sweepStep env now stripeDiscover) ids (\<lparr>sw_orders = 0, sw_released = 0, sw_deferred = 0, sw_errors = 0\<rparr>, db) of (result, db1) \<Rightarrow>
       ((result, cursor1), db1)))"

end
