(* ===== verification/ReservationLaws.thy ===== *)
theory ReservationLaws
  imports Reservation
begin

text \<open>
  The life of a reservation refines the table of transitions R1 to R6 of payments/reservation.ts, over every
  run each thing has at most one live holder, and the sweep reaches every order that stays a candidate.
\<close>

section \<open>The abstract hold\<close>

record Hold =
  h_state :: ReservationState
  h_requested :: bool
  h_unverified :: bool
  h_onRefund :: bool

definition absHold :: "ReservationRow \<Rightarrow> Hold" where
  "absHold r = \<lparr>h_state = hr_state r, h_requested = (hr_releaseRequestedAt r \<noteq> None), h_unverified = hr_releasedUnverified r, h_onRefund = hr_releaseOnFullRefund r\<rparr>"

text \<open>The transitions of a placed hold, given the state of its order and whether no provider work can move
  money any more. R1 creates a hold; R5 that cannot be projected is requested instead.\<close>

inductive hold_step :: "OrderState option \<Rightarrow> bool \<Rightarrow> Hold \<Rightarrow> Hold \<Rightarrow> bool" for st quiescent where
  R2: "\<lbrakk>h_state h = Held; st \<in> {Some Paid, Some PartiallyRefunded}\<rbrakk> \<Longrightarrow> hold_step st quiescent h (h\<lparr>h_state := Consumed\<rparr>)"
| R3: "h_state h = Held \<Longrightarrow> hold_step st quiescent h (h\<lparr>h_requested := True\<rparr>)"
| R4: "\<lbrakk>h_state h = Held; h_requested h; st \<in> {Some Cancelled, Some Refunded}; quiescent\<rbrakk> \<Longrightarrow> hold_step st quiescent h (h\<lparr>h_state := Released\<rparr>)"
| R5: "\<lbrakk>h_state h = Consumed; h_onRefund h; st = Some Refunded\<rbrakk> \<Longrightarrow> hold_step st quiescent h (h\<lparr>h_state := Released\<rparr>)"
| R5_deferred: "\<lbrakk>h_state h = Consumed; h_onRefund h; st = Some Refunded\<rbrakk> \<Longrightarrow> hold_step st quiescent h (h\<lparr>h_requested := True\<rparr>)"
| R6: "\<lbrakk>h_state h = Held; st = Some Cancelled\<rbrakk> \<Longrightarrow> hold_step st quiescent h (h\<lparr>h_state := Released, h_unverified := True\<rparr>)"

inductive_cases hold_stepE: "hold_step st quiescent h h'"

lemma hold_step_live: "hold_step st q h h' \<Longrightarrow> h_state h \<noteq> Released"
  by (auto elim!: hold_stepE)

lemma released_final: "\<lbrakk>(hold_step st q)\<^sup>*\<^sup>* h h'; h_state h = Released\<rbrakk> \<Longrightarrow> h' = h"
  by (induction rule: converse_rtranclp_induct) (auto dest: hold_step_live)

text \<open>A hold released without an operator's override was quiescent or paid back.\<close>

lemma release_verified:
  assumes "(hold_step st q)\<^sup>*\<^sup>* h h'" "h_state h \<noteq> Released" "h_state h' = Released" "\<not> h_unverified h'" "\<not> h_unverified h"
  shows "st \<in> {Some Cancelled, Some Refunded} \<and> (q \<or> st = Some Refunded)"
  using assms
proof (induction rule: converse_rtranclp_induct)
  case (step h1 h2)
  show ?case
  proof (cases "h_state h2 = Released")
    case True
    then have "h' = h2" using step.hyps(2) released_final by blast
    then show ?thesis using step.hyps(1) step.prems True by (auto elim!: hold_stepE)
  next
    case False
    moreover have "\<not> h_unverified h2" using step.hyps(1) step.prems(4) False by (auto elim!: hold_stepE)
    ultimately show ?thesis using step.IH step.prems by blast
  qed
qed simp

section \<open>Rows follow the transitions\<close>

definition stateFor :: "'p ReservationDb \<Rightarrow> string \<Rightarrow> OrderState option" where
  "stateFor db orderId = map_option co_state (orderRow db orderId)"

definition holdKey :: "ReservationRow \<Rightarrow> string \<times> string \<times> string" where
  "holdKey r = (hr_orderId r, hr_kind r, hr_ownerKey r)"

definition rowMoves :: "OrderState option \<Rightarrow> bool \<Rightarrow> ReservationRow \<Rightarrow> ReservationRow \<Rightarrow> bool" where
  "rowMoves st q r r' \<longleftrightarrow> hr_id r' = hr_id r \<and> holdKey r' = holdKey r \<and> (rowShape r \<longrightarrow> rowShape r') \<and> (hold_step st q)\<^sup>*\<^sup>* (absHold r) (absHold r')"

definition moves :: "bool \<Rightarrow> 'p ReservationDb \<Rightarrow> 'p ReservationDb \<Rightarrow> bool" where
  "moves sd db db' \<longleftrightarrow> cd_orders (rs_credit db') = cd_orders (rs_credit db) \<and> rs_attempts db' = rs_attempts db \<and> rs_payments db' = rs_payments db
     \<and> list_all2 (\<lambda>r r'. rowMoves (stateFor db (hr_orderId r)) (providerQuiescent db (hr_orderId r) sd) r r') (rs_rows db) (rs_rows db')"

lemma rowMoves_refl [simp]: "rowMoves st q r r"
  by (simp add: rowMoves_def)

lemma rowMoves_trans: "\<lbrakk>rowMoves st q r r'; rowMoves st q r' r''\<rbrakk> \<Longrightarrow> rowMoves st q r r''"
  by (auto simp: rowMoves_def)

lemma rowMoves_order: "rowMoves st q r r' \<Longrightarrow> hr_orderId r' = hr_orderId r"
  by (simp add: rowMoves_def holdKey_def)

lemma moves_refl [simp]: "moves sd db db"
  by (simp add: moves_def list_all2_refl)

lemma moves_frame:
  assumes "moves sd db db'"
  shows "stateFor db' = stateFor db" "providerQuiescent db' = providerQuiescent db" "orderRow db' = orderRow db"
proof -
  show o': "orderRow db' = orderRow db" using assms by (simp add: orderRow_def moves_def fun_eq_iff)
  then show "stateFor db' = stateFor db" by (simp add: stateFor_def fun_eq_iff)
  have same: "rs_attempts db' = rs_attempts db" "rs_payments db' = rs_payments db" using assms by (simp_all add: moves_def)
  then have "undiscovered db' = undiscovered db" by (intro ext) (simp add: undiscovered_def)
  then show "providerQuiescent db' = providerQuiescent db" using same o' by (intro ext) (simp add: providerQuiescent_def split: option.splits)
qed

lemma moves_trans:
  assumes "moves sd db db'" "moves sd db' db''"
  shows "moves sd db db''"
proof -
  have 1: "list_all2 (\<lambda>r r'. rowMoves (stateFor db (hr_orderId r)) (providerQuiescent db (hr_orderId r) sd) r r') (rs_rows db) (rs_rows db')"
    and 2: "list_all2 (\<lambda>r r'. rowMoves (stateFor db (hr_orderId r)) (providerQuiescent db (hr_orderId r) sd) r r') (rs_rows db') (rs_rows db'')"
    using assms by (simp_all add: moves_def moves_frame[OF assms(1)])
  have "list_all2 (\<lambda>r r'. rowMoves (stateFor db (hr_orderId r)) (providerQuiescent db (hr_orderId r) sd) r r') (rs_rows db) (rs_rows db'')"
    by (rule list_all2_trans[OF _ 1 2]) (metis rowMoves_order rowMoves_trans)
  then show ?thesis using assms by (simp add: moves_def)
qed

lemma moves_ids: "moves sd db db' \<Longrightarrow> map hr_id (rs_rows db') = map hr_id (rs_rows db)"
  by (auto simp: moves_def list_all2_conv_all_nth rowMoves_def intro!: nth_equalityI)

text \<open>An update that moves each row it hits.\<close>

lemma update_moves:
  assumes "updateReturning P f db = (rows, db')"
    and "\<And>r. \<lbrakk>r \<in> set (rs_rows db); P r\<rbrakk> \<Longrightarrow> rowMoves (stateFor db (hr_orderId r)) (providerQuiescent db (hr_orderId r) sd) r (f r)"
  shows "moves sd db db'"
  using assms by (auto simp: updateReturning_def moves_def list_all2_map2 intro!: list_all2_all_nthI)

lemma policy_moves [simp]: "moves sd db (db'\<lparr>rs_policy := p\<rparr>) = moves sd db db'" "moves sd db (db'\<lparr>rs_audit := a\<rparr>) = moves sd db db'"
  by (simp_all add: moves_def)

lemma projected_moves: "\<lbrakk>projected policies rows from to cause db' = Inr db''; moves sd db db'\<rbrakk> \<Longrightarrow> moves sd db db''"
  by (auto simp: projected_def split: prod.splits option.splits)

named_theorems row_moves \<open>the moves of the row updates\<close>

lemma absHold_marks [simp]:
  "absHold (markConsumed now p op r) = (absHold r)\<lparr>h_state := Consumed\<rparr>"
  "absHold (markRequested now reason r) = (absHold r)\<lparr>h_requested := True\<rparr>"
  "absHold (markReleased now r) = (absHold r)\<lparr>h_state := Released\<rparr>"
  "absHold (markRefunded now r) = (absHold r)\<lparr>h_state := Released\<rparr>"
  "absHold (markOverridden now reason r) = (absHold r)\<lparr>h_state := Released, h_unverified := True\<rparr>"
  by (simp_all add: absHold_def markConsumed_def markRequested_def markReleased_def markRefunded_def markOverridden_def)

lemma marks_identity [simp]:
  "hr_id (markConsumed now p op r) = hr_id r" "holdKey (markConsumed now p op r) = holdKey r"
  "hr_id (markRequested now reason r) = hr_id r" "holdKey (markRequested now reason r) = holdKey r"
  "hr_id (markReleased now r) = hr_id r" "holdKey (markReleased now r) = holdKey r"
  "hr_id (markRefunded now r) = hr_id r" "holdKey (markRefunded now r) = holdKey r"
  "hr_id (markOverridden now reason r) = hr_id r" "holdKey (markOverridden now reason r) = holdKey r"
  by (simp_all add: holdKey_def markConsumed_def markRequested_def markReleased_def markRefunded_def markOverridden_def)

lemma marks_shape [simp]:
  "rowShape r \<Longrightarrow> hr_state r = Held \<Longrightarrow> rowShape (markConsumed now p op r)"
  "rowShape r \<Longrightarrow> rowShape (markRequested now reason r)"
  "rowShape (markReleased now r)"
  "rowShape r \<Longrightarrow> hr_state r = Consumed \<Longrightarrow> rowShape (markRefunded now r)"
  "rowShape (markOverridden now reason r)"
  by (auto simp: rowShape_def markConsumed_def markRequested_def markReleased_def markRefunded_def markOverridden_def split: ReservationState.splits)

lemma absHold_fields [simp]: "h_state (absHold r) = hr_state r" "h_requested (absHold r) = (hr_releaseRequestedAt r \<noteq> None)" "h_onRefund (absHold r) = hr_releaseOnFullRefund r"
  by (simp_all add: absHold_def)

lemma move_consumed [row_moves]: "\<lbrakk>hr_state r = Held; st \<in> {Some Paid, Some PartiallyRefunded}\<rbrakk> \<Longrightarrow> rowMoves st q r (markConsumed now p op r)"
  by (auto simp: rowMoves_def intro!: r_into_rtranclp hold_step.R2)

lemma move_requested [row_moves]: "hr_state r = Held \<Longrightarrow> rowMoves st q r (markRequested now reason r)"
  by (auto simp: rowMoves_def intro!: r_into_rtranclp hold_step.R3)

lemma move_released [row_moves]:
  "\<lbrakk>hr_state r = Held; hr_releaseRequestedAt r \<noteq> None; st \<in> {Some Cancelled, Some Refunded}; q\<rbrakk> \<Longrightarrow> rowMoves st q r (markReleased now r)"
  by (auto simp: rowMoves_def intro!: r_into_rtranclp hold_step.R4)

lemma move_refunded [row_moves]: "\<lbrakk>hr_state r = Consumed; hr_releaseOnFullRefund r\<rbrakk> \<Longrightarrow> rowMoves (Some Refunded) q r (markRefunded now r)"
  by (auto simp: rowMoves_def intro!: r_into_rtranclp hold_step.R5)

lemma move_deferred [row_moves]: "\<lbrakk>hr_state r = Consumed; hr_releaseOnFullRefund r\<rbrakk> \<Longrightarrow> rowMoves (Some Refunded) q r (markRequested now reason r)"
  by (auto simp: rowMoves_def intro!: r_into_rtranclp hold_step.R5_deferred)

lemma move_overridden [row_moves]: "hr_state r = Held \<Longrightarrow> rowMoves (Some Cancelled) q r (markOverridden now reason r)"
  by (auto simp: rowMoves_def intro!: r_into_rtranclp hold_step.R6)

lemma orderState_stateFor: "orderState db orderId = Inr st \<longleftrightarrow> stateFor db orderId = Some st"
  by (auto simp: orderState_def stateFor_def split: option.splits)

section \<open>Every operation moves the rows\<close>

lemma insertEntry_orders: "insertEntry gen t c = Inr (e, c') \<Longrightarrow> cd_orders c' = cd_orders c"
  by (auto simp: insertEntry_def Let_def split: if_splits)

lemma release_orders: "release gen orderId CancelledOrder c = Inr (b, c') \<Longrightarrow> cd_orders c' = cd_orders c"
  by (auto simp: release_def releaseEntry_def voidHold_def setStatus_def split: option.splits dest!: insertEntry_orders)

lemma releaseCredit_moves: "releaseCredit env orderId db = Inr db' \<Longrightarrow> moves sd db db' \<and> rs_rows db' = rs_rows db"
  by (auto simp: releaseCredit_def moves_def list_all2_refl dest: release_orders)

lemma consumeCore_moves:
  assumes "consumeCore env now orderId paymentId operationId isolate db = Inr (rows, db')"
  shows "moves sd db db'"
proof (cases "financiallyQuarantined db orderId")
  case False
  obtain consumed db1 where u: "updateReturning (heldOf orderId) (markConsumed now paymentId operationId) db = (consumed, db1)" by fastforce
  from assms False u obtain st where st: "stateFor db orderId = Some st" "st \<in> {Paid, PartiallyRefunded}"
    by (auto simp: consumeCore_def orderState_stateFor)
  have "moves sd db db1" using st by (intro update_moves[OF u]) (auto simp: heldOf_def intro!: row_moves)
  then show ?thesis using assms False u by (auto simp: consumeCore_def split: prod.splits option.splits if_splits)
qed (use assms in \<open>simp add: consumeCore_def\<close>)

lemma consumeForSettlement_moves: "consumeForSettlement env now orderId paymentId operationId db = Inr (rows, db') \<Longrightarrow> moves sd db db'"
  by (auto simp: consumeForSettlement_def split: option.splits if_splits intro: consumeCore_moves)

lemma requestRelease_moves:
  assumes "requestRelease now orderId reason db = Inr (rows, db')"
  shows "moves sd db db'"
proof -
  have "updateReturning (heldOf orderId) (markRequested now reason) db = (rows, db')" using assms by (simp add: requestRelease_def)
  then show ?thesis by (rule update_moves) (auto simp: heldOf_def intro!: row_moves)
qed

lemma settleReleaseCore_moves:
  assumes "settleReleaseCore env now orderId sd db = Inr (rows, db')" and ids: "distinct (map hr_id (rs_rows db))"
  shows "moves sd db db'"
proof (cases "financiallyQuarantined db orderId")
  case False
  from assms(1) False obtain st where st: "stateFor db orderId = Some st" by (auto simp: settleReleaseCore_def orderState_stateFor)
  show ?thesis
  proof (cases "st \<in> {Cancelled, Refunded}")
    case True
    let ?pre = "if st = Cancelled \<and> providerQuiescent db orderId sd then releaseCredit env orderId db else Inr db"
    from assms(1) False True st obtain db1 where pre: "?pre = Inr db1"
      by (auto simp: settleReleaseCore_def orderState_stateFor[symmetric])
    have db1: "moves sd db db1" "rs_rows db1 = rs_rows db" using pre releaseCredit_moves[of env orderId db db1 sd] by (auto split: if_splits)
    let ?pending = "map hr_id (filter (requestedOf orderId) (rs_rows db1))"
    obtain released db2 where u: "updateReturning (\<lambda>r. hr_id r \<in> set ?pending) (markReleased now) db1 = (released, db2)" by fastforce
    have hit: "requestedOf orderId r" if "r \<in> set (rs_rows db1)" "hr_id r \<in> set ?pending" for r
      using that ids db1(2) by (auto simp: distinct_map dest: inj_onD)
    have "moves sd db1 db2" if q: "providerQuiescent db1 orderId sd"
    proof (rule update_moves[OF u])
      fix r
      assume "r \<in> set (rs_rows db1)" "hr_id r \<in> set ?pending"
      then have "requestedOf orderId r" by (rule hit)
      then show "rowMoves (stateFor db1 (hr_orderId r)) (providerQuiescent db1 (hr_orderId r) sd) r (markReleased now r)"
        using True st q by (intro move_released) (auto simp: moves_frame(1)[OF db1(1)] requestedOf_def heldOf_def)
    qed
    then have m2: "moves sd db db2" if "providerQuiescent db1 orderId sd" using moves_trans[OF db1(1)] that by blast
    have "db' = db1 \<or> (providerQuiescent db1 orderId sd \<and> (\<exists>cause. projected (re_policies env) released (Some Held) Released cause db2 = Inr db'))"
      using assms(1) False True st pre u by (auto simp: settleReleaseCore_def orderState_stateFor[symmetric] Let_def split: if_splits)
    then show ?thesis using db1(1) m2 projected_moves by blast
  next
    case False
    then show ?thesis using assms(1) st \<open>\<not> financiallyQuarantined db orderId\<close> by (auto simp: settleReleaseCore_def orderState_stateFor[symmetric])
  qed
qed (use assms in \<open>simp add: settleReleaseCore_def\<close>)

lemma releaseOnFullRefund_moves:
  assumes "releaseOnFullRefund env now orderId db = Inr (rows, db')"
  shows "moves sd db db'"
proof (cases "financiallyQuarantined db orderId")
  case False
  obtain released db1 where u: "updateReturning (refundableOf orderId) (markRefunded now) db = (released, db1)" by fastforce
  have "moves sd db db1" if "stateFor db orderId = Some Refunded"
    using that by (intro update_moves[OF u]) (auto simp: refundableOf_def intro!: row_moves)
  moreover have "db' = db \<or> (stateFor db orderId = Some Refunded \<and> projected (re_policies env) released (Some Consumed) Released CauseOrderRefunded db1 = Inr db')"
    using assms False u by (auto simp: releaseOnFullRefund_def orderState_stateFor split: if_splits)
  ultimately show ?thesis using projected_moves by auto
qed (use assms in \<open>simp add: releaseOnFullRefund_def\<close>)

lemma releaseOnFullRefundOrDefer_moves:
  assumes "releaseOnFullRefundOrDefer env now orderId refundId db = Inr (res, db')"
  shows "moves sd db db'"
proof (cases "releaseOnFullRefund env now orderId db")
  case (Inl e)
  obtain deferred db1 where u: "updateReturning (refundableOf orderId) (markRequested now ''order_refunded'') db = (deferred, db1)" by fastforce
  have un: "isUnavailable e" using assms Inl by (auto simp: releaseOnFullRefundOrDefer_def split: if_splits)
  have "stateFor db orderId = Some Refunded"
  proof (cases "orderState db orderId")
    case (Inl e')
    then have "e = e'" using \<open>releaseOnFullRefund env now orderId db = Inl e\<close> by (auto simp: releaseOnFullRefund_def split: if_splits)
    then show ?thesis using Inl un by (auto simp: orderState_def isUnavailable_def split: option.splits)
  next
    case (Inr st)
    then show ?thesis using \<open>releaseOnFullRefund env now orderId db = Inl e\<close>
      by (auto simp: releaseOnFullRefund_def orderState_stateFor[symmetric] split: if_splits)
  qed
  then have "moves sd db db1" by (intro update_moves[OF u]) (auto simp: refundableOf_def intro!: move_deferred)
  then show ?thesis using assms Inl un u by (auto simp: releaseOnFullRefundOrDefer_def split: if_splits)
next
  case (Inr r)
  obtain released db1 where r: "r = (released, db1)" by (cases r)
  then have "db' = db1" using assms Inr by (simp add: releaseOnFullRefundOrDefer_def)
  then show ?thesis using Inr r releaseOnFullRefund_moves by blast
qed

lemma overrideRelease_moves:
  assumes "overrideRelease env now orderId reason db = Inr (rows, db')"
  shows "moves sd db db'"
proof -
  obtain released db1 where u: "updateReturning (heldOf orderId) (markOverridden now reason) db = (released, db1)" by fastforce
  have "stateFor db orderId = Some Cancelled" and p: "projected (re_policies env) released (Some Held) Released CauseOperatorOverride db1 = Inr db'"
    using assms u by (auto simp: overrideRelease_def orderState_stateFor)
  then have "moves sd db db1" by (intro update_moves[OF u]) (auto simp: heldOf_def intro!: row_moves)
  then show ?thesis by (rule projected_moves[OF p])
qed

lemma releaseHold_moves:
  assumes "releaseHold env now orderId reason sd db = Inr (res, db')" "distinct (map hr_id (rs_rows db))"
  shows "moves sd db db'"
proof -
  obtain rows db1 rows2 where 1: "requestRelease now orderId reason db = Inr (rows, db1)" and 2: "settleReleaseCore env now orderId sd db1 = Inr (rows2, db')"
    using assms(1) by (auto simp: releaseHold_def settleRelease_def)
  note m = requestRelease_moves[OF 1, of sd]
  show ?thesis by (rule moves_trans[OF m settleReleaseCore_moves[OF 2]]) (simp add: moves_ids[OF m] assms(2))
qed

lemma sweepOrder_moves:
  assumes "sweepOrder env now sd orderId db = Inr (res, db')" "distinct (map hr_id (rs_rows db))"
  shows "moves sd db db'"
proof (cases "orderRow db orderId")
  case (Some o')
  let ?first = "if co_state o' = Refunded then releaseOnFullRefundOrDefer env now orderId None db else Inr (([], False), db)"
  show ?thesis
  proof (cases "importedFinancialReconciliationRequired (co_metadata o')")
    case False
    then have run: "bindE ?first (\<lambda>((r5, deferred), db1). bindE (settleReleaseCore env now orderId sd db1) (\<lambda>(r4, db2).
        Inr ((length r5 + length r4, if deferred then 1 else 0), db2))) = Inr (res, db')"
      using assms(1) Some by (simp only: sweepOrder_def settleRelease_def option.case if_False)
    then obtain r5 deferred db1 where 1: "?first = Inr ((r5, deferred), db1)" by (cases ?first) auto
    with run obtain r4 where 2: "settleReleaseCore env now orderId sd db1 = Inr (r4, db')"
      by (cases "settleReleaseCore env now orderId sd db1") (auto simp only: bindE_simps prod.case split: prod.splits)
    have m: "moves sd db db1" using 1 releaseOnFullRefundOrDefer_moves by (auto split: if_splits)
    show ?thesis by (rule moves_trans[OF m settleReleaseCore_moves[OF 2]]) (simp add: moves_ids[OF m] assms(2))
  qed (use assms Some in \<open>simp add: sweepOrder_def\<close>)
qed (use assms in \<open>simp add: sweepOrder_def\<close>)

lemma sweep_moves:
  assumes "distinct (map hr_id (rs_rows db))"
  shows "moves sd db (snd (reservationReleaseSweep env now sd batchLimit cursor db))"
proof -
  have "moves sd db (snd (fold (sweepStep env now sd) ids st))" if "moves sd db (snd st)" for ids st
    using that
  proof (induction ids arbitrary: st)
    case (Cons i ids)
    have "moves sd db (snd (sweepStep env now sd i st))"
    proof (cases "sweepOrder env now sd i (snd st)")
      case (Inr r)
      then have "moves sd (snd st) (snd r)" using sweepOrder_moves[of env now sd i "snd st" "fst r" "snd r"] Cons.prems assms by (simp add: moves_ids)
      then show ?thesis using Inr Cons.prems moves_trans by (auto simp: sweepStep_def split: prod.splits)
    qed (use Cons.prems in \<open>auto simp: sweepStep_def split: prod.splits\<close>)
    then show ?case using Cons.IH by simp
  qed simp
  from this[of "(r, db)" for r] show ?thesis by (auto simp: reservationReleaseSweep_def split: prod.splits) (metis moves_refl snd_conv)
qed

section \<open>Runs\<close>

text \<open>The operations, and \<open>HWorld\<close>: whatever the rest of the system does to orders, credit, payment attempts
  and payments.\<close>

datatype HoldOp =
    HReserve int "ReservationRow list" ReserveInput
  | HConsume int string string string
  | HSettlement int string "string option" string
  | HRequest int string string
  | HRelease int string string bool
  | HSettle int string bool
  | HProviderTerminal int string
  | HFullRefund int string "string option"
  | HOverride int string string
  | HPurge string
  | HSweep int bool nat "string option"
  | HWorld CreditDb "PaymentAttemptRow list" "PaymentRow list"

definition committed :: "('a, 'p) reserving \<Rightarrow> 'p ReservationDb \<Rightarrow> 'p ReservationDb" where
  "committed r db = (case r of Inl _ \<Rightarrow> db | Inr (_, db') \<Rightarrow> db')"

fun holdExec :: "'p ReservationEnv \<Rightarrow> HoldOp \<Rightarrow> 'p ReservationDb \<Rightarrow> 'p ReservationDb" where
  "holdExec env (HReserve now seen i) db = committed (reserveHold env now seen i db) db"
| "holdExec env (HConsume now orderId paymentId operationId) db = committed (consume env now orderId paymentId operationId db) db"
| "holdExec env (HSettlement now orderId paymentId operationId) db = committed (consumeForSettlement env now orderId paymentId operationId db) db"
| "holdExec env (HRequest now orderId reason) db = committed (requestRelease now orderId reason db) db"
| "holdExec env (HRelease now orderId reason sd) db = committed (releaseHold env now orderId reason sd db) db"
| "holdExec env (HSettle now orderId sd) db = committed (settleRelease env now orderId sd db) db"
| "holdExec env (HProviderTerminal now orderId) db = committed (releaseOnProviderTerminal env now orderId db) db"
| "holdExec env (HFullRefund now orderId refundId) db = committed (releaseOnFullRefundOrDefer env now orderId refundId db) db"
| "holdExec env (HOverride now orderId reason) db = committed (overrideRelease env now orderId reason db) db"
| "holdExec env (HPurge orderId) db = committed (purgeReservations env orderId db) db"
| "holdExec env (HSweep now sd batchLimit cursor) db = snd (reservationReleaseSweep env now sd batchLimit cursor db)"
| "holdExec env (HWorld credit attempts payments) db = db\<lparr>rs_credit := credit, rs_attempts := attempts, rs_payments := payments\<rparr>"

text \<open>Whether Stripe's side is taken as discoverable by an operation.\<close>

fun discoverable :: "HoldOp \<Rightarrow> bool" where
  "discoverable (HRelease _ _ _ sd) = sd"
| "discoverable (HSettle _ _ sd) = sd"
| "discoverable (HSweep _ sd _ _) = sd"
| "discoverable _ = True"

definition wellHeld :: "ReservationRow list \<Rightarrow> bool" where
  "wellHeld rows \<longleftrightarrow> distinct (map hr_id rows) \<and> distinct (map holdKey rows) \<and> distinct (map (snd \<circ> holdKey) (filter liveHold rows)) \<and> list_all rowShape rows"

text \<open>What an operation does to the rows: it moves them, places one hold, purges an order, or keeps them
  while the world changes.\<close>

lemma reserve_rows:
  assumes "reserveHold env now seen i db = Inr (row, db')"
  shows "db' = db \<or> (rs_rows db' = rs_rows db @ [row] \<and> hr_id row \<notin> hr_id ` set (rs_rows db) \<and> holdKey row \<notin> holdKey ` set (rs_rows db)
     \<and> snd (holdKey row) \<notin> (snd \<circ> holdKey) ` set (filter liveHold (rs_rows db)) \<and> rowShape row
     \<and> hr_state row = Held \<and> hr_releaseRequestedAt row = None \<and> \<not> hr_releasedUnverified row \<and> stateFor db (hr_orderId row) \<in> {Some PendingPayment, Some Paid, Some PartiallyRefunded})"
proof -
  obtain st where st: "stateFor db (hi_orderId i) = Some st" "st \<notin> {Cancelled, Refunded}" using assms by (auto simp: reserveHold_def orderState_stateFor)
  then have st': "stateFor db (hi_orderId i) \<in> {Some PendingPayment, Some Paid, Some PartiallyRefunded}" by (cases st) auto
  show ?thesis
  proof (cases "find (\<lambda>r. hr_orderId r = hi_orderId i \<and> sameOwner i r) (rs_rows db)")
    case (Some existing)
    then show ?thesis using assms by (auto simp: reserveHold_def split: if_splits)
  next
    case None
    obtain db1 where ins: "insertReservation now (re_rowId env db) i db = Inr (row, db1)"
      and p: "projected (re_policies env) [row] None Held CauseReserved db1 = Inr db'"
      using assms None by (auto simp: reserveHold_def split: option.splits)
    have "rs_rows db' = rs_rows db1" using p by (auto simp: projected_def split: prod.splits option.splits)
    then show ?thesis using ins st' by (auto simp: insertReservation_def Let_def rowShape_def list_ex_iff sameOwner_def holdKey_def split: if_splits)
  qed
qed

lemma purge_rows:
  assumes "purgeReservations env orderId db = Inr (rows, db')"
  shows "rs_rows db' = filter (\<lambda>r. hr_orderId r \<noteq> orderId) (rs_rows db)"
proof -
  let ?project = "\<lambda>row. projected (re_policies env) [row\<lparr>hr_state := Released\<rparr>] (Some (hr_state row)) Released CauseOrderPurged"
  obtain db1 where f: "foldE ?project (filter (\<lambda>r. hr_orderId r = orderId) (rs_rows db)) db = Inr db1"
    and db': "db' = db1\<lparr>rs_rows := filter (\<lambda>r. hr_orderId r \<noteq> orderId) (rs_rows db1)\<rparr>"
    using assms by (auto simp: purgeReservations_def Let_def)
  have "rs_rows db1 = rs_rows db"
    by (rule foldE_invariant[OF f]) (auto simp: projected_def split: prod.splits option.splits)
  then show ?thesis using db' by simp
qed

lemma committed_moves: "(\<And>a db'. r = Inr (a, db') \<Longrightarrow> moves sd db db') \<Longrightarrow> moves sd db (committed r db)"
  by (auto simp: committed_def split: sum.splits)

lemma providerTerminal_moves: "\<lbrakk>releaseOnProviderTerminal env now orderId db = Inr (rows, db'); distinct (map hr_id (rs_rows db))\<rbrakk> \<Longrightarrow> moves True db db'"
  by (auto simp: releaseOnProviderTerminal_def settleReleaseCore_moves split: if_splits)

lemma consume_moves: "consume env now orderId paymentId operationId db = Inr (rows, db') \<Longrightarrow> moves sd db db'"
  by (auto simp: consume_def intro: consumeCore_moves)

lemma settleRelease_moves: "\<lbrakk>settleRelease env now orderId sd db = Inr (rows, db'); distinct (map hr_id (rs_rows db))\<rbrakk> \<Longrightarrow> moves sd db db'"
  by (simp add: settleRelease_def settleReleaseCore_moves)

lemmas op_moves = consume_moves consumeForSettlement_moves requestRelease_moves releaseHold_moves settleRelease_moves providerTerminal_moves
  releaseOnFullRefundOrDefer_moves overrideRelease_moves

definition isMover :: "HoldOp \<Rightarrow> bool" where
  "isMover op = (case op of HReserve _ _ _ \<Rightarrow> False | HPurge _ \<Rightarrow> False | HWorld _ _ _ \<Rightarrow> False | _ \<Rightarrow> True)"

lemma mover_moves: "\<lbrakk>isMover op; distinct (map hr_id (rs_rows db))\<rbrakk> \<Longrightarrow> moves (discoverable op) db (holdExec env op db)"
  by (cases op) (auto simp: isMover_def sweep_moves intro!: committed_moves intro: op_moves)

lemma live_step: "(hold_step st q)\<^sup>*\<^sup>* (absHold r) (absHold r') \<Longrightarrow> liveHold r' \<Longrightarrow> liveHold r"
  using released_final[of st q "absHold r" "absHold r'"] by (cases "hr_state r") (auto simp: liveHold_def dest!: arg_cong[of "absHold r'" "absHold r" h_state])

lemma moves_wellHeld:
  assumes "moves sd db db'" "wellHeld (rs_rows db)"
  shows "wellHeld (rs_rows db')"
proof -
  let ?key = "snd \<circ> holdKey"
  have rel: "list_all2 (\<lambda>r r'. holdKey r' = holdKey r \<and> (liveHold r' \<longrightarrow> liveHold r) \<and> (rowShape r \<longrightarrow> rowShape r')) (rs_rows db) (rs_rows db')"
    using assms(1) by (auto simp: moves_def rowMoves_def intro: list_all2_mono live_step)
  then have "?key ` set (filter liveHold (rs_rows db')) \<subseteq> ?key ` set (filter liveHold (rs_rows db))
      \<and> (distinct (map ?key (filter liveHold (rs_rows db))) \<longrightarrow> distinct (map ?key (filter liveHold (rs_rows db'))))
      \<and> (list_all rowShape (rs_rows db) \<longrightarrow> list_all rowShape (rs_rows db')) \<and> map holdKey (rs_rows db') = map holdKey (rs_rows db)"
    by (induction rule: list_all2_induct) auto
  then show ?thesis using assms(2) moves_ids[OF assms(1)] by (simp add: wellHeld_def)
qed

lemma wellHeld_filter: "wellHeld rows \<Longrightarrow> wellHeld (filter P rows)"
proof -
  assume w: "wellHeld rows"
  have "filter liveHold (filter P rows) = filter P (filter liveHold rows)" by (simp add: conj_commute)
  then show ?thesis using w by (auto simp: wellHeld_def distinct_map_filter list_all_iff simp del: filter_filter)
qed

lemma holdExec_wellHeld:
  assumes "wellHeld (rs_rows db)"
  shows "wellHeld (rs_rows (holdExec env op db))"
proof (cases "isMover op")
  case True
  then show ?thesis using mover_moves[of op db env] assms moves_wellHeld by (auto simp: wellHeld_def)
next
  case False
  then show ?thesis
  proof (cases op)
    case (HReserve now seen i)
    then show ?thesis using assms
      by (auto simp: committed_def wellHeld_def split: sum.splits dest!: reserve_rows)
  next
    case (HPurge orderId)
    then show ?thesis using assms by (auto intro: wellHeld_filter simp: committed_def purge_rows split: sum.splits)
  qed (use assms in \<open>simp_all add: isMover_def\<close>)
qed

interpretation holds: machine "holdExec env" "\<lambda>db. wellHeld (rs_rows db)" for env
  by unfold_locales (rule holdExec_wellHeld)

lemma holdKey_fun: "holdKey = (\<lambda>r. (hr_orderId r, hr_kind r, hr_ownerKey r))"
  by (simp add: fun_eq_iff holdKey_def)

text \<open>C8: a thing has one holder. Over every sequence of reservation transactions and sweeps, whatever the
  rest of the system does to orders and payments, whichever policies fail and however stale the rows a
  placement read, no two live reservations name the same thing, an order has at most one reservation
  per thing, and every row satisfies the shape its table demands.\<close>

theorem reservation_exclusive:
  "let rows = rs_rows (fold (holdExec env) ops (db\<lparr>rs_rows := []\<rparr>)) in
    distinct (map hr_id rows) \<and> distinct (map (\<lambda>r. (hr_orderId r, hr_kind r, hr_ownerKey r)) rows)
    \<and> distinct (map (\<lambda>r. (hr_kind r, hr_ownerKey r)) (filter liveHold rows)) \<and> list_all rowShape rows"
proof -
  have "wellHeld (rs_rows (fold (holdExec env) ops (db\<lparr>rs_rows := []\<rparr>)))" by (rule holds.run_inv) (simp add: wellHeld_def)
  then show ?thesis unfolding wellHeld_def holdKey_fun Let_def by (simp add: comp_def)
qed

text \<open>C11: the code implements the table of transitions. In one operation every reservation of the table either
  stays, with its identity, along the transitions R2 to R6 that its order's state and the provider's
  quiescence allow, or its order is purged; a row that was not there is a fresh hold of an order that
  is neither cancelled nor refunded.\<close>

theorem reservation_lifecycle:
  assumes "wellHeld (rs_rows db)"
  shows "(\<forall>r\<in>set (rs_rows db). op = HPurge (hr_orderId r) \<or> (\<exists>r'\<in>set (rs_rows (holdExec env op db)).
      hr_id r' = hr_id r \<and> holdKey r' = holdKey r
      \<and> (hold_step (stateFor db (hr_orderId r)) (providerQuiescent db (hr_orderId r) (discoverable op)))\<^sup>*\<^sup>* (absHold r) (absHold r')))
   \<and> (\<forall>r'\<in>set (rs_rows (holdExec env op db)). hr_id r' \<notin> hr_id ` set (rs_rows db) \<longrightarrow>
      hr_state r' = Held \<and> hr_releaseRequestedAt r' = None \<and> stateFor db (hr_orderId r') \<in> {Some PendingPayment, Some Paid, Some PartiallyRefunded})"
proof (cases "isMover op")
  case True
  then have m: "moves (discoverable op) db (holdExec env op db)" using assms by (simp add: wellHeld_def mover_moves)
  have "hr_id ` set (rs_rows (holdExec env op db)) = hr_id ` set (rs_rows db)" using moves_ids[OF m] by (metis list.set_map)
  moreover have "\<exists>r'\<in>set (rs_rows (holdExec env op db)). rowMoves (stateFor db (hr_orderId r)) (providerQuiescent db (hr_orderId r) (discoverable op)) r r'"
    if mem: "r \<in> set (rs_rows db)" for r
  proof -
    obtain k where "k < length (rs_rows db)" "r = rs_rows db ! k" using mem by (auto simp: in_set_conv_nth)
    then show ?thesis using m by (intro bexI[of _ "rs_rows (holdExec env op db) ! k"]) (auto simp: moves_def list_all2_conv_all_nth)
  qed
  ultimately show ?thesis unfolding rowMoves_def by blast
next
  case False
  then show ?thesis
  proof (cases op)
    case (HReserve now seen i)
    then show ?thesis by (auto simp: committed_def split: sum.splits dest!: reserve_rows)
  next
    case (HPurge orderId)
    then show ?thesis by (auto simp: committed_def purge_rows split: sum.splits)
  qed (auto simp: isMover_def)
qed

text \<open>An order is cancelled while its hold has a release request; the settlement of the release finds the
  provider quiescent.\<close>

definition demoHoldRow :: ReservationRow where
  "demoHoldRow = \<lparr>hr_id = ''r1'', hr_orderId = ''o1'', hr_kind = ''device'', hr_ownerKey = ''d1'', hr_state = Held, hr_holder = JObj [],
     hr_releaseOnFullRefund = False, hr_createdAt = 1, hr_updatedAt = 2, hr_expiresAt = None, hr_releaseRequestedAt = Some 2, hr_releaseReason = Some ''order_cancelled'',
     hr_releasedAt = None, hr_releasedUnverified = False, hr_consumedAt = None, hr_consumedPaymentId = None, hr_consumedOperationId = None, hr_providerTerminalAt = None\<rparr>"

definition demoHoldDb :: "unit ReservationDb" where
  "demoHoldDb = \<lparr>rs_storeId = ''s'', rs_credit = \<lparr>cd_storeCurrency = None, cd_accounts = [], cd_entries = [], cd_promotions = [],
     cd_orders = [\<lparr>co_id = ''o1'', co_state = Cancelled, co_currency = ''USD'', co_promotionId = None, co_grandTotal = 100, co_metadata = None, co_lines = [], co_settled = False\<rparr>]\<rparr>,
     rs_rows = [demoHoldRow], rs_attempts = [], rs_payments = [], rs_audit = [], rs_policy = ()\<rparr>"

definition demoHoldEnv :: "unit ReservationEnv" where
  "demoHoldEnv = \<lparr>re_creditId = (\<lambda>_. ''c''), re_rowId = (\<lambda>_. ''r2''), re_policies = []\<rparr>"

theorem reservation_lifecycle_witness:
  "wellHeld (rs_rows demoHoldDb) \<and> (\<exists>r'\<in>set (rs_rows (holdExec demoHoldEnv (HSettle 5 ''o1'' False) demoHoldDb)).
     hr_id r' = ''r1'' \<and> hr_state r' = Released \<and> (hold_step (Some Cancelled) True)\<^sup>*\<^sup>* (absHold demoHoldRow) (absHold r'))"
proof -
  have w: "wellHeld (rs_rows demoHoldDb)" by (simp add: wellHeld_def demoHoldDb_def demoHoldRow_def rowShape_def)
  have rows: "rs_rows (holdExec demoHoldEnv (HSettle 5 ''o1'' False) demoHoldDb) = [markReleased 5 demoHoldRow]"
    by (simp add: demoHoldDb_def demoHoldEnv_def demoHoldRow_def committed_def settleRelease_def settleReleaseCore_def financiallyQuarantined_def orderRow_def
        orderState_def importedFinancialReconciliationRequired_def providerQuiescent_def releaseCredit_def release_def lockOrder_def pendingForOrder_def
        requestedOf_def heldOf_def updateReturning_def projected_def Let_def)
  have st: "stateFor demoHoldDb ''o1'' = Some Cancelled" "providerQuiescent demoHoldDb ''o1'' False"
    by (simp_all add: demoHoldDb_def stateFor_def orderRow_def providerQuiescent_def)
  have "demoHoldRow \<in> set (rs_rows demoHoldDb)" "hr_orderId demoHoldRow = ''o1''" "hr_id demoHoldRow = ''r1''" by (simp_all add: demoHoldDb_def demoHoldRow_def)
  then show ?thesis using reservation_lifecycle[OF w, of "HSettle 5 ''o1'' False" demoHoldEnv] w st
    unfolding rows by (auto simp: markReleased_def)
qed

end
