(* ===== verification/SweepLaws.thy ===== *)
theory SweepLaws
  imports ReservationLaws
begin

text \<open>
  The rotation of the release sweep (jobs/reservation-release-sweep.ts): each pass examines the next
  window of the candidates in the cyclic order from the cursor, so no candidate starves.
\<close>

section \<open>The rotation\<close>

text \<open>\<open>y\<close> comes before \<open>x\<close> in the rotation that starts after the cursor.\<close>

definition after :: "'a::linorder option \<Rightarrow> 'a \<Rightarrow> bool" where
  "after cursor x = (case cursor of None \<Rightarrow> True | Some a \<Rightarrow> a < x)"

definition rotBefore :: "'a::linorder option \<Rightarrow> 'a \<Rightarrow> 'a \<Rightarrow> bool" where
  "rotBefore cursor y x \<longleftrightarrow> (after cursor y \<and> \<not> after cursor x) \<or> (after cursor y = after cursor x \<and> y < x)"

definition rotation :: "'a::linorder option \<Rightarrow> 'a list \<Rightarrow> 'a list" where
  "rotation cursor xs = filter (after cursor) xs @ filter (\<lambda>x. \<not> after cursor x) xs"

lemma set_rotation [simp]: "set (rotation cursor xs) = set xs"
  by (auto simp: rotation_def)

lemma distinct_rotation: "distinct xs \<Longrightarrow> distinct (rotation cursor xs)"
  by (auto simp: rotation_def)

lemma rotation_sorted:
  assumes "sorted xs" "distinct xs"
  shows "sorted_wrt (rotBefore cursor) (rotation cursor xs)"
proof -
  have "sorted_wrt (<) (filter P xs)" for P
    using assms by (simp add: sorted_wrt_filter strict_sorted_iff)
  note less = this
  have "sorted_wrt (rotBefore cursor) (filter (after cursor) xs)"
    by (rule sorted_wrt_mono_rel[OF _ less]) (auto simp: rotBefore_def)
  moreover have "sorted_wrt (rotBefore cursor) (filter (\<lambda>x. \<not> after cursor x) xs)"
    by (rule sorted_wrt_mono_rel[OF _ less]) (auto simp: rotBefore_def)
  ultimately show ?thesis unfolding rotation_def sorted_wrt_append by (auto simp: rotBefore_def)
qed

text \<open>Once the cursor moves to an element before \<open>x\<close>, what is still before \<open>x\<close> came after that element.\<close>

lemma rotBefore_next:
  assumes "rotBefore cursor a x" "rotBefore (Some a) y x"
  shows "rotBefore cursor y x \<and> y \<noteq> a \<and> \<not> rotBefore cursor y a"
  using assms by (cases cursor) (auto simp: rotBefore_def after_def)

lemma fillWindow_eq: "fillWindow b seen ids ys = ids @ take (b - length ids) (takeWhile (\<lambda>y. y \<notin> set seen) ys)"
proof (induction ys arbitrary: ids)
  case (Cons y ys)
  show ?case
  proof (cases "b \<le> length ids \<or> y \<in> set seen")
    case False
    then have "b - length ids = Suc (b - Suc (length ids))" by linarith
    then show ?thesis using Cons[of "ids @ [y]"] False by simp
  qed auto
qed simp

lemma sorted_split:
  assumes "sorted xs" "distinct xs"
  shows "xs = filter (\<lambda>x. \<not> a < x) xs @ filter (\<lambda>x. a < x) xs"
  using assms
proof (induction xs)
  case (Cons x xs)
  show ?case
  proof (cases "a < x")
    case True
    then have "filter (\<lambda>x. \<not> a < x) xs = []" "filter (\<lambda>x. a < x) xs = xs" using Cons.prems by (auto simp: filter_empty_conv filter_id_conv)
    then show ?thesis using True by simp
  next
    case False
    then show ?thesis using Cons by simp
  qed
qed simp

lemma takeWhile_front: "\<lbrakk>\<forall>y\<in>set xs. P y; \<forall>z\<in>set zs. \<not> P z\<rbrakk> \<Longrightarrow> takeWhile P (take b (xs @ zs)) = take b xs"
proof (induction xs arbitrary: b)
  case Nil
  then show ?case by (cases zs; cases b) auto
next
  case (Cons x xs)
  then show ?case by (cases b) auto
qed

lemma sweepWindow_rotation:
  assumes "sorted orders" "distinct orders"
  shows "sweepWindow b cursor orders = take b (rotation cursor orders)"
proof (cases cursor)
  case None
  then show ?thesis by (simp add: sweepWindow_def sweepPage_def rotation_def after_def Let_def)
next
  case (Some a)
  let ?F = "filter (\<lambda>x. a < x) orders" and ?L = "filter (\<lambda>x. \<not> a < x) orders"
  have rot: "rotation cursor orders = ?F @ ?L" using Some by (simp add: rotation_def after_def cong: filter_cong)
  show ?thesis
  proof (cases "length (take b ?F) < b")
    case True
    then have "take b ?F = ?F" by simp
    moreover have "takeWhile (\<lambda>y. y \<notin> set ?F) (take b orders) = take b ?L"
    proof -
      have "takeWhile (\<lambda>y. y \<notin> set ?F) (take b (?L @ ?F)) = take b ?L" by (rule takeWhile_front) auto
      then show ?thesis using sorted_split[OF assms, of a] by simp
    qed
    moreover have "sweepPage b None orders = take b orders" by (simp add: sweepPage_def)
    ultimately show ?thesis using True Some rot
      by (simp add: sweepWindow_def sweepPage_def Let_def fillWindow_eq min_def)
  next
    case False
    then show ?thesis using Some rot by (simp add: sweepWindow_def sweepPage_def Let_def)
  qed
qed

section \<open>No candidate starves\<close>

definition ahead :: "string option \<Rightarrow> string \<Rightarrow> string list \<Rightarrow> string set" where
  "ahead cursor x orders = {y \<in> set orders. rotBefore cursor y x}"

lemma window_progress:
  assumes sorted: "sorted orders" "distinct orders" and x: "x \<in> set orders" and b: "0 < b"
    and missed: "x \<notin> set (sweepWindow b cursor orders)" and fewer: "set orders' \<subseteq> set orders"
  shows "sweepWindow b cursor orders \<noteq> [] \<and> card (ahead (Some (last (sweepWindow b cursor orders))) x orders') + b \<le> card (ahead cursor x orders)"
proof -
  let ?R = "rotation cursor orders"
  have w: "sweepWindow b cursor orders = take b ?R" by (rule sweepWindow_rotation[OF sorted])
  note srt = rotation_sorted[OF sorted, of cursor]
  obtain i where i: "i < length ?R" "?R ! i = x" using x by (metis in_set_conv_nth set_rotation)
  have bi: "b \<le> i"
  proof (rule ccontr)
    assume "\<not> b \<le> i"
    then have "x \<in> set (take b ?R)" using i by (auto simp: in_set_conv_nth)
    then show False using missed w by simp
  qed
  let ?a = "last (take b ?R)"
  have ne: "take b ?R \<noteq> []" using b i by auto
  have a: "?a = ?R ! (b - 1)" using last_conv_nth[OF ne] b bi i(1) by (simp add: min_def)
  have ax: "rotBefore cursor ?a x" using sorted_wrt_nth_less[OF srt, of "b - 1" i] a b bi i by simp
  have win: "z = ?a \<or> rotBefore cursor z ?a" if "z \<in> set (take b ?R)" for z
  proof -
    obtain j where j: "j < b" "z = ?R ! j" using \<open>z \<in> set (take b ?R)\<close> by (auto simp: in_set_conv_nth)
    then show ?thesis using sorted_wrt_nth_less[OF srt, of j "b - 1"] a b bi i(1) by (cases "j = b - 1") auto
  qed
  have sub: "ahead (Some ?a) x orders' \<subseteq> ahead cursor x orders - set (take b ?R)"
    using fewer win rotBefore_next[OF ax] by (auto simp: ahead_def)
  have winsub: "set (take b ?R) \<subseteq> ahead cursor x orders"
  proof
    fix z
    assume "z \<in> set (take b ?R)"
    then obtain j where j: "j < b" "j < length ?R" "z = ?R ! j" by (auto simp: in_set_conv_nth)
    then have "rotBefore cursor z x" using sorted_wrt_nth_less[OF srt, of j i] bi i by simp
    moreover have "z \<in> set orders" using j by (metis nth_mem set_rotation)
    ultimately show "z \<in> ahead cursor x orders" by (simp add: ahead_def)
  qed
  have fin: "finite (ahead cursor x orders)" by (simp add: ahead_def)
  have "card (set (take b ?R)) = b" using distinct_rotation[OF sorted(2), of cursor] bi i(1) by (simp add: distinct_card)
  then have "card (ahead (Some ?a) x orders') \<le> card (ahead cursor x orders) - b" "b \<le> card (ahead cursor x orders)"
    using card_mono[OF _ sub] card_Diff_subset[OF _ winsub] card_mono[OF fin winsub] fin by auto
  then show ?thesis using w ne by simp
qed

text \<open>The windows of successive passes; \<open>dbs\<close> are the tables each pass finds.\<close>

primrec sweepRun :: "nat \<Rightarrow> string option \<Rightarrow> 'p ReservationDb list \<Rightarrow> string list list" where
  "sweepRun batchLimit cursor [] = []"
| "sweepRun batchLimit cursor (db # dbs) = (case sweepCandidates batchLimit cursor db of (ids, cursor1) \<Rightarrow> ids # sweepRun batchLimit cursor1 dbs)"

lemma sweepOrders_sorted [simp]: "sorted (sweepOrders db)" "distinct (sweepOrders db)"
  by (simp_all add: sweepOrders_def)

lemma rotation_reaches:
  assumes "0 < b" "sorted_wrt (\<lambda>d d'. set (sweepOrders d') \<subseteq> set (sweepOrders d)) dbs" "\<forall>db\<in>set dbs. x \<in> set (sweepOrders db)"
    "dbs \<noteq> []" "card (ahead cursor x (sweepOrders (hd dbs))) < b * length dbs"
  shows "x \<in> set (concat (sweepRun b cursor dbs))"
  using assms
proof (induction dbs arbitrary: cursor)
  case (Cons db dbs)
  let ?w = "sweepWindow b cursor (sweepOrders db)"
  show ?case
  proof (cases "x \<in> set ?w")
    case False
    have bound: "b \<le> card (ahead cursor x (sweepOrders db))"
      using window_progress[OF sweepOrders_sorted _ Cons.prems(1) False subset_refl] Cons.prems(3) by simp
    then have ne: "dbs \<noteq> []" using Cons.prems(5) by auto
    then have "set (sweepOrders (hd dbs)) \<subseteq> set (sweepOrders db)" using Cons.prems(2) by simp
    from window_progress[OF sweepOrders_sorted _ Cons.prems(1) False this] Cons.prems(3)
    have p: "?w \<noteq> []" "card (ahead (Some (last ?w)) x (sweepOrders (hd dbs))) + b \<le> card (ahead cursor x (sweepOrders db))" by simp_all
    then have "card (ahead (Some (last ?w)) x (sweepOrders (hd dbs))) < b * length dbs" using Cons.prems(5) by simp
    then have "x \<in> set (concat (sweepRun b (Some (last ?w)) dbs))" using Cons ne by simp
    then show ?thesis using p(1) by (simp add: sweepCandidates_def Let_def)
  qed (simp add: sweepCandidates_def Let_def)
qed simp

text \<open>C22: no order starves in the release sweep. While orders only leave the candidates, an order that stays a
  candidate is examined within the number of candidates divided by the batch size, rounded up, passes,
  wherever the cursor stood.\<close>

theorem sweep_rotation:
  assumes "0 < batchLimit" "dbs \<noteq> []" "sorted_wrt (\<lambda>d d'. set (sweepOrders d') \<subseteq> set (sweepOrders d)) dbs"
    and "\<forall>db\<in>set dbs. x \<in> set (sweepOrders db)" and "length (sweepOrders (hd dbs)) \<le> batchLimit * length dbs"
  shows "x \<in> set (concat (sweepRun batchLimit cursor dbs))"
proof (rule rotation_reaches)
  have "x \<in> set (sweepOrders (hd dbs))" using assms(2,4) by simp
  then have "ahead cursor x (sweepOrders (hd dbs)) \<subset> set (sweepOrders (hd dbs))" by (auto simp: ahead_def rotBefore_def)
  then have "card (ahead cursor x (sweepOrders (hd dbs))) < card (set (sweepOrders (hd dbs)))" by (simp add: psubset_card_mono)
  then show "card (ahead cursor x (sweepOrders (hd dbs))) < batchLimit * length dbs" using assms(5) by (simp add: distinct_card)
qed (use assms in simp_all)

definition demoSweepDb :: "unit ReservationDb" where
  "demoSweepDb = demoHoldDb\<lparr>
     rs_credit := (rs_credit demoHoldDb)\<lparr>cd_orders := map (\<lambda>i. (hd (cd_orders (rs_credit demoHoldDb)))\<lparr>co_id := i\<rparr>) [''o1'', ''o2'', ''o3'']\<rparr>,
     rs_rows := map (\<lambda>i. demoHoldRow\<lparr>hr_id := i, hr_orderId := i, hr_ownerKey := i\<rparr>) [''o3'', ''o1'', ''o2'']\<rparr>"

theorem sweep_rotation_witness:
  "sweepOrders demoSweepDb = [''o1'', ''o2'', ''o3''] \<and> ''o2'' \<in> set (concat (sweepRun 2 (Some ''o2'') [demoSweepDb, demoSweepDb]))"
proof -
  have c: "sweepOrders demoSweepDb = [''o1'', ''o2'', ''o3'']" by code_simp
  then show ?thesis using sweep_rotation[of 2 "[demoSweepDb, demoSweepDb]" "''o2''" "Some ''o2''"] by simp
qed

end
