(* ===== verification/UnpaidOrder.thy ===== *)
theory UnpaidOrder
  imports ReservationLaws StockLaws LedgerLaws CreditLaws "HOL-Library.AList"
begin

text \<open>
  Cancelling an unpaid order (orders/cancel-unpaid.ts) and reopening its cart (cart/reopen.ts). The state joins the
  tables of the components the cancellation calls: stock and order lines, the points ledger, the
  reservations with account credit and payments. An order has one row: its copies in the points and
  credit tables carry the same state. What Stripe does between the transactions of a reopen is a
  parameter.
\<close>

section \<open>Tables\<close>

datatype CartStatus = CartActive | CartAbandoned | CartConverted | CartMerged

record CartRow =
  ck_id :: string
  ck_token :: string
  ck_status :: CartStatus
  ck_convertedOrderId :: "string option"
  ck_revision :: int
  ck_updatedAt :: int
  ck_expiresAt :: "int option"

record CancelAudit =
  xa_actor :: string
  xa_orderId :: string
  xa_reason :: json
  xa_cancelSource :: "string option"

record 'p UnpaidDb =
  ud_holds :: "'p ReservationDb"
  ud_created :: "(string \<times> int) list"
  ud_lines :: "(string \<times> StoredLine) list"
  ud_stock :: "StockRow list"
  ud_loyalty :: LoyaltyDb
  ud_carts :: "CartRow list"
  ud_audit :: "CancelAudit list"

section \<open>Which orders may be cancelled\<close>

definition inFlight :: "'p ReservationDb \<Rightarrow> string \<Rightarrow> bool" where
  "inFlight h orderId \<longleftrightarrow> list_ex (\<lambda>a. at_orderId a = orderId \<and> at_status a \<in> {''processing'', ''unknown'', ''pending''}) (rs_attempts h)
     \<or> list_ex (\<lambda>p. pm_orderId p = orderId \<and> pm_state p \<in> {PaymentPending, PaymentAuthorized}) (rs_payments h)"

definition hasIntent :: "'p ReservationDb \<Rightarrow> string \<Rightarrow> bool" where
  "hasIntent h orderId \<longleftrightarrow> list_ex (\<lambda>a. at_orderId a = orderId \<and> at_operation a = ''intent'') (rs_attempts h)"

definition unpaidCancellable :: "'p UnpaidDb \<Rightarrow> string \<Rightarrow> int \<Rightarrow> bool \<Rightarrow> bool" where
  "unpaidCancellable db orderId cutoff requireDiscovery = (case orderRow (ud_holds db) orderId of
     None \<Rightarrow> False
   | Some o' \<Rightarrow>
       co_state o' = PendingPayment \<and> (case map_of (ud_created db) orderId of None \<Rightarrow> False | Some t \<Rightarrow> t < cutoff)
       \<and> \<not> importedFinancialReconciliationRequired (co_metadata o')
       \<and> \<not> list_ex (\<lambda>a. at_orderId a = orderId \<and> (at_status a \<in> {''processing'', ''unknown'', ''pending''}
             \<or> at_operation a = ''intent'' \<and> at_status a \<in> {''open'', ''failed'', ''action_required''})) (rs_attempts (ud_holds db))
       \<and> \<not> jsonFlag (jget ''hold'' (jget ''stripeDiscovery'' (co_metadata o')))
       \<and> (\<not> requireDiscovery \<or> hasIntent (ud_holds db) orderId \<or> \<not> jnullish (jget ''checkedAt'' (jget ''stripeDiscovery'' (co_metadata o'))))
       \<and> \<not> list_ex (\<lambda>p. pm_orderId p = orderId \<and> pm_state p \<in> {PaymentPending, PaymentAuthorized}) (rs_payments (ud_holds db)))"

section \<open>The cancellation\<close>

definition openOf :: "StoredLine \<Rightarrow> int" where
  "openOf l = sq_quantity l - sl_fulfilledQty l - sq_cancelledQty l"

definition orderLines :: "'p UnpaidDb \<Rightarrow> string \<Rightarrow> StoredLine list" where
  "orderLines db orderId = map snd (filter (\<lambda>(oid, _). oid = orderId) (ud_lines db))"

definition addHeld :: "StoredLine \<Rightarrow> (string \<times> int) list \<Rightarrow> (string \<times> int) list" where
  "addHeld l byVariant = (case sl_variantId l of
     Some (c # cs) \<Rightarrow> if 0 < openOf l then AList.update (c # cs) (orElse (map_of byVariant (c # cs)) 0 + openOf l) byVariant else byVariant
   | _ \<Rightarrow> byVariant)"

definition heldUnits :: "'p UnpaidDb \<Rightarrow> string \<Rightarrow> (string \<times> int) list" where
  "heldUnits db orderId = fold addHeld (orderLines db orderId) []"

definition freeStock :: "(string \<times> int) list \<Rightarrow> StockRow list \<Rightarrow> StockRow list" where
  "freeStock byVariant stock = map (\<lambda>r. case map_of byVariant (sk_variantId r) of
     None \<Rightarrow> r | Some amount \<Rightarrow> r\<lparr>sk_allocated := max (sk_allocated r - amount) 0\<rparr>) stock"

definition cancelLine :: "StoredLine \<Rightarrow> StoredLine" where
  "cancelLine l = (if 0 < openOf l then l\<lparr>sq_cancelledQty := sq_quantity l - sl_fulfilledQty l\<rparr> else l)"

definition cancelHoldsOrder :: "string \<Rightarrow> 'p ReservationDb \<Rightarrow> 'p ReservationDb" where
  "cancelHoldsOrder orderId h = h\<lparr>rs_credit := (rs_credit h)\<lparr>cd_orders := map (\<lambda>o'. if co_id o' = orderId then o'\<lparr>co_state := Cancelled\<rparr> else o') (cd_orders (rs_credit h))\<rparr>\<rparr>"

definition cancelLoyaltyOrder :: "string \<Rightarrow> LoyaltyDb \<Rightarrow> LoyaltyDb" where
  "cancelLoyaltyOrder orderId d = d\<lparr>ld_orders := map (\<lambda>o'. if od_id o' = orderId then o'\<lparr>od_state := Cancelled\<rparr> else o') (ld_orders d)\<rparr>"

record CancelUnpaidInput =
  cx_orderId :: string
  cx_actor :: string
  cx_reason :: json
  cx_cancelSource :: "string option"
  cx_stripeDiscoverable :: bool
  cx_apply :: bool

definition cancelUnpaidOrderInSet :: "'p ReservationEnv \<Rightarrow> (LoyaltyDb \<Rightarrow> string) \<Rightarrow> int \<Rightarrow> CancelUnpaidInput \<Rightarrow> 'p UnpaidDb \<Rightarrow> (int \<times> 'p UnpaidDb) res" where
  "cancelUnpaidOrderInSet env ledgerId now i db =
     (let orderId = cx_orderId i; byVariant = heldUnits db orderId; released = sum_list (map snd byVariant) in
      if \<not> cx_apply i then Inr (released, db)
      else
        (let stock = (if byVariant = [] then ud_stock db else freeStock byVariant (ud_stock db));
             lines = map (\<lambda>(oid, l). (oid, if oid = orderId then cancelLine l else l)) (ud_lines db);
             loyalty = snd (releaseOrderLoyalty ledgerId orderId None now (cancelLoyaltyOrder orderId (ud_loyalty db)))
         in bindE (releaseHold env now orderId ''order_cancelled'' (cx_stripeDiscoverable i) (cancelHoldsOrder orderId (ud_holds db))) (\<lambda>(_, holds).
              Inr (released, db\<lparr>ud_holds := holds, ud_lines := lines, ud_stock := stock, ud_loyalty := loyalty,
                ud_audit := ud_audit db @ [\<lparr>xa_actor = cx_actor i, xa_orderId = orderId, xa_reason = cx_reason i, xa_cancelSource = cx_cancelSource i\<rparr>]\<rparr>))))"

section \<open>Reopening a cart\<close>

datatype ReopenOutcome = Reopened | ReopenNotFound | ReopenPaid | ReopenInProgress

text \<open>What happens outside the transactions: the search for untracked intents (whether it holds, and the
  tables after it), the cancellation of the order's intents at Stripe, and anything other requests do
  before the order's lock set is taken.\<close>

record 'p ReopenWorld =
  rw_discover :: "string \<Rightarrow> 'p UnpaidDb \<Rightarrow> bool \<times> 'p UnpaidDb"
  rw_cancelIntents :: "string \<Rightarrow> 'p UnpaidDb \<Rightarrow> 'p UnpaidDb"
  rw_meanwhile :: "'p UnpaidDb \<Rightarrow> 'p UnpaidDb"

definition REOPEN_ACTOR :: string where
  "REOPEN_ACTOR = ''shopper:cart-reopen''"

definition reopenCart :: "int \<Rightarrow> int \<Rightarrow> string \<Rightarrow> string \<Rightarrow> 'p UnpaidDb \<Rightarrow> 'p UnpaidDb option" where
  "reopenCart now expires cartId orderId db =
     (let hit = (\<lambda>c. ck_id c = cartId \<and> ck_status c = CartConverted \<and> ck_convertedOrderId c = Some orderId) in
      if \<not> list_ex hit (ud_carts db) then None
      else Some (db\<lparr>ud_carts := map (\<lambda>c. if hit c then c\<lparr>ck_status := CartActive, ck_convertedOrderId := None, ck_revision := ck_revision c + 1,
             ck_updatedAt := now, ck_expiresAt := Some expires\<rparr> else c) (ud_carts db)\<rparr>))"

text \<open>The transaction under the order's lock set; \<open>None\<close> is the race with another tab, which rolls back.\<close>

definition reopenTx :: "'p ReservationEnv \<Rightarrow> (LoyaltyDb \<Rightarrow> string) \<Rightarrow> int \<Rightarrow> int \<Rightarrow> bool \<Rightarrow> string \<Rightarrow> string \<Rightarrow> 'p UnpaidDb \<Rightarrow> (ReopenOutcome \<times> 'p UnpaidDb) option res" where
  "reopenTx env ledgerId now expires requireDiscovery cartId orderId db = (case orderRow (ud_holds db) orderId of
     None \<Rightarrow> Inr (Some (ReopenNotFound, db))
   | Some cur \<Rightarrow>
       if co_state cur = PendingPayment then
         (if \<not> unpaidCancellable db orderId (now + 60000) requireDiscovery then Inr (Some (ReopenInProgress, db))
          else bindE (cancelUnpaidOrderInSet env ledgerId now \<lparr>cx_orderId = orderId, cx_actor = REOPEN_ACTOR, cx_reason = JObj [(''reason'', JStr ''cart_reopened'')],
                 cx_cancelSource = None, cx_stripeDiscoverable = requireDiscovery, cx_apply = True\<rparr> db) (\<lambda>(_, db1).
            Inr (map_option (\<lambda>db2. (Reopened, db2)) (reopenCart now expires cartId orderId db1))))
       else if co_state cur \<noteq> Cancelled then Inr (Some (ReopenPaid, db))
       else Inr (map_option (\<lambda>db2. (Reopened, db2)) (reopenCart now expires cartId orderId db)))"

definition reopenConvertedCart :: "'p ReservationEnv \<Rightarrow> (LoyaltyDb \<Rightarrow> string) \<Rightarrow> 'p ReopenWorld \<Rightarrow> int \<Rightarrow> int \<Rightarrow> bool \<Rightarrow> string \<Rightarrow> 'p UnpaidDb \<Rightarrow> (ReopenOutcome \<times> 'p UnpaidDb) res" where
  "reopenConvertedCart env ledgerId w now expires requireDiscovery token db = (case find (\<lambda>c. ck_token c = token) (ud_carts db) of
     None \<Rightarrow> Inr (ReopenNotFound, db)
   | Some cart \<Rightarrow>
       if ck_status cart \<in> {CartActive, CartAbandoned} then Inr (Reopened, db)
       else (case (if ck_status cart = CartConverted then Option.bind (ck_convertedOrderId cart) (orderRow (ud_holds db)) else None) of
         None \<Rightarrow> Inr (ReopenNotFound, db)
       | Some order \<Rightarrow>
           if co_state order \<notin> {PendingPayment, Cancelled} then Inr (ReopenPaid, db)
           else
             (let pending = (co_state order = PendingPayment) in
              if pending \<and> inFlight (ud_holds db) (co_id order) then Inr (ReopenInProgress, db)
              else
                (let (held, db1) = (if pending \<and> requireDiscovery \<and> \<not> hasIntent (ud_holds db) (co_id order) then rw_discover w (co_id order) db else (False, db)) in
                 if held then Inr (ReopenInProgress, db1)
                 else
                   (let db2 = rw_meanwhile w (if pending then rw_cancelIntents w (co_id order) db1 else db1) in
                    bindE (reopenTx env ledgerId now expires requireDiscovery (ck_id cart) (co_id order) db2) (\<lambda>r.
                      Inr (case r of None \<Rightarrow> (Reopened, db2) | Some out \<Rightarrow> out)))))))"

end
