(* ===== verification/UnpaidLaws.thy ===== *)
theory UnpaidLaws
  imports UnpaidOrder
begin

text \<open>
  Cancelling an unpaid order gives back exactly what it held, and a cart is reopened only over a cancelled
  order.
\<close>

section \<open>Stock and lines\<close>

lemma addHeld_value: "orElse (map_of (addHeld l m) (c # cs)) 0 = orElse (map_of m (c # cs)) 0 + (if sl_variantId l = Some (c # cs) then max 0 (openOf l) else 0)"
  by (auto simp: addHeld_def orElse_def update_conv' split: option.splits list.splits)

lemma addHeld_keys: "distinct (map fst m) \<Longrightarrow> distinct (map fst (addHeld l m))"
  by (auto simp: addHeld_def distinct_update split: option.splits list.splits)

lemma held_fold_value:
  assumes "\<forall>l\<in>set ls. 0 \<le> openOf l"
  shows "orElse (map_of (fold addHeld ls m) (c # cs)) 0 = orElse (map_of m (c # cs)) 0 + openUnits ls (c # cs)"
  using assms
proof (induction ls arbitrary: m)
  case (Cons l ls)
  then show ?case using Cons.IH[of "addHeld l m"] by (simp add: addHeld_value openUnits_def openOf_def)
qed (simp add: openUnits_def)

lemma heldUnits_value: "\<forall>l\<in>set (orderLines db orderId). 0 \<le> openOf l \<Longrightarrow> orElse (map_of (heldUnits db orderId) (c # cs)) 0 = openUnits (orderLines db orderId) (c # cs)"
  by (simp add: heldUnits_def held_fold_value orElse_def[of None])

lemma freeStock_exact:
  assumes "\<forall>l\<in>set (orderLines db orderId). 0 \<le> openOf l"
    and "\<forall>r\<in>set stock. sk_variantId r \<noteq> [] \<and> openUnits (orderLines db orderId) (sk_variantId r) \<le> sk_allocated r"
  shows "freeStock (heldUnits db orderId) stock = map (\<lambda>r. r\<lparr>sk_allocated := sk_allocated r - openUnits (orderLines db orderId) (sk_variantId r)\<rparr>) stock"
proof -
  have "(case map_of (heldUnits db orderId) (sk_variantId r) of None \<Rightarrow> r | Some amount \<Rightarrow> r\<lparr>sk_allocated := max (sk_allocated r - amount) 0\<rparr>)
      = r\<lparr>sk_allocated := sk_allocated r - openUnits (orderLines db orderId) (sk_variantId r)\<rparr>" if r: "r \<in> set stock" for r
  proof -
    obtain c cs where v: "sk_variantId r = c # cs" using assms(2) r by (cases "sk_variantId r") auto
    have "openUnits (orderLines db orderId) (c # cs) \<le> sk_allocated r" using assms(2) r v by metis
    then show ?thesis using heldUnits_value[OF assms(1), of c cs] by (auto simp: v orElse_def split: option.splits)
  qed
  then show ?thesis by (simp add: freeStock_def)
qed

lemma cancelLine_open: "0 \<le> openOf l \<Longrightarrow> openOf (cancelLine l) = 0"
  by (simp add: cancelLine_def openOf_def)

lemma orderLines_cancelled:
  "orderLines (db\<lparr>ud_lines := map (\<lambda>(oid, l). (oid, if oid = orderId then cancelLine l else l)) (ud_lines db)\<rparr>) orderId = map cancelLine (orderLines db orderId)"
  by (auto simp: orderLines_def filter_map comp_def split_beta intro!: map_cong filter_cong)

section \<open>Reservations and credit\<close>

lemma cancelHoldsOrder_row: "orderRow (cancelHoldsOrder orderId h) orderId = map_option (\<lambda>o'. o'\<lparr>co_state := Cancelled\<rparr>) (orderRow h orderId)"
proof -
  have "find (\<lambda>o'. co_id o' = orderId) (map (\<lambda>o'. if co_id o' = orderId then o'\<lparr>co_state := Cancelled\<rparr> else o') os)
      = map_option (\<lambda>o'. o'\<lparr>co_state := Cancelled\<rparr>) (find (\<lambda>o'. co_id o' = orderId) os)" for os
    by (induction os) auto
  then show ?thesis by (simp add: orderRow_def cancelHoldsOrder_def)
qed

lemma hold_unique: "\<lbrakk>distinct (heldOrders es); u \<in> set es; v \<in> set es; isHold u; isHold v; ct_orderId u = Some oid; ct_orderId v = Some oid\<rbrakk> \<Longrightarrow> u = v"
proof (induction es)
  case (Cons e es)
  have rest: "distinct (heldOrders es)" using Cons.prems(1) by (auto simp: heldOrders_def List.map_filter_simps split: option.splits if_splits)
  have "oid \<notin> set (heldOrders es)" if "e = u \<or> e = v"
    using Cons.prems that by (auto simp: heldOrders_def List.map_filter_simps)
  then show ?case using Cons rest heldOrders_mem by (metis set_ConsD)
qed simp

text \<open>A cancellation releases the credit hold of its order.\<close>

lemma release_clears:
  assumes "release gen orderId CancelledOrder c = Inr (b, c')" "creditInv c"
  shows "pendingForOrder c' orderId = None"
proof (cases "pendingForOrder c orderId")
  case (Some hold)
  then have hold: "hold \<in> set (cd_entries c)" "isHold hold" "ct_orderId hold = Some orderId" by (auto dest: pendingForOrder_facts)
  have "cd_entries c' = withStatus (ct_id hold) VOID (cd_entries c) @ [e] \<and> \<not> isHold e"
    if "releaseEntry gen hold (ct_amount hold) ''Order cancelled'' (voidHold hold c) = Inr (e, c')" for e
    using that by (auto simp: releaseEntry_def voidHold_def insertEntry_def Let_def isHold_def split: if_splits)
  then obtain e where e: "cd_entries c' = withStatus (ct_id hold) VOID (cd_entries c) @ [e]" "\<not> isHold e"
    using assms(1) Some by (auto simp: release_def)
  have "\<not> (ct_orderId t = Some orderId \<and> isHold t)" if t: "t \<in> set (withStatus (ct_id hold) VOID (cd_entries c))" for t
  proof -
    obtain u where u: "u \<in> set (cd_entries c)" "t = (if ct_id u = ct_id hold then u\<lparr>ct_status := VOID\<rparr> else u)"
      using t by (auto simp: withStatus_def)
    have "u = hold" if "ct_orderId u = Some orderId" "isHold u"
      using assms(2) u(1) hold that hold_unique[of "cd_entries c"] by (auto simp: creditInv_def balancesOk_def entriesOk_def)
    then show ?thesis using u(2) by (auto simp: isHold_def split: if_splits)
  qed
  then show ?thesis using e by (auto simp: pendingForOrder_def find_None_iff)
qed (use assms in \<open>auto simp: release_def\<close>)

lemma held_back:
  assumes "(hold_step st q)\<^sup>*\<^sup>* h h'" "h_state h' = Held"
  shows "h_state h = Held \<and> (h_requested h \<longrightarrow> h_requested h')"
  using assms
proof (induction rule: converse_rtranclp_induct)
  case (step h1 h2)
  then show ?case by (auto elim!: hold_stepE)
qed simp

lemma held_requested: "rowMoves st q r r' \<Longrightarrow> hr_state r' = Held \<Longrightarrow> hr_state r = Held \<and> (hr_releaseRequestedAt r \<noteq> None \<longrightarrow> hr_releaseRequestedAt r' \<noteq> None)"
  using held_back[of st q "absHold r" "absHold r'"] by (auto simp: rowMoves_def)

lemma projected_frame: "projected policies rows from to cause h = Inr h' \<Longrightarrow> rs_rows h' = rs_rows h \<and> rs_credit h' = rs_credit h"
  by (auto simp: projected_def split: prod.splits option.splits)

text \<open>What is left of the holds of a cancelled order once their release was asked for: requested holds, and
  none when no provider work can move money.\<close>

lemma settleRelease_clears:
  assumes run: "settleReleaseCore env now orderId sd h = Inr (rows, h')"
    and wf: "creditInv (rs_credit h)" "\<not> financiallyQuarantined h orderId" "stateFor h orderId = Some Cancelled" and q: "providerQuiescent h orderId sd"
    and req: "\<forall>r\<in>set (rs_rows h). heldOf orderId r \<longrightarrow> hr_releaseRequestedAt r \<noteq> None"
  shows "(\<forall>r\<in>set (rs_rows h'). \<not> heldOf orderId r) \<and> pendingForOrder (rs_credit h') orderId = None"
proof -
  obtain h1 where h1: "releaseCredit env orderId h = Inr h1" using run wf q by (auto simp: settleReleaseCore_def orderState_stateFor[symmetric])
  then obtain c' where rel: "release (re_creditId env) orderId CancelledOrder (rs_credit h) = Inr c'" and h1': "h1 = h\<lparr>rs_credit := snd c'\<rparr>"
    by (auto simp: releaseCredit_def)
  have clear: "pendingForOrder (rs_credit h1) orderId = None" using release_clears[of _ orderId "rs_credit h" "fst c'" "snd c'"] rel wf(1) h1' by simp
  have q1: "providerQuiescent h1 orderId sd" using q moves_frame(2)[of sd h h1] releaseCredit_moves[OF h1, of sd] by simp
  let ?pending = "map hr_id (filter (requestedOf orderId) (rs_rows h1))"
  obtain released h2 where u: "updateReturning (\<lambda>r. hr_id r \<in> set ?pending) (markReleased now) h1 = (released, h2)" by fastforce
  have held: "hr_id r \<in> set ?pending" if "r \<in> set (rs_rows h1)" "heldOf orderId r" for r
    using that req h1' by (auto simp: requestedOf_def)
  show ?thesis
  proof (cases "?pending = []")
    case True
    then have "h' = h1" using run wf q h1 by (auto simp: settleReleaseCore_def orderState_stateFor[symmetric] Let_def)
    then show ?thesis using clear held True by auto
  next
    case False
    then have p: "\<exists>cause. projected (re_policies env) released (Some Held) Released cause h2 = Inr h'"
      using run wf q h1 q1 u by (auto simp: settleReleaseCore_def orderState_stateFor[symmetric] Let_def)
    have h2: "rs_rows h2 = map (\<lambda>r. if hr_id r \<in> set ?pending then markReleased now r else r) (rs_rows h1)" "rs_credit h2 = rs_credit h1"
      using u by (auto simp: updateReturning_def)
    have "rs_rows h' = rs_rows h2" "rs_credit h' = rs_credit h2" using p projected_frame by blast+
    moreover have "\<forall>r\<in>set (rs_rows h2). \<not> heldOf orderId r"
      unfolding h2 using held by (auto simp: heldOf_def markReleased_def)
    ultimately show ?thesis using clear h2(2) by simp
  qed
qed

lemma releaseHold_clears:
  assumes run: "releaseHold env now orderId reason sd h = Inr (res, h')" and wf: "creditInv (rs_credit h)" "distinct (map hr_id (rs_rows h))" "stateFor h orderId = Some Cancelled"
  shows "stateFor h' orderId = Some Cancelled \<and> (\<forall>r\<in>set (rs_rows h'). heldOf orderId r \<longrightarrow> hr_releaseRequestedAt r \<noteq> None)
    \<and> (providerQuiescent h' orderId sd \<longrightarrow> (\<forall>r\<in>set (rs_rows h'). \<not> heldOf orderId r) \<and> pendingForOrder (rs_credit h') orderId = None)"
proof -
  obtain rows h1 rows2 where 1: "requestRelease now orderId reason h = Inr (rows, h1)" and 2: "settleReleaseCore env now orderId sd h1 = Inr (rows2, h')"
    using run by (auto simp: releaseHold_def settleRelease_def)
  have h1: "h1 = h\<lparr>rs_rows := map (\<lambda>r. if heldOf orderId r then markRequested now reason r else r) (rs_rows h)\<rparr>" and nq: "\<not> financiallyQuarantined h orderId"
    using 1 by (auto simp: requestRelease_def updateReturning_def assertFinancialEffectsAllowed_def)
  note m1 = requestRelease_moves[OF 1, of sd]
  have ids: "distinct (map hr_id (rs_rows h1))" using wf(2) by (simp add: moves_ids[OF m1])
  note m2 = settleReleaseCore_moves[OF 2 ids]
  have req: "\<forall>r\<in>set (rs_rows h1). heldOf orderId r \<longrightarrow> hr_releaseRequestedAt r \<noteq> None"
    unfolding h1 by (auto simp: markRequested_def)
  have "\<not> financiallyQuarantined h1 orderId" using nq by (simp add: financiallyQuarantined_def moves_frame[OF m1])
  moreover have "stateFor h1 orderId = Some Cancelled" using wf(3) by (simp add: moves_frame[OF m1])
  moreover have "creditInv (rs_credit h1)" using wf(1) h1 by simp
  ultimately have "(\<forall>r\<in>set (rs_rows h'). \<not> heldOf orderId r) \<and> pendingForOrder (rs_credit h') orderId = None" if "providerQuiescent h' orderId sd"
    using settleRelease_clears[OF 2 _ _ _ _ req] that by (simp add: moves_frame[OF m2])
  moreover have "hr_releaseRequestedAt r' \<noteq> None" if r': "r' \<in> set (rs_rows h')" "heldOf orderId r'" for r'
  proof -
    obtain k where k: "k < length (rs_rows h')" "r' = rs_rows h' ! k" using r'(1) by (metis in_set_conv_nth)
    let ?r = "rs_rows h1 ! k"
    have r: "?r \<in> set (rs_rows h1)" "rowMoves (stateFor h1 (hr_orderId ?r)) (providerQuiescent h1 (hr_orderId ?r) sd) ?r r'"
      using m2 k by (auto simp: moves_def list_all2_conv_all_nth)
    show ?thesis using held_requested[OF r(2)] req r(1) r'(2) rowMoves_order[OF r(2)] by (auto simp: heldOf_def)
  qed
  ultimately show ?thesis using wf(3) by (simp add: moves_frame[OF m1] moves_frame[OF m2])
qed

section \<open>The cancellation\<close>

text \<open>C21: cancelling an unpaid order gives back what it held. For an order that may be cancelled, with
  consistent lines, stock and tables, the cancellation leaves the order cancelled with no unit to
  ship, every stock row less exactly the order's open units of its variant, every reservation still
  held marked for release, and, when no provider work can move money, no reservation held and no
  account credit withheld.\<close>

theorem unpaid_cancel_returns:
  assumes run: "cancelUnpaidOrderInSet env ledgerId now i db = Inr (released, db')" and "cx_apply i"
    and may: "unpaidCancellable db (cx_orderId i) cutoff requireDiscovery"
    and lines: "\<forall>l\<in>set (orderLines db (cx_orderId i)). 0 \<le> openOf l"
    and stock: "\<forall>r\<in>set (ud_stock db). sk_variantId r \<noteq> [] \<and> openUnits (orderLines db (cx_orderId i)) (sk_variantId r) \<le> sk_allocated r"
    and tables: "wellHeld (rs_rows (ud_holds db))" "creditInv (rs_credit (ud_holds db))"
  shows "stateFor (ud_holds db') (cx_orderId i) = Some Cancelled \<and> (\<forall>l\<in>set (orderLines db' (cx_orderId i)). openOf l = 0)
    \<and> ud_stock db' = map (\<lambda>r. r\<lparr>sk_allocated := sk_allocated r - openUnits (orderLines db (cx_orderId i)) (sk_variantId r)\<rparr>) (ud_stock db)
    \<and> (\<forall>r\<in>set (rs_rows (ud_holds db')). heldOf (cx_orderId i) r \<longrightarrow> hr_releaseRequestedAt r \<noteq> None)
    \<and> (providerQuiescent (ud_holds db') (cx_orderId i) (cx_stripeDiscoverable i) \<longrightarrow>
         (\<forall>r\<in>set (rs_rows (ud_holds db')). \<not> heldOf (cx_orderId i) r) \<and> pendingForOrder (rs_credit (ud_holds db')) (cx_orderId i) = None)"
proof -
  let ?oid = "cx_orderId i" and ?h = "cancelHoldsOrder (cx_orderId i) (ud_holds db)"
  obtain res where rel: "releaseHold env now ?oid ''order_cancelled'' (cx_stripeDiscoverable i) ?h = Inr (res, ud_holds db')"
    using run assms(2) by (auto simp: cancelUnpaidOrderInSet_def Let_def)
  have db': "ud_lines db' = map (\<lambda>(oid, l). (oid, if oid = ?oid then cancelLine l else l)) (ud_lines db)"
    "ud_stock db' = (if heldUnits db ?oid = [] then ud_stock db else freeStock (heldUnits db ?oid) (ud_stock db))"
    using run assms(2) by (auto simp: cancelUnpaidOrderInSet_def Let_def)
  have "orderLines db' ?oid = map cancelLine (orderLines db ?oid)"
    using orderLines_cancelled[of ?oid db] db'(1) by (simp add: orderLines_def)
  then have "\<forall>l\<in>set (orderLines db' ?oid). openOf l = 0" using lines cancelLine_open by auto
  moreover have "freeStock [] (ud_stock db) = ud_stock db" by (simp add: freeStock_def)
  then have "ud_stock db' = map (\<lambda>r. r\<lparr>sk_allocated := sk_allocated r - openUnits (orderLines db ?oid) (sk_variantId r)\<rparr>) (ud_stock db)"
    using freeStock_exact[OF lines stock] db'(2) by (auto split: if_splits)
  moreover have "stateFor ?h ?oid = Some Cancelled"
    using may by (auto simp: stateFor_def cancelHoldsOrder_row unpaidCancellable_def split: option.splits)
  moreover have "creditInv (rs_credit ?h)" "distinct (map hr_id (rs_rows ?h))"
    using tables by (simp_all add: cancelHoldsOrder_def creditInv_def wellHeld_def)
  ultimately show ?thesis using releaseHold_clears[OF rel] by simp
qed

section \<open>Example\<close>

text \<open>An order of two units of variant v, one hold on a device, and a failed Sezzle attempt whose
  authorization is not known to be released.\<close>

definition demoUnpaidOrder :: CreditOrder where
  "demoUnpaidOrder = \<lparr>co_id = ''o1'', co_state = PendingPayment, co_currency = ''USD'', co_promotionId = None, co_grandTotal = 100, co_metadata = None, co_lines = [], co_settled = False\<rparr>"

definition demoUnpaidLine :: StoredLine where
  "demoUnpaidLine = \<lparr>sq_quantity = 2, sq_cancelledQty = 0, sq_editRemovedQty = 0, sl_id = ''l1'', sl_variantId = Some ''v'', sl_sku = ''S'', sl_name = ''N'', sl_unitPrice = 50,
     sl_fulfilledQty = 0, sl_refundedQty = 0, sl_lineSubtotal = 100, sl_lineDiscount = 0, sl_lineTax = 0, sl_lineTotal = 100\<rparr>"

definition demoUnpaidDb :: "PaymentAttemptRow list \<Rightarrow> unit UnpaidDb" where
  "demoUnpaidDb attempts = \<lparr>ud_holds = \<lparr>rs_storeId = ''s'', rs_credit = \<lparr>cd_storeCurrency = None, cd_accounts = [], cd_entries = [], cd_promotions = [], cd_orders = [demoUnpaidOrder]\<rparr>,
       rs_rows = [demoHoldRow\<lparr>hr_releaseRequestedAt := None, hr_releaseReason := None\<rparr>], rs_attempts = attempts, rs_payments = [], rs_audit = [], rs_policy = ()\<rparr>,
     ud_created = [(''o1'', 1)], ud_lines = [(''o1'', demoUnpaidLine)], ud_stock = [\<lparr>sk_variantId = ''v'', sk_onHand = 9, sk_allocated = 5\<rparr>],
     ud_loyalty = exampleDb, ud_carts = [], ud_audit = []\<rparr>"

definition demoCancel :: CancelUnpaidInput where
  "demoCancel = \<lparr>cx_orderId = ''o1'', cx_actor = ''system'', cx_reason = JObj [], cx_cancelSource = None, cx_stripeDiscoverable = False, cx_apply = True\<rparr>"

lemmas demo_unpaid = demoUnpaidDb_def demoUnpaidOrder_def demoUnpaidLine_def demoCancel_def demoHoldRow_def demoHoldEnv_def

lemma demo_cancellable: "unpaidCancellable (demoUnpaidDb []) ''o1'' 5 False"
  by (simp add: unpaidCancellable_def demo_unpaid orderRow_def importedFinancialReconciliationRequired_def jsonFlag_def)

lemma demo_cancel_runs:
  "\<exists>released db'. cancelUnpaidOrderInSet demoHoldEnv longId 3 demoCancel (demoUnpaidDb []) = Inr (released, db')"
  by (simp add: cancelUnpaidOrderInSet_def Let_def demo_unpaid releaseHold_def requestRelease_def assertFinancialEffectsAllowed_def settleRelease_def settleReleaseCore_def
      financiallyQuarantined_def orderRow_def orderState_def importedFinancialReconciliationRequired_def providerQuiescent_def releaseCredit_def release_def lockOrder_def
      pendingForOrder_def requestedOf_def heldOf_def updateReturning_def projected_def markRequested_def cancelHoldsOrder_def)

theorem unpaid_cancel_returns_witness:
  "\<exists>released db'. cancelUnpaidOrderInSet demoHoldEnv longId 3 demoCancel (demoUnpaidDb []) = Inr (released, db')
     \<and> ud_stock db' = [\<lparr>sk_variantId = ''v'', sk_onHand = 9, sk_allocated = 3\<rparr>] \<and> stateFor (ud_holds db') ''o1'' = Some Cancelled"
proof -
  obtain released db' where run: "cancelUnpaidOrderInSet demoHoldEnv longId 3 demoCancel (demoUnpaidDb []) = Inr (released, db')" using demo_cancel_runs by blast
  have oid: "cx_orderId demoCancel = ''o1''" and ap: "cx_apply demoCancel" by (simp_all add: demoCancel_def)
  have l: "orderLines (demoUnpaidDb []) ''o1'' = [demoUnpaidLine]" by (simp add: orderLines_def demoUnpaidDb_def)
  have st: "ud_stock (demoUnpaidDb []) = [\<lparr>sk_variantId = ''v'', sk_onHand = 9, sk_allocated = 5\<rparr>]" by (simp add: demoUnpaidDb_def)
  have open2: "openOf demoUnpaidLine = 2" "openUnits [demoUnpaidLine] ''v'' = 2" by (simp_all add: openOf_def openUnits_def demoUnpaidLine_def)
  have w: "wellHeld (rs_rows (ud_holds (demoUnpaidDb [])))" by (simp add: wellHeld_def demo_unpaid rowShape_def)
  have c: "creditInv (rs_credit (ud_holds (demoUnpaidDb [])))"
    by (simp add: demoUnpaidDb_def creditInv_def balancesOk_def entriesOk_def balancesOf_def heldOrders_def List.map_filter_def)
  have "stateFor (ud_holds db') ''o1'' = Some Cancelled \<and> ud_stock db' = map (\<lambda>r. r\<lparr>sk_allocated := sk_allocated r - openUnits [demoUnpaidLine] (sk_variantId r)\<rparr>) (ud_stock (demoUnpaidDb []))"
    using unpaid_cancel_returns[OF run ap _ _ _ w c, unfolded oid l, OF demo_cancellable] by (simp add: st open2)
  then show ?thesis using run by (simp add: st open2)
qed

text \<open>The rule for cancelling does not exclude every attempt that may still move money: after a failed Sezzle
  attempt the order may be cancelled while its hold has to wait for the authorization's release.\<close>

lemma cancellable_not_quiescent:
  "\<exists>attempts. unpaidCancellable (demoUnpaidDb attempts) ''o1'' 5 False \<and> \<not> providerQuiescent (cancelHoldsOrder ''o1'' (ud_holds (demoUnpaidDb attempts))) ''o1'' False"
  by (rule exI[of _ "[\<lparr>at_orderId = ''o1'', at_operation = ''checkout'', at_method = ''sezzle'', at_status = ''failed'', at_context = None\<rparr>]"])
    (simp add: unpaidCancellable_def demo_unpaid orderRow_def importedFinancialReconciliationRequired_def jsonFlag_def providerQuiescent_def openAttempt_def cancelHoldsOrder_def)

section \<open>Reopening\<close>

lemma reopenCart_facts:
  assumes "reopenCart now expires cartId orderId db1 = Some db2"
  shows "ud_holds db2 = ud_holds db1 \<and> (\<exists>c\<in>set (ud_carts db2). ck_id c = cartId \<and> ck_status c = CartActive \<and> ck_convertedOrderId c = None)"
proof -
  let ?hit = "\<lambda>c. ck_id c = cartId \<and> ck_status c = CartConverted \<and> ck_convertedOrderId c = Some orderId"
  let ?open = "\<lambda>c. c\<lparr>ck_status := CartActive, ck_convertedOrderId := None, ck_revision := ck_revision c + 1, ck_updatedAt := now, ck_expiresAt := Some expires\<rparr>"
  obtain c where c: "c \<in> set (ud_carts db1)" "?hit c" and db2: "db2 = db1\<lparr>ud_carts := map (\<lambda>c. if ?hit c then ?open c else c) (ud_carts db1)\<rparr>"
    using assms by (auto simp: reopenCart_def Let_def list_ex_iff split: if_splits)
  have "?open c \<in> set (ud_carts db2)" using c unfolding db2 by (auto intro!: image_eqI[of _ _ c])
  then show ?thesis using c db2 by (intro conjI bexI[of _ "?open c"]) simp_all
qed

text \<open>A reopen transaction that succeeds found the order cancelled, or cancellable with no payment in flight,
  and leaves it cancelled and the cart active and detached; any other answer changes nothing.\<close>

lemma reopenTx_safe:
  assumes run: "reopenTx env ledgerId now expires requireDiscovery cartId orderId db = Inr (Some (out, db'))"
    and tables: "wellHeld (rs_rows (ud_holds db))" "creditInv (rs_credit (ud_holds db))"
  shows "if out = Reopened
    then stateFor (ud_holds db') orderId = Some Cancelled \<and> (stateFor (ud_holds db) orderId = Some Cancelled \<or> \<not> inFlight (ud_holds db) orderId)
      \<and> (\<exists>c\<in>set (ud_carts db'). ck_id c = cartId \<and> ck_status c = CartActive \<and> ck_convertedOrderId c = None)
    else db' = db"
proof -
  note cart = reopenCart_facts[of now expires cartId orderId]
  show ?thesis
  proof (cases "orderRow (ud_holds db) orderId")
    case None
    then show ?thesis using run by (auto simp: reopenTx_def)
  next
    case (Some cur)
    show ?thesis
    proof (cases "co_state cur = PendingPayment \<and> unpaidCancellable db orderId (now + 60000) requireDiscovery")
      case True
      let ?i = "\<lparr>cx_orderId = orderId, cx_actor = REOPEN_ACTOR, cx_reason = JObj [(''reason'', JStr ''cart_reopened'')], cx_cancelSource = None, cx_stripeDiscoverable = requireDiscovery, cx_apply = True\<rparr>"
      obtain released db1 where c: "cancelUnpaidOrderInSet env ledgerId now ?i db = Inr (released, db1)" and re: "reopenCart now expires cartId orderId db1 = Some db'" and out: "out = Reopened"
        using run Some True by (auto simp: reopenTx_def)
      obtain res where rel: "releaseHold env now orderId ''order_cancelled'' requireDiscovery (cancelHoldsOrder orderId (ud_holds db)) = Inr (res, ud_holds db1)"
        using c by (auto simp: cancelUnpaidOrderInSet_def Let_def)
      have "stateFor (ud_holds db1) orderId = Some Cancelled"
        using releaseHold_clears[OF rel] tables Some by (simp add: stateFor_def cancelHoldsOrder_row) (simp add: cancelHoldsOrder_def creditInv_def wellHeld_def)
      moreover have "\<not> inFlight (ud_holds db) orderId"
        using True Some by (auto simp: unpaidCancellable_def inFlight_def list_ex_iff)
      ultimately show ?thesis using cart[OF re] out by simp
    next
      case False
      then show ?thesis using run Some cart by (auto simp: reopenTx_def stateFor_def split: if_splits)
    qed
  qed
qed

end
