(* ===== verification/EffectQueue.thy ===== *)
theory EffectQueue
  imports JsText "HOL-Library.Char_ord" "HOL-Library.List_Lexorder"
begin

text \<open>
  The pending-effects engine (payments/settlement/effects.ts), the table of settlement operations it serves
  (payments/settlement/ops.ts, db/schema-effects.ts) and the human approval of a held issuance
  (payments/settlement/issuance-approval.ts). One store. A registered handler is a parameter: it reads every
  table, writes its own tables (type \<open>'w\<close>) and calls the functions this module exports for the effect and
  operation tables; an external handler also calls its provider (type \<open>'x\<close>). Times are milliseconds, \<open>now\<close>
  is the time of the transaction, and the random claim tokens are an argument.
\<close>

section \<open>Operations and effects\<close>

definition SETTLEMENT_KINDS :: "string list" where
  "SETTLEMENT_KINDS = [''stripe_invoice_paid'', ''payment_settled'', ''payment_state_progress'', ''order_paid_transition'',
     ''admin_draft_create'', ''order_edit_balance_settled'', ''duplicate_capture_recorded'', ''historical_import'',
     ''synthetic_seed'', ''payment_mode_corrected'', ''order_purge'', ''operator_resolution'', ''order_refunded'', ''dispute_opened'']"

definition EFFECT_KINDS :: "string list" where
  "EFFECT_KINDS = [''license_issue'', ''license_extend'', ''edit_reconcile'', ''loyalty_earn'', ''notification'',
     ''entitlement_reversal'', ''admin_review'']"

definition MONOTONE_KINDS :: "string list" where
  "MONOTONE_KINDS = [''payment_state_progress'', ''payment_mode_corrected'']"

datatype MutationType = PaymentInsertType | PaymentStateType | PaymentGatewayIdentityType
  | OrderPaidType | OrderInsertType | InvoicePaymentRecordType | OrderPurgeType

record OperationPolicy =
  pol_mutations :: "MutationType list"
  pol_effects :: "string list"

definition OPERATION_POLICY :: "(string \<times> OperationPolicy) list" where
  "OPERATION_POLICY =
    [(''stripe_invoice_paid'', \<lparr>pol_mutations = [PaymentInsertType, OrderPaidType, InvoicePaymentRecordType],
       pol_effects = [''license_issue'', ''loyalty_earn'', ''notification'', ''license_extend'', ''edit_reconcile'', ''admin_review'']\<rparr>),
     (''payment_settled'', \<lparr>pol_mutations = [PaymentInsertType, PaymentStateType], pol_effects = [''edit_reconcile'', ''loyalty_earn'']\<rparr>),
     (''payment_state_progress'', \<lparr>pol_mutations = [PaymentInsertType, PaymentStateType, PaymentGatewayIdentityType], pol_effects = []\<rparr>),
     (''order_paid_transition'', \<lparr>pol_mutations = [OrderPaidType, OrderInsertType, PaymentInsertType],
       pol_effects = [''license_issue'', ''loyalty_earn'', ''notification'']\<rparr>),
     (''admin_draft_create'', \<lparr>pol_mutations = [OrderInsertType], pol_effects = []\<rparr>),
     (''order_edit_balance_settled'', \<lparr>pol_mutations = [PaymentInsertType, PaymentStateType], pol_effects = [''edit_reconcile'', ''loyalty_earn'']\<rparr>),
     (''duplicate_capture_recorded'', \<lparr>pol_mutations = [PaymentInsertType], pol_effects = [''notification'']\<rparr>),
     (''historical_import'', \<lparr>pol_mutations = [PaymentInsertType, OrderInsertType], pol_effects = []\<rparr>),
     (''synthetic_seed'', \<lparr>pol_mutations = [OrderInsertType], pol_effects = []\<rparr>),
     (''payment_mode_corrected'', \<lparr>pol_mutations = [PaymentGatewayIdentityType], pol_effects = []\<rparr>),
     (''order_purge'', \<lparr>pol_mutations = [OrderPurgeType], pol_effects = []\<rparr>),
     (''order_refunded'', \<lparr>pol_mutations = [], pol_effects = [''entitlement_reversal'']\<rparr>),
     (''dispute_opened'', \<lparr>pol_mutations = [], pol_effects = [''entitlement_reversal'']\<rparr>),
     (''operator_resolution'', \<lparr>pol_mutations = [InvoicePaymentRecordType, PaymentInsertType, OrderPaidType],
       pol_effects = [''license_issue'', ''license_extend'', ''loyalty_earn'', ''notification'', ''edit_reconcile'']\<rparr>)]"

datatype InvoiceClassification = FirstCycle | Renewal | Adjustment | Unresolved

fun INVOICE_AUTHORIZED_EFFECTS :: "InvoiceClassification \<Rightarrow> string list" where
  "INVOICE_AUTHORIZED_EFFECTS FirstCycle = [''license_issue'', ''loyalty_earn'', ''notification'', ''edit_reconcile'', ''admin_review'']"
| "INVOICE_AUTHORIZED_EFFECTS Renewal = [''license_extend'', ''admin_review'']"
| "INVOICE_AUTHORIZED_EFFECTS Adjustment = [''admin_review'']"
| "INVOICE_AUTHORIZED_EFFECTS Unresolved = [''admin_review'']"

text \<open>\<open>indexOf\<close>: the length when the element is missing.\<close>

primrec indexIn :: "'a list \<Rightarrow> 'a \<Rightarrow> nat" where
  "indexIn [] x = 0"
| "indexIn (y # ys) x = (if y = x then 0 else Suc (indexIn ys x))"

definition effectRank :: "string \<Rightarrow> nat" where
  "effectRank kind = indexIn EFFECT_KINDS kind"

section \<open>Tables\<close>

datatype EffectStatus = EffectPending | EffectProcessing | EffectDone | EffectTerminal

record EffectRow =
  ef_id :: string
  ef_operationKind :: string
  ef_operationId :: string
  ef_effectKind :: string
  ef_payloadVersion :: int
  ef_payload :: "(string \<times> json) list"
  ef_status :: EffectStatus
  ef_claimToken :: "string option"
  ef_claimedAt :: "int option"
  ef_attempts :: int
  ef_nextAttemptAt :: int
  ef_firstFailedAt :: "int option"
  ef_lastError :: "string option"
  ef_result :: "json option"
  ef_resolution :: "json option"
  ef_resolvedBy :: "string option"
  ef_createdAt :: int
  ef_updatedAt :: int

record OperationRow =
  so_id :: string
  so_operationKind :: string
  so_operationId :: string
  so_classification :: "InvoiceClassification option"
  so_authorizedEffects :: "string list"
  so_disposition :: "string option"
  so_paymentId :: "string option"
  so_orderId :: "string option"
  so_licenseId :: "string option"
  so_invoicePaymentId :: "string option"
  so_paymentIntent :: "string option"
  so_providerAccount :: "string option"
  so_providerMode :: "string option"
  so_targetKind :: "string option"
  so_targetId :: "string option"
  so_actor :: "string option"
  so_reason :: "string option"
  so_snapshot :: "json option"

record EffectAudit =
  fa_actor :: string
  fa_entity :: string
  fa_entityId :: string
  fa_action :: string
  fa_data :: json

record WebhookEndpoint =
  we_id :: string
  we_enabled :: bool
  we_topics :: "string list"

record WebhookDelivery =
  wd_endpointId :: string
  wd_topic :: string
  wd_payload :: json

record 'w EffectDb =
  eq_effects :: "EffectRow list"
  eq_operations :: "OperationRow list"
  eq_receipts :: "(string \<times> string) list"
  eq_audit :: "EffectAudit list"
  eq_endpoints :: "WebhookEndpoint list"
  eq_deliveries :: "WebhookDelivery list"
  eq_world :: 'w

section \<open>Handlers\<close>

record EffectRequest =
  eq_kind :: string
  eq_payloadVersion :: "int option"
  eq_payload :: "(string \<times> json) list option"
  eq_resolution :: "json option"

record EffectRetry =
  er_reason :: string
  er_delayMs :: "int option"
  er_horizonMs :: "int option"

datatype EffectOutcome = OutcomeVoid | OutcomeDone json | OutcomeRetry EffectRetry | OutcomeTerminal string

datatype ProcessResult = ResultDone | ResultRetry | ResultTerminal | ResultStale

text \<open>What a handler may do to the tables of this module: close its review tasks, persist a licence.\<close>

datatype EngineCall = ResolveReviews json | RecordLicense string string string

datatype ('w, 'x) EffectHandler =
    LocalHandler "EffectRow \<Rightarrow> 'w EffectDb \<Rightarrow> (EffectOutcome \<times> EngineCall list \<times> 'w) res"
  | ExternalHandler "EffectRow \<Rightarrow> string \<Rightarrow> 'x \<Rightarrow> string res \<times> 'x"
      "(EffectRow \<Rightarrow> string \<Rightarrow> 'w EffectDb \<Rightarrow> (EngineCall list \<times> 'w) res) option"

record ('w, 'x) EngineEnv =
  ee_newId :: "EffectRow list \<Rightarrow> string"
  ee_String :: "json \<Rightarrow> string"
  ee_handlers :: "string \<Rightarrow> ('w, 'x) EffectHandler option"

definition registerEffectHandler :: "string \<Rightarrow> ('w, 'x) EffectHandler \<Rightarrow> (string \<Rightarrow> ('w, 'x) EffectHandler option) \<Rightarrow> string \<Rightarrow> ('w, 'x) EffectHandler option" where
  "registerEffectHandler kind handler handlers = handlers(kind \<mapsto> handler)"

definition unregisterEffectHandler :: "string \<Rightarrow> (string \<Rightarrow> ('w, 'x) EffectHandler option) \<Rightarrow> string \<Rightarrow> ('w, 'x) EffectHandler option" where
  "unregisterEffectHandler kind handlers = handlers(kind := None)"

definition isExternalEffectKind :: "(string \<Rightarrow> ('w, 'x) EffectHandler option) \<Rightarrow> string \<Rightarrow> bool" where
  "isExternalEffectKind handlers kind = (case handlers kind of Some (ExternalHandler _ _) \<Rightarrow> True | _ \<Rightarrow> False)"

definition STALE_CLAIM_MS :: int where
  "STALE_CLAIM_MS = 5 * 60000"

definition MAX_ATTEMPTS :: int where
  "MAX_ATTEMPTS = 8"

definition backoffSeconds :: "int \<Rightarrow> int" where
  "backoffSeconds attempts = min (2 ^ nat (max attempts 1) * 30) 3600"

definition fenced :: "string \<Rightarrow> js_error" where
  "fenced effectId = Coded ''EffectFencedError'' (''effect '' @ effectId @ '' claim was lost (fenced)'')"

fun isFenced :: "js_error \<Rightarrow> bool" where
  "isFenced (Coded code _) = (code = ''EffectFencedError'')"
| "isFenced (Err _) = False"

fun errText :: "js_error \<Rightarrow> string" where
  "errText (Err msg) = take 2000 msg"
| "errText (Coded _ msg) = take 2000 msg"

section \<open>Announcing a terminal effect\<close>

definition emitEvent :: "string \<Rightarrow> json \<Rightarrow> 'w EffectDb \<Rightarrow> 'w EffectDb" where
  "emitEvent topic payload db = db\<lparr>eq_deliveries := eq_deliveries db @
     map (\<lambda>e. \<lparr>wd_endpointId = we_id e, wd_topic = topic, wd_payload = payload\<rparr>)
       (filter (\<lambda>e. we_enabled e \<and> (''*'' \<in> set (we_topics e) \<or> topic \<in> set (we_topics e))) (eq_endpoints db))\<rparr>"

definition textOrNull :: "string option \<Rightarrow> json" where
  "textOrNull t = (case t of None \<Rightarrow> JNull | Some v \<Rightarrow> JStr v)"

definition announceTerminal :: "EffectRow \<Rightarrow> 'w EffectDb \<Rightarrow> 'w EffectDb" where
  "announceTerminal row db = emitEvent ''effect.terminal''
     (JObj [(''id'', JStr (ef_id row)), (''operationKind'', JStr (ef_operationKind row)), (''operationId'', JStr (ef_operationId row)),
       (''effectKind'', JStr (ef_effectKind row)), (''reason'', textOrNull (ef_lastError row))])
     (db\<lparr>eq_audit := eq_audit db @ [\<lparr>fa_actor = ''system:pending-effects'', fa_entity = ''order_pending_effect'', fa_entityId = ef_id row,
        fa_action = ''effect_terminal'', fa_data = JObj [(''needsReconciliation'', JBool True), (''operationKind'', JStr (ef_operationKind row)),
          (''operationId'', JStr (ef_operationId row)), (''effectKind'', JStr (ef_effectKind row)), (''attempts'', JNum (of_int (ef_attempts row))),
          (''reason'', textOrNull (ef_lastError row))]\<rparr>]\<rparr>)"

section \<open>Recording the effects of an operation\<close>

definition sameEffect :: "string \<Rightarrow> string \<Rightarrow> string \<Rightarrow> EffectRow \<Rightarrow> bool" where
  "sameEffect opKind opId kind r \<longleftrightarrow> ef_operationKind r = opKind \<and> ef_operationId r = opId \<and> ef_effectKind r = kind"

definition reviewText :: "('w, 'x) EngineEnv \<Rightarrow> (string \<times> json) list option \<Rightarrow> string" where
  "reviewText env payload = (case Option.bind payload (\<lambda>p. map_of p ''reason'') of
     None \<Rightarrow> ''held for review'' | Some JNull \<Rightarrow> ''held for review'' | Some (JStr t) \<Rightarrow> t | Some v \<Rightarrow> ee_String env v)"

definition newEffect :: "('w, 'x) EngineEnv \<Rightarrow> int \<Rightarrow> string \<Rightarrow> string \<Rightarrow> string \<Rightarrow> EffectRequest \<Rightarrow> EffectRow" where
  "newEffect env now rowId opKind opId req = (let review = (eq_kind req = ''admin_review'') in
     \<lparr>ef_id = rowId, ef_operationKind = opKind, ef_operationId = opId, ef_effectKind = eq_kind req,
      ef_payloadVersion = orElse (eq_payloadVersion req) 1, ef_payload = orElse (eq_payload req) [],
      ef_status = (if review then EffectTerminal else EffectPending), ef_claimToken = None, ef_claimedAt = None,
      ef_attempts = 0, ef_nextAttemptAt = now, ef_firstFailedAt = (if review then Some now else None),
      ef_lastError = (if review then Some (reviewText env (eq_payload req)) else None), ef_result = None,
      ef_resolution = eq_resolution req, ef_resolvedBy = None, ef_createdAt = now, ef_updatedAt = now\<rparr>)"

definition enqueueOne :: "('w, 'x) EngineEnv \<Rightarrow> int \<Rightarrow> string \<Rightarrow> string \<Rightarrow> EffectRequest \<Rightarrow> 'w EffectDb \<Rightarrow> (EffectRow option \<times> 'w EffectDb) res" where
  "enqueueOne env now opKind opId req db = (let rowId = ee_newId env (eq_effects db) in
     if list_ex (sameEffect opKind opId (eq_kind req)) (eq_effects db) then Inr (None, db)
     else if list_ex (\<lambda>r. ef_id r = rowId) (eq_effects db) then Inl (Err ''duplicate key value violates unique constraint'')
     else if \<not> list_ex (\<lambda>o'. so_operationKind o' = opKind \<and> so_operationId o' = opId) (eq_operations db) then Inl (Err ''insert violates foreign key constraint'')
     else (let row = newEffect env now rowId opKind opId req; db1 = db\<lparr>eq_effects := eq_effects db @ [row]\<rparr> in
       Inr (Some row, if eq_kind req = ''admin_review'' then announceTerminal row db1 else db1)))"

primrec enqueueEffects :: "('w, 'x) EngineEnv \<Rightarrow> int \<Rightarrow> string \<Rightarrow> string \<Rightarrow> EffectRequest list \<Rightarrow> 'w EffectDb \<Rightarrow> (EffectRow list \<times> 'w EffectDb) res" where
  "enqueueEffects env now opKind opId [] db = Inr ([], db)"
| "enqueueEffects env now opKind opId (req # reqs) db =
     bindE (enqueueOne env now opKind opId req db) (\<lambda>(row, db1).
     bindE (enqueueEffects env now opKind opId reqs db1) (\<lambda>(rows, db2).
       Inr (case row of None \<Rightarrow> rows | Some r \<Rightarrow> r # rows, db2)))"

section \<open>Finishing a claimed effect\<close>

text \<open>The fence: a write reaches the row only while it is \<open>processing\<close> under the claimant's token.\<close>

definition claimHolds :: "EffectRow \<Rightarrow> EffectRow \<Rightarrow> bool" where
  "claimHolds row r \<longleftrightarrow> ef_id r = ef_id row \<and> ef_claimToken row \<noteq> None \<and> ef_claimToken r = ef_claimToken row \<and> ef_status r = EffectProcessing"

definition updateEffects :: "(EffectRow \<Rightarrow> bool) \<Rightarrow> (EffectRow \<Rightarrow> EffectRow) \<Rightarrow> 'w EffectDb \<Rightarrow> EffectRow list \<times> 'w EffectDb" where
  "updateEffects P f db = (map f (filter P (eq_effects db)), db\<lparr>eq_effects := map (\<lambda>r. if P r then f r else r) (eq_effects db)\<rparr>)"

definition fencedUpdate :: "EffectRow \<Rightarrow> (EffectRow \<Rightarrow> EffectRow) \<Rightarrow> 'w EffectDb \<Rightarrow> (EffectRow \<times> 'w EffectDb) res" where
  "fencedUpdate row f db = (case updateEffects (claimHolds row) f db of
     ([], _) \<Rightarrow> Inl (fenced (ef_id row)) | (u # _, db1) \<Rightarrow> Inr (u, db1))"

definition reviewRequest :: "EffectRow \<Rightarrow> string \<Rightarrow> EffectRequest" where
  "reviewRequest row reason = \<lparr>eq_kind = ''admin_review'', eq_payloadVersion = None,
     eq_payload = Some [(''reason'', JStr reason), (''failedEffectKind'', JStr (ef_effectKind row)), (''failedEffectId'', JStr (ef_id row))],
     eq_resolution = None\<rparr>"

definition markTerminal :: "('w, 'x) EngineEnv \<Rightarrow> int \<Rightarrow> EffectRow \<Rightarrow> string \<Rightarrow> 'w EffectDb \<Rightarrow> 'w EffectDb res" where
  "markTerminal env now row reason db =
     bindE (fencedUpdate row (\<lambda>r. r\<lparr>ef_status := EffectTerminal, ef_claimToken := None, ef_claimedAt := None, ef_lastError := Some reason,
        ef_firstFailedAt := Some (orElse (ef_firstFailedAt row) now), ef_updatedAt := now\<rparr>) db) (\<lambda>(upd, db1).
       let db2 = announceTerminal upd db1 in
       if ef_effectKind row = ''admin_review'' then Inr db2
       else bindE (enqueueEffects env now (ef_operationKind row) (ef_operationId row) [reviewRequest row reason] db2) (\<lambda>(_, db3). Inr db3))"

definition horizonPassed :: "int \<Rightarrow> EffectRow \<Rightarrow> EffectRetry \<Rightarrow> bool" where
  "horizonPassed now row retry = (case er_horizonMs retry of None \<Rightarrow> False | Some h \<Rightarrow> now - orElse (ef_firstFailedAt row) now > h)"

definition markRetryOrTerminal :: "('w, 'x) EngineEnv \<Rightarrow> int \<Rightarrow> EffectRow \<Rightarrow> EffectRetry \<Rightarrow> 'w EffectDb \<Rightarrow> (ProcessResult \<times> 'w EffectDb) res" where
  "markRetryOrTerminal env now row retry db =
     (if horizonPassed now row retry \<or> er_horizonMs retry = None \<and> MAX_ATTEMPTS \<le> ef_attempts row
      then bindE (markTerminal env now row (er_reason retry) db) (\<lambda>db1. Inr (ResultTerminal, db1))
      else bindE (fencedUpdate row (\<lambda>r. r\<lparr>ef_status := EffectPending, ef_claimToken := None, ef_claimedAt := None,
          ef_nextAttemptAt := now + orElse (er_delayMs retry) (backoffSeconds (ef_attempts row) * 1000),
          ef_lastError := Some (er_reason retry), ef_firstFailedAt := Some (orElse (ef_firstFailedAt row) now), ef_updatedAt := now\<rparr>) db)
        (\<lambda>(_, db1). Inr (ResultRetry, db1)))"

definition markDone :: "int \<Rightarrow> EffectRow \<Rightarrow> json \<Rightarrow> 'w EffectDb \<Rightarrow> (ProcessResult \<times> 'w EffectDb) res" where
  "markDone now row result db =
     bindE (fencedUpdate row (\<lambda>r. r\<lparr>ef_status := EffectDone, ef_lastError := None, ef_result := Some result, ef_updatedAt := now\<rparr>) db)
       (\<lambda>(_, db1). Inr (ResultDone, db1))"

fun applyOutcome :: "('w, 'x) EngineEnv \<Rightarrow> int \<Rightarrow> EffectRow \<Rightarrow> EffectOutcome \<Rightarrow> 'w EffectDb \<Rightarrow> (ProcessResult \<times> 'w EffectDb) res" where
  "applyOutcome env now row (OutcomeRetry retry) db = markRetryOrTerminal env now row retry db"
| "applyOutcome env now row (OutcomeTerminal reason) db = bindE (markTerminal env now row reason db) (\<lambda>db1. Inr (ResultTerminal, db1))"
| "applyOutcome env now row (OutcomeDone result) db = markDone now row result db"
| "applyOutcome env now row OutcomeVoid db = markDone now row (JObj []) db"

section \<open>What handlers call\<close>

definition recordOperationLicense :: "string \<Rightarrow> string \<Rightarrow> string \<Rightarrow> 'w EffectDb \<Rightarrow> 'w EffectDb" where
  "recordOperationLicense opKind opId licenseId db = db\<lparr>eq_operations := map (\<lambda>o'.
     if so_operationKind o' = opKind \<and> so_operationId o' = opId then o'\<lparr>so_licenseId := Some licenseId\<rparr> else o') (eq_operations db)\<rparr>"

definition resolveReviewTasksForEffect :: "int \<Rightarrow> EffectRow \<Rightarrow> json \<Rightarrow> 'w EffectDb \<Rightarrow> 'w EffectDb" where
  "resolveReviewTasksForEffect now e resolution db = snd (updateEffects
     (\<lambda>r. sameEffect (ef_operationKind e) (ef_operationId e) ''admin_review'' r \<and> ef_resolution r = None
        \<and> map_of (ef_payload r) ''failedEffectId'' = Some (JStr (ef_id e)))
     (\<lambda>r. r\<lparr>ef_resolution := Some resolution, ef_updatedAt := now\<rparr>) db)"

fun engineCall :: "int \<Rightarrow> EffectRow \<Rightarrow> EngineCall \<Rightarrow> 'w EffectDb \<Rightarrow> 'w EffectDb" where
  "engineCall now e (ResolveReviews resolution) db = resolveReviewTasksForEffect now e resolution db"
| "engineCall now e (RecordLicense opKind opId licenseId) db = recordOperationLicense opKind opId licenseId db"

definition handlerWrites :: "int \<Rightarrow> EffectRow \<Rightarrow> EngineCall list \<Rightarrow> 'w \<Rightarrow> 'w EffectDb \<Rightarrow> 'w EffectDb" where
  "handlerWrites now e calls w db = fold (engineCall now e) calls (db\<lparr>eq_world := w\<rparr>)"

section \<open>Inline execution\<close>

definition claimWith :: "int \<Rightarrow> string \<Rightarrow> int \<Rightarrow> EffectRow \<Rightarrow> EffectRow" where
  "claimWith now token attempts r = r\<lparr>ef_status := EffectProcessing, ef_claimToken := Some token, ef_claimedAt := Some now,
     ef_attempts := attempts, ef_updatedAt := now\<rparr>"

definition executeOne :: "('w, 'x) EngineEnv \<Rightarrow> int \<Rightarrow> (string \<Rightarrow> string) \<Rightarrow> EffectRow \<Rightarrow> 'w EffectDb \<Rightarrow> 'w EffectDb res" where
  "executeOne env now token row db = (case ee_handlers env (ef_effectKind row) of
     None \<Rightarrow> Inl (Err (''no handler registered for effect kind \"'' @ ef_effectKind row @ ''\"''))
   | Some (ExternalHandler _ _) \<Rightarrow> Inr db
   | Some (LocalHandler run) \<Rightarrow>
       (case updateEffects (\<lambda>r. ef_id r = ef_id row \<and> ef_status r = EffectPending) (claimWith now (token (ef_id row)) (ef_attempts row + 1)) db of
          ([], _) \<Rightarrow> Inr db
        | (claimed # _, db1) \<Rightarrow>
            bindE (run claimed db1) (\<lambda>(out, calls, w).
            bindE (applyOutcome env now claimed out (handlerWrites now claimed calls w db1)) (\<lambda>(_, db2). Inr db2))))"

definition byRank :: "EffectRow list \<Rightarrow> EffectRow list" where
  "byRank rows = sort_key (\<lambda>r. effectRank (ef_effectKind r)) rows"

definition executeEffectsNow :: "('w, 'x) EngineEnv \<Rightarrow> int \<Rightarrow> (string \<Rightarrow> string) \<Rightarrow> string list \<Rightarrow> 'w EffectDb \<Rightarrow> 'w EffectDb res" where
  "executeEffectsNow env now token effectIds db =
     foldE (executeOne env now token) (byRank (filter (\<lambda>r. ef_id r \<in> set effectIds \<and> ef_status r = EffectPending) (eq_effects db))) db"

section \<open>The worker\<close>

text \<open>\<open>array_position\<close> counts from one and \<open>coalesce\<close> gives an unknown kind the length of the array.\<close>

definition sqlRank :: "string \<Rightarrow> nat" where
  "sqlRank kind = (if kind \<in> set EFFECT_KINDS then Suc (indexIn EFFECT_KINDS kind) else length EFFECT_KINDS)"

definition isDue :: "int \<Rightarrow> EffectRow \<Rightarrow> bool" where
  "isDue now c \<longleftrightarrow> ef_status c = EffectPending \<and> ef_nextAttemptAt c \<le> now
     \<or> ef_status c = EffectProcessing \<and> (case ef_claimedAt c of None \<Rightarrow> False | Some t \<Rightarrow> t < now - STALE_CLAIM_MS)"

definition blocks :: "EffectRow \<Rightarrow> EffectRow \<Rightarrow> bool" where
  "blocks c p \<longleftrightarrow> ef_operationKind p = ef_operationKind c \<and> ef_operationId p = ef_operationId c \<and> ef_id p \<noteq> ef_id c
     \<and> ef_status p \<in> {EffectPending, EffectProcessing} \<and> ef_effectKind p \<noteq> ''admin_review'' \<and> sqlRank (ef_effectKind p) < sqlRank (ef_effectKind c)"

text \<open>\<open>locked\<close>: the rows another transaction holds (\<open>SKIP LOCKED\<close>). The sort is by next attempt, then by creation.\<close>

definition claimable :: "int \<Rightarrow> nat \<Rightarrow> (string \<Rightarrow> bool) \<Rightarrow> 'w EffectDb \<Rightarrow> EffectRow list" where
  "claimable now limit locked db = take limit (filter (\<lambda>c. \<not> locked (ef_id c)) (sort_key ef_nextAttemptAt (sort_key ef_createdAt
     (filter (\<lambda>c. isDue now c \<and> \<not> list_ex (blocks c) (eq_effects db)) (eq_effects db)))))"

definition claimDueEffects :: "int \<Rightarrow> (string \<Rightarrow> string) \<Rightarrow> nat \<Rightarrow> (string \<Rightarrow> bool) \<Rightarrow> 'w EffectDb \<Rightarrow> EffectRow list \<times> 'w EffectDb" where
  "claimDueEffects now token limit locked db = (let ids = map ef_id (claimable now limit locked db) in
     case updateEffects (\<lambda>r. ef_id r \<in> set ids) (\<lambda>r. claimWith now (token (ef_id r)) (ef_attempts r + 1) r) db of
       (rows, db1) \<Rightarrow> (byRank rows, db1))"

definition claimedRow :: "EffectRow \<Rightarrow> 'w EffectDb \<Rightarrow> EffectRow option" where
  "claimedRow effect db = find (claimHolds effect) (eq_effects db)"

definition processLocal :: "('w, 'x) EngineEnv \<Rightarrow> int \<Rightarrow> (EffectRow \<Rightarrow> 'w EffectDb \<Rightarrow> (EffectOutcome \<times> EngineCall list \<times> 'w) res) \<Rightarrow> EffectRow \<Rightarrow> 'w EffectDb \<Rightarrow> (ProcessResult \<times> 'w EffectDb) res" where
  "processLocal env now run effect db = (case claimedRow effect db of
     None \<Rightarrow> Inr (ResultStale, db)
   | Some cur \<Rightarrow> bindE (run cur db) (\<lambda>(out, calls, w). applyOutcome env now cur out (handlerWrites now cur calls w db)))"

text \<open>An external effect: the fenced look-up of a receipt, the provider call outside any transaction, and
  the transaction that stores the receipt, runs the follow-up and finishes the row.\<close>

definition externalLookup :: "EffectRow \<Rightarrow> 'w EffectDb \<Rightarrow> string option option" where
  "externalLookup effect db = (case claimedRow effect db of None \<Rightarrow> None | Some _ \<Rightarrow> Some (map_of (eq_receipts db) (ef_id effect)))"

definition externalCommit :: "('w, 'x) EngineEnv \<Rightarrow> int \<Rightarrow> (EffectRow \<Rightarrow> string \<Rightarrow> 'w EffectDb \<Rightarrow> (EngineCall list \<times> 'w) res) option \<Rightarrow> EffectRow \<Rightarrow> string \<Rightarrow> 'w EffectDb \<Rightarrow> (ProcessResult \<times> 'w EffectDb) res" where
  "externalCommit env now followUp effect providerRef db = (case claimedRow effect db of
     None \<Rightarrow> Inr (ResultStale, db)
   | Some cur \<Rightarrow>
       (let db1 = (if map_of (eq_receipts db) (ef_id effect) = None then db\<lparr>eq_receipts := eq_receipts db @ [(ef_id effect, providerRef)]\<rparr> else db) in
        bindE (case followUp of None \<Rightarrow> Inr db1
               | Some c \<Rightarrow> bindE (c cur providerRef db1) (\<lambda>(calls, w). Inr (handlerWrites now cur calls w db1)))
          (\<lambda>db2. applyOutcome env now cur OutcomeVoid db2)))"

definition failClaimed :: "('w, 'x) EngineEnv \<Rightarrow> int \<Rightarrow> EffectRow \<Rightarrow> string \<Rightarrow> 'w EffectDb \<Rightarrow> (ProcessResult \<times> 'w EffectDb) res" where
  "failClaimed env now effect reason db =
     (case markRetryOrTerminal env now effect \<lparr>er_reason = reason, er_delayMs = None, er_horizonMs = None\<rparr> db of
        Inl e \<Rightarrow> if isFenced e then Inr (ResultStale, db) else Inl e
      | Inr r \<Rightarrow> Inr r)"

text \<open>A thrown error rolls its transaction back; the failure is recorded in a transaction of its own.\<close>

definition orFail :: "('w, 'x) EngineEnv \<Rightarrow> int \<Rightarrow> EffectRow \<Rightarrow> (ProcessResult \<times> 'w EffectDb) res \<Rightarrow> 'w EffectDb \<Rightarrow> (ProcessResult \<times> 'w EffectDb) res" where
  "orFail env now effect r db = (case r of
     Inr v \<Rightarrow> Inr v
   | Inl e \<Rightarrow> if isFenced e then Inr (ResultStale, db) else failClaimed env now effect (errText e) db)"

text \<open>\<open>other\<close>: what other transactions commit while the provider is called.\<close>

definition processClaimedEffect :: "('w, 'x) EngineEnv \<Rightarrow> int \<Rightarrow> ('w EffectDb \<Rightarrow> 'w EffectDb) \<Rightarrow> EffectRow \<Rightarrow> 'w EffectDb \<times> 'x \<Rightarrow> ProcessResult res \<times> 'w EffectDb \<times> 'x" where
  "processClaimedEffect env now other effect s = (case s of (db, x) \<Rightarrow>
     (case (case ee_handlers env (ef_effectKind effect) of
        None \<Rightarrow> (orFail env now effect (failClaimed env now effect (''no handler registered for effect kind \"'' @ ef_effectKind effect @ ''\"'') db) db, db, x)
      | Some (LocalHandler run) \<Rightarrow> (orFail env now effect (processLocal env now run effect db) db, db, x)
      | Some (ExternalHandler call followUp) \<Rightarrow>
          (case externalLookup effect db of
             None \<Rightarrow> (Inr (ResultStale, db), db, x)
           | Some receipt \<Rightarrow>
               (case (case receipt of Some ref \<Rightarrow> (Inr ref, x) | None \<Rightarrow> call effect (ef_id effect) x) of
                  (Inl e, x1) \<Rightarrow> (orFail env now effect (Inl e) (other db), other db, x1)
                | (Inr ref, x1) \<Rightarrow> (orFail env now effect (externalCommit env now followUp effect ref (other db)) (other db), other db, x1)))) of
        (Inl e, db1, x1) \<Rightarrow> (Inl e, db1, x1)
      | (Inr (r, db2), db1, x1) \<Rightarrow> (Inr r, db2, x1)))"

text \<open>One pass of the worker. \<open>token\<close> numbers the rounds; \<open>limit\<close> bounds a batch. The result counts what the
  claimed effects came to.\<close>

definition countResult :: "ProcessResult \<Rightarrow> (ProcessResult \<Rightarrow> nat) \<Rightarrow> ProcessResult \<Rightarrow> nat" where
  "countResult r totals = totals(r := Suc (totals r))"

definition processCounted :: "('w, 'x) EngineEnv \<Rightarrow> int \<Rightarrow> ('w EffectDb \<Rightarrow> 'w EffectDb) \<Rightarrow> EffectRow \<Rightarrow> (ProcessResult \<Rightarrow> nat) \<times> 'w EffectDb \<times> 'x \<Rightarrow> ((ProcessResult \<Rightarrow> nat) \<times> 'w EffectDb \<times> 'x) res" where
  "processCounted env now other effect s = (case s of (totals, st) \<Rightarrow>
     (case processClaimedEffect env now other effect st of
        (Inl e, _) \<Rightarrow> Inl e | (Inr r, st1) \<Rightarrow> Inr (countResult r totals, st1)))"

primrec runRounds :: "('w, 'x) EngineEnv \<Rightarrow> int \<Rightarrow> (nat \<Rightarrow> string \<Rightarrow> string) \<Rightarrow> nat \<Rightarrow> (string \<Rightarrow> bool) \<Rightarrow> ('w EffectDb \<Rightarrow> 'w EffectDb) \<Rightarrow> nat \<Rightarrow> (ProcessResult \<Rightarrow> nat) \<times> 'w EffectDb \<times> 'x \<Rightarrow> ((ProcessResult \<Rightarrow> nat) \<times> 'w EffectDb \<times> 'x) res" where
  "runRounds env now token limit locked other 0 s = Inr s"
| "runRounds env now token limit locked other (Suc rounds) s = (case s of (totals, db, x) \<Rightarrow>
     (case claimDueEffects now (token rounds) limit locked db of (claimed, db1) \<Rightarrow>
        if claimed = [] then Inr s
        else bindE (foldE (processCounted env now other) claimed (totals, db1, x)) (runRounds env now token limit locked other rounds)))"

text \<open>The stores one after another; each has its tables.\<close>

primrec runStores :: "('w, 'x) EngineEnv \<Rightarrow> int \<Rightarrow> (nat \<Rightarrow> string \<Rightarrow> string) \<Rightarrow> nat \<Rightarrow> (string \<Rightarrow> bool) \<Rightarrow> ('w EffectDb \<Rightarrow> 'w EffectDb) \<Rightarrow> nat \<Rightarrow> 'w EffectDb list \<Rightarrow> (ProcessResult \<Rightarrow> nat) \<times> 'x \<Rightarrow> ((ProcessResult \<Rightarrow> nat) \<times> 'w EffectDb list \<times> 'x) res" where
  "runStores env now token limit locked other rounds [] s = (case s of (totals, x) \<Rightarrow> Inr (totals, [], x))"
| "runStores env now token limit locked other rounds (db # dbs) s = (case s of (totals, x) \<Rightarrow>
     bindE (runRounds env now token limit locked other rounds (totals, db, x)) (\<lambda>(totals1, db1, x1).
     bindE (runStores env now token limit locked other rounds dbs (totals1, x1)) (\<lambda>(totals2, dbs2, x2). Inr (totals2, db1 # dbs2, x2))))"

definition runEffectsPass :: "('w, 'x) EngineEnv \<Rightarrow> int \<Rightarrow> (nat \<Rightarrow> string \<Rightarrow> string) \<Rightarrow> nat option \<Rightarrow> nat option \<Rightarrow> (string \<Rightarrow> bool) \<Rightarrow> ('w EffectDb \<Rightarrow> 'w EffectDb) \<Rightarrow> 'w EffectDb list \<Rightarrow> 'x \<Rightarrow> ((ProcessResult \<Rightarrow> nat) \<times> 'w EffectDb list \<times> 'x) res" where
  "runEffectsPass env now token limit rounds locked other dbs x =
     runStores env now token (orElse limit 50) locked other (orElse rounds (length EFFECT_KINDS)) dbs (\<lambda>_. 0, x)"

definition openEffect :: "EffectRow \<Rightarrow> bool" where
  "openEffect r \<longleftrightarrow> ef_status r \<notin> {EffectDone, EffectTerminal}"

definition countOpenEffects :: "'w EffectDb list \<Rightarrow> nat" where
  "countOpenEffects dbs = sum_list (map (\<lambda>db. length (filter openEffect (eq_effects db))) dbs)"

section \<open>The administrator's side\<close>

definition needsAttention :: "EffectRow \<Rightarrow> bool" where
  "needsAttention r \<longleftrightarrow> ef_status r = EffectTerminal \<and> ef_resolution r = None \<and> ef_resolvedBy r = None
     \<or> ef_status r = EffectPending \<and> ef_firstFailedAt r \<noteq> None"

definition listEffectsNeedingAttention :: "nat \<Rightarrow> 'w EffectDb \<Rightarrow> EffectRow list" where
  "listEffectsNeedingAttention limit db = take limit (sort_key (\<lambda>r. - ef_updatedAt r) (sort_key ef_id (filter needsAttention (eq_effects db))))"

definition requeueTerminalEffect :: "int \<Rightarrow> string \<Rightarrow> 'w EffectDb \<Rightarrow> bool \<times> 'w EffectDb" where
  "requeueTerminalEffect now effectId db =
     (case updateEffects (\<lambda>r. ef_id r = effectId \<and> ef_status r = EffectTerminal \<and> ef_effectKind r \<noteq> ''admin_review'')
        (\<lambda>r. r\<lparr>ef_status := EffectPending, ef_attempts := 0, ef_claimToken := None, ef_claimedAt := None, ef_lastError := None,
           ef_firstFailedAt := None, ef_nextAttemptAt := now, ef_updatedAt := now\<rparr>) db of
      (rows, db1) \<Rightarrow> (rows \<noteq> [], db1))"

definition recordEffectIssuanceApproval :: "string \<Rightarrow> json \<Rightarrow> 'w EffectDb \<Rightarrow> 'w EffectDb" where
  "recordEffectIssuanceApproval effectId approval db = snd (updateEffects (\<lambda>r. ef_id r = effectId)
     (\<lambda>r. r\<lparr>ef_payload := filter (\<lambda>(k, _). k \<noteq> ''issuanceApprovedBy'') (ef_payload r) @ [(''issuanceApprovedBy'', approval)]\<rparr>) db)"

section \<open>Approving a held issuance\<close>

definition HELD_ISSUANCE_REASONS :: "string list" where
  "HELD_ISSUANCE_REASONS = [''EDIT_PRINCIPAL_UNRESOLVED'', ''AGENT_ISSUANCE_REFUSED'']"

fun jsTruthy :: "json option \<Rightarrow> bool" where
  "jsTruthy None = False"
| "jsTruthy (Some JNull) = False"
| "jsTruthy (Some (JBool b)) = b"
| "jsTruthy (Some (JNum q)) = (q \<noteq> 0)"
| "jsTruthy (Some (JStr t)) = (t \<noteq> [])"
| "jsTruthy (Some _) = True"

record Approver =
  ap_adminUserId :: string
  ap_email :: string

record ApproveResult =
  ar_effectId :: string
  ar_orderId :: string
  ar_approvedNow :: bool
  ar_status :: "EffectStatus option"

definition effectOrder :: "EffectRow \<Rightarrow> string option" where
  "effectOrder r = (case map_of (ef_payload r) ''orderId'' of Some (JStr t) \<Rightarrow> Some t | _ \<Rightarrow> None)"

definition approvalJson :: "string \<Rightarrow> Approver \<Rightarrow> string \<Rightarrow> string \<Rightarrow> json" where
  "approvalJson at' who effectId orderId = JObj [(''adminUserId'', JStr (ap_adminUserId who)), (''email'', JStr (ap_email who)),
     (''at'', JStr at'), (''effectId'', JStr effectId), (''orderId'', JStr orderId)]"

definition approvedAudit :: "Approver \<Rightarrow> string \<Rightarrow> string \<Rightarrow> EffectRow \<Rightarrow> EffectAudit" where
  "approvedAudit who effectId orderId cur = \<lparr>fa_actor = ap_email who, fa_entity = ''order_pending_effect'', fa_entityId = effectId,
     fa_action = ''edit_issuance_approved'', fa_data = JObj [(''adminUserId'', JStr (ap_adminUserId who)), (''email'', JStr (ap_email who)),
       (''effectId'', JStr effectId), (''orderId'', JStr orderId), (''operationId'', JStr (ef_operationId cur)), (''heldReason'', textOrNull (ef_lastError cur))]\<rparr>"

definition validIssuanceApproval :: "EffectRow \<Rightarrow> string \<Rightarrow> 'w EffectDb \<Rightarrow> json option" where
  "validIssuanceApproval e orderId db = (case map_of (ef_payload e) ''issuanceApprovedBy'' of
     Some (JObj a) \<Rightarrow>
       (case (map_of a ''adminUserId'', map_of a ''email'', map_of a ''at'') of
          (Some (JStr admin), Some (JStr _), Some (JStr _)) \<Rightarrow>
            if map_of a ''effectId'' = Some (JStr (ef_id e)) \<and> map_of a ''orderId'' = Some (JStr orderId)
              \<and> list_ex (\<lambda>l. fa_entity l = ''order_pending_effect'' \<and> fa_entityId l = ef_id e \<and> fa_action l = ''edit_issuance_approved''
                   \<and> jstr (jget ''adminUserId'' (Some (fa_data l))) = Some admin \<and> jstr (jget ''orderId'' (Some (fa_data l))) = Some orderId) (eq_audit db)
            then Some (JObj a) else None
        | _ \<Rightarrow> None)
   | _ \<Rightarrow> None)"

definition approveLocked :: "('w, 'x) EngineEnv \<Rightarrow> int \<Rightarrow> string \<Rightarrow> (string \<Rightarrow> string) \<Rightarrow> string \<Rightarrow> string \<Rightarrow> Approver \<Rightarrow> 'w EffectDb \<Rightarrow> (ApproveResult \<times> 'w EffectDb) res" where
  "approveLocked env now at' token effectId orderId who db = (let notHeld = Coded ''EFFECT_NOT_HELD'' ''Effect is not held for issuance approval'' in
     case find (\<lambda>r. ef_id r = effectId) (eq_effects db) of
       None \<Rightarrow> Inl (Coded ''EFFECT_NOT_HELD'' ''Effect is not a held order-edit issuance'')
     | Some cur \<Rightarrow>
         if ef_effectKind cur \<noteq> ''edit_reconcile'' \<or> effectOrder cur \<noteq> Some orderId
         then Inl (Coded ''EFFECT_NOT_HELD'' ''Effect is not a held order-edit issuance'')
         else if jsTruthy (map_of (ef_payload cur) ''issuanceApprovedBy'') \<and> ef_status cur \<noteq> EffectTerminal
         then Inr (\<lparr>ar_effectId = effectId, ar_orderId = orderId, ar_approvedNow = False, ar_status = Some (ef_status cur)\<rparr>, db)
         else if \<not> (ef_status cur = EffectTerminal \<and> orElse (ef_lastError cur) [] \<in> set HELD_ISSUANCE_REASONS) then Inl notHeld
         else (let db1 = recordEffectIssuanceApproval effectId (approvalJson at' who effectId orderId) db;
                   db2 = db1\<lparr>eq_audit := eq_audit db1 @ [approvedAudit who effectId orderId cur]\<rparr> in
           case requeueTerminalEffect now effectId db2 of
             (False, _) \<Rightarrow> Inl notHeld
           | (True, db3) \<Rightarrow> bindE (executeEffectsNow env now token [effectId] db3) (\<lambda>db4.
               Inr (\<lparr>ar_effectId = effectId, ar_orderId = orderId, ar_approvedNow = True,
                 ar_status = map_option ef_status (find (\<lambda>r. ef_id r = effectId) (eq_effects db4))\<rparr>, db4))))"

text \<open>\<open>other\<close>: what commits between the unlocked first read and the transaction; \<open>busy\<close>: the lock set stays contended.\<close>

definition approveHeldEditIssuance :: "('w, 'x) EngineEnv \<Rightarrow> int \<Rightarrow> string \<Rightarrow> (string \<Rightarrow> string) \<Rightarrow> bool \<Rightarrow> ('w EffectDb \<Rightarrow> 'w EffectDb) \<Rightarrow> string \<Rightarrow> Approver \<Rightarrow> 'w EffectDb \<Rightarrow> (ApproveResult \<times> 'w EffectDb) res" where
  "approveHeldEditIssuance env now at' token busy other effectId who db = (case find (\<lambda>r. ef_id r = effectId) (eq_effects db) of
     None \<Rightarrow> Inl (Coded ''EFFECT_NOT_FOUND'' ''Effect not found'')
   | Some peek \<Rightarrow>
       (case (ef_effectKind peek = ''edit_reconcile'', effectOrder peek) of
          (True, Some orderId) \<Rightarrow>
            if busy then Inl (Coded ''EFFECT_BUSY'' ''Effect is being processed; retry the approval'')
            else approveLocked env now at' token effectId orderId who (other db)
        | _ \<Rightarrow> Inl (Coded ''EFFECT_NOT_HELD'' ''Effect is not a held order-edit issuance'')))"

end
