(* ===== verification/EffectLaws.thy ===== *)
theory EffectLaws
  imports EffectQueue
begin

text \<open>
  What the pending-effects engine keeps: the invariant of its tables under every transaction in any order and
  with any stale claimant, the application of an effect exactly once, and the refinement of the queue by its
  instrumented copy.
\<close>

section \<open>Rows\<close>

definition identity :: "EffectRow \<Rightarrow> string \<times> string \<times> string" where
  "identity r = (ef_operationKind r, ef_operationId r, ef_effectKind r)"

text \<open>The columns a handler cannot change.\<close>

definition core :: "EffectRow \<Rightarrow> EffectRow" where
  "core r = r\<lparr>ef_resolution := None, ef_updatedAt := 0, ef_payload := []\<rparr>"

definition isReview :: "EffectRow \<Rightarrow> bool" where
  "isReview r \<longleftrightarrow> ef_effectKind r = ''admin_review''"

definition reviewed :: "EffectRow list \<Rightarrow> EffectRow \<Rightarrow> bool" where
  "reviewed rows r \<longleftrightarrow> (ef_operationKind r, ef_operationId r, ''admin_review'') \<in> set (map identity rows)"

definition rowSound :: "EffectRow \<Rightarrow> bool" where
  "rowSound r \<longleftrightarrow> (isReview r \<longrightarrow> ef_status r = EffectTerminal)
     \<and> (ef_status r = EffectProcessing \<longrightarrow> ef_claimToken r \<noteq> None \<and> ef_claimedAt r \<noteq> None)
     \<and> (ef_status r \<in> {EffectPending, EffectTerminal} \<longrightarrow> ef_claimToken r = None \<and> ef_claimedAt r = None)"

definition rowsBase :: "EffectRow list \<Rightarrow> bool" where
  "rowsBase rows \<longleftrightarrow> distinct (map ef_id rows) \<and> distinct (map identity rows) \<and> (\<forall>r\<in>set rows. rowSound r)"

definition allReviewed :: "EffectRow list \<Rightarrow> bool" where
  "allReviewed rows \<longleftrightarrow> (\<forall>r\<in>set rows. ef_status r = EffectTerminal \<longrightarrow> reviewed rows r)"

definition queueOk :: "EffectRow list \<Rightarrow> bool" where
  "queueOk rows \<longleftrightarrow> rowsBase rows \<and> allReviewed rows"

definition doneIds :: "EffectRow list \<Rightarrow> string set" where
  "doneIds rows = set (map ef_id (filter (\<lambda>r. ef_status r = EffectDone) rows))"

text \<open>The claims that are live: the rows being processed, with their tokens.\<close>

definition liveClaims :: "EffectRow list \<Rightarrow> (string \<times> string option) set" where
  "liveClaims rows = set (map (\<lambda>r. (ef_id r, ef_claimToken r)) (filter (\<lambda>r. ef_status r = EffectProcessing) rows))"

lemma core_simps [simp]:
  "ef_id (core r) = ef_id r" "ef_operationKind (core r) = ef_operationKind r" "ef_operationId (core r) = ef_operationId r"
  "ef_effectKind (core r) = ef_effectKind r" "ef_status (core r) = ef_status r" "ef_claimToken (core r) = ef_claimToken r"
  "ef_claimedAt (core r) = ef_claimedAt r" "ef_attempts (core r) = ef_attempts r"
  by (simp_all add: core_def)

lemma core_facts [simp]:
  "identity (core r) = identity r" "rowSound (core r) = rowSound r" "reviewed rows (core r) = reviewed rows r"
  by (simp_all add: identity_def rowSound_def isReview_def reviewed_def)

lemma reviewed_cong: "map identity rows = map identity rows' \<Longrightarrow> reviewed rows = reviewed rows'"
  by (simp add: reviewed_def fun_eq_iff del: set_map)

lemma reviewed_identity: "identity r = identity r' \<Longrightarrow> reviewed rows r = reviewed rows r'"
  by (simp add: reviewed_def identity_def)

text \<open>The invariant and the finished effects depend on the core columns only.\<close>

lemma queueOk_core_map: "queueOk (map core rows) = queueOk rows"
proof -
  have "reviewed (map core rows) = reviewed rows" by (rule reviewed_cong) (simp add: comp_def)
  then show ?thesis by (simp add: queueOk_def rowsBase_def allReviewed_def comp_def)
qed

lemma queueOk_core: "map core rows = map core rows' \<Longrightarrow> queueOk rows = queueOk rows'"
  by (metis queueOk_core_map)

lemma held_core_map: "liveClaims (map core rows) = liveClaims rows"
  by (simp add: liveClaims_def filter_map comp_def image_image)

lemma held_core: "map core rows = map core rows' \<Longrightarrow> liveClaims rows = liveClaims rows'"
  by (metis held_core_map)

lemma held_iff: "(i, t) \<in> liveClaims rows \<longleftrightarrow> (\<exists>r\<in>set rows. ef_id r = i \<and> ef_claimToken r = t \<and> ef_status r = EffectProcessing)"
  by (auto simp: liveClaims_def)

lemma held_subset:
  assumes "\<And>r. \<lbrakk>r \<in> set rows'; ef_status r = EffectProcessing\<rbrakk> \<Longrightarrow> r \<in> set rows"
  shows "liveClaims rows' \<subseteq> liveClaims rows"
  using assms by (auto simp: liveClaims_def)

lemma doneIds_core_map: "doneIds (map core rows) = doneIds rows"
  by (simp add: doneIds_def filter_map comp_def image_image)

lemma doneIds_core: "map core rows = map core rows' \<Longrightarrow> doneIds rows = doneIds rows'"
  by (metis doneIds_core_map)

section \<open>Updates\<close>

lemma updateEffects_rows [simp]:
  "eq_effects (snd (updateEffects P f db)) = map (\<lambda>r. if P r then f r else r) (eq_effects db)"
  "eq_world (snd (updateEffects P f db)) = eq_world db" "eq_receipts (snd (updateEffects P f db)) = eq_receipts db"
  "eq_operations (snd (updateEffects P f db)) = eq_operations db"
  by (simp_all add: updateEffects_def)

lemma updateEffects_returned: "set (fst (updateEffects P f db)) \<subseteq> set (eq_effects (snd (updateEffects P f db)))"
proof -
  have "set (map f (filter P xs)) \<subseteq> set (map (\<lambda>r. if P r then f r else r) xs)" for xs by (induction xs) auto
  then show ?thesis by (simp add: updateEffects_def)
qed

text \<open>Rewriting rows to sound ones of the same identity keeps the table sound.\<close>

lemma rowsBase_map:
  assumes ok: "rowsBase rows"
    and f: "\<And>r. \<lbrakk>r \<in> set rows; P r\<rbrakk> \<Longrightarrow> ef_id (f r) = ef_id r \<and> identity (f r) = identity r \<and> rowSound (f r)"
  shows "rowsBase (map (\<lambda>r. if P r then f r else r) rows)" "map identity (map (\<lambda>r. if P r then f r else r) rows) = map identity rows"
    "map ef_id (map (\<lambda>r. if P r then f r else r) rows) = map ef_id rows"
proof -
  let ?g = "\<lambda>r. if P r then f r else r"
  show ids: "map identity (map ?g rows) = map identity rows" "map ef_id (map ?g rows) = map ef_id rows" using f by auto
  have "rowSound r'" if "r' \<in> set (map ?g rows)" for r' using that ok f by (auto simp: rowsBase_def)
  with ok ids show "rowsBase (map ?g rows)" unfolding rowsBase_def by (metis (no_types, lifting))
qed

lemma rowsBase_snoc:
  "\<lbrakk>rowsBase rows; ef_id row \<notin> set (map ef_id rows); identity row \<notin> set (map identity rows); rowSound row\<rbrakk> \<Longrightarrow> rowsBase (rows @ [row])"
  by (auto simp: rowsBase_def)

lemma rowsBase_unique:
  "\<lbrakk>rowsBase rows; r \<in> set rows; r' \<in> set rows; ef_id r = ef_id r'\<rbrakk> \<Longrightarrow> r = r'"
  by (auto simp: rowsBase_def distinct_map dest: inj_onD)

section \<open>Recording effects\<close>

lemma newEffect_facts:
  "ef_id (newEffect env now i k oi req) = i" "identity (newEffect env now i k oi req) = (k, oi, eq_kind req)"
  "rowSound (newEffect env now i k oi req)" "ef_status (newEffect env now i k oi req) = (if eq_kind req = ''admin_review'' then EffectTerminal else EffectPending)"
  by (simp_all add: newEffect_def identity_def rowSound_def isReview_def Let_def)

lemma announceTerminal_tables [simp]:
  "eq_effects (announceTerminal r db) = eq_effects db" "eq_world (announceTerminal r db) = eq_world db"
  "eq_receipts (announceTerminal r db) = eq_receipts db" "eq_operations (announceTerminal r db) = eq_operations db"
  by (simp_all add: announceTerminal_def emitEvent_def)

text \<open>What recording changes: rows are appended, none of them finished.\<close>

definition appended :: "'w EffectDb \<Rightarrow> 'w EffectDb \<Rightarrow> bool" where
  "appended db db' \<longleftrightarrow> (\<exists>new. eq_effects db' = eq_effects db @ new \<and> (\<forall>r\<in>set new. ef_status r \<in> {EffectPending, EffectTerminal} \<and> (ef_status r = EffectTerminal \<longrightarrow> isReview r)))
     \<and> eq_world db' = eq_world db \<and> eq_receipts db' = eq_receipts db \<and> eq_operations db' = eq_operations db"

lemma appended_refl: "appended db db"
  by (auto simp: appended_def)

lemma appended_trans: "\<lbrakk>appended db1 db2; appended db2 db3\<rbrakk> \<Longrightarrow> appended db1 db3"
  unfolding appended_def by (elim exE conjE) (simp, blast)

lemma appended_doneIds: "appended db db' \<Longrightarrow> doneIds (eq_effects db') = doneIds (eq_effects db)"
  by (fastforce simp: appended_def doneIds_def)

lemma appended_held: "appended db db' \<Longrightarrow> liveClaims (eq_effects db') \<subseteq> liveClaims (eq_effects db)"
  by (rule held_subset) (fastforce simp: appended_def)

lemma appended_identities: "appended db db' \<Longrightarrow> set (map identity (eq_effects db)) \<subseteq> set (map identity (eq_effects db'))"
  by (auto simp: appended_def)

lemma reviewed_mono: "\<lbrakk>set (map identity rows) \<subseteq> set (map identity rows'); reviewed rows r\<rbrakk> \<Longrightarrow> reviewed rows' r"
  by (auto simp: reviewed_def)

lemma reviewed_self: "\<lbrakk>isReview r; r \<in> set rows\<rbrakk> \<Longrightarrow> reviewed rows r"
  by (auto simp: reviewed_def isReview_def identity_def image_iff)

lemma appended_allReviewed: "\<lbrakk>appended db db'; allReviewed (eq_effects db)\<rbrakk> \<Longrightarrow> allReviewed (eq_effects db')"
proof -
  assume app: "appended db db'" and rev: "allReviewed (eq_effects db)"
  obtain new where new: "eq_effects db' = eq_effects db @ new" "\<forall>r\<in>set new. ef_status r = EffectTerminal \<longrightarrow> isReview r"
    using app by (auto simp: appended_def)
  show ?thesis unfolding allReviewed_def
  proof (intro ballI impI)
    fix r assume r: "r \<in> set (eq_effects db')" "ef_status r = EffectTerminal"
    show "reviewed (eq_effects db') r"
    proof (cases "r \<in> set (eq_effects db)")
      case True
      then show ?thesis using rev r(2) reviewed_mono[OF appended_identities[OF app]] by (simp add: allReviewed_def)
    next
      case False
      then show ?thesis using new r by (intro reviewed_self) auto
    qed
  qed
qed

lemma enqueueOne_cases:
  assumes "enqueueOne env now k oi req db = Inr (row, db')"
  obtains (replay) "db' = db" "(k, oi, eq_kind req) \<in> set (map identity (eq_effects db))"
  | (created) i where "eq_effects db' = eq_effects db @ [newEffect env now i k oi req]" "i \<notin> set (map ef_id (eq_effects db))"
      "(k, oi, eq_kind req) \<notin> set (map identity (eq_effects db))" "eq_world db' = eq_world db" "eq_receipts db' = eq_receipts db" "eq_operations db' = eq_operations db"
proof (cases "(k, oi, eq_kind req) \<in> set (map identity (eq_effects db))")
  case True
  then have "list_ex (sameEffect k oi (eq_kind req)) (eq_effects db)" by (auto simp: list_ex_iff sameEffect_def identity_def)
  then show ?thesis using assms True that(1) by (simp add: enqueueOne_def Let_def)
next
  case False
  then have "\<not> list_ex (sameEffect k oi (eq_kind req)) (eq_effects db)" by (auto simp: list_ex_iff sameEffect_def identity_def image_iff)
  then have "ee_newId env (eq_effects db) \<notin> set (map ef_id (eq_effects db))" "eq_effects db' = eq_effects db @ [newEffect env now (ee_newId env (eq_effects db)) k oi req]"
    "eq_world db' = eq_world db" "eq_receipts db' = eq_receipts db" "eq_operations db' = eq_operations db"
    using assms by (auto simp: enqueueOne_def Let_def list_ex_iff split: if_splits)
  then show ?thesis using False that(2) by blast
qed

lemma enqueueOne_ok:
  assumes "enqueueOne env now k oi req db = Inr (row, db')"
  shows "appended db db' \<and> (rowsBase (eq_effects db) \<longrightarrow> rowsBase (eq_effects db')) \<and> (k, oi, eq_kind req) \<in> set (map identity (eq_effects db'))"
  using assms
proof (cases rule: enqueueOne_cases)
  case replay
  then show ?thesis by (simp add: appended_refl)
next
  case (created i)
  have "isReview (newEffect env now i k oi req) = (eq_kind req = ''admin_review'')" by (simp add: isReview_def newEffect_def Let_def)
  then have "appended db db'" using created by (auto simp: appended_def newEffect_facts)
  moreover have "rowsBase (eq_effects db')" if "rowsBase (eq_effects db)"
    unfolding created(1) using that created(2,3) by (intro rowsBase_snoc) (simp_all add: newEffect_facts)
  ultimately show ?thesis using created(1) by (simp add: newEffect_facts)
qed

lemma enqueueEffects_ok:
  assumes "enqueueEffects env now k oi reqs db = Inr (rows, db')"
  shows "appended db db' \<and> (rowsBase (eq_effects db) \<longrightarrow> rowsBase (eq_effects db')) \<and> (\<forall>req\<in>set reqs. (k, oi, eq_kind req) \<in> set (map identity (eq_effects db')))"
  using assms
proof (induction reqs arbitrary: rows db)
  case (Cons req reqs)
  then obtain row db1 rows1 where one: "enqueueOne env now k oi req db = Inr (row, db1)" and rest: "enqueueEffects env now k oi reqs db1 = Inr (rows1, db')"
    by auto
  note one' = enqueueOne_ok[OF one] and rest' = Cons.IH[OF rest]
  show ?case
    using one' rest' appended_trans appended_identities[of db1 db'] by (auto simp del: set_map)
qed (simp add: appended_refl)

section \<open>Finishing a claim\<close>

definition named :: "EffectRow list \<Rightarrow> (string \<times> string \<times> string \<times> string) set" where
  "named rows = set (map (\<lambda>r. (ef_id r, identity r)) rows)"

definition matches :: "EffectRow list \<Rightarrow> EffectRow \<Rightarrow> bool" where
  "matches rows c \<longleftrightarrow> (\<forall>r\<in>set rows. ef_id r = ef_id c \<longrightarrow> identity r = identity c)"

text \<open>A claim that ended: the row is done or not, nothing else is, and no other table changed.\<close>

definition finished :: "EffectRow \<Rightarrow> bool \<Rightarrow> 'w EffectDb \<Rightarrow> 'w EffectDb \<Rightarrow> bool" where
  "finished row d db db' \<longleftrightarrow> queueOk (eq_effects db') \<and> ef_id row \<notin> doneIds (eq_effects db)
     \<and> doneIds (eq_effects db') = doneIds (eq_effects db) \<union> (if d then {ef_id row} else {})
     \<and> named (eq_effects db) \<subseteq> named (eq_effects db') \<and> eq_world db' = eq_world db \<and> eq_receipts db' = eq_receipts db
     \<and> liveClaims (eq_effects db') \<subseteq> {(i, t) \<in> liveClaims (eq_effects db). i \<noteq> ef_id row}"

lemma named_map: "(\<And>r. \<lbrakk>r \<in> set rows; P r\<rbrakk> \<Longrightarrow> ef_id (f r) = ef_id r \<and> identity (f r) = identity r) \<Longrightarrow> named (map (\<lambda>r. if P r then f r else r) rows) = named rows"
  unfolding named_def by (rule arg_cong[of _ _ set]) auto

lemma named_appended: "appended db db' \<Longrightarrow> named (eq_effects db) \<subseteq> named (eq_effects db')"
  by (auto simp: appended_def named_def)

lemma doneIds_iff: "i \<in> doneIds rows \<longleftrightarrow> (\<exists>r\<in>set rows. ef_id r = i \<and> ef_status r = EffectDone)"
  by (auto simp: doneIds_def)

lemma doneIds_map_iff: "i \<in> doneIds (map g rows) \<longleftrightarrow> (\<exists>r\<in>set rows. ef_id (g r) = i \<and> ef_status (g r) = EffectDone)"
  by (simp add: doneIds_iff)

lemma doneIds_same:
  assumes "\<And>r. r \<in> set rows \<Longrightarrow> ef_id (g r) = ef_id r \<and> (ef_status (g r) = EffectDone \<longleftrightarrow> ef_status r = EffectDone)"
  shows "doneIds (map g rows) = doneIds rows"
  using assms by (auto simp: set_eq_iff doneIds_map_iff doneIds_iff[of _ rows])

text \<open>The row behind a claim that still holds.\<close>

lemma fencedUpdate_cases:
  assumes "fencedUpdate row f db = Inr (u, db')"
  obtains r where "r \<in> set (eq_effects db)" "claimHolds row r" "u = f r"
    "eq_effects db' = map (\<lambda>r. if claimHolds row r then f r else r) (eq_effects db)" "eq_world db' = eq_world db" "eq_receipts db' = eq_receipts db"
proof -
  obtain r rs where filt: "filter (claimHolds row) (eq_effects db) = r # rs" and u: "u = f r" and db': "db' = snd (updateEffects (claimHolds row) f db)"
    using assms by (cases "filter (claimHolds row) (eq_effects db)") (auto simp: fencedUpdate_def updateEffects_def)
  have "r \<in> set (eq_effects db) \<and> claimHolds row r"
    using arg_cong[OF filt, of set] by auto
  then show ?thesis using that[of r] u db' by simp
qed

lemma claimHolds_processing: "claimHolds row r \<Longrightarrow> ef_id r = ef_id row \<and> ef_status r = EffectProcessing"
  by (simp add: claimHolds_def)

lemma claim_not_done:
  assumes "rowsBase rows" "r \<in> set rows" "claimHolds row r"
  shows "ef_id row \<notin> doneIds rows"
  using rowsBase_unique[OF assms(1) assms(2)] claimHolds_processing[OF assms(3)] by (auto simp: doneIds_iff)

lemma doneIds_fenced:
  assumes "rowsBase rows" "r \<in> set rows" "claimHolds row r" and f: "\<And>r. ef_id (f r) = ef_id r" "\<And>r. ef_status (f r) = st"
  shows "doneIds (map (\<lambda>r. if claimHolds row r then f r else r) rows) = doneIds rows \<union> (if st = EffectDone then {ef_id row} else {})"
proof -
  have "i \<in> doneIds (map (\<lambda>r. if claimHolds row r then f r else r) rows) \<longleftrightarrow> i \<in> doneIds rows \<or> st = EffectDone \<and> i = ef_id row" for i
  proof -
    have "(\<exists>q\<in>set rows. ef_id (if claimHolds row q then f q else q) = i \<and> ef_status (if claimHolds row q then f q else q) = EffectDone)
      \<longleftrightarrow> (\<exists>q\<in>set rows. ef_id q = i \<and> (if claimHolds row q then st = EffectDone else ef_status q = EffectDone))"
      using f by (intro bex_cong) auto
    also have "\<dots> \<longleftrightarrow> (\<exists>q\<in>set rows. ef_id q = i \<and> ef_status q = EffectDone) \<or> st = EffectDone \<and> i = ef_id row"
      using assms(2,3) claimHolds_processing[of row] by force
    finally show ?thesis by (simp only: doneIds_map_iff doneIds_iff[of i rows])
  qed
  then show ?thesis by (auto simp: set_eq_iff)
qed

lemma held_fenced:
  assumes base: "rowsBase rows" and r: "r \<in> set rows" "claimHolds row r" and f: "\<And>r. ef_status (f r) \<noteq> EffectProcessing"
  shows "liveClaims (map (\<lambda>r. if claimHolds row r then f r else r) rows) \<subseteq> {(i, t) \<in> liveClaims rows. i \<noteq> ef_id row}"
proof
  fix x assume "x \<in> liveClaims (map (\<lambda>r. if claimHolds row r then f r else r) rows)"
  then obtain q where q: "q \<in> set rows" "\<not> claimHolds row q" "ef_status q = EffectProcessing" "x = (ef_id q, ef_claimToken q)"
    using f by (auto simp: liveClaims_def split: if_splits)
  have "ef_id q \<noteq> ef_id row"
    using rowsBase_unique[OF base r(1) q(1)] q(2) r(2) by (auto simp: claimHolds_def)
  with q show "x \<in> {(i, t) \<in> liveClaims rows. i \<noteq> ef_id row}" by (auto simp: held_iff)
qed

text \<open>A fenced write of a status other than \<open>terminal\<close>.\<close>

lemma fencedUpdate_finished:
  assumes ok: "queueOk (eq_effects db)" and upd: "fencedUpdate row f db = Inr (u, db')"
    and f: "\<And>r. ef_id (f r) = ef_id r" "\<And>r. identity (f r) = identity r" "\<And>r. ef_status (f r) = st"
    and sound: "\<And>r. \<lbrakk>claimHolds row r; rowSound r\<rbrakk> \<Longrightarrow> rowSound (f r)" and st: "st \<notin> {EffectTerminal, EffectProcessing}"
  shows "finished row (st = EffectDone) db db'"
  using upd
proof (cases rule: fencedUpdate_cases)
  case (1 r)
  have base: "rowsBase (eq_effects db)" using ok by (simp add: queueOk_def)
  have b: "rowsBase (eq_effects db')" "map identity (eq_effects db') = map identity (eq_effects db)" "map ef_id (eq_effects db') = map ef_id (eq_effects db)"
    unfolding 1(4) by (rule rowsBase_map[OF base]; use f sound base in \<open>auto simp: rowsBase_def\<close>)+
  have "allReviewed (eq_effects db')" unfolding allReviewed_def
  proof (intro ballI impI)
    fix r' assume r': "r' \<in> set (eq_effects db')" "ef_status r' = EffectTerminal"
    then have "r' \<in> set (eq_effects db)" using 1(4) f(3) st by auto
    then show "reviewed (eq_effects db') r'" using ok r'(2) reviewed_cong[OF b(2)] by (simp add: queueOk_def allReviewed_def)
  qed
  moreover have "named (eq_effects db') = named (eq_effects db)" unfolding 1(4) by (rule named_map) (simp add: f)
  moreover have "doneIds (eq_effects db') = doneIds (eq_effects db) \<union> (if st = EffectDone then {ef_id row} else {})"
    unfolding 1(4) by (rule doneIds_fenced[OF base 1(1,2) f(1,3)])
  moreover have "liveClaims (eq_effects db') \<subseteq> {(i, t) \<in> liveClaims (eq_effects db). i \<noteq> ef_id row}"
    unfolding 1(4) by (rule held_fenced[OF base 1(1,2)]) (use f(3) st in auto)
  ultimately show ?thesis using b(1) claim_not_done[OF base 1(1,2)] 1(5,6) by (simp add: finished_def queueOk_def)
qed

lemma markDone_finished:
  assumes "queueOk (eq_effects db)" "markDone now row result db = Inr (res, db')"
  shows "res = ResultDone \<and> finished row True db db'"
proof -
  obtain u where res: "res = ResultDone"
    and u: "fencedUpdate row (\<lambda>r. r\<lparr>ef_status := EffectDone, ef_lastError := None, ef_result := Some result, ef_updatedAt := now\<rparr>) db = Inr (u, db')"
    using assms(2) by (auto simp: markDone_def)
  have "finished row (EffectDone = EffectDone) db db'"
    by (rule fencedUpdate_finished[OF assms(1) u]) (auto simp: identity_def rowSound_def claimHolds_def isReview_def)
  with res show ?thesis by simp
qed

lemma markTerminal_finished:
  assumes ok: "queueOk (eq_effects db)" and m: "matches (eq_effects db) row" and t: "markTerminal env now row reason db = Inr db'"
  shows "finished row False db db'"
proof -
  let ?f = "\<lambda>r. r\<lparr>ef_status := EffectTerminal, ef_claimToken := None, ef_claimedAt := None, ef_lastError := Some reason, ef_firstFailedAt := Some (orElse (ef_firstFailedAt row) now), ef_updatedAt := now\<rparr>"
  obtain u db1 where upd: "fencedUpdate row ?f db = Inr (u, db1)"
    and rest: "(if ef_effectKind row = ''admin_review'' then Inr (announceTerminal u db1) else bindE (enqueueEffects env now (ef_operationKind row) (ef_operationId row) [reviewRequest row reason] (announceTerminal u db1)) (\<lambda>(_, db3). Inr db3)) = Inr db'"
    using t by (auto simp: markTerminal_def Let_def)
  obtain r where r: "r \<in> set (eq_effects db)" "claimHolds row r" and db1: "eq_effects db1 = map (\<lambda>r. if claimHolds row r then ?f r else r) (eq_effects db)"
    "eq_world db1 = eq_world db" "eq_receipts db1 = eq_receipts db"
    using upd by (cases rule: fencedUpdate_cases) blast
  have base: "rowsBase (eq_effects db)" using ok by (simp add: queueOk_def)
  have notrev: "ef_effectKind row \<noteq> ''admin_review''"
    using base r m by (auto simp: rowsBase_def rowSound_def isReview_def matches_def identity_def claimHolds_def)
  then obtain rows where enq: "enqueueEffects env now (ef_operationKind row) (ef_operationId row) [reviewRequest row reason] (announceTerminal u db1) = Inr (rows, db')"
    using rest by auto
  note e = enqueueEffects_ok[OF enq]
  have fr: "ef_id (?f r) = ef_id r" "identity (?f r) = identity r" for r by (simp_all add: identity_def)
  have snd_f: "rowSound (?f r)" for r by (simp add: rowSound_def)
  have b: "rowsBase (eq_effects db1)" "map identity (eq_effects db1) = map identity (eq_effects db)"
    unfolding db1(1) by (rule rowsBase_map[OF base]; use fr snd_f in simp)+
  have app: "appended (announceTerminal u db1) db'" using e by simp
  have rev: "reviewed (eq_effects db') q" if q: "q \<in> set (eq_effects db1)" "ef_status q = EffectTerminal" for q
  proof (cases "q \<in> set (eq_effects db)")
    case True
    then have "reviewed (eq_effects db1) q" using that ok reviewed_cong[OF b(2)] by (simp add: queueOk_def allReviewed_def)
    then show ?thesis using reviewed_mono appended_identities[OF app] by simp
  next
    case False
    obtain q0 where q0: "q0 \<in> set (eq_effects db)" "q = (if claimHolds row q0 then ?f q0 else q0)"
      using q(1) unfolding db1(1) set_map image_iff by blast
    with False have "claimHolds row q0" "identity q = identity q0" by (auto simp: identity_def split: if_splits)
    with q0(1) have "identity q = identity row" using m by (auto simp: matches_def claimHolds_def)
    then show ?thesis using e by (simp add: reviewed_def identity_def reviewRequest_def)
  qed
  have "allReviewed (eq_effects db')" unfolding allReviewed_def
  proof (intro ballI impI)
    fix q assume q: "q \<in> set (eq_effects db')" "ef_status q = EffectTerminal"
    show "reviewed (eq_effects db') q"
      using app q rev[OF _ q(2)] reviewed_self[OF _ q(1)] by (auto simp: appended_def)
  qed
  moreover have "doneIds (eq_effects db1) = doneIds (eq_effects db)"
    unfolding db1(1) using doneIds_fenced[OF base r, of ?f EffectTerminal] by simp
  moreover have "named (eq_effects db1) = named (eq_effects db)" unfolding db1(1) by (rule named_map) (simp add: identity_def)
  moreover have "liveClaims (eq_effects db') \<subseteq> {(i, t) \<in> liveClaims (eq_effects db). i \<noteq> ef_id row}"
    using appended_held[OF app] held_fenced[OF base r, of ?f] by (simp add: db1(1))
  ultimately show ?thesis
    using e b(1) app appended_doneIds[OF app] named_appended[OF app] claim_not_done[OF base r] db1(2,3)
    by (auto simp: finished_def queueOk_def appended_def)
qed

lemma markRetryOrTerminal_finished:
  assumes ok: "queueOk (eq_effects db)" and m: "matches (eq_effects db) row" and t: "markRetryOrTerminal env now row retry db = Inr (res, db')"
  shows "res \<in> {ResultRetry, ResultTerminal} \<and> finished row False db db'"
proof (cases "horizonPassed now row retry \<or> er_horizonMs retry = None \<and> MAX_ATTEMPTS \<le> ef_attempts row")
  case True
  then show ?thesis using t markTerminal_finished[OF ok m] by (auto simp: markRetryOrTerminal_def)
next
  case False
  let ?f = "\<lambda>r. r\<lparr>ef_status := EffectPending, ef_claimToken := None, ef_claimedAt := None,
          ef_nextAttemptAt := now + orElse (er_delayMs retry) (backoffSeconds (ef_attempts row) * 1000),
          ef_lastError := Some (er_reason retry), ef_firstFailedAt := Some (orElse (ef_firstFailedAt row) now), ef_updatedAt := now\<rparr>"
  obtain u where res: "res = ResultRetry" and upd: "fencedUpdate row ?f db = Inr (u, db')"
    using t False by (auto simp: markRetryOrTerminal_def)
  have "finished row (EffectPending = EffectDone) db db'"
    by (rule fencedUpdate_finished[OF ok upd]) (auto simp: identity_def rowSound_def claimHolds_def isReview_def)
  with res show ?thesis by simp
qed

lemma applyOutcome_finished:
  assumes "queueOk (eq_effects db)" "matches (eq_effects db) row" "applyOutcome env now row out db = Inr (res, db')"
  shows "res \<noteq> ResultStale \<and> (res = ResultDone \<longleftrightarrow> out = OutcomeVoid \<or> (\<exists>j. out = OutcomeDone j)) \<and> finished row (res = ResultDone) db db'"
proof (cases out)
  case (OutcomeRetry retry)
  then show ?thesis using assms(3) markRetryOrTerminal_finished[OF assms(1,2), of env now retry res db'] by auto
next
  case (OutcomeTerminal reason)
  then show ?thesis using assms(3) markTerminal_finished[OF assms(1,2)] by auto
qed (use assms(3) markDone_finished[OF assms(1), of now row _ res db'] in auto)

section \<open>The engine as a machine\<close>

text \<open>
  The transactions of the engine in any order. A worker keeps the rows its claims returned (\<open>en_claims\<close>) and may
  act on any of them at any later time, as often as it likes, a crashed or slow one included. The transactions
  of other modules change their own tables and the operations.
\<close>

record 'w EngineState =
  en_db :: "'w EffectDb"
  en_claims :: "EffectRow list"

datatype 'w EffectOp =
    OpRecord int string string "EffectRequest list"
  | OpExecute int "string \<Rightarrow> string" "string list"
  | OpClaim int "string \<Rightarrow> string" nat "string \<Rightarrow> bool"
  | OpLocal int nat
  | OpCommit int nat string
  | OpFail int nat string
  | OpRequeue int string
  | OpApprove int string "string \<Rightarrow> string" string string Approver
  | OpElsewhere "'w \<Rightarrow> 'w" "OperationRow list"

text \<open>A transaction that throws changes nothing.\<close>

definition commit :: "'w EngineState \<Rightarrow> ('a \<times> 'w EffectDb) res \<Rightarrow> 'w EngineState" where
  "commit st r = (case r of Inl _ \<Rightarrow> st | Inr (_, db) \<Rightarrow> st\<lparr>en_db := db\<rparr>)"

definition onClaim :: "'w EngineState \<Rightarrow> nat \<Rightarrow> (EffectRow \<Rightarrow> ('a \<times> 'w EffectDb) res) \<Rightarrow> 'w EngineState" where
  "onClaim st i f = (if i < length (en_claims st) then commit st (f (en_claims st ! i)) else st)"

definition localOf :: "('w, 'x) EngineEnv \<Rightarrow> int \<Rightarrow> 'w EffectDb \<Rightarrow> EffectRow \<Rightarrow> (ProcessResult \<times> 'w EffectDb) res" where
  "localOf env now db c = (case ee_handlers env (ef_effectKind c) of
     Some (LocalHandler run) \<Rightarrow> processLocal env now run c db | _ \<Rightarrow> Inr (ResultStale, db))"

definition externalOf :: "('w, 'x) EngineEnv \<Rightarrow> int \<Rightarrow> string \<Rightarrow> 'w EffectDb \<Rightarrow> EffectRow \<Rightarrow> (ProcessResult \<times> 'w EffectDb) res" where
  "externalOf env now ref db c = (case ee_handlers env (ef_effectKind c) of
     Some (ExternalHandler _ followUp) \<Rightarrow> externalCommit env now followUp c ref db | _ \<Rightarrow> Inr (ResultStale, db))"

fun engineStep :: "('w, 'x) EngineEnv \<Rightarrow> 'w EffectOp \<Rightarrow> 'w EngineState \<Rightarrow> 'w EngineState" where
  "engineStep env (OpRecord now k oi reqs) st = commit st (enqueueEffects env now k oi reqs (en_db st))"
| "engineStep env (OpExecute now token ids) st = commit st (bindE (executeEffectsNow env now token ids (en_db st)) (\<lambda>db. Inr ((), db)))"
| "engineStep env (OpClaim now token limit locked) st = (case claimDueEffects now token limit locked (en_db st) of
     (rows, db) \<Rightarrow> st\<lparr>en_db := db, en_claims := en_claims st @ rows\<rparr>)"
| "engineStep env (OpLocal now i) st = onClaim st i (localOf env now (en_db st))"
| "engineStep env (OpCommit now i ref) st = onClaim st i (externalOf env now ref (en_db st))"
| "engineStep env (OpFail now i reason) st = onClaim st i (\<lambda>c. failClaimed env now c reason (en_db st))"
| "engineStep env (OpRequeue now i) st = commit st (Inr (requeueTerminalEffect now i (en_db st)))"
| "engineStep env (OpApprove now at' token i oid who) st = commit st (approveLocked env now at' token i oid who (en_db st))"
| "engineStep env (OpElsewhere g ops) st = st\<lparr>en_db := (en_db st)\<lparr>eq_world := g (eq_world (en_db st)), eq_operations := ops\<rparr>\<rparr>"

section \<open>The instrumented engine\<close>

text \<open>The same handlers, writing to a log the effect they finish.\<close>

definition forget :: "('w \<times> string list) EffectDb \<Rightarrow> 'w EffectDb" where
  "forget db = \<lparr>eq_effects = eq_effects db, eq_operations = eq_operations db, eq_receipts = eq_receipts db, eq_audit = eq_audit db,
     eq_endpoints = eq_endpoints db, eq_deliveries = eq_deliveries db, eq_world = fst (eq_world db)\<rparr>"

definition appliedLog :: "('w \<times> string list) EffectDb \<Rightarrow> string list" where
  "appliedLog db = snd (eq_world db)"

fun completes :: "EffectOutcome \<Rightarrow> bool" where
  "completes OutcomeVoid = True"
| "completes (OutcomeDone _) = True"
| "completes _ = False"

definition loggedRun :: "(EffectRow \<Rightarrow> 'w EffectDb \<Rightarrow> (EffectOutcome \<times> EngineCall list \<times> 'w) res) \<Rightarrow> EffectRow \<Rightarrow> ('w \<times> string list) EffectDb \<Rightarrow> (EffectOutcome \<times> EngineCall list \<times> 'w \<times> string list) res" where
  "loggedRun run row db = bindE (run row (forget db)) (\<lambda>(out, calls, w).
     Inr (out, calls, w, if completes out then appliedLog db @ [ef_id row] else appliedLog db))"

definition loggedFollowUp :: "(EffectRow \<Rightarrow> string \<Rightarrow> 'w EffectDb \<Rightarrow> (EngineCall list \<times> 'w) res) option \<Rightarrow> EffectRow \<Rightarrow> string \<Rightarrow> ('w \<times> string list) EffectDb \<Rightarrow> (EngineCall list \<times> 'w \<times> string list) res" where
  "loggedFollowUp followUp row ref db = bindE (case followUp of None \<Rightarrow> Inr ([], fst (eq_world db)) | Some c \<Rightarrow> c row ref (forget db))
     (\<lambda>(calls, w). Inr (calls, w, appliedLog db @ [ef_id row]))"

fun loggedHandler :: "('w, 'x) EffectHandler \<Rightarrow> ('w \<times> string list, 'x) EffectHandler" where
  "loggedHandler (LocalHandler run) = LocalHandler (loggedRun run)"
| "loggedHandler (ExternalHandler call followUp) = ExternalHandler call (Some (loggedFollowUp followUp))"

definition instrumented :: "('w, 'x) EngineEnv \<Rightarrow> ('w \<times> string list, 'x) EngineEnv" where
  "instrumented env = \<lparr>ee_newId = ee_newId env, ee_String = ee_String env, ee_handlers = (\<lambda>k. map_option loggedHandler (ee_handlers env k))\<rparr>"

fun loggedOp :: "'w EffectOp \<Rightarrow> ('w \<times> string list) EffectOp" where
  "loggedOp (OpRecord now k oi reqs) = OpRecord now k oi reqs"
| "loggedOp (OpExecute now token ids) = OpExecute now token ids"
| "loggedOp (OpClaim now token limit locked) = OpClaim now token limit locked"
| "loggedOp (OpLocal now i) = OpLocal now i"
| "loggedOp (OpCommit now i ref) = OpCommit now i ref"
| "loggedOp (OpFail now i reason) = OpFail now i reason"
| "loggedOp (OpRequeue now i) = OpRequeue now i"
| "loggedOp (OpApprove now at' token i oid who) = OpApprove now at' token i oid who"
| "loggedOp (OpElsewhere g ops) = OpElsewhere (map_prod g id) ops"

definition forgetState :: "('w \<times> string list) EngineState \<Rightarrow> 'w EngineState" where
  "forgetState st = \<lparr>en_db = forget (en_db st), en_claims = en_claims st\<rparr>"

section \<open>Erasing the log\<close>

definition erase :: "('a \<times> ('w \<times> string list) EffectDb) res \<Rightarrow> ('a \<times> 'w EffectDb) res" where
  "erase r = (case r of Inl e \<Rightarrow> Inl e | Inr (a, db) \<Rightarrow> Inr (a, forget db))"

named_theorems erasing \<open>operations commute with erasing the log\<close>

lemma erase_simps [simp]: "erase (Inl e) = Inl e" "erase (Inr (a, db)) = Inr (a, forget db)"
  by (simp_all add: erase_def)

lemma erase_bindE:
  "(\<And>a db. m = Inr (a, db) \<Longrightarrow> erase (f (a, db)) = g (a, forget db)) \<Longrightarrow> erase (bindE m f) = bindE (erase m) g"
  by (cases m) (auto simp: erase_def)

lemma forget_fields [simp]:
  "eq_effects (forget db) = eq_effects db" "eq_operations (forget db) = eq_operations db" "eq_receipts (forget db) = eq_receipts db"
  "eq_audit (forget db) = eq_audit db" "eq_endpoints (forget db) = eq_endpoints db" "eq_deliveries (forget db) = eq_deliveries db"
  "eq_world (forget db) = fst (eq_world db)"
  by (simp_all add: forget_def)

lemma forget_updates [simp]:
  "forget (db\<lparr>eq_effects := e\<rparr>) = (forget db)\<lparr>eq_effects := e\<rparr>" "forget (db\<lparr>eq_operations := q\<rparr>) = (forget db)\<lparr>eq_operations := q\<rparr>"
  "forget (db\<lparr>eq_receipts := p\<rparr>) = (forget db)\<lparr>eq_receipts := p\<rparr>" "forget (db\<lparr>eq_audit := a\<rparr>) = (forget db)\<lparr>eq_audit := a\<rparr>"
  "forget (db\<lparr>eq_deliveries := d\<rparr>) = (forget db)\<lparr>eq_deliveries := d\<rparr>" "forget (db\<lparr>eq_world := w\<rparr>) = (forget db)\<lparr>eq_world := fst w\<rparr>"
  by (simp_all add: forget_def)

lemma logged_fields [simp]: "ee_newId (instrumented env) = ee_newId env" "ee_String (instrumented env) = ee_String env"
  "ee_handlers (instrumented env) k = map_option loggedHandler (ee_handlers env k)"
  by (simp_all add: instrumented_def)

lemma reviewText_logged [erasing]: "reviewText (instrumented env) payload = reviewText env payload"
  by (simp add: reviewText_def split: option.split json.split)

lemma newEffect_logged [erasing]: "newEffect (instrumented env) = newEffect env"
  by (intro ext) (simp add: newEffect_def Let_def erasing)

lemma announceTerminal_forget [erasing]: "forget (announceTerminal r db) = announceTerminal r (forget db)"
  by (simp add: announceTerminal_def emitEvent_def)

lemma updateEffects_forget [erasing]: "updateEffects P f (forget db) = map_prod id forget (updateEffects P f db)"
  by (simp add: updateEffects_def)

lemma enqueueOne_erase [erasing]: "erase (enqueueOne (instrumented env) now k oi req db) = enqueueOne env now k oi req (forget db)"
  by (simp add: enqueueOne_def Let_def erasing)

lemma enqueueEffects_erase [erasing]: "erase (enqueueEffects (instrumented env) now k oi reqs db) = enqueueEffects env now k oi reqs (forget db)"
proof (induction reqs arbitrary: db)
  case (Cons req reqs)
  show ?case by (simp flip: enqueueOne_erase) (intro erase_bindE; simp flip: Cons; intro erase_bindE; simp)
qed simp

lemma fencedUpdate_erase [erasing]: "erase (fencedUpdate row f db) = fencedUpdate row f (forget db)"
  by (cases "updateEffects (claimHolds row) f db") (auto simp: fencedUpdate_def erasing split: list.splits)

lemma erase_db:
  "(\<And>db. m = Inr db \<Longrightarrow> erase (f db) = g (forget db)) \<Longrightarrow> erase (bindE m f) = bindE (map_sum id forget m) g"
  by (cases m) auto

lemma erase_out:
  "(\<And>a db. m = Inr (a, db) \<Longrightarrow> map_sum id forget (f (a, db)) = g (a, forget db)) \<Longrightarrow> map_sum id forget (bindE m f) = bindE (erase m) g"
  by (cases m) (auto simp: erase_def)

lemma markTerminal_erase [erasing]: "map_sum id forget (markTerminal (instrumented env) now row reason db) = markTerminal env now row reason (forget db)"
  unfolding markTerminal_def Let_def fencedUpdate_erase[symmetric]
  by (rule erase_out, simp only: prod.case announceTerminal_forget[symmetric] enqueueEffects_erase[symmetric])
    (auto intro: erase_out)

lemma markRetryOrTerminal_erase [erasing]:
  "erase (markRetryOrTerminal (instrumented env) now row retry db) = markRetryOrTerminal env now row retry (forget db)"
  unfolding markRetryOrTerminal_def markTerminal_erase[symmetric] fencedUpdate_erase[symmetric]
  by (auto intro!: erase_db erase_bindE)

lemma markDone_erase [erasing]: "erase (markDone now row result db) = markDone now row result (forget db)"
  unfolding markDone_def fencedUpdate_erase[symmetric] by (auto intro!: erase_bindE)

lemma applyOutcome_erase [erasing]: "erase (applyOutcome (instrumented env) now row out db) = applyOutcome env now row out (forget db)"
proof (cases out)
  case (OutcomeTerminal reason)
  then show ?thesis by (simp flip: markTerminal_erase) (rule erase_db, simp)
qed (simp_all add: erasing)

lemma engineCall_forget [erasing]: "forget (engineCall now e c db) = engineCall now e c (forget db)"
  by (cases c) (simp_all add: resolveReviewTasksForEffect_def recordOperationLicense_def erasing)

lemma engineCalls_forget [erasing]: "forget (fold (engineCall now e) calls db) = fold (engineCall now e) calls (forget db)"
  by (induction calls arbitrary: db) (simp_all add: engineCall_forget)

lemma handlerWrites_forget [erasing]: "forget (handlerWrites now e calls w db) = handlerWrites now e calls (fst w) (forget db)"
  by (simp add: handlerWrites_def erasing)

lemma loggedRun_cases:
  "loggedRun run row db = (case run row (forget db) of Inl e \<Rightarrow> Inl e
     | Inr (out, calls, w) \<Rightarrow> Inr (out, calls, w, if completes out then appliedLog db @ [ef_id row] else appliedLog db))"
  by (simp add: loggedRun_def bindE_def)

lemma processLocal_erase [erasing]:
  "erase (processLocal (instrumented env) now (loggedRun run) row db) = processLocal env now run row (forget db)"
proof (cases "find (claimHolds row) (eq_effects db)")
  case (Some cur)
  show ?thesis
    by (cases "run cur (forget db)") (auto simp: processLocal_def claimedRow_def Some loggedRun_cases erasing)
qed (simp add: processLocal_def claimedRow_def)

lemma localOf_erase [erasing]: "erase (localOf (instrumented env) now db c) = localOf env now (forget db) c"
proof (cases "ee_handlers env (ef_effectKind c)")
  case (Some h)
  then show ?thesis by (cases h) (simp_all add: localOf_def erasing)
qed (simp add: localOf_def)

lemma forget_world:
  "(forget db)\<lparr>eq_world := fst (eq_world db)\<rparr> = forget db" "(forget db)\<lparr>eq_receipts := p, eq_world := fst (eq_world db)\<rparr> = (forget db)\<lparr>eq_receipts := p\<rparr>"
  by (simp_all add: forget_def)

lemma externalCommit_erase [erasing]:
  "erase (externalCommit (instrumented env) now (Some (loggedFollowUp followUp)) row ref db) = externalCommit env now followUp row ref (forget db)"
proof (cases "find (claimHolds row) (eq_effects db)")
  case (Some cur)
  let ?db = "if map_of (eq_receipts db) (ef_id row) = None then db\<lparr>eq_receipts := eq_receipts db @ [(ef_id row, ref)]\<rparr> else db"
  show ?thesis
  proof (cases followUp)
    case None
    then show ?thesis
      by (simp add: externalCommit_def claimedRow_def Some loggedFollowUp_def erasing Let_def handlerWrites_def forget_world)
  next
    case (Some f)
    then show ?thesis using \<open>find _ _ = _\<close>
      by (cases "f cur ref (forget ?db)") (auto simp: externalCommit_def claimedRow_def loggedFollowUp_def erasing Let_def bindE_assoc)
  qed
qed (simp add: externalCommit_def claimedRow_def)

lemma externalOf_erase [erasing]: "erase (externalOf (instrumented env) now ref db c) = externalOf env now ref (forget db) c"
proof (cases "ee_handlers env (ef_effectKind c)")
  case (Some h)
  then show ?thesis by (cases h) (simp_all add: externalOf_def erasing)
qed (simp add: externalOf_def)

lemma failClaimed_erase [erasing]: "erase (failClaimed (instrumented env) now c reason db) = failClaimed env now c reason (forget db)"
  unfolding failClaimed_def markRetryOrTerminal_erase[symmetric]
  by (auto simp: erase_def split: sum.splits)

lemma executeOne_erase [erasing]: "map_sum id forget (executeOne (instrumented env) now token row db) = executeOne env now token row (forget db)"
proof (cases "ee_handlers env (ef_effectKind row)")
  case (Some h)
  show ?thesis
  proof (cases h)
    case (LocalHandler run)
    obtain rows db1 where u: "updateEffects (\<lambda>r. ef_id r = ef_id row \<and> ef_status r = EffectPending) (claimWith now (token (ef_id row)) (ef_attempts row + 1)) db = (rows, db1)"
      by fastforce
    show ?thesis
    proof (cases rows)
      case (Cons claimed rest)
      have "map_sum id forget (bindE (applyOutcome (instrumented env) now claimed out (handlerWrites now claimed calls w db1)) (\<lambda>(_, db2). Inr db2))
        = bindE (applyOutcome env now claimed out (forget (handlerWrites now claimed calls w db1))) (\<lambda>(_, db2). Inr db2)" for out calls w
        unfolding applyOutcome_erase[symmetric] by (rule erase_out) simp
      then show ?thesis using Some LocalHandler Cons u
        by (cases "run claimed (forget db1)") (auto simp: executeOne_def erasing loggedRun_cases)
    qed (use Some LocalHandler u in \<open>simp add: executeOne_def erasing\<close>)
  qed (simp add: executeOne_def Some)
qed (simp add: executeOne_def)

lemma foldE_erase:
  assumes "\<And>x db. map_sum id forget (f x db) = g x (forget db)"
  shows "map_sum id forget (foldE f xs db) = foldE g xs (forget db)"
proof (induction xs arbitrary: db)
  case (Cons x xs)
  show ?case using Cons assms[of x db] by (cases "f x db") (auto simp flip: assms)
qed simp

lemma executeEffectsNow_erase [erasing]: "map_sum id forget (executeEffectsNow (instrumented env) now token ids db) = executeEffectsNow env now token ids (forget db)"
  by (simp add: executeEffectsNow_def foldE_erase[where f = "executeOne (instrumented env) now token" and g = "executeOne env now token"] erasing)

lemma requeue_erase [erasing]: "requeueTerminalEffect now i (forget db) = map_prod id forget (requeueTerminalEffect now i db)"
  by (simp add: requeueTerminalEffect_def updateEffects_def)

lemma approval_forget [erasing]: "forget (recordEffectIssuanceApproval i a db) = recordEffectIssuanceApproval i a (forget db)"
  by (simp add: recordEffectIssuanceApproval_def erasing)

lemma executeThen_erase:
  "erase (bindE (executeEffectsNow (instrumented env) now token ids db) (\<lambda>d. Inr (f (eq_effects d), d)))
     = bindE (executeEffectsNow env now token ids (forget db)) (\<lambda>d. Inr (f (eq_effects d), d))"
  unfolding executeEffectsNow_erase[symmetric] by (rule erase_db) simp

lemma approveLocked_erase [erasing]:
  "erase (approveLocked (instrumented env) now at' token i oid who db) = approveLocked env now at' token i oid who (forget db)"
proof (cases "find (\<lambda>r. ef_id r = i) (eq_effects db)")
    case (Some cur)
    let ?db = "recordEffectIssuanceApproval i (approvalJson at' who i oid) db"
    let ?db2 = "?db\<lparr>eq_audit := eq_audit ?db @ [approvedAudit who i oid cur]\<rparr>"
    have db2: "(recordEffectIssuanceApproval i (approvalJson at' who i oid) (forget db))\<lparr>eq_audit := eq_audit (recordEffectIssuanceApproval i (approvalJson at' who i oid) (forget db)) @ [approvedAudit who i oid cur]\<rparr> = forget ?db2"
      by (simp flip: approval_forget)
    obtain b db3 where req: "requeueTerminalEffect now i ?db2 = (b, db3)" by fastforce
    show ?thesis unfolding approveLocked_def Let_def
      by (simp only: forget_fields Some option.case db2 requeue_erase req map_prod_simp prod.case)
        (cases b; simp add: executeThen_erase[where f = "\<lambda>rows. \<lparr>ar_effectId = i, ar_orderId = oid, ar_approvedNow = True,
          ar_status = map_option ef_status (find (\<lambda>r. ef_id r = i) rows)\<rparr>"])
qed (simp add: approveLocked_def)

section \<open>The machine erased\<close>

lemma commit_erase: "forgetState (commit st r) = commit (forgetState st) (erase r)"
  by (simp add: commit_def forgetState_def erase_def split: sum.split prod.split)

lemma onClaim_erase: "(\<And>c. erase (f c) = g c) \<Longrightarrow> forgetState (onClaim st i f) = onClaim (forgetState st) i g"
  by (simp add: onClaim_def commit_erase) (simp add: forgetState_def)

text \<open>The engine is the instrumented engine with its log erased.\<close>

lemma engineStep_erase: "forgetState (engineStep (instrumented env) (loggedOp op) st) = engineStep env op (forgetState st)"
proof -
  have db: "en_db (forgetState st) = forget (en_db st)" by (simp add: forgetState_def)
  show ?thesis
  proof (cases op)
    case (OpExecute now token ids)
    then show ?thesis unfolding OpExecute loggedOp.simps engineStep.simps commit_erase db executeEffectsNow_erase[symmetric]
      by (subst erase_db[where g = "\<lambda>d. Inr ((), d)"]) simp_all
  next
    case (OpClaim now token limit locked)
    then show ?thesis by (simp add: claimDueEffects_def claimable_def updateEffects_def Let_def forgetState_def)
  next
    case (OpElsewhere g ops)
    then show ?thesis by (simp add: forgetState_def)
  next
    case (OpRequeue now i)
    then show ?thesis by (cases "requeueTerminalEffect now i (en_db st)") (simp add: commit_erase db erasing)
  qed (simp_all add: commit_erase onClaim_erase erasing db)
qed

lemma run_erase: "forgetState (fold (engineStep (instrumented env)) (map loggedOp ops) st) = fold (engineStep env) ops (forgetState st)"
  by (induction ops arbitrary: st) (simp_all add: engineStep_erase)

end
