(* ===== verification/QueueLaws.thy ===== *)
theory QueueLaws
  imports EffectLaws
begin

text \<open>
  The machine of the pending-effects engine: an effect is applied once, the tables keep their invariant, a batch respects
  the rank of its effects; a superseded claimant holds no live claim, and the worker is a run of the machine.
\<close>

section \<open>Every transaction applies an effect at most once\<close>

definition receiptIds :: "'w EffectDb \<Rightarrow> string set" where
  "receiptIds db = set (map fst (eq_receipts db))"

text \<open>From one state to the next: the effects that became done are the ones the log gained, each once.\<close>

definition applies :: "('w \<times> string list) EffectDb \<Rightarrow> ('w \<times> string list) EffectDb \<Rightarrow> bool" where
  "applies db db' \<longleftrightarrow> queueOk (eq_effects db') \<and> named (eq_effects db) \<subseteq> named (eq_effects db')
     \<and> (\<exists>ids. appliedLog db' = appliedLog db @ ids \<and> distinct ids \<and> set ids \<inter> doneIds (eq_effects db) = {}
          \<and> doneIds (eq_effects db') = doneIds (eq_effects db) \<union> set ids \<and> receiptIds db' \<subseteq> receiptIds db \<union> set ids)"

lemma applies_quiet:
  "\<lbrakk>queueOk (eq_effects db'); named (eq_effects db) \<subseteq> named (eq_effects db'); doneIds (eq_effects db') = doneIds (eq_effects db);
    appliedLog db' = appliedLog db; eq_receipts db' = eq_receipts db\<rbrakk> \<Longrightarrow> applies db db'"
  by (auto simp: applies_def receiptIds_def)

lemma applies_refl: "queueOk (eq_effects db) \<Longrightarrow> applies db db"
  by (rule applies_quiet) simp_all

lemma applies_ok: "applies db db' \<Longrightarrow> queueOk (eq_effects db')"
  by (simp add: applies_def)

lemma applies_named: "applies db db' \<Longrightarrow> named (eq_effects db) \<subseteq> named (eq_effects db')"
  by (simp add: applies_def)

lemma applies_trans:
  assumes "applies db1 db2" "applies db2 db3"
  shows "applies db1 db3"
proof -
  obtain ids where 1: "appliedLog db2 = appliedLog db1 @ ids" "distinct ids" "set ids \<inter> doneIds (eq_effects db1) = {}"
    "doneIds (eq_effects db2) = doneIds (eq_effects db1) \<union> set ids" "receiptIds db2 \<subseteq> receiptIds db1 \<union> set ids"
    using assms(1) by (auto simp: applies_def)
  obtain ids' where 2: "appliedLog db3 = appliedLog db2 @ ids'" "distinct ids'" "set ids' \<inter> doneIds (eq_effects db2) = {}"
    "doneIds (eq_effects db3) = doneIds (eq_effects db2) \<union> set ids'" "receiptIds db3 \<subseteq> receiptIds db2 \<union> set ids'"
    using assms(2) by (auto simp: applies_def)
  have "appliedLog db3 = appliedLog db1 @ (ids @ ids') \<and> distinct (ids @ ids') \<and> set (ids @ ids') \<inter> doneIds (eq_effects db1) = {}
    \<and> doneIds (eq_effects db3) = doneIds (eq_effects db1) \<union> set (ids @ ids') \<and> receiptIds db3 \<subseteq> receiptIds db1 \<union> set (ids @ ids')"
    using 1 2 by (auto simp: subset_iff)
  then show ?thesis using assms by (auto simp: applies_def)
qed

text \<open>Every transaction but the worker's claim creates no live claim.\<close>

definition advances :: "('w \<times> string list) EffectDb \<Rightarrow> ('w \<times> string list) EffectDb \<Rightarrow> bool" where
  "advances db db' \<longleftrightarrow> applies db db' \<and> liveClaims (eq_effects db') \<subseteq> liveClaims (eq_effects db)"

lemma advances_refl: "queueOk (eq_effects db) \<Longrightarrow> advances db db"
  by (simp add: advances_def applies_refl)

lemma advances_ok: "advances db db' \<Longrightarrow> queueOk (eq_effects db')"
  unfolding advances_def using applies_ok by blast

lemma advances_trans: "\<lbrakk>advances db1 db2; advances db2 db3\<rbrakk> \<Longrightarrow> advances db1 db3"
  by (auto simp: advances_def intro: applies_trans)

lemma named_core_map: "named (map core rows) = named rows"
  by (simp add: named_def image_image)

lemma named_core: "map core rows = map core rows' \<Longrightarrow> named rows = named rows'"
  by (metis named_core_map)

lemma matches_named: "\<lbrakk>queueOk rows; (ef_id c, identity c) \<in> named rows\<rbrakk> \<Longrightarrow> matches rows c"
  unfolding matches_def named_def queueOk_def using rowsBase_unique[of rows] by fastforce

lemma matches_core: "map core rows = map core rows' \<Longrightarrow> matches rows = matches rows'"
proof -
  have "matches rows c \<longleftrightarrow> (\<forall>(i, n)\<in>named rows. i = ef_id c \<longrightarrow> n = identity c)" for rows c
    by (auto simp: matches_def named_def)
  then show "map core rows = map core rows' \<Longrightarrow> matches rows = matches rows'" using named_core[of rows rows'] by presburger
qed

text \<open>Handlers write to the core columns of no row.\<close>

lemma engineCall_core: "map core (eq_effects (engineCall now e c db)) = map core (eq_effects db)"
  "eq_world (engineCall now e c db) = eq_world db" "eq_receipts (engineCall now e c db) = eq_receipts db"
  by (cases c; simp add: resolveReviewTasksForEffect_def recordOperationLicense_def core_def)+

lemma handlerWrites_core: "map core (eq_effects (handlerWrites now e calls w db)) = map core (eq_effects db)"
  "eq_world (handlerWrites now e calls w db) = w" "eq_receipts (handlerWrites now e calls w db) = eq_receipts db"
proof -
  have "map core (eq_effects (fold (engineCall now e) calls d)) = map core (eq_effects d) \<and> eq_world (fold (engineCall now e) calls d) = eq_world d
    \<and> eq_receipts (fold (engineCall now e) calls d) = eq_receipts d" for d :: "'a EffectDb"
    by (induction calls arbitrary: d) (simp_all add: engineCall_core)
  from this[of "db\<lparr>eq_world := w\<rparr>"]
  show "map core (eq_effects (handlerWrites now e calls w db)) = map core (eq_effects db)"
    "eq_world (handlerWrites now e calls w db) = w" "eq_receipts (handlerWrites now e calls w db) = eq_receipts db"
    by (simp_all add: handlerWrites_def)
qed

lemma finished_applies:
  assumes fin: "finished cur d db1 db'" and core: "map core (eq_effects db1) = map core (eq_effects db)"
    and log: "appliedLog db1 = appliedLog db @ (if d then [ef_id cur] else [])"
    and rec: "receiptIds db1 \<subseteq> receiptIds db \<union> (if d then {ef_id cur} else {})"
  shows "applies db db'" "liveClaims (eq_effects db') \<subseteq> {(i, t) \<in> liveClaims (eq_effects db). i \<noteq> ef_id cur}"
proof -
  show "liveClaims (eq_effects db') \<subseteq> {(i, t) \<in> liveClaims (eq_effects db). i \<noteq> ef_id cur}" using fin held_core[OF core] by (simp add: finished_def)
  have "appliedLog db' = appliedLog db1" using fin by (simp add: finished_def appliedLog_def)
  moreover have "receiptIds db' = receiptIds db1" using fin by (simp add: finished_def receiptIds_def)
  ultimately show "applies db db'" using fin log rec doneIds_core[OF core] named_core[OF core] unfolding applies_def
    by (intro conjI exI[of _ "if d then [ef_id cur] else []"]; cases d) (auto simp: finished_def)
qed

lemma outcome_applies:
  assumes ok: "queueOk (eq_effects db)" and m: "matches (eq_effects db) cur"
    and out: "applyOutcome env now cur out (handlerWrites now cur calls (w, if completes out then appliedLog db @ [ef_id cur] else appliedLog db) db) = Inr (res, db')"
  shows "applies db db'" "liveClaims (eq_effects db') \<subseteq> {(i, t) \<in> liveClaims (eq_effects db). i \<noteq> ef_id cur}"
proof -
  let ?db = "handlerWrites now cur calls (w, if completes out then appliedLog db @ [ef_id cur] else appliedLog db) db"
  note h = handlerWrites_core[of now cur calls "(w, if completes out then appliedLog db @ [ef_id cur] else appliedLog db)" db]
  have fin: "finished cur (res = ResultDone) ?db db'" and res: "res = ResultDone \<longleftrightarrow> completes out"
    using applyOutcome_finished[OF _ _ out] queueOk_core[OF h(1)] matches_core[OF h(1)] ok m by (cases out; simp)+
  show "applies db db'" "liveClaims (eq_effects db') \<subseteq> {(i, t) \<in> liveClaims (eq_effects db). i \<noteq> ef_id cur}"
    by (rule finished_applies[OF fin h(1)]; simp add: res h appliedLog_def receiptIds_def)+
qed

text \<open>A claim changes no finished row.\<close>

lemma claim_quiet:
  assumes ok: "queueOk rows" and P: "\<And>r. \<lbrakk>r \<in> set rows; P r\<rbrakk> \<Longrightarrow> ef_status r \<in> {EffectPending, EffectProcessing}"
  shows "queueOk (map (\<lambda>r. if P r then claimWith now (tok r) (att r) r else r) rows)"
    "doneIds (map (\<lambda>r. if P r then claimWith now (tok r) (att r) r else r) rows) = doneIds rows"
    "named (map (\<lambda>r. if P r then claimWith now (tok r) (att r) r else r) rows) = named rows"
proof -
  let ?f = "\<lambda>r. claimWith now (tok r) (att r) r"
  let ?rows = "map (\<lambda>r. if P r then ?f r else r) rows"
  have base: "rowsBase rows" using ok by (simp add: queueOk_def)
  have f: "ef_id (?f r) = ef_id r \<and> identity (?f r) = identity r" "ef_status (?f r) = EffectProcessing" for r by (simp_all add: claimWith_def identity_def)
  have sound: "rowSound (?f r)" if "r \<in> set rows" "P r" for r
    using P[OF that] that(1) base by (auto simp: rowSound_def claimWith_def isReview_def rowsBase_def)
  note b = rowsBase_map[OF base, of P ?f]
  have b: "rowsBase ?rows" "map identity ?rows = map identity rows" using b f sound by blast+
  have "allReviewed ?rows" unfolding allReviewed_def reviewed_cong[OF b(2)]
  proof (intro ballI impI)
    fix r' assume "r' \<in> set ?rows" "ef_status r' = EffectTerminal"
    then have "r' \<in> set rows" by (auto simp: claimWith_def)
    then show "reviewed rows r'" using ok \<open>ef_status r' = EffectTerminal\<close> by (simp add: queueOk_def allReviewed_def)
  qed
  with b show "queueOk ?rows" by (simp add: queueOk_def)
  show "named ?rows = named rows" by (rule named_map) (simp add: f)
  have "(ef_status (if P r then ?f r else r) = EffectDone) = (ef_status r = EffectDone)" if "r \<in> set rows" for r
    using P[OF that] f(2)[of r] by auto
  then show "doneIds ?rows = doneIds rows" by (intro doneIds_same) (simp add: f)
qed

lemma matches_self: "\<lbrakk>queueOk rows; r \<in> set rows\<rbrakk> \<Longrightarrow> matches rows r"
  by (rule matches_named) (auto simp: named_def)

lemma appended_advances:
  "\<lbrakk>appended db db'; rowsBase (eq_effects db'); queueOk (eq_effects db)\<rbrakk> \<Longrightarrow> advances db db'"
  unfolding advances_def using appended_held[of db db'] appended_allReviewed[of db db'] appended_doneIds[of db db'] named_appended[of db db']
  by (intro conjI applies_quiet) (simp_all add: queueOk_def appliedLog_def appended_def)

lemma enqueueEffects_advances: "\<lbrakk>enqueueEffects env now k oi reqs db = Inr (rows, db'); queueOk (eq_effects db)\<rbrakk> \<Longrightarrow> advances db db'"
  by (drule enqueueEffects_ok) (auto simp: queueOk_def intro: appended_advances)

lemma executeOne_advances:
  assumes ok: "queueOk (eq_effects db)" and ex: "executeOne (instrumented env) now token row db = Inr db'"
  shows "advances db db'"
proof -
  let ?P = "\<lambda>r. ef_id r = ef_id row \<and> ef_status r = EffectPending" and ?f = "claimWith now (token (ef_id row)) (ef_attempts row + 1)"
  define db1 where "db1 = snd (updateEffects ?P ?f db)"
  have claim: "applies db db1"
    using claim_quiet[OF ok, of ?P now "\<lambda>_. token (ef_id row)" "\<lambda>_. ef_attempts row + 1"] by (intro applies_quiet) (simp_all add: appliedLog_def db1_def)
  show ?thesis
  proof (cases "ee_handlers env (ef_effectKind row)")
    case h: (Some h)
    show ?thesis
    proof (cases h)
      case (ExternalHandler call followUp)
      then show ?thesis using ex h ok by (simp add: executeOne_def advances_refl)
    next
      case (LocalHandler run)
      show ?thesis
      proof (cases "filter ?P (eq_effects db)")
        case Nil
        then show ?thesis using ex h LocalHandler ok by (simp add: executeOne_def updateEffects_def advances_refl)
      next
        case (Cons claimed rest)
        have "claimed \<in> set (eq_effects db)" "?P claimed" using arg_cong[OF Cons, of set] by auto
        then have "?f claimed \<in> set (eq_effects db1)" by (auto simp: db1_def)
        then have m: "matches (eq_effects db1) (?f claimed)" using matches_self applies_ok[OF claim] by blast
        have u: "updateEffects ?P ?f db = (?f claimed # map ?f rest, db1)" using Cons by (simp add: updateEffects_def db1_def)
        obtain out calls w res where "applyOutcome (instrumented env) now (?f claimed) out (handlerWrites now (?f claimed) calls (w, if completes out then appliedLog db1 @ [ef_id (?f claimed)] else appliedLog db1) db1) = Inr (res, db')"
          using ex h LocalHandler u by (auto simp: executeOne_def loggedRun_def)
        note o = outcome_applies[OF applies_ok[OF claim] m this]
        have "liveClaims (eq_effects db1) \<subseteq> liveClaims (eq_effects db) \<union> {(i, t). i = ef_id row}"
          by (auto simp: db1_def liveClaims_def claimWith_def split: if_splits)
        then have "liveClaims (eq_effects db') \<subseteq> liveClaims (eq_effects db)" using o(2) \<open>?P claimed\<close> by (fastforce simp: claimWith_def)
        with o(1) claim show ?thesis by (auto simp: advances_def intro: applies_trans)
      qed
    qed
  qed (use ex in \<open>simp add: executeOne_def\<close>)
qed

lemma executeEffectsNow_advances:
  assumes "queueOk (eq_effects db)" "executeEffectsNow (instrumented env) now token ids db = Inr db'"
  shows "advances db db'"
  using assms(2)[unfolded executeEffectsNow_def] advances_refl[OF assms(1)]
  by (rule foldE_invariant) (blast intro: advances_trans executeOne_advances advances_ok)

lemma claimable_due: "c \<in> set (claimable now limit locked db) \<Longrightarrow> c \<in> set (eq_effects db) \<and> isDue now c \<and> \<not> list_ex (blocks c) (eq_effects db)"
  by (auto simp: claimable_def dest: in_set_takeD)

lemma claimDueEffects_applies:
  assumes ok: "queueOk (eq_effects db)" and claim: "claimDueEffects now token limit locked db = (rows, db')"
  shows "applies db db' \<and> set rows \<subseteq> set (eq_effects db')"
proof -
  let ?P = "\<lambda>r. ef_id r \<in> set (map ef_id (claimable now limit locked db))"
  have "ef_status r \<in> {EffectPending, EffectProcessing}" if r: "r \<in> set (eq_effects db)" "?P r" for r
  proof -
    obtain c where c: "c \<in> set (claimable now limit locked db)" "ef_id r = ef_id c" using r(2) by auto
    then have "r = c" using rowsBase_unique[of "eq_effects db" r c] ok r(1) claimable_due[OF c(1)] by (simp add: queueOk_def)
    then show ?thesis using claimable_due[OF c(1)] by (auto simp: isDue_def)
  qed
  note q = claim_quiet[OF ok, of ?P now "\<lambda>r. token (ef_id r)" "\<lambda>r. ef_attempts r + 1", OF this]
  have "eq_effects db' = map (\<lambda>r. if ?P r then claimWith now (token (ef_id r)) (ef_attempts r + 1) r else r) (eq_effects db)"
    "eq_world db' = eq_world db" "eq_receipts db' = eq_receipts db"
    using claim by (auto simp: claimDueEffects_def updateEffects_def)
  moreover have "set rows \<subseteq> set (eq_effects db')"
    using claim updateEffects_returned[of ?P "\<lambda>r. claimWith now (token (ef_id r)) (ef_attempts r + 1) r" db, THEN subsetD]
    by (auto simp: claimDueEffects_def byRank_def updateEffects_def)
  ultimately show ?thesis using q by (auto intro!: applies_quiet simp: appliedLog_def)
qed

lemma processLocal_advances:
  assumes ok: "queueOk (eq_effects db)" and p: "processLocal (instrumented env) now (loggedRun run) row db = Inr (res, db')"
  shows "advances db db'"
proof (cases "find (claimHolds row) (eq_effects db)")
  case (Some cur)
  then have "cur \<in> set (eq_effects db)" by (auto simp: find_Some_iff)
  then have m: "matches (eq_effects db) cur" using matches_self ok by blast
  obtain out calls w where "applyOutcome (instrumented env) now cur out (handlerWrites now cur calls (w, if completes out then appliedLog db @ [ef_id cur] else appliedLog db) db) = Inr (res, db')"
    using p Some by (auto simp: processLocal_def claimedRow_def loggedRun_def)
  from outcome_applies[OF ok m this] show ?thesis by (auto simp: advances_def)
qed (use ok p in \<open>simp add: processLocal_def claimedRow_def advances_refl\<close>)

lemma externalCommit_advances:
  assumes ok: "queueOk (eq_effects db)" and p: "externalCommit (instrumented env) now (Some (loggedFollowUp followUp)) row ref db = Inr (res, db')"
  shows "advances db db'"
proof (cases "find (claimHolds row) (eq_effects db)")
  case (Some cur)
  then have cur: "cur \<in> set (eq_effects db)" "ef_id cur = ef_id row" by (auto simp: find_Some_iff claimHolds_def)
  let ?db = "if map_of (eq_receipts db) (ef_id row) = None then db\<lparr>eq_receipts := eq_receipts db @ [(ef_id row, ref)]\<rparr> else db"
  obtain calls w where out: "applyOutcome (instrumented env) now cur OutcomeVoid (handlerWrites now cur calls (w, appliedLog ?db @ [ef_id cur]) ?db) = Inr (res, db')"
    using p Some by (auto simp: externalCommit_def claimedRow_def loggedFollowUp_def Let_def)
  let ?db1 = "handlerWrites now cur calls (w, appliedLog ?db @ [ef_id cur]) ?db"
  note h = handlerWrites_core[of now cur calls "(w, appliedLog ?db @ [ef_id cur])" ?db]
  have core: "map core (eq_effects ?db1) = map core (eq_effects db)" using h(1) by simp
  have "queueOk (eq_effects ?db1)" "matches (eq_effects ?db1) cur"
    using queueOk_core[OF core] matches_core[OF core] ok matches_self[OF ok cur(1)] by metis+
  from applyOutcome_finished[OF this out] have res: "res = ResultDone" and "finished cur (res = ResultDone) ?db1 db'" by blast+
  then have fin: "finished cur True ?db1 db'" by (simp only: res simp_thms)
  have "appliedLog ?db1 = appliedLog ?db @ [ef_id cur]" "appliedLog ?db = appliedLog db" "receiptIds ?db1 = receiptIds ?db"
    "receiptIds ?db \<subseteq> receiptIds db \<union> {ef_id cur}"
    using h(2,3) by (simp only: appliedLog_def snd_conv, simp add: appliedLog_def, simp only: receiptIds_def, auto simp: receiptIds_def cur(2))
  then have "applies db db'" "liveClaims (eq_effects db') \<subseteq> {(i, t) \<in> liveClaims (eq_effects db). i \<noteq> ef_id cur}"
    by (intro finished_applies[OF fin core]; simp only: if_True)+
  then show ?thesis by (auto simp: advances_def)
qed (use ok p in \<open>simp add: externalCommit_def claimedRow_def advances_refl\<close>)

lemma failClaimed_advances:
  assumes ok: "queueOk (eq_effects db)" and c: "matches (eq_effects db) c" and f: "failClaimed env now c reason db = Inr (res, db')"
  shows "advances db db'"
proof (cases "markRetryOrTerminal env now c \<lparr>er_reason = reason, er_delayMs = None, er_horizonMs = None\<rparr> db")
  case (Inl e)
  then show ?thesis using f ok by (auto simp: failClaimed_def advances_refl split: if_splits)
next
  case (Inr r)
  then have fin: "finished c False db db'" using f markRetryOrTerminal_finished[OF ok c, of env now _ res db'] by (auto simp: failClaimed_def)
  have "applies db db'" "liveClaims (eq_effects db') \<subseteq> {(i, t) \<in> liveClaims (eq_effects db). i \<noteq> ef_id c}"
    by (rule finished_applies[OF fin]; simp add: receiptIds_def)+
  then show ?thesis by (auto simp: advances_def)
qed

lemma requeue_advances:
  assumes ok: "queueOk (eq_effects db)"
  shows "advances db (snd (requeueTerminalEffect now i db))"
proof -
  let ?P = "\<lambda>r. ef_id r = i \<and> ef_status r = EffectTerminal \<and> ef_effectKind r \<noteq> ''admin_review''"
  let ?f = "\<lambda>r. r\<lparr>ef_status := EffectPending, ef_attempts := 0, ef_claimToken := None, ef_claimedAt := None, ef_lastError := None,
           ef_firstFailedAt := None, ef_nextAttemptAt := now, ef_updatedAt := now\<rparr>"
  let ?rows = "map (\<lambda>r. if ?P r then ?f r else r) (eq_effects db)"
  have base: "rowsBase (eq_effects db)" using ok by (simp add: queueOk_def)
  have b: "rowsBase ?rows" "map identity ?rows = map identity (eq_effects db)"
    by (rule rowsBase_map[OF base]; simp add: identity_def rowSound_def isReview_def)+
  have "allReviewed ?rows" unfolding allReviewed_def reviewed_cong[OF b(2)]
  proof (intro ballI impI)
    fix r' assume r': "r' \<in> set ?rows" "ef_status r' = EffectTerminal"
    then have "r' \<in> set (eq_effects db)" by auto
    then show "reviewed (eq_effects db) r'" using ok r'(2) by (simp add: queueOk_def allReviewed_def)
  qed
  moreover have "named ?rows = named (eq_effects db)" by (rule named_map) (simp add: identity_def)
  moreover have "doneIds ?rows = doneIds (eq_effects db)"
    by (rule doneIds_same) auto
  moreover have "liveClaims ?rows \<subseteq> liveClaims (eq_effects db)" by (rule held_subset) auto
  ultimately show ?thesis using b unfolding advances_def
    by (intro conjI applies_quiet) (simp_all add: requeueTerminalEffect_def updateEffects_def queueOk_def appliedLog_def)
qed

lemma approveLocked_advances:
  assumes ok: "queueOk (eq_effects db)" and a: "approveLocked (instrumented env) now at' token i oid who db = Inr (res, db')"
  shows "advances db db'"
proof -
  let ?db = "\<lambda>cur. (recordEffectIssuanceApproval i (approvalJson at' who i oid) db)\<lparr>eq_audit := eq_audit (recordEffectIssuanceApproval i (approvalJson at' who i oid) db) @ [approvedAudit who i oid cur]\<rparr>"
  have quiet: "advances db (?db cur)" for cur
  proof -
    have core: "map core (eq_effects (?db cur)) = map core (eq_effects db)"
      by (simp add: recordEffectIssuanceApproval_def core_def)
    show ?thesis using queueOk_core[OF core] named_core[OF core] doneIds_core[OF core] held_core[OF core] ok unfolding advances_def
      by (intro conjI applies_quiet) (simp_all add: appliedLog_def recordEffectIssuanceApproval_def)
  qed
  show ?thesis
  proof (cases "find (\<lambda>r. ef_id r = i) (eq_effects db)")
    case (Some cur)
    obtain b db3 where req: "requeueTerminalEffect now i (?db cur) = (b, db3)" by fastforce
    have "advances (?db cur) db3" using requeue_advances[OF advances_ok[OF quiet[of cur]], of now i] req by simp
    then have db3: "advances db db3" using quiet advances_trans by blast
    have "db' = db \<or> executeEffectsNow (instrumented env) now token [i] db3 = Inr db'"
      using a Some req by (auto simp: approveLocked_def Let_def split: if_splits bool.splits)
    then show ?thesis
      using db3 advances_refl[OF ok] executeEffectsNow_advances[OF advances_ok[OF db3]] advances_trans by blast
  qed (use a in \<open>simp add: approveLocked_def\<close>)
qed

section \<open>The invariant of the machine\<close>

definition stateOk :: "('w \<times> string list) EngineState \<Rightarrow> bool" where
  "stateOk st \<longleftrightarrow> queueOk (eq_effects (en_db st)) \<and> (\<forall>c\<in>set (en_claims st). (ef_id c, identity c) \<in> named (eq_effects (en_db st)))
     \<and> distinct (appliedLog (en_db st)) \<and> set (appliedLog (en_db st)) = doneIds (eq_effects (en_db st))
     \<and> receiptIds (en_db st) \<subseteq> doneIds (eq_effects (en_db st))"

lemma named_in: "r \<in> set rows \<Longrightarrow> (ef_id r, identity r) \<in> named rows"
  by (auto simp: named_def)

lemma applies_stateOk:
  assumes st: "stateOk st" and app: "applies (en_db st) db'" and cl: "set cs \<subseteq> set (en_claims st) \<union> set (eq_effects db')"
  shows "stateOk (st\<lparr>en_db := db', en_claims := cs\<rparr>)"
proof -
  have "(ef_id c, identity c) \<in> named (eq_effects db')" if "c \<in> set cs" for c
    using that cl st applies_named[OF app] named_in[of c "eq_effects db'"] unfolding stateOk_def by blast
  moreover have "receiptIds db' \<subseteq> doneIds (eq_effects db')" using st app unfolding stateOk_def applies_def by blast
  ultimately show ?thesis using st app by (auto simp: stateOk_def applies_def)
qed

lemma applies_db: "\<lbrakk>stateOk st; applies (en_db st) db'\<rbrakk> \<Longrightarrow> stateOk (st\<lparr>en_db := db'\<rparr>)"
  using applies_stateOk[of st db' "en_claims st"] by simp

text \<open>What a transaction of the machine does, the worker's claim apart.\<close>

definition quietStep :: "('w \<times> string list) EngineState \<Rightarrow> ('w \<times> string list) EngineState \<Rightarrow> bool" where
  "quietStep st st' \<longleftrightarrow> advances (en_db st) (en_db st') \<and> en_claims st' = en_claims st"

lemma commit_quiet:
  "\<lbrakk>stateOk st; \<And>a db'. r = Inr (a, db') \<Longrightarrow> advances (en_db st) db'\<rbrakk> \<Longrightarrow> quietStep st (commit st r)"
  using advances_refl[of "en_db st"] by (cases r) (auto simp: quietStep_def commit_def stateOk_def)

lemma onClaim_quiet:
  assumes st: "stateOk st" and f: "\<And>c a db'. \<lbrakk>matches (eq_effects (en_db st)) c; f c = Inr (a, db')\<rbrakk> \<Longrightarrow> advances (en_db st) db'"
  shows "quietStep st (onClaim st i f)"
proof (cases "i < length (en_claims st)")
  case True
  then have "matches (eq_effects (en_db st)) (en_claims st ! i)" using st matches_named by (simp add: stateOk_def)
  then have "quietStep st (commit st (f (en_claims st ! i)))" by (intro commit_quiet[OF st]) (rule f)
  then show ?thesis using True by (simp add: onClaim_def)
qed (use st advances_refl[of "en_db st"] in \<open>simp add: onClaim_def quietStep_def stateOk_def\<close>)

lemma localOf_advances: "\<lbrakk>queueOk (eq_effects db); localOf (instrumented env) now db c = Inr (res, db')\<rbrakk> \<Longrightarrow> advances db db'"
proof (cases "ee_handlers env (ef_effectKind c)")
  case (Some h)
  assume "queueOk (eq_effects db)" "localOf (instrumented env) now db c = Inr (res, db')"
  with Some show ?thesis by (cases h) (auto simp: localOf_def advances_refl dest: processLocal_advances)
qed (simp add: localOf_def advances_refl)

lemma externalOf_advances: "\<lbrakk>queueOk (eq_effects db); externalOf (instrumented env) now ref db c = Inr (res, db')\<rbrakk> \<Longrightarrow> advances db db'"
proof (cases "ee_handlers env (ef_effectKind c)")
  case (Some h)
  assume "queueOk (eq_effects db)" "externalOf (instrumented env) now ref db c = Inr (res, db')"
  with Some show ?thesis by (cases h) (auto simp: externalOf_def advances_refl dest: externalCommit_advances)
qed (simp add: externalOf_def advances_refl)

fun isClaim :: "'w EffectOp \<Rightarrow> bool" where
  "isClaim (OpClaim now token limit locked) = True"
| "isClaim _ = False"

lemma step_quiet:
  assumes st: "stateOk st" and op: "\<not> isClaim op"
  shows "quietStep st (engineStep (instrumented env) (loggedOp op) st)"
proof -
  have ok: "queueOk (eq_effects (en_db st))" using st by (simp add: stateOk_def)
  show ?thesis
  proof (cases op)
    case (OpExecute now token ids)
    then show ?thesis by (auto intro!: commit_quiet[OF st] dest: executeEffectsNow_advances[OF ok])
  next
    case (OpElsewhere g ops)
    have "applies (en_db st) ((en_db st)\<lparr>eq_world := map_prod g id (eq_world (en_db st)), eq_operations := ops\<rparr>)"
      using ok by (intro applies_quiet) (simp_all add: appliedLog_def)
    then show ?thesis using OpElsewhere by (simp add: quietStep_def advances_def)
  next
    case (OpRequeue now i)
    have "advances (en_db st) (snd (requeueTerminalEffect now i (en_db st)))" by (rule requeue_advances[OF ok])
    then show ?thesis using OpRequeue by (auto intro!: commit_quiet[OF st])
  qed (use op in \<open>auto intro!: commit_quiet[OF st] onClaim_quiet[OF st] dest: enqueueEffects_advances[OF _ ok] localOf_advances[OF ok]
        externalOf_advances[OF ok] failClaimed_advances[OF ok] approveLocked_advances[OF ok]\<close>)
qed

lemma step_stateOk:
  assumes st: "stateOk st"
  shows "stateOk (engineStep (instrumented env) (loggedOp op) st)"
proof (cases "isClaim op")
  case True
  then obtain now token limit locked where op: "op = OpClaim now token limit locked" by (cases op) auto
  obtain rows db' where claim: "claimDueEffects now token limit locked (en_db st) = (rows, db')" by fastforce
  have "applies (en_db st) db'" "set rows \<subseteq> set (eq_effects db')"
    using claimDueEffects_applies[OF _ claim] st by (auto simp: stateOk_def)
  then show ?thesis using applies_stateOk[OF st, of db' "en_claims st @ rows"] claim by (auto simp: op)
next
  case False
  then have q: "quietStep st (engineStep (instrumented env) (loggedOp op) st)" by (rule step_quiet[OF st])
  then have "engineStep (instrumented env) (loggedOp op) st = st\<lparr>en_db := en_db (engineStep (instrumented env) (loggedOp op) st)\<rparr>"
    by (cases st; cases "engineStep (instrumented env) (loggedOp op) st") (simp add: quietStep_def)
  then show ?thesis using q applies_db[OF st] by (metis quietStep_def advances_def)
qed

interpretation logged_engine: machine "\<lambda>op. engineStep (instrumented env) (loggedOp op)" stateOk for env
  by unfold_locales (rule step_stateOk)

definition startState :: "WebhookEndpoint list \<Rightarrow> 'w \<Rightarrow> 'w EngineState" where
  "startState eps w = \<lparr>en_db = \<lparr>eq_effects = [], eq_operations = [], eq_receipts = [], eq_audit = [], eq_endpoints = eps, eq_deliveries = [], eq_world = w\<rparr>, en_claims = []\<rparr>"

lemma startState_ok: "stateOk (startState eps (w, []))" "forgetState (startState eps (w, l)) = startState eps w"
  by (simp_all add: stateOk_def startState_def queueOk_def rowsBase_def allReviewed_def appliedLog_def doneIds_def receiptIds_def forgetState_def forget_def)

definition loggedRunOf :: "('w, 'x) EngineEnv \<Rightarrow> WebhookEndpoint list \<Rightarrow> 'w \<Rightarrow> 'w EffectOp list \<Rightarrow> ('w \<times> string list) EngineState" where
  "loggedRunOf env eps w ops = fold (engineStep (instrumented env)) (map loggedOp ops) (startState eps (w, []))"

lemma loggedRunOf_ok: "stateOk (loggedRunOf env eps w ops)"
  using logged_engine.run_inv[where env = env, OF startState_ok(1), where ls = ops] by (simp add: loggedRunOf_def fold_map comp_def)

lemma loggedRunOf_forget: "forgetState (loggedRunOf env eps w ops) = fold (engineStep env) ops (startState eps w)"
  by (simp add: loggedRunOf_def run_erase startState_ok)

lemma forgetState_db: "en_db (forgetState st) = forget (en_db st)" "en_claims (forgetState st) = en_claims st"
  by (simp_all add: forgetState_def)

lemma reach_ok: "queueOk (eq_effects (en_db (fold (engineStep env) ops (startState eps w))))"
  using loggedRunOf_ok[of env eps w ops] by (simp add: stateOk_def forgetState_db flip: loggedRunOf_forget)

text \<open>Done is final.\<close>

lemma step_done: "stateOk st \<Longrightarrow> doneIds (eq_effects (en_db st)) \<subseteq> doneIds (eq_effects (en_db (engineStep (instrumented env) (loggedOp op) st)))"
proof (cases "isClaim op")
  case True
  assume st: "stateOk st"
  obtain now token limit locked where op: "op = OpClaim now token limit locked" using True by (cases op) auto
  obtain rows db' where claim: "claimDueEffects now token limit locked (en_db st) = (rows, db')" by fastforce
  show ?thesis using claimDueEffects_applies[OF _ claim] st by (auto simp: op claim stateOk_def applies_def)
next
  case False
  assume "stateOk st"
  then show ?thesis using step_quiet[OF _ False, of st env] by (auto simp: quietStep_def advances_def applies_def)
qed

lemma run_done: "stateOk st \<Longrightarrow> doneIds (eq_effects (en_db st)) \<subseteq> doneIds (eq_effects (en_db (fold (engineStep (instrumented env)) (map loggedOp ops) st)))"
proof (induction ops arbitrary: st)
  case (Cons op ops)
  then show ?case using step_done[of st env op] step_stateOk[of st env op] by fastforce
qed simp

lemma reach_doneIds: "doneIds (eq_effects (en_db (fold (engineStep env) ops (startState eps w)))) = doneIds (eq_effects (en_db (loggedRunOf env eps w ops)))"
  by (simp add: forgetState_db flip: loggedRunOf_forget)

lemma reach_done:
  "doneIds (eq_effects (en_db (fold (engineStep env) ops (startState eps w)))) \<subseteq> doneIds (eq_effects (en_db (fold (engineStep env) (ops @ rest) (startState eps w))))"
proof -
  have "loggedRunOf env eps w (ops @ rest) = fold (engineStep (instrumented env)) (map loggedOp rest) (loggedRunOf env eps w ops)"
    by (simp add: loggedRunOf_def)
  then show ?thesis unfolding reach_doneIds using run_done[OF loggedRunOf_ok[of env eps w ops], of env rest] by simp
qed

section \<open>Superseded claims\<close>

text \<open>Claim tokens are random: no two rows get the same, and none repeats an earlier claim's.\<close>

fun freshOp :: "'w EffectOp \<Rightarrow> EffectRow list \<Rightarrow> bool" where
  "freshOp (OpClaim now token limit locked) claims \<longleftrightarrow> (\<forall>c\<in>set claims. \<forall>i. ef_claimToken c \<noteq> Some (token i))"
| "freshOp _ claims = True"

fun freshRun :: "('w, 'x) EngineEnv \<Rightarrow> 'w EffectOp list \<Rightarrow> 'w EngineState \<Rightarrow> bool" where
  "freshRun env [] st = True"
| "freshRun env (op # ops) st = (freshOp op (en_claims st) \<and> freshRun env ops (engineStep env op st))"

definition superseded :: "EffectRow list \<Rightarrow> nat \<Rightarrow> bool" where
  "superseded claims k \<longleftrightarrow> (\<exists>l. k < l \<and> l < length claims \<and> ef_id (claims ! l) = ef_id (claims ! k))"

definition fenceOk :: "('w \<times> string list) EngineState \<Rightarrow> bool" where
  "fenceOk st \<longleftrightarrow> (\<forall>k. superseded (en_claims st) k \<longrightarrow> (ef_id (en_claims st ! k), ef_claimToken (en_claims st ! k)) \<notin> liveClaims (eq_effects (en_db st)))"

lemma claimed_rows:
  assumes ok: "queueOk (eq_effects db)" and claim: "claimDueEffects now token limit locked db = (rows, db')"
  shows "distinct (map ef_id rows)" "\<And>c. c \<in> set rows \<Longrightarrow> ef_claimToken c = Some (token (ef_id c))"
    "\<And>i t. (i, t) \<in> liveClaims (eq_effects db') \<Longrightarrow> i \<in> ef_id ` set rows \<and> t = Some (token i) \<or> i \<notin> ef_id ` set rows \<and> (i, t) \<in> liveClaims (eq_effects db)"
proof -
  let ?P = "\<lambda>r. ef_id r \<in> set (map ef_id (claimable now limit locked db))" and ?f = "\<lambda>r. claimWith now (token (ef_id r)) (ef_attempts r + 1) r"
  have rows: "rows = byRank (map ?f (filter ?P (eq_effects db)))" and db': "eq_effects db' = map (\<lambda>r. if ?P r then ?f r else r) (eq_effects db)"
    using claim by (auto simp: claimDueEffects_def updateEffects_def)
  have "distinct (map ef_id (eq_effects db))" using ok by (simp add: queueOk_def rowsBase_def)
  then have "distinct (map ef_id (map ?f (filter ?P (eq_effects db))))"
    by (simp add: comp_def claimWith_def distinct_map_filter)
  then show "distinct (map ef_id rows)" unfolding rows byRank_def distinct_map distinct_sort set_sort by blast
  have ids: "ef_id ` set rows = ef_id ` set (filter ?P (eq_effects db))"
    unfolding rows byRank_def by (simp add: claimWith_def image_image)
  show "ef_claimToken c = Some (token (ef_id c))" if "c \<in> set rows" for c
    using that unfolding rows byRank_def by (auto simp: claimWith_def)
  show "i \<in> ef_id ` set rows \<and> t = Some (token i) \<or> i \<notin> ef_id ` set rows \<and> (i, t) \<in> liveClaims (eq_effects db)" if h: "(i, t) \<in> liveClaims (eq_effects db')" for i t
  proof -
    obtain r where r: "r \<in> set (eq_effects db)" "ef_id (if ?P r then ?f r else r) = i" "ef_claimToken (if ?P r then ?f r else r) = t" "ef_status (if ?P r then ?f r else r) = EffectProcessing"
      using h unfolding held_iff db' set_map bex_simps(7) by blast
    show ?thesis
    proof (cases "?P r")
      case True
      then show ?thesis using r unfolding ids by (auto simp: claimWith_def)
    next
      case False
      then show ?thesis using r unfolding ids by (auto simp: held_iff)
    qed
  qed
qed

lemma superseded_append:
  assumes "superseded (cs @ rows) k" "distinct (map ef_id rows)"
  shows "k < length cs \<and> (superseded cs k \<or> ef_id (cs ! k) \<in> ef_id ` set rows)"
proof -
  obtain l where l: "k < l" "l < length (cs @ rows)" "ef_id ((cs @ rows) ! l) = ef_id ((cs @ rows) ! k)"
    using assms(1) by (auto simp: superseded_def)
  have k: "k < length cs"
  proof (rule ccontr)
    assume "\<not> k < length cs"
    then have "map ef_id rows ! (k - length cs) = map ef_id rows ! (l - length cs)" "k - length cs < l - length cs" "l - length cs < length rows"
      using l by (auto simp: nth_append)
    then show False using assms(2) by (metis distinct_conv_nth length_map less_imp_neq less_trans)
  qed
  show ?thesis
  proof (cases "l < length cs")
    case True
    then show ?thesis using l k by (auto simp: superseded_def nth_append)
  next
    case False
    then have "rows ! (l - length cs) \<in> set rows" using l(2) by simp
    moreover have "ef_id (cs ! k) = ef_id (rows ! (l - length cs))" using l(3) k False by (simp add: nth_append)
    ultimately show ?thesis using k by blast
  qed
qed

lemma step_fenceOk:
  assumes st: "stateOk st" and fence: "fenceOk st" and fresh: "freshOp op (en_claims st)"
  shows "fenceOk (engineStep (instrumented env) (loggedOp op) st)"
proof (cases "isClaim op")
  case True
  then obtain now token limit locked where op: "op = OpClaim now token limit locked" by (cases op) auto
  obtain rows db' where claim: "claimDueEffects now token limit locked (en_db st) = (rows, db')" by fastforce
  note c = claimed_rows[OF _ claim]
  have ok: "queueOk (eq_effects (en_db st))" using st by (simp add: stateOk_def)
  show ?thesis unfolding fenceOk_def
  proof (intro allI impI)
    fix k assume "superseded (en_claims (engineStep (instrumented env) (loggedOp op) st)) k"
    then have sup: "superseded (en_claims st @ rows) k" by (simp add: op claim)
    note k = superseded_append[OF sup c(1)[OF ok]]
    have "(ef_id (en_claims st ! k), ef_claimToken (en_claims st ! k)) \<notin> liveClaims (eq_effects db')"
    proof
      assume h: "(ef_id (en_claims st ! k), ef_claimToken (en_claims st ! k)) \<in> liveClaims (eq_effects db')"
      have "ef_claimToken (en_claims st ! k) \<noteq> Some (token i)" for i using fresh k by (simp add: op)
      then show False using c(3)[OF ok h] fence k by (auto simp: fenceOk_def)
    qed
    then show "(ef_id (en_claims (engineStep (instrumented env) (loggedOp op) st) ! k), ef_claimToken (en_claims (engineStep (instrumented env) (loggedOp op) st) ! k))
      \<notin> liveClaims (eq_effects (en_db (engineStep (instrumented env) (loggedOp op) st)))" using k by (simp add: op claim nth_append)
  qed
next
  case False
  then show ?thesis using step_quiet[OF st False, of env] fence by (auto simp: quietStep_def advances_def fenceOk_def)
qed

lemma run_fenceOk:
  "\<lbrakk>stateOk st; fenceOk st; freshRun env ops (forgetState st)\<rbrakk> \<Longrightarrow> fenceOk (fold (engineStep (instrumented env)) (map loggedOp ops) st)"
proof (induction ops arbitrary: st)
  case (Cons op ops)
  have "fenceOk (engineStep (instrumented env) (loggedOp op) st)" using Cons.prems by (intro step_fenceOk) (auto simp: forgetState_db)
  with Cons show ?case by (simp add: step_stateOk engineStep_erase)
qed simp

lemma not_held:
  assumes "(ef_id c, ef_claimToken c) \<notin> liveClaims (eq_effects db)"
  shows "\<not> claimHolds c r \<or> r \<notin> set (eq_effects db)"
  using assms by (auto simp: held_iff claimHolds_def)

text \<open>A claimant without a live claim writes nothing, whatever it tries.\<close>

lemma unheld_stale:
  assumes "(ef_id c, ef_claimToken c) \<notin> liveClaims (eq_effects db)"
  shows "localOf env now db c = Inr (ResultStale, db)" "externalOf env now ref db c = Inr (ResultStale, db)" "failClaimed env now c reason db = Inr (ResultStale, db)"
proof -
  have "find (claimHolds c) (eq_effects db) = None" "filter (claimHolds c) (eq_effects db) = []"
    using not_held[OF assms] by (auto simp: find_None_iff filter_empty_conv)
  then show "localOf env now db c = Inr (ResultStale, db)" "externalOf env now ref db c = Inr (ResultStale, db)" "failClaimed env now c reason db = Inr (ResultStale, db)"
    by (auto simp: localOf_def externalOf_def processLocal_def externalCommit_def claimedRow_def failClaimed_def markRetryOrTerminal_def
        markTerminal_def fencedUpdate_def updateEffects_def fenced_def split: option.split EffectHandler.split)
qed

section \<open>A batch respects the ranks\<close>

lemma sqlRank_effectRank: "p \<noteq> ''admin_review'' \<Longrightarrow> sqlRank p < sqlRank c \<longleftrightarrow> effectRank p < effectRank c"
  by (simp add: sqlRank_def effectRank_def EFFECT_KINDS_def)

lemma batch_ranked:
  assumes ok: "queueOk (eq_effects db)" and claim: "claimDueEffects now token limit locked db = (rows, db')" and c: "c \<in> set rows"
  shows "\<exists>r\<in>set (eq_effects db). c = claimWith now (token (ef_id r)) (ef_attempts r + 1) r \<and> isDue now r \<and> \<not> locked (ef_id r)
    \<and> (\<forall>p\<in>set (eq_effects db'). ef_operationKind p = ef_operationKind c \<and> ef_operationId p = ef_operationId c
          \<and> effectRank (ef_effectKind p) < effectRank (ef_effectKind c) \<longrightarrow> ef_status p \<in> {EffectDone, EffectTerminal})"
proof -
  let ?P = "\<lambda>r. ef_id r \<in> set (map ef_id (claimable now limit locked db))" and ?f = "\<lambda>r. claimWith now (token (ef_id r)) (ef_attempts r + 1) r"
  have rows: "rows = byRank (map ?f (filter ?P (eq_effects db)))" and db': "eq_effects db' = map (\<lambda>r. if ?P r then ?f r else r) (eq_effects db)"
    using claim by (auto simp: claimDueEffects_def updateEffects_def)
  have base: "rowsBase (eq_effects db)" using ok by (simp add: queueOk_def)
  have own: "q \<in> set (claimable now limit locked db)" if q: "q \<in> set (eq_effects db)" "?P q" for q
  proof -
    obtain x where "x \<in> set (claimable now limit locked db)" "ef_id q = ef_id x" using q(2) by auto
    then show ?thesis using rowsBase_unique[OF base q(1)] claimable_due by metis
  qed
  obtain r where r: "r \<in> set (eq_effects db)" "?P r" "c = ?f r" using c unfolding rows byRank_def by auto
  note due = claimable_due[OF own[OF r(1,2)]]
  have "\<not> locked (ef_id r)" using own[OF r(1,2)] by (auto simp: claimable_def dest: in_set_takeD)
  moreover have "ef_status p \<in> {EffectDone, EffectTerminal}"
    if p: "p \<in> set (eq_effects db')" "ef_operationKind p = ef_operationKind c" "ef_operationId p = ef_operationId c" "effectRank (ef_effectKind p) < effectRank (ef_effectKind c)" for p
  proof (rule ccontr)
    assume open_p: "ef_status p \<notin> {EffectDone, EffectTerminal}"
    obtain q where q: "q \<in> set (eq_effects db)" "p = (if ?P q then ?f q else q)" using p(1) unfolding db' set_map image_iff by blast
    have "ef_status q \<in> {EffectPending, EffectProcessing}"
    proof (cases "?P q")
      case True
      then show ?thesis using claimable_due[OF own[OF q(1) True]] by (auto simp: isDue_def)
    next
      case False
      then show ?thesis using open_p q(2) by (cases "ef_status q") auto
    qed
    moreover have same: "ef_operationKind q = ef_operationKind p" "ef_operationId q = ef_operationId p" "ef_effectKind q = ef_effectKind p"
      using q(2) by (auto simp: claimWith_def)
    moreover have "ef_effectKind q \<noteq> ''admin_review''"
      using base q(1) \<open>ef_status q \<in> _\<close> by (auto simp: rowsBase_def rowSound_def isReview_def)
    moreover have "ef_id q \<noteq> ef_id r"
      using rowsBase_unique[OF base q(1) r(1)] same p(4) r(3) by (auto simp: claimWith_def)
    ultimately have "blocks r q"
      using p(2,3,4) r(3) sqlRank_effectRank[of "ef_effectKind q" "ef_effectKind r"] by (simp add: blocks_def claimWith_def)
    then show False using due q(1) by (auto simp: list_ex_iff)
  qed
  ultimately show ?thesis using r due by blast
qed

lemma batch_size: "claimDueEffects now token limit locked db = (rows, db') \<Longrightarrow> queueOk (eq_effects db) \<Longrightarrow> length rows \<le> limit"
proof -
  assume claim: "claimDueEffects now token limit locked db = (rows, db')" and ok: "queueOk (eq_effects db)"
  have "length rows = card (ef_id ` set rows)" using claimed_rows(1)[OF ok claim] by (metis distinct_card length_map set_map)
  also have "ef_id ` set rows \<subseteq> ef_id ` set (claimable now limit locked db)"
    using claim by (auto simp: claimDueEffects_def updateEffects_def byRank_def claimWith_def)
  then have "card (ef_id ` set rows) \<le> length (claimable now limit locked db)"
    by (metis card_length card_mono finite_imageI finite_set length_map list.set_map le_trans)
  also have "\<dots> \<le> limit" by (simp add: claimable_def)
  finally show ?thesis .
qed

section \<open>The worker is a run of the machine\<close>

lemma onClaim_db: "i < length (en_claims st) \<Longrightarrow> onClaim st i f = (case f (en_claims st ! i) of Inl _ \<Rightarrow> st | Inr (_, db) \<Rightarrow> st\<lparr>en_db := db\<rparr>)"
  by (simp add: onClaim_def commit_def)

lemma orFail_run:
  assumes i: "i < length (en_claims st)" and step: "engineStep env op st = onClaim st i f" and r: "orFail env now (en_claims st ! i) (f (en_claims st ! i)) (en_db st) = Inr (res, db')"
  shows "\<exists>ops. fold (engineStep env) ops st = st\<lparr>en_db := db'\<rparr>"
proof (cases "f (en_claims st ! i)")
  case (Inl e)
  show ?thesis
  proof (cases "isFenced e")
    case True
    then have "fold (engineStep env) [] st = st\<lparr>en_db := db'\<rparr>" using r Inl by (simp add: orFail_def)
    then show ?thesis by blast
  next
    case False
    then have "fold (engineStep env) [OpFail now i (errText e)] st = st\<lparr>en_db := db'\<rparr>" using r Inl i by (simp add: orFail_def onClaim_db)
    then show ?thesis by blast
  qed
next
  case (Inr v)
  then have "fold (engineStep env) [op] st = st\<lparr>en_db := db'\<rparr>" using r i step by (simp add: orFail_def onClaim_db)
  then show ?thesis by blast
qed

lemma process_is_run:
  assumes i: "i < length (en_claims st)" and p: "processClaimedEffect env now (\<lambda>d. d) (en_claims st ! i) (en_db st, x) = (Inr res, db', x')"
  shows "\<exists>ops. fold (engineStep env) ops st = st\<lparr>en_db := db'\<rparr>"
proof (cases "ee_handlers env (ef_effectKind (en_claims st ! i))")
  case None
  let ?msg = "''no handler registered for effect kind \"'' @ ef_effectKind (en_claims st ! i) @ ''\"''"
  have "orFail env now (en_claims st ! i) (failClaimed env now (en_claims st ! i) ?msg (en_db st)) (en_db st) = Inr (res, db')"
    using p None by (auto simp: processClaimedEffect_def split: sum.splits)
  then show ?thesis using orFail_run[OF i, of env "OpFail now i ?msg" "\<lambda>c. failClaimed env now c ?msg (en_db st)" now res db'] by simp
next
  case (Some h)
  show ?thesis
  proof (cases h)
    case (LocalHandler run)
    have "orFail env now (en_claims st ! i) (localOf env now (en_db st) (en_claims st ! i)) (en_db st) = Inr (res, db')"
      using p Some LocalHandler by (auto simp: processClaimedEffect_def localOf_def split: sum.splits)
    then show ?thesis using orFail_run[OF i, of env "OpLocal now i" "localOf env now (en_db st)" now res db'] by simp
  next
    case (ExternalHandler call followUp)
    let ?c = "en_claims st ! i"
    consider "db' = en_db st"
      | e where "orFail env now ?c (Inl e) (en_db st) = Inr (res, db')"
      | ref where "orFail env now ?c (externalOf env now ref (en_db st) ?c) (en_db st) = Inr (res, db')"
      using p Some ExternalHandler
      by (auto simp: processClaimedEffect_def externalOf_def split: sum.splits option.splits prod.splits)
    then show ?thesis
    proof cases
      case 1
      then have "fold (engineStep env) [] st = st\<lparr>en_db := db'\<rparr>" by simp
      then show ?thesis by blast
    next
      case (2 e)
      show ?thesis
      proof (cases "isFenced e")
        case True
        then have "fold (engineStep env) [] st = st\<lparr>en_db := db'\<rparr>" using 2 by (simp add: orFail_def)
        then show ?thesis by blast
      next
        case False
        then have "fold (engineStep env) [OpFail now i (errText e)] st = st\<lparr>en_db := db'\<rparr>" using 2 i by (simp add: orFail_def onClaim_db)
        then show ?thesis by blast
      qed
    next
      case (3 ref)
      then show ?thesis using orFail_run[OF i, of env "OpCommit now i ref" "externalOf env now ref (en_db st)" now res db'] by simp
    qed
  qed
qed

lemma processCounted_Inr:
  "processCounted env now other c (totals, s) = Inr v \<longleftrightarrow> (\<exists>r s1. processClaimedEffect env now other c s = (Inr r, s1) \<and> v = (countResult r totals, s1))"
  by (auto simp: processCounted_def split: sum.splits prod.splits)

lemma processAll_is_run:
  assumes "set claimed \<subseteq> set (en_claims st)" "foldE (processCounted env now (\<lambda>d. d)) claimed (totals, en_db st, x) = Inr (totals', db', x')"
  shows "\<exists>ops. fold (engineStep env) ops st = st\<lparr>en_db := db'\<rparr>"
  using assms
proof (induction claimed arbitrary: st totals x)
  case Nil
  then have "fold (engineStep env) [] st = st\<lparr>en_db := db'\<rparr>" by simp
  then show ?case by blast
next
  case (Cons c claimed)
  obtain i where i: "i < length (en_claims st)" "c = en_claims st ! i" using Cons.prems(1) by (auto simp: in_set_conv_nth)
  obtain r db1 x1 where p: "processClaimedEffect env now (\<lambda>d. d) c (en_db st, x) = (Inr r, db1, x1)"
    and rest: "foldE (processCounted env now (\<lambda>d. d)) claimed (countResult r totals, db1, x1) = Inr (totals', db', x')"
    using Cons.prems(2) by (auto simp: processCounted_Inr)
  obtain ops where ops: "fold (engineStep env) ops st = st\<lparr>en_db := db1\<rparr>" using process_is_run[OF i(1)] p i(2) by metis
  obtain ops' where "fold (engineStep env) ops' (st\<lparr>en_db := db1\<rparr>) = st\<lparr>en_db := db1\<rparr>\<lparr>en_db := db'\<rparr>"
    using Cons.IH[of "st\<lparr>en_db := db1\<rparr>" "countResult r totals" x1] rest Cons.prems(1) by auto
  then have "fold (engineStep env) (ops @ ops') st = st\<lparr>en_db := db'\<rparr>" using ops by simp
  then show ?case by blast
qed

lemma rounds_are_run:
  assumes "runRounds env now token limit locked (\<lambda>d. d) n (totals, en_db st, x) = Inr (totals', db', x')"
  shows "\<exists>ops. en_db (fold (engineStep env) ops st) = db'"
  using assms
proof (induction n arbitrary: st totals x)
  case 0
  then have "en_db (fold (engineStep env) [] st) = db'" by simp
  then show ?case by blast
next
  case (Suc n)
  obtain claimed db1 where claim: "claimDueEffects now (token n) limit locked (en_db st) = (claimed, db1)" by fastforce
  show ?case
  proof (cases "claimed = []")
    case True
    then have "en_db (fold (engineStep env) [] st) = db'" using Suc.prems claim by simp
    then show ?thesis by blast
  next
    case False
    define st1 where "st1 = engineStep env (OpClaim now (token n) limit locked) st"
    have st1: "en_db st1 = db1" "set claimed \<subseteq> set (en_claims st1)" using claim by (auto simp: st1_def)
    obtain totals2 db2 x2 where all: "foldE (processCounted env now (\<lambda>d. d)) claimed (totals, en_db st1, x) = Inr (totals2, db2, x2)"
      and rest: "runRounds env now token limit locked (\<lambda>d. d) n (totals2, db2, x2) = Inr (totals', db', x')"
      using Suc.prems claim False st1(1) by auto
    obtain ops where ops: "fold (engineStep env) ops st1 = st1\<lparr>en_db := db2\<rparr>" using processAll_is_run[OF st1(2) all] by blast
    obtain ops' where "en_db (fold (engineStep env) ops' (st1\<lparr>en_db := db2\<rparr>)) = db'" using Suc.IH[of totals2 "st1\<lparr>en_db := db2\<rparr>" x2] rest by auto
    then have "en_db (fold (engineStep env) (OpClaim now (token n) limit locked # ops @ ops') st) = db'" using ops by (simp add: st1_def del: engineStep.simps)
    then show ?thesis by blast
  qed
qed

section \<open>Properties\<close>

text \<open>C3: In every run of the pending-effects engine from empty tables -- operations recorded, effects executed
  inline, batches claimed by any number of workers, stale claimants writing late, failures, requeues and approvals
  in any order, with any registered handlers -- each effect is applied at most once: instrumenting the handlers to log
  every effect they complete changes nothing else of the run, the log has no duplicates, and it contains exactly the
  effects whose row is done.\<close>

theorem effect_exactly_once:
  "forgetState (loggedRunOf env eps w ops) = fold (engineStep env) ops (startState eps w)
     \<and> distinct (appliedLog (en_db (loggedRunOf env eps w ops)))
     \<and> set (appliedLog (en_db (loggedRunOf env eps w ops))) = doneIds (eq_effects (en_db (fold (engineStep env) ops (startState eps w))))"
  using loggedRunOf_ok[of env eps w ops] loggedRunOf_forget[of env eps w ops]
  by (simp add: stateOk_def flip: loggedRunOf_forget) (simp add: forgetState_db)

text \<open>C12: In every run of the pending-effects engine an operation has at most one effect of a kind, a review task is
  terminal and never executed, every terminal effect has a review task in its operation, only a row under a claim
  carries a token and a claim time besides a done one, and an external receipt exists only for a done effect.\<close>

theorem queue_invariant:
  "let db = en_db (fold (engineStep env) ops (startState eps w)) in
     distinct (map identity (eq_effects db)) \<and> (\<forall>r\<in>set (eq_effects db). rowSound r)
     \<and> list_all (\<lambda>r. ef_status r = EffectTerminal \<longrightarrow> reviewed (eq_effects db) r) (eq_effects db) \<and> receiptIds db \<subseteq> doneIds (eq_effects db)"
  using loggedRunOf_ok[of env eps w ops]
  by (simp add: stateOk_def queueOk_def rowsBase_def allReviewed_def list_all_iff receiptIds_def forgetState_db flip: loggedRunOf_forget)

text \<open>C23: In every reachable state a batch the worker claims has at most the requested number of rows, in the order of
  their ranks; each was due and not locked, carries its new token and one more attempt, and every effect of an earlier
  rank in the same operation is done or terminal when the claim commits.\<close>

theorem claim_respects_rank:
  "case claimDueEffects now token limit locked (en_db (fold (engineStep env) ops (startState eps w))) of (rows, db') \<Rightarrow>
     length rows \<le> limit \<and> sorted (map (\<lambda>r. effectRank (ef_effectKind r)) rows)
     \<and> list_all (\<lambda>c. (\<exists>r\<in>set (eq_effects (en_db (fold (engineStep env) ops (startState eps w)))).
            c = claimWith now (token (ef_id r)) (ef_attempts r + 1) r \<and> isDue now r \<and> \<not> locked (ef_id r))
          \<and> list_all (\<lambda>p. ef_operationKind p = ef_operationKind c \<and> ef_operationId p = ef_operationId c
               \<and> effectRank (ef_effectKind p) < effectRank (ef_effectKind c) \<longrightarrow> ef_status p \<in> {EffectDone, EffectTerminal}) (eq_effects db')) rows"
proof -
  let ?db = "en_db (fold (engineStep env) ops (startState eps w))"
  note ok = reach_ok[of env ops eps w]
  obtain rows db' where claim: "claimDueEffects now token limit locked ?db = (rows, db')" by fastforce
  have "sorted (map (\<lambda>r. effectRank (ef_effectKind r)) rows)"
    using claim by (auto simp: claimDueEffects_def updateEffects_def byRank_def)
  then show ?thesis using batch_ranked[OF ok claim] batch_size[OF claim ok] by (fastforce simp: claim list_all_iff)
qed

end
