(* ===== verification/DrainLaws.thy ===== *)
theory DrainLaws
  imports QueueLaws
begin

text \<open>
  Progress of the pending-effects engine: a pass of the worker whose handlers complete finishes every due effect of a
  store, and the concrete runs that the properties of the engine are applied to.
\<close>

section \<open>What processing a batch does to the rows\<close>

text \<open>The effects of \<open>ids\<close> become done; every other row keeps its place in the queue.\<close>

definition progress :: "string set \<Rightarrow> EffectRow \<Rightarrow> EffectRow \<Rightarrow> bool" where
  "progress ids r r' \<longleftrightarrow> ef_id r' = ef_id r \<and> identity r' = identity r
     \<and> (if ef_id r \<in> ids then ef_status r' = EffectDone
        else ef_status r' = ef_status r \<and> ef_claimToken r' = ef_claimToken r \<and> ef_nextAttemptAt r' = ef_nextAttemptAt r)"

lemma progress_trans: "\<lbrakk>progress A r r'; progress B r' r''; ef_id r' \<in> A \<longrightarrow> ef_id r' \<notin> B\<rbrakk> \<Longrightarrow> progress (A \<union> B) r r''"
  by (auto simp: progress_def split: if_splits)

lemma core_progress: "map core rows' = map core rows \<Longrightarrow> list_all2 (progress {}) rows rows'"
proof -
  assume eq: "map core rows' = map core rows"
  have len: "length rows' = length rows" using eq by (rule map_eq_imp_length_eq)
  have "core (rows' ! i) = core (rows ! i)" if "i < length rows" for i
    using arg_cong[OF eq, of "\<lambda>l. l ! i"] that len by simp
  with len have "list_all2 (\<lambda>r r'. core r' = core r) rows rows'" by (simp add: list_all2_conv_all_nth)
  moreover have "progress {} r r'" if "core r' = core r" for r r'
  proof -
    have "ef_nextAttemptAt r' = ef_nextAttemptAt r" using arg_cong[OF that, of ef_nextAttemptAt] by (simp add: core_def)
    then show ?thesis using arg_cong[OF that, of ef_id] arg_cong[OF that, of identity] arg_cong[OF that, of ef_status] arg_cong[OF that, of ef_claimToken]
      by (simp add: progress_def)
  qed
  ultimately show ?thesis by (rule list_all2_mono) 
qed

definition completing :: "('w, 'x) EngineEnv \<Rightarrow> bool" where
  "completing env \<longleftrightarrow> (\<forall>k\<in>set EFFECT_KINDS. k \<noteq> ''admin_review'' \<longrightarrow>
     (\<exists>run. ee_handlers env k = Some (LocalHandler run) \<and> (\<forall>row db. \<exists>calls w. run row db = Inr (OutcomeVoid, calls, w))))"

lemma process_completes:
  assumes ok: "queueOk (eq_effects db)" and env: "completing env" and r: "r \<in> set (eq_effects db)" "claimHolds c r"
    and kind: "ef_effectKind c \<in> set EFFECT_KINDS" "ef_effectKind c \<noteq> ''admin_review''"
  shows "\<exists>db'. processClaimedEffect env now other c (db, x) = (Inr ResultDone, db', x) \<and> queueOk (eq_effects db')
    \<and> list_all2 (progress {ef_id c}) (eq_effects db) (eq_effects db')"
proof -
  obtain run where h: "ee_handlers env (ef_effectKind c) = Some (LocalHandler run)" and run: "\<And>row db. \<exists>calls w. run row db = Inr (OutcomeVoid, calls, w)"
    using env kind by (auto simp: completing_def)
  obtain cur where cur: "find (claimHolds c) (eq_effects db) = Some cur"
    using r by (cases "find (claimHolds c) (eq_effects db)") (auto simp: find_None_iff)
  then have cur': "cur \<in> set (eq_effects db)" "claimHolds c cur" by (auto simp: find_Some_iff)
  obtain calls w where out: "run cur db = Inr (OutcomeVoid, calls, w)" using run by blast
  define db1 where "db1 = handlerWrites now cur calls w db"
  have core: "map core (eq_effects db1) = map core (eq_effects db)" unfolding db1_def by (rule handlerWrites_core)
  have ok1: "queueOk (eq_effects db1)" using queueOk_core[OF core] ok by simp
  obtain q where q: "q \<in> set (eq_effects db1)" "core q = core cur"
    using cur'(1) core by (metis (no_types, lifting) imageE image_eqI list.set_map)
  have "claimHolds cur q" using arg_cong[OF q(2), of ef_id] arg_cong[OF q(2), of ef_claimToken] arg_cong[OF q(2), of ef_status] cur'(2) by (simp add: claimHolds_def)
  then obtain u us where filt: "filter (claimHolds cur) (eq_effects db1) = u # us" using q(1) by (cases "filter (claimHolds cur) (eq_effects db1)") (auto simp: filter_empty_conv)
  let ?f = "\<lambda>r. r\<lparr>ef_status := EffectDone, ef_lastError := None, ef_result := Some (JObj []), ef_updatedAt := now\<rparr>"
  obtain db' where md: "markDone now cur (JObj []) db1 = Inr (ResultDone, db')" and db': "eq_effects db' = map (\<lambda>r. if claimHolds cur r then ?f r else r) (eq_effects db1)"
    using filt by (simp add: markDone_def fencedUpdate_def updateEffects_def)
  have "processClaimedEffect env now other c (db, x) = (Inr ResultDone, db', x)"
    using h cur out md by (simp add: processClaimedEffect_def processLocal_def claimedRow_def orFail_def db1_def)
  moreover have "queueOk (eq_effects db')" using markDone_finished[OF ok1 md] by (simp add: finished_def)
  moreover have "list_all2 (progress {ef_id c}) (eq_effects db1) (eq_effects db')"
  proof -
    have "progress {ef_id c} r (if claimHolds cur r then ?f r else r)" if "r \<in> set (eq_effects db1)" for r
    proof (cases "ef_id r = ef_id c")
      case True
      then have "r = q" using rowsBase_unique[of "eq_effects db1" r q] ok1 that q(1) \<open>claimHolds cur q\<close> cur'(2) by (simp add: queueOk_def claimHolds_def)
      then show ?thesis using \<open>claimHolds cur q\<close> True by (simp add: progress_def identity_def)
    next
      case False
      then show ?thesis using cur'(2) by (auto simp: progress_def claimHolds_def)
    qed
    then show ?thesis unfolding db' by (simp add: list_all2_conv_all_nth)
  qed
  moreover have "list_all2 (progress {}) (eq_effects db) (eq_effects db1)" by (rule core_progress) (rule core)
  ultimately show ?thesis using list_all2_trans[of "progress {}" "progress {ef_id c}" "progress {ef_id c}"] progress_trans[of "{}" _ _ "{ef_id c}"] by fastforce
qed

lemma progress_in: "\<lbrakk>list_all2 (progress ids) rows rows'; r \<in> set rows\<rbrakk> \<Longrightarrow> \<exists>r'\<in>set rows'. progress ids r r'"
  by (induction rule: list_all2_induct) auto

lemma progress_from: "\<lbrakk>list_all2 (progress ids) rows rows'; r' \<in> set rows'\<rbrakk> \<Longrightarrow> \<exists>r\<in>set rows. progress ids r r'"
  by (induction rule: list_all2_induct) auto

lemma progress_compose:
  assumes "list_all2 (progress A) rows rows'" "list_all2 (progress B) rows' rows''" "A \<inter> B = {}"
  shows "list_all2 (progress (A \<union> B)) rows rows''"
proof (rule list_all2_trans[OF _ assms(1,2)])
  fix a b c assume "progress A a b" "progress B b c"
  then show "progress (A \<union> B) a c" using progress_trans assms(3) by blast
qed

lemma batch_completes:
  assumes "queueOk (eq_effects db)" "completing env" "distinct (map ef_id cs)"
    and "\<forall>c\<in>set cs. (\<exists>r\<in>set (eq_effects db). claimHolds c r) \<and> ef_effectKind c \<in> set EFFECT_KINDS \<and> ef_effectKind c \<noteq> ''admin_review''"
  shows "\<exists>totals' db'. foldE (processCounted env now other) cs (totals, db, x) = Inr (totals', db', x) \<and> queueOk (eq_effects db')
    \<and> list_all2 (progress (ef_id ` set cs)) (eq_effects db) (eq_effects db')"
  using assms
proof (induction cs arbitrary: db totals)
  case Nil
  have "list_all2 (progress {}) (eq_effects db) (eq_effects db)" by (rule core_progress) simp
  with Nil show ?case by simp
next
  case (Cons c cs)
  obtain r where r: "r \<in> set (eq_effects db)" "claimHolds c r" and kind: "ef_effectKind c \<in> set EFFECT_KINDS" "ef_effectKind c \<noteq> ''admin_review''"
    using Cons.prems(4) by auto
  obtain db1 where p: "processClaimedEffect env now other c (db, x) = (Inr ResultDone, db1, x)" and ok1: "queueOk (eq_effects db1)"
    and prog: "list_all2 (progress {ef_id c}) (eq_effects db) (eq_effects db1)"
    using process_completes[OF Cons.prems(1,2) r kind] by blast
  have "(\<exists>r\<in>set (eq_effects db1). claimHolds d r)" if d: "d \<in> set cs" for d
  proof -
    obtain q where q: "q \<in> set (eq_effects db)" "claimHolds d q" using Cons.prems(4) d by auto
    then obtain q' where q': "q' \<in> set (eq_effects db1)" "progress {ef_id c} q q'" using progress_in[OF prog] by blast
    moreover have "ef_id d \<noteq> ef_id c" using Cons.prems(3) d by (metis distinct.simps(2) image_eqI list.map(2) list.set_map)
    ultimately have "claimHolds d q'" using q(2) by (auto simp: progress_def claimHolds_def)
    with q'(1) show ?thesis by blast
  qed
  then obtain totals' db' where rest: "foldE (processCounted env now other) cs (countResult ResultDone totals, db1, x) = Inr (totals', db', x)"
    and ok': "queueOk (eq_effects db')" and prog': "list_all2 (progress (ef_id ` set cs)) (eq_effects db1) (eq_effects db')"
    using Cons.IH[OF ok1 Cons.prems(2), where totals = "countResult ResultDone totals"] Cons.prems(3,4) by auto
  have "list_all2 (progress ({ef_id c} \<union> ef_id ` set cs)) (eq_effects db) (eq_effects db')"
    by (rule progress_compose[OF prog prog']) (use Cons.prems(3) in auto)
  moreover have "processCounted env now other c (totals, db, x) = Inr (countResult ResultDone totals, db1, x)" by (simp add: processCounted_def p)
  ultimately show ?case using rest ok' by simp
qed

section \<open>A round\<close>

definition allDue :: "int \<Rightarrow> EffectRow list \<Rightarrow> bool" where
  "allDue now rows \<longleftrightarrow> (\<forall>r\<in>set rows. openEffect r \<longrightarrow> ef_status r = EffectPending \<and> ef_nextAttemptAt r \<le> now \<and> ef_effectKind r \<in> set EFFECT_KINDS)"

lemma progress_open: "progress ids r r' \<Longrightarrow> openEffect r' \<longleftrightarrow> openEffect r \<and> ef_id r \<notin> ids"
  by (auto simp: progress_def openEffect_def split: if_splits)

lemma progress_open_length:
  "list_all2 (progress ids) rows rows' \<Longrightarrow> length (filter openEffect rows') \<le> length (filter openEffect rows)"
  by (induction rule: list_all2_induct) (auto simp: progress_open)

lemma progress_allDue: "\<lbrakk>list_all2 (progress ids) rows rows'; allDue now rows\<rbrakk> \<Longrightarrow> allDue now rows'"
  unfolding allDue_def
proof (intro ballI impI)
  fix r' assume "list_all2 (progress ids) rows rows'" "\<forall>r\<in>set rows. openEffect r \<longrightarrow> ef_status r = EffectPending \<and> ef_nextAttemptAt r \<le> now \<and> ef_effectKind r \<in> set EFFECT_KINDS"
    and r': "r' \<in> set rows'" "openEffect r'"
  then obtain r where "r \<in> set rows" "progress ids r r'" using progress_from by blast
  then show "ef_status r' = EffectPending \<and> ef_nextAttemptAt r' \<le> now \<and> ef_effectKind r' \<in> set EFFECT_KINDS"
    using r'(2) \<open>\<forall>r\<in>set rows. _\<close> progress_open[of ids r r'] by (auto simp: progress_def identity_def)
qed

text \<open>When every open effect is due, the batch is the set of open effects that no earlier rank blocks.\<close>

lemma claimable_all:
  assumes due: "allDue now (eq_effects db)" and lim: "length (filter openEffect (eq_effects db)) \<le> limit"
  shows "set (claimable now limit (\<lambda>_. False) db) = {c \<in> set (eq_effects db). openEffect c \<and> \<not> list_ex (blocks c) (eq_effects db)}"
proof -
  have eq: "isDue now c \<longleftrightarrow> openEffect c" if "c \<in> set (eq_effects db)" for c
    using due that by (cases "ef_status c") (auto simp: allDue_def isDue_def openEffect_def)
  have "filter (\<lambda>c. isDue now c \<and> \<not> list_ex (blocks c) (eq_effects db)) (eq_effects db) = filter (\<lambda>c. \<not> list_ex (blocks c) (eq_effects db)) (filter openEffect (eq_effects db))"
    by (simp add: eq cong: filter_cong)
  then have "length (filter (\<lambda>c. isDue now c \<and> \<not> list_ex (blocks c) (eq_effects db)) (eq_effects db)) \<le> limit"
    using lim length_filter_le[of "\<lambda>c. \<not> list_ex (blocks c) (eq_effects db)" "filter openEffect (eq_effects db)"] by (metis order_trans)
  then show ?thesis using eq by (auto simp: claimable_def)
qed

lemma round_completes:
  assumes ok: "queueOk (eq_effects db)" and env: "completing env" and due: "allDue now (eq_effects db)" and lim: "length (filter openEffect (eq_effects db)) \<le> limit"
    and claim: "claimDueEffects now token limit (\<lambda>_. False) db = (claimed, db1)"
  shows "\<exists>totals' db'. foldE (processCounted env now other) claimed (totals, db1, x) = Inr (totals', db', x) \<and> queueOk (eq_effects db')
    \<and> list_all2 (progress {ef_id c |c. c \<in> set (eq_effects db) \<and> openEffect c \<and> \<not> list_ex (blocks c) (eq_effects db)}) (eq_effects db) (eq_effects db')"
proof -
  let ?S = "{ef_id c |c. c \<in> set (eq_effects db) \<and> openEffect c \<and> \<not> list_ex (blocks c) (eq_effects db)}"
  let ?P = "\<lambda>r. ef_id r \<in> set (map ef_id (claimable now limit (\<lambda>_. False) db))" and ?f = "\<lambda>r. claimWith now (token (ef_id r)) (ef_attempts r + 1) r"
  have P: "?P r \<longleftrightarrow> ef_id r \<in> ?S" for r using claimable_all[OF due lim] by auto
  have base: "rowsBase (eq_effects db)" using ok by (simp add: queueOk_def)
  have claimed: "claimed = byRank (map ?f (filter ?P (eq_effects db)))" and db1: "eq_effects db1 = map (\<lambda>r. if ?P r then ?f r else r) (eq_effects db)"
    using claim by (auto simp: claimDueEffects_def updateEffects_def)
  have rows: "set claimed = set (map ?f (filter ?P (eq_effects db)))" unfolding claimed byRank_def set_sort ..
  have own: "openEffect r" if "r \<in> set (eq_effects db)" "ef_id r \<in> ?S" for r using that rowsBase_unique[OF base that(1)] by auto
  have q: "queueOk (eq_effects db1)" unfolding db1
  proof (rule claim_quiet(1)[OF ok])
    fix r assume "r \<in> set (eq_effects db)" "?P r"
    then have "openEffect r" using own P by blast
    then show "ef_status r \<in> {EffectPending, EffectProcessing}" by (cases "ef_status r") (simp_all add: openEffect_def)
  qed
  have ids: "ef_id ` set claimed = ?S"
  proof (rule set_eqI)
    fix i
    have "i \<in> ef_id ` set claimed \<longleftrightarrow> (\<exists>r\<in>set (eq_effects db). ?P r \<and> ef_id r = i)"
      unfolding rows by (auto simp: claimWith_def image_iff)
    also have "\<dots> \<longleftrightarrow> i \<in> ?S" unfolding P by blast
    finally show "i \<in> ef_id ` set claimed \<longleftrightarrow> i \<in> ?S" .
  qed
  have "(\<exists>r\<in>set (eq_effects db1). claimHolds c r) \<and> ef_effectKind c \<in> set EFFECT_KINDS \<and> ef_effectKind c \<noteq> ''admin_review''" if c: "c \<in> set claimed" for c
  proof -
    obtain r where r: "r \<in> set (eq_effects db)" "?P r" "c = ?f r" using c unfolding rows by auto
    then have "c \<in> set (eq_effects db1)" unfolding db1 by (auto simp: image_iff)
    moreover have "claimHolds c c" using r(3) by (simp add: claimHolds_def claimWith_def)
    moreover have "openEffect r" using own r(1,2) P by blast
    then have "ef_effectKind r \<in> set EFFECT_KINDS" "ef_effectKind r \<noteq> ''admin_review''"
      using due r(1) base by (auto simp: allDue_def rowsBase_def rowSound_def isReview_def openEffect_def)
    ultimately show ?thesis using r(3) by (auto simp: claimWith_def)
  qed
  then obtain totals' db' where all: "foldE (processCounted env now other) claimed (totals, db1, x) = Inr (totals', db', x)" "queueOk (eq_effects db')"
    and prog: "list_all2 (progress ?S) (eq_effects db1) (eq_effects db')"
    using batch_completes[OF q env claimed_rows(1)[OF ok claim], of now other totals x] unfolding ids by blast
  have "list_all2 (\<lambda>r r1. ef_id r1 = ef_id r \<and> identity r1 = identity r \<and> (ef_id r \<notin> ?S \<longrightarrow> r1 = r)) (eq_effects db) (eq_effects db1)"
    unfolding db1 list_all2_conv_all_nth
  proof (intro conjI allI impI)
    fix i assume "i < length (eq_effects db)"
    then show "ef_id (map (\<lambda>r. if ?P r then ?f r else r) (eq_effects db) ! i) = ef_id (eq_effects db ! i)"
      "identity (map (\<lambda>r. if ?P r then ?f r else r) (eq_effects db) ! i) = identity (eq_effects db ! i)" by (simp_all add: claimWith_def identity_def)
    assume "ef_id (eq_effects db ! i) \<notin> ?S"
    then have "\<not> ?P (eq_effects db ! i)" using P by blast
    then show "map (\<lambda>r. if ?P r then ?f r else r) (eq_effects db) ! i = eq_effects db ! i" using \<open>i < _\<close> by simp
  qed simp
  from list_all2_trans[OF _ this prog, of "progress ?S"] have "list_all2 (progress ?S) (eq_effects db) (eq_effects db')"
    by (auto simp: progress_def)
  with all show ?thesis by blast
qed

section \<open>A pass\<close>

lemma effectRank_bound: "k \<in> set EFFECT_KINDS \<Longrightarrow> effectRank k < 7"
  by (auto simp: effectRank_def EFFECT_KINDS_def)

lemma blocks_rank: "blocks c p \<Longrightarrow> openEffect p \<and> effectRank (ef_effectKind p) < effectRank (ef_effectKind c)"
  using sqlRank_effectRank by (auto simp: blocks_def openEffect_def)

lemma lowest_claimed:
  assumes "\<forall>r\<in>set rows. openEffect r \<longrightarrow> m \<le> effectRank (ef_effectKind r)" "c \<in> set rows" "effectRank (ef_effectKind c) = m"
  shows "\<not> list_ex (blocks c) rows"
  using assms blocks_rank by (fastforce simp: list_ex_iff)

lemma claimed_nonempty:
  assumes ok: "queueOk (eq_effects db)" and due: "allDue now (eq_effects db)" and lim: "length (filter openEffect (eq_effects db)) \<le> limit"
    and claim: "claimDueEffects now token limit (\<lambda>_. False) db = ([], db1)"
  shows "filter openEffect (eq_effects db) = []"
proof (rule ccontr)
  assume "filter openEffect (eq_effects db) \<noteq> []"
  then have ne: "filter openEffect (eq_effects db) \<noteq> []" .
  define m where "m = Min ((\<lambda>r. effectRank (ef_effectKind r)) ` set (filter openEffect (eq_effects db)))"
  have "m \<in> (\<lambda>r. effectRank (ef_effectKind r)) ` set (filter openEffect (eq_effects db))" unfolding m_def using ne by (intro Min_in) (auto simp flip: set_empty)
  then obtain c where c: "c \<in> set (eq_effects db)" "openEffect c" "effectRank (ef_effectKind c) = m" by auto
  have "\<forall>r\<in>set (eq_effects db). openEffect r \<longrightarrow> m \<le> effectRank (ef_effectKind r)" unfolding m_def by auto
  then have "c \<in> set (claimable now limit (\<lambda>_. False) db)" using claimable_all[OF due lim] lowest_claimed c by blast
  then have "ef_id c \<in> ef_id ` set (claimable now limit (\<lambda>_. False) db)" by (rule imageI)
  moreover have "filter (\<lambda>r. ef_id r \<in> ef_id ` set (claimable now limit (\<lambda>_. False) db)) (eq_effects db) = []"
  proof -
    have "byRank (map (\<lambda>r. claimWith now (token (ef_id r)) (ef_attempts r + 1) r) (filter (\<lambda>r. ef_id r \<in> ef_id ` set (claimable now limit (\<lambda>_. False) db)) (eq_effects db))) = []"
      using claim by (simp add: claimDueEffects_def updateEffects_def)
    from arg_cong[OF this, of length] show ?thesis by (simp add: byRank_def)
  qed
  ultimately show False using c(1) by (auto simp: filter_empty_conv)
qed

lemma rounds_drain:
  assumes "queueOk (eq_effects db)" "completing env" "allDue now (eq_effects db)" "length (filter openEffect (eq_effects db)) \<le> limit"
    and "\<forall>r\<in>set (eq_effects db). openEffect r \<longrightarrow> 7 \<le> effectRank (ef_effectKind r) + n"
  shows "\<exists>totals' db'. runRounds env now token limit (\<lambda>_. False) other n (totals, db, x) = Inr (totals', db', x) \<and> filter openEffect (eq_effects db') = []"
  using assms
proof (induction n arbitrary: db totals)
  case 0
  have "filter openEffect (eq_effects db) = []"
    using 0 effectRank_bound by (fastforce simp: filter_empty_conv allDue_def)
  then show ?case by simp
next
  case (Suc n)
  obtain claimed db1 where claim: "claimDueEffects now (token n) limit (\<lambda>_. False) db = (claimed, db1)" by fastforce
  show ?case
  proof (cases "claimed = []")
    case True
    then show ?thesis using claim claimed_nonempty[OF Suc.prems(1,3,4)] by auto
  next
    case False
    let ?S = "{ef_id c |c. c \<in> set (eq_effects db) \<and> openEffect c \<and> \<not> list_ex (blocks c) (eq_effects db)}"
    obtain totals' db' where all: "foldE (processCounted env now other) claimed (totals, db1, x) = Inr (totals', db', x)" and ok': "queueOk (eq_effects db')"
      and prog: "list_all2 (progress ?S) (eq_effects db) (eq_effects db')"
      using round_completes[OF Suc.prems(1-4) claim] by blast
    have "7 \<le> effectRank (ef_effectKind r') + n" if r': "r' \<in> set (eq_effects db')" "openEffect r'" for r'
    proof -
      obtain r where r: "r \<in> set (eq_effects db)" "progress ?S r r'" using progress_from[OF prog r'(1)] by blast
      have o: "openEffect r" "ef_id r \<notin> ?S" using progress_open[OF r(2)] r'(2) by auto
      then have "list_ex (blocks r) (eq_effects db)" using r(1) by blast
      then obtain p where "p \<in> set (eq_effects db)" "blocks r p" by (auto simp: list_ex_iff)
      then have "7 \<le> effectRank (ef_effectKind r) + n" using Suc.prems(5) blocks_rank[of r p] by fastforce
      moreover have "ef_effectKind r' = ef_effectKind r" using r(2) by (simp add: progress_def identity_def)
      ultimately show ?thesis by simp
    qed
    moreover have "allDue now (eq_effects db')" by (rule progress_allDue[OF prog Suc.prems(3)])
    moreover have "length (filter openEffect (eq_effects db')) \<le> limit" using progress_open_length[OF prog] Suc.prems(4) by linarith
    ultimately show ?thesis using Suc.IH[OF ok' Suc.prems(2), where totals = totals'] claim False all by auto
  qed
qed

lemma store_drains:
  assumes "queueOk (eq_effects db)" "completing env" "allDue now (eq_effects db)" "length (filter openEffect (eq_effects db)) \<le> limit"
  shows "\<exists>totals' db'. runRounds env now token limit (\<lambda>_. False) other (length EFFECT_KINDS) (totals, db, x) = Inr (totals', db', x) \<and> filter openEffect (eq_effects db') = []"
  using rounds_drain[OF assms, of "length EFFECT_KINDS" token other totals x] by (simp add: EFFECT_KINDS_def)

section \<open>Concrete runs\<close>

definition effectDemoEnv :: "(unit, unit) EngineEnv" where
  "effectDemoEnv = \<lparr>ee_newId = (\<lambda>rows. CHR ''e'' # replicate (length rows) CHR ''x''), ee_String = (\<lambda>_. []), ee_handlers = (\<lambda>_. Some (LocalHandler (\<lambda>row db. Inr (OutcomeVoid, [], ()))))\<rparr>"

definition demoOperation :: OperationRow where
  "demoOperation = \<lparr>so_id = ''s1'', so_operationKind = ''order_paid_transition'', so_operationId = ''o1'', so_classification = None, so_authorizedEffects = [],
     so_disposition = None, so_paymentId = None, so_orderId = Some ''o1'', so_licenseId = None, so_invoicePaymentId = None, so_paymentIntent = None,
     so_providerAccount = None, so_providerMode = None, so_targetKind = None, so_targetId = None, so_actor = None, so_reason = None, so_snapshot = None\<rparr>"

definition demoRequest :: "string \<Rightarrow> EffectRequest" where
  "demoRequest kind = \<lparr>eq_kind = kind, eq_payloadVersion = None, eq_payload = None, eq_resolution = None\<rparr>"

definition demoRecorded :: "unit EffectOp list" where
  "demoRecorded = [OpElsewhere (\<lambda>_. ()) [demoOperation], OpRecord 0 ''order_paid_transition'' ''o1'' [demoRequest ''loyalty_earn'', demoRequest ''license_issue'']]"

definition demoReclaimed :: "unit EffectOp list" where
  "demoReclaimed = demoRecorded @ [OpClaim 0 (\<lambda>i. CHR ''a'' # i) 5 (\<lambda>_. False), OpClaim 1000000 (\<lambda>i. CHR ''b'' # i) 5 (\<lambda>_. False)]"

definition demoDb :: "unit EffectDb" where
  "demoDb = en_db (fold (engineStep effectDemoEnv) demoRecorded (startState [] ()))"

lemma demoDb_rows: "length (filter openEffect (eq_effects demoDb)) = 2" "list_all (\<lambda>r. ef_status r = EffectPending \<and> ef_nextAttemptAt r \<le> 0 \<and> List.member EFFECT_KINDS (ef_effectKind r)) (eq_effects demoDb)"
  by code_simp+

lemma demo_claims: "map ef_id (en_claims (fold (engineStep effectDemoEnv) demoReclaimed (startState [] ()))) = [''ex'', ''ex'']"
  "map ef_claimToken (en_claims (fold (engineStep effectDemoEnv) (demoRecorded @ [OpClaim 0 (\<lambda>i. CHR ''a'' # i) 5 (\<lambda>_. False)]) (startState [] ()))) = [Some ''aex'']"
  by code_simp+

lemma demo_pass: "\<not> isl (runRounds effectDemoEnv 0 (\<lambda>_ i. i) 50 (\<lambda>_. False) (\<lambda>d. d) 7 (\<lambda>_. 0, demoDb, ()))"
  by code_simp

lemma freshRun_append: "freshRun env (xs @ ys) st \<longleftrightarrow> freshRun env xs st \<and> freshRun env ys (fold (engineStep env) xs st)"
  by (induction xs arbitrary: st) auto

lemma demo_fresh: "freshRun effectDemoEnv demoReclaimed (startState [] ())"
proof -
  have "en_claims (fold (engineStep effectDemoEnv) demoRecorded (startState [] ())) = []" by code_simp
  moreover have "freshRun effectDemoEnv demoRecorded (startState [] ())" by (simp add: demoRecorded_def)
  moreover have "\<forall>c\<in>set (en_claims (fold (engineStep effectDemoEnv) (demoRecorded @ [OpClaim 0 (\<lambda>i. CHR ''a'' # i) 5 (\<lambda>_. False)]) (startState [] ()))). ef_claimToken c = Some ''aex''"
    using demo_claims(2) by (auto simp: map_eq_Cons_conv)
  ultimately show ?thesis by (simp add: demoReclaimed_def freshRun_append del: engineStep.simps)
qed

lemma demo_superseded: "superseded (en_claims (fold (engineStep effectDemoEnv) demoReclaimed (startState [] ()))) 0"
proof -
  let ?cs = "en_claims (fold (engineStep effectDemoEnv) demoReclaimed (startState [] ()))"
  have "length ?cs = 2" using arg_cong[OF demo_claims(1), of length] by simp
  then have "map ef_id ?cs ! 0 = ef_id (?cs ! 0)" "map ef_id ?cs ! 1 = ef_id (?cs ! 1)" by simp_all
  with \<open>length ?cs = 2\<close> show ?thesis unfolding demo_claims(1) superseded_def by (intro exI[of _ 1]) simp
qed

section \<open>Properties\<close>



text \<open>C16: With claim tokens that never repeat, a worker whose claim on an effect was taken over by a later claim can no
  longer change anything in any reachable state: executing the effect, committing its provider call and recording its
  failure all leave the tables as they are.\<close>

theorem superseded_claim_stale:
  assumes "freshRun env ops (startState eps w)"
    and "superseded (en_claims (fold (engineStep env) ops (startState eps w))) k"
  shows "engineStep env (OpLocal now k) (fold (engineStep env) ops (startState eps w)) = fold (engineStep env) ops (startState eps w)
    \<and> engineStep env (OpCommit now k ref) (fold (engineStep env) ops (startState eps w)) = fold (engineStep env) ops (startState eps w)
    \<and> engineStep env (OpFail now k reason) (fold (engineStep env) ops (startState eps w)) = fold (engineStep env) ops (startState eps w)"
proof -
  let ?st = "fold (engineStep env) ops (startState eps w)"
  have "fenceOk (loggedRunOf env eps w ops)" unfolding loggedRunOf_def
    using assms(1) by (intro run_fenceOk) (simp_all add: startState_ok, simp add: fenceOk_def superseded_def startState_def)
  then have "(ef_id (en_claims ?st ! k), ef_claimToken (en_claims ?st ! k)) \<notin> liveClaims (eq_effects (en_db ?st))"
    using assms(2) by (simp add: fenceOk_def forgetState_db flip: loggedRunOf_forget)
  then show ?thesis by (simp add: onClaim_def commit_def unheld_stale)
qed

theorem superseded_claim_stale_witness:
  "engineStep effectDemoEnv (OpLocal 7 0) (fold (engineStep effectDemoEnv) demoReclaimed (startState [] ())) = fold (engineStep effectDemoEnv) demoReclaimed (startState [] ())
    \<and> engineStep effectDemoEnv (OpCommit 7 0 ''ref'') (fold (engineStep effectDemoEnv) demoReclaimed (startState [] ())) = fold (engineStep effectDemoEnv) demoReclaimed (startState [] ())
    \<and> engineStep effectDemoEnv (OpFail 7 0 ''late'') (fold (engineStep effectDemoEnv) demoReclaimed (startState [] ())) = fold (engineStep effectDemoEnv) demoReclaimed (startState [] ())"
  by (rule superseded_claim_stale[OF demo_fresh demo_superseded])

text \<open>C24: A pass of the effects worker over a store that returns is a run of the engine's transactions, so that whatever
  holds of every run holds of the tables a pass leaves; and an effect that was done before the pass is done after it.\<close>

theorem worker_pass_refines:
  assumes "runRounds env now token limit locked (\<lambda>d. d) n (totals, en_db (fold (engineStep env) ops (startState eps w)), x) = Inr (totals', db', x')"
  shows "\<exists>rest. db' = en_db (fold (engineStep env) (ops @ rest) (startState eps w))
    \<and> doneIds (eq_effects (en_db (fold (engineStep env) ops (startState eps w)))) \<subseteq> doneIds (eq_effects db')"
proof -
  obtain rest where "en_db (fold (engineStep env) rest (fold (engineStep env) ops (startState eps w))) = db'"
    using rounds_are_run[OF assms] by blast
  then have db': "db' = en_db (fold (engineStep env) (ops @ rest) (startState eps w))" by simp
  with reach_done[of env ops eps w rest] show ?thesis by blast
qed

theorem worker_pass_refines_witness:
  "\<exists>totals db' rest. runRounds effectDemoEnv 0 (\<lambda>_ i. i) 50 (\<lambda>_. False) (\<lambda>d. d) 7 (\<lambda>_. 0, en_db (fold (engineStep effectDemoEnv) demoRecorded (startState [] ())), ()) = Inr (totals, db', ())
    \<and> db' = en_db (fold (engineStep effectDemoEnv) (demoRecorded @ rest) (startState [] ()))
    \<and> doneIds (eq_effects (en_db (fold (engineStep effectDemoEnv) demoRecorded (startState [] ())))) \<subseteq> doneIds (eq_effects db')"
proof -
  obtain t d x where "runRounds effectDemoEnv 0 (\<lambda>_ i. i) 50 (\<lambda>_. False) (\<lambda>d. d) 7 (\<lambda>_. 0, demoDb, ()) = Inr (t, d, x :: unit)"
    using demo_pass by (cases "runRounds effectDemoEnv 0 (\<lambda>_ i. i) 50 (\<lambda>_. False) (\<lambda>d. d) 7 (\<lambda>_. 0, demoDb, ())") auto
  note run = this[unfolded demoDb_def]
  show ?thesis using worker_pass_refines[OF run] run by auto
qed

section \<open>The invariant and the ranks on concrete runs\<close>

definition demoReviewed :: "unit EffectOp list" where
  "demoReviewed = demoRecorded @ [OpRecord 0 ''order_paid_transition'' ''o1'' [demoRequest ''admin_review'']]"

theorem queue_invariant_witness:
  "list_ex (\<lambda>r. ef_status r = EffectTerminal \<and> rowSound r \<and> reviewed (eq_effects (en_db (fold (engineStep effectDemoEnv) demoReviewed (startState [] ())))) r)
     (eq_effects (en_db (fold (engineStep effectDemoEnv) demoReviewed (startState [] ()))))"
proof -
  let ?db = "en_db (fold (engineStep effectDemoEnv) demoReviewed (startState [] ()))"
  have "list_ex (\<lambda>r. ef_status r = EffectTerminal) (eq_effects ?db)" by code_simp
  then show ?thesis using queue_invariant[of effectDemoEnv demoReviewed "[]" "()"] by (auto simp: list_ex_iff list_all_iff Let_def)
qed

definition demoFirstDone :: "unit EffectOp list" where
  "demoFirstDone = demoRecorded @ [OpClaim 0 (\<lambda>i. CHR ''a'' # i) 5 (\<lambda>_. False), OpLocal 0 0]"

definition demoNextBatch :: "EffectRow list \<times> unit EffectDb" where
  "demoNextBatch = claimDueEffects 0 (\<lambda>i. CHR ''b'' # i) 5 (\<lambda>_. False) (en_db (fold (engineStep effectDemoEnv) demoFirstDone (startState [] ())))"

lemma demo_ranks: "list_ex (\<lambda>c. list_ex (\<lambda>p. ef_operationKind p = ef_operationKind c \<and> ef_operationId p = ef_operationId c
    \<and> effectRank (ef_effectKind p) < effectRank (ef_effectKind c)) (eq_effects (snd demoNextBatch))) (fst demoNextBatch)"
  by code_simp

theorem claim_respects_rank_witness:
  "length (fst demoNextBatch) \<le> 5 \<and> list_ex (\<lambda>c. list_ex (\<lambda>p. effectRank (ef_effectKind p) < effectRank (ef_effectKind c)
     \<and> ef_status p \<in> {EffectDone, EffectTerminal}) (eq_effects (snd demoNextBatch))) (fst demoNextBatch)"
proof -
  obtain rows db' where b: "demoNextBatch = (rows, db')" by fastforce
  have all: "length rows \<le> 5" "list_all (\<lambda>c. list_all (\<lambda>p. ef_operationKind p = ef_operationKind c \<and> ef_operationId p = ef_operationId c
      \<and> effectRank (ef_effectKind p) < effectRank (ef_effectKind c) \<longrightarrow> ef_status p \<in> {EffectDone, EffectTerminal}) (eq_effects db')) rows"
    using claim_respects_rank[where now = 0 and token = "\<lambda>i. CHR ''b'' # i" and limit = 5 and locked = "\<lambda>_. False" and env = effectDemoEnv and ops = demoFirstDone and eps = "[]" and w = "()"] b
    unfolding demoNextBatch_def by (auto simp: list_all_iff)
  from demo_ranks obtain c p where "c \<in> set rows" "p \<in> set (eq_effects db')" "ef_operationKind p = ef_operationKind c" "ef_operationId p = ef_operationId c"
    "effectRank (ef_effectKind p) < effectRank (ef_effectKind c)" by (auto simp: b list_ex_iff)
  moreover from this all(2) have "ef_status p \<in> {EffectDone, EffectTerminal}" unfolding list_all_iff by blast
  ultimately show ?thesis using all(1) unfolding b list_ex_iff fst_conv snd_conv by blast
qed

end
