(* ===== verification/Settlement.thy ===== *)
theory Settlement
  imports UnpaidLaws DrainLaws "HOL-Library.AList"
begin

text \<open>
  The settlement chokepoint (payments/settlement/record.ts): the recording of a settlement fact, with the mutations of
  payments and orders it allows and the effects it authorizes. The tables of the effects engine carry the other tables
  as their world: reservations, account credit and orders (\<open>st_holds\<close>), payments, subscription invoices and the columns of
  an order that only settlement writes. The payments have one table: the projections other components keep of them
  are rewritten with it. One store; \<open>now\<close> is the time of the transaction, and the advisory locks make the transactions on
  one fact run one after another. The reader of a stored pricing snapshot is a parameter.
\<close>

section \<open>Tables\<close>

record Payment =
  py_id :: string
  py_orderId :: string
  py_amount :: int
  py_gatewayAccount :: "string option"
  py_gatewayMode :: "string option"
  py_currency :: "string option"
  py_method :: string
  py_providerRef :: "string option"
  py_state :: InternalPaymentState
  py_metadata :: "json option"
  py_errorMessage :: "string option"
  py_createdAt :: int

record InvoicePayment =
  ip_id :: string
  ip_orderId :: "string option"
  ip_stripeAccountId :: string
  ip_mode :: string
  ip_stripeSubscriptionId :: string
  ip_invoiceId :: string
  ip_providerRef :: string
  ip_amount :: int
  ip_currency :: "string option"
  ip_state :: InternalPaymentState
  ip_paidAt :: "int option"
  ip_billingReason :: "string option"
  ip_origin :: string
  ip_disposition :: "string option"
  ip_frontierId :: "string option"
  ip_metadata :: "json option"

record OrderColumns =
  oc_id :: string
  oc_placedAt :: "int option"
  oc_updatedAt :: int
  oc_pricingSnapshot :: "json option"

record 'p SettlementTables =
  st_holds :: "'p ReservationDb"
  st_payments :: "Payment list"
  st_invoicePayments :: "InvoicePayment list"
  st_orderColumns :: "OrderColumns list"

type_synonym 'p SettlementDb = "'p SettlementTables EffectDb"

section \<open>Operations\<close>

text \<open>An optional id is generated when absent; a payment's state defaults to pending.\<close>

record PaymentInsert =
  pi_id :: "string option"
  pi_orderId :: string
  pi_amount :: int
  pi_gatewayAccount :: "string option"
  pi_gatewayMode :: "string option"
  pi_currency :: "string option"
  pi_method :: string
  pi_providerRef :: "string option"
  pi_state :: "InternalPaymentState option"
  pi_metadata :: "json option"
  pi_errorMessage :: "string option"

record OrderInsert =
  oi_id :: "string option"
  oi_order :: CreditOrder
  oi_columns :: OrderColumns

text \<open>A column whose new value is absent is not written; \<open>Some None\<close> writes null.\<close>

record PaymentStateUpdate =
  pu_state :: InternalPaymentState
  pu_metadata :: "json option option"
  pu_errorMessage :: "string option option"

datatype SettlementMutation =
    PaymentInsertM "PaymentInsert list"
  | PaymentStateM string PaymentStateUpdate
  | PaymentGatewayIdentityM string "string option" "string option"
  | OrderPaidM string int "int option"
  | OrderInsertM "OrderInsert list"
  | InvoicePaymentRecordM InvoicePayment
  | OrderPurgeM string

fun mutationType :: "SettlementMutation \<Rightarrow> MutationType" where
  "mutationType (PaymentInsertM _) = PaymentInsertType"
| "mutationType (PaymentStateM _ _) = PaymentStateType"
| "mutationType (PaymentGatewayIdentityM _ _ _) = PaymentGatewayIdentityType"
| "mutationType (OrderPaidM _ _ _) = OrderPaidType"
| "mutationType (OrderInsertM _) = OrderInsertType"
| "mutationType (InvoicePaymentRecordM _) = InvoicePaymentRecordType"
| "mutationType (OrderPurgeM _) = OrderPurgeType"

datatype ResolutionAction = ApplyResolution | SkipResolution

record OperatorResolution =
  rn_targetKind :: string
  rn_targetId :: string
  rn_action :: ResolutionAction
  rn_actor :: string
  rn_reason :: string

datatype EffectMode = InlineEffects | DeferredEffects

record SettlementOperation =
  sp_storeId :: string
  sp_kind :: string
  sp_operationId :: string
  sp_provider :: "(string \<times> string \<times> string) option"
  sp_classification :: "InvoiceClassification option"
  sp_resolution :: "OperatorResolution option"
  sp_disposition :: "string option"
  sp_orderId :: "string option"
  sp_mutations :: "SettlementMutation list"
  sp_effects :: "EffectRequest list"
  sp_effectMode :: EffectMode

record SettlementResult =
  sr_created :: bool
  sr_replayed :: bool
  sr_operationRowId :: "string option"
  sr_paymentId :: "string option"
  sr_invoicePaymentId :: "string option"
  sr_effectIds :: "string list"
  sr_storedClassification :: "InvoiceClassification option"
  sr_creditReconciliation :: "string option"

record Applied =
  ao_paymentId :: "string option"
  ao_invoicePaymentId :: "string option"
  ao_orderId :: "string option"

record ('p, 'x) SettlementEnv =
  sv_scope :: "string option"
  sv_engine :: "('p SettlementTables, 'x) EngineEnv"
  sv_holds :: "'p ReservationEnv"
  sv_paymentId :: "Payment list \<Rightarrow> string"
  sv_invoiceId :: "InvoicePayment list \<Rightarrow> string"
  sv_orderId :: "CreditOrder list \<Rightarrow> string"
  sv_operationId :: "OperationRow list \<Rightarrow> string"
  sv_token :: "string \<Rightarrow> string"
  sv_readSnapshot :: "CreditOrder \<Rightarrow> OrderColumns option \<Rightarrow> (int \<times> Allocation) option res"

definition PAYMENT_IDENTITY_KINDS :: "string list" where
  "PAYMENT_IDENTITY_KINDS = [''payment_settled'', ''duplicate_capture_recorded'']"

definition CONSUMING_KINDS :: "string list" where
  "CONSUMING_KINDS = [''payment_settled'', ''order_paid_transition'', ''stripe_invoice_paid'', ''order_edit_balance_settled'']"

section \<open>Payments\<close>

text \<open>Every write of the payments rewrites what reservations and account credit read of them.\<close>

definition hasSettled :: "Payment list \<Rightarrow> string \<Rightarrow> bool" where
  "hasSettled ps orderId \<longleftrightarrow> list_ex (\<lambda>p. py_orderId p = orderId \<and> py_state p = PaymentSettledState) ps"

definition withPayments :: "Payment list \<Rightarrow> 'p SettlementTables \<Rightarrow> 'p SettlementTables" where
  "withPayments ps t = t\<lparr>st_payments := ps, st_holds := (st_holds t)\<lparr>
     rs_payments := map (\<lambda>p. \<lparr>pm_orderId = py_orderId p, pm_state = py_state p\<rparr>) ps,
     rs_credit := (rs_credit (st_holds t))\<lparr>cd_orders := map (\<lambda>o'. o'\<lparr>co_settled := hasSettled ps (co_id o')\<rparr>) (cd_orders (rs_credit (st_holds t)))\<rparr>\<rparr>\<rparr>"

definition onWorld :: "('w \<Rightarrow> 'w) \<Rightarrow> 'w EffectDb \<Rightarrow> 'w EffectDb" where
  "onWorld f db = db\<lparr>eq_world := f (eq_world db)\<rparr>"

definition ordersOf :: "'p SettlementDb \<Rightarrow> CreditOrder list" where
  "ordersOf db = cd_orders (rs_credit (st_holds (eq_world db)))"

definition orderOf :: "'p SettlementDb \<Rightarrow> string \<Rightarrow> CreditOrder option" where
  "orderOf db orderId = find (\<lambda>o'. co_id o' = orderId) (ordersOf db)"

definition paymentsOf :: "'p SettlementDb \<Rightarrow> Payment list" where
  "paymentsOf db = st_payments (eq_world db)"

definition setOrders :: "CreditOrder list \<Rightarrow> 'p SettlementTables \<Rightarrow> 'p SettlementTables" where
  "setOrders os t = t\<lparr>st_holds := (st_holds t)\<lparr>rs_credit := (rs_credit (st_holds t))\<lparr>cd_orders := os\<rparr>\<rparr>\<rparr>"

text \<open>The unique indexes of the payment table.\<close>

definition paymentConflict :: "Payment \<Rightarrow> Payment \<Rightarrow> bool" where
  "paymentConflict p q \<longleftrightarrow> py_id p = py_id q
     \<or> py_providerRef p \<noteq> None \<and> py_providerRef p = py_providerRef q
       \<and> (py_method p = ''stripe'' \<and> py_method q = ''stripe''
          \<or> py_method p \<noteq> ''stripe'' \<and> py_method p = py_method q \<and> orElse (py_gatewayAccount p) [] = orElse (py_gatewayAccount q) []
            \<and> orElse (py_gatewayMode p) [] = orElse (py_gatewayMode q) [])"

definition newPayment :: "int \<Rightarrow> string \<Rightarrow> PaymentInsert \<Rightarrow> Payment" where
  "newPayment now newId i = \<lparr>py_id = orElse (pi_id i) newId, py_orderId = pi_orderId i, py_amount = pi_amount i, py_gatewayAccount = pi_gatewayAccount i,
     py_gatewayMode = pi_gatewayMode i, py_currency = pi_currency i, py_method = pi_method i, py_providerRef = pi_providerRef i,
     py_state = orElse (pi_state i) PaymentPending, py_metadata = pi_metadata i, py_errorMessage = pi_errorMessage i, py_createdAt = now\<rparr>"

text \<open>\<open>INSERT ... ON CONFLICT DO NOTHING RETURNING id\<close>; a payment refers to an order of the store.\<close>

fun insertPayments :: "('p, 'x) SettlementEnv \<Rightarrow> int \<Rightarrow> PaymentInsert list \<Rightarrow> 'p SettlementDb \<Rightarrow> (string list \<times> 'p SettlementDb) res" where
  "insertPayments env now [] db = Inr ([], db)"
| "insertPayments env now (i # rest) db = (let p = newPayment now (sv_paymentId env (paymentsOf db)) i in
     if list_ex (paymentConflict p) (paymentsOf db) then insertPayments env now rest db
     else if orderOf db (py_orderId p) = None then Inl (Err ''insert violates foreign key constraint'')
     else bindE (insertPayments env now rest (onWorld (withPayments (paymentsOf db @ [p])) db)) (\<lambda>(ids, db1). Inr (py_id p # ids, db1)))"

definition insertPaymentRows :: "('p, 'x) SettlementEnv \<Rightarrow> int \<Rightarrow> PaymentInsert list \<Rightarrow> 'p SettlementDb \<Rightarrow> (string list \<times> 'p SettlementDb) res" where
  "insertPaymentRows env now rows db = (if rows = [] then Inl (Err ''values() must be called with at least one value'') else insertPayments env now rows db)"

definition updatePayments :: "(Payment \<Rightarrow> bool) \<Rightarrow> (Payment \<Rightarrow> Payment) \<Rightarrow> 'p SettlementDb \<Rightarrow> 'p SettlementDb" where
  "updatePayments P f db = onWorld (withPayments (map (\<lambda>p. if P p then f p else p) (paymentsOf db))) db"

definition latestSettledPaymentId :: "'p SettlementDb \<Rightarrow> string \<Rightarrow> string option" where
  "latestSettledPaymentId db orderId = (case sort_key (\<lambda>p. - py_createdAt p) (filter (\<lambda>p. py_orderId p = orderId \<and> py_state p = PaymentSettledState) (paymentsOf db)) of
     [] \<Rightarrow> None | p # _ \<Rightarrow> Some (py_id p))"

definition paymentOrderId :: "'p SettlementDb \<Rightarrow> string \<Rightarrow> string option" where
  "paymentOrderId db paymentId = map_option py_orderId (find (\<lambda>p. py_id p = paymentId) (paymentsOf db))"

text \<open>The row a provider reference is looked up by: the method and the reference.\<close>

definition paymentByRef :: "'p SettlementDb \<Rightarrow> string \<Rightarrow> string option \<Rightarrow> Payment option" where
  "paymentByRef db method ref = (case ref of None \<Rightarrow> None
     | Some _ \<Rightarrow> find (\<lambda>p. py_method p = method \<and> py_providerRef p = ref) (paymentsOf db))"

section \<open>Account credit\<close>

text \<open>The savepoint: a failure leaves the tables as they were and asks for reconciliation.\<close>

definition postAcceptedCredit :: "('p, 'x) SettlementEnv \<Rightarrow> string \<Rightarrow> 'p SettlementDb \<Rightarrow> string option \<times> 'p SettlementDb" where
  "postAcceptedCredit env orderId db = (let credit = rs_credit (st_holds (eq_world db)) in
     case pendingForOrder credit orderId of
       None \<Rightarrow> (None, db)
     | Some _ \<Rightarrow>
         (case orderOf db orderId of
            None \<Rightarrow> (None, db)
          | Some order \<Rightarrow>
              if co_state order \<notin> {Paid, PartiallyRefunded, Refunded} then (None, db)
              else (case sv_readSnapshot env order (find (\<lambda>c. oc_id c = orderId) (st_orderColumns (eq_world db))) of
                  Inl _ \<Rightarrow> (Some ''accepted_snapshot_invalid'', db)
                | Inr None \<Rightarrow> (Some ''accepted_snapshot_invalid'', db)
                | Inr (Some (appliedAmount, allocation)) \<Rightarrow>
                    (case redeemAfterSettlement (re_creditId (sv_holds env)) orderId appliedAmount allocation credit of
                       (result, credit') \<Rightarrow>
                         (case result of SettledCredit _ \<Rightarrow> None | ReconciliationRequired code \<Rightarrow> Some code,
                          onWorld (\<lambda>t. t\<lparr>st_holds := (st_holds t)\<lparr>rs_credit := credit'\<rparr>\<rparr>) db)))))"

section \<open>Eligibility\<close>

definition authorizedEffects :: "SettlementOperation \<Rightarrow> OperationPolicy \<Rightarrow> string list res" where
  "authorizedEffects op policy =
     bindE (if sp_kind op = ''stripe_invoice_paid''
            then (case sp_classification op of None \<Rightarrow> Inl (Err ''settlement operation \"stripe_invoice_paid\" requires a classification'')
                  | Some c \<Rightarrow> Inr (INVOICE_AUTHORIZED_EFFECTS c))
            else Inr (pol_effects policy)) (\<lambda>authorized.
     if (sp_kind op = ''operator_resolution'') \<noteq> (sp_resolution op \<noteq> None)
     then Inl (Err ''settlement operation \"operator_resolution\" requires (only it takes) a resolution'')
     else (case sp_resolution op of
        None \<Rightarrow> Inr authorized
      | Some r \<Rightarrow>
          (case sp_classification op of
             None \<Rightarrow> Inl (Err ''settlement operation \"operator_resolution\" requires a classification'')
           | Some c \<Rightarrow>
               if rn_action r = SkipResolution \<and> (sp_mutations op \<noteq> [] \<or> sp_effects op \<noteq> []) then Inl (Err ''a skipped resolution records the decision only'')
               else Inr (if rn_action r = SkipResolution then [] else filter (\<lambda>k. k \<noteq> ''admin_review'') (INVOICE_AUTHORIZED_EFFECTS c)))))"

definition checkOperation :: "('p, 'x) SettlementEnv \<Rightarrow> SettlementOperation \<Rightarrow> string list res" where
  "checkOperation env op = (case map_of OPERATION_POLICY (sp_kind op) of
     None \<Rightarrow> Inl (Err (''unknown settlement operation kind \"'' @ sp_kind op @ ''\"''))
   | Some policy \<Rightarrow>
       bindE (checkE (sv_scope env \<noteq> Some (sp_storeId op)) (Err ''recordSettlementOperation requires a transaction scoped to the operation store'')) (\<lambda>_.
       bindE (checkE (list_ex (\<lambda>m. mutationType m \<notin> set (pol_mutations policy)) (sp_mutations op)) (Err ''settlement operation may not perform mutation'')) (\<lambda>_.
       bindE (authorizedEffects op policy) (\<lambda>authorized.
       bindE (checkE (list_ex (\<lambda>e. eq_kind e \<notin> set (pol_effects policy) \<or> eq_kind e \<notin> set authorized) (sp_effects op)) (Err ''effect is not authorized'')) (\<lambda>_.
         Inr authorized)))))"

section \<open>Quarantine of imported orders\<close>

fun mutationOrders :: "'p SettlementDb \<Rightarrow> SettlementMutation \<Rightarrow> string list" where
  "mutationOrders db (PaymentInsertM rows) = map pi_orderId rows"
| "mutationOrders db (PaymentStateM paymentId _) = (case paymentOrderId db paymentId of None \<Rightarrow> [] | Some i \<Rightarrow> [i])"
| "mutationOrders db (PaymentGatewayIdentityM paymentId _ _) = (case paymentOrderId db paymentId of None \<Rightarrow> [] | Some i \<Rightarrow> [i])"
| "mutationOrders db (OrderPaidM orderId _ _) = [orderId]"
| "mutationOrders db (OrderInsertM _) = []"
| "mutationOrders db (InvoicePaymentRecordM row) = (case ip_orderId row of None \<Rightarrow> [] | Some i \<Rightarrow> if i = [] then [] else [i])"
| "mutationOrders db (OrderPurgeM orderId) = [orderId]"

definition effectOrders :: "EffectRequest \<Rightarrow> string list" where
  "effectOrders e = (case Option.bind (eq_payload e) (\<lambda>p. map_of p ''orderId'') of Some (JStr i) \<Rightarrow> [i] | _ \<Rightarrow> [])"

definition touchedOrders :: "SettlementOperation \<Rightarrow> 'p SettlementDb \<Rightarrow> string list" where
  "touchedOrders op db = (case sp_orderId op of None \<Rightarrow> [] | Some i \<Rightarrow> if i = [] then [] else [i])
     @ concat (map (mutationOrders db) (sp_mutations op)) @ concat (map effectOrders (sp_effects op))"

definition orderQuarantined :: "'p SettlementDb \<Rightarrow> string \<Rightarrow> bool" where
  "orderQuarantined db orderId \<longleftrightarrow> importedFinancialReconciliationRequired (Option.bind (orderOf db orderId) co_metadata)"

fun isOrderPaid :: "SettlementMutation \<Rightarrow> bool" where
  "isOrderPaid (OrderPaidM _ _ _) = True"
| "isOrderPaid _ = False"

definition quarantine :: "SettlementOperation \<Rightarrow> string list \<Rightarrow> 'p SettlementDb \<Rightarrow> (SettlementOperation \<times> string list) res" where
  "quarantine op authorized db = (let bad = filter (orderQuarantined db) (touchedOrders op db) in
     if list_ex (\<lambda>i. OrderPurgeM i \<in> set (sp_mutations op)) bad
     then Inl (Coded ''IMPORTED_FINANCIAL_RECONCILIATION_REQUIRED'' ''Imported financial history requires reconciliation before changing money.'')
     else if bad = [] then Inr (op, authorized)
     else Inr (op\<lparr>sp_disposition := Some ''imported_financial_reconciliation_required'',
                sp_mutations := filter (\<lambda>m. \<not> isOrderPaid m) (sp_mutations op), sp_effects := []\<rparr>, []))"

section \<open>Mutations\<close>

text \<open>The single payment insert that carries a provider reference names the fact.\<close>

fun refRow :: "SettlementMutation \<Rightarrow> PaymentInsert option" where
  "refRow (PaymentInsertM [row]) = (case pi_providerRef row of Some (c # cs) \<Rightarrow> Some row | _ \<Rightarrow> None)"
| "refRow _ = None"

primrec firstRef :: "nat \<Rightarrow> SettlementMutation list \<Rightarrow> (nat \<times> PaymentInsert) option" where
  "firstRef n [] = None"
| "firstRef n (m # ms) = (case refRow m of Some row \<Rightarrow> Some (n, row) | None \<Rightarrow> firstRef (Suc n) ms)"

definition refInsertOf :: "SettlementOperation \<Rightarrow> (nat \<times> PaymentInsert) option" where
  "refInsertOf op = (if sp_kind op \<in> {''payment_settled'', ''payment_state_progress''} then firstRef 0 (sp_mutations op) else None)"

definition resolveIdentity :: "('p, 'x) SettlementEnv \<Rightarrow> int \<Rightarrow> SettlementOperation \<Rightarrow> 'p SettlementDb \<Rightarrow> ((string \<times> (nat \<times> string) option) \<times> 'p SettlementDb) res" where
  "resolveIdentity env now op db = (case refInsertOf op of
     None \<Rightarrow> Inr ((sp_operationId op, None), db)
   | Some (n, row) \<Rightarrow>
       bindE (insertPayments env now [row] db) (\<lambda>(ids, db1).
       bindE (case ids of
                i # _ \<Rightarrow> Inr i
              | [] \<Rightarrow> (case paymentByRef db1 (pi_method row) (pi_providerRef row) of
                  None \<Rightarrow> Inl (Err ''Payment reference does not match the order and amount'') | Some ex \<Rightarrow> Inr (py_id ex))) (\<lambda>paymentId.
         Inr ((if sp_kind op = ''payment_settled'' then paymentId else sp_operationId op, Some (n, paymentId)), db1))))"

definition orSet :: "string option \<Rightarrow> string option \<Rightarrow> string option" where
  "orSet old v = (case old of None \<Rightarrow> v | Some _ \<Rightarrow> old)"

definition adoptPending :: "SettlementOperation \<Rightarrow> PaymentInsert list \<Rightarrow> Applied \<Rightarrow> 'p SettlementDb \<Rightarrow> Applied \<times> 'p SettlementDb" where
  "adoptPending op rows out db = (case rows of
     [row] \<Rightarrow>
       if sp_kind op = ''stripe_invoice_paid'' \<and> sp_classification op = Some FirstCycle
       then (case paymentByRef db (pi_method row) (pi_providerRef row) of
           None \<Rightarrow> (out, db)
         | Some ex \<Rightarrow>
             if py_orderId ex = pi_orderId row \<and> py_state ex = PaymentPending \<and> pi_state row = Some PaymentSettledState
             then (out\<lparr>ao_paymentId := orSet (ao_paymentId out) (Some (py_id ex))\<rparr>,
                   updatePayments (\<lambda>p. py_id p = py_id ex) (\<lambda>p. p\<lparr>py_state := PaymentSettledState, py_metadata := pi_metadata row, py_errorMessage := None\<rparr>) db)
             else (out, db))
       else (out, db)
   | _ \<Rightarrow> (out, db))"

definition fillIdentity :: "string option \<Rightarrow> string option \<Rightarrow> Payment \<Rightarrow> Payment" where
  "fillIdentity mode account p = p\<lparr>py_gatewayMode := orSet (py_gatewayMode p) mode, py_gatewayAccount := orSet (py_gatewayAccount p) account\<rparr>"

definition paidOrder :: "string \<Rightarrow> int \<Rightarrow> int \<Rightarrow> 'p SettlementTables \<Rightarrow> 'p SettlementTables" where
  "paidOrder orderId placedAt updatedAt t = (setOrders (map (\<lambda>o'. if co_id o' = orderId then o'\<lparr>co_state := Paid\<rparr> else o') (cd_orders (rs_credit (st_holds t)))) t)
     \<lparr>st_orderColumns := map (\<lambda>c. if oc_id c = orderId then c\<lparr>oc_placedAt := Some placedAt, oc_updatedAt := updatedAt\<rparr> else c) (st_orderColumns t)\<rparr>"

fun insertOrders :: "('p, 'x) SettlementEnv \<Rightarrow> OrderInsert list \<Rightarrow> 'p SettlementDb \<Rightarrow> 'p SettlementDb res" where
  "insertOrders env [] db = Inr db"
| "insertOrders env (i # rest) db = (let orderId = orElse (oi_id i) (sv_orderId env (ordersOf db)) in
     if orderOf db orderId \<noteq> None then Inl (Err ''duplicate key value violates unique constraint'')
     else insertOrders env rest (onWorld (\<lambda>t. (setOrders (cd_orders (rs_credit (st_holds t)) @ [(oi_order i)\<lparr>co_id := orderId, co_settled := hasSettled (st_payments t) orderId\<rparr>]) t)
        \<lparr>st_orderColumns := st_orderColumns t @ [(oi_columns i)\<lparr>oc_id := orderId\<rparr>]\<rparr>) db))"

definition cancelPurged :: "int \<Rightarrow> string \<Rightarrow> 'p SettlementDb \<Rightarrow> 'p SettlementDb" where
  "cancelPurged now orderId db = snd (updateEffects (\<lambda>r. ef_status r = EffectPending
       \<and> (map_of (ef_payload r) ''orderId'' = Some (JStr orderId)
          \<or> list_ex (\<lambda>o'. so_orderId o' = Some orderId \<and> so_operationKind o' = ef_operationKind r \<and> so_operationId o' = ef_operationId r) (eq_operations db)))
     (\<lambda>r. r\<lparr>ef_status := EffectDone, ef_result := Some (JObj [(''cancelled'', JStr ''order_purged''), (''orderId'', JStr orderId)]), ef_updatedAt := now\<rparr>) db)"

text \<open>Deleting an order of a purge; other tables that refer to it are the caller's.\<close>

definition deleteOrder :: "string \<Rightarrow> 'p SettlementTables \<Rightarrow> 'p SettlementTables" where
  "deleteOrder orderId t = (setOrders (filter (\<lambda>o'. co_id o' \<noteq> orderId) (cd_orders (rs_credit (st_holds t)))) t)
     \<lparr>st_orderColumns := filter (\<lambda>c. oc_id c \<noteq> orderId) (st_orderColumns t)\<rparr>"

definition invoiceConflict :: "InvoicePayment \<Rightarrow> InvoicePayment \<Rightarrow> bool" where
  "invoiceConflict a b \<longleftrightarrow> ip_id a = ip_id b \<or> ip_stripeAccountId a = ip_stripeAccountId b \<and> ip_mode a = ip_mode b \<and> ip_invoiceId a = ip_invoiceId b"

fun applyMutation :: "('p, 'x) SettlementEnv \<Rightarrow> int \<Rightarrow> SettlementOperation \<Rightarrow> (nat \<times> string) option \<Rightarrow> nat \<times> SettlementMutation \<Rightarrow> Applied \<times> 'p SettlementDb \<Rightarrow> (Applied \<times> 'p SettlementDb) res" where
  "applyMutation env now op pre (n, PaymentInsertM rows) (out, db) =
     (if (case pre of Some (k, _) \<Rightarrow> k = n | None \<Rightarrow> False) then Inr (out\<lparr>ao_paymentId := orSet (ao_paymentId out) (map_option snd pre)\<rparr>, db)
      else bindE (insertPaymentRows env now rows db) (\<lambda>(ids, db1). case ids of
          i # _ \<Rightarrow> Inr (out\<lparr>ao_paymentId := orSet (ao_paymentId out) (Some i)\<rparr>, db1)
        | [] \<Rightarrow> Inr (adoptPending op rows out db1)))"
| "applyMutation env now op pre (n, PaymentStateM paymentId u) (out, db) =
     Inr (out\<lparr>ao_paymentId := orSet (ao_paymentId out) (Some paymentId)\<rparr>,
       updatePayments (\<lambda>p. py_id p = paymentId \<and> py_state p \<noteq> PaymentSettledState)
         (\<lambda>p. p\<lparr>py_state := pu_state u, py_metadata := orElse (pu_metadata u) (py_metadata p), py_errorMessage := orElse (pu_errorMessage u) (py_errorMessage p)\<rparr>) db)"
| "applyMutation env now op pre (n, PaymentGatewayIdentityM paymentId mode account) (out, db) =
     (if list_ex (\<lambda>p. py_id p = paymentId \<and> list_ex (\<lambda>q. py_id q \<noteq> paymentId \<and> paymentConflict (fillIdentity mode account p) q) (paymentsOf db)) (paymentsOf db)
      then Inl (Err ''duplicate key value violates unique constraint'')
      else Inr (out\<lparr>ao_paymentId := orSet (ao_paymentId out) (Some paymentId)\<rparr>, updatePayments (\<lambda>p. py_id p = paymentId) (fillIdentity mode account) db))"
| "applyMutation env now op pre (n, OrderPaidM orderId placedAt updatedAt) (out, db) = (case orderOf db orderId of
     None \<Rightarrow> Inl (Err ''settlement order is missing'')
   | Some cur \<Rightarrow>
       if \<not> canTransition (co_state cur) Paid then Inl (Err ''order cannot transition to Paid'')
       else Inr (out\<lparr>ao_orderId := Some orderId\<rparr>, onWorld (paidOrder orderId placedAt (orElse updatedAt now)) db))"
| "applyMutation env now op pre (n, OrderInsertM rows) (out, db) =
     (if rows = [] then Inl (Err ''values() must be called with at least one value'')
      else bindE (insertOrders env rows db) (\<lambda>db1. Inr (out\<lparr>ao_orderId := (case oi_id (hd rows) of
          Some (c # cs) \<Rightarrow> orSet (ao_orderId out) (Some (c # cs)) | _ \<Rightarrow> ao_orderId out)\<rparr>, db1)))"
| "applyMutation env now op pre (n, OrderPurgeM orderId) (out, db) =
     Inr (out\<lparr>ao_orderId := Some orderId\<rparr>,
       onWorld (deleteOrder orderId) (onWorld (\<lambda>t. withPayments (filter (\<lambda>p. py_orderId p \<noteq> orderId) (st_payments t)) t) (cancelPurged now orderId db)))"
| "applyMutation env now op pre (n, InvoicePaymentRecordM row) (out, db) =
     (let r = row\<lparr>ip_id := sv_invoiceId env (st_invoicePayments (eq_world db))\<rparr> in
      if list_ex (\<lambda>p. py_providerRef p = Some (ip_providerRef row)) (paymentsOf db) \<or> list_ex (invoiceConflict r) (st_invoicePayments (eq_world db)) then Inr (out, db)
      else Inr (out\<lparr>ao_invoicePaymentId := Some (ip_id r)\<rparr>, onWorld (\<lambda>t. t\<lparr>st_invoicePayments := st_invoicePayments t @ [r]\<rparr>) db))"

definition applyMutations :: "('p, 'x) SettlementEnv \<Rightarrow> int \<Rightarrow> SettlementOperation \<Rightarrow> (nat \<times> string) option \<Rightarrow> 'p SettlementDb \<Rightarrow> (Applied \<times> 'p SettlementDb) res" where
  "applyMutations env now op pre db =
     foldE (applyMutation env now op pre) (enumerate 0 (sp_mutations op)) (\<lparr>ao_paymentId = None, ao_invoicePaymentId = None, ao_orderId = None\<rparr>, db)"

section \<open>Operation rows\<close>

fun paymentStateText :: "InternalPaymentState \<Rightarrow> string" where
  "paymentStateText PaymentPending = ''Pending''"
| "paymentStateText PaymentAuthorized = ''Authorized''"
| "paymentStateText PaymentSettledState = ''Settled''"
| "paymentStateText PaymentDeclined = ''Declined''"
| "paymentStateText PaymentFailed = ''Failed''"

fun classificationText :: "InvoiceClassification \<Rightarrow> string" where
  "classificationText FirstCycle = ''first_cycle''"
| "classificationText Renewal = ''renewal''"
| "classificationText Adjustment = ''adjustment''"
| "classificationText Unresolved = ''unresolved''"

definition operationKey :: "OperationRow \<Rightarrow> string \<times> string" where
  "operationKey o' = (so_operationKind o', so_operationId o')"

definition storedOperation :: "'w EffectDb \<Rightarrow> string \<Rightarrow> string \<Rightarrow> OperationRow option" where
  "storedOperation db kind opId = find (\<lambda>o'. operationKey o' = (kind, opId)) (eq_operations db)"

text \<open>An operator's resolution: the target exists, and one resolution of a target bears entitlements.\<close>

definition checkResolution :: "SettlementOperation \<Rightarrow> string list \<Rightarrow> string \<Rightarrow> 'w EffectDb \<Rightarrow> string list res" where
  "checkResolution op authorized operationId db = (case sp_resolution op of
     None \<Rightarrow> Inr []
   | Some r \<Rightarrow>
       if storedOperation db (rn_targetKind r) (rn_targetId r) = None then Inl (Err ''operator resolution target operation does not exist'')
       else if authorized \<noteq> [] \<and> storedOperation db ''operator_resolution'' operationId = None
         \<and> list_ex (\<lambda>o'. so_operationKind o' = ''operator_resolution'' \<and> so_targetKind o' = Some (rn_targetKind r) \<and> so_targetId o' = Some (rn_targetId r)
              \<and> so_authorizedEffects o' \<noteq> []) (eq_operations db)
       then Inl (Err ''an entitlement-bearing resolution already exists for this target'')
       else Inr (map ef_id (filter (\<lambda>e. ef_operationKind e = rn_targetKind r \<and> ef_operationId e = rn_targetId r \<and> ef_status e = EffectTerminal) (eq_effects db))))"

definition paymentJson :: "Payment \<Rightarrow> json" where
  "paymentJson p = JObj [(''id'', JStr (py_id p)), (''method'', JStr (py_method p)), (''provider_ref'', textOrNull (py_providerRef p)),
     (''amount'', JNum (of_int (py_amount p))), (''state'', JStr (paymentStateText (py_state p)))]"

fun purgedOrder :: "SettlementMutation \<Rightarrow> string option" where
  "purgedOrder (OrderPurgeM orderId) = Some orderId"
| "purgedOrder _ = None"

definition purgeSnapshot :: "SettlementOperation \<Rightarrow> 'p SettlementDb \<Rightarrow> json option" where
  "purgeSnapshot op db = (case List.map_filter purgedOrder (sp_mutations op) of
     [] \<Rightarrow> None
   | orderId # _ \<Rightarrow> Some (JArr (map paymentJson (filter (\<lambda>p. py_orderId p = orderId) (paymentsOf db)))))"

definition newOperation :: "SettlementOperation \<Rightarrow> string list \<Rightarrow> string \<Rightarrow> string \<Rightarrow> json option \<Rightarrow> OperationRow" where
  "newOperation op authorized rowId operationId snapshot = \<lparr>so_id = rowId, so_operationKind = sp_kind op, so_operationId = operationId,
     so_classification = sp_classification op,
     so_authorizedEffects = (if sp_kind op = ''stripe_invoice_paid'' \<or> sp_kind op = ''operator_resolution'' then authorized else []),
     so_disposition = sp_disposition op, so_paymentId = None, so_orderId = None, so_licenseId = None, so_invoicePaymentId = None,
     so_paymentIntent = map_option (snd \<circ> snd) (sp_provider op), so_providerAccount = map_option fst (sp_provider op),
     so_providerMode = map_option (fst \<circ> snd) (sp_provider op),
     so_targetKind = map_option rn_targetKind (sp_resolution op), so_targetId = map_option rn_targetId (sp_resolution op),
     so_actor = map_option rn_actor (sp_resolution op), so_reason = map_option rn_reason (sp_resolution op), so_snapshot = snapshot\<rparr>"

section \<open>A replay\<close>

text \<open>A replay is refused while what it would have done is not done.\<close>

fun replayRefused :: "'p SettlementDb \<Rightarrow> SettlementMutation \<Rightarrow> bool" where
  "replayRefused db (OrderPaidM orderId _ _) = (case orderOf db orderId of None \<Rightarrow> True | Some cur \<Rightarrow> canTransition (co_state cur) Paid)"
| "replayRefused db (OrderInsertM (i # _)) = (case oi_id i of Some (c # cs) \<Rightarrow> orderOf db (c # cs) = None | _ \<Rightarrow> False)"
| "replayRefused db _ = False"

definition replayAudit :: "SettlementOperation \<Rightarrow> OperationRow \<Rightarrow> 'w EffectDb \<Rightarrow> 'w EffectDb" where
  "replayAudit op existing db = (case (sp_classification op, so_classification existing) of
     (Some observed, Some stored) \<Rightarrow>
       if stored \<noteq> observed
       then db\<lparr>eq_audit := eq_audit db @ [\<lparr>fa_actor = ''system:settlement'', fa_entity = ''settlement_operation'', fa_entityId = so_id existing,
              fa_action = ''settlement_classification_replayed'',
              fa_data = JObj [(''operationKind'', JStr (sp_kind op)), (''operationId'', JStr (sp_operationId op)),
                (''stored'', JStr (classificationText stored)), (''observed'', JStr (classificationText observed))]\<rparr>]\<rparr>
       else db
   | _ \<Rightarrow> db)"

definition replaySettlement :: "SettlementOperation \<Rightarrow> string \<Rightarrow> OperationRow \<Rightarrow> 'p SettlementDb \<Rightarrow> (SettlementResult \<times> 'p SettlementDb) res" where
  "replaySettlement op operationId existing db =
     (if list_ex (replayRefused db) (sp_mutations op) then Inl (Err ''settlement replay would skip an unapplied mutation'')
      else Inr (\<lparr>sr_created = False, sr_replayed = True, sr_operationRowId = Some (so_id existing), sr_paymentId = so_paymentId existing,
          sr_invoicePaymentId = so_invoicePaymentId existing,
          sr_effectIds = map ef_id (filter (\<lambda>e. ef_operationKind e = sp_kind op \<and> ef_operationId e = operationId) (eq_effects db)),
          sr_storedClassification = so_classification existing, sr_creditReconciliation = None\<rparr>, replayAudit op existing db))"

section \<open>Money that settles an order consumes its reservations\<close>

definition settledOrder :: "SettlementOperation \<Rightarrow> Applied \<Rightarrow> 'p SettlementDb \<Rightarrow> string option" where
  "settledOrder op applied db = (case ao_orderId applied of
     Some i \<Rightarrow> Some i
   | None \<Rightarrow> (case sp_orderId op of
        Some i \<Rightarrow> Some i
      | None \<Rightarrow> (case ao_paymentId applied of Some (c # cs) \<Rightarrow> paymentOrderId db (c # cs) | _ \<Rightarrow> None)))"

definition settleCredit :: "('p, 'x) SettlementEnv \<Rightarrow> int \<Rightarrow> SettlementOperation \<Rightarrow> string \<Rightarrow> Applied \<Rightarrow> 'p SettlementDb \<Rightarrow> ((string option \<times> string list) \<times> 'p SettlementDb) res" where
  "settleCredit env now op operationId applied db =
     (if sp_kind op \<notin> set CONSUMING_KINDS then Inr ((None, []), db)
      else (case settledOrder op applied db of
         Some (c # cs) \<Rightarrow>
           let orderId = c # cs;
               paymentId = (case ao_paymentId applied of Some i \<Rightarrow> Some i | None \<Rightarrow> latestSettledPaymentId db orderId) in
           if orderQuarantined db orderId then Inr ((None, []), db)
           else (case postAcceptedCredit env orderId db of (reconciliation, db1) \<Rightarrow>
             bindE (consumeForSettlement (sv_holds env) now orderId paymentId operationId (st_holds (eq_world db1))) (\<lambda>(consumed, holds).
               Inr ((reconciliation, map hr_id consumed), onWorld (\<lambda>t. t\<lparr>st_holds := holds\<rparr>) db1)))
       | _ \<Rightarrow> Inr ((None, []), db)))"

definition withReservations :: "string list \<Rightarrow> EffectRequest \<Rightarrow> EffectRequest" where
  "withReservations ids e = (if ids \<noteq> [] \<and> eq_kind e = ''license_issue''
     then e\<lparr>eq_payload := Some (AList.update ''reservationIds'' (JArr (map JStr ids)) (orElse (eq_payload e) []))\<rparr> else e)"

section \<open>Recording an operation\<close>

definition markResolved :: "SettlementOperation \<Rightarrow> string \<Rightarrow> string list \<Rightarrow> 'w EffectDb \<Rightarrow> 'w EffectDb" where
  "markResolved op rowId heldIds db = (case sp_resolution op of
     Some r \<Rightarrow> if rn_action r = ApplyResolution then snd (updateEffects (\<lambda>e. ef_id e \<in> set heldIds) (\<lambda>e. e\<lparr>ef_resolvedBy := Some rowId\<rparr>) db) else db
   | None \<Rightarrow> db)"

definition linkOperation :: "SettlementOperation \<Rightarrow> string \<Rightarrow> Applied \<Rightarrow> 'w EffectDb \<Rightarrow> 'w EffectDb" where
  "linkOperation op rowId applied db = db\<lparr>eq_operations := map (\<lambda>o'. if so_id o' = rowId
       then o'\<lparr>so_paymentId := ao_paymentId applied, so_orderId := (case ao_orderId applied of Some i \<Rightarrow> Some i | None \<Rightarrow> sp_orderId op),
               so_invoicePaymentId := ao_invoicePaymentId applied\<rparr> else o') (eq_operations db)\<rparr>"

fun isPaymentInsert :: "SettlementMutation \<Rightarrow> bool" where
  "isPaymentInsert (PaymentInsertM _) = True"
| "isPaymentInsert _ = False"

definition notANewFact :: "SettlementOperation \<Rightarrow> Applied \<Rightarrow> bool" where
  "notANewFact op applied \<longleftrightarrow> sp_kind op \<in> set PAYMENT_IDENTITY_KINDS \<and> list_ex isPaymentInsert (sp_mutations op) \<and> ao_paymentId applied = None"

definition emptyResult :: SettlementResult where
  "emptyResult = \<lparr>sr_created = False, sr_replayed = False, sr_operationRowId = None, sr_paymentId = None, sr_invoicePaymentId = None,
     sr_effectIds = [], sr_storedClassification = None, sr_creditReconciliation = None\<rparr>"

definition recordFresh :: "('p, 'x) SettlementEnv \<Rightarrow> int \<Rightarrow> SettlementOperation \<Rightarrow> string \<Rightarrow> (nat \<times> string) option \<Rightarrow> string list \<Rightarrow> OperationRow \<Rightarrow> 'p SettlementDb \<Rightarrow> (SettlementResult \<times> 'p SettlementDb) res" where
  "recordFresh env now op operationId pre heldIds row db =
     bindE (applyMutations env now op pre (db\<lparr>eq_operations := eq_operations db @ [row]\<rparr>)) (\<lambda>(applied, db1).
     if notANewFact op applied then Inr (emptyResult, db1\<lparr>eq_operations := filter (\<lambda>o'. so_id o' \<noteq> so_id row) (eq_operations db1)\<rparr>)
     else bindE (settleCredit env now op operationId applied (markResolved op (so_id row) heldIds (linkOperation op (so_id row) applied db1))) (\<lambda>((reconciliation, ids), db2).
       bindE (enqueueEffects (sv_engine env) now (sp_kind op) operationId (map (withReservations ids) (sp_effects op)) db2) (\<lambda>(created, db3).
         Inr (emptyResult\<lparr>sr_created := True, sr_operationRowId := Some (so_id row), sr_paymentId := ao_paymentId applied, sr_creditReconciliation := reconciliation,
           sr_invoicePaymentId := ao_invoicePaymentId applied, sr_effectIds := map ef_id created, sr_storedClassification := sp_classification op\<rparr>, db3))))"

definition recordOnce :: "('p, 'x) SettlementEnv \<Rightarrow> int \<Rightarrow> SettlementOperation \<Rightarrow> string list \<Rightarrow> string \<Rightarrow> (nat \<times> string) option \<Rightarrow> 'p SettlementDb \<Rightarrow> (SettlementResult \<times> 'p SettlementDb) res" where
  "recordOnce env now op authorized operationId pre db =
     bindE (checkResolution op authorized operationId db) (\<lambda>heldIds.
     case storedOperation db (sp_kind op) operationId of
       Some existing \<Rightarrow> replaySettlement op operationId existing db
     | None \<Rightarrow> (let rowId = sv_operationId env (eq_operations db) in
         if list_ex (\<lambda>o'. so_id o' = rowId) (eq_operations db) then Inl (Err ''duplicate key value violates unique constraint'')
         else recordFresh env now op operationId pre heldIds (newOperation op authorized rowId operationId (purgeSnapshot op db)) db))"

text \<open>Everything but the inline execution of the effects.\<close>

definition recordSettlement :: "('p, 'x) SettlementEnv \<Rightarrow> int \<Rightarrow> SettlementOperation \<Rightarrow> 'p SettlementDb \<Rightarrow> (SettlementResult \<times> 'p SettlementDb) res" where
  "recordSettlement env now op0 db =
     bindE (checkOperation env op0) (\<lambda>allowed.
     bindE (quarantine op0 allowed db) (\<lambda>(op, authorized).
     bindE (resolveIdentity env now op db) (\<lambda>((operationId, pre), db1).
       if sp_kind op \<in> set MONOTONE_KINDS
       then bindE (applyMutations env now op pre db1) (\<lambda>(applied, db2). Inr (emptyResult\<lparr>sr_created := True, sr_paymentId := ao_paymentId applied\<rparr>, db2))
       else recordOnce env now op authorized operationId pre db1)))"

definition recordSettlementOperation :: "('p, 'x) SettlementEnv \<Rightarrow> int \<Rightarrow> SettlementOperation \<Rightarrow> 'p SettlementDb \<Rightarrow> (SettlementResult \<times> 'p SettlementDb) res" where
  "recordSettlementOperation env now op db = bindE (recordSettlement env now op db) (\<lambda>(result, db1).
     if sr_created result \<and> sr_operationRowId result \<noteq> None \<and> sp_effectMode op = InlineEffects
     then bindE (executeEffectsNow (sv_engine env) now (sv_token env) (sr_effectIds result) db1) (\<lambda>db2. Inr (result, db2))
     else Inr (result, db1))"

section \<open>Effects of the built-in operations\<close>

datatype PaidVariant = SettleVariant | CheckoutVariant

fun variantText :: "PaidVariant \<Rightarrow> string" where
  "variantText SettleVariant = ''settle''"
| "variantText CheckoutVariant = ''checkout''"

definition request :: "string \<Rightarrow> (string \<times> json) list \<Rightarrow> EffectRequest" where
  "request kind payload = \<lparr>eq_kind = kind, eq_payloadVersion = None, eq_payload = Some payload, eq_resolution = None\<rparr>"

text \<open>\<open>paidAt\<close> is the time in ISO format.\<close>

definition paidOrderEffects :: "string \<Rightarrow> string option \<Rightarrow> string \<Rightarrow> PaidVariant \<Rightarrow> string option \<Rightarrow> int option \<Rightarrow> bool \<Rightarrow> EffectRequest list" where
  "paidOrderEffects orderId customerId paidAt variant guestEmail itemCount onlyIssue =
     (let issue = request ''license_issue'' [(''orderId'', JStr orderId), (''customerId'', textOrNull customerId), (''paidAt'', JStr paidAt)] in
      if onlyIssue then [issue]
      else [issue,
        request ''loyalty_earn'' [(''variant'', JStr (variantText variant)), (''orderId'', JStr orderId), (''paidAt'', JStr paidAt)],
        request ''notification'' [(''variant'', JStr (variantText variant)), (''orderId'', JStr orderId), (''guestEmail'', textOrNull guestEmail),
          (''itemCount'', JNum (of_int (orElse itemCount 0)))]])"

definition editBalanceEffects :: "string \<Rightarrow> string option \<Rightarrow> bool option \<Rightarrow> string option \<Rightarrow> string \<Rightarrow> EffectRequest list" where
  "editBalanceEffects orderId customerId earn actorKind paidAt =
     request ''edit_reconcile'' ([(''orderId'', JStr orderId), (''customerId'', textOrNull customerId), (''paidAt'', JStr paidAt)]
       @ (case actorKind of None \<Rightarrow> [] | Some k \<Rightarrow> [(''actorKind'', JStr k)]))
     # (if earn = Some False then [] else [request ''loyalty_earn'' [(''variant'', JStr ''deferred_edit''), (''orderId'', JStr orderId)]])"

end
