(* ===== verification/SettlementLaws.thy ===== *)
theory SettlementLaws
  imports Settlement
begin

text \<open>
  What recording a settlement keeps: money that was captured stays captured, orders become paid only along the order
  lifecycle, a fact that was recorded is never recorded again, every effect is one its operation authorizes, and money
  that pays an order consumes the order's reservations.
\<close>

section \<open>Tables under a write of payments or orders\<close>

lemma onWorld_simps [simp]:
  "eq_effects (onWorld f db) = eq_effects db" "eq_operations (onWorld f db) = eq_operations db" "eq_audit (onWorld f db) = eq_audit db"
  "eq_receipts (onWorld f db) = eq_receipts db" "eq_world (onWorld f db) = f (eq_world db)"
  by (simp_all add: onWorld_def)

lemma withPayments_simps [simp]:
  "st_payments (withPayments ps t) = ps" "rs_rows (st_holds (withPayments ps t)) = rs_rows (st_holds t)"
  "cd_orders (rs_credit (st_holds (withPayments ps t))) = map (\<lambda>o'. o'\<lparr>co_settled := hasSettled ps (co_id o')\<rparr>) (cd_orders (rs_credit (st_holds t)))"
  "cd_entries (rs_credit (st_holds (withPayments ps t))) = cd_entries (rs_credit (st_holds t))"
  by (simp_all add: withPayments_def)

lemma setOrders_simps [simp]:
  "st_payments (setOrders os t) = st_payments t" "rs_rows (st_holds (setOrders os t)) = rs_rows (st_holds t)"
  "cd_orders (rs_credit (st_holds (setOrders os t))) = os" "cd_entries (rs_credit (st_holds (setOrders os t))) = cd_entries (rs_credit (st_holds t))"
  by (simp_all add: setOrders_def)

section \<open>Payments and orders only move forward\<close>

text \<open>A payment keeps its columns but the ones its progress writes; \<open>strict\<close>: the gateway's identity too.\<close>

definition samePayment :: "bool \<Rightarrow> Payment \<Rightarrow> Payment \<Rightarrow> bool" where
  "samePayment strict p q \<longleftrightarrow> py_id q = py_id p \<and> py_orderId q = py_orderId p \<and> py_amount q = py_amount p \<and> py_currency q = py_currency p
     \<and> py_method q = py_method p \<and> py_providerRef q = py_providerRef p \<and> py_createdAt q = py_createdAt p
     \<and> (py_state p = PaymentSettledState \<longrightarrow> py_state q = PaymentSettledState)
     \<and> (strict \<longrightarrow> py_gatewayAccount q = py_gatewayAccount p \<and> py_gatewayMode q = py_gatewayMode p)"

definition paymentsGrow :: "bool \<Rightarrow> Payment list \<Rightarrow> Payment list \<Rightarrow> bool" where
  "paymentsGrow s ps ps' \<longleftrightarrow> (\<exists>qs new. ps' = qs @ new \<and> list_all2 (samePayment s) ps qs)"

definition orderMoves :: "CreditOrder \<Rightarrow> CreditOrder \<Rightarrow> bool" where
  "orderMoves o1 o2 \<longleftrightarrow> co_id o2 = co_id o1 \<and> co_metadata o2 = co_metadata o1
     \<and> (co_state o2 = co_state o1 \<or> co_state o2 = Paid \<and> canTransition (co_state o1) Paid)"

definition keeps :: "bool \<Rightarrow> 'p SettlementDb \<Rightarrow> 'p SettlementDb \<Rightarrow> bool" where
  "keeps s db db' \<longleftrightarrow> paymentsGrow s (paymentsOf db) (paymentsOf db')
     \<and> (\<forall>i o1. orderOf db i = Some o1 \<longrightarrow> (\<exists>o2. orderOf db' i = Some o2 \<and> orderMoves o1 o2))"

definition sameQueue :: "'p SettlementDb \<Rightarrow> 'p SettlementDb \<Rightarrow> bool" where
  "sameQueue db db' \<longleftrightarrow> eq_effects db' = eq_effects db \<and> eq_operations db' = eq_operations db \<and> eq_audit db' = eq_audit db
     \<and> rs_rows (st_holds (eq_world db')) = rs_rows (st_holds (eq_world db))"

lemma samePayment_refl [simp]: "samePayment s p p"
  by (simp add: samePayment_def)

lemma samePayment_trans: "\<lbrakk>samePayment s p q; samePayment s q r\<rbrakk> \<Longrightarrow> samePayment s p r"
  by (simp add: samePayment_def)

lemma paymentsGrow_refl [simp]: "paymentsGrow s ps ps"
  unfolding paymentsGrow_def by (intro exI[of _ ps] exI[of _ "[]"]) (simp add: list_all2_same)

lemma paymentsGrow_append: "paymentsGrow s ps (ps @ new)"
  unfolding paymentsGrow_def by (intro exI[of _ ps] exI[of _ new]) (simp add: list_all2_same)

lemma paymentsGrow_map: "(\<And>p. samePayment s p (f p)) \<Longrightarrow> paymentsGrow s ps (map f ps)"
  unfolding paymentsGrow_def by (intro exI[of _ "map f ps"] exI[of _ "[]"]) (simp add: list_all2_conv_all_nth)

lemma paymentsGrow_trans: "\<lbrakk>paymentsGrow s ps qs; paymentsGrow s qs rs\<rbrakk> \<Longrightarrow> paymentsGrow s ps rs"
proof -
  assume "paymentsGrow s ps qs" "paymentsGrow s qs rs"
  then obtain a b c d where ab: "qs = a @ b" "list_all2 (samePayment s) ps a" and cd: "rs = c @ d" "list_all2 (samePayment s) (a @ b) c"
    by (auto simp: paymentsGrow_def)
  from cd(2) obtain c1 c2 where c: "c = c1 @ c2" "list_all2 (samePayment s) a c1" by (auto simp: list_all2_append1)
  then have "list_all2 (samePayment s) ps c1" using ab(2) by (blast intro: list_all2_trans[of "samePayment s" "samePayment s" "samePayment s"] samePayment_trans)
  then show ?thesis using cd(1) c(1) by (auto simp: paymentsGrow_def)
qed

lemma paymentsGrow_member: "\<lbrakk>paymentsGrow s ps qs; p \<in> set ps\<rbrakk> \<Longrightarrow> \<exists>q\<in>set qs. samePayment s p q"
  unfolding paymentsGrow_def by (fastforce simp: list_all2_conv_all_nth in_set_conv_nth)

lemma paymentsGrow_find:
  assumes grow: "paymentsGrow s ps qs" and stable: "\<And>p q. samePayment s p q \<Longrightarrow> P q = P p" and f: "find P ps = Some p"
  shows "\<exists>q. find P qs = Some q \<and> samePayment s p q"
proof -
  obtain a b where ab: "qs = a @ b" "list_all2 (samePayment s) ps a" using grow by (auto simp: paymentsGrow_def)
  from ab(2) f have "\<exists>q. find P a = Some q \<and> samePayment s p q"
    by (induction rule: list_all2_induct) (auto simp: stable split: if_splits)
  then show ?thesis by (auto simp: ab(1) find_append)
qed

lemma orderMoves_refl [simp]: "orderMoves o1 o1"
  by (simp add: orderMoves_def)

lemma orderMoves_trans: "\<lbrakk>orderMoves o1 o2; orderMoves o2 o3\<rbrakk> \<Longrightarrow> orderMoves o1 o3"
  by (auto simp: orderMoves_def)

lemma keeps_refl [simp]: "keeps s db db"
  by (simp add: keeps_def)

lemma keeps_trans [trans]: "\<lbrakk>keeps s d1 d2; keeps s d2 d3\<rbrakk> \<Longrightarrow> keeps s d1 d3"
  unfolding keeps_def by (metis paymentsGrow_trans orderMoves_trans)

lemma sameQueue_refl [simp]: "sameQueue db db"
  by (simp add: sameQueue_def)

lemma sameQueue_trans [trans]: "\<lbrakk>sameQueue d1 d2; sameQueue d2 d3\<rbrakk> \<Longrightarrow> sameQueue d1 d3"
  by (simp add: sameQueue_def)

lemma orderOf_withPayments [simp]:
  "orderOf (onWorld (withPayments ps) db) i = map_option (\<lambda>o'. o'\<lparr>co_settled := hasSettled ps (co_id o')\<rparr>) (orderOf db i)"
  by (simp add: orderOf_def ordersOf_def find_map_same)

lemma paymentsOf_withPayments [simp]: "paymentsOf (onWorld (withPayments ps) db) = ps"
  by (simp add: paymentsOf_def)

lemma withPayments_keeps: "paymentsGrow s (paymentsOf db) ps \<Longrightarrow> keeps s db (onWorld (withPayments ps) db)"
  by (auto simp: keeps_def orderMoves_def)

lemma updatePayments_keeps: "(\<And>p. P p \<Longrightarrow> samePayment s p (f p)) \<Longrightarrow> keeps s db (updatePayments P f db) \<and> sameQueue db (updatePayments P f db)"
  unfolding updatePayments_def by (simp add: sameQueue_def) (rule withPayments_keeps, rule paymentsGrow_map, simp)

lemma insertPayments_keeps: "insertPayments env now rows db = Inr (ids, db') \<Longrightarrow> keeps s db db' \<and> sameQueue db db'"
proof (induction env now rows db arbitrary: ids db' rule: insertPayments.induct)
  case (2 env now i rest db)
  let ?p = "newPayment now (sv_paymentId env (paymentsOf db)) i"
  let ?db = "onWorld (withPayments (paymentsOf db @ [?p])) db"
  have step: "keeps s db ?db \<and> sameQueue db ?db"
    by (simp add: withPayments_keeps paymentsGrow_append sameQueue_def)
  show ?case
  proof (cases "list_ex (paymentConflict ?p) (paymentsOf db)")
    case True
    then show ?thesis using 2 by (simp add: Let_def)
  next
    case False
    then have o: "orderOf db (py_orderId ?p) \<noteq> None" using "2.prems" by (simp add: Let_def split: if_splits)
    with False "2.prems" obtain ids1 where "insertPayments env now rest ?db = Inr (ids1, db')" by (auto simp: Let_def)
    from "2.IH"(2)[OF refl False o this] step show ?thesis by (blast intro: keeps_trans sameQueue_trans)
  qed
qed simp

lemma insertPaymentRows_keeps: "insertPaymentRows env now rows db = Inr (ids, db') \<Longrightarrow> keeps s db db' \<and> sameQueue db db'"
  by (auto simp: insertPaymentRows_def split: if_splits dest: insertPayments_keeps)

lemma adoptPending_keeps: "adoptPending op rows out db = (out', db') \<Longrightarrow> keeps s db db' \<and> sameQueue db db'"
  by (auto simp: adoptPending_def samePayment_def split: list.splits if_splits option.splits intro!: updatePayments_keeps[THEN conjunct1] updatePayments_keeps[THEN conjunct2])

lemma orderOf_paid:
  "orderOf (onWorld (paidOrder orderId placedAt updatedAt) db) i
     = map_option (\<lambda>o'. if co_id o' = orderId then o'\<lparr>co_state := Paid\<rparr> else o') (orderOf db i)"
  by (simp add: orderOf_def ordersOf_def paidOrder_def find_map_same)

lemma paid_keeps:
  assumes "orderOf db orderId = Some cur" "canTransition (co_state cur) Paid"
  shows "keeps s db (onWorld (paidOrder orderId placedAt updatedAt) db) \<and> sameQueue db (onWorld (paidOrder orderId placedAt updatedAt) db)"
proof -
  have "orderMoves o1 (o1\<lparr>co_state := Paid\<rparr>)" if "orderOf db i = Some o1" "co_id o1 = orderId" for i o1
  proof -
    from that have "i = orderId" by (auto simp: orderOf_def find_Some_iff)
    then show ?thesis using assms that by (simp add: orderMoves_def)
  qed
  then show ?thesis by (auto simp: keeps_def sameQueue_def orderOf_paid paymentsOf_def) (simp_all add: paidOrder_def)
qed

lemma insertOrders_keeps: "insertOrders env rows db = Inr db' \<Longrightarrow> keeps s db db' \<and> sameQueue db db'"
proof (induction env rows db arbitrary: db' rule: insertOrders.induct)
  case (2 env i rest db)
  let ?id = "orElse (oi_id i) (sv_orderId env (ordersOf db))"
  let ?f = "\<lambda>t. (setOrders (cd_orders (rs_credit (st_holds t)) @ [(oi_order i)\<lparr>co_id := ?id, co_settled := hasSettled (st_payments t) ?id\<rparr>]) t)
        \<lparr>st_orderColumns := st_orderColumns t @ [(oi_columns i)\<lparr>oc_id := ?id\<rparr>]\<rparr>"
  have "orderOf db ?id = None" "insertOrders env rest (onWorld ?f db) = Inr db'" using "2.prems" by (auto simp: Let_def split: if_splits)
  moreover have "keeps s db (onWorld ?f db) \<and> sameQueue db (onWorld ?f db)"
    by (auto simp: keeps_def sameQueue_def paymentsOf_def orderOf_def ordersOf_def find_append)
  ultimately show ?case using "2.IH"[OF refl] by (blast intro: keeps_trans sameQueue_trans)
qed simp

text \<open>Every mutation but a purge.\<close>

fun isIdentity :: "SettlementMutation \<Rightarrow> bool" where
  "isIdentity (PaymentGatewayIdentityM _ _ _) = True"
| "isIdentity _ = False"

lemma applyMutation_keeps:
  assumes "applyMutation env now op pre (n, m) (out, db) = Inr (out', db')" "purgedOrder m = None" "s \<longrightarrow> \<not> isIdentity m"
  shows "keeps s db db' \<and> sameQueue db db'"
proof (cases m)
  case (PaymentInsertM rows)
  then show ?thesis using assms
    by (auto split: if_splits option.splits list.splits dest: insertPaymentRows_keeps adoptPending_keeps intro: keeps_trans sameQueue_trans)
next
  case (PaymentStateM i u)
  then show ?thesis using assms by (auto intro!: updatePayments_keeps simp: samePayment_def)
next
  case (PaymentGatewayIdentityM i mode account)
  then show ?thesis using assms by (auto intro!: updatePayments_keeps simp: samePayment_def fillIdentity_def split: if_splits)
next
  case (OrderPaidM i paidAt upd)
  then show ?thesis using assms by (auto split: option.splits if_splits intro!: paid_keeps)
next
  case (OrderInsertM rows)
  then show ?thesis using assms by (auto split: if_splits dest: insertOrders_keeps)
next
  case (InvoicePaymentRecordM row)
  then show ?thesis using assms by (auto simp: keeps_def sameQueue_def paymentsOf_def orderOf_def ordersOf_def Let_def split: if_splits)
qed (use assms in simp)

lemma foldE_keeps:
  assumes "foldE (applyMutation env now op pre) ms (out, db) = Inr (out', db')" "\<forall>(n, m)\<in>set ms. purgedOrder m = None \<and> (s \<longrightarrow> \<not> isIdentity m)"
  shows "keeps s db db' \<and> sameQueue db db'"
  using assms
proof (induction ms arbitrary: out db)
  case (Cons nm ms)
  obtain n m where nm: "nm = (n, m)" by (cases nm)
  from Cons.prems obtain out1 db1 where 1: "applyMutation env now op pre (n, m) (out, db) = Inr (out1, db1)"
    and 2: "foldE (applyMutation env now op pre) ms (out1, db1) = Inr (out', db')" by (auto simp: nm)
  have "keeps s db db1 \<and> sameQueue db db1" using applyMutation_keeps[OF 1, of s] Cons.prems(2) by (simp add: nm)
  moreover have "keeps s db1 db' \<and> sameQueue db1 db'" using Cons.IH[OF 2] Cons.prems(2) by simp
  ultimately show ?case by (blast intro: keeps_trans sameQueue_trans)
qed simp

definition noPurge :: "SettlementOperation \<Rightarrow> bool" where
  "noPurge op \<longleftrightarrow> list_all (\<lambda>m. purgedOrder m = None) (sp_mutations op)"

lemma enumerated: "\<lbrakk>(n, m) \<in> set (enumerate 0 ms); list_all P ms\<rbrakk> \<Longrightarrow> P m"
  by (auto simp: in_set_enumerate_eq list_all_length)

lemma applyMutations_keeps:
  "\<lbrakk>applyMutations env now op pre db = Inr (out, db'); noPurge op; s \<longrightarrow> list_all (\<lambda>m. \<not> isIdentity m) (sp_mutations op)\<rbrakk> \<Longrightarrow> keeps s db db' \<and> sameQueue db db'"
  unfolding applyMutations_def noPurge_def by (erule foldE_keeps) (blast dest: enumerated)

lemma resolveIdentity_keeps: "resolveIdentity env now op db = Inr (res, db') \<Longrightarrow> keeps s db db' \<and> sameQueue db db'"
  by (auto simp: resolveIdentity_def simp del: insertPayments.simps split: option.split_asm dest!: insertPayments_keeps[of _ _ _ _ _ _ s])

text \<open>Credit and reservations keep the payments and the orders.\<close>

lemma redeem_orders: "redeem gen orderId amount allocation c = Inr (e, c') \<Longrightarrow> cd_orders c' = cd_orders c"
  by (auto simp: redeem_def releaseEntry_def voidHold_def setStatus_def setBalance_def conflict_def split: option.splits if_splits dest!: insertEntry_orders)

lemma redeemAfterSettlement_orders: "redeemAfterSettlement gen orderId amount allocation c = (res, c') \<Longrightarrow> cd_orders c' = cd_orders c"
  by (auto simp: redeemAfterSettlement_def afterSettlement_def split: sum.splits prod.splits js_error.splits dest: redeem_orders)

definition sameMoney :: "'p SettlementDb \<Rightarrow> 'p SettlementDb \<Rightarrow> bool" where
  "sameMoney db db' \<longleftrightarrow> paymentsOf db' = paymentsOf db \<and> ordersOf db' = ordersOf db \<and> eq_effects db' = eq_effects db
     \<and> eq_operations db' = eq_operations db \<and> eq_audit db' = eq_audit db"

lemma sameMoney_keeps: "sameMoney db db' \<Longrightarrow> keeps s db db'"
  by (simp add: sameMoney_def keeps_def orderOf_def)

lemma sameMoney_refl [simp]: "sameMoney db db"
  by (simp add: sameMoney_def)

lemma postAcceptedCredit_same:
  assumes "postAcceptedCredit env orderId db = (r, db')"
  shows "sameMoney db db'" "rs_rows (st_holds (eq_world db')) = rs_rows (st_holds (eq_world db))"
  using assms
  by (auto simp: postAcceptedCredit_def Let_def sameMoney_def paymentsOf_def ordersOf_def split: option.splits if_splits sum.splits prod.splits
      dest: redeemAfterSettlement_orders)

lemma settleCredit_same: "settleCredit env now op operationId applied db = Inr (res, db') \<Longrightarrow> sameMoney db db'"
proof -
  assume s: "settleCredit env now op operationId applied db = Inr (res, db')"
  have "sameMoney db (onWorld (\<lambda>t. t\<lparr>st_holds := holds\<rparr>) db1)"
    if p: "postAcceptedCredit env i db = (r, db1)" and c: "consumeForSettlement e now i pid oid (st_holds (eq_world db1)) = Inr (rows, holds)"
    for i r db1 e pid oid rows holds
    using postAcceptedCredit_same(1)[OF p] consumeForSettlement_moves[OF c, of True]
    by (simp add: sameMoney_def paymentsOf_def ordersOf_def moves_def)
  with s show ?thesis by (auto simp: settleCredit_def Let_def split: if_splits option.splits list.splits prod.splits)
qed

section \<open>The branches of a recording\<close>

lemma recordSettlement_cases:
  assumes "recordSettlement env now op0 db = Inr (r, db')"
  obtains allowed op authorized operationId pre db1 where "checkOperation env op0 = Inr allowed" "quarantine op0 allowed db = Inr (op, authorized)"
    "resolveIdentity env now op db = Inr ((operationId, pre), db1)"
    "(if sp_kind op \<in> set MONOTONE_KINDS
      then bindE (applyMutations env now op pre db1) (\<lambda>(applied, db2). Inr (emptyResult\<lparr>sr_created := True, sr_paymentId := ao_paymentId applied\<rparr>, db2))
      else recordOnce env now op authorized operationId pre db1) = Inr (r, db')"
  using assms by (auto simp: recordSettlement_def)

lemma recordOnce_cases:
  assumes "recordOnce env now op authorized operationId pre db = Inr (r, db')"
  obtains (replay) existing where "storedOperation db (sp_kind op) operationId = Some existing" "\<not> list_ex (replayRefused db) (sp_mutations op)"
      "sr_replayed r" "\<not> sr_created r" "sr_operationRowId r = Some (so_id existing)" "db' = replayAudit op existing db"
  | (conflict) row applied db1 where "storedOperation db (sp_kind op) operationId = None" "\<forall>o'\<in>set (eq_operations db). so_id o' \<noteq> so_id row"
      "applyMutations env now op pre (db\<lparr>eq_operations := eq_operations db @ [row]\<rparr>) = Inr (applied, db1)" "notANewFact op applied"
      "r = emptyResult" "db' = db1\<lparr>eq_operations := filter (\<lambda>o'. so_id o' \<noteq> so_id row) (eq_operations db1)\<rparr>"
  | (fresh) heldIds row applied db1 reconciliation ids db2 created where "storedOperation db (sp_kind op) operationId = None"
      "row = newOperation op authorized (so_id row) operationId (purgeSnapshot op db)" "\<forall>o'\<in>set (eq_operations db). so_id o' \<noteq> so_id row"
      "applyMutations env now op pre (db\<lparr>eq_operations := eq_operations db @ [row]\<rparr>) = Inr (applied, db1)"
      "settleCredit env now op operationId applied (markResolved op (so_id row) heldIds (linkOperation op (so_id row) applied db1)) = Inr ((reconciliation, ids), db2)"
      "enqueueEffects (sv_engine env) now (sp_kind op) operationId (map (withReservations ids) (sp_effects op)) db2 = Inr (created, db')"
      "sr_created r" "\<not> sr_replayed r" "sr_operationRowId r = Some (so_id row)" "sr_effectIds r = map ef_id created"
proof -
  from assms obtain heldIds where h: "checkResolution op authorized operationId db = Inr heldIds"
    and rest: "(case storedOperation db (sp_kind op) operationId of
       Some existing \<Rightarrow> replaySettlement op operationId existing db
     | None \<Rightarrow> (let rowId = sv_operationId env (eq_operations db) in
         if list_ex (\<lambda>o'. so_id o' = rowId) (eq_operations db) then Inl (Err ''duplicate key value violates unique constraint'')
         else recordFresh env now op operationId pre heldIds (newOperation op authorized rowId operationId (purgeSnapshot op db)) db)) = Inr (r, db')"
    by (auto simp: recordOnce_def)
  show thesis
  proof (cases "storedOperation db (sp_kind op) operationId")
    case (Some existing)
    then show thesis using rest by (intro replay[of existing]) (auto simp: replaySettlement_def split: if_splits)
  next
    case None
    let ?row = "newOperation op authorized (sv_operationId env (eq_operations db)) operationId (purgeSnapshot op db)"
    have sid: "so_id ?row = sv_operationId env (eq_operations db)" by (simp add: newOperation_def)
    have new: "\<forall>o'\<in>set (eq_operations db). so_id o' \<noteq> so_id ?row" and f: "recordFresh env now op operationId pre heldIds ?row db = Inr (r, db')"
      using rest None by (auto simp: Let_def sid list_ex_iff split: if_splits)
    from f obtain applied db1 where a: "applyMutations env now op pre (db\<lparr>eq_operations := eq_operations db @ [?row]\<rparr>) = Inr (applied, db1)"
      by (auto simp: recordFresh_def)
    show thesis
    proof (cases "notANewFact op applied")
      case True
      then show thesis using f a by (intro conflict[OF None new a]) (auto simp: recordFresh_def)
    next
      case False
      then show thesis using f a sid
        by (auto simp: recordFresh_def emptyResult_def intro!: fresh[OF None _ new a])
    qed
  qed
qed

section \<open>What survives a recording\<close>

text \<open>The payments and orders of all orders but those of \<open>X\<close>.\<close>

definition keepsBut :: "string set \<Rightarrow> 'p SettlementDb \<Rightarrow> 'p SettlementDb \<Rightarrow> bool" where
  "keepsBut X db db' \<longleftrightarrow> (\<forall>p\<in>set (paymentsOf db). py_orderId p \<in> X \<or> (\<exists>q\<in>set (paymentsOf db'). samePayment False p q))
     \<and> (\<forall>i o1. orderOf db i = Some o1 \<longrightarrow> i \<in> X \<or> (\<exists>o2. orderOf db' i = Some o2 \<and> orderMoves o1 o2))"

lemma keeps_keepsBut: "keeps False db db' \<Longrightarrow> keepsBut X db db'"
  unfolding keeps_def keepsBut_def by (blast dest: paymentsGrow_member)

lemma keepsBut_trans [trans]:
  assumes a: "keepsBut X d1 d2" and b: "keepsBut X d2 d3"
  shows "keepsBut X d1 d3"
  unfolding keepsBut_def
proof (intro conjI ballI allI impI)
  fix p assume "p \<in> set (paymentsOf d1)"
  with a consider "py_orderId p \<in> X" | q where "q \<in> set (paymentsOf d2)" "samePayment False p q" by (auto simp: keepsBut_def)
  then show "py_orderId p \<in> X \<or> (\<exists>q\<in>set (paymentsOf d3). samePayment False p q)"
  proof cases
    case 2
    then have "py_orderId q = py_orderId p" by (simp add: samePayment_def)
    with b 2(1) have "py_orderId p \<in> X \<or> (\<exists>r\<in>set (paymentsOf d3). samePayment False q r)" by (auto simp: keepsBut_def)
    then show ?thesis using samePayment_trans[OF 2(2)] by blast
  qed simp
next
  fix i o1 assume "orderOf d1 i = Some o1"
  with a consider "i \<in> X" | o2 where "orderOf d2 i = Some o2" "orderMoves o1 o2" unfolding keepsBut_def by blast
  then show "i \<in> X \<or> (\<exists>o3. orderOf d3 i = Some o3 \<and> orderMoves o1 o3)"
  proof cases
    case 2
    with b have "i \<in> X \<or> (\<exists>o3. orderOf d3 i = Some o3 \<and> orderMoves o2 o3)" unfolding keepsBut_def by blast
    then show ?thesis using orderMoves_trans[OF 2(2)] by blast
  qed simp
qed

lemma world_keepsBut: "eq_world db' = eq_world db \<Longrightarrow> keepsBut X db db'"
  by (rule keeps_keepsBut) (simp add: keeps_def paymentsOf_def orderOf_def ordersOf_def)

lemma find_filter_same: "(\<And>x. P x \<Longrightarrow> Q x) \<Longrightarrow> find P (filter Q xs) = find P xs"
  by (induction xs) auto

lemma purge_keepsBut:
  assumes "applyMutation env now op pre (n, OrderPurgeM i) (out, db) = Inr (out', db')" "i \<in> X"
  shows "keepsBut X db db'"
proof -
  have "cancelPurged now i db = db\<lparr>eq_effects := eq_effects (cancelPurged now i db)\<rparr>" by (simp add: cancelPurged_def updateEffects_def)
  then have w: "eq_world (cancelPurged now i db) = eq_world db" by (metis EffectDb.select_convs(7) EffectDb.surjective EffectDb.update_convs(1))
  have pays: "paymentsOf db' = filter (\<lambda>p. py_orderId p \<noteq> i) (paymentsOf db)"
    using assms by (auto simp: paymentsOf_def deleteOrder_def w)
  have "orderOf db' j = map_option (\<lambda>o'. o'\<lparr>co_settled := hasSettled (paymentsOf db') (co_id o')\<rparr>) (orderOf db j)" if "j \<noteq> i" for j
    using assms that unfolding pays
    by (auto simp: orderOf_def ordersOf_def deleteOrder_def w find_map_same find_filter_same paymentsOf_def)
  then have "\<exists>o2. orderOf db' j = Some o2 \<and> orderMoves o1 o2" if "orderOf db j = Some o1" "j \<notin> X" for j o1
    using that assms(2) by (cases "j = i") (auto simp: orderMoves_def)
  moreover have "\<exists>q\<in>set (paymentsOf db'). samePayment False p q" if "p \<in> set (paymentsOf db)" "py_orderId p \<notin> X" for p
    using that assms(2) by (intro bexI[of _ p]) (auto simp: pays)
  ultimately show ?thesis unfolding keepsBut_def by blast
qed

lemma mutation_keepsBut:
  assumes m: "applyMutation env now op pre (n, m) (out, db) = Inr (out', db')" and X: "\<And>i. m = OrderPurgeM i \<Longrightarrow> i \<in> X"
  shows "keepsBut X db db'"
proof (cases "purgedOrder m")
  case None
  then show ?thesis using applyMutation_keeps[OF m None, of False] by (simp add: keeps_keepsBut)
next
  case (Some i)
  then have "m = OrderPurgeM i" by (cases m) auto
  then show ?thesis using purge_keepsBut[of env now op pre n i out db out' db'] m X by simp
qed

definition purgedBy :: "SettlementOperation \<Rightarrow> string set" where
  "purgedBy op = {i. OrderPurgeM i \<in> set (sp_mutations op)}"

lemma foldE_keepsBut:
  assumes "foldE (applyMutation env now op pre) ms (out, db) = Inr (out', db')" "\<And>n i. (n, OrderPurgeM i) \<in> set ms \<Longrightarrow> i \<in> X"
  shows "keepsBut X db db'"
  using assms
proof (induction ms arbitrary: out db)
  case (Cons nm ms)
  obtain n m where nm: "nm = (n, m)" by (cases nm)
  from Cons.prems obtain out1 db1 where 1: "applyMutation env now op pre (n, m) (out, db) = Inr (out1, db1)"
    and 2: "foldE (applyMutation env now op pre) ms (out1, db1) = Inr (out', db')" by (auto simp: nm)
  have "keepsBut X db db1" by (rule mutation_keepsBut[OF 1]) (auto simp: nm intro: Cons.prems(2))
  moreover have "keepsBut X db1 db'" by (rule Cons.IH[OF 2]) (auto intro: Cons.prems(2))
  ultimately show ?case by (rule keepsBut_trans)
qed (simp add: world_keepsBut)

lemma applyMutations_keepsBut: "applyMutations env now op pre db = Inr (out, db') \<Longrightarrow> keepsBut (purgedBy op) db db'"
  unfolding applyMutations_def purgedBy_def by (erule foldE_keepsBut) (metis mem_Collect_eq in_set_enumerate_eq nth_mem snd_conv fst_conv minus_nat.diff_0 add_0_right)

lemma markResolved_world [simp]: "eq_world (markResolved op i ids db) = eq_world db"
  by (simp add: markResolved_def updateEffects_def split: option.splits)

lemma linkOperation_simps [simp]: "eq_world (linkOperation op i a db) = eq_world db" "eq_effects (linkOperation op i a db) = eq_effects db"
  by (simp_all add: linkOperation_def)

lemma enqueueEffects_world: "enqueueEffects env now k oi reqs db = Inr (rows, db') \<Longrightarrow> eq_world db' = eq_world db"
  using enqueueEffects_ok[of env now k oi reqs db rows db'] by (simp add: appended_def)

lemma replayAudit_simps [simp]:
  "eq_world (replayAudit op e db) = eq_world db" "eq_effects (replayAudit op e db) = eq_effects db" "eq_operations (replayAudit op e db) = eq_operations db"
  by (auto simp: replayAudit_def split: option.splits)

lemma recordOnce_keepsBut:
  assumes "recordOnce env now op authorized operationId pre db = Inr (r, db')"
  shows "keepsBut (purgedBy op) db db'"
  using assms
proof (cases rule: recordOnce_cases)
  case (replay existing)
  then show ?thesis by (simp add: world_keepsBut)
next
  case (conflict row applied db1)
  have "keepsBut (purgedBy op) db db1"
    by (rule keepsBut_trans[OF _ applyMutations_keepsBut[OF conflict(3)]]) (simp add: world_keepsBut)
  then show ?thesis by (rule keepsBut_trans) (simp add: conflict world_keepsBut)
next
  case (fresh heldIds row applied db1 reconciliation ids db2 created)
  have "keepsBut (purgedBy op) db db1"
    by (rule keepsBut_trans[OF _ applyMutations_keepsBut[OF fresh(4)]]) (simp add: world_keepsBut)
  also have "keepsBut (purgedBy op) db1 (markResolved op (so_id row) heldIds (linkOperation op (so_id row) applied db1))"
    by (simp add: world_keepsBut)
  also have "keepsBut (purgedBy op) \<dots> db2" by (intro keeps_keepsBut sameMoney_keeps settleCredit_same[OF fresh(5)])
  also have "keepsBut (purgedBy op) db2 db'" by (simp add: world_keepsBut enqueueEffects_world[OF fresh(6)])
  finally show ?thesis .
qed

lemma quarantine_cases:
  assumes "quarantine op0 allowed db = Inr (op, authorized)"
  obtains (free) "op = op0" "authorized = allowed" "filter (orderQuarantined db) (touchedOrders op0 db) = []"
  | (held) "op = op0\<lparr>sp_disposition := Some ''imported_financial_reconciliation_required'', sp_mutations := filter (\<lambda>m. \<not> isOrderPaid m) (sp_mutations op0), sp_effects := []\<rparr>"
      "authorized = []" "filter (orderQuarantined db) (touchedOrders op0 db) \<noteq> []"
  using assms by (auto simp: quarantine_def Let_def split: if_splits)

lemma quarantine_same:
  assumes "quarantine op0 allowed db = Inr (op, authorized)"
  shows "sp_kind op = sp_kind op0" "sp_operationId op = sp_operationId op0" "sp_orderId op = sp_orderId op0" "sp_classification op = sp_classification op0"
    "sp_resolution op = sp_resolution op0" "sp_effectMode op = sp_effectMode op0" "purgedBy op = purgedBy op0"
    "set (sp_mutations op) \<subseteq> set (sp_mutations op0)" "set (sp_effects op) \<subseteq> set (sp_effects op0)"
  using assms by (cases rule: quarantine_cases; auto simp: purgedBy_def)+

lemma recordSettlement_keepsBut: "recordSettlement env now op0 db = Inr (r, db') \<Longrightarrow> keepsBut (purgedBy op0) db db'"
proof (erule recordSettlement_cases)
  fix allowed op authorized operationId pre db1
  assume q: "quarantine op0 allowed db = Inr (op, authorized)" and i: "resolveIdentity env now op db = Inr ((operationId, pre), db1)"
    and rest: "(if sp_kind op \<in> set MONOTONE_KINDS
      then bindE (applyMutations env now op pre db1) (\<lambda>(applied, db2). Inr (emptyResult\<lparr>sr_created := True, sr_paymentId := ao_paymentId applied\<rparr>, db2))
      else recordOnce env now op authorized operationId pre db1) = Inr (r, db')"
  have "keepsBut (purgedBy op0) db db1" using resolveIdentity_keeps[OF i, of False] by (blast intro: keeps_keepsBut)
  moreover have "keepsBut (purgedBy op0) db1 db'"
    using rest recordOnce_keepsBut[of env now op authorized operationId pre db1 r db'] applyMutations_keepsBut[of env now op pre db1]
    by (auto simp: quarantine_same(7)[OF q] split: if_splits)
  ultimately show ?thesis by (rule keepsBut_trans)
qed

section \<open>Policies\<close>

lemma policy_of:
  assumes "checkOperation env op = Inr allowed"
  obtains policy where "(sp_kind op, policy) \<in> set OPERATION_POLICY" "map_of OPERATION_POLICY (sp_kind op) = Some policy" "authorizedEffects op policy = Inr allowed"
    "\<forall>m\<in>set (sp_mutations op). mutationType m \<in> set (pol_mutations policy)"
    "\<forall>e\<in>set (sp_effects op). eq_kind e \<in> set (pol_effects policy) \<and> eq_kind e \<in> set allowed"
  using assms by (auto simp: checkOperation_def list_ex_iff split: option.splits dest: map_of_SomeD)

lemma policy_noPurge: "\<lbrakk>checkOperation env op = Inr allowed; sp_kind op \<noteq> ''order_purge''\<rbrakk> \<Longrightarrow> noPurge op"
proof (erule policy_of)
  fix policy
  assume p: "(sp_kind op, policy) \<in> set OPERATION_POLICY" and ms: "\<forall>m\<in>set (sp_mutations op). mutationType m \<in> set (pol_mutations policy)"
    and k: "sp_kind op \<noteq> ''order_purge''"
  have "OrderPurgeType \<notin> set (pol_mutations policy)" using p k by (auto simp: OPERATION_POLICY_def)
  then have "purgedOrder m = None" if "m \<in> set (sp_mutations op)" for m using ms that by (cases m) force+
  then show ?thesis by (simp add: noPurge_def list_all_iff)
qed

lemma policy_noIdentity: "\<lbrakk>checkOperation env op = Inr allowed; sp_kind op \<notin> set MONOTONE_KINDS\<rbrakk> \<Longrightarrow> list_all (\<lambda>m. \<not> isIdentity m) (sp_mutations op)"
proof (erule policy_of)
  fix policy
  assume p: "(sp_kind op, policy) \<in> set OPERATION_POLICY" and ms: "\<forall>m\<in>set (sp_mutations op). mutationType m \<in> set (pol_mutations policy)"
    and k: "sp_kind op \<notin> set MONOTONE_KINDS"
  have "PaymentGatewayIdentityType \<notin> set (pol_mutations policy)" using p k by (auto simp: OPERATION_POLICY_def MONOTONE_KINDS_def)
  then have "\<not> isIdentity m" if "m \<in> set (sp_mutations op)" for m using ms that by (cases m) force+
  then show ?thesis by (simp add: list_all_iff)
qed

section \<open>Recording a fact again\<close>

lemma paymentOrder_persists: "\<lbrakk>keeps s db db'; paymentOrderId db i = Some j\<rbrakk> \<Longrightarrow> paymentOrderId db' i = Some j"
  unfolding paymentOrderId_def keeps_def
  by (auto dest!: paymentsGrow_find[where P = "\<lambda>p. py_id p = i"] simp: samePayment_def)

lemma touched_persists: "keeps s db db' \<Longrightarrow> set (touchedOrders op db) \<subseteq> set (touchedOrders op db')"
proof -
  assume k: "keeps s db db'"
  have "set (mutationOrders db m) \<subseteq> set (mutationOrders db' m)" for m
    by (cases m) (auto split: option.split dest!: paymentOrder_persists[OF k] dest: sym[of "Some _"])
  then have "set (concat (map (mutationOrders db) (sp_mutations op))) \<subseteq> set (concat (map (mutationOrders db') (sp_mutations op)))" by fastforce
  then show ?thesis unfolding touchedOrders_def set_append by blast
qed

lemma quarantined_persists: "\<lbrakk>keeps s db db'; orderQuarantined db i\<rbrakk> \<Longrightarrow> orderQuarantined db' i"
proof -
  assume k: "keeps s db db'" and q: "orderQuarantined db i"
  then obtain o1 where o1: "orderOf db i = Some o1" by (cases "orderOf db i") (auto simp: orderQuarantined_def importedFinancialReconciliationRequired_def)
  then obtain o2 where "orderOf db' i = Some o2" "orderMoves o1 o2" using k by (auto simp: keeps_def)
  then show ?thesis using q o1 by (simp add: orderQuarantined_def orderMoves_def)
qed

text \<open>The second look at a fact sees every mutation it would make as made.\<close>

definition made :: "'p SettlementDb \<Rightarrow> SettlementMutation \<Rightarrow> bool" where
  "made db m \<longleftrightarrow> (case m of
     OrderPaidM i _ _ \<Rightarrow> (\<exists>o'. orderOf db i = Some o' \<and> co_state o' = Paid)
   | OrderInsertM (r # _) \<Rightarrow> (case oi_id r of Some i \<Rightarrow> orderOf db i \<noteq> None | None \<Rightarrow> True)
   | _ \<Rightarrow> True)"

lemma paid_final: "orderMoves o1 o2 \<Longrightarrow> co_state o1 = Paid \<Longrightarrow> co_state o2 = Paid"
  by (auto simp: orderMoves_def)

lemma made_persists: "\<lbrakk>keeps s db db'; made db m\<rbrakk> \<Longrightarrow> made db' m"
  unfolding keeps_def made_def by (auto split: SettlementMutation.splits list.splits option.splits dest: paid_final) (metis paid_final)+

lemma made_accepted: "made db m \<Longrightarrow> \<not> replayRefused db m"
  by (cases "(db, m)" rule: replayRefused.cases) (auto simp: made_def canTransition_def split: option.splits list.splits)

lemma applyMutation_made:
  assumes "applyMutation env now op pre (n, m) (out, db) = Inr (out', db')"
  shows "made db' m"
proof (cases m)
  case (OrderPaidM i paidAt upd)
  then obtain cur where cur: "orderOf db i = Some cur" and db': "db' = onWorld (paidOrder i paidAt (orElse upd now)) db"
    using assms by (auto split: option.splits if_splits)
  have "co_id cur = i" using cur by (auto simp: orderOf_def find_Some_iff)
  then show ?thesis by (simp add: made_def OrderPaidM db' orderOf_paid cur)
next
  case (OrderInsertM rows)
  then obtain r rest where rows: "rows = r # rest" using assms by (cases rows) auto
  have "orderOf db' i \<noteq> None" if i: "oi_id r = Some i" for i
  proof -
    let ?f = "\<lambda>t. (setOrders (cd_orders (rs_credit (st_holds t)) @ [(oi_order r)\<lparr>co_id := i, co_settled := hasSettled (st_payments t) i\<rparr>]) t)
        \<lparr>st_orderColumns := st_orderColumns t @ [(oi_columns r)\<lparr>oc_id := i\<rparr>]\<rparr>"
    have "insertOrders env rest (onWorld ?f db) = Inr db'" using assms i by (auto simp: OrderInsertM rows orElse_def Let_def split: if_splits)
    then have "keeps False (onWorld ?f db) db'" using insertOrders_keeps by blast
    moreover have "orderOf (onWorld ?f db) i \<noteq> None" by (simp add: orderOf_def ordersOf_def find_append split: option.splits)
    ultimately show ?thesis by (auto simp: keeps_def)
  qed
  then show ?thesis by (simp add: made_def OrderInsertM rows split: option.splits)
qed (simp_all add: made_def)

lemma foldE_made:
  assumes "foldE (applyMutation env now op pre) ms (out, db) = Inr (out', db')" "\<forall>(n, m)\<in>set ms. purgedOrder m = None"
  shows "\<forall>(n, m)\<in>set ms. made db' m"
  using assms
proof (induction ms arbitrary: out db)
  case (Cons nm ms)
  obtain n m where nm: "nm = (n, m)" by (cases nm)
  from Cons.prems obtain out1 db1 where 1: "applyMutation env now op pre (n, m) (out, db) = Inr (out1, db1)"
    and 2: "foldE (applyMutation env now op pre) ms (out1, db1) = Inr (out', db')" by (auto simp: nm)
  have "keeps False db1 db'" using foldE_keeps[OF 2, of False] Cons.prems(2) by auto
  then have "made db' m" using applyMutation_made[OF 1] by (rule made_persists)
  then show ?case using Cons.IH[OF 2] Cons.prems(2) by (simp add: nm)
qed simp

lemma applyMutations_made: "\<lbrakk>applyMutations env now op pre db = Inr (out, db'); noPurge op\<rbrakk> \<Longrightarrow> list_all (made db') (sp_mutations op)"
proof -
  assume a: "applyMutations env now op pre db = Inr (out, db')" and n: "noPurge op"
  have "\<forall>(n, m)\<in>set (enumerate 0 (sp_mutations op)). made db' m"
    using a n unfolding applyMutations_def noPurge_def by (intro foldE_made) (auto dest: enumerated)
  then show ?thesis by (auto simp: list_all_length in_set_enumerate_eq)
qed

text \<open>The row a provider reference leads to, and a store in which a reference of a gateway has one account.\<close>

definition refClean :: "SettlementOperation \<Rightarrow> 'p SettlementDb \<Rightarrow> bool" where
  "refClean op db \<longleftrightarrow> (case refInsertOf op of None \<Rightarrow> True
     | Some (_, row) \<Rightarrow> pi_method row = ''stripe'' \<or> list_all (\<lambda>p. py_method p = pi_method row \<and> py_providerRef p = pi_providerRef row
          \<longrightarrow> orElse (py_gatewayAccount p) [] = orElse (pi_gatewayAccount row) [] \<and> orElse (py_gatewayMode p) [] = orElse (pi_gatewayMode row) []) (paymentsOf db))"

definition sameFact :: "PaymentInsert \<Rightarrow> Payment \<Rightarrow> bool" where
  "sameFact row p \<longleftrightarrow> py_method p = pi_method row \<and> py_providerRef p = pi_providerRef row \<and> pi_providerRef row \<noteq> None
     \<and> (pi_method row = ''stripe'' \<or> orElse (py_gatewayAccount p) [] = orElse (pi_gatewayAccount row) [] \<and> orElse (py_gatewayMode p) [] = orElse (pi_gatewayMode row) [])"

lemma sameFact_conflict: "sameFact row p \<Longrightarrow> paymentConflict (newPayment now i row) p"
  by (auto simp: sameFact_def paymentConflict_def newPayment_def)

lemma sameFact_persists: "\<lbrakk>samePayment True p q; sameFact row p\<rbrakk> \<Longrightarrow> sameFact row q"
  by (simp add: sameFact_def samePayment_def)

lemma refRow_ref: "refRow m = Some row \<Longrightarrow> pi_providerRef row \<noteq> None"
  by (cases m rule: refRow.cases) (auto split: option.splits list.splits)

lemma firstRef_ref: "firstRef k ms = Some (n, row) \<Longrightarrow> pi_providerRef row \<noteq> None"
  by (induction ms arbitrary: k) (auto split: option.splits dest: refRow_ref)

lemma refInsertOf_ref: "refInsertOf op = Some (n, row) \<Longrightarrow> pi_providerRef row \<noteq> None"
  by (auto simp: refInsertOf_def split: if_splits dest: firstRef_ref)

lemma paymentByRef_Some:
  "pi_providerRef row \<noteq> None \<Longrightarrow> paymentByRef db (pi_method row) (pi_providerRef row) = find (\<lambda>p. py_method p = pi_method row \<and> py_providerRef p = pi_providerRef row) (paymentsOf db)"
  by (auto simp: paymentByRef_def split: option.splits)

lemma refClean_fact:
  assumes "refClean op db" "refInsertOf op = Some (n, row)" "p \<in> set (paymentsOf db)" "py_method p = pi_method row" "py_providerRef p = pi_providerRef row"
  shows "sameFact row p"
  using assms refInsertOf_ref[OF assms(2)] by (auto simp: refClean_def sameFact_def list_all_iff)

lemma resolve_first:
  assumes r: "resolveIdentity env now op db = Inr ((operationId, pre), db1)" and i: "refInsertOf op = Some (n, row)" and clean: "refClean op db"
  obtains p where "paymentByRef db1 (pi_method row) (pi_providerRef row) = Some p" "sameFact row p"
    "operationId = (if sp_kind op = ''payment_settled'' then py_id p else sp_operationId op)"
proof -
  let ?p = "newPayment now (sv_paymentId env (paymentsOf db)) row"
  let ?P = "\<lambda>p. py_method p = pi_method row \<and> py_providerRef p = pi_providerRef row"
  note ref = refInsertOf_ref[OF i]
  show thesis
  proof (cases "list_ex (paymentConflict ?p) (paymentsOf db)")
    case True
    then have "insertPayments env now [row] db = Inr ([], db)" by (simp add: Let_def)
    with r i obtain ex where ex: "paymentByRef db (pi_method row) (pi_providerRef row) = Some ex" "db1 = db"
      "operationId = (if sp_kind op = ''payment_settled'' then py_id ex else sp_operationId op)"
      by (auto simp: resolveIdentity_def simp del: insertPayments.simps split: option.splits)
    then have "ex \<in> set (paymentsOf db)" "?P ex" by (auto simp: paymentByRef_Some[OF ref] find_Some_iff)
    then have "sameFact row ex" using refClean_fact[OF clean i] by blast
    with ex show thesis by (intro that) auto
  next
    case False
    then have none: "find ?P (paymentsOf db) = None"
      using refClean_fact[OF clean i] sameFact_conflict by (fastforce simp: find_None_iff list_ex_iff)
    from False r i have "orderOf db (py_orderId ?p) \<noteq> None"
      by (auto simp: resolveIdentity_def Let_def split: if_splits)
    with False r i have db1: "db1 = onWorld (withPayments (paymentsOf db @ [?p])) db"
      and op: "operationId = (if sp_kind op = ''payment_settled'' then py_id ?p else sp_operationId op)"
      by (auto simp: resolveIdentity_def Let_def)
    have "paymentByRef db1 (pi_method row) (pi_providerRef row) = Some ?p"
      by (simp add: paymentByRef_Some[OF ref] db1 find_append none) (simp add: newPayment_def)
    moreover have "sameFact row ?p" using ref by (simp add: sameFact_def newPayment_def)
    ultimately show thesis using op by (intro that)
  qed
qed

lemma resolve_again:
  assumes i: "refInsertOf op = Some (n, row)" and q: "paymentByRef db (pi_method row) (pi_providerRef row) = Some q" and same: "sameFact row q"
  shows "resolveIdentity env now op db = Inr ((if sp_kind op = ''payment_settled'' then py_id q else sp_operationId op, Some (n, py_id q)), db)"
proof -
  have "q \<in> set (paymentsOf db)" using q by (auto simp: paymentByRef_Some[OF refInsertOf_ref[OF i]] find_Some_iff)
  then have "list_ex (paymentConflict (newPayment now (sv_paymentId env (paymentsOf db)) row)) (paymentsOf db)"
    using sameFact_conflict[OF same] by (auto simp: list_ex_iff)
  then show ?thesis by (simp add: resolveIdentity_def i q Let_def)
qed

text \<open>Leaving out the order's transition does not change the reference.\<close>

lemma firstRef_filter: "map_option snd (firstRef k (filter (\<lambda>m. \<not> isOrderPaid m) ms)) = map_option snd (firstRef j ms)"
proof (induction ms arbitrary: k j)
  case (Cons m ms)
  then show ?case by (cases "isOrderPaid m"; cases m) (auto split: option.split)
qed simp

lemma quarantine_ref:
  assumes "quarantine op0 allowed db = Inr (op, authorized)"
  shows "map_option snd (refInsertOf op) = map_option snd (refInsertOf op0)"
  using assms by (cases rule: quarantine_cases) (auto simp: refInsertOf_def firstRef_filter)

lemma enqueueOne_row: "enqueueOne env now k oi req db = Inr (Some r, db') \<Longrightarrow> r \<in> set (eq_effects db') \<and> ef_operationKind r = k \<and> ef_operationId r = oi"
  by (auto simp: enqueueOne_def Let_def announceTerminal_def emitEvent_def newEffect_def split: if_splits)

lemma enqueueEffects_rows:
  "enqueueEffects env now k oi reqs db = Inr (rows, db') \<Longrightarrow> \<forall>r\<in>set rows. r \<in> set (eq_effects db') \<and> ef_operationKind r = k \<and> ef_operationId r = oi"
proof (induction reqs arbitrary: rows db)
  case (Cons req reqs)
  then obtain row db1 rows1 where 1: "enqueueOne env now k oi req db = Inr (row, db1)" and 2: "enqueueEffects env now k oi reqs db1 = Inr (rows1, db')"
    and rows: "rows = (case row of None \<Rightarrow> rows1 | Some r \<Rightarrow> r # rows1)" by auto
  have "set (eq_effects db1) \<subseteq> set (eq_effects db')" using enqueueEffects_ok[OF 2] by (auto simp: appended_def)
  then show ?case using Cons.IH[OF 2] enqueueOne_row[of env now k oi req db _ db1] 1 by (cases row) (auto simp: rows)
qed simp

lemma markResolved_operations [simp]: "eq_operations (markResolved op i ids db) = eq_operations db"
  by (simp add: markResolved_def updateEffects_def split: option.splits)

lemma storedOperation_None: "storedOperation db k i = None \<longleftrightarrow> (k, i) \<notin> set (map operationKey (eq_operations db))"
  by (force simp: storedOperation_def find_None_iff)

text \<open>The tables after a fact was recorded hold its operation, linked.\<close>

lemma recorded_operation:
  assumes none: "storedOperation db k i = None" and key: "operationKey row = (k, i)" and new: "\<forall>o'\<in>set (eq_operations db). so_id o' \<noteq> so_id row"
    and ops: "eq_operations db' = eq_operations (linkOperation op (so_id row) applied (db\<lparr>eq_operations := eq_operations db @ [row]\<rparr>))"
  obtains e where "storedOperation db' k i = Some e" "so_id e = so_id row" "so_classification e = so_classification row"
proof -
  define f where "f = (\<lambda>o' :: OperationRow. if so_id o' = so_id row then o'\<lparr>so_paymentId := ao_paymentId applied, so_orderId := (case ao_orderId applied of Some i \<Rightarrow> Some i | None \<Rightarrow> sp_orderId op),
    so_invoicePaymentId := ao_invoicePaymentId applied\<rparr> else o')"
  have "eq_operations db' = map f (eq_operations db @ [row])" using ops by (simp add: linkOperation_def f_def)
  moreover have "find (\<lambda>o'. operationKey o' = (k, i)) (map f (eq_operations db @ [row])) = map_option f (find (\<lambda>o'. operationKey o' = (k, i)) (eq_operations db @ [row]))"
    by (rule find_map_same) (simp add: f_def operationKey_def)
  ultimately have "storedOperation db' k i = Some (f row)" using none key by (simp add: storedOperation_def find_append)
  then show thesis by (rule that) (simp_all add: f_def)
qed

lemma checkResolution_again:
  assumes "checkResolution op authorized i db = Inr ids" and ops: "set (map operationKey (eq_operations db)) \<subseteq> set (map operationKey (eq_operations db'))"
    and stored: "sp_resolution op \<noteq> None \<Longrightarrow> storedOperation db' ''operator_resolution'' i \<noteq> None" and res: "sp_resolution op' = sp_resolution op"
  shows "\<exists>ids'. checkResolution op' authorized' i db' = Inr ids'"
  using assms by (auto simp: checkResolution_def storedOperation_None split: option.splits if_splits)

text \<open>What the first recording of a fact leaves for the next one.\<close>

lemma recorded_once:
  assumes rec: "recordSettlement env now op0 db = Inr (r, db')" and created: "sr_created r"
    and kind: "sp_kind op0 \<notin> set MONOTONE_KINDS" "sp_kind op0 \<noteq> ''order_purge''"
  obtains allowed op authorized operationId pre db1 e where "checkOperation env op0 = Inr allowed" "quarantine op0 allowed db = Inr (op, authorized)"
    "resolveIdentity env now op db = Inr ((operationId, pre), db1)" "keeps True db db'" "keeps True db1 db'" "list_all (made db') (sp_mutations op)"
    "storedOperation db' (sp_kind op0) operationId = Some e" "so_classification e = sp_classification op0" "sr_operationRowId r = Some (so_id e)"
    "\<exists>ids. checkResolution op authorized operationId db1 = Inr ids" "set (map operationKey (eq_operations db1)) \<subseteq> set (map operationKey (eq_operations db'))"
    "\<forall>i\<in>set (sr_effectIds r). \<exists>f\<in>set (eq_effects db'). ef_id f = i \<and> ef_operationKind f = sp_kind op0 \<and> ef_operationId f = operationId"
proof -
  obtain allowed op authorized operationId pre db1 where check: "checkOperation env op0 = Inr allowed" and q: "quarantine op0 allowed db = Inr (op, authorized)"
    and i: "resolveIdentity env now op db = Inr ((operationId, pre), db1)"
    and rest: "(if sp_kind op \<in> set MONOTONE_KINDS
      then bindE (applyMutations env now op pre db1) (\<lambda>(applied, db2). Inr (emptyResult\<lparr>sr_created := True, sr_paymentId := ao_paymentId applied\<rparr>, db2))
      else recordOnce env now op authorized operationId pre db1) = Inr (r, db')"
    using rec by (rule recordSettlement_cases)
  note same = quarantine_same[OF q]
  have once: "recordOnce env now op authorized operationId pre db1 = Inr (r, db')" using rest kind by (simp add: same)
  have res: "\<exists>ids. checkResolution op authorized operationId db1 = Inr ids" using once by (auto simp: recordOnce_def)
  have np: "noPurge op" using policy_noPurge[OF check kind(2)] same(8) by (auto simp: noPurge_def list_all_iff)
  have ni: "list_all (\<lambda>m. \<not> isIdentity m) (sp_mutations op)" using policy_noIdentity[OF check kind(1)] same(8) by (auto simp: list_all_iff)
  from once show thesis
  proof (cases rule: recordOnce_cases)
    case (fresh heldIds row applied db2 reconciliation ids db3 effects)
    let ?start = "db1\<lparr>eq_operations := eq_operations db1 @ [row]\<rparr>"
    let ?linked = "markResolved op (so_id row) heldIds (linkOperation op (so_id row) applied db2)"
    have a: "keeps True ?start db2" "sameQueue ?start db2" using applyMutations_keeps[OF fresh(4) np, of True] ni by auto
    have b: "sameMoney ?linked db3" by (rule settleCredit_same[OF fresh(5)])
    have c: "appended db3 db'" using enqueueEffects_ok[OF fresh(6)] by simp
    have "eq_world db' = eq_world db3" using c by (simp add: appended_def)
    then have later: "keeps s db2 db'" for s
      using sameMoney_keeps[OF b, of s] by (simp add: keeps_def paymentsOf_def orderOf_def ordersOf_def)
    have k1: "keeps True db1 db'" using keeps_trans[OF a(1) later] by (simp add: keeps_def paymentsOf_def orderOf_def ordersOf_def)
    have k: "keeps True db db'" using resolveIdentity_keeps[OF i, of True] k1 by (blast intro: keeps_trans)
    have m: "list_all (made db') (sp_mutations op)"
      using applyMutations_made[OF fresh(4) np] made_persists[OF later] by (auto simp: list_all_iff)
    have ops: "eq_operations db' = eq_operations (linkOperation op (so_id row) applied ?start)"
      using b c a(2) by (simp add: sameMoney_def appended_def sameQueue_def linkOperation_def)
    obtain e where e: "storedOperation db' (sp_kind op0) operationId = Some e" "so_id e = so_id row" "so_classification e = so_classification row"
      using recorded_operation[OF fresh(1) _ fresh(3) ops] fresh(2) same(1) by (metis newOperation_def OperationRow.select_convs(2,3) operationKey_def)
    have keys: "set (map operationKey (eq_operations db1)) \<subseteq> set (map operationKey (eq_operations db'))"
      using ops by (force simp: linkOperation_def operationKey_def)
    have cl: "so_classification row = sp_classification op0" using fresh(2) same(4) by (metis newOperation_def OperationRow.select_convs(4))
    have eff: "\<forall>i\<in>set (sr_effectIds r). \<exists>f\<in>set (eq_effects db'). ef_id f = i \<and> ef_operationKind f = sp_kind op0 \<and> ef_operationId f = operationId"
      using enqueueEffects_rows[OF fresh(6)] fresh(10) same(1) by auto
    show thesis using e cl fresh(9) by (intro that[OF check q i k k1 m e(1) _ _ res keys eff]) simp_all
  qed (use created in \<open>simp_all add: emptyResult_def\<close>)
qed

lemma refClean_cong: "map_option snd (refInsertOf a) = map_option snd (refInsertOf b) \<Longrightarrow> refClean a db = refClean b db"
  by (auto simp: refClean_def split: option.splits)

lemma quarantine_total: "noPurge op \<Longrightarrow> \<exists>op' authorized. quarantine op allowed db = Inr (op', authorized)"
  by (fastforce simp: quarantine_def Let_def noPurge_def list_all_iff list_ex_iff)

lemma quarantine_again:
  assumes q1: "quarantine op0 allowed db = Inr (op1, a1)" and q2: "quarantine op0 allowed' db' = Inr (op2, a2)" and k: "keeps s db db'"
  shows "set (sp_mutations op2) \<subseteq> set (sp_mutations op1)"
  using q1
proof (cases rule: quarantine_cases)
  case free
  then show ?thesis using quarantine_same(8)[OF q2] by simp
next
  case held
  then obtain i where "i \<in> set (touchedOrders op0 db)" "orderQuarantined db i" by (auto simp: filter_empty_conv)
  then have "filter (orderQuarantined db') (touchedOrders op0 db') \<noteq> []"
    using touched_persists[OF k, of op0] quarantined_persists[OF k] by (auto simp: filter_empty_conv)
  with q2 show ?thesis by (cases rule: quarantine_cases) (simp_all add: held(1))
qed

lemma resolves_same:
  assumes q1: "quarantine op0 allowed db = Inr (op1, a1)" and q2: "quarantine op0 allowed' db' = Inr (op2, a2)" and clean: "refClean op0 db"
    and r: "resolveIdentity env now op1 db = Inr ((operationId, pre), db1)" and k: "keeps True db1 db'"
  shows "\<exists>pre'. resolveIdentity env later op2 db' = Inr ((operationId, pre'), db')"
proof (cases "refInsertOf op1")
  case None
  then have "refInsertOf op2 = None" using quarantine_ref[OF q1] quarantine_ref[OF q2] by auto
  then show ?thesis using r None by (simp add: resolveIdentity_def quarantine_same(2)[OF q1] quarantine_same(2)[OF q2])
next
  case (Some nr)
  obtain n row where nr: "nr = (n, row)" by (cases nr)
  have i1: "refInsertOf op1 = Some (n, row)" using Some nr by simp
  have "map_option snd (refInsertOf op2) = Some row" using i1 quarantine_ref[OF q1] quarantine_ref[OF q2] by simp
  then obtain n2 where i2: "refInsertOf op2 = Some (n2, row)" by auto
  note ref = paymentByRef_Some[OF refInsertOf_ref[OF i1]]
  have c1: "refClean op1 db" using clean by (simp add: refClean_cong[OF quarantine_ref[OF q1]])
  obtain p where p: "paymentByRef db1 (pi_method row) (pi_providerRef row) = Some p" "sameFact row p"
    "operationId = (if sp_kind op1 = ''payment_settled'' then py_id p else sp_operationId op1)"
    by (rule resolve_first[OF r i1 c1])
  have "\<exists>q. paymentByRef db' (pi_method row) (pi_providerRef row) = Some q \<and> samePayment True p q"
    using k p(1) unfolding ref keeps_def by (intro paymentsGrow_find) (auto simp: samePayment_def)
  then obtain q where q: "paymentByRef db' (pi_method row) (pi_providerRef row) = Some q" "samePayment True p q" by blast
  have "py_id q = py_id p" using q(2) by (simp add: samePayment_def)
  then show ?thesis
    using resolve_again[OF i2 q(1) sameFact_persists[OF q(2) p(2)], of env later] p(3) quarantine_same(1,2)[OF q1] quarantine_same(1,2)[OF q2]
    by auto
qed

lemma resolution_kind: "checkOperation env op = Inr allowed \<Longrightarrow> sp_resolution op \<noteq> None \<longleftrightarrow> sp_kind op = ''operator_resolution''"
  by (erule policy_of) (auto simp: authorizedEffects_def split: if_splits option.splits)

end
