(* ===== verification/SettlementRuns.thy ===== *)
theory SettlementRuns
  imports SettlementLaws
begin

text \<open>
  Settlement and the effects engine together: recordings, inline executions and the transactions of the worker in any
  order. Over every such run the operations are unique facts and an effect exists only where the policy of its operation,
  and for invoices the frozen classification, entitles to it. A settlement that pays an order consumes its holds.
\<close>

section \<open>What the engine leaves alone\<close>

text \<open>Identities of effects are old ones or review tasks; of an operation only its licence changes.\<close>

definition operationCore :: "OperationRow \<Rightarrow> OperationRow" where
  "operationCore o' = o'\<lparr>so_licenseId := None\<rparr>"

definition stays :: "'w EffectDb \<Rightarrow> 'w EffectDb \<Rightarrow> bool" where
  "stays db db' \<longleftrightarrow> (\<forall>r\<in>set (eq_effects db'). isReview r \<or> identity r \<in> identity ` set (eq_effects db))
     \<and> map operationCore (eq_operations db') = map operationCore (eq_operations db)"

lemma stays_refl [simp]: "stays db db"
  by (simp add: stays_def)

lemma isReview_identity: "identity r = identity r' \<Longrightarrow> isReview r = isReview r'"
  by (simp add: identity_def isReview_def)

lemma stays_trans [trans]:
  assumes "stays d1 d2" "stays d2 d3"
  shows "stays d1 d3"
proof -
  have "isReview r \<or> identity r \<in> identity ` set (eq_effects d1)" if r: "r \<in> set (eq_effects d3)" for r
  proof -
    from assms(2) r consider "isReview r" | q where "q \<in> set (eq_effects d2)" "identity r = identity q" by (auto simp: stays_def)
    then show ?thesis
    proof cases
      case 2
      then show ?thesis using assms(1) isReview_identity[OF 2(2)] by (auto simp: stays_def)
    qed simp
  qed
  then show ?thesis using assms by (simp add: stays_def)
qed

lemma stays_tables: "\<lbrakk>eq_effects db' = eq_effects db; eq_operations db' = eq_operations db\<rbrakk> \<Longrightarrow> stays db db'"
  by (simp add: stays_def)

lemma stays_update: "(\<And>r. identity (f r) = identity r) \<Longrightarrow> stays db (snd (updateEffects P f db))"
  by (auto simp: stays_def)

lemma stays_core: "\<lbrakk>map core (eq_effects db') = map core (eq_effects db); map operationCore (eq_operations db') = map operationCore (eq_operations db)\<rbrakk> \<Longrightarrow> stays db db'"
proof -
  assume c: "map core (eq_effects db') = map core (eq_effects db)" and o': "map operationCore (eq_operations db') = map operationCore (eq_operations db)"
  have "map identity (eq_effects db') = map identity (eq_effects db)" using arg_cong[OF c, of "map identity"] by (simp add: comp_def)
  then have "identity ` set (eq_effects db') = identity ` set (eq_effects db)" by (metis set_map)
  then show ?thesis using o' by (auto simp: stays_def)
qed

lemma enqueue_reviews_stays:
  assumes "enqueueEffects env now k oi reqs db = Inr (rows, db')" "\<forall>q\<in>set reqs. eq_kind q = ''admin_review''"
  shows "stays db db'"
  using assms
proof (induction reqs arbitrary: rows db)
  case (Cons req reqs)
  then obtain row db1 rows1 where 1: "enqueueOne env now k oi req db = Inr (row, db1)" and 2: "enqueueEffects env now k oi reqs db1 = Inr (rows1, db')" by auto
  have "stays db db1" using 1
  proof (cases rule: enqueueOne_cases)
    case (created i)
    then show ?thesis using Cons.prems(2) by (auto simp: stays_def isReview_def newEffect_def Let_def)
  qed simp
  also have "stays db1 db'" using Cons.IH[OF 2] Cons.prems(2) by simp
  finally show ?case .
qed simp

lemma fencedUpdate_stays: "\<lbrakk>fencedUpdate row f db = Inr (u, db'); \<And>r. identity (f r) = identity r\<rbrakk> \<Longrightarrow> stays db db'"
proof -
  assume f: "fencedUpdate row f db = Inr (u, db')" and i: "\<And>r. identity (f r) = identity r"
  have "db' = snd (updateEffects (claimHolds row) f db)" using f by (auto simp: fencedUpdate_def updateEffects_def split: list.splits)
  then show ?thesis using stays_update[OF i] by simp
qed

lemma markTerminal_stays: "markTerminal env now row reason db = Inr db' \<Longrightarrow> stays db db'"
proof -
  assume t: "markTerminal env now row reason db = Inr db'"
  obtain u db1 where upd: "fencedUpdate row (\<lambda>r. r\<lparr>ef_status := EffectTerminal, ef_claimToken := None, ef_claimedAt := None, ef_lastError := Some reason, ef_firstFailedAt := Some (orElse (ef_firstFailedAt row) now), ef_updatedAt := now\<rparr>) db = Inr (u, db1)"
    and rest: "(if ef_effectKind row = ''admin_review'' then Inr (announceTerminal u db1) else bindE (enqueueEffects env now (ef_operationKind row) (ef_operationId row) [reviewRequest row reason] (announceTerminal u db1)) (\<lambda>(_, db3). Inr db3)) = Inr db'"
    using t by (auto simp: markTerminal_def Let_def)
  have "stays db db1" by (rule fencedUpdate_stays[OF upd]) (simp add: identity_def)
  also have "stays db1 (announceTerminal u db1)" by (rule stays_tables) simp_all
  also have "stays (announceTerminal u db1) db'"
  proof (cases "ef_effectKind row = ''admin_review''")
    case False
    then obtain rows where "enqueueEffects env now (ef_operationKind row) (ef_operationId row) [reviewRequest row reason] (announceTerminal u db1) = Inr (rows, db')"
      using rest by (auto simp del: enqueueEffects.simps)
    then show ?thesis by (rule enqueue_reviews_stays) (simp add: reviewRequest_def)
  qed (use rest in simp)
  finally show ?thesis .
qed

lemma markRetryOrTerminal_stays: "markRetryOrTerminal env now row retry db = Inr (res, db') \<Longrightarrow> stays db db'"
  by (auto simp: markRetryOrTerminal_def identity_def split: if_splits intro: markTerminal_stays fencedUpdate_stays)

lemma applyOutcome_stays: "applyOutcome env now row out db = Inr (res, db') \<Longrightarrow> stays db db'"
  by (cases out) (auto simp: markDone_def identity_def intro: markRetryOrTerminal_stays markTerminal_stays fencedUpdate_stays)

lemma handlerWrites_stays: "stays db (handlerWrites now e calls w db)"
proof (rule stays_core)
  have "map operationCore (eq_operations (fold (engineCall now e) calls d)) = map operationCore (eq_operations d)" for d :: "'a EffectDb"
  proof (induction calls arbitrary: d)
    case (Cons c calls)
    have "map operationCore (eq_operations (engineCall now e c d)) = map operationCore (eq_operations d)"
      by (cases c) (auto simp: resolveReviewTasksForEffect_def recordOperationLicense_def operationCore_def)
    then show ?case using Cons by simp
  qed simp
  from this[of "db\<lparr>eq_world := w\<rparr>"]
  show "map operationCore (eq_operations (handlerWrites now e calls w db)) = map operationCore (eq_operations db)" by (simp add: handlerWrites_def)
qed (rule handlerWrites_core)

lemma executeOne_stays: "executeOne env now token row db = Inr db' \<Longrightarrow> stays db db'"
proof -
  assume e: "executeOne env now token row db = Inr db'"
  let ?u = "updateEffects (\<lambda>r. ef_id r = ef_id row \<and> ef_status r = EffectPending) (claimWith now (token (ef_id row)) (ef_attempts row + 1)) db"
  have u: "stays db (snd ?u)" by (rule stays_update) (simp add: claimWith_def identity_def)
  have "stays db db2" if "applyOutcome env now c out (handlerWrites now c calls w (snd ?u)) = Inr (res, db2)" for c out calls w res db2
    by (rule stays_trans[OF u stays_trans[OF handlerWrites_stays applyOutcome_stays[OF that]]])
  then show ?thesis using e by (auto simp: executeOne_def split: option.splits EffectHandler.splits prod.splits list.splits)
qed

lemma executeEffectsNow_stays: "executeEffectsNow env now token ids db = Inr db' \<Longrightarrow> stays db db'"
  unfolding executeEffectsNow_def by (erule foldE_invariant[where P = "stays db"]) (auto dest: executeOne_stays intro: stays_trans)

lemma processLocal_stays: "processLocal env now run row db = Inr (res, db') \<Longrightarrow> stays db db'"
  by (auto simp: processLocal_def split: option.splits dest!: applyOutcome_stays intro: stays_trans[OF handlerWrites_stays])

lemma externalCommit_stays: "externalCommit env now followUp row ref db = Inr (res, db') \<Longrightarrow> stays db db'"
proof -
  assume e: "externalCommit env now followUp row ref db = Inr (res, db')"
  let ?db = "if map_of (eq_receipts db) (ef_id row) = None then db\<lparr>eq_receipts := eq_receipts db @ [(ef_id row, ref)]\<rparr> else db"
  have s: "stays db ?db" by (rule stays_tables) simp_all
  have "stays db db'" if "applyOutcome env now cur OutcomeVoid ?db = Inr (res, db')" for cur
    using s applyOutcome_stays[OF that] by (rule stays_trans)
  moreover have "stays db db'" if "applyOutcome env now cur OutcomeVoid (handlerWrites now cur calls w ?db) = Inr (res, db')" for cur calls w
    by (rule stays_trans[OF s stays_trans[OF handlerWrites_stays applyOutcome_stays[OF that]]])
  ultimately show ?thesis using e unfolding externalCommit_def Let_def
    by (cases "claimedRow row db"; cases followUp) (auto simp del: applyOutcome.simps)
qed

lemma failClaimed_stays: "failClaimed env now row reason db = Inr (res, db') \<Longrightarrow> stays db db'"
  by (auto simp: failClaimed_def split: sum.splits if_splits dest: markRetryOrTerminal_stays)

lemma requeue_stays: "requeueTerminalEffect now i db = (b, db') \<Longrightarrow> stays db db'"
  unfolding requeueTerminalEffect_def case_prod_beta prod.inject by (elim conjE, hypsubst, rule stays_update) (simp add: identity_def)

lemma approveLocked_stays: "approveLocked env now at' token i oid who db = Inr (res, db') \<Longrightarrow> stays db db'"
proof -
  assume a: "approveLocked env now at' token i oid who db = Inr (res, db')"
  have "stays db db4" if r: "requeueTerminalEffect now i ((recordEffectIssuanceApproval i j db)\<lparr>eq_audit := au\<rparr>) = (True, db3)"
    and x: "executeEffectsNow env now token [i] db3 = Inr db4" for j au db3 db4
  proof -
    have "stays db (recordEffectIssuanceApproval i j db)" unfolding recordEffectIssuanceApproval_def by (rule stays_update) (simp add: identity_def)
    also have "stays \<dots> ((recordEffectIssuanceApproval i j db)\<lparr>eq_audit := au\<rparr>)" by (rule stays_tables) simp_all
    also have "stays \<dots> db3" using r by (rule requeue_stays)
    also have "stays db3 db4" using x by (rule executeEffectsNow_stays)
    finally show ?thesis .
  qed
  then show ?thesis using a by (auto simp: approveLocked_def Let_def split: option.splits if_splits prod.splits bool.splits)
qed

text \<open>Every transaction of the engine but the two that stand for other modules.\<close>

fun ownOp :: "'w EffectOp \<Rightarrow> bool" where
  "ownOp (OpRecord _ _ _ _) = False"
| "ownOp (OpElsewhere _ _) = False"
| "ownOp _ = True"

lemma commit_stays: "(\<And>v db'. r = Inr (v, db') \<Longrightarrow> stays (en_db st) db') \<Longrightarrow> stays (en_db st) (en_db (commit st r))"
  by (auto simp: commit_def split: sum.splits)

lemma onClaim_stays: "(\<And>c v db'. f c = Inr (v, db') \<Longrightarrow> stays (en_db st) db') \<Longrightarrow> stays (en_db st) (en_db (onClaim st i f))"
  by (auto simp: onClaim_def intro: commit_stays)

lemma engineStep_stays:
  assumes "ownOp op"
  shows "stays (en_db st) (en_db (engineStep env op st))"
proof (cases op)
  case (OpExecute now token ids)
  then show ?thesis by (auto intro!: commit_stays dest: executeEffectsNow_stays)
next
  case (OpClaim now token limit locked)
  have "stays (en_db st) (snd (claimDueEffects now token limit locked (en_db st)))"
    unfolding claimDueEffects_def Let_def case_prod_beta snd_conv by (rule stays_update) (simp add: claimWith_def identity_def)
  then show ?thesis by (simp add: OpClaim case_prod_beta)
next
  case (OpLocal now i)
  then show ?thesis by (auto intro!: onClaim_stays simp: localOf_def split: option.splits EffectHandler.splits dest: processLocal_stays)
next
  case (OpCommit now i ref)
  then show ?thesis by (auto intro!: onClaim_stays simp: externalOf_def split: option.splits EffectHandler.splits dest: externalCommit_stays)
next
  case (OpFail now i reason)
  then show ?thesis by (auto intro!: onClaim_stays dest: failClaimed_stays)
next
  case (OpRequeue now i)
  then show ?thesis by (auto intro!: commit_stays dest: requeue_stays)
next
  case (OpApprove now at' token i oid who)
  then show ?thesis by (auto intro!: commit_stays dest: approveLocked_stays)
qed (use assms in simp_all)

section \<open>Effects are the ones an operation entitles to\<close>

definition entitled :: "OperationRow \<Rightarrow> string list" where
  "entitled o' = (case map_of OPERATION_POLICY (so_operationKind o') of
     None \<Rightarrow> []
   | Some policy \<Rightarrow>
       if so_operationKind o' = ''stripe_invoice_paid'' \<or> so_operationKind o' = ''operator_resolution''
       then (case so_classification o' of None \<Rightarrow> []
             | Some c \<Rightarrow> filter (\<lambda>k. k \<in> set (pol_effects policy) \<and> k \<in> set (so_authorizedEffects o')) (INVOICE_AUTHORIZED_EFFECTS c))
       else pol_effects policy)"

definition entitledBy :: "OperationRow list \<Rightarrow> EffectRow \<Rightarrow> bool" where
  "entitledBy ops r \<longleftrightarrow> list_ex (\<lambda>o'. operationKey o' = (ef_operationKind r, ef_operationId r) \<and> ef_effectKind r \<in> set (entitled o')) ops"

definition authorizedOk :: "'w EffectDb \<Rightarrow> bool" where
  "authorizedOk db \<longleftrightarrow> distinct (map operationKey (eq_operations db)) \<and> (\<forall>r\<in>set (eq_effects db). isReview r \<or> entitledBy (eq_operations db) r)"

lemma operationCore_simps [simp]: "operationKey (operationCore o') = operationKey o'" "entitled (operationCore o') = entitled o'"
  by (simp_all add: operationCore_def operationKey_def entitled_def split: option.split)

lemma entitledBy_core: "entitledBy (map operationCore ops) r = entitledBy ops r"
  by (simp add: entitledBy_def list_ex_iff)

lemma entitledBy_identity: "identity r = identity r' \<Longrightarrow> entitledBy ops r = entitledBy ops r'"
  by (simp add: entitledBy_def identity_def)

lemma stays_authorized: "\<lbrakk>stays db db'; authorizedOk db\<rbrakk> \<Longrightarrow> authorizedOk db'"
proof -
  assume s: "stays db db'" and a: "authorizedOk db"
  have ops: "map operationCore (eq_operations db') = map operationCore (eq_operations db)" using s by (simp add: stays_def)
  have "map operationKey (eq_operations db') = map operationKey (eq_operations db)" using arg_cong[OF ops, of "map operationKey"] by (simp add: comp_def)
  moreover have "entitledBy (eq_operations db') r = entitledBy (eq_operations db) r" for r using ops by (metis entitledBy_core)
  moreover have "isReview r \<or> entitledBy (eq_operations db) r" if r: "r \<in> set (eq_effects db')" for r
  proof -
    from s r consider "isReview r" | q where "q \<in> set (eq_effects db)" "identity r = identity q" by (auto simp: stays_def)
    then show ?thesis
    proof cases
      case 2
      then show ?thesis using a entitledBy_identity[OF 2(2)] isReview_identity[OF 2(2)] by (auto simp: authorizedOk_def)
    qed simp
  qed
  ultimately show ?thesis using a by (simp add: authorizedOk_def)
qed

lemma authorized_tables: "\<lbrakk>eq_effects db' = eq_effects db; eq_operations db' = eq_operations db\<rbrakk> \<Longrightarrow> authorizedOk db' = authorizedOk db"
  by (simp add: authorizedOk_def)

lemma entitledBy_mono: "\<lbrakk>entitledBy ops r; set ops \<subseteq> set ops'\<rbrakk> \<Longrightarrow> entitledBy ops' r"
  by (auto simp: entitledBy_def list_ex_iff)

text \<open>Recording the effects of an operation that is stored and entitles to them.\<close>

lemma enqueue_authorized:
  assumes "enqueueEffects env now k oi reqs db = Inr (rows, db')" "authorizedOk db" "e \<in> set (eq_operations db)" "operationKey e = (k, oi)"
    "\<forall>q\<in>set reqs. eq_kind q \<in> set (entitled e)"
  shows "authorizedOk db'"
  using assms
proof (induction reqs arbitrary: rows db)
  case (Cons req reqs)
  from Cons.prems(1) obtain row db1 rows1 where 1: "enqueueOne env now k oi req db = Inr (row, db1)" and 2: "enqueueEffects env now k oi reqs db1 = Inr (rows1, db')" by auto
  have "authorizedOk db1 \<and> eq_operations db1 = eq_operations db" using 1
  proof (cases rule: enqueueOne_cases)
    case (created i)
    have "entitledBy (eq_operations db) (newEffect env now i k oi req)"
      using Cons.prems(3-5) by (auto simp: entitledBy_def list_ex_iff newEffect_def Let_def)
    then show ?thesis using created Cons.prems(2) by (simp add: authorizedOk_def)
  qed (use Cons.prems in simp)
  then show ?case using Cons.IH[OF 2] Cons.prems(3-5) by simp
qed simp

lemma mutation_stays:
  assumes m: "applyMutation env now op pre (n, m) (out, db) = Inr (out', db')"
  shows "stays db db' \<and> eq_operations db' = eq_operations db"
proof (cases "purgedOrder m")
  case None
  then show ?thesis using applyMutation_keeps[OF m None, of False] by (simp add: sameQueue_def stays_tables)
next
  case (Some i)
  then have "m = OrderPurgeM i" by (cases m) auto
  then have db': "eq_effects db' = eq_effects (cancelPurged now i db)" "eq_operations db' = eq_operations (cancelPurged now i db)" using m by auto
  have "stays db (cancelPurged now i db)" unfolding cancelPurged_def by (rule stays_update) (simp add: identity_def)
  moreover have "eq_operations (cancelPurged now i db) = eq_operations db" by (simp add: cancelPurged_def)
  ultimately show ?thesis using db' by (simp add: stays_def)
qed

lemma applyMutations_stays: "applyMutations env now op pre db = Inr (out, db') \<Longrightarrow> stays db db' \<and> eq_operations db' = eq_operations db"
proof -
  assume a: "applyMutations env now op pre db = Inr (out, db')"
  have "case (out, db') of (_, d) \<Rightarrow> stays db d \<and> eq_operations d = eq_operations db"
    using a unfolding applyMutations_def
    by (rule foldE_invariant) (auto dest!: mutation_stays intro: stays_trans)
  then show ?thesis by simp
qed

lemma entitled_row:
  assumes check: "checkOperation env op0 = Inr allowed" and q: "quarantine op0 allowed db = Inr (op, authorized)" and e: "e \<in> set (sp_effects op)"
  shows "eq_kind e \<in> set (entitled (newOperation op authorized i operationId snapshot))"
  using q
proof (cases rule: quarantine_cases)
  case free
  from check show ?thesis
  proof (rule policy_of)
    fix policy
    assume p: "map_of OPERATION_POLICY (sp_kind op0) = Some policy" and a: "authorizedEffects op0 policy = Inr allowed"
      and eff: "\<forall>e\<in>set (sp_effects op0). eq_kind e \<in> set (pol_effects policy) \<and> eq_kind e \<in> set allowed"
    have k: "eq_kind e \<in> set (pol_effects policy)" "eq_kind e \<in> set allowed" using eff e free(1) by auto
    show ?thesis using a k by (auto simp: entitled_def newOperation_def free p authorizedEffects_def split: if_splits option.splits)
  qed
next
  case held
  then show ?thesis using e by simp
qed

lemma authorizedOk_cong:
  assumes "eq_effects db' = eq_effects db" "map (\<lambda>o'. (operationKey o', entitled o')) (eq_operations db') = map (\<lambda>o'. (operationKey o', entitled o')) (eq_operations db)"
  shows "authorizedOk db' = authorizedOk db"
proof -
  have "entitledBy ops r = list_ex (\<lambda>(k, ks). k = (ef_operationKind r, ef_operationId r) \<and> ef_effectKind r \<in> set ks) (map (\<lambda>o'. (operationKey o', entitled o')) ops)" for ops r
    by (simp add: entitledBy_def list_ex_iff)
  moreover have "map operationKey (eq_operations db') = map operationKey (eq_operations db)" using arg_cong[OF assms(2), of "map fst"] by (simp add: comp_def)
  ultimately show ?thesis using assms by (simp add: authorizedOk_def)
qed

lemma linked_simps [simp]:
  "operationKey (o'\<lparr>so_paymentId := a, so_orderId := b, so_invoicePaymentId := c\<rparr>) = operationKey o'"
  "entitled (o'\<lparr>so_paymentId := a, so_orderId := b, so_invoicePaymentId := c\<rparr>) = entitled o'"
  by (simp_all add: operationKey_def entitled_def split: option.split)

lemma link_authorized: "authorizedOk (linkOperation op i applied db) = authorizedOk db"
  by (rule authorizedOk_cong) (simp_all add: linkOperation_def)

lemma markResolved_stays: "stays db (markResolved op i ids db)"
  unfolding markResolved_def by (auto split: option.split intro!: stays_update simp: identity_def)

lemma recordOnce_authorized:
  assumes rec: "recordOnce env now op authorized operationId pre db = Inr (r, db')" and ok: "authorizedOk db"
    and eff: "\<And>e i snapshot. e \<in> set (sp_effects op) \<Longrightarrow> eq_kind e \<in> set (entitled (newOperation op authorized i operationId snapshot))"
  shows "authorizedOk db'"
  using rec
proof (cases rule: recordOnce_cases)
  case (replay existing)
  then have "stays db db'" by (intro stays_tables) simp_all
  then show ?thesis using ok by (rule stays_authorized)
next
  case (conflict row applied db1)
  have "stays db db'" using applyMutations_stays[OF conflict(3)] conflict(2) by (simp add: conflict(6) stays_def)
  then show ?thesis using ok by (rule stays_authorized)
next
  case (fresh heldIds row applied db1 reconciliation ids db2 created)
  let ?start = "db\<lparr>eq_operations := eq_operations db @ [row]\<rparr>"
  let ?linked = "linkOperation op (so_id row) applied db1"
  have key: "operationKey row = (sp_kind op, operationId)" using fresh(2) by (metis newOperation_def OperationRow.select_convs(2,3) operationKey_def)
  have "authorizedOk ?start"
    using ok fresh(1) key entitledBy_mono[of "eq_operations db" _ "eq_operations db @ [row]"] by (auto simp: authorizedOk_def storedOperation_None)
  then have "authorizedOk db1" using stays_authorized applyMutations_stays[OF fresh(4)] by blast
  then have "authorizedOk (markResolved op (so_id row) heldIds ?linked)"
    by (intro stays_authorized[OF markResolved_stays]) (simp add: link_authorized)
  moreover have "sameMoney (markResolved op (so_id row) heldIds ?linked) db2" by (rule settleCredit_same[OF fresh(5)])
  ultimately have ok2: "authorizedOk db2" unfolding sameMoney_def using authorized_tables by blast
  have "eq_operations db2 = eq_operations ?linked" using settleCredit_same[OF fresh(5)] by (simp add: sameMoney_def)
  moreover have "eq_operations db1 = eq_operations db @ [row]" using applyMutations_stays[OF fresh(4)] by simp
  ultimately have linked: "row\<lparr>so_paymentId := ao_paymentId applied, so_orderId := (case ao_orderId applied of Some i \<Rightarrow> Some i | None \<Rightarrow> sp_orderId op),
      so_invoicePaymentId := ao_invoicePaymentId applied\<rparr> \<in> set (eq_operations db2)" (is "?e \<in> _")
    by (simp add: linkOperation_def)
  have "eq_kind q \<in> set (entitled row)" if "q \<in> set (map (withReservations ids) (sp_effects op))" for q
  proof -
    from that obtain q0 where q0: "q0 \<in> set (sp_effects op)" "eq_kind q = eq_kind q0" by (auto simp: withReservations_def)
    then have "eq_kind q0 \<in> set (entitled (newOperation op authorized (so_id row) operationId (purgeSnapshot op db)))" using eff by blast
    then show ?thesis using q0(2) fresh(2) by argo
  qed
  then show ?thesis using key by (intro enqueue_authorized[OF fresh(6) ok2 linked]) simp_all
qed

lemma recordSettlement_authorized:
  assumes "recordSettlement env now op0 db = Inr (r, db')" "authorizedOk db"
  shows "authorizedOk db'"
  using assms(1)
proof (rule recordSettlement_cases)
  fix allowed op authorized operationId pre db1
  assume check: "checkOperation env op0 = Inr allowed" and q: "quarantine op0 allowed db = Inr (op, authorized)"
    and i: "resolveIdentity env now op db = Inr ((operationId, pre), db1)"
    and rest: "(if sp_kind op \<in> set MONOTONE_KINDS
      then bindE (applyMutations env now op pre db1) (\<lambda>(applied, db2). Inr (emptyResult\<lparr>sr_created := True, sr_paymentId := ao_paymentId applied\<rparr>, db2))
      else recordOnce env now op authorized operationId pre db1) = Inr (r, db')"
  have ok: "authorizedOk db1"
    using resolveIdentity_keeps[OF i, of False] assms(2) authorized_tables[of db1 db] by (simp add: sameQueue_def)
  show ?thesis
  proof (cases "sp_kind op \<in> set MONOTONE_KINDS")
    case True
    then obtain applied where "applyMutations env now op pre db1 = Inr (applied, db')" using rest by auto
    then have "stays db1 db'" using applyMutations_stays by blast
    then show ?thesis using ok by (rule stays_authorized)
  next
    case False
    then have "recordOnce env now op authorized operationId pre db1 = Inr (r, db')" using rest by simp
    then show ?thesis using ok entitled_row[OF check q] by (rule recordOnce_authorized)
  qed
qed

lemma recordSettlementOperation_authorized: "\<lbrakk>recordSettlementOperation env now op db = Inr (r, db'); authorizedOk db\<rbrakk> \<Longrightarrow> authorizedOk db'"
  by (auto simp: recordSettlementOperation_def split: if_splits dest: recordSettlement_authorized intro: stays_authorized[OF executeEffectsNow_stays])

section \<open>Runs\<close>

datatype 'p SettlementStep =
    Settle int SettlementOperation
  | Engine "'p SettlementTables EffectOp"
  | Elsewhere "'p SettlementTables \<Rightarrow> 'p SettlementTables"

text \<open>A recording commits or throws; the engine's own transactions; anything else changes only other tables.\<close>

fun settlementStep :: "('p, 'x) SettlementEnv \<Rightarrow> 'p SettlementStep \<Rightarrow> 'p SettlementTables EngineState \<Rightarrow> 'p SettlementTables EngineState" where
  "settlementStep env (Settle now op) st = commit st (recordSettlementOperation env now op (en_db st))"
| "settlementStep env (Engine eop) st = (if ownOp eop then engineStep (sv_engine env) eop st else st)"
| "settlementStep env (Elsewhere g) st = st\<lparr>en_db := onWorld g (en_db st)\<rparr>"

interpretation settlement: machine "settlementStep env" "\<lambda>st. authorizedOk (en_db st)" for env
proof
  fix st :: "'a SettlementTables EngineState" and l assume ok: "authorizedOk (en_db st)"
  show "authorizedOk (en_db (settlementStep env l st))"
  proof (cases l)
    case (Settle now op)
    then show ?thesis using ok by (auto simp: commit_def split: sum.splits dest: recordSettlementOperation_authorized)
  next
    case (Engine eop)
    then show ?thesis using ok by (simp add: stays_authorized[OF engineStep_stays])
  next
    case (Elsewhere g)
    then show ?thesis using ok authorized_tables[of "onWorld g (en_db st)" "en_db st"] by simp
  qed
qed

definition settlementRun :: "('p, 'x) SettlementEnv \<Rightarrow> WebhookEndpoint list \<Rightarrow> 'p SettlementTables \<Rightarrow> 'p SettlementStep list \<Rightarrow> 'p SettlementTables EffectDb" where
  "settlementRun env eps w steps = en_db (fold (settlementStep env) steps (startState eps w))"

lemma settlementRun_ok: "authorizedOk (settlementRun env eps w steps)"
  unfolding settlementRun_def by (rule settlement.run_inv) (simp add: startState_def authorizedOk_def)

definition mayIssue :: "OperationRow \<Rightarrow> bool" where
  "mayIssue o' \<longleftrightarrow> so_operationKind o' = ''order_paid_transition''
     \<or> so_operationKind o' \<in> {''stripe_invoice_paid'', ''operator_resolution''} \<and> so_classification o' = Some FirstCycle"

lemma entitled_issue: "''license_issue'' \<in> set (entitled o') \<Longrightarrow> mayIssue o'"
proof -
  assume a: "''license_issue'' \<in> set (entitled o')"
  then obtain policy where p: "map_of OPERATION_POLICY (so_operationKind o') = Some policy" by (cases "map_of OPERATION_POLICY (so_operationKind o')") (auto simp: entitled_def)
  show ?thesis
  proof (cases "so_operationKind o' = ''stripe_invoice_paid'' \<or> so_operationKind o' = ''operator_resolution''")
    case True
    then obtain c where "so_classification o' = Some c" "''license_issue'' \<in> set (INVOICE_AUTHORIZED_EFFECTS c)"
      using a by (cases "so_classification o'") (auto simp: entitled_def p)
    then show ?thesis using True by (cases c) (auto simp: mayIssue_def)
  next
    case False
    then have "''license_issue'' \<in> set (pol_effects policy)" using a by (simp add: entitled_def p)
    then show ?thesis using False map_of_SomeD[OF p] by (auto simp: OPERATION_POLICY_def mayIssue_def)
  qed
qed

lemma entitledBy_issue:
  "\<lbrakk>entitledBy ops r; ef_effectKind r = ''license_issue''\<rbrakk> \<Longrightarrow> list_ex (\<lambda>o'. operationKey o' = (ef_operationKind r, ef_operationId r) \<and> mayIssue o') ops"
  using entitled_issue by (fastforce simp: entitledBy_def list_ex_iff)


section \<open>Paying an order consumes its holds\<close>

lemma enumerated_member: "(n, m) \<in> set (enumerate 0 ms) \<Longrightarrow> m \<in> set ms"
  by (auto simp: in_set_enumerate_eq)

lemma adoptPending_order: "adoptPending op rows out db = (out', db') \<Longrightarrow> ao_orderId out' = ao_orderId out"
  by (auto simp: adoptPending_def split: list.splits option.splits if_splits)

lemma orSet_Some [simp]: "orSet (Some x) v = Some x"
  by (simp add: orSet_def)

lemma mutation_order:
  assumes "applyMutation env now op pre (n, m) (out, db) = Inr (out', db')" "\<not> isOrderPaid m" "purgedOrder m = None" "ao_orderId out = Some i"
  shows "ao_orderId out' = Some i"
proof (cases m)
  case (PaymentInsertM rows)
  show ?thesis
  proof (cases "case pre of Some (k, _) \<Rightarrow> k = n | None \<Rightarrow> False")
    case False
    then obtain ids db1 where "(case ids of i # _ \<Rightarrow> Inr (out\<lparr>ao_paymentId := orSet (ao_paymentId out) (Some i)\<rparr>, db1) | [] \<Rightarrow> Inr (adoptPending op rows out db1)) = (Inr (out', db') :: (Applied \<times> _) res)"
      using assms(1) by (auto simp: PaymentInsertM)
    then show ?thesis using assms(4) by (cases ids) (auto dest: adoptPending_order)
  qed (use assms in \<open>auto simp: PaymentInsertM\<close>)
next
  case (OrderInsertM rows)
  then show ?thesis using assms by (auto split: if_splits option.splits list.splits)
next
  case (InvoicePaymentRecordM row)
  then show ?thesis using assms by (auto simp: Let_def split: if_splits)
qed (use assms in \<open>auto split: if_splits\<close>)

lemma paid_applied:
  assumes "foldE (applyMutation env now op pre) ms (out, db) = Inr (out', db')" "\<forall>(n, m)\<in>set ms. \<forall>i a u. m = OrderPaidM i a u \<longrightarrow> i = orderId"
    "ao_orderId out = Some orderId \<or> (\<exists>n a u. (n, OrderPaidM orderId a u) \<in> set ms)" "\<forall>(n, m)\<in>set ms. purgedOrder m = None"
  shows "ao_orderId out' = Some orderId"
  using assms
proof (induction ms arbitrary: out db)
  case (Cons nm ms)
  obtain n m where nm: "nm = (n, m)" by (cases nm)
  from Cons.prems obtain out1 db1 where 1: "applyMutation env now op pre (n, m) (out, db) = Inr (out1, db1)"
    and 2: "foldE (applyMutation env now op pre) ms (out1, db1) = Inr (out', db')" by (auto simp: nm)
  have "ao_orderId out1 = Some orderId \<or> (\<exists>n a u. (n, OrderPaidM orderId a u) \<in> set ms)"
  proof (cases "isOrderPaid m")
    case True
    then obtain i a u where m: "m = OrderPaidM i a u" by (cases m) auto
    then have "i = orderId" using Cons.prems(2) by (auto simp: nm)
    then show ?thesis using 1 by (auto simp: m split: option.splits if_splits)
  next
    case False
    have "ao_orderId out1 = Some orderId" if "ao_orderId out = Some orderId"
      using mutation_order[OF 1 False _ that] Cons.prems(4) by (simp add: nm)
    then show ?thesis using Cons.prems(3) False by (auto simp: nm)
  qed
  then show ?case using Cons.prems(2,4) by (intro Cons.IH[OF 2]) auto
qed simp

lemma paid_order_applied:
  assumes a: "applyMutations env now op pre db = Inr (applied, db')" and np: "noPurge op"
    and paid: "OrderPaidM orderId paidAt upd \<in> set (sp_mutations op)" and only: "\<forall>i a u. OrderPaidM i a u \<in> set (sp_mutations op) \<longrightarrow> i = orderId"
  shows "ao_orderId applied = Some orderId"
proof (rule paid_applied[OF a[unfolded applyMutations_def]])
  show "\<forall>(n, m)\<in>set (enumerate 0 (sp_mutations op)). \<forall>i a u. m = OrderPaidM i a u \<longrightarrow> i = orderId" using only by (auto dest!: enumerated_member)
  obtain n where "n < length (sp_mutations op)" "sp_mutations op ! n = OrderPaidM orderId paidAt upd" using paid by (auto simp: in_set_conv_nth)
  then have "(n, OrderPaidM orderId paidAt upd) \<in> set (enumerate 0 (sp_mutations op))" by (simp add: in_set_enumerate_eq)
  then show "ao_orderId \<lparr>ao_paymentId = None, ao_invoicePaymentId = None, ao_orderId = None\<rparr> = Some orderId
    \<or> (\<exists>n a u. (n, OrderPaidM orderId a u) \<in> set (enumerate 0 (sp_mutations op)))" by blast
  show "\<forall>(n, m)\<in>set (enumerate 0 (sp_mutations op)). purgedOrder m = None" using np enumerated unfolding noPurge_def by fast
qed

lemma consumeForSettlement_none:
  assumes c: "consumeForSettlement env now orderId paymentId operationId h = Inr (rows, h')" and o': "orderRow h orderId = Some o'" "co_state o' = Paid"
    and q: "\<not> financiallyQuarantined h orderId"
  shows "rs_rows h' = map (\<lambda>r. if heldOf orderId r then markConsumed now paymentId operationId r else r) (rs_rows h)"
proof (cases "list_ex (heldOf orderId) (rs_rows h)")
  case True
  then have "consumeCore env now orderId paymentId operationId True h = Inr (rows, h')" using c o' by (simp add: consumeForSettlement_def)
  then show ?thesis using q o' by (auto simp: consumeCore_def orderState_def updateReturning_def split: prod.splits option.splits)
next
  case False
  then have "h' = h" using c by (simp add: consumeForSettlement_def)
  then show ?thesis using False by (simp add: list_ex_iff map_idI)
qed

lemma settleCredit_consumes:
  assumes s: "settleCredit env now op operationId applied db = Inr (res, db')" and k: "sp_kind op \<in> set CONSUMING_KINDS"
    and a: "ao_orderId applied = Some orderId" "orderId \<noteq> []" and o': "orderOf db orderId = Some o'" "co_state o' = Paid" and q: "\<not> orderQuarantined db orderId"
  shows "\<exists>paymentId. rs_rows (st_holds (eq_world db')) = map (\<lambda>r. if heldOf orderId r then markConsumed now paymentId operationId r else r) (rs_rows (st_holds (eq_world db)))"
proof -
  obtain c cs where i: "orderId = c # cs" using a(2) by (cases orderId) auto
  obtain rec db1 where p: "postAcceptedCredit env orderId db = (rec, db1)" by fastforce
  define pid where "pid = (case ao_paymentId applied of Some i \<Rightarrow> Some i | None \<Rightarrow> latestSettledPaymentId db orderId)"
  have "settledOrder op applied db = Some (c # cs)" using a(1) by (simp add: settledOrder_def i)
  with s k q p obtain consumed holds where
    c: "consumeForSettlement (sv_holds env) now orderId pid operationId (st_holds (eq_world db1)) = Inr (consumed, holds)"
    and db': "db' = onWorld (\<lambda>t. t\<lparr>st_holds := holds\<rparr>) db1"
    by (auto simp: settleCredit_def Let_def i pid_def[unfolded i])
  have "ordersOf db1 = ordersOf db" using postAcceptedCredit_same(1)[OF p] by (simp add: sameMoney_def)
  then have row: "orderRow (st_holds (eq_world db1)) orderId = Some o'" using o'(1) by (simp add: orderRow_def orderOf_def ordersOf_def)
  have nq: "\<not> financiallyQuarantined (st_holds (eq_world db1)) orderId" using q o'(1) by (simp add: financiallyQuarantined_def row orderQuarantined_def)
  from consumeForSettlement_none[OF c row o'(2) nq] show ?thesis using postAcceptedCredit_same(2)[OF p] by (auto simp: db')
qed


section \<open>Examples\<close>

definition demoSettleEnv :: "(unit, unit) SettlementEnv" where
  "demoSettleEnv = \<lparr>sv_scope = Some ''s'',
     sv_engine = \<lparr>ee_newId = (\<lambda>rows. CHR ''e'' # replicate (length rows) CHR ''x''), ee_String = (\<lambda>_. []), ee_handlers = (\<lambda>_. None)\<rparr>,
     sv_holds = demoHoldEnv, sv_paymentId = (\<lambda>rows. CHR ''p'' # replicate (length rows) CHR ''x''), sv_invoiceId = (\<lambda>_. ''i''), sv_orderId = (\<lambda>_. ''o''),
     sv_operationId = (\<lambda>rows. CHR ''s'' # replicate (length rows) CHR ''x''), sv_token = (\<lambda>i. i), sv_readSnapshot = (\<lambda>_ _. Inr None)\<rparr>"

definition demoSettleDb :: "unit SettlementDb" where
  "demoSettleDb = \<lparr>eq_effects = [], eq_operations = [], eq_receipts = [], eq_audit = [], eq_endpoints = [], eq_deliveries = [],
     eq_world = \<lparr>st_holds = demoHoldDb\<lparr>rs_credit := (rs_credit demoHoldDb)\<lparr>cd_orders := map (\<lambda>o'. o'\<lparr>co_state := PendingPayment\<rparr>) (cd_orders (rs_credit demoHoldDb))\<rparr>\<rparr>,
       st_payments = [], st_invoicePayments = [], st_orderColumns = [\<lparr>oc_id = ''o1'', oc_placedAt = None, oc_updatedAt = 0, oc_pricingSnapshot = None\<rparr>]\<rparr>\<rparr>"

definition demoPaymentRow :: "string \<Rightarrow> string option \<Rightarrow> PaymentInsert" where
  "demoPaymentRow method account = \<lparr>pi_id = None, pi_orderId = ''o1'', pi_amount = 100, pi_gatewayAccount = account, pi_gatewayMode = Some ''live'', pi_currency = Some ''USD'',
     pi_method = method, pi_providerRef = Some ''ref1'', pi_state = Some PaymentSettledState, pi_metadata = None, pi_errorMessage = None\<rparr>"

definition demoOp :: "string \<Rightarrow> string \<Rightarrow> SettlementMutation list \<Rightarrow> EffectRequest list \<Rightarrow> SettlementOperation" where
  "demoOp kind i ms es = \<lparr>sp_storeId = ''s'', sp_kind = kind, sp_operationId = i, sp_provider = None, sp_classification = None, sp_resolution = None, sp_disposition = None,
     sp_orderId = None, sp_mutations = ms, sp_effects = es, sp_effectMode = DeferredEffects\<rparr>"

definition demoSettleOp :: SettlementOperation where
  "demoSettleOp = demoOp ''payment_settled'' ''first'' [PaymentInsertM [demoPaymentRow ''stripe'' (Some ''acct'')]] []"

definition demoPayOp :: SettlementOperation where
  "demoPayOp = demoOp ''order_paid_transition'' ''o1'' [OrderPaidM ''o1'' 5 None] (paidOrderEffects ''o1'' None ''t'' SettleVariant None None False)"

definition recorded :: "(SettlementResult \<times> unit SettlementDb) res \<Rightarrow> bool" where
  "recorded res = (case res of Inr (r, _) \<Rightarrow> sr_created r | Inl _ \<Rightarrow> False)"

lemma recordedE: "recorded res \<Longrightarrow> \<exists>r db. res = Inr (r, db) \<and> sr_created r"
  by (auto simp: recorded_def split: sum.splits)

text \<open>The tables after a sequence of recordings.\<close>

definition afterAll :: "SettlementOperation list \<Rightarrow> unit SettlementDb \<Rightarrow> unit SettlementDb" where
  "afterAll ops db = fold (\<lambda>op d. case recordSettlement demoSettleEnv 5 op d of Inr (_, d') \<Rightarrow> d' | Inl _ \<Rightarrow> d) ops db"

text \<open>The unique index of the payments tells the accounts of a gateway apart, the look-up after a conflict does not: once
  an account's payment with the reference is settled, the settlement of another account's pending payment with
  the same reference is taken for a replay of the first, and its payment is left pending without an operation.\<close>

definition otherAccount :: "SettlementOperation list" where
  "otherAccount = [demoOp ''payment_settled'' ''a'' [PaymentInsertM [demoPaymentRow ''nmi'' (Some ''A'')]] [],
     demoOp ''payment_state_progress'' ''b'' [PaymentInsertM [(demoPaymentRow ''nmi'' (Some ''B''))\<lparr>pi_state := Some PaymentPending\<rparr>]] []]"

lemma other_account_swallowed:
  "(case recordSettlement demoSettleEnv 6 (demoOp ''payment_settled'' ''b'' [PaymentInsertM [demoPaymentRow ''nmi'' (Some ''B'')]] []) (afterAll otherAccount demoSettleDb) of
      Inr (r, db) \<Rightarrow> sr_replayed r \<and> sr_paymentId r = Some ''p''
        \<and> map (\<lambda>p. (py_gatewayAccount p, py_state p)) (paymentsOf db) = [(Some ''A'', PaymentSettledState), (Some ''B'', PaymentPending)] \<and> length (eq_operations db) = 1
    | Inl _ \<Rightarrow> False)"
  by code_simp

text \<open>An operator's resolution may pay an order, and is not of a consuming kind: the order's hold stays held.\<close>

definition operatorPays :: "SettlementOperation list" where
  "operatorPays = [(demoOp ''stripe_invoice_paid'' ''in1'' [] [])\<lparr>sp_classification := Some Unresolved\<rparr>,
     (demoOp ''operator_resolution'' ''stripe_invoice_paid:in1:1'' [OrderPaidM ''o1'' 5 None] [])\<lparr>sp_classification := Some FirstCycle,
       sp_resolution := Some \<lparr>rn_targetKind = ''stripe_invoice_paid'', rn_targetId = ''in1'', rn_action = ApplyResolution, rn_actor = ''admin'', rn_reason = ''paid''\<rparr>\<rparr>]"

lemma operator_leaves_holds:
  "map_option co_state (orderOf (afterAll operatorPays demoSettleDb) ''o1'') = Some Paid
     \<and> list_ex (heldOf ''o1'') (rs_rows (st_holds (eq_world (afterAll operatorPays demoSettleDb))))"
  by code_simp

lemma demo_recorded: "recorded (recordSettlement demoSettleEnv 5 demoSettleOp demoSettleDb)"
  by code_simp

lemma demo_paid: "recorded (recordSettlement demoSettleEnv 5 demoPayOp demoSettleDb)"
  by code_simp

section \<open>Properties\<close>

text \<open>C4: A fact is recorded once. When a settlement operation that owns a row was recorded, and the store has no payment
  with the same reference on another account of the gateway, recording it again, at any later time before other
  changes, returns the stored operation and its effects and changes no table at all: no second payment, transition,
  consumption, posting, effect or audit entry.\<close>

theorem settlement_idempotent:
  assumes rec: "recordSettlement env now op db = Inr (r, db')" and created: "sr_created r"
    and kind: "sp_kind op \<notin> set MONOTONE_KINDS" "sp_kind op \<noteq> ''order_purge''" and clean: "refClean op db"
  shows "\<exists>r2. recordSettlementOperation env later op db' = Inr (r2, db') \<and> sr_replayed r2 \<and> \<not> sr_created r2
     \<and> sr_operationRowId r2 = sr_operationRowId r \<and> set (sr_effectIds r) \<subseteq> set (sr_effectIds r2)"
proof (rule recorded_once[OF rec created kind])
  fix allowed op1 a1 operationId pre db1 e
  assume check: "checkOperation env op = Inr allowed" and q1: "quarantine op allowed db = Inr (op1, a1)"
    and i: "resolveIdentity env now op1 db = Inr ((operationId, pre), db1)" and k: "keeps True db db'" and k1: "keeps True db1 db'"
    and made: "list_all (made db') (sp_mutations op1)" and e: "storedOperation db' (sp_kind op) operationId = Some e"
    and cl: "so_classification e = sp_classification op" and row: "sr_operationRowId r = Some (so_id e)"
    and res: "\<exists>ids. checkResolution op1 a1 operationId db1 = Inr ids"
    and ops: "set (map operationKey (eq_operations db1)) \<subseteq> set (map operationKey (eq_operations db'))"
    and eff: "\<forall>i\<in>set (sr_effectIds r). \<exists>f\<in>set (eq_effects db'). ef_id f = i \<and> ef_operationKind f = sp_kind op \<and> ef_operationId f = operationId"
  obtain op2 a2 where q2: "quarantine op allowed db' = Inr (op2, a2)" using quarantine_total[OF policy_noPurge[OF check kind(2)]] by blast
  note s1 = quarantine_same[OF q1] and s2 = quarantine_same[OF q2]
  obtain pre' where r2: "resolveIdentity env later op2 db' = Inr ((operationId, pre'), db')" using resolves_same[OF q1 q2 clean i k1] by blast
  have acc: "\<not> list_ex (replayRefused db') (sp_mutations op2)"
    using made quarantine_again[OF q1 q2 k] made_accepted by (fastforce simp: list_all_iff list_ex_iff)
  obtain ids where "checkResolution op1 a1 operationId db1 = Inr ids" using res by blast
  then obtain ids' where res2: "checkResolution op2 a2 operationId db' = Inr ids'"
    using checkResolution_again[OF _ ops, of op1 a1 operationId ids op2 a2] e resolution_kind[OF check] s1(5) s2(5) by auto
  let ?r2 = "\<lparr>sr_created = False, sr_replayed = True, sr_operationRowId = Some (so_id e), sr_paymentId = so_paymentId e, sr_invoicePaymentId = so_invoicePaymentId e,
    sr_effectIds = map ef_id (filter (\<lambda>f. ef_operationKind f = sp_kind op2 \<and> ef_operationId f = operationId) (eq_effects db')),
    sr_storedClassification = so_classification e, sr_creditReconciliation = None\<rparr>"
  have "replayAudit op2 e db' = db'" using cl s2(4) by (auto simp: replayAudit_def split: option.splits)
  then have "recordSettlement env later op db' = Inr (?r2, db')"
    using check q2 r2 res2 e acc kind(1) s2(1) by (simp add: recordSettlement_def recordOnce_def replaySettlement_def)
  then show ?thesis using row eff s2(1) by (intro exI[of _ ?r2]) (auto simp: recordSettlementOperation_def)
qed

theorem settlement_idempotent_witness:
  "\<exists>r db' r2. recordSettlement demoSettleEnv 5 demoSettleOp demoSettleDb = Inr (r, db') \<and> sr_created r
     \<and> recordSettlementOperation demoSettleEnv 9 demoSettleOp db' = Inr (r2, db') \<and> sr_replayed r2"
proof -
  obtain r db' where r: "recordSettlement demoSettleEnv 5 demoSettleOp demoSettleDb = Inr (r, db')" "sr_created r" using recordedE[OF demo_recorded] by blast
  have "sp_kind demoSettleOp \<notin> set MONOTONE_KINDS" "sp_kind demoSettleOp \<noteq> ''order_purge''" "refClean demoSettleOp demoSettleDb" by code_simp+
  from settlement_idempotent[OF r this, of 9] show ?thesis using r by blast
qed

text \<open>C13: Recording never loses money or moves an order off its lifecycle: whatever the operation, every payment of an
  order that it does not purge is still there with its order, amount, method and reference, settled if it was settled,
  and every such order is still there, in the state it had or in Paid, which its state could become.\<close>

theorem settled_money_kept:
  assumes "recordSettlement env now op db = Inr (r, db')"
  shows "(\<forall>p\<in>set (paymentsOf db). py_orderId p \<in> purgedBy op \<or> (\<exists>q\<in>set (paymentsOf db'). samePayment False p q))
     \<and> (\<forall>i o1. orderOf db i = Some o1 \<longrightarrow> i \<in> purgedBy op \<or> (\<exists>o2. orderOf db' i = Some o2 \<and> orderMoves o1 o2))"
  using recordSettlement_keepsBut[OF assms] by (simp add: keepsBut_def)

theorem settled_money_kept_witness:
  "\<exists>r db' o2. recordSettlement demoSettleEnv 5 demoPayOp demoSettleDb = Inr (r, db') \<and> orderOf db' ''o1'' = Some o2 \<and> co_state o2 \<in> {PendingPayment, Paid}"
proof -
  obtain r db' where r: "recordSettlement demoSettleEnv 5 demoPayOp demoSettleDb = Inr (r, db')" using recordedE[OF demo_paid] by blast
  obtain o1 where o1: "orderOf demoSettleDb ''o1'' = Some o1" "co_state o1 = PendingPayment"
    by (simp add: orderOf_def ordersOf_def demoSettleDb_def demoHoldDb_def)
  have "''o1'' \<notin> purgedBy demoPayOp" by (simp add: purgedBy_def demoPayOp_def demoOp_def)
  with settled_money_kept[OF r] o1(1) obtain o2 where "orderOf db' ''o1'' = Some o2" "orderMoves o1 o2" by blast
  then show ?thesis using r o1(2) by (auto simp: orderMoves_def)
qed


end
