(* ===== verification/Spec2Isabelle.thy ===== *)
theory Spec2Isabelle
  imports StackLaws LedgerLaws CreditLaws StockLaws OrderMoney OutboundLaws LeaseLaws TokenLaws SecondFactorLaws SweepLaws UnpaidLaws DrainLaws SettlementRuns
begin

text \<open>
  SellRight: a verification library of the API's commerce core.

  The API (packages/api/src) prices carts and orders, keeps points and account credit in append-only
  ledgers, edits placed orders, reserves stock and other things for them until payment settles or the
  order is cancelled, records settlements and runs the effects they authorize, issues and enforces software licences, guards admin sign-in, and calls out to
  other servers. This development models those parts and proves what makes them correct. Paths below
  are relative to packages/api/src unless they start with packages/.

  \<^bold>\<open>The parts and the theories that model them\<close>

  \<^item> \<open>Prelude\<close>: thrown errors as values (\<open>'a res\<close>), the loop combinators, the interfaces \<open>machine\<close> and
    \<open>guarded_machine\<close> that turn "every operation keeps the invariant" into "every run keeps it",
    ASCII text. \<open>JsNumber\<close>: rounding of IEEE doubles as an interface (\<open>fp_rounding\<close>) with the concrete
    rounding to 53 bits as its instance. \<open>JsText\<close>: JSON values and the text functions the code calls.
  \<^item> \<open>Money\<close>: packages/shared/src/money.ts, money/tax.ts, money/currency.ts, money/pricing.ts,
    money/gift-card.ts, money/fsm.ts. \<open>Totals\<close>: money/totals.ts and the order part of
    money/pricing-snapshot.ts. \<open>Coupon\<close>: money/coupon.ts, money/coupon-context.ts,
    money/auto-discount.ts. \<open>PromotionStack\<close> with \<open>StackLaws\<close>: money/promotion-stack.ts.
  \<^item> \<open>Loyalty\<close>: money/loyalty.ts, the pure point arithmetic. \<open>Ledger\<close> with \<open>LedgerLaws\<close>: loyalty/ledger.ts and
    loyalty/bonus.ts as transactions on the loyalty tables, and the redemption of routes/checkout.ts.
  \<^item> \<open>CreditMath\<close>, \<open>EditFunding\<close> with \<open>EditFundingLaws\<close>: account-credit/math.ts and
    account-credit/edit-funding.ts, the pure planner and reader of restorations. \<open>CreditService\<close> with
    \<open>CreditLaws\<close>: account-credit/service.ts as transactions on the account and entry tables.
  \<^item> \<open>OrderEdit\<close>, \<open>OrderCommit\<close> with \<open>OrderLaws\<close>, \<open>StockLaws\<close>, \<open>OrderMoney\<close>: orders/order-edit.ts,
    orders/line-quantity.ts, orders/stock-reservation.ts, orders/status.ts, the grants of
    licensing/entitlements.ts and the stock and line writes of orders/order-edit-service.ts.
  \<^item> \<open>OutboundUrl\<close> with \<open>OutboundLaws\<close>: security/outbound-url.ts.
  \<^item> \<open>LicensePolicy\<close> with \<open>TokenLaws\<close>: licensing/device-policy.ts, entitlement-policy.ts, entitlements.ts,
    license-lifecycle.ts, renewal.ts, trial.ts and sign.ts. \<open>Activation\<close> with \<open>ActivationLaws\<close> and
    \<open>LeaseLaws\<close>: licensing/activations.ts, device-leases.ts and license-revocation.ts as transactions on
    the tables of db/schema-orders.ts.

  \<^item> \<open>Reservation\<close> with \<open>ReservationLaws\<close> and \<open>SweepLaws\<close>: payments/reservation.ts, the projections of
    payments/policy/transitions.ts and jobs/reservation-release-sweep.ts. \<open>UnpaidOrder\<close> with \<open>UnpaidLaws\<close>:
    orders/cancel-unpaid.ts and cart/reopen.ts, which join stock, lines, points, reservations and credit.
  \<^item> \<open>EffectQueue\<close> with \<open>EffectLaws\<close>, \<open>QueueLaws\<close> and \<open>DrainLaws\<close>: payments/settlement/ops.ts, effects.ts and
    issuance-approval.ts, the queue of pending effects, its worker and the approval of a held issuance.
    \<open>Settlement\<close> with \<open>SettlementLaws\<close> and \<open>SettlementRuns\<close>: payments/settlement/record.ts, the one place that writes
    payments, settles orders, consumes reservations, posts credit and records effects. The tables of the queue carry
    the tables of other components as their world, so the settlement record is composed of the definitions of
    \<open>Reservation\<close>, \<open>CreditService\<close> and \<open>EffectQueue\<close>.
  \<^item> \<open>SecondFactor\<close> with \<open>SecondFactorLaws\<close>: auth/totp.ts and auth/second-factor.ts.

  \<^bold>\<open>How state and operations correspond to the code\<close>

  A table is a list of records in insertion order; a transaction is a function from the tables to
  \<open>error + (answer, tables)\<close>, and an error leaves the tables as they were (the rollback). A conditional
  \<open>UPDATE\<close> is a map over the rows with the number of rows it hit; a unique index or a column out of
  range is an error. The row locks of the code make the transactions on one account, order or licence
  run one after another, which is why runs are sequences of operations. Whole cents are \<open>int\<close>; where the
  code divides or multiplies by a ratio it works in doubles, and so does the model, with the rounding
  \<open>fl\<close> written at each operation. The bounds under which the rounding is exact are part of the
  statements: amounts below \<open>2 ^ 24\<close> or \<open>2 ^ 31\<close> cents, as the theorem says, and \<open>2 ^ 53\<close> for safe
  integers. A \<open>jsonb\<close> or JSON text column is identified with the JSON value it holds.

  \<^bold>\<open>Parameters\<close>

  What is not in the repository is an argument: the ids a table or \<open>randomUUID\<close> draws, SHA-256 and other
  digests, Ed25519, Node's \<open>isIP\<close>, URL parser, DNS and transport, the clock, and the hooks a deployment
  registers (device policies, the entitlement policy, signed formats, payment policies), the handlers
  registered for the kinds of effects (arbitrary functions that may throw), HMAC, and what
  Stripe does between two transactions. Where a theorem needs something
  of them it is a named premise: ids that do not repeat, a signature scheme that accepts its own
  signatures.

  \<^bold>\<open>What the lemmas show\<close>

  \<^item> Money: a largest-remainder split conserves its amount and stays within a cent of each share; totals
    add up and no discount makes a line negative; tax extraction undoes tax addition; the promotion
    stack attributes every discounted cent and never raises a price.
  \<^item> Ledgers: over every run the points balances and the credit balances stay non-negative, equal to the
    sum of their entries and at least their holds; the fast balance equals the lot accounting; cancelling
    an order converges; an order edit's credit postings read back to exactly the announced state.
  \<^item> Orders: staging keeps shipped, refunded and cancelled units; a commit changes the allocated stock by
    exactly the change of units still to ship; refunds are attributed within the money each unit carried.
  \<^item> Licences: over every run no licence holds more live devices than its seats or pool caps allow, the
    activation table keeps its shape, a renewed lease id is dead for good, and a signed token verifies
    to the claims asked for and does not outlive its licence. \<open>LeaseLaws\<close> also holds the run in which a
    revoked lease comes back to life through the activate path.
  \<^item> Reservations: over every run, with any interleaving of order and payment changes, failing policies and
    stale reads, a thing has at most one live holder; each operation refines the table of transitions R1
    to R6, whose guards are the order's state and the provider's quiescence; the sweep examines every
    standing candidate within a rotation. Cancelling an unpaid order gives back its stock, holds and
    credit; a cart is reopened only over a cancelled order.
  \<^item> Effects: over every run with any number of workers, stale claimants, retries, requeues and approvals an effect
    is applied at most once, a batch respects the ranks within an operation, a superseded claimant can no longer
    write, every terminal effect has a review task, and a pass over due effects whose handlers complete leaves
    none open (the worker's rounds are bounded by the number of effect kinds, which suffices since each
    round finishes a rank). A pass is a run of the engine's transactions.
  \<^item> Settlement: a recorded fact is never recorded twice; recording keeps settled money and the order lifecycle; an
    effect exists only where its operation's policy and frozen classification entitle to it; paying an order
    consumes exactly its holds. \<open>SettlementRuns\<close> also holds two runs: another account's payment with the same
    reference is taken for a replay, and an operator's resolution that pays an order leaves its holds.
  \<^item> Sign-in: a time step is accepted at most once per admin and a recovery code once per set, whatever
    the clock does; a generated secret decodes to its bytes. The in-process guard of \<open>verifyTotp\<close> is
    weaker, and \<open>SecondFactorLaws\<close> holds the replay it admits.
  \<^item> Outbound requests: a fetch that answers talked to a public address that is not this host; the blocked
    IPv4 networks are exactly twelve; the response buffer stays within 8 MiB.

  \<^bold>\<open>Not modelled\<close>

  The admin and storefront applications, the mobile client and the deployment tools (user interface and
  glue); the HTTP routes but for the checkout redemption, since they parse requests and call the services
  above; the payment gateways and their reconciliation, the bodies of the effect handlers, e-mail, search and imports
  (calls to other systems); the database client,
  migrations and row-level security, which the models replace by tables and an explicit store. Inside
  the modelled files: the execution of an edit's settlement, its e-mail and its idempotency records, the
  reader of stored pricing snapshots, the cancellation race of a DNS lookup, and inherited property
  names of JavaScript objects. Text beyond ASCII is outside the model.

  \<^bold>\<open>Plan\<close>

  Next in order: refunds (payments/refunds.ts, payments/refund-credit.ts), the effect handlers
  (payments/settlement/handlers.ts) on the licence and loyalty models, the credited pricing of an edit
  (money/current-credit-pricing.ts), the edit stack (orders/order-edit-stack.ts), cart bounds and expiry
  (cart/bounds.ts, cart/ttl.ts) and shipping rates (shipping/calculator.ts).
\<close>

end
